(* ===== verification/Prelude.thy ===== *)
theory Prelude
  imports Main "HOL-Library.AList" "HOL-Library.Sublist" "HOL-Library.Word"
begin

text \<open>
  Shared vocabulary of the development.

  \<^item> The types the components have in common: identifiers, clock readings, durations, machine
    integers, JSON values and Rust's \<open>Result\<close>.
  \<^item> The part of Rust's \<open>str\<close> that the sources use.  A string is its list of bytes, so
    \<open>len\<close>, \<open>starts_with\<close>, \<open>ends_with\<close>, \<open>strip_prefix\<close>, \<open>contains\<close>, \<open>split\<close> and
    \<open>replace\<close> are exact; case mapping and white space are Rust's on ASCII text, bytes of
    other characters are left alone.
  \<^item> \<open>HashMap\<close> values are association lists (library theory AList): the order of the list is
    the order in which an iteration would visit the entries, about which nothing is assumed.
  \<^item> A generic interface, as a locale: a machine whose steps keep an invariant.
\<close>

section \<open>Types\<close>

type_synonym uuid = nat
type_synonym instant = nat
type_synonym duration = nat
text \<open>Clock readings and durations count nanoseconds.\<close>

definition SECS :: nat where
  "SECS = 1000000000"

definition HOUR :: duration where
  "HOUR = 3600 * SECS"

definition as_secs :: "duration \<Rightarrow> nat" where
  "as_secs d = d div SECS"

type_synonym u8 = "8 word"
type_synonym u32 = "32 word"
type_synonym u64 = "64 word"

text \<open>Rust's \<open>Result<T, E>\<close>: \<open>Inl\<close> carries the error, \<open>Inr\<close> the value.\<close>

type_synonym ('e, 'a) result = "'e + 'a"

abbreviation Ok :: "'a \<Rightarrow> ('e, 'a) result" where "Ok \<equiv> Inr"
abbreviation Err :: "'e \<Rightarrow> ('e, 'a) result" where "Err \<equiv> Inl"

text \<open>The shape of \<open>serde_json::Value\<close>; a number is kept as its literal.\<close>

datatype json =
    JNull
  | JBool bool
  | JNumber string
  | JString string
  | JArray "json list"
  | JObject "(string \<times> json) list"

named_theorems str_simps \<open>equations of the string operations\<close>
named_theorems keeps \<open>operations that keep the invariant of their component\<close>

section \<open>Strings\<close>

definition starts_with :: "string \<Rightarrow> string \<Rightarrow> bool" where
  "starts_with s p \<longleftrightarrow> take (length p) s = p"

definition ends_with :: "string \<Rightarrow> string \<Rightarrow> bool" where
  "ends_with s p \<longleftrightarrow> length p \<le> length s \<and> drop (length s - length p) s = p"

definition strip_prefix :: "string \<Rightarrow> string \<Rightarrow> string option" where
  "strip_prefix s p = (if starts_with s p then Some (drop (length p) s) else None)"

definition strip_suffix :: "string \<Rightarrow> string \<Rightarrow> string option" where
  "strip_suffix s p = (if ends_with s p then Some (take (length s - length p) s) else None)"

fun contains :: "string \<Rightarrow> string \<Rightarrow> bool" where
  "contains [] p \<longleftrightarrow> p = []"
| "contains (c # s) p \<longleftrightarrow> starts_with (c # s) p \<or> contains s p"

definition char_code :: "char \<Rightarrow> nat" where
  "char_code c = of_char c"

definition is_whitespace :: "char \<Rightarrow> bool" where
  "is_whitespace c \<longleftrightarrow> (9 \<le> char_code c \<and> char_code c \<le> 13) \<or> char_code c = 32"

definition trim_start :: "string \<Rightarrow> string" where
  "trim_start s = dropWhile is_whitespace s"

definition trim_end :: "string \<Rightarrow> string" where
  "trim_end s = rev (dropWhile is_whitespace (rev s))"

definition trim :: "string \<Rightarrow> string" where
  "trim s = trim_end (trim_start s)"

definition lower_char :: "char \<Rightarrow> char" where
  "lower_char c = (if 65 \<le> char_code c \<and> char_code c \<le> 90 then char_of (char_code c + 32) else c)"

definition upper_char :: "char \<Rightarrow> char" where
  "upper_char c = (if 97 \<le> char_code c \<and> char_code c \<le> 122 then char_of (char_code c - 32) else c)"

definition to_lowercase :: "string \<Rightarrow> string" where
  "to_lowercase s = map lower_char s"

definition to_uppercase :: "string \<Rightarrow> string" where
  "to_uppercase s = map upper_char s"

fun split_by :: "('a \<Rightarrow> bool) \<Rightarrow> 'a list \<Rightarrow> 'a list list" where
  "split_by P [] = [[]]"
| "split_by P (x # xs) =
     (if P x then [] # split_by P xs
      else (case split_by P xs of [] \<Rightarrow> [[x]] | w # ws \<Rightarrow> (x # w) # ws))"

definition split_on :: "'a \<Rightarrow> 'a list \<Rightarrow> 'a list list" where
  "split_on c s = split_by (\<lambda>x. x = c) s"

definition split_whitespace :: "string \<Rightarrow> string list" where
  "split_whitespace s = filter (\<lambda>w. w \<noteq> []) (split_by is_whitespace s)"

fun join :: "'a list \<Rightarrow> 'a list list \<Rightarrow> 'a list" where
  "join sep [] = []"
| "join sep [w] = w"
| "join sep (w # v # ws) = w @ sep @ join sep (v # ws)"

text \<open>
  \<open>str::replace\<close>: left to right, non-overlapping.  An empty pattern matches at every boundary.
\<close>

function replace_nonempty :: "string \<Rightarrow> string \<Rightarrow> string \<Rightarrow> string" where
  "replace_nonempty p r s =
     (if s = [] \<or> p = [] then s
      else if starts_with s p then r @ replace_nonempty p r (drop (length p) s)
      else hd s # replace_nonempty p r (tl s))"
  by pat_completeness auto
termination
  by (relation "measure (\<lambda>(p, r, s). length s)") auto

declare replace_nonempty.simps [simp del]

definition replace_str :: "string \<Rightarrow> string \<Rightarrow> string \<Rightarrow> string" where
  "replace_str s p r =
     (if p = [] then r @ concat (map (\<lambda>c. c # r) s) else replace_nonempty p r s)"

text \<open>Decimal rendering of an unsigned integer, as \<open>format!("{}", n)\<close> prints it.\<close>

fun nat_str :: "nat \<Rightarrow> string" where
  "nat_str n = (if n < 10 then [char_of (48 + n)] else nat_str (n div 10) @ [char_of (48 + n mod 10)])"

declare nat_str.simps [simp del]

section \<open>Vectors\<close>

text \<open>\<open>Vec::last_mut\<close>: change the last element, if there is one.\<close>

definition update_last :: "('a \<Rightarrow> 'a) \<Rightarrow> 'a list \<Rightarrow> 'a list" where
  "update_last f xs = (if xs = [] then [] else butlast xs @ [f (last xs)])"

text \<open>\<open>Iterator::position\<close>.\<close>

fun position :: "('a \<Rightarrow> bool) \<Rightarrow> 'a list \<Rightarrow> nat option" where
  "position p [] = None"
| "position p (x # xs) = (if p x then Some 0 else map_option Suc (position p xs))"

lemma position_Some:
  "position p xs = Some k \<Longrightarrow> k < length xs \<and> p (xs ! k) \<and> (\<forall>j < k. \<not> p (xs ! j))"
proof (induction xs arbitrary: k)
  case (Cons x xs)
  then show ?case by (cases k) (auto split: if_splits simp: less_Suc_eq_0_disj)
qed simp

lemma position_None: "position p xs = None \<longleftrightarrow> (\<forall>x \<in> set xs. \<not> p x)"
  by (induction xs) auto

lemma length_update_last [simp]: "length (update_last f xs) = length xs"
  by (simp add: update_last_def)

lemma update_last_Nil [simp]: "update_last f [] = []" "update_last f xs = [] \<longleftrightarrow> xs = []"
  by (auto simp: update_last_def)

lemma update_last_snoc [simp]: "update_last f (xs @ [x]) = xs @ [f x]"
  by (simp add: update_last_def)

lemma map_update_last: "(\<And>x. g (f x) = g x) \<Longrightarrow> map g (update_last f xs) = map g xs"
  by (cases xs rule: rev_cases) auto

lemma last_update_last: "xs \<noteq> [] \<Longrightarrow> last (update_last f xs) = f (last xs)"
  by (simp add: update_last_def)

section \<open>Lemmas on strings\<close>

lemma starts_with_prefix: "starts_with s p \<longleftrightarrow> prefix p s"
  by (auto simp: starts_with_def prefix_def) (metis append_take_drop_id)

lemma ends_with_suffix: "ends_with s p \<longleftrightarrow> suffix p s"
  by (auto simp: ends_with_def suffix_def) (metis append_take_drop_id)

lemma contains_sublist: "contains s p \<longleftrightarrow> sublist p s"
proof (induction s)
  case Nil
  then show ?case by simp
next
  case (Cons c s)
  then show ?case by (simp add: starts_with_prefix sublist_Cons_right)
qed

lemma starts_with_iff [str_simps]: "starts_with s p \<longleftrightarrow> (\<exists>t. s = p @ t)"
  by (simp add: starts_with_prefix prefix_def)

lemma ends_with_iff [str_simps]: "ends_with s p \<longleftrightarrow> (\<exists>t. s = t @ p)"
  by (simp add: ends_with_suffix suffix_def)

lemma contains_iff [str_simps]: "contains s p \<longleftrightarrow> (\<exists>t u. s = t @ p @ u)"
  by (simp add: contains_sublist sublist_def)

lemma strip_prefix_Some [str_simps]: "strip_prefix s p = Some t \<longleftrightarrow> s = p @ t"
  by (auto simp: strip_prefix_def starts_with_iff)

lemma strip_suffix_Some [str_simps]: "strip_suffix s p = Some t \<longleftrightarrow> s = t @ p"
  by (auto simp: strip_suffix_def ends_with_iff)

lemma strip_suffix_None: "strip_suffix s p = None \<longleftrightarrow> \<not> ends_with s p"
  by (simp add: strip_suffix_def)

lemma strip_prefix_None: "strip_prefix s p = None \<longleftrightarrow> \<not> starts_with s p"
  by (simp add: strip_prefix_def)

lemma char_code_lt: "char_code c < 256"
  by (simp add: char_code_def)

lemma char_code_char_of [simp]: "n < 256 \<Longrightarrow> char_code (char_of n) = n"
  by (simp add: char_code_def)

lemma lower_char_fixed:
  assumes "\<not> (97 \<le> char_code d \<and> char_code d \<le> 122)" and "lower_char c = d"
  shows "c = d"
proof (rule ccontr)
  assume "c \<noteq> d"
  with assms(2) have c: "65 \<le> char_code c" "char_code c \<le> 90" "char_of (char_code c + 32) = d"
    by (auto simp: lower_char_def split: if_splits)
  then have "char_code d = char_code c + 32"
    using char_code_char_of [of "char_code c + 32"] by simp
  with c assms(1) show False by simp
qed

lemma lower_char_idem [simp]: "lower_char (lower_char c) = lower_char c"
  using char_code_lt [of c] by (auto simp: lower_char_def)

lemma upper_char_idem [simp]: "upper_char (upper_char c) = upper_char c"
  using char_code_lt [of c] by (auto simp: upper_char_def)

lemma to_lowercase_idem [simp]: "to_lowercase (to_lowercase s) = to_lowercase s"
  by (simp add: to_lowercase_def)

lemma to_uppercase_idem [simp]: "to_uppercase (to_uppercase s) = to_uppercase s"
  by (simp add: to_uppercase_def)

lemma length_to_lowercase [simp]: "length (to_lowercase s) = length s"
  by (simp add: to_lowercase_def)

lemma to_lowercase_append [simp]: "to_lowercase (s @ t) = to_lowercase s @ to_lowercase t"
  by (simp add: to_lowercase_def)

lemma to_lowercase_eq_Nil [simp]: "to_lowercase s = [] \<longleftrightarrow> s = []"
  by (simp add: to_lowercase_def)

lemma is_whitespace_lower [simp]: "is_whitespace (lower_char c) = is_whitespace c"
  using char_code_lt [of c] by (auto simp: is_whitespace_def lower_char_def)

lemma dropWhile_map_inv: "(\<And>x. P (f x) = P x) \<Longrightarrow> dropWhile P (map f xs) = map f (dropWhile P xs)"
  by (induction xs) auto

lemma trim_to_lowercase: "trim (to_lowercase s) = to_lowercase (trim s)"
  by (simp add: trim_def trim_end_def trim_start_def to_lowercase_def dropWhile_map_inv rev_map)

lemma trim_start_idem [simp]: "trim_start (trim_start s) = trim_start s"
  by (simp add: trim_start_def)

lemma trim_end_idem [simp]: "trim_end (trim_end s) = trim_end s"
  by (simp add: trim_end_def)

lemma hd_dropWhile_rev:
  assumes "s = [] \<or> \<not> P (hd s)"
  shows "rev (dropWhile P (rev s)) = [] \<or> \<not> P (hd (rev (dropWhile P (rev s))))"
proof (cases s)
  case Nil
  then show ?thesis by simp
next
  case (Cons c t)
  with assms have "\<not> P c" by simp
  then have "dropWhile P (rev s) = dropWhile P (rev t) @ [c] \<or> dropWhile P (rev s) = [c]"
    using Cons by (cases "\<forall>x \<in> set (rev t). P x") (auto simp: dropWhile_append)
  with \<open>\<not> P c\<close> show ?thesis by auto
qed

lemma trim_start_trim [simp]: "trim_start (trim s) = trim s"
proof -
  have "trim_start s = [] \<or> \<not> is_whitespace (hd (trim_start s))"
    unfolding trim_start_def by (metis hd_dropWhile dropWhile_eq_Nil_conv)
  then have "trim s = [] \<or> \<not> is_whitespace (hd (trim s))"
    unfolding trim_def trim_end_def by (rule hd_dropWhile_rev)
  then show ?thesis by (cases "trim s") (auto simp: trim_start_def)
qed

lemma trim_idem [simp]: "trim (trim s) = trim s"
  by (metis trim_def trim_end_idem trim_start_trim)

lemma split_by_not_Nil [simp]: "split_by P s \<noteq> []"
  by (induction s) (auto split: list.splits)

lemma split_by_no_sep: "w \<in> set (split_by P s) \<Longrightarrow> x \<in> set w \<Longrightarrow> \<not> P x"
proof (induction s arbitrary: w)
  case Nil
  then show ?case by simp
next
  case (Cons y s)
  then show ?case by (fastforce split: list.splits if_splits)
qed

lemma split_by_chars: "w \<in> set (split_by P s) \<Longrightarrow> set w \<subseteq> set s"
proof (induction s arbitrary: w)
  case Nil
  then show ?case by simp
next
  case (Cons x s)
  then show ?case by (fastforce split: list.splits if_splits)
qed

lemma split_by_single: "\<forall>x \<in> set s. \<not> P x \<Longrightarrow> split_by P s = [s]"
  by (induction s) auto

lemma join_Cons: "ws \<noteq> [] \<Longrightarrow> join sep (w # ws) = w @ sep @ join sep ws"
  by (cases ws) auto

text \<open>Splitting and joining at the same separator are inverse.\<close>

lemma join_split_on [str_simps]: "join [c] (split_on c s) = s"
proof (induction s)
  case Nil
  then show ?case by (simp add: split_on_def)
next
  case (Cons x s)
  obtain w ws where ws: "split_by (\<lambda>x. x = c) s = w # ws"
    by (metis list.exhaust split_by_not_Nil)
  from Cons have "join [c] (w # ws) = s" by (simp add: split_on_def ws)
  then show ?case by (cases ws) (auto simp: split_on_def ws)
qed

lemma split_by_append_sep:
  "\<forall>x \<in> set w. \<not> P x \<Longrightarrow> P c \<Longrightarrow> split_by P (w @ c # s) = w # split_by P s"
  by (induction w) auto

lemma split_on_join:
  "ws \<noteq> [] \<Longrightarrow> \<forall>w \<in> set ws. c \<notin> set w \<Longrightarrow> split_on c (join [c] ws) = ws"
proof (induction ws rule: induct_list012)
  case 1
  then show ?case by simp
next
  case (2 w)
  then show ?case by (auto simp: split_on_def intro!: split_by_single)
next
  case (3 w v ws)
  then have "\<forall>x \<in> set w. \<not> x = c" by auto
  from split_by_append_sep [of w "\<lambda>x. x = c" c, OF this]
  have "split_on c (w @ c # join [c] (v # ws)) = w # split_on c (join [c] (v # ws))"
    by (simp add: split_on_def)
  with 3 show ?case by simp
qed

lemma split_whitespace_words:
  "w \<in> set (split_whitespace s) \<Longrightarrow> w \<noteq> [] \<and> (\<forall>c \<in> set w. \<not> is_whitespace c)"
  by (auto simp: split_whitespace_def dest: split_by_no_sep)

lemma split_by_append: "P x \<Longrightarrow> split_by P (a @ x # b) = split_by P a @ split_by P b"
  by (induction a) (auto split: list.splits)

lemma words_append: "is_whitespace x \<Longrightarrow> split_whitespace (a @ x # b) = split_whitespace a @ split_whitespace b"
  by (simp add: split_whitespace_def split_by_append)

lemma whitespace_chars [simp]: "is_whitespace (CHR '' '')" "is_whitespace (CHR 0x0A)"
  by (simp_all add: is_whitespace_def char_code_def)

lemma split_whitespace_join:
  "\<forall>w \<in> set ws. w \<noteq> [] \<and> (\<forall>c \<in> set w. \<not> is_whitespace c) \<Longrightarrow> split_whitespace (join '' '' ws) = ws"
proof (induction "'' ''" ws rule: join.induct)
  case (3 w v ws)
  then show ?case by (simp add: split_whitespace_def split_by_append_sep)
qed (auto simp: split_whitespace_def split_by_single)

section \<open>Lemmas on association lists\<close>

lemma distinct_map_of_update:
  "map_of (AList.update k v m) = (map_of m)(k \<mapsto> v)"
  by (simp add: update_conv')

lemma map_of_alist_delete [simp]: "map_of (AList.delete k m) = (map_of m)(k := None)"
  by (simp add: delete_conv')

lemma set_update_subset: "set (AList.update k v al) \<subseteq> insert (k, v) (set al)"
  by (induction al) auto

lemma set_delete_subset: "set (AList.delete k al) \<subseteq> set al"
  by (induction al) auto

lemma length_filter_update_le:
  "length (filter (\<lambda>(k, v). P v) (AList.update k v m)) \<le> Suc (length (filter (\<lambda>(k, v). P v) m))"
  by (induction m) auto

lemma length_filter_update_not:
  "\<not> P v \<Longrightarrow> length (filter (\<lambda>(k, v). P v) (AList.update k v m)) \<le> length (filter (\<lambda>(k, v). P v) m)"
  by (induction m) auto

lemma length_filter_update_same:
  "distinct (map fst m) \<Longrightarrow> map_of m k = Some u \<Longrightarrow> P v \<longrightarrow> P u \<Longrightarrow>
   length (filter (\<lambda>(k, v). P v) (AList.update k v m)) \<le> length (filter (\<lambda>(k, v). P v) m)"
  by (induction m) (auto split: if_splits)

lemma length_filter_delete_le:
  "length (filter P (AList.delete k m)) \<le> length (filter P m)"
  by (induction m) auto

lemma map_of_filter_snd:
  "distinct (map fst m) \<Longrightarrow>
   map_of (filter (\<lambda>(k, v). P v) m) k = (case map_of m k of Some v \<Rightarrow> if P v then Some v else None | None \<Rightarrow> None)"
proof (induction m)
  case Nil
  then show ?case by simp
next
  case (Cons e m)
  then show ?case
    by (cases e) (auto split: option.splits simp: map_of_eq_None_iff image_iff)
qed

section \<open>Replacing\<close>

lemma replace_set: "set (replace_nonempty p r s) \<subseteq> set s \<union> set r"
proof (induction p r s rule: replace_nonempty.induct)
  case (1 p r s)
  show ?case
  proof (cases "s = [] \<or> p = []")
    case True
    then show ?thesis by (subst replace_nonempty.simps) auto
  next
    case False
    then have "set (tl s) \<subseteq> set s" "hd s \<in> set s" "set (drop (length p) s) \<subseteq> set s"
      by (auto simp: list.set_sel set_drop_subset)
    with False 1 show ?thesis by (subst replace_nonempty.simps) auto
  qed
qed

section \<open>Words\<close>

lemma unat_lt_2p: "unat (w :: 'a::len word) < 2 ^ LENGTH('a)"
  by (rule unsigned_less)

lemma unat_of_nat_small: "k < 2 ^ LENGTH('a) \<Longrightarrow> unat (of_nat k :: 'a::len word) = k"
  by (simp add: unat_of_nat)

lemma Suc_unat: "Suc k = unat w \<Longrightarrow> of_nat k + 1 = (w :: 'a::len word)"
  by (metis Suc_eq_plus1 of_nat_1 of_nat_add word_of_nat_eq_iff unat_lt_2p unat_of_nat_small word_eq_iff_unsigned)

section \<open>Minimum by key\<close>

text \<open>\<open>Iterator::min_by_key\<close>: the first element with the smallest key.\<close>

fun min_by_key :: "('a \<Rightarrow> 'b::linorder) \<Rightarrow> 'a list \<Rightarrow> 'a option" where
  "min_by_key k [] = None"
| "min_by_key k (x # xs) =
     (case min_by_key k xs of
        None \<Rightarrow> Some x
      | Some y \<Rightarrow> if k x \<le> k y then Some x else Some y)"

lemma min_by_key_Some: "xs \<noteq> [] \<Longrightarrow> \<exists>y. min_by_key k xs = Some y"
  by (cases xs) (auto split: option.split)

lemma min_by_key_min: "min_by_key k xs = Some y \<Longrightarrow> y \<in> set xs \<and> (\<forall>x \<in> set xs. k y \<le> k x)"
proof (induction xs arbitrary: y)
  case (Cons x xs)
  then show ?case
    by (cases "min_by_key k xs"; cases xs) (fastforce split: if_splits option.splits)+
qed simp

lemma min_by_key_None [simp]: "min_by_key f xs = None \<longleftrightarrow> xs = []"
  by (cases xs) (auto split: option.splits)

section \<open>Optional values\<close>

lemma pred_ifI: "pred_option Q x \<Longrightarrow> pred_option Q y \<Longrightarrow> pred_option Q (if b then x else y)"
  by simp

lemma rel_ifI: "rel_option R x x' \<Longrightarrow> rel_option R y y' \<Longrightarrow> rel_option R (if b then x else y) (if b then x' else y')"
  by simp

section \<open>Machines with an invariant\<close>

text \<open>
  A component whose state changes by events: every event keeps the invariant, so every sequence
  of events does.  Where the code holds a lock for one operation, an event is one such operation,
  and a sequence is any interleaving of the callers.
\<close>

locale inv_machine =
  fixes step :: "'s \<Rightarrow> 'e \<Rightarrow> 's"
    and inv :: "'s \<Rightarrow> bool"
  assumes step_inv: "inv s \<Longrightarrow> inv (step s e)"
begin

lemma run_inv: "inv s \<Longrightarrow> inv (foldl step s es)"
  by (induction es arbitrary: s) (auto intro: step_inv)

lemma run_prefix_inv: "inv s \<Longrightarrow> inv (foldl step s (take n es))"
  by (rule run_inv)

end

end
