(* ===== verification/Llm_Types.thy ===== *)
theory Llm_Types
  imports Prelude
begin

text \<open>
  Data of \<^verbatim>\<open>src/src/llm/provider.rs\<close> and the errors of \<^verbatim>\<open>src/src/error.rs\<close> that the components
  share: chat messages, completion requests and responses, \<open>LlmError\<close> and \<open>JobError\<close>.  A
  temperature is an \<open>f32\<close>, kept as its bit pattern.  The errors of other crates (\<open>reqwest\<close>,
  \<open>serde_json\<close>, \<open>std::io\<close>) carry their message only.
\<close>

datatype role = System | User | Assistant | Tool

record tool_call =
  tc_id :: string
  tc_name :: string
  tc_arguments :: json

record chat_message =
  cm_role :: role
  cm_content :: string
  cm_tool_call_id :: "string option"
  cm_name :: "string option"
  cm_tool_calls :: "tool_call list option"

definition msg_system :: "string \<Rightarrow> chat_message" where
  "msg_system content =
     \<lparr>cm_role = System, cm_content = content, cm_tool_call_id = None, cm_name = None, cm_tool_calls = None\<rparr>"

definition msg_user :: "string \<Rightarrow> chat_message" where
  "msg_user content =
     \<lparr>cm_role = User, cm_content = content, cm_tool_call_id = None, cm_name = None, cm_tool_calls = None\<rparr>"

definition msg_assistant :: "string \<Rightarrow> chat_message" where
  "msg_assistant content =
     \<lparr>cm_role = Assistant, cm_content = content, cm_tool_call_id = None, cm_name = None, cm_tool_calls = None\<rparr>"

definition assistant_with_tool_calls :: "string option \<Rightarrow> tool_call list \<Rightarrow> chat_message" where
  "assistant_with_tool_calls content calls =
     \<lparr>cm_role = Assistant, cm_content = (case content of Some c \<Rightarrow> c | None \<Rightarrow> []),
      cm_tool_call_id = None, cm_name = None,
      cm_tool_calls = (if calls = [] then None else Some calls)\<rparr>"

definition msg_tool_result :: "string \<Rightarrow> string \<Rightarrow> string \<Rightarrow> chat_message" where
  "msg_tool_result call_id name content =
     \<lparr>cm_role = Tool, cm_content = content, cm_tool_call_id = Some call_id, cm_name = Some name,
      cm_tool_calls = None\<rparr>"

record completion_request =
  cr_messages :: "chat_message list"
  cr_max_tokens :: "u32 option"
  cr_temperature :: "u32 option"
  cr_stop_sequences :: "string list option"
  cr_metadata :: "(string \<times> string) list"

definition completion_request_new :: "chat_message list \<Rightarrow> completion_request" where
  "completion_request_new messages =
     \<lparr>cr_messages = messages, cr_max_tokens = None, cr_temperature = None,
      cr_stop_sequences = None, cr_metadata = []\<rparr>"

datatype finish_reason = Stop | Length | ToolUse | ContentFilter | FinishUnknown

record completion_response =
  rs_content :: string
  rs_input_tokens :: u32
  rs_output_tokens :: u32
  rs_finish_reason :: finish_reason
  rs_response_id :: "string option"

datatype llm_error =
    RequestFailed string string
  | RateLimited string "duration option"
  | InvalidResponse string string
  | ContextLengthExceeded nat nat
  | ModelNotAvailable string string
  | AuthFailed string
  | SessionExpired string
  | SessionRenewalFailed string string
  | Http string
  | Json string
  | Io string

datatype job_error =
    JobNotFound uuid
  | InvalidTransition uuid string string
  | JobFailed uuid string
  | JobStuck uuid duration
  | MaxJobsExceeded nat
  | ContextError uuid string

lemma msg_roles [simp]:
  "cm_role (msg_system s) = System" "cm_role (msg_user s) = User"
  "cm_role (msg_assistant s) = Assistant" "cm_role (msg_tool_result i n s) = Tool"
  "cm_content (msg_system s) = s" "cm_content (msg_user s) = s"
  "cm_content (msg_assistant s) = s" "cm_content (msg_tool_result i n s) = s"
  by (simp_all add: msg_system_def msg_user_def msg_assistant_def msg_tool_result_def)

end
