(* ===== verification/Session.thy ===== *)
theory Session
  imports Llm_Types
begin

text \<open>
  The conversation model of \<^verbatim>\<open>src/src/agent/session.rs\<close>: turns, threads and sessions.  Every
  operation takes the reading of the clock it uses; \<open>Uuid::new_v4\<close> is an argument.  An
  \<open>expect\<close> that fails is the value \<open>None\<close>.
\<close>

section \<open>Turns\<close>

datatype thread_state = Idle | Processing | AwaitingApproval | Completed | Interrupted

datatype turn_state = Processing | Completed | Failed | Interrupted

record turn_tool_call =
  tt_name :: string
  tt_parameters :: json
  tt_result :: "json option"
  tt_error :: "string option"

record turn =
  tn_turn_number :: nat
  tn_user_input :: string
  tn_response :: "string option"
  tn_tool_calls :: "turn_tool_call list"
  tn_state :: turn_state
  tn_started_at :: instant
  tn_completed_at :: "instant option"
  tn_error :: "string option"

definition turn_new :: "instant \<Rightarrow> nat \<Rightarrow> string \<Rightarrow> turn" where
  "turn_new now turn_number user_input =
     \<lparr>tn_turn_number = turn_number, tn_user_input = user_input, tn_response = None,
      tn_tool_calls = [], tn_state = turn_state.Processing, tn_started_at = now,
      tn_completed_at = None, tn_error = None\<rparr>"

definition turn_complete :: "instant \<Rightarrow> turn \<Rightarrow> string \<Rightarrow> turn" where
  "turn_complete now t response =
     t\<lparr>tn_response := Some response, tn_state := turn_state.Completed, tn_completed_at := Some now\<rparr>"

definition turn_fail :: "instant \<Rightarrow> turn \<Rightarrow> string \<Rightarrow> turn" where
  "turn_fail now t err =
     t\<lparr>tn_error := Some err, tn_state := turn_state.Failed, tn_completed_at := Some now\<rparr>"

definition turn_interrupt :: "instant \<Rightarrow> turn \<Rightarrow> turn" where
  "turn_interrupt now t = t\<lparr>tn_state := turn_state.Interrupted, tn_completed_at := Some now\<rparr>"

definition record_tool_call :: "turn \<Rightarrow> string \<Rightarrow> json \<Rightarrow> turn" where
  "record_tool_call t name params =
     t\<lparr>tn_tool_calls := tn_tool_calls t @
        [\<lparr>tt_name = name, tt_parameters = params, tt_result = None, tt_error = None\<rparr>]\<rparr>"

definition record_tool_result :: "turn \<Rightarrow> json \<Rightarrow> turn" where
  "record_tool_result t r =
     t\<lparr>tn_tool_calls := update_last (\<lambda>c. c\<lparr>tt_result := Some r\<rparr>) (tn_tool_calls t)\<rparr>"

definition record_tool_error :: "turn \<Rightarrow> string \<Rightarrow> turn" where
  "record_tool_error t err =
     t\<lparr>tn_tool_calls := update_last (\<lambda>c. c\<lparr>tt_error := Some err\<rparr>) (tn_tool_calls t)\<rparr>"

section \<open>Threads\<close>

type_synonym pending_auth = string

record pending_approval =
  pa_request_id :: uuid
  pa_tool_name :: string
  pa_parameters :: json
  pa_description :: string
  pa_tool_call_id :: string
  pa_context_messages :: "chat_message list"

record thread =
  th_id :: uuid
  th_session_id :: uuid
  th_state :: thread_state
  th_turns :: "turn list"
  th_created_at :: instant
  th_updated_at :: instant
  th_metadata :: json
  th_pending_approval :: "pending_approval option"
  th_pending_auth :: "pending_auth option"
  th_last_response_id :: "string option"

definition thread_with_id :: "instant \<Rightarrow> uuid \<Rightarrow> uuid \<Rightarrow> thread" where
  "thread_with_id now i session_id =
     \<lparr>th_id = i, th_session_id = session_id, th_state = Idle, th_turns = [], th_created_at = now,
      th_updated_at = now, th_metadata = JNull, th_pending_approval = None, th_pending_auth = None,
      th_last_response_id = None\<rparr>"

definition thread_new :: "uuid \<Rightarrow> instant \<Rightarrow> uuid \<Rightarrow> thread" where
  "thread_new new_id now session_id =
     \<lparr>th_id = new_id, th_session_id = session_id, th_state = Idle, th_turns = [],
      th_created_at = now, th_updated_at = now, th_metadata = JNull, th_pending_approval = None,
      th_pending_auth = None, th_last_response_id = None\<rparr>"

definition turn_number :: "thread \<Rightarrow> nat" where
  "turn_number t = length (th_turns t) + 1"

definition last_turn :: "thread \<Rightarrow> turn option" where
  "last_turn t = (if th_turns t = [] then None else Some (last (th_turns t)))"

definition start_turn :: "instant \<Rightarrow> thread \<Rightarrow> string \<Rightarrow> thread" where
  "start_turn now t user_input =
     t\<lparr>th_turns := th_turns t @ [turn_new now (length (th_turns t)) user_input],
       th_state := thread_state.Processing, th_updated_at := now\<rparr>"

definition complete_turn :: "instant \<Rightarrow> thread \<Rightarrow> string \<Rightarrow> thread" where
  "complete_turn now t response =
     t\<lparr>th_turns := update_last (\<lambda>u. turn_complete now u response) (th_turns t),
       th_state := Idle, th_updated_at := now\<rparr>"

definition fail_turn :: "instant \<Rightarrow> thread \<Rightarrow> string \<Rightarrow> thread" where
  "fail_turn now t err =
     t\<lparr>th_turns := update_last (\<lambda>u. turn_fail now u err) (th_turns t),
       th_state := Idle, th_updated_at := now\<rparr>"

definition await_approval :: "instant \<Rightarrow> thread \<Rightarrow> pending_approval \<Rightarrow> thread" where
  "await_approval now t p =
     t\<lparr>th_state := AwaitingApproval, th_pending_approval := Some p, th_updated_at := now\<rparr>"

definition take_pending_approval :: "thread \<Rightarrow> thread \<times> pending_approval option" where
  "take_pending_approval t = (t\<lparr>th_pending_approval := None\<rparr>, th_pending_approval t)"

definition clear_pending_approval :: "instant \<Rightarrow> thread \<Rightarrow> thread" where
  "clear_pending_approval now t =
     t\<lparr>th_pending_approval := None, th_state := Idle, th_updated_at := now\<rparr>"

definition enter_auth_mode :: "instant \<Rightarrow> thread \<Rightarrow> string \<Rightarrow> thread" where
  "enter_auth_mode now t extension_name =
     t\<lparr>th_pending_auth := Some extension_name, th_updated_at := now\<rparr>"

definition take_pending_auth :: "thread \<Rightarrow> thread \<times> pending_auth option" where
  "take_pending_auth t = (t\<lparr>th_pending_auth := None\<rparr>, th_pending_auth t)"

definition interrupt :: "instant \<Rightarrow> thread \<Rightarrow> thread" where
  "interrupt now t =
     t\<lparr>th_turns := update_last (turn_interrupt now) (th_turns t),
       th_state := thread_state.Interrupted, th_updated_at := now\<rparr>"

definition resume :: "instant \<Rightarrow> thread \<Rightarrow> thread" where
  "resume now t =
     (if th_state t = thread_state.Interrupted then t\<lparr>th_state := Idle, th_updated_at := now\<rparr> else t)"

definition turn_messages :: "turn \<Rightarrow> chat_message list" where
  "turn_messages u = msg_user (tn_user_input u) #
     (case tn_response u of Some r \<Rightarrow> [msg_assistant r] | None \<Rightarrow> [])"

definition messages :: "thread \<Rightarrow> chat_message list" where
  "messages t = concat (map turn_messages (th_turns t))"

fun renumber :: "nat \<Rightarrow> turn list \<Rightarrow> turn list" where
  "renumber i [] = []"
| "renumber i (u # us) = u\<lparr>tn_turn_number := i\<rparr> # renumber (Suc i) us"

definition truncate_turns :: "thread \<Rightarrow> nat \<Rightarrow> thread" where
  "truncate_turns t keep =
     (if length (th_turns t) > keep
      then t\<lparr>th_turns := renumber 0 (drop (length (th_turns t) - keep) (th_turns t))\<rparr>
      else t)"

fun rebuild_turns :: "instant \<Rightarrow> nat \<Rightarrow> chat_message list \<Rightarrow> turn list" where
  "rebuild_turns now n [] = []"
| "rebuild_turns now n [m] = (if cm_role m = User then [turn_new now n (cm_content m)] else [])"
| "rebuild_turns now n (m # m' # ms) =
     (if cm_role m = User
      then (if cm_role m' = Assistant
            then turn_complete now (turn_new now n (cm_content m)) (cm_content m') #
                 rebuild_turns now (Suc n) ms
            else turn_new now n (cm_content m) # rebuild_turns now (Suc n) (m' # ms))
      else rebuild_turns now n (m' # ms))"

definition restore_from_messages :: "instant \<Rightarrow> thread \<Rightarrow> chat_message list \<Rightarrow> thread" where
  "restore_from_messages now t msgs =
     t\<lparr>th_turns := rebuild_turns now 0 msgs, th_state := Idle, th_updated_at := now\<rparr>"

section \<open>Sessions\<close>

record session =
  ss_id :: uuid
  ss_user_id :: string
  ss_active_thread :: "uuid option"
  ss_threads :: "(uuid \<times> thread) list"
  ss_created_at :: instant
  ss_last_active_at :: instant
  ss_metadata :: json
  ss_auto_approved_tools :: "string list"

definition session_new :: "uuid \<Rightarrow> instant \<Rightarrow> string \<Rightarrow> session" where
  "session_new new_id now user_id =
     \<lparr>ss_id = new_id, ss_user_id = user_id, ss_active_thread = None, ss_threads = [],
      ss_created_at = now, ss_last_active_at = now, ss_metadata = JNull,
      ss_auto_approved_tools = []\<rparr>"

definition is_tool_auto_approved :: "session \<Rightarrow> string \<Rightarrow> bool" where
  "is_tool_auto_approved s tool_name \<longleftrightarrow> tool_name \<in> set (ss_auto_approved_tools s)"

definition auto_approve_tool :: "session \<Rightarrow> string \<Rightarrow> session" where
  "auto_approve_tool s tool_name =
     s\<lparr>ss_auto_approved_tools := List.insert tool_name (ss_auto_approved_tools s)\<rparr>"

definition create_thread :: "uuid \<Rightarrow> instant \<Rightarrow> session \<Rightarrow> session" where
  "create_thread new_id now s =
     s\<lparr>ss_threads := AList.update new_id (thread_new new_id now (ss_id s)) (ss_threads s),
       ss_active_thread := Some new_id, ss_last_active_at := now\<rparr>"

definition active_thread :: "session \<Rightarrow> thread option" where
  "active_thread s = Option.bind (ss_active_thread s) (map_of (ss_threads s))"

definition get_or_create_thread :: "uuid \<Rightarrow> instant \<Rightarrow> session \<Rightarrow> session \<times> thread option" where
  "get_or_create_thread new_id now s =
     (let s' = (if ss_active_thread s = None then create_thread new_id now s else s)
      in (s', active_thread s'))"

definition switch_thread :: "instant \<Rightarrow> session \<Rightarrow> uuid \<Rightarrow> session \<times> bool" where
  "switch_thread now s thread_id =
     (if map_of (ss_threads s) thread_id \<noteq> None
      then (s\<lparr>ss_active_thread := Some thread_id, ss_last_active_at := now\<rparr>, True)
      else (s, False))"

text \<open>\<open>HashMap::get_mut\<close> on the threads of a session.\<close>

definition update_thread :: "session \<Rightarrow> uuid \<Rightarrow> (thread \<Rightarrow> thread) \<Rightarrow> session" where
  "update_thread s i f =
     (case map_of (ss_threads s) i of
        None \<Rightarrow> s
      | Some t \<Rightarrow> s\<lparr>ss_threads := AList.update i (f t) (ss_threads s)\<rparr>)"

section \<open>The machine of one thread\<close>

datatype thread_event =
    StartTurn string instant
  | CompleteTurn string instant
  | FailTurn string instant
  | AwaitApproval pending_approval instant
  | TakePendingApproval
  | ClearPendingApproval instant
  | EnterAuthMode string instant
  | TakePendingAuth
  | Interrupt instant
  | Resume instant
  | TruncateTurns nat
  | RestoreFromMessages "chat_message list" instant
  | RecordToolCall string json
  | RecordToolResult json
  | RecordToolError string

fun thread_step :: "thread \<Rightarrow> thread_event \<Rightarrow> thread" where
  "thread_step t (StartTurn s n) = start_turn n t s"
| "thread_step t (CompleteTurn s n) = complete_turn n t s"
| "thread_step t (FailTurn s n) = fail_turn n t s"
| "thread_step t (AwaitApproval p n) = await_approval n t p"
| "thread_step t TakePendingApproval = fst (take_pending_approval t)"
| "thread_step t (ClearPendingApproval n) = clear_pending_approval n t"
| "thread_step t (EnterAuthMode s n) = enter_auth_mode n t s"
| "thread_step t TakePendingAuth = fst (take_pending_auth t)"
| "thread_step t (Interrupt n) = interrupt n t"
| "thread_step t (Resume n) = resume n t"
| "thread_step t (TruncateTurns k) = truncate_turns t k"
| "thread_step t (RestoreFromMessages ms n) = restore_from_messages n t ms"
| "thread_step t (RecordToolCall s j) =
     t\<lparr>th_turns := update_last (\<lambda>u. record_tool_call u s j) (th_turns t)\<rparr>"
| "thread_step t (RecordToolResult j) =
     t\<lparr>th_turns := update_last (\<lambda>u. record_tool_result u j) (th_turns t)\<rparr>"
| "thread_step t (RecordToolError s) =
     t\<lparr>th_turns := update_last (\<lambda>u. record_tool_error u s) (th_turns t)\<rparr>"

text \<open>Turns carry their index; a completed turn has a response and a completion time, a failed
  one an error; exactly the turns being processed lack a completion time.\<close>

definition turn_ok :: "turn \<Rightarrow> bool" where
  "turn_ok u \<longleftrightarrow>
     (tn_state u = turn_state.Completed \<longrightarrow> tn_response u \<noteq> None) \<and>
     (tn_state u = turn_state.Failed \<longrightarrow> tn_error u \<noteq> None) \<and>
     (tn_completed_at u = None \<longleftrightarrow> tn_state u = turn_state.Processing)"

definition thread_wf :: "thread \<Rightarrow> bool" where
  "thread_wf t \<longleftrightarrow>
     map tn_turn_number (th_turns t) = [0..<length (th_turns t)] \<and>
     (\<forall>u \<in> set (th_turns t). turn_ok u)"

lemma renumber_numbers: "map tn_turn_number (renumber i us) = [i..<i + length us]"
  by (induction us arbitrary: i) (simp_all add: upt_conv_Cons del: upt_Suc)

lemma length_renumber [simp]: "length (renumber i us) = length us"
  by (induction us arbitrary: i) auto

lemma turn_ok_renumber [simp]: "turn_ok (u\<lparr>tn_turn_number := i\<rparr>) = turn_ok u"
  by (simp add: turn_ok_def)

lemma renumber_ok: "\<forall>u \<in> set us. turn_ok u \<Longrightarrow> \<forall>u \<in> set (renumber i us). turn_ok u"
  by (induction us arbitrary: i) simp_all

lemma renumber_messages [simp]: "map turn_messages (renumber i us) = map turn_messages us"
  by (induction us arbitrary: i) (auto simp: turn_messages_def)

lemma turn_new_ok [simp]: "turn_ok (turn_new n i s)"
  by (simp add: turn_ok_def turn_new_def)

lemma turn_complete_ok [simp]: "turn_ok (turn_complete n u s)"
  by (simp add: turn_ok_def turn_complete_def)

lemma turn_fail_ok [simp]: "turn_ok (turn_fail n u s)"
  by (simp add: turn_ok_def turn_fail_def)

lemma turn_interrupt_ok [simp]: "turn_ok (turn_interrupt n u)"
  by (simp add: turn_ok_def turn_interrupt_def)

lemma record_tool_ok [simp]:
  "turn_ok (record_tool_call u s j) = turn_ok u"
  "turn_ok (record_tool_result u j) = turn_ok u"
  "turn_ok (record_tool_error u s) = turn_ok u"
  by (simp_all add: turn_ok_def record_tool_call_def record_tool_result_def record_tool_error_def)

lemma turn_number_frame [simp]:
  "tn_turn_number (turn_complete n u s) = tn_turn_number u"
  "tn_turn_number (turn_fail n u s) = tn_turn_number u"
  "tn_turn_number (turn_interrupt n u) = tn_turn_number u"
  "tn_turn_number (record_tool_call u s j) = tn_turn_number u"
  "tn_turn_number (record_tool_result u j) = tn_turn_number u"
  "tn_turn_number (record_tool_error u s) = tn_turn_number u"
  "tn_turn_number (turn_new n i s) = i"
  by (simp_all add: turn_complete_def turn_fail_def turn_interrupt_def record_tool_call_def
      record_tool_result_def record_tool_error_def turn_new_def)

lemma rebuild_numbers: "map tn_turn_number (rebuild_turns now n ms) = [n..<n + length (rebuild_turns now n ms)]"
  by (induction now n ms rule: rebuild_turns.induct) (auto simp: upt_conv_Cons)

lemma rebuild_ok: "\<forall>u \<in> set (rebuild_turns now n ms). turn_ok u"
  by (induction now n ms rule: rebuild_turns.induct) auto

lemma update_last_okD:
  "u \<in> set (update_last f us) \<Longrightarrow> \<forall>u \<in> set us. turn_ok u \<Longrightarrow> (\<And>u. turn_ok u \<Longrightarrow> turn_ok (f u)) \<Longrightarrow> turn_ok u"
  by (cases us rule: rev_cases) auto

lemmas thread_op_defs = start_turn_def complete_turn_def fail_turn_def await_approval_def
  take_pending_approval_def clear_pending_approval_def enter_auth_mode_def take_pending_auth_def
  interrupt_def resume_def truncate_turns_def restore_from_messages_def

lemma thread_step_wf: "thread_wf t \<Longrightarrow> thread_wf (thread_step t e)"
proof (cases e)
  case (TruncateTurns k)
  assume wf: "thread_wf t"
  have "\<forall>u \<in> set (drop (length (th_turns t) - k) (th_turns t)). turn_ok u"
    using wf by (auto simp: thread_wf_def dest: in_set_dropD)
  from renumber_ok [OF this] wf TruncateTurns show ?thesis
    by (auto simp: thread_wf_def truncate_turns_def renumber_numbers)
next
  case (RestoreFromMessages ms n)
  then show ?thesis
    by (simp add: thread_wf_def restore_from_messages_def rebuild_numbers rebuild_ok)
qed (auto simp: thread_wf_def thread_op_defs map_update_last dest: update_last_okD)

interpretation thread: inv_machine thread_step thread_wf
  by unfold_locales (rule thread_step_wf)

section \<open>Messages and their reconstruction\<close>

lemma turn_messages_Some:
  "tn_response u = Some r \<Longrightarrow> turn_messages u = [msg_user (tn_user_input u), msg_assistant r]"
  by (simp add: turn_messages_def)

lemma turn_messages_None:
  "tn_response u = None \<Longrightarrow> turn_messages u = [msg_user (tn_user_input u)]"
  by (simp add: turn_messages_def)

lemma turn_messages_new [simp]:
  "turn_messages (turn_new n i s) = [msg_user s]"
  "turn_messages (turn_complete n' (turn_new n i s) r) = [msg_user s, msg_assistant r]"
  by (simp_all add: turn_messages_def turn_new_def turn_complete_def)

lemma rebuild_turn_messages:
  "concat (map turn_messages (rebuild_turns now n (concat (map turn_messages us)))) =
   concat (map turn_messages us)"
proof (induction us arbitrary: n)
  case Nil
  then show ?case by simp
next
  case (Cons u us)
  let ?rest = "concat (map turn_messages us)"
  show ?case
  proof (cases "tn_response u")
    case (Some r)
    with Cons show ?thesis by (simp add: turn_messages_Some)
  next
    case None
    have "rebuild_turns now n (msg_user (tn_user_input u) # ?rest) =
        turn_new now n (tn_user_input u) # rebuild_turns now (Suc n) ?rest"
      by (cases us) (simp_all add: turn_messages_def)
    with None Cons show ?thesis by (simp add: turn_messages_None)
  qed
qed

lemma messages_restore:
  "messages (restore_from_messages now t (messages t')) = messages t'"
  by (simp add: messages_def restore_from_messages_def rebuild_turn_messages)

lemma messages_truncate:
  "\<exists>pre. messages t = pre @ messages (truncate_turns t keep)"
proof -
  define k where "k = length (th_turns t) - keep"
  have split: "messages t = concat (map turn_messages (take k (th_turns t))) @
      concat (map turn_messages (drop k (th_turns t)))"
    unfolding messages_def by (metis append_take_drop_id concat_append map_append)
  show ?thesis
  proof (cases "length (th_turns t) > keep")
    case True
    then have "messages (truncate_turns t keep) = concat (map turn_messages (drop k (th_turns t)))"
      by (simp add: truncate_turns_def messages_def k_def)
    with split show ?thesis by metis
  qed (simp add: truncate_turns_def)
qed

definition session_wf :: "session \<Rightarrow> bool" where
  "session_wf s \<longleftrightarrow>
     distinct (map fst (ss_threads s)) \<and>
     (\<forall>(i, t) \<in> set (ss_threads s). th_id t = i \<and> thread_wf t) \<and>
     (case ss_active_thread s of None \<Rightarrow> True | Some i \<Rightarrow> i \<in> fst ` set (ss_threads s))"

lemma create_thread_wf [keeps]: "session_wf s \<Longrightarrow> session_wf (create_thread i n s)"
proof -
  assume wf: "session_wf s"
  have "thread_wf (thread_new i n (ss_id s))" "th_id (thread_new i n (ss_id s)) = i"
    by (simp_all add: thread_wf_def thread_new_def)
  with wf set_update_subset [of i "thread_new i n (ss_id s)" "ss_threads s"] show ?thesis
    by (fastforce simp: session_wf_def create_thread_def distinct_update dom_update)
qed

lemma switch_thread_wf [keeps]: "session_wf s \<Longrightarrow> session_wf (fst (switch_thread n s i))"
  by (cases "map_of (ss_threads s) i") (force simp: session_wf_def switch_thread_def dest: map_of_SomeD)+

lemma update_thread_wf [keeps]:
  assumes "session_wf s"
    and "\<And>t. thread_wf t \<Longrightarrow> thread_wf (f t)" and "\<And>t. th_id (f t) = th_id t"
  shows "session_wf (update_thread s i f)"
proof (cases "map_of (ss_threads s) i")
  case None
  with assms show ?thesis by (simp add: update_thread_def)
next
  case (Some t)
  from assms(1) map_of_SomeD [OF Some] have "th_id t = i" "thread_wf t"
    by (auto simp: session_wf_def)
  with assms have "th_id (f t) = i" "thread_wf (f t)" by auto
  then have "\<forall>(j, u) \<in> set (AList.update i (f t) (ss_threads s)). th_id u = j \<and> thread_wf u"
    using assms(1) set_update_subset [of i "f t" "ss_threads s"] by (auto simp: session_wf_def)
  then show ?thesis using assms(1) Some
    by (cases "ss_active_thread s")
      (simp_all add: session_wf_def update_thread_def distinct_update dom_update)
qed

text \<open>The operations of a session, as the steps of a machine.\<close>

datatype session_event =
    CreateThread uuid instant
  | SwitchThread uuid instant
  | GetOrCreateThread uuid instant
  | AutoApproveTool string
  | OnThread uuid thread_event

fun session_step :: "session \<Rightarrow> session_event \<Rightarrow> session" where
  "session_step s (CreateThread i n) = create_thread i n s"
| "session_step s (SwitchThread i n) = fst (switch_thread n s i)"
| "session_step s (GetOrCreateThread i n) = fst (get_or_create_thread i n s)"
| "session_step s (AutoApproveTool tool) = auto_approve_tool s tool"
| "session_step s (OnThread i e) = update_thread s i (\<lambda>t. thread_step t e)"

lemma thread_step_id: "th_id (thread_step t e) = th_id t"
  by (cases e) (auto simp: thread_op_defs)

lemma get_or_create_thread_wf [keeps]:
  "session_wf s \<Longrightarrow> session_wf (fst (get_or_create_thread i n s))"
  by (simp add: get_or_create_thread_def create_thread_wf Let_def)

lemma auto_approve_tool_wf [keeps]: "session_wf s \<Longrightarrow> session_wf (auto_approve_tool s tool)"
  by (cases "ss_active_thread s") (simp_all add: auto_approve_tool_def session_wf_def)

lemma get_or_create_thread_total:
  "session_wf s \<Longrightarrow> \<exists>t. snd (get_or_create_thread i n s) = Some t"
  by (cases "ss_active_thread s")
    (auto simp: get_or_create_thread_def active_thread_def session_wf_def create_thread_def
      distinct_map_of_update Let_def)

interpretation session: inv_machine session_step session_wf
proof unfold_locales
  fix s e assume "session_wf s"
  then show "session_wf (session_step s e)"
    by (cases e) (simp_all add: keeps thread_step_wf thread_step_id)
qed

section \<open>Properties\<close>

text \<open>
  Whatever operations are applied to a new thread, its turns stay numbered from zero without
  gaps, a completed turn has its response, a failed turn its error, and exactly the turns still
  being processed lack a completion time.
\<close>

theorem thread_invariant: "thread_wf (foldl thread_step (thread_new i n sid) es)"
  by (rule thread.run_inv) (simp add: thread_wf_def thread_new_def)

text \<open>
  C15: Checkpoints are lossless.  Rebuilding a thread from the messages of any thread gives a
  thread with exactly these messages, and the rebuilt turns are numbered from zero.
\<close>

theorem restore_messages_roundtrip:
  "messages (restore_from_messages now t (messages t')) = messages t' \<and>
   map tn_turn_number (th_turns (restore_from_messages now t (messages t'))) =
     [0..<length (th_turns (restore_from_messages now t (messages t')))]"
  using messages_restore rebuild_numbers [of now 0 "messages t'"]
  by (simp add: restore_from_messages_def)

text \<open>
  Truncation keeps the most recent turns: at most \<open>keep\<close> turns remain, renumbered from
  zero, and the messages that remain are a final segment of the messages before.
\<close>

theorem truncate_keeps_recent:
  "length (th_turns (truncate_turns t keep)) = min keep (length (th_turns t)) \<and>
   (\<exists>older. messages t = older @ messages (truncate_turns t keep)) \<and>
   (keep < length (th_turns t) \<longrightarrow> map tn_turn_number (th_turns (truncate_turns t keep)) = [0..<keep])"
  using messages_truncate [of t keep]
  by (auto simp: truncate_turns_def renumber_numbers)

theorem truncate_keeps_recent_witness:
  "let t = start_turn 2 (complete_turn 1 (start_turn 0 (thread_new 1 0 9) ''a'') ''b'') ''c'' in
   length (th_turns (truncate_turns t 1)) = 1 \<and>
   map tn_turn_number (th_turns (truncate_turns t 1)) = [0..<1]"
  using truncate_keeps_recent
    [of "start_turn 2 (complete_turn 1 (start_turn 0 (thread_new 1 0 9) ''a'') ''b'') ''c''" 1]
  by (simp add: start_turn_def complete_turn_def thread_new_def)

text \<open>
  The active thread of a session exists.  Whatever threads are created, switched to and changed
  by their own operations, every thread stays under its own id, the active thread is among them,
  and \<open>get_or_create_thread\<close> has a thread to return.
\<close>

theorem active_thread_exists:
  "let s = foldl session_step (session_new sid n0 user) es in
   session_wf s \<and> (\<exists>t. snd (get_or_create_thread i n s) = Some t)"
proof -
  have "session_wf (foldl session_step (session_new sid n0 user) es)"
    by (rule session.run_inv) (simp add: session_wf_def session_new_def)
  then show ?thesis by (simp add: Let_def get_or_create_thread_total)
qed

end
