(* ===== verification/Undo.thy ===== *)
theory Undo
  imports Llm_Types
begin

text \<open>
  The undo system of \<^verbatim>\<open>src/src/agent/undo.rs\<close>: two stacks of checkpoints, the undo stack
  bounded by \<open>max_checkpoints\<close>.  The back of the \<open>VecDeque\<close> and the top of the \<open>Vec\<close> are the
  ends of the lists.  The id of a new checkpoint is an argument.

  The locale \<open>history\<close> is what the command handlers rely on: undoing and redoing move a cursor
  over one timeline.
\<close>

section \<open>Checkpoints and the undo manager\<close>

record checkpoint =
  cp_id :: uuid
  cp_turn_number :: nat
  cp_messages :: "chat_message list"
  cp_description :: string

definition checkpoint_new :: "uuid \<Rightarrow> nat \<Rightarrow> chat_message list \<Rightarrow> string \<Rightarrow> checkpoint" where
  "checkpoint_new new_id n msgs desc =
     \<lparr>cp_id = new_id, cp_turn_number = n, cp_messages = msgs, cp_description = desc\<rparr>"

record undo_manager =
  um_undo_stack :: "checkpoint list"
  um_redo_stack :: "checkpoint list"
  um_max_checkpoints :: nat

definition DEFAULT_MAX_CHECKPOINTS :: nat where
  "DEFAULT_MAX_CHECKPOINTS = 20"

definition undo_manager_new :: undo_manager where
  "undo_manager_new =
     \<lparr>um_undo_stack = [], um_redo_stack = [], um_max_checkpoints = DEFAULT_MAX_CHECKPOINTS\<rparr>"

definition with_max_checkpoints :: "undo_manager \<Rightarrow> nat \<Rightarrow> undo_manager" where
  "with_max_checkpoints u m = u\<lparr>um_max_checkpoints := m\<rparr>"

fun pop_front_while_over :: "nat \<Rightarrow> 'a list \<Rightarrow> 'a list" where
  "pop_front_while_over m [] = []"
| "pop_front_while_over m (x # xs) =
     (if length (x # xs) > m then pop_front_while_over m xs else x # xs)"

definition push_undo :: "undo_manager \<Rightarrow> checkpoint \<Rightarrow> undo_manager" where
  "push_undo u c =
     u\<lparr>um_undo_stack := pop_front_while_over (um_max_checkpoints u) (um_undo_stack u @ [c])\<rparr>"

definition um_checkpoint :: "uuid \<Rightarrow> undo_manager \<Rightarrow> nat \<Rightarrow> chat_message list \<Rightarrow> string \<Rightarrow> undo_manager" where
  "um_checkpoint new_id u n msgs desc =
     push_undo (u\<lparr>um_redo_stack := []\<rparr>) (checkpoint_new new_id n msgs desc)"

definition pop_back :: "'a list \<Rightarrow> 'a list \<times> 'a option" where
  "pop_back xs = (if xs = [] then ([], None) else (butlast xs, Some (last xs)))"

definition turn_label :: "nat \<Rightarrow> string" where
  "turn_label n = ''Turn '' @ nat_str n"

definition undo :: "uuid \<Rightarrow> undo_manager \<Rightarrow> nat \<Rightarrow> chat_message list \<Rightarrow> undo_manager \<times> checkpoint option" where
  "undo new_id u current_turn current_messages =
     (if um_undo_stack u = [] then (u, None)
      else let current = checkpoint_new new_id current_turn current_messages (turn_label current_turn);
               (st, c) = pop_back (um_undo_stack u)
           in (u\<lparr>um_redo_stack := um_redo_stack u @ [current], um_undo_stack := st\<rparr>, c))"

definition pop_undo :: "undo_manager \<Rightarrow> undo_manager \<times> checkpoint option" where
  "pop_undo u = (let (st, c) = pop_back (um_undo_stack u) in (u\<lparr>um_undo_stack := st\<rparr>, c))"

definition redo :: "uuid \<Rightarrow> undo_manager \<Rightarrow> nat \<Rightarrow> chat_message list \<Rightarrow> undo_manager \<times> checkpoint option" where
  "redo new_id u current_turn current_messages =
     (if um_redo_stack u = [] then (u, None)
      else let current = checkpoint_new new_id current_turn current_messages (turn_label current_turn);
               u' = push_undo u current;
               (st, c) = pop_back (um_redo_stack u')
           in (u'\<lparr>um_redo_stack := st\<rparr>, c))"

definition can_undo :: "undo_manager \<Rightarrow> bool" where
  "can_undo u \<longleftrightarrow> um_undo_stack u \<noteq> []"

definition can_redo :: "undo_manager \<Rightarrow> bool" where
  "can_redo u \<longleftrightarrow> um_redo_stack u \<noteq> []"

definition undo_count :: "undo_manager \<Rightarrow> nat" where
  "undo_count u = length (um_undo_stack u)"

definition redo_count :: "undo_manager \<Rightarrow> nat" where
  "redo_count u = length (um_redo_stack u)"

definition get_checkpoint :: "undo_manager \<Rightarrow> uuid \<Rightarrow> checkpoint option" where
  "get_checkpoint u i =
     (case find (\<lambda>c. cp_id c = i) (um_undo_stack u) of
        Some c \<Rightarrow> Some c
      | None \<Rightarrow> find (\<lambda>c. cp_id c = i) (um_redo_stack u))"

definition list_checkpoints :: "undo_manager \<Rightarrow> checkpoint list" where
  "list_checkpoints u = um_undo_stack u"

definition undo_clear :: "undo_manager \<Rightarrow> undo_manager" where
  "undo_clear u = u\<lparr>um_undo_stack := [], um_redo_stack := []\<rparr>"

function pop_back_while_over :: "nat \<Rightarrow> 'a list \<Rightarrow> 'a list" where
  "pop_back_while_over k xs = (if length xs > k then pop_back_while_over k (butlast xs) else xs)"
  by auto
termination by (relation "measure (\<lambda>(k, xs). length xs)") auto

declare pop_back_while_over.simps [simp del]

definition restore :: "undo_manager \<Rightarrow> uuid \<Rightarrow> undo_manager \<times> checkpoint option" where
  "restore u i =
     (case position (\<lambda>c. cp_id c = i) (um_undo_stack u) of
        None \<Rightarrow> (u, None)
      | Some pos \<Rightarrow>
          let (st, c) = pop_back (pop_back_while_over (pos + 1) (um_undo_stack u))
          in (u\<lparr>um_redo_stack := [], um_undo_stack := st\<rparr>, c))"

section \<open>The interface of an undo history\<close>

text \<open>
  The client holds the current state and a history.  \<open>past\<close> and \<open>future\<close> are what the two
  stacks remember, nearest state first; \<open>undo_move\<close> and \<open>redo_move\<close> hand the current state over and get
  the neighbouring one.
\<close>

locale history =
  fixes undo_move redo_move :: "'h \<Rightarrow> 's \<Rightarrow> ('h \<times> 's) option"
    and past future :: "'h \<Rightarrow> 's list"
    and ok :: "'h \<Rightarrow> bool"
  assumes back_None: "past h = [] \<Longrightarrow> undo_move h s = None"
    and back_Some: "ok h \<Longrightarrow> past h = p # ps \<Longrightarrow>
      \<exists>h'. undo_move h s = Some (h', p) \<and> past h' = ps \<and> future h' = s # future h \<and> ok h'"
    and forth_None: "future h = [] \<Longrightarrow> redo_move h s = None"
    and forth_Some: "ok h \<Longrightarrow> future h = f # fs \<Longrightarrow>
      \<exists>h'. redo_move h s = Some (h', f) \<and> past h' = s # past h \<and> future h' = fs \<and> ok h'"
begin

fun backs :: "nat \<Rightarrow> 'h \<times> 's \<Rightarrow> ('h \<times> 's) option" where
  "backs 0 c = Some c"
| "backs (Suc n) (h, s) = (case undo_move h s of None \<Rightarrow> None | Some c \<Rightarrow> backs n c)"

fun forths :: "nat \<Rightarrow> 'h \<times> 's \<Rightarrow> ('h \<times> 's) option" where
  "forths 0 c = Some c"
| "forths (Suc n) (h, s) = (case redo_move h s of None \<Rightarrow> None | Some c \<Rightarrow> forths n c)"

lemma backs_Some:
  "ok h \<Longrightarrow> n \<le> length (past h) \<Longrightarrow>
   \<exists>h'. backs n (h, s) = Some (h', (s # past h) ! n) \<and> past h' = drop n (past h) \<and>
        future h' = rev (take n (s # past h)) @ future h \<and> ok h'"
proof (induction n arbitrary: h s)
  case (Suc n)
  then obtain p ps where p: "past h = p # ps" by (cases "past h") auto
  from back_Some [OF Suc.prems(1) p, of s] obtain h1 where
    h1: "undo_move h s = Some (h1, p)" "past h1 = ps" "future h1 = s # future h" "ok h1" by auto
  from Suc.IH [OF h1(4), of p] Suc.prems(2) p h1 show ?case by auto
qed simp

lemma forths_Some:
  "ok h \<Longrightarrow> n \<le> length (future h) \<Longrightarrow>
   \<exists>h'. forths n (h, s) = Some (h', (s # future h) ! n) \<and> future h' = drop n (future h) \<and>
        past h' = rev (take n (s # future h)) @ past h \<and> ok h'"
proof (induction n arbitrary: h s)
  case (Suc n)
  then obtain p ps where p: "future h = p # ps" by (cases "future h") auto
  from forth_Some [OF Suc.prems(1) p, of s] obtain h1 where
    h1: "redo_move h s = Some (h1, p)" "future h1 = ps" "past h1 = s # past h" "ok h1" by auto
  from Suc.IH [OF h1(4), of p] Suc.prems(2) p h1 show ?case by auto
qed simp

lemma backs_forths:
  assumes "ok h" and "n \<le> length (past h)"
  shows "\<exists>c h'. backs n (h, s) = Some c \<and> forths n c = Some (h', s) \<and>
    past h' = past h \<and> future h' = future h"
proof -
  obtain h1 where h1: "backs n (h, s) = Some (h1, (s # past h) ! n)" "past h1 = drop n (past h)"
    "future h1 = rev (take n (s # past h)) @ future h" "ok h1"
    using backs_Some [OF assms, of s] by blast
  show ?thesis
  proof (cases n)
    case 0
    then show ?thesis by simp
  next
    case (Suc k)
    let ?xs = "past h"
    have k: "k < length ?xs" using Suc assms(2) by simp
    have f1: "future h1 = rev (take k ?xs) @ s # future h" using h1(3) Suc by simp
    then have "n \<le> length (future h1)" using k Suc by simp
    from forths_Some [OF h1(4) this, of "?xs ! k"] obtain h2 where
      h2: "forths n (h1, ?xs ! k) = Some (h2, (?xs ! k # future h1) ! n)"
        "future h2 = drop n (future h1)" "past h2 = rev (take n (?xs ! k # future h1)) @ past h1"
      by blast
    have "rev (take n (?xs ! k # future h1)) = take n ?xs"
      using k Suc f1 by (simp add: take_Suc_conv_app_nth)
    moreover from this have "past h2 = past h" using h2(3) h1(2) by (metis append_take_drop_id)
    ultimately show ?thesis using h1 h2 Suc f1 k by (auto simp: nth_append)
  qed
qed

end

section \<open>The undo manager is such a history\<close>

definition undo_ok :: "undo_manager \<Rightarrow> bool" where
  "undo_ok u \<longleftrightarrow> undo_count u + redo_count u \<le> um_max_checkpoints u"

definition cp_view :: "checkpoint \<Rightarrow> nat \<times> chat_message list" where
  "cp_view c = (cp_turn_number c, cp_messages c)"

lemma cp_view_new [simp]: "cp_view (checkpoint_new i n ms d) = (n, ms)"
  by (simp add: cp_view_def checkpoint_new_def)

lemma pop_front_while_over_drop: "pop_front_while_over m xs = drop (length xs - m) xs"
  by (induction xs) (auto simp: Suc_diff_le)

lemma pop_back_while_over_take: "pop_back_while_over k xs = take k xs"
proof (induction k xs rule: pop_back_while_over.induct)
  case (1 k xs)
  then show ?case
    by (subst pop_back_while_over.simps) (auto simp: butlast_conv_take min_def)
qed

lemma pop_back_snoc [simp]: "pop_back (xs @ [x]) = (xs, Some x)"
  by (simp add: pop_back_def)

lemma push_undo_fits:
  "undo_count u < um_max_checkpoints u \<Longrightarrow>
   push_undo u c = u\<lparr>um_undo_stack := um_undo_stack u @ [c]\<rparr>"
  by (simp add: push_undo_def undo_count_def pop_front_while_over_drop)

lemma undo_snoc:
  "um_undo_stack u = st @ [c] \<Longrightarrow>
   undo i u n ms = (u\<lparr>um_redo_stack := um_redo_stack u @ [checkpoint_new i n ms (turn_label n)],
                     um_undo_stack := st\<rparr>, Some c)"
  by (simp add: undo_def)

lemma redo_snoc:
  "undo_ok u \<Longrightarrow> um_redo_stack u = st @ [c] \<Longrightarrow>
   redo i u n ms = (u\<lparr>um_undo_stack := um_undo_stack u @ [checkpoint_new i n ms (turn_label n)],
                     um_redo_stack := st\<rparr>, Some c)"
  by (simp add: redo_def undo_ok_def redo_count_def push_undo_fits)

text \<open>A history of the interface is an undo manager with the supply of the ids it will use.\<close>

definition um_undo_move ::
  "undo_manager \<times> (nat \<Rightarrow> uuid) \<Rightarrow> nat \<times> chat_message list \<Rightarrow>
   ((undo_manager \<times> (nat \<Rightarrow> uuid)) \<times> (nat \<times> chat_message list)) option" where
  "um_undo_move h s =
     (let (u', c) = undo (snd h 0) (fst h) (fst s) (snd s)
      in map_option (\<lambda>c. ((u', snd h \<circ> Suc), cp_view c)) c)"

definition um_redo_move ::
  "undo_manager \<times> (nat \<Rightarrow> uuid) \<Rightarrow> nat \<times> chat_message list \<Rightarrow>
   ((undo_manager \<times> (nat \<Rightarrow> uuid)) \<times> (nat \<times> chat_message list)) option" where
  "um_redo_move h s =
     (let (u', c) = redo (snd h 0) (fst h) (fst s) (snd s)
      in map_option (\<lambda>c. ((u', snd h \<circ> Suc), cp_view c)) c)"

definition um_past :: "undo_manager \<times> (nat \<Rightarrow> uuid) \<Rightarrow> (nat \<times> chat_message list) list" where
  "um_past h = rev (map cp_view (um_undo_stack (fst h)))"

definition um_future :: "undo_manager \<times> (nat \<Rightarrow> uuid) \<Rightarrow> (nat \<times> chat_message list) list" where
  "um_future h = rev (map cp_view (um_redo_stack (fst h)))"

lemma rev_map_eq_Cons: "rev (map f xs) = y # ys \<Longrightarrow> \<exists>zs z. xs = zs @ [z] \<and> f z = y \<and> rev (map f zs) = ys"
  by (cases xs rule: rev_cases) auto

interpretation um: history um_undo_move um_redo_move um_past um_future "\<lambda>h. undo_ok (fst h)"
proof unfold_locales
  fix h :: "undo_manager \<times> (nat \<Rightarrow> uuid)" and s p ps
  show "um_undo_move h s = None" if "um_past h = []"
    using that by (simp add: um_undo_move_def um_past_def undo_def)
  show "um_redo_move h s = None" if "um_future h = []"
    using that by (simp add: um_redo_move_def um_future_def redo_def)
  show "\<exists>h'. um_undo_move h s = Some (h', p) \<and> um_past h' = ps \<and> um_future h' = s # um_future h \<and> undo_ok (fst h')"
    if ok: "undo_ok (fst h)" and past: "um_past h = p # ps"
  proof -
    obtain st c where "um_undo_stack (fst h) = st @ [c]" "cp_view c = p" "rev (map cp_view st) = ps"
      using rev_map_eq_Cons [OF past [unfolded um_past_def]] by auto
    with ok show ?thesis
      by (simp add: um_undo_move_def undo_snoc um_past_def um_future_def undo_ok_def undo_count_def
          redo_count_def)
  qed
  show "\<exists>h'. um_redo_move h s = Some (h', p) \<and> um_past h' = s # um_past h \<and> um_future h' = ps \<and> undo_ok (fst h')"
    if ok: "undo_ok (fst h)" and fut: "um_future h = p # ps"
  proof -
    obtain st c where "um_redo_stack (fst h) = st @ [c]" "cp_view c = p" "rev (map cp_view st) = ps"
      using rev_map_eq_Cons [OF fut [unfolded um_future_def]] by auto
    with ok show ?thesis
      by (simp add: um_redo_move_def redo_snoc um_past_def um_future_def undo_ok_def undo_count_def
          redo_count_def)
  qed
qed

section \<open>The undo manager as a machine\<close>

datatype undo_event =
    Checkpointed uuid nat "chat_message list" string
  | Undone uuid nat "chat_message list"
  | Redone uuid nat "chat_message list"
  | PoppedUndo
  | ClearedUndo
  | Restored uuid

fun undo_step :: "undo_manager \<Rightarrow> undo_event \<Rightarrow> undo_manager" where
  "undo_step u (Checkpointed i n ms d) = um_checkpoint i u n ms d"
| "undo_step u (Undone i n ms) = fst (undo i u n ms)"
| "undo_step u (Redone i n ms) = fst (redo i u n ms)"
| "undo_step u PoppedUndo = fst (pop_undo u)"
| "undo_step u ClearedUndo = undo_clear u"
| "undo_step u (Restored i) = fst (restore u i)"

lemma undo_total:
  "undo_count (fst (undo i u n ms)) + redo_count (fst (undo i u n ms)) = undo_count u + redo_count u"
  by (cases "um_undo_stack u" rule: rev_cases)
    (simp_all add: undo_def undo_count_def redo_count_def)

lemma redo_total:
  "undo_ok u \<Longrightarrow>
   undo_count (fst (redo i u n ms)) + redo_count (fst (redo i u n ms)) = undo_count u + redo_count u"
  by (cases "um_redo_stack u" rule: rev_cases)
    (simp_all add: redo_snoc undo_count_def redo_count_def, simp add: redo_def)

lemma undo_max [simp]:
  "um_max_checkpoints (fst (undo i u n ms)) = um_max_checkpoints u"
  "um_max_checkpoints (fst (redo i u n ms)) = um_max_checkpoints u"
  by (simp_all add: undo_def redo_def push_undo_def Let_def split: prod.splits)

lemma restore_not_more:
  "undo_count (fst (restore u i)) + redo_count (fst (restore u i)) \<le> undo_count u + redo_count u \<and>
   um_max_checkpoints (fst (restore u i)) = um_max_checkpoints u"
  by (auto simp: restore_def pop_back_def pop_back_while_over_take undo_count_def redo_count_def
      Let_def split: option.splits)

lemma undo_step_ok: "undo_ok u \<Longrightarrow> undo_ok (undo_step u e)"
proof (cases e)
  case (Restored i)
  assume "undo_ok u"
  with Restored restore_not_more [of u i] show ?thesis by (simp add: undo_ok_def)
next
  case (Checkpointed i n ms d)
  then show ?thesis
    by (simp add: undo_ok_def um_checkpoint_def push_undo_def pop_front_while_over_drop undo_count_def
        redo_count_def)
next
  case (Redone i n ms)
  assume ok: "undo_ok u"
  with Redone redo_total [OF ok, of i n ms] show ?thesis by (simp add: undo_ok_def)
qed (auto simp: undo_ok_def undo_total pop_undo_def pop_back_def undo_clear_def undo_count_def
    redo_count_def split: prod.splits, use undo_total in \<open>simp add: undo_count_def redo_count_def\<close>)

interpretation undo_machine: inv_machine undo_step undo_ok
  by unfold_locales (rule undo_step_ok)

lemma restore_Some:
  assumes "position (\<lambda>c. cp_id c = i) (um_undo_stack u) = Some k"
  shows "restore u i =
    (u\<lparr>um_redo_stack := [], um_undo_stack := take k (um_undo_stack u)\<rparr>, Some (um_undo_stack u ! k))"
proof -
  have "take (k + 1) (um_undo_stack u) = take k (um_undo_stack u) @ [um_undo_stack u ! k]"
    using position_Some [OF assms] by (simp add: take_Suc_conv_app_nth)
  with assms show ?thesis by (simp add: restore_def pop_back_while_over_take)
qed

section \<open>Properties\<close>

text \<open>
  Redo never loses a checkpoint.  After any operations on a manager limited to \<open>m\<close>
  checkpoints the two stacks together hold at most \<open>m\<close>, so the trimming of \<open>push_undo\<close> never
  bites in a redo, and undo and redo leave the total unchanged, as the documentation says.
\<close>

theorem undo_redo_total:
  "let u = foldl undo_step (with_max_checkpoints undo_manager_new m) es in
   undo_count u + redo_count u \<le> um_max_checkpoints u \<and>
   undo_count (fst (undo i u n ms)) + redo_count (fst (undo i u n ms)) = undo_count u + redo_count u \<and>
   undo_count (fst (redo i u n ms)) + redo_count (fst (redo i u n ms)) = undo_count u + redo_count u"
proof -
  have "undo_ok (foldl undo_step (with_max_checkpoints undo_manager_new m) es)"
    by (rule undo_machine.run_inv)
      (simp add: undo_ok_def with_max_checkpoints_def undo_manager_new_def undo_count_def redo_count_def)
  then show ?thesis by (simp add: Let_def undo_total redo_total undo_ok_def)
qed

text \<open>
  C14: Undoing \<open>k\<close> times and redoing \<open>k\<close> times gives the current turn number and messages back, and
  with them the turn numbers and messages of all checkpoints on both stacks.
\<close>

theorem undo_redo_roundtrip:
  assumes "undo_ok u" and "k \<le> undo_count u"
  shows "\<exists>mid u' ids'. um.backs k ((u, ids), (n, ms)) = Some mid \<and>
    um.forths k mid = Some ((u', ids'), (n, ms)) \<and>
    map cp_view (um_undo_stack u') = map cp_view (um_undo_stack u) \<and>
    map cp_view (um_redo_stack u') = map cp_view (um_redo_stack u)"
  using um.backs_forths [of "(u, ids)" k "(n, ms)"] assms
  by (fastforce simp: um_past_def um_future_def undo_count_def)

definition sample_undo :: undo_manager where
  "sample_undo = foldl undo_step undo_manager_new
     [Checkpointed 1 1 [] ''a'', Checkpointed 2 2 [msg_user ''hi''] ''b'', Checkpointed 3 3 [msg_user ''hi'', msg_assistant ''x''] ''c'']"

theorem undo_redo_roundtrip_witness:
  "undo_ok sample_undo \<and> 2 \<le> undo_count sample_undo \<and>
   (\<exists>mid u' ids'. um.backs 2 ((sample_undo, \<lambda>n. n + 9), (4, [])) = Some mid \<and>
      um.forths 2 mid = Some ((u', ids'), (4, [])) \<and> undo_count u' = 3)"
proof -
  have ok: "undo_ok sample_undo" "undo_count sample_undo = 3"
    by (simp_all add: sample_undo_def undo_manager_new_def DEFAULT_MAX_CHECKPOINTS_def
        um_checkpoint_def push_undo_def undo_ok_def undo_count_def redo_count_def)
  then have "2 \<le> undo_count sample_undo" by simp
  from undo_redo_roundtrip [OF ok(1) this, of "\<lambda>n. n + 9" 4 "[]"] ok show ?thesis
    unfolding undo_count_def by (metis eval_nat_numeral(3) le_SucI le_refl length_map)
qed

text \<open>
  Restoring by id returns the first checkpoint of the undo stack with that id, drops it and
  every later one and the whole redo stack; an unknown id changes nothing.
\<close>

theorem restore_by_id:
  "(case restore u i of
      (u', None) \<Rightarrow> u' = u \<and> (\<forall>c \<in> set (um_undo_stack u). cp_id c \<noteq> i)
    | (u', Some c) \<Rightarrow> cp_id c = i \<and> um_redo_stack u' = [] \<and>
        (\<exists>later. um_undo_stack u = um_undo_stack u' @ c # later) \<and>
        (\<forall>d \<in> set (um_undo_stack u'). cp_id d \<noteq> i))"
proof (cases "position (\<lambda>c. cp_id c = i) (um_undo_stack u)")
  case None
  with iffD1 [OF position_None None] show ?thesis by (simp add: restore_def)
next
  case (Some k)
  from position_Some [OF Some] show ?thesis
    by (auto simp: restore_Some [OF Some] in_set_conv_nth id_take_nth_drop [symmetric]
        intro: exI [of _ "drop (Suc k) (um_undo_stack u)"])
qed

theorem restore_by_id_witness:
  "snd (restore sample_undo 2) = Some (checkpoint_new 2 2 [msg_user ''hi''] ''b'') \<and>
   um_redo_stack (fst (restore sample_undo 2)) = []"
proof -
  have p: "position (\<lambda>c. cp_id c = 2) (um_undo_stack sample_undo) = Some 1"
    "um_undo_stack sample_undo ! 1 = checkpoint_new 2 2 [msg_user ''hi''] ''b''"
    by (simp_all add: sample_undo_def undo_manager_new_def DEFAULT_MAX_CHECKPOINTS_def
        um_checkpoint_def push_undo_def checkpoint_new_def)
  from restore_by_id [of sample_undo 2] p show ?thesis by (simp add: restore_Some [OF p(1)])
qed

end
