(* ===== verification/Session_Manager.thy ===== *)
theory Session_Manager
  imports Session Undo
begin

text \<open>
  The session manager of \<^verbatim>\<open>src/src/agent/session_manager.rs\<close>: sessions by user, internal
  thread ids by external key, undo managers by thread id.  A value behind \<open>Arc<Mutex<_>>\<close> is kept
  in the map that owns it.  Tasks spawned for hooks are the list \<open>sm_fired\<close>.  The printing of a
  \<open>Uuid\<close> (crate uuid) is the parameter \<open>uuid_str\<close>.
\<close>

section \<open>State\<close>

record thread_key =
  tk_user_id :: string
  tk_channel :: string
  tk_external_thread_id :: "string option"

datatype session_hook = SessionStart string uuid | SessionEnd string uuid

record session_manager =
  sm_sessions :: "(string \<times> session) list"
  sm_thread_map :: "(thread_key \<times> uuid) list"
  sm_undo_managers :: "(uuid \<times> undo_manager) list"
  sm_hooks :: bool
  sm_fired :: "session_hook list"

definition session_manager_new :: session_manager where
  "session_manager_new =
     \<lparr>sm_sessions = [], sm_thread_map = [], sm_undo_managers = [], sm_hooks = False, sm_fired = []\<rparr>"

definition with_hooks :: "session_manager \<Rightarrow> session_manager" where
  "with_hooks m = m\<lparr>sm_hooks := True\<rparr>"

section \<open>Operations\<close>

definition fire :: "session_manager \<Rightarrow> session_hook list \<Rightarrow> session_manager" where
  "fire m evs = (if sm_hooks m then m\<lparr>sm_fired := sm_fired m @ evs\<rparr> else m)"

definition get_or_create_session ::
  "uuid \<Rightarrow> instant \<Rightarrow> session_manager \<Rightarrow> string \<Rightarrow> session_manager \<times> session" where
  "get_or_create_session new_id now m user_id =
     (case map_of (sm_sessions m) user_id of
        Some s \<Rightarrow> (m, s)
      | None \<Rightarrow>
          let s = session_new new_id now user_id
          in (fire (m\<lparr>sm_sessions := AList.update user_id s (sm_sessions m)\<rparr>)
                [SessionStart user_id (ss_id s)], s))"

text \<open>Both the session id and the thread id may be drawn in one call.\<close>

definition resolve_thread ::
  "uuid \<Rightarrow> uuid \<Rightarrow> instant \<Rightarrow> session_manager \<Rightarrow> string \<Rightarrow> string \<Rightarrow> string option \<Rightarrow>
   session_manager \<times> uuid" where
  "resolve_thread new_sid new_tid now m user_id channel external =
     (let (m, s) = get_or_create_session new_sid now m user_id;
          key = \<lparr>tk_user_id = user_id, tk_channel = channel, tk_external_thread_id = external\<rparr>;
          known = (case map_of (sm_thread_map m) key of
                     Some t \<Rightarrow> if map_of (ss_threads s) t \<noteq> None then Some t else None
                   | None \<Rightarrow> None)
      in case known of
           Some t \<Rightarrow> (m, t)
         | None \<Rightarrow>
             (m\<lparr>sm_sessions := AList.update user_id (create_thread new_tid now s) (sm_sessions m),
                sm_thread_map := AList.update key new_tid (sm_thread_map m),
                sm_undo_managers := AList.update new_tid undo_manager_new (sm_undo_managers m)\<rparr>,
              new_tid))"

definition or_insert :: "'k \<Rightarrow> 'v \<Rightarrow> ('k \<times> 'v) list \<Rightarrow> ('k \<times> 'v) list" where
  "or_insert k v m = (if map_of m k = None then AList.update k v m else m)"

definition register_thread ::
  "(uuid \<Rightarrow> string) \<Rightarrow> session_manager \<Rightarrow> string \<Rightarrow> string \<Rightarrow> uuid \<Rightarrow> session \<Rightarrow> session_manager" where
  "register_thread uuid_str m user_id channel tid s =
     (let key = \<lparr>tk_user_id = user_id, tk_channel = channel,
                 tk_external_thread_id = Some (uuid_str tid)\<rparr>
      in m\<lparr>sm_thread_map := AList.update key tid (sm_thread_map m),
           sm_undo_managers := or_insert tid undo_manager_new (sm_undo_managers m),
           sm_sessions := or_insert user_id s (sm_sessions m)\<rparr>)"

definition get_undo_manager :: "session_manager \<Rightarrow> uuid \<Rightarrow> session_manager \<times> undo_manager" where
  "get_undo_manager m tid =
     (case map_of (sm_undo_managers m) tid of
        Some u \<Rightarrow> (m, u)
      | None \<Rightarrow> (m\<lparr>sm_undo_managers := AList.update tid undo_manager_new (sm_undo_managers m)\<rparr>,
                 undo_manager_new))"

text \<open>\<open>busy1\<close> and \<open>busy2\<close> are the users whose session lock is contended when the two passes of
  \<open>prune_stale_sessions\<close> try it.\<close>

definition stale_sessions ::
  "(string \<Rightarrow> bool) \<Rightarrow> instant \<Rightarrow> session_manager \<Rightarrow> (string \<times> uuid) list" where
  "stale_sessions busy1 cutoff m =
     map (\<lambda>(user_id, s). (user_id, ss_id s))
       (filter (\<lambda>(user_id, s). \<not> busy1 user_id \<and> ss_last_active_at s < cutoff) (sm_sessions m))"

definition stale_thread_ids ::
  "(string \<Rightarrow> bool) \<Rightarrow> string list \<Rightarrow> session_manager \<Rightarrow> uuid list" where
  "stale_thread_ids busy2 users m =
     concat (map (\<lambda>user_id. case map_of (sm_sessions m) user_id of
         Some s \<Rightarrow> if busy2 user_id then [] else map fst (ss_threads s)
       | None \<Rightarrow> []) users)"

definition prune_stale_sessions ::
  "(string \<Rightarrow> bool) \<Rightarrow> (string \<Rightarrow> bool) \<Rightarrow> instant \<Rightarrow> session_manager \<Rightarrow> duration \<Rightarrow>
   session_manager \<times> nat" where
  "prune_stale_sessions busy1 busy2 now m max_idle =
     (let cutoff = now - as_secs max_idle * SECS;
          stale = stale_sessions busy1 cutoff m;
          users = map fst stale
      in if users = [] then (m, 0)
         else
           let tids = stale_thread_ids busy2 users m;
               m1 = fire m (map (\<lambda>(u, i). SessionEnd u i) stale);
               ss = fold AList.delete users (sm_sessions m1)
           in (m1\<lparr>sm_sessions := ss,
                  sm_thread_map := filter (\<lambda>(k, _). tk_user_id k \<notin> set users) (sm_thread_map m1),
                  sm_undo_managers := fold AList.delete tids (sm_undo_managers m1)\<rparr>,
               length (sm_sessions m1) - length ss))"

section \<open>Lemmas\<close>

lemma fire_frame [simp]:
  "sm_sessions (fire m evs) = sm_sessions m" "sm_thread_map (fire m evs) = sm_thread_map m"
  "sm_undo_managers (fire m evs) = sm_undo_managers m" "sm_hooks (fire m evs) = sm_hooks m"
  by (simp_all add: fire_def)

lemma map_of_fold_delete:
  "map_of (fold AList.delete ks m) k = (if k \<in> set ks then None else map_of m k)"
  by (induction ks arbitrary: m) auto

lemma distinct_fold_delete:
  "distinct (map fst m) \<Longrightarrow> distinct (map fst (fold AList.delete ks m))"
  by (induction ks arbitrary: m) (simp_all add: distinct_delete)

lemma map_of_filter_fst: "map_of (filter (\<lambda>(k, _). P k) m) k = (if P k then map_of m k else None)"
  by (induction m) auto

lemma map_of_or_insert:
  "map_of (or_insert k v m) j = (if j = k \<and> map_of m k = None then Some v else map_of m j)"
  by (simp add: or_insert_def distinct_map_of_update)

lemma get_or_create_session_stored:
  "map_of (sm_sessions (fst (get_or_create_session i n m u))) u = Some (snd (get_or_create_session i n m u))"
  by (auto simp: get_or_create_session_def Let_def distinct_map_of_update split: option.splits)

lemma get_or_create_session_frame:
  "v \<noteq> u \<Longrightarrow> map_of (sm_sessions (fst (get_or_create_session i n m u))) v = map_of (sm_sessions m) v"
  "sm_thread_map (fst (get_or_create_session i n m u)) = sm_thread_map m"
  "sm_undo_managers (fst (get_or_create_session i n m u)) = sm_undo_managers m"
  by (auto simp: get_or_create_session_def Let_def distinct_map_of_update split: option.splits)

lemma create_thread_known: "map_of (ss_threads (create_thread i n s)) i \<noteq> None"
  by (simp add: create_thread_def distinct_map_of_update)

lemma resolve_thread_known:
  assumes "map_of (sm_sessions m) user_id = Some s"
    and "map_of (sm_thread_map m) \<lparr>tk_user_id = user_id, tk_channel = ch, tk_external_thread_id = ext\<rparr> = Some t"
    and "map_of (ss_threads s) t \<noteq> None"
  shows "resolve_thread i j n m user_id ch ext = (m, t)"
  using assms by (auto simp: resolve_thread_def get_or_create_session_def)

lemma resolve_thread_found:
  assumes "resolve_thread i j n m user_id ch ext = (m', t)"
  shows "\<exists>s. map_of (sm_sessions m') user_id = Some s \<and> map_of (ss_threads s) t \<noteq> None \<and>
    map_of (sm_thread_map m')
      \<lparr>tk_user_id = user_id, tk_channel = ch, tk_external_thread_id = ext\<rparr> = Some t"
proof -
  obtain m1 s where ms: "get_or_create_session i n m user_id = (m1, s)" by fastforce
  then have "map_of (sm_sessions m1) user_id = Some s"
    using get_or_create_session_stored [of i n m user_id] by simp
  with assms ms create_thread_known [of j n s] show ?thesis
    by (auto simp: resolve_thread_def Let_def distinct_map_of_update split: option.splits if_splits)
qed

lemma resolve_thread_frame:
  assumes "resolve_thread i j n m user_id ch ext = (m', t)" and "v \<noteq> user_id"
  shows "map_of (sm_sessions m') v = map_of (sm_sessions m) v"
    and "tk_user_id k = v \<Longrightarrow> map_of (sm_thread_map m') k = map_of (sm_thread_map m) k"
proof -
  obtain m1 s where ms: "get_or_create_session i n m user_id = (m1, s)" by fastforce
  then have f: "map_of (sm_sessions m1) v = map_of (sm_sessions m) v" "sm_thread_map m1 = sm_thread_map m"
    using get_or_create_session_frame(1) [OF assms(2), of i n m]
      get_or_create_session_frame(2) [of i n m user_id] by simp_all
  show "map_of (sm_sessions m') v = map_of (sm_sessions m) v"
    using assms ms f by (auto simp: resolve_thread_def Let_def distinct_map_of_update split: option.splits if_splits)
  show "map_of (sm_thread_map m') k = map_of (sm_thread_map m) k" if "tk_user_id k = v"
    using assms ms f that by (auto simp: resolve_thread_def Let_def distinct_map_of_update split: option.splits if_splits)
qed

definition is_stale :: "(string \<Rightarrow> bool) \<Rightarrow> instant \<Rightarrow> session_manager \<Rightarrow> string \<Rightarrow> bool" where
  "is_stale busy cutoff m u \<longleftrightarrow>
     (case map_of (sm_sessions m) u of
        Some s \<Rightarrow> \<not> busy u \<and> ss_last_active_at s < cutoff
      | None \<Rightarrow> False)"

lemma set_stale_users:
  assumes "distinct (map fst (sm_sessions m))"
  shows "u \<in> set (map fst (stale_sessions busy c m)) \<longleftrightarrow> is_stale busy c m u"
proof -
  have "u \<in> set (map fst (stale_sessions busy c m)) \<longleftrightarrow>
      (\<exists>s. (u, s) \<in> set (sm_sessions m) \<and> \<not> busy u \<and> ss_last_active_at s < c)"
    by (force simp: stale_sessions_def)
  also have "\<dots> \<longleftrightarrow> (\<exists>s. map_of (sm_sessions m) u = Some s \<and> \<not> busy u \<and> ss_last_active_at s < c)"
    using assms by simp
  also have "\<dots> \<longleftrightarrow> is_stale busy c m u" by (simp add: is_stale_def split: option.split)
  finally show ?thesis .
qed

lemma prune_fields:
  assumes "users = map fst (stale_sessions busy1 (now - as_secs idle * SECS) m)" and "users \<noteq> []"
    and "prune_stale_sessions busy1 busy2 now m idle = (m', count)"
  shows "sm_sessions m' = fold AList.delete users (sm_sessions m)"
    and "sm_thread_map m' = filter (\<lambda>(k, _). tk_user_id k \<notin> set users) (sm_thread_map m)"
    and "sm_undo_managers m' = fold AList.delete (stale_thread_ids busy2 users m) (sm_undo_managers m)"
    and "count = length (sm_sessions m) - length (sm_sessions m')"
  using assms(2,3) unfolding prune_stale_sessions_def Let_def assms(1) [symmetric] by auto

lemma set_stale_thread_ids:
  "t \<in> set (stale_thread_ids busy us m) \<longleftrightarrow>
   (\<exists>u s. u \<in> set us \<and> map_of (sm_sessions m) u = Some s \<and> \<not> busy u \<and> t \<in> fst ` set (ss_threads s))"
proof (induction us)
  case (Cons u us)
  have "t \<in> set (stale_thread_ids busy (u # us) m) \<longleftrightarrow>
      (\<exists>s. map_of (sm_sessions m) u = Some s \<and> \<not> busy u \<and> t \<in> fst ` set (ss_threads s)) \<or>
      t \<in> set (stale_thread_ids busy us m)"
    by (cases "map_of (sm_sessions m) u") (simp_all add: stale_thread_ids_def)
  with Cons.IH show ?case by auto
qed (simp add: stale_thread_ids_def)

section \<open>Properties\<close>

text \<open>
  An external thread id is resolved to one thread.  The thread resolved exists in the user's
  session, resolving the same key again returns it and changes nothing, and neither the sessions
  nor the mappings of other users are touched.
\<close>

theorem resolve_thread_stable:
  assumes "resolve_thread i j n m user_id ch ext = (m', t)"
  shows "(\<exists>s. map_of (sm_sessions m') user_id = Some s \<and> map_of (ss_threads s) t \<noteq> None) \<and>
    resolve_thread i' j' n' m' user_id ch ext = (m', t) \<and>
    (\<forall>v. v \<noteq> user_id \<longrightarrow> map_of (sm_sessions m') v = map_of (sm_sessions m) v \<and>
       (\<forall>k. tk_user_id k = v \<longrightarrow> map_of (sm_thread_map m') k = map_of (sm_thread_map m) k))"
  using resolve_thread_found [OF assms] resolve_thread_known [of m' user_id]
    resolve_thread_frame [OF assms] by blast

theorem resolve_thread_stable_witness:
  "let (m, t) = resolve_thread 1 2 5 session_manager_new ''alice'' ''cli'' None in
   t = 2 \<and> resolve_thread 7 8 9 m ''alice'' ''cli'' None = (m, t) \<and> map_of (sm_sessions m) ''bob'' = None"
proof -
  obtain m t where r: "resolve_thread 1 2 5 session_manager_new ''alice'' ''cli'' None = (m, t)" by fastforce
  then have "t = 2"
    by (simp add: resolve_thread_def get_or_create_session_def session_manager_new_def fire_def Let_def)
  moreover have "map_of (sm_sessions m) ''bob'' = map_of (sm_sessions session_manager_new) ''bob''"
    using resolve_thread_stable [OF r, of 7 8 9] by auto
  ultimately show ?thesis using resolve_thread_stable [OF r, of 7 8 9] r
    by (simp add: session_manager_new_def)
qed

text \<open>
  Pruning removes exactly the sessions whose lock was free and that are idle past the cutoff,
  returns their number, drops every thread mapping of their users and the undo managers of their
  threads, and leaves everything else alone.
\<close>

theorem prune_exact:
  assumes "distinct (map fst (sm_sessions m))"
    and "prune_stale_sessions busy (\<lambda>_. False) now m idle = (m', count)"
  shows "map_of (sm_sessions m') u = (if is_stale busy (now - as_secs idle * SECS) m u then None else map_of (sm_sessions m) u) \<and>
    map_of (sm_thread_map m') k = (if is_stale busy (now - as_secs idle * SECS) m (tk_user_id k) then None else map_of (sm_thread_map m) k) \<and>
    map_of (sm_undo_managers m') t =
      (if \<exists>v s. is_stale busy (now - as_secs idle * SECS) m v \<and> map_of (sm_sessions m) v = Some s \<and> t \<in> fst ` set (ss_threads s)
       then None else map_of (sm_undo_managers m) t) \<and>
    count = length (sm_sessions m) - length (sm_sessions m')"
proof -
  define us where "us = map fst (stale_sessions busy (now - as_secs idle * SECS) m)"
  have us: "v \<in> set us \<longleftrightarrow> is_stale busy (now - as_secs idle * SECS) m v" for v
    unfolding us_def by (rule set_stale_users [OF assms(1)])
  have tids: "t \<in> set (stale_thread_ids (\<lambda>_. False) us m) \<longleftrightarrow>
      (\<exists>v s. is_stale busy (now - as_secs idle * SECS) m v \<and> map_of (sm_sessions m) v = Some s \<and> t \<in> fst ` set (ss_threads s))"
    by (simp add: set_stale_thread_ids us)
  show ?thesis
  proof (cases "us = []")
    case True
    then have none: "\<not> is_stale busy (now - as_secs idle * SECS) m v" for v using us [of v] by simp
    from True assms(2) have "m' = m" "count = 0"
      by (auto simp: prune_stale_sessions_def us_def Let_def)
    with none show ?thesis by simp
  next
    case False
    from prune_fields [OF us_def False assms(2)] show ?thesis
      by (simp add: map_of_fold_delete map_of_filter_fst us tids)
  qed
qed

definition sample_manager :: session_manager where
  "sample_manager = fst (resolve_thread 3 4 (9 * SECS)
     (fst (resolve_thread 1 2 0 session_manager_new ''alice'' ''cli'' None)) ''bob'' ''cli'' None)"

theorem prune_exact_witness:
  "let m' = fst (prune_stale_sessions (\<lambda>_. False) (\<lambda>_. False) (10 * SECS) sample_manager (5 * SECS)) in
   map_of (sm_sessions m') ''alice'' = None \<and> map_of (sm_sessions m') ''bob'' \<noteq> None \<and>
   map_of (sm_undo_managers m') 2 = None"
proof -
  obtain m' c where r: "prune_stale_sessions (\<lambda>_. False) (\<lambda>_. False) (10 * SECS) sample_manager (5 * SECS) = (m', c)"
    by fastforce
  have s: "sm_sessions sample_manager =
      [(''alice'', create_thread 2 0 (session_new 1 0 ''alice'')),
       (''bob'', create_thread 4 (9 * SECS) (session_new 3 (9 * SECS) ''bob''))]"
    by (simp add: sample_manager_def resolve_thread_def get_or_create_session_def session_manager_new_def
        fire_def Let_def)
  have d: "distinct (map fst (sm_sessions sample_manager))" by (simp add: s)
  have st: "is_stale (\<lambda>_. False) (10 * SECS - as_secs (5 * SECS) * SECS) sample_manager ''alice''"
    "\<not> is_stale (\<lambda>_. False) (10 * SECS - as_secs (5 * SECS) * SECS) sample_manager ''bob''"
    by (simp_all add: is_stale_def s as_secs_def SECS_def create_thread_def session_new_def)
  have t: "\<exists>v s. is_stale (\<lambda>_. False) (10 * SECS - as_secs (5 * SECS) * SECS) sample_manager v \<and>
      map_of (sm_sessions sample_manager) v = Some s \<and> 2 \<in> fst ` set (ss_threads s)"
    using st(1) by (intro exI [of _ "''alice''"]) (simp add: s create_thread_def session_new_def)
  show ?thesis
    using prune_exact [OF d r, of "''alice''" undefined 2] prune_exact [OF d r, of "''bob''" undefined 2] t st
    by (simp add: r s)
qed

text \<open>
  Activity does not keep a session.  \<open>last_active_at\<close> is not touched by turns, so however
  many turns a thread of the session runs, pruning judges the session as if they had not happened.
\<close>

theorem prune_ignores_turns:
  assumes "map_of (sm_sessions m) u = Some s" and "distinct (map fst (sm_sessions m))"
    and "ss_last_active_at s < now - as_secs idle * SECS"
  shows "map_of (sm_sessions (fst (prune_stale_sessions (\<lambda>_. False) (\<lambda>_. False) now
    (m\<lparr>sm_sessions := AList.update u (foldl session_step s (map (OnThread t) es)) (sm_sessions m)\<rparr>)
    idle))) u = None"
proof -
  let ?s = "foldl session_step s (map (OnThread t) es)"
  have "ss_last_active_at (foldl session_step s (map (OnThread t) es)) = ss_last_active_at s"
    by (induction es arbitrary: s) (simp_all add: update_thread_def split: option.splits)
  then have "u \<in> set (map fst (stale_sessions (\<lambda>_. False) (now - as_secs idle * SECS)
      (m\<lparr>sm_sessions := AList.update u ?s (sm_sessions m)\<rparr>)))"
    using assms by (subst set_stale_users) (simp_all add: distinct_update distinct_map_of_update is_stale_def)
  then show ?thesis by (auto simp: prune_stale_sessions_def Let_def map_of_fold_delete)
qed

theorem prune_ignores_turns_witness:
  "map_of (sm_sessions (fst (prune_stale_sessions (\<lambda>_. False) (\<lambda>_. False) (10 * SECS)
     (let m = fst (resolve_thread 1 2 0 session_manager_new ''alice'' ''cli'' None) in
      m\<lparr>sm_sessions := AList.update ''alice''
          (foldl session_step (create_thread 2 0 (session_new 1 0 ''alice''))
             (map (OnThread 2) [StartTurn ''hi'' (10 * SECS)])) (sm_sessions m)\<rparr>) (5 * SECS)))) ''alice'' = None"
  unfolding Let_def
  by (rule prune_ignores_turns)
    (simp_all add: resolve_thread_def get_or_create_session_def session_manager_new_def fire_def
      Let_def as_secs_def SECS_def create_thread_def session_new_def)

end
