(* ===== verification/Submission.thy ===== *)
theory Submission
  imports Prelude
begin

text \<open>
  The submission parser of \<^verbatim>\<open>src/src/agent/submission.rs\<close>: what a message means to the agent loop.
  \<open>Uuid::parse_str\<close> (crate uuid) and the decoding of a submission from JSON (serde_json) are the
  parameters \<open>parse_uuid\<close> and \<open>from_json\<close>.
\<close>

section \<open>Submissions and their results\<close>

datatype submission =
    UserInput string
  | ExecApproval uuid bool bool
  | ApprovalResponse bool bool
  | SubInterrupt
  | Compact
  | SubUndo
  | SubRedo
  | SubResume uuid
  | Clear
  | SubSwitchThread uuid
  | NewThread
  | Heartbeat
  | Summarize
  | Suggest
  | Quit
  | SystemCommand string "string list"

definition user_input :: "string \<Rightarrow> submission" where
  "user_input content = UserInput content"

definition approval :: "uuid \<Rightarrow> bool \<Rightarrow> submission" where
  "approval request_id approved = ExecApproval request_id approved False"

definition always_approve :: "uuid \<Rightarrow> submission" where
  "always_approve request_id = ExecApproval request_id True True"

fun starts_turn :: "submission \<Rightarrow> bool" where
  "starts_turn (UserInput _) = True"
| "starts_turn _ = False"

fun is_control :: "submission \<Rightarrow> bool" where
  "is_control SubInterrupt = True"
| "is_control Compact = True"
| "is_control SubUndo = True"
| "is_control SubRedo = True"
| "is_control Clear = True"
| "is_control NewThread = True"
| "is_control Heartbeat = True"
| "is_control Summarize = True"
| "is_control Suggest = True"
| "is_control (SystemCommand _ _) = True"
| "is_control _ = False"

datatype submission_result =
    Response string
  | NeedApproval uuid string string json
  | SubOk "string option"
  | SubError string
  | SubInterrupted

definition ok_with_message :: "string \<Rightarrow> submission_result" where
  "ok_with_message m = SubOk (Some m)"

section \<open>The parser\<close>

definition command_args :: "string \<Rightarrow> string list" where
  "command_args trimmed = drop 1 (split_whitespace trimmed)"

definition parse_control :: "string \<Rightarrow> string \<Rightarrow> submission option" where
  "parse_control trimmed lower =
     (if lower = ''/undo'' then Some SubUndo
      else if lower = ''/redo'' then Some SubRedo
      else if lower = ''/interrupt'' \<or> lower = ''/stop'' then Some SubInterrupt
      else if lower = ''/compact'' then Some Compact
      else if lower = ''/clear'' then Some Clear
      else if lower = ''/heartbeat'' then Some Heartbeat
      else if lower = ''/summarize'' \<or> lower = ''/summary'' then Some Summarize
      else if lower = ''/suggest'' then Some Suggest
      else if lower = ''/thread new'' \<or> lower = ''/new'' then Some NewThread
      else if lower = ''/help'' \<or> lower = ''/?'' then Some (SystemCommand ''help'' [])
      else if lower = ''/version'' then Some (SystemCommand ''version'' [])
      else if lower = ''/tools'' then Some (SystemCommand ''tools'' [])
      else if lower = ''/ping'' then Some (SystemCommand ''ping'' [])
      else if lower = ''/debug'' then Some (SystemCommand ''debug'' [])
      else if starts_with lower ''/model'' then Some (SystemCommand ''model'' (command_args trimmed))
      else if starts_with lower ''/kernel'' then Some (SystemCommand ''kernel'' (command_args trimmed))
      else if lower = ''/quit'' \<or> lower = ''/exit'' \<or> lower = ''/shutdown'' then Some Quit
      else None)"

definition parse_thread :: "(string \<Rightarrow> uuid option) \<Rightarrow> string \<Rightarrow> submission option" where
  "parse_thread parse_uuid lower =
     (case strip_prefix lower ''/thread '' of
        Some rest \<Rightarrow> if trim rest \<noteq> ''new'' then map_option SubSwitchThread (parse_uuid (trim rest)) else None
      | None \<Rightarrow> None)"

definition parse_resume :: "(string \<Rightarrow> uuid option) \<Rightarrow> string \<Rightarrow> submission option" where
  "parse_resume parse_uuid lower =
     (case strip_prefix lower ''/resume '' of
        Some rest \<Rightarrow> map_option SubResume (parse_uuid (trim rest))
      | None \<Rightarrow> None)"

definition parse_json_approval :: "(string \<Rightarrow> submission option) \<Rightarrow> string \<Rightarrow> submission option" where
  "parse_json_approval from_json trimmed =
     (if starts_with trimmed ''{''
      then case from_json trimmed of
             Some (ExecApproval i a w) \<Rightarrow> Some (ExecApproval i a w)
           | _ \<Rightarrow> None
      else None)"

definition parse_approval_word :: "string \<Rightarrow> submission option" where
  "parse_approval_word lower =
     (if lower \<in> set [''yes'', ''y'', ''approve'', ''ok''] then Some (ApprovalResponse True False)
      else if lower \<in> set [''always'', ''yes always'', ''approve always'']
      then Some (ApprovalResponse True True)
      else if lower \<in> set [''no'', ''n'', ''deny'', ''reject'', ''cancel'']
      then Some (ApprovalResponse False False)
      else None)"

definition or_else :: "'a option \<Rightarrow> 'a option \<Rightarrow> 'a option" where
  "or_else a b = (case a of Some x \<Rightarrow> Some x | None \<Rightarrow> b)"

definition parse ::
  "(string \<Rightarrow> uuid option) \<Rightarrow> (string \<Rightarrow> submission option) \<Rightarrow> string \<Rightarrow> submission" where
  "parse parse_uuid from_json content =
     (let trimmed = trim content; lower = to_lowercase trimmed
      in case or_else (parse_control trimmed lower)
               (or_else (parse_thread parse_uuid lower)
               (or_else (parse_resume parse_uuid lower)
               (or_else (parse_json_approval from_json trimmed)
                        (parse_approval_word lower)))) of
           Some s \<Rightarrow> s
         | None \<Rightarrow> UserInput content)"

section \<open>Lemmas\<close>

lemma or_else_simps [simp]: "or_else None b = b" "or_else (Some x) b = Some x"
  by (simp_all add: or_else_def)

lemma or_else_eq_Some: "or_else a b = Some x \<longleftrightarrow> a = Some x \<or> a = None \<and> b = Some x"
  by (cases a) simp_all

lemma or_else_eq_None [simp]: "or_else a b = None \<longleftrightarrow> a = None \<and> b = None"
  by (cases a) simp_all

lemma parse_cases:
  "parse pu fj c =
   (case or_else (parse_control (trim c) (to_lowercase (trim c)))
      (or_else (parse_thread pu (to_lowercase (trim c)))
      (or_else (parse_resume pu (to_lowercase (trim c)))
      (or_else (parse_json_approval fj (trim c)) (parse_approval_word (to_lowercase (trim c)))))) of
      Some s \<Rightarrow> s | None \<Rightarrow> UserInput c)"
  by (simp add: parse_def Let_def)

lemma parse_control_kinds:
  "parse_control t l = Some s \<Longrightarrow> is_control s \<or> s = Quit"
proof -
  have "pred_option (\<lambda>s. is_control s \<or> s = Quit) (parse_control t l)"
    unfolding parse_control_def by (intro pred_ifI) simp_all
  then show "parse_control t l = Some s \<Longrightarrow> is_control s \<or> s = Quit" by simp
qed

lemma parse_thread_Some: "parse_thread pu l = Some s \<Longrightarrow> \<exists>i. s = SubSwitchThread i"
  by (auto simp: parse_thread_def split: option.splits if_splits)

lemma parse_resume_Some: "parse_resume pu l = Some s \<Longrightarrow> \<exists>i. s = SubResume i"
  by (auto simp: parse_resume_def split: option.splits)

lemma parse_json_approval_Some:
  "parse_json_approval fj t = Some s \<Longrightarrow> starts_with t ''{'' \<and> fj t = Some s \<and> (\<exists>i a w. s = ExecApproval i a w)"
  by (auto simp: parse_json_approval_def split: if_splits option.splits submission.splits)

lemma parse_approval_word_Some:
  "parse_approval_word l = Some s \<Longrightarrow> \<exists>a w. s = ApprovalResponse a w"
proof -
  have "pred_option (\<lambda>s. \<exists>a w. s = ApprovalResponse a w) (parse_approval_word l)"
    unfolding parse_approval_word_def by (intro pred_ifI) auto
  then show "parse_approval_word l = Some s \<Longrightarrow> \<exists>a w. s = ApprovalResponse a w" by simp
qed

lemmas parse_parts = parse_control_kinds parse_thread_Some parse_resume_Some
  parse_json_approval_Some parse_approval_word_Some

text \<open>An opening brace rules every other form out.\<close>

lemma brace_lower: "starts_with t ''{'' \<longleftrightarrow> starts_with (to_lowercase t) ''{''"
proof (cases t)
  case (Cons c cs)
  have "c = CHR ''{'' \<longleftrightarrow> lower_char c = CHR ''{''"
    using lower_char_fixed [of "CHR ''{''" c] by (auto simp: lower_char_def char_code_def)
  then show ?thesis using Cons by (auto simp: starts_with_def to_lowercase_def)
qed (simp add: starts_with_def to_lowercase_def)

lemma brace_parse:
  assumes "starts_with (trim c) ''{''"
  shows "parse_control t (to_lowercase (trim c)) = None" "parse_thread pu (to_lowercase (trim c)) = None"
    "parse_resume pu (to_lowercase (trim c)) = None" "parse_approval_word (to_lowercase (trim c)) = None"
proof -
  obtain r where r: "to_lowercase (trim c) = CHR ''{'' # r"
    using iffD1 [OF brace_lower assms] by (auto simp: starts_with_iff)
  show "parse_control t (to_lowercase (trim c)) = None" "parse_thread pu (to_lowercase (trim c)) = None"
    "parse_resume pu (to_lowercase (trim c)) = None" "parse_approval_word (to_lowercase (trim c)) = None"
    unfolding r
    by (simp_all add: parse_control_def parse_thread_def parse_resume_def parse_approval_word_def
        starts_with_def strip_prefix_def)
qed

text \<open>Every command starts with a slash.\<close>

lemma no_slash_lower:
  assumes "\<not> starts_with l ''/''"
  shows "parse_control t l = None" "parse_thread pu l = None" "parse_resume pu l = None"
proof -
  have n: "l \<noteq> CHR ''/'' # r" for r using assms by (auto simp: starts_with_iff)
  then have p: "\<not> starts_with l (CHR ''/'' # r)" for r by (auto simp: starts_with_iff)
  show "parse_control t l = None" by (simp add: parse_control_def n p)
  show "parse_thread pu l = None" "parse_resume pu l = None"
    by (simp_all add: parse_thread_def parse_resume_def strip_prefix_def p)
qed

lemma slash_lower: "starts_with (to_lowercase t) ''/'' \<longleftrightarrow> starts_with t ''/''"
proof (cases t)
  case (Cons c cs)
  have "c = CHR ''/'' \<longleftrightarrow> lower_char c = CHR ''/''"
    using lower_char_fixed [of "CHR ''/''" c] by (auto simp: lower_char_def char_code_def)
  then show ?thesis using Cons by (auto simp: starts_with_def to_lowercase_def)
qed (simp add: starts_with_def to_lowercase_def)

lemma no_slash_parse:
  assumes "\<not> starts_with t ''/''"
  shows "parse_control u (to_lowercase t) = None" "parse_thread pu (to_lowercase t) = None"
    "parse_resume pu (to_lowercase t) = None"
  using assms by (simp_all add: no_slash_lower slash_lower)

lemma parse_control_args:
  "rel_option (\<lambda>a b. a = b \<or> (\<exists>n as bs. a = SystemCommand n as \<and> b = SystemCommand n bs))
     (parse_control t l) (parse_control t' l)"
  unfolding parse_control_def by (intro rel_ifI) simp_all

lemma parse_control_same:
  "parse_control t l = Some s \<Longrightarrow> (\<forall>n as. s \<noteq> SystemCommand n as) \<Longrightarrow> parse_control t' l = Some s"
  "parse_control t l = None \<Longrightarrow> parse_control t' l = None"
  using parse_control_args [of t l t'] by (auto simp: option_rel_Some1)

lemma parse_approval_word_iff:
  "parse_approval_word l = Some (ApprovalResponse a w) \<longleftrightarrow> l \<in> set (if a then
      (if w then [''always'', ''yes always'', ''approve always''] else [''yes'', ''y'', ''approve'', ''ok''])
      else if w then [] else [''no'', ''n'', ''deny'', ''reject'', ''cancel''])"
  unfolding parse_approval_word_def by (cases a; cases w) auto

lemma approval_word_alone:
  assumes "parse_approval_word l = Some (ApprovalResponse a w)"
  shows "parse_control t l = None" "parse_thread pu l = None" "parse_resume pu l = None"
proof -
  have "\<not> starts_with l ''/''"
    using assms unfolding parse_approval_word_iff
    by (auto simp: starts_with_def split: if_splits)
  then show "parse_control t l = None" "parse_thread pu l = None" "parse_resume pu l = None"
    by (auto simp: no_slash_lower)
qed

section \<open>Properties\<close>

text \<open>
  Commands ignore case and surrounding white space.  Two messages that agree after trimming and
  lower-casing are the same submission, if one of them is neither user input, nor a system command
  with arguments, nor a structured approval.
\<close>

theorem parse_case_insensitive:
  assumes "to_lowercase (trim c) = to_lowercase (trim d)"
    and "parse pu fj c = s" and "s \<noteq> UserInput c"
    and "\<forall>n as. s \<noteq> SystemCommand n as" and "\<forall>i a w. s \<noteq> ExecApproval i a w"
  shows "parse pu fj d = s"
proof -
  let ?l = "to_lowercase (trim d)"
  have j: "parse_json_approval fj (trim c) \<noteq> Some s" using assms(5) parse_json_approval_Some by metis
  have d: "parse_json_approval fj (trim d) = None"
    if "parse_json_approval fj (trim c) = None" "parse_approval_word ?l = Some s"
  proof (rule ccontr)
    assume "parse_json_approval fj (trim d) \<noteq> None"
    then have "starts_with (trim d) ''{''" using parse_json_approval_Some by blast
    from brace_parse(4) [OF this] that show False by simp
  qed
  have "or_else (parse_control (trim c) ?l) (or_else (parse_thread pu ?l) (or_else (parse_resume pu ?l)
      (or_else (parse_json_approval fj (trim c)) (parse_approval_word ?l)))) = Some s"
    using assms(2,3) unfolding parse_cases [of pu fj c] assms(1) by (auto split: option.splits)
  then have "or_else (parse_control (trim d) ?l) (or_else (parse_thread pu ?l) (or_else (parse_resume pu ?l)
      (or_else (parse_json_approval fj (trim d)) (parse_approval_word ?l)))) = Some s"
    using j d assms(4) by (auto simp: or_else_eq_Some intro: parse_control_same)
  then show ?thesis unfolding parse_cases [of pu fj d] by simp
qed

theorem parse_case_insensitive_witness:
  "parse (\<lambda>_. None) (\<lambda>_. None) ''  /UnDo '' = SubUndo"
proof -
  have u: "parse (\<lambda>_. None) (\<lambda>_. None) ''/undo'' = SubUndo" by code_simp
  have "to_lowercase (trim ''/undo'') = to_lowercase (trim ''  /UnDo '')" by code_simp
  from parse_case_insensitive [OF this u] show ?thesis by simp
qed

text \<open>
  Approvals and refusals are exactly twelve words.  A message is an answer without a request id if and
  only if, trimmed and lower-cased, it is one of the listed words; an approval with an id comes
  only from JSON text that decodes to it.
\<close>

theorem approval_words_exact:
  "(parse pu fj c = ApprovalResponse a w \<longleftrightarrow>
     to_lowercase (trim c) \<in> set (if a then (if w then [''always'', ''yes always'', ''approve always'']
                                       else [''yes'', ''y'', ''approve'', ''ok''])
                              else if w then [] else [''no'', ''n'', ''deny'', ''reject'', ''cancel''])) \<and>
   (parse pu fj c = ExecApproval i a w \<longleftrightarrow> starts_with (trim c) ''{'' \<and> fj (trim c) = Some (ExecApproval i a w))"
proof
  show "parse pu fj c = ApprovalResponse a w \<longleftrightarrow> to_lowercase (trim c) \<in> set (if a then
      (if w then [''always'', ''yes always'', ''approve always''] else [''yes'', ''y'', ''approve'', ''ok''])
      else if w then [] else [''no'', ''n'', ''deny'', ''reject'', ''cancel''])"
    (is "_ \<longleftrightarrow> ?words")
    unfolding parse_approval_word_iff [symmetric]
  proof
    assume p: "parse pu fj c = ApprovalResponse a w"
    then show "parse_approval_word (to_lowercase (trim c)) = Some (ApprovalResponse a w)"
      by (auto simp: parse_cases or_else_eq_Some split: option.splits dest!: parse_parts)
  next
    assume p: "parse_approval_word (to_lowercase (trim c)) = Some (ApprovalResponse a w)"
    have "parse_json_approval fj (trim c) = None"
    proof (rule ccontr)
      assume "parse_json_approval fj (trim c) \<noteq> None"
      then have "starts_with (trim c) ''{''" using parse_json_approval_Some by blast
      from brace_parse(4) [OF this] p show False by simp
    qed
    then show "parse pu fj c = ApprovalResponse a w"
      using approval_word_alone [OF p] p by (simp add: parse_cases)
  qed
next
  show "parse pu fj c = ExecApproval i a w \<longleftrightarrow> starts_with (trim c) ''{'' \<and> fj (trim c) = Some (ExecApproval i a w)"
  proof
    assume "parse pu fj c = ExecApproval i a w"
    then show "starts_with (trim c) ''{'' \<and> fj (trim c) = Some (ExecApproval i a w)"
      by (auto simp: parse_cases or_else_eq_Some split: option.splits dest!: parse_parts)
  next
    assume p: "starts_with (trim c) ''{'' \<and> fj (trim c) = Some (ExecApproval i a w)"
    then show "parse pu fj c = ExecApproval i a w"
      using brace_parse [of c] by (simp add: parse_cases parse_json_approval_def)
  qed
qed

text \<open>
  User input reaches the agent verbatim.  When the parser answers user input its content is the
  message unchanged, and a message that trimmed does not start with a slash or a brace and is no
  approval word is user input.
\<close>

theorem user_input_verbatim:
  "(parse pu fj c = UserInput d \<longrightarrow> d = c) \<and>
   (\<not> starts_with (trim c) ''/'' \<and> \<not> starts_with (trim c) ''{'' \<and>
      parse_approval_word (to_lowercase (trim c)) = None \<longrightarrow> parse pu fj c = UserInput c)"
proof (intro conjI impI)
  assume "parse pu fj c = UserInput d"
  then show "d = c" by (auto simp: parse_cases or_else_eq_Some split: option.splits dest!: parse_parts)
next
  assume "\<not> starts_with (trim c) ''/'' \<and> \<not> starts_with (trim c) ''{'' \<and>
    parse_approval_word (to_lowercase (trim c)) = None"
  then show "parse pu fj c = UserInput c"
    using no_slash_parse [of "trim c"] by (simp add: parse_cases parse_json_approval_def)
qed

theorem user_input_verbatim_witness:
  "parse (\<lambda>_. None) (\<lambda>_. None) '' Hello / world '' = UserInput '' Hello / world ''"
proof -
  have "\<not> starts_with (trim '' Hello / world '') ''/'' \<and> \<not> starts_with (trim '' Hello / world '') ''{'' \<and>
    parse_approval_word (to_lowercase (trim '' Hello / world '')) = None" by code_simp
  with user_input_verbatim [of "\<lambda>_. None" "\<lambda>_. None" "'' Hello / world ''"] show ?thesis by blast
qed

end
