(* ===== verification/Tool_Stream.thy ===== *)
theory Tool_Stream
  imports Session
begin

text \<open>
  The streamed half of a model call in \<^verbatim>\<open>src/src/agent/dispatcher.rs\<close>.  While the model answers, every
  chunk goes through a callback: chunks with a marker carry pieces of tool calls, which are put
  together per call; as soon as a shell call is complete it is handed to a task that may run it before
  the answer is finished.  This theory holds the assembly of the calls and the decision to start one;
  what the started task does is in the theory of the loop.

  \<open>serde_json\<close> is not part of the repository: its decoder and printer are the arguments \<open>from_json\<close>
  and \<open>to_json\<close>.  One element of a \<open>string\<close> is one Rust \<open>char\<close>; the ellipsis of a shortened preview is
  written as its UTF-8 bytes.
\<close>

section \<open>JSON access\<close>

definition json_get :: "json \<Rightarrow> string \<Rightarrow> json option" where
  "json_get v k = (case v of JObject m \<Rightarrow> map_of m k | _ \<Rightarrow> None)"

definition json_as_str :: "json \<Rightarrow> string option" where
  "json_as_str v = (case v of JString s \<Rightarrow> Some s | _ \<Rightarrow> None)"

definition json_str :: "json \<Rightarrow> string \<Rightarrow> string option" where
  "json_str v k = Option.bind (json_get v k) json_as_str"

section \<open>Events of the stream\<close>

definition TOOL_STREAM_EVENT_PREFIX :: string where
  "TOOL_STREAM_EVENT_PREFIX = CHR 0x1E # ''IRON_TOOL_EVENT:''"

definition TOOL_DRAFT_PREVIEW_CHARS :: nat where
  "TOOL_DRAFT_PREVIEW_CHARS = 240"

datatype tool_stream_event =
    EvToolCall string string string json
  | EvToolCallDelta string string string string

record streamed_call =
  sc_provider_call_id :: "string option"
  sc_name :: "string option"
  sc_args_buffer :: string
  sc_last_preview :: "string option"
  sc_early_started :: bool

definition streamed_call_new :: streamed_call where
  "streamed_call_new = \<lparr>sc_provider_call_id = None, sc_name = None, sc_args_buffer = [],
     sc_last_preview = None, sc_early_started = False\<rparr>"

text \<open>The enum is tagged by the field \<open>t\<close>; every field is required.\<close>

definition decode_event :: "json \<Rightarrow> tool_stream_event option" where
  "decode_event v =
     (case (json_str v ''t'', json_str v ''id'', json_str v ''internal_call_id'') of
        (Some t, Some i, Some ic) \<Rightarrow>
          if t = ''tool_call''
          then (case (json_str v ''name'', json_get v ''arguments'') of
                  (Some n, Some a) \<Rightarrow> Some (EvToolCall i ic n a)
                | _ \<Rightarrow> None)
          else if t = ''tool_call_delta''
          then (case (json_str v ''delta_type'', json_str v ''content'') of
                  (Some d, Some c) \<Rightarrow> Some (EvToolCallDelta i ic d c)
                | _ \<Rightarrow> None)
          else None
      | _ \<Rightarrow> None)"

definition parse_tool_stream_event :: "(string \<Rightarrow> json option) \<Rightarrow> string \<Rightarrow> tool_stream_event option" where
  "parse_tool_stream_event from_json chunk =
     (if starts_with chunk TOOL_STREAM_EVENT_PREFIX
      then Option.bind (from_json (drop (length TOOL_STREAM_EVENT_PREFIX) chunk)) decode_event
      else None)"

definition truncate_preview_chars :: "string \<Rightarrow> nat \<Rightarrow> string" where
  "truncate_preview_chars s max_chars =
     (if length s \<le> max_chars then s else take max_chars s @ [CHR 0xE2, CHR 0x80, CHR 0xA6])"

definition shell_preview_from_args :: "json \<Rightarrow> string option" where
  "shell_preview_from_args args =
     (case json_str args ''command'' of
        None \<Rightarrow> None
      | Some c \<Rightarrow> if trim c = [] then None
                  else Some (truncate_preview_chars (trim c) TOOL_DRAFT_PREVIEW_CHARS))"

definition has_command :: "json \<Rightarrow> bool" where
  "has_command args = (case json_str args ''command'' of Some c \<Rightarrow> trim c \<noteq> [] | None \<Rightarrow> False)"

section \<open>The callback\<close>

type_synonym streamed_calls = "(string \<times> streamed_call) list"

definition entry_of :: "streamed_calls \<Rightarrow> string \<Rightarrow> streamed_call" where
  "entry_of m ic = (case map_of m ic of Some e \<Rightarrow> e | None \<Rightarrow> streamed_call_new)"

text \<open>The three results: the calls assembled so far, the preview shown to the user, and the call to
  start early, by the id the provider gave it.\<close>

definition on_tool_call ::
  "(json \<Rightarrow> string) \<Rightarrow> bool \<Rightarrow> streamed_calls \<Rightarrow> string \<Rightarrow> string \<Rightarrow> string \<Rightarrow> json \<Rightarrow>
   streamed_calls \<times> string option \<times> (string \<times> json) option" where
  "on_tool_call to_json piped m i ic name args =
     (let preview = (if name = ''shell'' then shell_preview_from_args args else None);
          old = entry_of m ic;
          start = piped \<and> name = ''shell'' \<and> \<not> sc_early_started old \<and> has_command args;
          e = old\<lparr>sc_provider_call_id := Some i, sc_name := Some name, sc_args_buffer := to_json args,
                  sc_last_preview := (case preview of Some p \<Rightarrow> Some p | None \<Rightarrow> sc_last_preview old),
                  sc_early_started := sc_early_started old \<or> start\<rparr>
      in (AList.update ic e m, preview, if start then Some (i, args) else None))"

definition on_tool_call_delta ::
  "(string \<Rightarrow> json option) \<Rightarrow> bool \<Rightarrow> streamed_calls \<Rightarrow> string \<Rightarrow> string \<Rightarrow> string \<Rightarrow> string \<Rightarrow>
   streamed_calls \<times> string option \<times> (string \<times> json) option" where
  "on_tool_call_delta from_json piped m i ic delta_type content =
     (let old = entry_of m ic;
          e1 = old\<lparr>sc_provider_call_id := Some i\<rparr>;
          e2 = (if delta_type = ''name'' then e1\<lparr>sc_name := Some content\<rparr>
                else e1\<lparr>sc_args_buffer := sc_args_buffer e1 @ content\<rparr>);
          args = (if sc_name e2 = Some ''shell'' then from_json (sc_args_buffer e2) else None);
          preview = (case Option.bind args shell_preview_from_args of
                       Some p \<Rightarrow> if sc_last_preview e2 = Some p then None else Some p
                     | None \<Rightarrow> None);
          start = (case args of Some a \<Rightarrow> piped \<and> \<not> sc_early_started e2 \<and> has_command a | None \<Rightarrow> False);
          e3 = e2\<lparr>sc_last_preview := (case preview of Some p \<Rightarrow> Some p | None \<Rightarrow> sc_last_preview e2),
                  sc_early_started := sc_early_started e2 \<or> start\<rparr>
      in (AList.update ic e3 m, preview, if start then map_option (\<lambda>a. (i, a)) args else None))"

definition on_chunk ::
  "(string \<Rightarrow> json option) \<Rightarrow> (json \<Rightarrow> string) \<Rightarrow> bool \<Rightarrow> streamed_calls \<Rightarrow> string \<Rightarrow>
   streamed_calls \<times> string option \<times> (string \<times> json) option" where
  "on_chunk from_json to_json piped m chunk =
     (case parse_tool_stream_event from_json chunk of
        Some (EvToolCall i ic name args) \<Rightarrow> on_tool_call to_json piped m i ic name args
      | Some (EvToolCallDelta i ic delta_type content) \<Rightarrow> on_tool_call_delta from_json piped m i ic delta_type content
      | None \<Rightarrow> (m, None, None))"

text \<open>The calls started early over a whole answer, in the order they are started.\<close>

fun early_starts ::
  "(string \<Rightarrow> json option) \<Rightarrow> (json \<Rightarrow> string) \<Rightarrow> bool \<Rightarrow> streamed_calls \<Rightarrow> string list \<Rightarrow> (string \<times> json) list" where
  "early_starts from_json to_json piped m [] = []"
| "early_starts from_json to_json piped m (chunk # chunks) =
     (case on_chunk from_json to_json piped m chunk of
        (m', _, Some start) \<Rightarrow> start # early_starts from_json to_json piped m' chunks
      | (m', _, None) \<Rightarrow> early_starts from_json to_json piped m' chunks)"

section \<open>Each streamed call is started at most once\<close>

definition started :: "streamed_calls \<Rightarrow> string set" where
  "started m = {ic. sc_early_started (entry_of m ic)}"

lemma entry_of_update [simp]: "entry_of (AList.update ic e m) jc = (if jc = ic then e else entry_of m jc)"
  by (simp add: entry_of_def update_conv)

lemma entry_of_Nil [simp]: "entry_of [] ic = streamed_call_new" "started [] = {}"
  by (simp_all add: entry_of_def started_def streamed_call_new_def)

lemma on_chunk_start:
  assumes "on_chunk from_json to_json piped m chunk = (m', p, Some (i, args))"
  shows "piped \<and> has_command args \<and> (\<exists>ic. ic \<notin> started m \<and> started m' = insert ic (started m))"
  using assms
  by (auto simp: on_chunk_def on_tool_call_def on_tool_call_delta_def started_def Let_def
      split: option.splits tool_stream_event.splits if_splits)

lemma on_chunk_no_start:
  assumes "on_chunk from_json to_json piped m chunk = (m', p, None)"
  shows "started m' = started m"
  using assms
  by (auto simp: on_chunk_def on_tool_call_def on_tool_call_delta_def started_def Let_def
      split: option.splits tool_stream_event.splits if_splits)

fun stream_calls ::
  "(string \<Rightarrow> json option) \<Rightarrow> (json \<Rightarrow> string) \<Rightarrow> bool \<Rightarrow> streamed_calls \<Rightarrow> string list \<Rightarrow> streamed_calls" where
  "stream_calls from_json to_json piped m [] = m"
| "stream_calls from_json to_json piped m (chunk # chunks) =
     stream_calls from_json to_json piped (fst (on_chunk from_json to_json piped m chunk)) chunks"

text \<open>The number of starts is the number of calls that changed to started.\<close>

lemma early_starts_card:
  assumes "finite (started m)"
  shows "finite (started (stream_calls fj tj piped m chunks)) \<and>
    length (early_starts fj tj piped m chunks) + card (started m) = card (started (stream_calls fj tj piped m chunks))"
  using assms
proof (induction chunks arbitrary: m)
  case (Cons chunk chunks)
  obtain m' p s where r: "on_chunk fj tj piped m chunk = (m', p, s)" by (cases "on_chunk fj tj piped m chunk")
  show ?case
  proof (cases s)
    case None
    with r on_chunk_no_start [of fj tj piped m chunk m' p] Cons.IH [of m'] Cons.prems show ?thesis by simp
  next
    case (Some a)
    with r on_chunk_start [of fj tj piped m chunk m' p "fst a" "snd a"] obtain ic
      where "ic \<notin> started m" "started m' = insert ic (started m)" by auto
    with r Some Cons.IH [of m'] Cons.prems show ?thesis by simp
  qed
qed simp

lemma early_starts_sound:
  "\<forall>(i, args) \<in> set (early_starts fj tj piped m chunks). piped \<and> has_command args"
proof (induction chunks arbitrary: m)
  case (Cons chunk chunks)
  obtain m' p s where r: "on_chunk fj tj piped m chunk = (m', p, s)" by (cases "on_chunk fj tj piped m chunk")
  with Cons [of m'] on_chunk_start [of fj tj piped m chunk m' p] show ?case by (cases s) auto
qed simp

end
