(* ===== verification/Dispatcher.thy ===== *)
theory Dispatcher
  imports Tool_Stream
begin

text \<open>
  The agentic loop of \<^verbatim>\<open>src/src/agent/dispatcher.rs\<close>: call the model, run the tools it asks for,
  repeat until it answers with text.  What the loop gets from elsewhere is the record \<open>loop_env\<close>:
  the model's answer to a context and the chunks it streams meanwhile, the refusal of the cost guard,
  the tool registry, the parameter validator, the execution of a tool, which early runs are finished
  when their result is looked up, the hooks, the JSON library, and the text a tool output becomes for
  the model.  Status messages to the channel are output only and left out.  The tools and the hooks are those of
  the whole loop: a tool or a hook that is registered while a loop runs, which the code offers from the next
  iteration on, is not modelled; the answers of the model may depend on the iteration.

  The locale \<open>turn_loop\<close> states what the handlers of a thread rely on; the loop is an instance.
\<close>

section \<open>The surroundings of the loop\<close>

datatype respond_result = Text string | ToolCalls "tool_call list" "string option"

record tool_info =
  ti_requires_approval :: bool
  ti_requires_approval_for :: "json \<Rightarrow> bool"
  ti_description :: string
  ti_timeout_secs :: nat
  ti_timeout_debug :: string

text \<open>How the execution of a tool ends: with a value, with an error, or at its timeout.\<close>

datatype exec_result = ExecOk json | ExecErr string | ExecTimeout

datatype tool_error =
    ToolNotFound string
  | ToolExecutionFailed string string
  | ToolTimeout string string
  | ToolInvalidParameters string string
  | ToolAuthRequired string

text \<open>What \<open>HookRegistry::run\<close> answers for one event.\<close>

datatype hook_reply = HookRejected string | HookFailed string | HookModified string | HookContinue

record loop_env =
  le_llm :: "nat \<Rightarrow> chat_message list \<Rightarrow> (llm_error, respond_result) result"
  le_limit :: "nat \<Rightarrow> string option"
  le_tools :: "string \<Rightarrow> tool_info option"
  le_validate :: "json \<Rightarrow> bool \<times> (string \<times> string) list"
  le_execute :: "nat \<Rightarrow> string \<Rightarrow> json \<Rightarrow> exec_result"
  le_hook :: "string \<Rightarrow> json \<Rightarrow> hook_reply"
  le_from_json :: "string \<Rightarrow> json option"
  le_to_json :: "json \<Rightarrow> string"
  le_to_pretty :: "json \<Rightarrow> (string, string) result"
  le_piped :: bool
  le_stream :: "nat \<Rightarrow> chat_message list \<Rightarrow> string list"
  le_early_done :: "nat \<Rightarrow> string \<Rightarrow> bool"
  le_tool_content :: "string \<Rightarrow> string \<Rightarrow> string"
  le_request_id :: uuid
  le_now :: instant

datatype agentic_loop_result = LoopResponse string | LoopNeedApproval pending_approval

datatype loop_error = LlmErr llm_error | JobErr job_error

type_synonym loop_outcome = "(loop_error, agentic_loop_result) result"

definition detect_auth_awaiting ::
  "(string \<Rightarrow> json option) \<Rightarrow> string \<Rightarrow> (string, string) result \<Rightarrow> (string \<times> string) option" where
  "detect_auth_awaiting from_json tool_name r =
     (if tool_name \<noteq> ''tool_auth'' \<and> tool_name \<noteq> ''tool_activate'' then None
      else case r of
        Err _ \<Rightarrow> None
      | Ok output \<Rightarrow>
          (case from_json output of
             None \<Rightarrow> None
           | Some parsed \<Rightarrow>
               if json_get parsed ''awaiting_token'' \<noteq> Some (JBool True) then None
               else case json_str parsed ''name'' of
                      None \<Rightarrow> None
                    | Some name \<Rightarrow>
                        Some (name,
                          case json_str parsed ''instructions'' of
                            Some i \<Rightarrow> i
                          | None \<Rightarrow> ''Please provide your API token/key.'')))"

section \<open>The state of the loop\<close>

text \<open>Two fields observe the run: \<open>ls_calls\<close> lists the contexts sent to the model, \<open>ls_trace\<close> the tools
  run, each with the arguments the model gave and those it ran with.\<close>

record loop_state =
  ls_session :: session
  ls_context :: "chat_message list"
  ls_iteration :: nat
  ls_tools_executed :: bool
  ls_early :: "(string \<times> (string, string) result) list"
  ls_calls :: "chat_message list list"
  ls_trace :: "(string \<times> json \<times> json) list"

definition MAX_TOOL_ITERATIONS :: nat where
  "MAX_TOOL_ITERATIONS = 10"

definition push_context :: "loop_state \<Rightarrow> chat_message list \<Rightarrow> loop_state" where
  "push_context st ms = st\<lparr>ls_context := ls_context st @ ms\<rparr>"

definition on_thread :: "loop_state \<Rightarrow> uuid \<Rightarrow> thread_event list \<Rightarrow> loop_state" where
  "on_thread st tid es =
     st\<lparr>ls_session := update_thread (ls_session st) tid (\<lambda>t. foldl thread_step t es)\<rparr>"

section \<open>One tool call\<close>

definition needs_approval :: "loop_env \<Rightarrow> session \<Rightarrow> tool_call \<Rightarrow> tool_info option" where
  "needs_approval env s tc =
     (case le_tools env (tc_name tc) of
        Some tool \<Rightarrow>
          if ti_requires_approval tool \<and>
             \<not> (is_tool_auto_approved s (tc_name tc) \<and> \<not> ti_requires_approval_for tool (tc_arguments tc))
          then Some tool else None
      | None \<Rightarrow> None)"

definition pending_of :: "loop_env \<Rightarrow> loop_state \<Rightarrow> tool_call \<Rightarrow> tool_info \<Rightarrow> pending_approval" where
  "pending_of env st tc tool =
     \<lparr>pa_request_id = le_request_id env, pa_tool_name = tc_name tc, pa_parameters = tc_arguments tc,
      pa_description = ti_description tool, pa_tool_call_id = tc_id tc,
      pa_context_messages = ls_context st\<rparr>"

text \<open>\<open>Inl\<close>: the hook refuses the call, with the text the model sees; \<open>Inr\<close>: the arguments to use.\<close>

definition apply_tool_hook :: "loop_env \<Rightarrow> tool_call \<Rightarrow> (string, json) result" where
  "apply_tool_hook env tc =
     (case le_hook env (tc_name tc) (tc_arguments tc) of
        HookRejected reason \<Rightarrow> Err (''Tool call rejected by hook: '' @ reason)
      | HookFailed err \<Rightarrow> Err (''Tool call blocked by hook policy: '' @ err)
      | HookModified new_params \<Rightarrow>
          (case le_from_json env new_params of
             Some parsed \<Rightarrow> Ok parsed
           | None \<Rightarrow> Ok (tc_arguments tc))
      | HookContinue \<Rightarrow> Ok (tc_arguments tc))"

fun tool_error_display :: "tool_error \<Rightarrow> string" where
  "tool_error_display (ToolNotFound n) = ''Tool '' @ n @ '' not found''"
| "tool_error_display (ToolExecutionFailed n r) = ''Tool '' @ n @ '' execution failed: '' @ r"
| "tool_error_display (ToolTimeout n d) = ''Tool '' @ n @ '' timed out after '' @ d"
| "tool_error_display (ToolInvalidParameters n r) = ''Invalid parameters for tool '' @ n @ '': '' @ r"
| "tool_error_display (ToolAuthRequired n) = ''Tool '' @ n @ '' requires authentication''"

definition serialize_tool_result_json :: "loop_env \<Rightarrow> string \<Rightarrow> json \<Rightarrow> (tool_error, string) result" where
  "serialize_tool_result_json env name v =
     (case le_to_pretty env v of
        Ok s \<Rightarrow> Ok s
      | Err e \<Rightarrow> Err (ToolExecutionFailed name (''Failed to serialize result: '' @ e)))"

definition execute_chat_tool :: "loop_env \<Rightarrow> nat \<Rightarrow> string \<Rightarrow> json \<Rightarrow> (tool_error, string) result" where
  "execute_chat_tool env n name params =
     (case le_tools env name of
        None \<Rightarrow> Err (ToolNotFound name)
      | Some tool \<Rightarrow>
          (let (valid, errors) = le_validate env params in
           if \<not> valid
           then Err (ToolInvalidParameters name
                  (''Invalid tool parameters: '' @ join ''; '' (map (\<lambda>(f, m). f @ '': '' @ m) errors)))
           else (case le_execute env n name params of
                   ExecTimeout \<Rightarrow> Err (ToolTimeout name (ti_timeout_debug tool))
                 | ExecErr e \<Rightarrow> Err (ToolExecutionFailed name e)
                 | ExecOk v \<Rightarrow> serialize_tool_result_json env name v)))"

text \<open>A tool error reaches the loop wrapped in the crate's top-level error.\<close>

definition tool_outcome :: "(tool_error, string) result \<Rightarrow> (string, string) result" where
  "tool_outcome r = (case r of Ok s \<Rightarrow> Ok s | Err e \<Rightarrow> Err (''Tool error: '' @ tool_error_display e))"

text \<open>A shell call whose result is already there from the streamed answer is not run again.\<close>

definition run_tool ::
  "loop_env \<Rightarrow> loop_state \<Rightarrow> tool_call \<Rightarrow> json \<Rightarrow> loop_state \<times> (string, string) result" where
  "run_tool env st tc args =
     (case (if tc_name tc = ''shell'' \<and> le_piped env then map_of (ls_early st) (tc_id tc) else None) of
        Some cached \<Rightarrow>
          (st\<lparr>ls_early := AList.delete (tc_id tc) (ls_early st)\<rparr>,
           tool_outcome (case cached of Ok s \<Rightarrow> Ok s | Err reason \<Rightarrow> Err (ToolExecutionFailed (tc_name tc) reason)))
      | None \<Rightarrow>
          (st\<lparr>ls_trace := ls_trace st @ [(tc_name tc, tc_arguments tc, args)]\<rparr>,
           tool_outcome (execute_chat_tool env (length (ls_trace st)) (tc_name tc) args)))"

definition record_event :: "(string, string) result \<Rightarrow> thread_event" where
  "record_event r = (case r of Ok output \<Rightarrow> RecordToolResult (JString output) | Err e \<Rightarrow> RecordToolError e)"

definition result_content :: "loop_env \<Rightarrow> string \<Rightarrow> (string, string) result \<Rightarrow> string" where
  "result_content env name r =
     (case r of Ok output \<Rightarrow> le_tool_content env name output | Err e \<Rightarrow> ''Error: '' @ e)"

fun run_tool_calls ::
  "loop_env \<Rightarrow> uuid \<Rightarrow> loop_state \<Rightarrow> tool_call list \<Rightarrow> loop_state \<times> agentic_loop_result option" where
  "run_tool_calls env tid st [] = (st, None)"
| "run_tool_calls env tid st (tc # tcs) =
     (case needs_approval env (ls_session st) tc of
        Some tool \<Rightarrow> (st, Some (LoopNeedApproval (pending_of env st tc tool)))
      | None \<Rightarrow>
          (case apply_tool_hook env tc of
             Err refusal \<Rightarrow>
               run_tool_calls env tid (push_context st [msg_tool_result (tc_id tc) (tc_name tc) refusal]) tcs
           | Ok args \<Rightarrow>
               (let (st1, r) = run_tool env st tc args;
                    st2 = on_thread st1 tid [record_event r]
                in case detect_auth_awaiting (le_from_json env) (tc_name tc) r of
                     Some (ext_name, instructions) \<Rightarrow>
                       (on_thread st2 tid [EnterAuthMode ext_name (le_now env)],
                        Some (LoopResponse instructions))
                   | None \<Rightarrow>
                       run_tool_calls env tid
                         (push_context st2
                            [msg_tool_result (tc_id tc) (tc_name tc) (result_content env (tc_name tc) r)])
                         tcs)))"

section \<open>Shell calls started while the model answers\<close>

text \<open>The task spawned for a complete shell call: its own copy of the approval check, the validator,
  then the execution; its result is stored under the provider's id once it is there.\<close>

definition early_allowed :: "loop_env \<Rightarrow> session \<Rightarrow> json \<Rightarrow> bool" where
  "early_allowed env s args \<longleftrightarrow>
     (case le_tools env ''shell'' of
        None \<Rightarrow> False
      | Some tool \<Rightarrow>
          \<not> (ti_requires_approval tool \<and> (\<not> is_tool_auto_approved s ''shell'' \<or> ti_requires_approval_for tool args)) \<and>
          fst (le_validate env args))"

definition early_result :: "loop_env \<Rightarrow> nat \<Rightarrow> json \<Rightarrow> (string, string) result" where
  "early_result env n args =
     (case le_execute env n ''shell'' args of
        ExecOk v \<Rightarrow>
          (case serialize_tool_result_json env ''shell'' v of
             Ok s \<Rightarrow> Ok s
           | Err e \<Rightarrow> Err (tool_error_display e))
      | ExecErr e \<Rightarrow> Err e
      | ExecTimeout \<Rightarrow>
          Err (''Tool '' @ [CHR 0x27] @ ''shell'' @ [CHR 0x27] @ '' timed out after '' @
               nat_str (case le_tools env ''shell'' of Some tool \<Rightarrow> ti_timeout_secs tool | None \<Rightarrow> 0) @ ''s''))"

definition early_task :: "loop_env \<Rightarrow> nat \<Rightarrow> loop_state \<Rightarrow> string \<times> json \<Rightarrow> loop_state" where
  "early_task env iteration st start =
     (case start of (i, args) \<Rightarrow>
        if early_allowed env (ls_session st) args
        then st\<lparr>ls_trace := ls_trace st @ [(''shell'', args, args)],
                ls_early := (if le_early_done env iteration i
                             then AList.update i (early_result env (length (ls_trace st)) args) (ls_early st)
                             else ls_early st)\<rparr>
        else st)"

definition run_early :: "loop_env \<Rightarrow> nat \<Rightarrow> loop_state \<Rightarrow> loop_state" where
  "run_early env iteration st =
     foldl (early_task env iteration) (st\<lparr>ls_early := []\<rparr>)
       (early_starts (le_from_json env) (le_to_json env) (le_piped env) [] (le_stream env iteration (ls_context st)))"

lemma early_task_fields [simp]:
  "ls_session (early_task env i st x) = ls_session st" "ls_context (early_task env i st x) = ls_context st"
  "ls_iteration (early_task env i st x) = ls_iteration st" "ls_calls (early_task env i st x) = ls_calls st"
  "ls_tools_executed (early_task env i st x) = ls_tools_executed st"
  by (simp_all add: early_task_def split: prod.split)

lemma early_tasks_fields:
  "ls_session (foldl (early_task env i) st xs) = ls_session st \<and> ls_context (foldl (early_task env i) st xs) = ls_context st \<and>
   ls_iteration (foldl (early_task env i) st xs) = ls_iteration st \<and> ls_calls (foldl (early_task env i) st xs) = ls_calls st \<and>
   ls_tools_executed (foldl (early_task env i) st xs) = ls_tools_executed st"
  by (induction xs arbitrary: st) simp_all

lemma run_early_fields [simp]:
  "ls_session (run_early env i st) = ls_session st" "ls_context (run_early env i st) = ls_context st"
  "ls_iteration (run_early env i st) = ls_iteration st" "ls_calls (run_early env i st) = ls_calls st"
  "ls_tools_executed (run_early env i st) = ls_tools_executed st"
  by (simp_all add: run_early_def early_tasks_fields)

section \<open>The loop\<close>

definition interrupted :: "session \<Rightarrow> uuid \<Rightarrow> bool" where
  "interrupted s tid \<longleftrightarrow>
     (case map_of (ss_threads s) tid of Some t \<Rightarrow> th_state t = thread_state.Interrupted | None \<Rightarrow> False)"

definition nudge :: string where
  "nudge = ''Please proceed and use the available tools to complete this task.''"

text \<open>One pass: \<open>Inl\<close> is the value the loop returns, \<open>Inr\<close> the state it continues with.\<close>

definition loop_pass ::
  "loop_env \<Rightarrow> uuid \<Rightarrow> loop_state \<Rightarrow> (loop_state \<times> loop_outcome) + loop_state" where
  "loop_pass env tid st0 =
     (let iteration = ls_iteration st0 + 1;
          st = st0\<lparr>ls_iteration := iteration\<rparr>
      in if iteration > MAX_TOOL_ITERATIONS
         then Inl (st, Err (LlmErr (InvalidResponse ''agent''
                (''Exceeded maximum tool iterations ('' @ nat_str MAX_TOOL_ITERATIONS @ '')''))))
         else if interrupted (ls_session st) tid
         then Inl (st, Err (JobErr (ContextError tid ''Interrupted'')))
         else case le_limit env iteration of
           Some limit \<Rightarrow> Inl (st, Err (LlmErr (InvalidResponse ''agent'' limit)))
         | None \<Rightarrow>
             let st' = run_early env iteration (st\<lparr>ls_calls := ls_calls st @ [ls_context st]\<rparr>) in
             (case le_llm env iteration (ls_context st) of
                Err e \<Rightarrow> Inl (st', Err (LlmErr e))
              | Ok (Text text) \<Rightarrow>
                  if \<not> ls_tools_executed st \<and> iteration < 3
                  then Inr (push_context st' [msg_assistant text, msg_user nudge])
                  else Inl (st', Ok (LoopResponse text))
              | Ok (ToolCalls tcs content) \<Rightarrow>
                  let st1 = push_context (st'\<lparr>ls_tools_executed := True\<rparr>)
                              [assistant_with_tool_calls content tcs];
                      st2 = on_thread st1 tid (map (\<lambda>tc. RecordToolCall (tc_name tc) (tc_arguments tc)) tcs)
                  in case run_tool_calls env tid st2 tcs of
                       (st3, Some r) \<Rightarrow> Inl (st3, Ok r)
                     | (st3, None) \<Rightarrow> Inr st3))"

lemma on_thread_iteration [simp]:
  "ls_iteration (on_thread st tid es) = ls_iteration st" "ls_iteration (push_context st ms) = ls_iteration st"
  by (simp_all add: on_thread_def push_context_def)

lemma run_tool_iteration [simp]: "ls_iteration (fst (run_tool env st tc args)) = ls_iteration st"
  by (simp add: run_tool_def split: option.split)

lemma run_tool_calls_iteration: "ls_iteration (fst (run_tool_calls env tid st tcs)) = ls_iteration st"
proof (induction env tid st tcs rule: run_tool_calls.induct)
  case (2 env tid st tc tcs)
  then show ?case
    by (auto split: option.splits sum.splits prod.splits simp: Let_def)
      (metis fst_conv run_tool_iteration)+
qed simp

lemma loop_pass_Inr_iteration:
  assumes "loop_pass env tid st = Inr st'"
  shows "ls_iteration st' = ls_iteration st + 1 \<and> ls_iteration st < MAX_TOOL_ITERATIONS"
proof -
  have "ls_iteration st3 = ls_iteration st2" if "run_tool_calls env tid st2 tcs = (st3, None)" for st2 st3 tcs
    using that run_tool_calls_iteration by (metis fst_conv)
  with assms show ?thesis
    by (auto simp: loop_pass_def Let_def split: if_splits option.splits sum.splits respond_result.splits prod.splits)
qed

function agentic_loop :: "loop_env \<Rightarrow> uuid \<Rightarrow> loop_state \<Rightarrow> loop_state \<times> loop_outcome" where
  "agentic_loop env tid st =
     (case loop_pass env tid st of Inl out \<Rightarrow> out | Inr st' \<Rightarrow> agentic_loop env tid st')"
  by pat_completeness auto
termination
  by (relation "measure (\<lambda>(env, tid, st). MAX_TOOL_ITERATIONS - ls_iteration st)")
    (auto dest: loop_pass_Inr_iteration)

declare agentic_loop.simps [simp del]

definition run_agentic_loop ::
  "loop_env \<Rightarrow> session \<Rightarrow> uuid \<Rightarrow> chat_message list \<Rightarrow> bool \<Rightarrow> loop_state \<times> loop_outcome" where
  "run_agentic_loop env s tid initial_messages resume_after_tool =
     agentic_loop env tid
       \<lparr>ls_session = s, ls_context = initial_messages, ls_iteration = 0,
        ls_tools_executed = resume_after_tool, ls_early = [], ls_calls = [], ls_trace = []\<rparr>"

section \<open>Reasoning about runs\<close>

lemma agentic_loop_inv:
  assumes "\<And>st st'. I st \<Longrightarrow> loop_pass env tid st = Inr st' \<Longrightarrow> I st'"
    and "\<And>st out. I st \<Longrightarrow> loop_pass env tid st = Inl out \<Longrightarrow> Q out"
  shows "I st \<Longrightarrow> Q (agentic_loop env tid st)"
proof (induction "MAX_TOOL_ITERATIONS - ls_iteration st" arbitrary: st rule: less_induct)
  case less
  show ?case
  proof (cases "loop_pass env tid st")
    case (Inl out)
    with assms(2) less.prems show ?thesis by (subst agentic_loop.simps) simp
  next
    case (Inr st')
    from loop_pass_Inr_iteration [OF Inr] have "Q (agentic_loop env tid st')"
      by (intro less.hyps assms(1) [OF less.prems Inr]) (simp add: diff_less_mono2)
    with Inr show ?thesis by (subst agentic_loop.simps) simp
  qed
qed

text \<open>The loop touches the session only through these operations on its own thread.\<close>

fun quiet_event :: "thread_event \<Rightarrow> bool" where
  "quiet_event (RecordToolCall _ _) = True"
| "quiet_event (RecordToolResult _) = True"
| "quiet_event (RecordToolError _) = True"
| "quiet_event (EnterAuthMode _ _) = True"
| "quiet_event _ = False"

definition quiet_effect :: "uuid \<Rightarrow> session \<Rightarrow> session \<Rightarrow> bool" where
  "quiet_effect tid s s' \<longleftrightarrow>
     (\<exists>es. (\<forall>e \<in> set es. quiet_event e) \<and> s' = foldl session_step s (map (OnThread tid) es))"

lemma update_thread_comp:
  "update_thread (update_thread s i f) i g = update_thread s i (\<lambda>t. g (f t))"
  by (cases "map_of (ss_threads s) i") (simp_all add: update_thread_def distinct_map_of_update)

lemma update_thread_id: "update_thread s i (\<lambda>t. t) = s"
  by (cases "map_of (ss_threads s) i") (simp_all add: update_thread_def update_triv)

lemma session_steps_thread:
  "foldl session_step s (map (OnThread i) es) = update_thread s i (\<lambda>t. foldl thread_step t es)"
  by (induction es arbitrary: s) (simp_all add: update_thread_id update_thread_comp)

lemma quiet_effect_refl [simp]: "quiet_effect tid s s"
  unfolding quiet_effect_def by (intro exI [of _ "[]"]) simp

lemma quiet_effect_trans: "quiet_effect tid s s' \<Longrightarrow> quiet_effect tid s' s'' \<Longrightarrow> quiet_effect tid s s''"
  unfolding quiet_effect_def by (metis foldl_append map_append set_append Un_iff)

lemma quiet_effect_on_thread:
  "quiet_effect tid s (ls_session st) \<Longrightarrow> \<forall>e \<in> set es. quiet_event e \<Longrightarrow>
   quiet_effect tid s (ls_session (on_thread st tid es))"
  by (rule quiet_effect_trans) (auto simp: quiet_effect_def on_thread_def session_steps_thread [symmetric])

lemma on_thread_comp: "on_thread (on_thread st tid es) tid es' = on_thread st tid (es @ es')"
  by (simp add: on_thread_def update_thread_comp)

lemma push_context_fields [simp]:
  "ls_session (push_context st ms) = ls_session st" "ls_context (push_context st ms) = ls_context st @ ms"
  "ls_trace (push_context st ms) = ls_trace st" "ls_calls (push_context st ms) = ls_calls st"
  by (simp_all add: push_context_def)

lemma on_thread_fields [simp]:
  "ls_context (on_thread st tid es) = ls_context st" "ls_trace (on_thread st tid es) = ls_trace st"
  "ls_calls (on_thread st tid es) = ls_calls st"
  by (simp_all add: on_thread_def)

lemma run_tool_fields [simp]:
  "ls_session (fst (run_tool env st tc args)) = ls_session st"
  "ls_context (fst (run_tool env st tc args)) = ls_context st"
  "ls_calls (fst (run_tool env st tc args)) = ls_calls st"
  by (simp_all add: run_tool_def split: option.split)

lemma quiet_record_event [simp]: "quiet_event (record_event r)"
  by (cases r) (simp_all add: record_event_def)

text \<open>One rule for every invariant of the tool calls of one answer.\<close>

lemma run_tool_calls_inv:
  assumes "\<And>st tc tcs refusal. I st (tc # tcs) \<Longrightarrow> needs_approval env (ls_session st) tc = None \<Longrightarrow>
      apply_tool_hook env tc = Err refusal \<Longrightarrow>
      I (push_context st [msg_tool_result (tc_id tc) (tc_name tc) refusal]) tcs"
    and "\<And>st tc tcs args es r. I st (tc # tcs) \<Longrightarrow> needs_approval env (ls_session st) tc = None \<Longrightarrow>
      apply_tool_hook env tc = Ok args \<Longrightarrow> \<forall>e \<in> set es. quiet_event e \<Longrightarrow>
      I (push_context (on_thread (fst (run_tool env st tc args)) tid es)
        [msg_tool_result (tc_id tc) (tc_name tc) (result_content env (tc_name tc) r)]) tcs"
    and "\<And>st tc tcs args es i. I st (tc # tcs) \<Longrightarrow> needs_approval env (ls_session st) tc = None \<Longrightarrow>
      apply_tool_hook env tc = Ok args \<Longrightarrow>
      \<forall>e \<in> set es. quiet_event e \<Longrightarrow>
      R (on_thread (fst (run_tool env st tc args)) tid es) (Some (LoopResponse i))"
    and "\<And>st tc tcs tool. I st (tc # tcs) \<Longrightarrow> R st (Some (LoopNeedApproval (pending_of env st tc tool)))"
    and "\<And>st. I st [] \<Longrightarrow> R st None"
  shows "I st tcs \<Longrightarrow> R (fst (run_tool_calls env tid st tcs)) (snd (run_tool_calls env tid st tcs))"
proof (induction tcs arbitrary: st)
  case Nil
  with assms(5) show ?case by simp
next
  case (Cons tc tcs)
  show ?case
  proof (cases "needs_approval env (ls_session st) tc")
    case (Some tool)
    with assms(4) Cons.prems show ?thesis by simp
  next
    case None
    show ?thesis
    proof (cases "apply_tool_hook env tc")
      case (Inl refusal)
      with None Cons.IH [OF assms(1) [OF Cons.prems None Inl]] show ?thesis by simp
    next
      case (Inr args)
      obtain st1 r where r: "run_tool env st tc args = (st1, r)" by fastforce
      note fst_r = arg_cong [OF r, of fst, simplified]
      from Inr None r assms(3) [OF Cons.prems None Inr, of "[record_event r, EnterAuthMode _ (le_now env)]"]
        Cons.IH [OF assms(2) [OF Cons.prems None Inr, of "[record_event r]" r]] show ?thesis
        by (auto simp: on_thread_comp fst_r Let_def split: option.split)
    qed
  qed
qed

section \<open>What the handlers of a thread rely on\<close>

locale turn_loop =
  fixes loop :: "session \<Rightarrow> uuid \<Rightarrow> chat_message list \<Rightarrow> bool \<Rightarrow> session \<times> loop_outcome"
  assumes loop_quiet: "quiet_effect tid s (fst (loop s tid ms b))"
begin

lemma loop_thread:
  assumes "map_of (ss_threads s) tid = Some t"
  obtains es where "\<forall>e \<in> set es. quiet_event e"
    and "fst (loop s tid ms b) = s\<lparr>ss_threads := AList.update tid (foldl thread_step t es) (ss_threads s)\<rparr>"
  using loop_quiet [of tid s ms b] assms unfolding quiet_effect_def session_steps_thread
  by (auto simp: update_thread_def)

end

lemma quiet_thread_frame:
  "quiet_event e \<Longrightarrow> th_state (thread_step t e) = th_state t \<and> messages (thread_step t e) = messages t \<and>
     length (th_turns (thread_step t e)) = length (th_turns t) \<and>
     th_pending_approval (thread_step t e) = th_pending_approval t"
  by (cases e)
    (auto simp: enter_auth_mode_def messages_def map_update_last turn_messages_def record_tool_call_def
      record_tool_result_def record_tool_error_def)

lemma quiet_thread_frames:
  "\<forall>e \<in> set es. quiet_event e \<Longrightarrow>
   th_state (foldl thread_step t es) = th_state t \<and> messages (foldl thread_step t es) = messages t \<and>
   length (th_turns (foldl thread_step t es)) = length (th_turns t) \<and>
   th_pending_approval (foldl thread_step t es) = th_pending_approval t"
  by (induction es arbitrary: t) (simp_all add: quiet_thread_frame)

lemma quiet_effect_approved:
  assumes "quiet_effect tid s s'"
  shows "ss_auto_approved_tools s' = ss_auto_approved_tools s"
proof -
  have "ss_auto_approved_tools (foldl session_step s (map (OnThread tid) es)) = ss_auto_approved_tools s" for es
    by (simp add: session_steps_thread update_thread_def split: option.split)
  with assms show ?thesis by (auto simp: quiet_effect_def)
qed

text \<open>One rule for every invariant of the loop: \<open>I\<close> between passes, \<open>C\<close> after the call of the model,
  \<open>J\<close> before its tool calls, \<open>Q\<close> of what the loop returns.\<close>

lemma agentic_loop_rule:
  assumes I_stop: "\<And>st i e. I st \<Longrightarrow> Q (st\<lparr>ls_iteration := i\<rparr>, Err e)"
    and I_C: "\<And>st. I st \<Longrightarrow> ls_iteration st < MAX_TOOL_ITERATIONS \<Longrightarrow>
      C (run_early env (Suc (ls_iteration st))
        (st\<lparr>ls_iteration := Suc (ls_iteration st), ls_calls := ls_calls st @ [ls_context st]\<rparr>))"
    and C_stop: "\<And>st e. C st \<Longrightarrow> Q (st, Err e)" "\<And>st x. C st \<Longrightarrow> Q (st, Ok (LoopResponse x))"
    and C_I: "\<And>st x. C st \<Longrightarrow> I (push_context st [msg_assistant x, msg_user nudge])"
    and C_J: "\<And>st b c tcs. C st \<Longrightarrow> J (on_thread (push_context (st\<lparr>ls_tools_executed := b\<rparr>)
        [assistant_with_tool_calls c tcs]) tid (map (\<lambda>tc. RecordToolCall (tc_name tc) (tc_arguments tc)) tcs)) tcs"
    and J_Q: "\<And>st tcs st' r. J st tcs \<Longrightarrow> run_tool_calls env tid st tcs = (st', Some r) \<Longrightarrow> Q (st', Ok r)"
    and J_I: "\<And>st tcs st'. J st tcs \<Longrightarrow> run_tool_calls env tid st tcs = (st', None) \<Longrightarrow> I st'"
  shows "I st \<Longrightarrow> Q (agentic_loop env tid st)"
proof (rule agentic_loop_inv [where I = I and Q = Q])
  fix st st'
  assume "I st" "loop_pass env tid st = Inr st'"
  then show "I st'"
    using I_C [of st]
    by (auto simp: loop_pass_def Let_def intro: C_I J_I [OF C_J]
        split: if_splits option.splits sum.splits respond_result.splits prod.splits)
next
  fix st out
  assume "I st" "loop_pass env tid st = Inl out"
  then show "Q out"
    using I_C [of st]
    by (auto simp: loop_pass_def Let_def intro: I_stop C_stop J_Q [OF C_J]
        split: if_splits option.splits sum.splits respond_result.splits prod.splits)
qed

lemma run_tool_calls_quiet:
  "quiet_effect tid s (ls_session st) \<Longrightarrow> quiet_effect tid s (ls_session (fst (run_tool_calls env tid st tcs)))"
  by (rule run_tool_calls_inv [where I = "\<lambda>st _. quiet_effect tid s (ls_session st)"
        and R = "\<lambda>st _. quiet_effect tid s (ls_session st)"])
    (auto intro!: quiet_effect_on_thread)

lemma agentic_loop_quiet:
  "quiet_effect tid s (ls_session st) \<Longrightarrow> quiet_effect tid s (ls_session (fst (agentic_loop env tid st)))"
  by (rule agentic_loop_rule [where I = "\<lambda>st. quiet_effect tid s (ls_session st)"
        and C = "\<lambda>st. quiet_effect tid s (ls_session st)" and J = "\<lambda>st _. quiet_effect tid s (ls_session st)"
        and Q = "\<lambda>out. quiet_effect tid s (ls_session (fst out))"])
    (auto intro!: quiet_effect_on_thread, (metis fst_conv run_tool_calls_quiet)+)

definition chat_loop ::
  "loop_env \<Rightarrow> session \<Rightarrow> uuid \<Rightarrow> chat_message list \<Rightarrow> bool \<Rightarrow> session \<times> loop_outcome" where
  "chat_loop env s tid ms b = (let (st, r) = run_agentic_loop env s tid ms b in (ls_session st, r))"

interpretation dispatcher: turn_loop "chat_loop env" for env
  by unfold_locales (simp add: chat_loop_def run_agentic_loop_def split_beta agentic_loop_quiet)

section \<open>The approval gate\<close>

definition gate_ok :: "loop_env \<Rightarrow> string list \<Rightarrow> string \<times> json \<times> json \<Rightarrow> bool" where
  "gate_ok env approved call =
     (case call of (name, given, _) \<Rightarrow>
        case le_tools env name of
          Some tool \<Rightarrow> ti_requires_approval tool \<longrightarrow> name \<in> set approved \<and> \<not> ti_requires_approval_for tool given
        | None \<Rightarrow> True)"

definition gated :: "loop_env \<Rightarrow> uuid \<Rightarrow> session \<Rightarrow> loop_state \<Rightarrow> bool" where
  "gated env tid s st \<longleftrightarrow> quiet_effect tid s (ls_session st) \<and>
     (\<forall>call \<in> set (ls_trace st). gate_ok env (ss_auto_approved_tools s) call)"

lemma gated_run_tool:
  assumes "gated env tid s st" and "needs_approval env (ls_session st) tc = None"
  shows "gated env tid s (fst (run_tool env st tc args))"
proof -
  have "gate_ok env (ss_auto_approved_tools s) (tc_name tc, tc_arguments tc, args)"
    using assms quiet_effect_approved [of tid s "ls_session st"]
    by (auto simp: gated_def gate_ok_def needs_approval_def is_tool_auto_approved_def
        split: option.splits if_splits)
  with assms(1) show ?thesis by (auto simp: gated_def run_tool_def split: option.splits)
qed

lemma gated_early_tasks: "gated env tid s st \<Longrightarrow> gated env tid s (foldl (early_task env i) st xs)"
proof (induction xs arbitrary: st)
  case (Cons x xs)
  have "gated env tid s (early_task env i st x)"
    using Cons.prems quiet_effect_approved [of tid s "ls_session st"]
    by (auto simp: gated_def gate_ok_def early_task_def early_allowed_def is_tool_auto_approved_def
        split: option.splits if_splits prod.splits)
  then show ?case using Cons.IH by simp
qed simp

lemma gated_run_early: "gated env tid s st \<Longrightarrow> gated env tid s (run_early env i st)"
  unfolding run_early_def by (rule gated_early_tasks) (simp add: gated_def)

lemma gated_steps [simp]:
  "gated env tid s (push_context st ms) = gated env tid s st"
  "gated env tid s (st\<lparr>ls_iteration := i\<rparr>) = gated env tid s st"
  "gated env tid s (st\<lparr>ls_calls := cs\<rparr>) = gated env tid s st"
  "gated env tid s (st\<lparr>ls_tools_executed := b\<rparr>) = gated env tid s st"
  by (simp_all add: gated_def)

lemma gated_on_thread:
  "gated env tid s st \<Longrightarrow> \<forall>e \<in> set es. quiet_event e \<Longrightarrow> gated env tid s (on_thread st tid es)"
  by (simp add: gated_def quiet_effect_on_thread)

lemma run_tool_calls_gated: "gated env tid s st \<Longrightarrow> gated env tid s (fst (run_tool_calls env tid st tcs))"
  by (rule run_tool_calls_inv [where I = "\<lambda>st _. gated env tid s st" and R = "\<lambda>st _. gated env tid s st"])
    (auto intro!: gated_on_thread gated_run_tool)

lemma agentic_loop_gated: "gated env tid s st \<Longrightarrow> gated env tid s (fst (agentic_loop env tid st))"
  by (rule agentic_loop_rule [where I = "gated env tid s" and C = "gated env tid s" and J = "\<lambda>st _. gated env tid s st"
        and Q = "\<lambda>out. gated env tid s (fst out)"])
    (auto intro!: gated_on_thread gated_run_early, (metis fst_conv run_tool_calls_gated)+)

section \<open>What has run stays in the trace\<close>

lemma early_tasks_trace:
  "prefix xs (ls_trace st) \<Longrightarrow> prefix xs (ls_trace (foldl (early_task env i) st ys))"
  by (induction ys arbitrary: st) (simp_all add: early_task_def split_beta)

lemma run_tool_trace: "prefix xs (ls_trace st) \<Longrightarrow> prefix xs (ls_trace (fst (run_tool env st tc args)))"
  by (simp add: run_tool_def split: option.split)

lemma run_tool_calls_trace:
  "prefix xs (ls_trace st) \<Longrightarrow> prefix xs (ls_trace (fst (run_tool_calls env tid st tcs)))"
  by (rule run_tool_calls_inv [where I = "\<lambda>st _. prefix xs (ls_trace st)" and R = "\<lambda>st _. prefix xs (ls_trace st)"])
    (simp_all add: run_tool_trace)

lemma run_early_trace: "prefix xs (ls_trace st) \<Longrightarrow> prefix xs (ls_trace (run_early env i st))"
  unfolding run_early_def by (rule early_tasks_trace) simp

lemma agentic_loop_trace:
  "prefix xs (ls_trace st) \<Longrightarrow> prefix xs (ls_trace (fst (agentic_loop env tid st)))"
  by (rule agentic_loop_rule [where I = "\<lambda>st. prefix xs (ls_trace st)" and C = "\<lambda>st. prefix xs (ls_trace st)"
        and J = "\<lambda>st _. prefix xs (ls_trace st)" and Q = "\<lambda>out. prefix xs (ls_trace (fst out))"])
    (auto intro!: run_early_trace, (metis fst_conv run_tool_calls_trace)+)

text \<open>What the first pass has run is part of what the loop has run.\<close>

lemma loop_pass_trace:
  assumes "prefix xs (case loop_pass env tid st of Inl (st', r) \<Rightarrow> ls_trace st' | Inr st' \<Rightarrow> ls_trace st')"
  shows "prefix xs (ls_trace (fst (agentic_loop env tid st)))"
  using assms by (subst agentic_loop.simps) (auto simp: agentic_loop_trace split: sum.splits)

definition after_stream :: "loop_env \<Rightarrow> loop_state \<Rightarrow> loop_state" where
  "after_stream env st = run_early env (Suc (ls_iteration st))
     (st\<lparr>ls_iteration := Suc (ls_iteration st), ls_calls := ls_calls st @ [ls_context st]\<rparr>)"

lemma loop_pass_calls:
  assumes "\<not> interrupted (ls_session st) tid" and "ls_iteration st < MAX_TOOL_ITERATIONS"
    and "le_limit env (Suc (ls_iteration st)) = None"
  shows "loop_pass env tid st = (case le_llm env (Suc (ls_iteration st)) (ls_context st) of
      Err e \<Rightarrow> Inl (after_stream env st, Err (LlmErr e))
    | Ok (Text text) \<Rightarrow>
        if \<not> ls_tools_executed st \<and> Suc (ls_iteration st) < 3
        then Inr (push_context (after_stream env st) [msg_assistant text, msg_user nudge])
        else Inl (after_stream env st, Ok (LoopResponse text))
    | Ok (ToolCalls tcs content) \<Rightarrow>
        (case run_tool_calls env tid (on_thread (push_context ((after_stream env st)\<lparr>ls_tools_executed := True\<rparr>)
             [assistant_with_tool_calls content tcs]) tid (map (\<lambda>tc. RecordToolCall (tc_name tc) (tc_arguments tc)) tcs)) tcs of
           (st3, Some r) \<Rightarrow> Inl (st3, Ok r)
         | (st3, None) \<Rightarrow> Inr st3))"
  using assms by (auto simp: loop_pass_def Let_def after_stream_def split: sum.split respond_result.split)

lemma first_pass_trace:
  assumes "\<not> interrupted (ls_session st) tid" and "ls_iteration st < MAX_TOOL_ITERATIONS"
    and "le_limit env (Suc (ls_iteration st)) = None"
  shows "prefix (ls_trace (after_stream env st)) (ls_trace (fst (agentic_loop env tid st)))"
proof (rule loop_pass_trace)
  let ?e = "after_stream env st"
  have "prefix (ls_trace ?e) (ls_trace (fst (run_tool_calls env tid (on_thread (push_context (?e\<lparr>ls_tools_executed := True\<rparr>)
             [assistant_with_tool_calls content tcs]) tid (map (\<lambda>tc. RecordToolCall (tc_name tc) (tc_arguments tc)) tcs)) tcs)))"
    for tcs content
    by (rule run_tool_calls_trace) simp
  then show "prefix (ls_trace ?e) (case loop_pass env tid st of Inl (st', r) \<Rightarrow> ls_trace st' | Inr st' \<Rightarrow> ls_trace st')"
    unfolding loop_pass_calls [OF assms]
    by (auto split: sum.split respond_result.split prod.split option.split) (metis fst_conv)+
qed

lemma run_early_runs:
  assumes "early_allowed env (ls_session st) args"
  shows "(i, args) \<in> set ys \<Longrightarrow> (''shell'', args, args) \<in> set (ls_trace (foldl (early_task env k) st ys))"
  using assms
proof (induction ys arbitrary: st)
  case (Cons y ys)
  show ?case
  proof (cases "y = (i, args)")
    case True
    with Cons.prems have "prefix (ls_trace st @ [(''shell'', args, args)]) (ls_trace (early_task env k st y))"
      by (simp add: early_task_def)
    from set_mono_prefix [OF early_tasks_trace [OF this, of env k ys]] show ?thesis by auto
  next
    case False
    with Cons show ?thesis by simp
  qed
qed simp

section \<open>The tool protocol\<close>

text \<open>The chat protocol the comments of the loop refer to: an assistant message with tool calls is
  followed by one tool message per call, in order, before anything else.  \<open>proto\<close> computes the ids
  still to be answered after a context, given those to be answered before it.\<close>

definition call_ids :: "chat_message \<Rightarrow> string list" where
  "call_ids m = (case cm_tool_calls m of Some tcs \<Rightarrow> map tc_id tcs | None \<Rightarrow> [])"

fun proto :: "string list \<Rightarrow> chat_message list \<Rightarrow> string list option" where
  "proto open_ids [] = Some open_ids"
| "proto [] (m # ms) = (if cm_role m = Tool then None else proto (call_ids m) ms)"
| "proto (i # is) (m # ms) =
     (if cm_role m = Tool \<and> cm_tool_call_id m = Some i then proto is ms else None)"

definition protocol_ok :: "chat_message list \<Rightarrow> bool" where
  "protocol_ok ms \<longleftrightarrow> proto [] ms = Some []"

lemma proto_append: "proto is (a @ b) = Option.bind (proto is a) (\<lambda>js. proto js b)"
  by (induction "is" a rule: proto.induct) auto

lemma call_ids_simps [simp]:
  "call_ids (msg_user x) = []" "call_ids (msg_assistant x) = []"
  "call_ids (assistant_with_tool_calls c tcs) = map tc_id tcs"
  by (simp_all add: call_ids_def msg_user_def msg_assistant_def assistant_with_tool_calls_def)

lemma tool_message_fields [simp]:
  "cm_tool_call_id (msg_tool_result i n c) = Some i" "cm_role (assistant_with_tool_calls c' tcs) = Assistant"
  by (simp_all add: msg_tool_result_def assistant_with_tool_calls_def)

lemma protocol_ok_messages: "protocol_ok (messages t)"
proof -
  have "proto [] (concat (map turn_messages us)) = Some []" for us
    by (induction us) (simp_all add: turn_messages_def split: option.split)
  then show ?thesis by (simp add: protocol_ok_def messages_def)
qed

definition calls_ok :: "loop_state \<Rightarrow> bool" where
  "calls_ok st \<longleftrightarrow> (\<forall>c \<in> set (ls_calls st). protocol_ok c) \<and> length (ls_calls st) \<le> MAX_TOOL_ITERATIONS"

text \<open>What is known of the value the loop returns: a request for approval waits for the call it
  names, with the later calls of the same answer behind it.\<close>

definition result_ok :: "agentic_loop_result \<Rightarrow> bool" where
  "result_ok r = (case r of
     LoopNeedApproval p \<Rightarrow>
       (case proto [] (pa_context_messages p) of
          Some (i # rest) \<Rightarrow> i = pa_tool_call_id p
        | _ \<Rightarrow> False)
   | LoopResponse _ \<Rightarrow> True)"

definition proto_inv :: "loop_state \<Rightarrow> string list \<Rightarrow> bool" where
  "proto_inv st is \<longleftrightarrow> proto [] (ls_context st) = Some is \<and> (\<forall>c \<in> set (ls_calls st). protocol_ok c) \<and>
     length (ls_calls st) = ls_iteration st \<and> ls_iteration st \<le> MAX_TOOL_ITERATIONS"

lemma proto_inv_calls_ok: "proto_inv st is \<Longrightarrow> calls_ok st"
  by (simp add: proto_inv_def calls_ok_def)

lemma run_tool_calls_proto:
  assumes "proto_inv st (map tc_id tcs)"
  shows "case run_tool_calls env tid st tcs of
      (st', None) \<Rightarrow> proto_inv st' []
    | (st', Some r) \<Rightarrow> calls_ok st' \<and> result_ok r"
proof -
  have "case snd (run_tool_calls env tid st tcs) of
      None \<Rightarrow> proto_inv (fst (run_tool_calls env tid st tcs)) []
    | Some r \<Rightarrow> calls_ok (fst (run_tool_calls env tid st tcs)) \<and> result_ok r"
    by (rule run_tool_calls_inv [where I = "\<lambda>st tcs. proto_inv st (map tc_id tcs)"
          and R = "\<lambda>st r. case r of None \<Rightarrow> proto_inv st [] | Some r \<Rightarrow> calls_ok st \<and> result_ok r"])
      (use assms in \<open>auto simp: proto_inv_def proto_append calls_ok_def result_ok_def pending_of_def\<close>)
  then show ?thesis by (simp add: split_beta split: option.splits)
qed

lemma agentic_loop_proto:
  assumes "proto_inv st []"
  shows "calls_ok (fst (agentic_loop env tid st)) \<and>
    (\<forall>r. snd (agentic_loop env tid st) = Ok r \<longrightarrow> result_ok r)"
proof (rule agentic_loop_rule [where I = "\<lambda>st. proto_inv st []" and C = "\<lambda>st. proto_inv st []"
      and J = "\<lambda>st tcs. proto_inv st (map tc_id tcs)"
      and Q = "\<lambda>out. calls_ok (fst out) \<and> (\<forall>r. snd out = Ok r \<longrightarrow> result_ok r)"])
  fix st tcs st' r
  assume "proto_inv st (map tc_id tcs)" "run_tool_calls env tid st tcs = (st', Some r)"
  then show "calls_ok (fst (st', Ok r)) \<and> (\<forall>ra. snd (st', Ok r) = Ok ra \<longrightarrow> result_ok ra)"
    using run_tool_calls_proto [of st tcs env tid] by simp
next
  fix st tcs st'
  assume "proto_inv st (map tc_id tcs)" "run_tool_calls env tid st tcs = (st', None)"
  then show "proto_inv st' []" using run_tool_calls_proto [of st tcs env tid] by simp
qed (use assms in \<open>auto simp: proto_inv_def calls_ok_def proto_append result_ok_def protocol_ok_def\<close>)

section \<open>Where tool results are recorded\<close>

lemma record_calls:
  "foldl thread_step t (map (\<lambda>tc. RecordToolCall (tc_name tc) (tc_arguments tc)) tcs) =
   t\<lparr>th_turns := update_last (\<lambda>u. u\<lparr>tn_tool_calls := tn_tool_calls u @
      map (\<lambda>tc. \<lparr>tt_name = tc_name tc, tt_parameters = tc_arguments tc, tt_result = None, tt_error = None\<rparr>) tcs\<rparr>) (th_turns t)\<rparr>"
proof (induction tcs arbitrary: t)
  case Nil
  then show ?case by (cases "th_turns t" rule: rev_cases) simp_all
next
  case (Cons tc tcs)
  then show ?case by (cases "th_turns t" rule: rev_cases) (simp_all add: record_tool_call_def)
qed

lemma record_results:
  "th_turns t = us @ [u] \<Longrightarrow> rs \<noteq> [] \<Longrightarrow>
   foldl thread_step t (map (\<lambda>r. RecordToolResult r) rs) =
   t\<lparr>th_turns := us @ [u\<lparr>tn_tool_calls := update_last (\<lambda>c. c\<lparr>tt_result := Some (last rs)\<rparr>) (tn_tool_calls u)\<rparr>]\<rparr>"
proof (induction rs arbitrary: t u)
  case (Cons r rs)
  then show ?case
    by (cases "tn_tool_calls u" rule: rev_cases; cases "rs = []") (simp_all add: record_tool_result_def)
qed simp

definition sample_call :: "string \<Rightarrow> string \<Rightarrow> tool_call" where
  "sample_call i n = \<lparr>tc_id = i, tc_name = n, tc_arguments = JNull\<rparr>"

text \<open>A model that asks for two calls of a tool that needs approval.\<close>

definition sample_env :: loop_env where
  "sample_env =
     \<lparr>le_llm = (\<lambda>_ _. Ok (ToolCalls [sample_call ''1'' ''shell'', sample_call ''2'' ''shell''] None)),
      le_limit = (\<lambda>_. None),
      le_tools = (\<lambda>_. Some \<lparr>ti_requires_approval = True, ti_requires_approval_for = (\<lambda>_. False), ti_description = ''d'', ti_timeout_secs = 60, ti_timeout_debug = ''60s''\<rparr>),
      le_validate = (\<lambda>_. (True, [])), le_execute = (\<lambda>_ _ _. ExecOk JNull), le_hook = (\<lambda>_ _. HookContinue), le_from_json = (\<lambda>_. None),
      le_to_json = (\<lambda>_. ''null''), le_to_pretty = (\<lambda>_. Ok ''null''), le_piped = False, le_stream = (\<lambda>_ _. []),
      le_early_done = (\<lambda>_ _. False), le_tool_content = (\<lambda>_ c. c), le_request_id = 77, le_now = 0\<rparr>"

text \<open>A model that streams one shell call, with a tool that needs no approval and a run that is still
  going on when the answer is complete.\<close>

definition stream_args :: json where
  "stream_args = JObject [(''command'', JString ''make'')]"

definition stream_env :: loop_env where
  "stream_env = sample_env\<lparr>
     le_llm := (\<lambda>i _. if i = 1 then Ok (ToolCalls [\<lparr>tc_id = ''1'', tc_name = ''shell'', tc_arguments = stream_args\<rparr>] None) else Ok (Text ''bye'')),
     le_tools := (\<lambda>_. Some \<lparr>ti_requires_approval = False, ti_requires_approval_for = (\<lambda>_. False), ti_description = ''d'',
        ti_timeout_secs = 60, ti_timeout_debug = ''60s''\<rparr>),
     le_from_json := (\<lambda>s. if s = ''x'' then Some (JObject [(''t'', JString ''tool_call''), (''id'', JString ''1''),
        (''internal_call_id'', JString ''a''), (''name'', JString ''shell''), (''arguments'', stream_args)]) else None),
     le_piped := True,
     le_stream := (\<lambda>i _. if i = 1 then [''hello'', TOOL_STREAM_EVENT_PREFIX @ ''x''] else [])\<rparr>"

lemma stream_env_start:
  "early_starts (le_from_json stream_env) (le_to_json stream_env) (le_piped stream_env) [] (le_stream stream_env 1 ms) =
     [(''1'', stream_args)]"
  by code_simp

lemma stream_env_allowed: "early_allowed stream_env s stream_args"
  by (simp add: early_allowed_def stream_env_def sample_env_def)

section \<open>Properties\<close>

text \<open>
  C1: No tool runs unapproved.  Every tool the loop executes, from a complete answer or early from the
  stream of an answer, either needs no approval, or was auto-approved in the session before the loop
  started and its given arguments do not demand an explicit approval; the loop never extends the set
  of auto-approved tools.
\<close>

theorem approval_gate:
  "let (st, r) = run_agentic_loop env s tid ms b in
   (\<forall>call \<in> set (ls_trace st). gate_ok env (ss_auto_approved_tools s) call) \<and>
   ss_auto_approved_tools (ls_session st) = ss_auto_approved_tools s"
proof -
  have "gated env tid s (fst (run_agentic_loop env s tid ms b))"
    unfolding run_agentic_loop_def by (rule agentic_loop_gated) (simp add: gated_def)
  then show ?thesis using quiet_effect_approved by (auto simp: gated_def split_beta)
qed

theorem approval_gate_witness:
  "let env = sample_env\<lparr>le_llm := (\<lambda>i _. if i = 1 then Ok (ToolCalls [sample_call ''1'' ''shell''] None) else Ok (Text ''bye''))\<rparr>;
       s = auto_approve_tool (session_new 1 0 ''u'') ''shell'';
       st = fst (run_agentic_loop env s 9 [] False) in
   ls_trace st = [(''shell'', JNull, JNull)] \<and> (\<forall>call \<in> set (ls_trace st). gate_ok env [''shell''] call)"
proof -
  let ?env = "sample_env\<lparr>le_llm := (\<lambda>i _. if i = 1 then Ok (ToolCalls [sample_call ''1'' ''shell''] None) else Ok (Text ''bye''))\<rparr>"
    and ?s = "auto_approve_tool (session_new 1 0 ''u'') ''shell''"
  have "ls_trace (fst (run_agentic_loop ?env ?s 9 [] False)) = [(''shell'', JNull, JNull)]" by code_simp
  moreover have "ss_auto_approved_tools ?s = [''shell'']" by (simp add: auto_approve_tool_def session_new_def)
  ultimately show ?thesis using approval_gate [of ?env ?s 9 "[]" False] by (simp add: split_beta Let_def)
qed

text \<open>
  C4: A turn ends.  The loop is a total function that calls the model at most ten times, and started
  on the messages of a thread it sends the model only contexts in which every tool call of every
  answer has its result.
\<close>

theorem loop_bounded_protocol:
  "let (st, r) = run_agentic_loop env s tid (messages t) b in
   length (ls_calls st) \<le> MAX_TOOL_ITERATIONS \<and> (\<forall>c \<in> set (ls_calls st). protocol_ok c)"
proof -
  have "calls_ok (fst (run_agentic_loop env s tid (messages t) b))"
    unfolding run_agentic_loop_def
    by (rule agentic_loop_proto [THEN conjunct1])
      (use protocol_ok_messages [of t] in \<open>simp add: proto_inv_def protocol_ok_def\<close>)
  then show ?thesis by (simp add: calls_ok_def split_beta)
qed

theorem loop_bounded_protocol_witness:
  "length (ls_calls (fst (run_agentic_loop (sample_env\<lparr>le_tools := \<lambda>_. None\<rparr>) (session_new 1 0 ''u'') 9
     (messages (thread_new 9 0 1)) False))) \<le> 10"
  using loop_bounded_protocol [of "sample_env\<lparr>le_tools := \<lambda>_. None\<rparr>" "session_new 1 0 ''u''" 9 "thread_new 9 0 1" False]
  by (simp add: split_beta MAX_TOOL_ITERATIONS_def)

text \<open>
  The loop only annotates.  Whatever the model and the tools do, the loop leaves the state of its
  thread, the messages of its thread, the number of turns and every other thread alone, and
  keeps the session well-formed.
\<close>

theorem loop_keeps_thread:
  assumes "map_of (ss_threads s) tid = Some t" and "session_wf s"
  shows "\<exists>t'. map_of (ss_threads (fst (chat_loop env s tid ms b))) tid = Some t' \<and>
    th_state t' = th_state t \<and> messages t' = messages t \<and> length (th_turns t') = length (th_turns t) \<and>
    session_wf (fst (chat_loop env s tid ms b)) \<and>
    (\<forall>j. j \<noteq> tid \<longrightarrow> map_of (ss_threads (fst (chat_loop env s tid ms b))) j = map_of (ss_threads s) j)"
proof -
  from dispatcher.loop_thread [OF assms(1)] obtain es where es: "\<forall>e \<in> set es. quiet_event e"
    "fst (chat_loop env s tid ms b) = s\<lparr>ss_threads := AList.update tid (foldl thread_step t es) (ss_threads s)\<rparr>"
    by metis
  have "session_wf (fst (chat_loop env s tid ms b))"
    using dispatcher.loop_quiet [of tid s env ms b] session.run_inv [OF assms(2)] by (auto simp: quiet_effect_def)
  with es quiet_thread_frames [OF es(1), of t] show ?thesis by (simp add: distinct_map_of_update)
qed

theorem loop_keeps_thread_witness:
  "\<exists>t'. map_of (ss_threads (fst (chat_loop sample_env (create_thread 9 0 (session_new 1 0 ''u'')) 9 [] False))) 9 = Some t' \<and>
     th_state t' = Idle"
proof -
  have "map_of (ss_threads (create_thread 9 0 (session_new 1 0 ''u''))) 9 = Some (thread_new 9 0 1)"
    by (simp add: create_thread_def session_new_def)
  moreover have "session_wf (create_thread 9 0 (session_new 1 0 ''u''))"
    by (rule create_thread_wf) (simp add: session_wf_def session_new_def)
  ultimately show ?thesis
    using loop_keeps_thread [of "create_thread 9 0 (session_new 1 0 ''u'')" 9 "thread_new 9 0 1" sample_env "[]" False]
    by (auto simp: thread_new_def)
qed

text \<open>
  An approval answers one call only.  A request for approval that interrupts an answer waits for
  its own call and all later calls of that answer; resuming with the result of the approved call
  alone breaks the protocol exactly when a later call exists, and the loop does return such
  requests.
\<close>

theorem approval_drops_later_calls:
  "(\<forall>env s tid t b p. snd (run_agentic_loop env s tid (messages t) b) = Ok (LoopNeedApproval p) \<longrightarrow>
      (\<exists>later. proto [] (pa_context_messages p) = Some (pa_tool_call_id p # later) \<and>
        (protocol_ok (pa_context_messages p @ [msg_tool_result (pa_tool_call_id p) (pa_tool_name p) c]) \<longleftrightarrow> later = []))) \<and>
   (\<exists>env s tid t p. snd (run_agentic_loop env s tid (messages t) False) = Ok (LoopNeedApproval p) \<and>
      \<not> protocol_ok (pa_context_messages p @ [msg_tool_result (pa_tool_call_id p) (pa_tool_name p) c]))"
proof
  show "\<forall>env s tid t b p. snd (run_agentic_loop env s tid (messages t) b) = Ok (LoopNeedApproval p) \<longrightarrow>
      (\<exists>later. proto [] (pa_context_messages p) = Some (pa_tool_call_id p # later) \<and>
        (protocol_ok (pa_context_messages p @ [msg_tool_result (pa_tool_call_id p) (pa_tool_name p) c]) \<longleftrightarrow> later = []))"
  proof (intro allI impI)
    fix env s tid t b p
    assume "snd (run_agentic_loop env s tid (messages t) b) = Ok (LoopNeedApproval p)"
    then have "result_ok (LoopNeedApproval p)"
      unfolding run_agentic_loop_def
      by (elim agentic_loop_proto [THEN conjunct2, rule_format, rotated])
        (use protocol_ok_messages [of t] in \<open>simp add: proto_inv_def protocol_ok_def\<close>)
    then obtain later where "proto [] (pa_context_messages p) = Some (pa_tool_call_id p # later)"
      by (auto simp: result_ok_def split: option.splits list.splits)
    then show "\<exists>later. proto [] (pa_context_messages p) = Some (pa_tool_call_id p # later) \<and>
        (protocol_ok (pa_context_messages p @ [msg_tool_result (pa_tool_call_id p) (pa_tool_name p) c]) \<longleftrightarrow> later = [])"
      by (auto simp: protocol_ok_def proto_append)
  qed
  obtain p where "snd (run_agentic_loop sample_env (session_new 1 0 ''u'') 9 (messages (thread_new 9 0 1)) False) =
      Ok (LoopNeedApproval p)" "proto [] (pa_context_messages p) = Some [''1'', ''2'']" "pa_tool_call_id p = ''1''"
  proof
    have run: "snd (run_agentic_loop sample_env (session_new 1 0 ''u'') 9 (messages (thread_new 9 0 1)) False) =
      Ok (LoopNeedApproval \<lparr>pa_request_id = 77, pa_tool_name = ''shell'', pa_parameters = JNull, pa_description = ''d'',
        pa_tool_call_id = ''1'', pa_context_messages = [assistant_with_tool_calls None [sample_call ''1'' ''shell'', sample_call ''2'' ''shell'']]\<rparr>)"
      by code_simp
    then show "snd (run_agentic_loop sample_env (session_new 1 0 ''u'') 9 (messages (thread_new 9 0 1)) False) =
      Ok (LoopNeedApproval \<lparr>pa_request_id = 77, pa_tool_name = ''shell'', pa_parameters = JNull, pa_description = ''d'',
        pa_tool_call_id = ''1'', pa_context_messages = [assistant_with_tool_calls None [sample_call ''1'' ''shell'', sample_call ''2'' ''shell'']]\<rparr>)" .
  qed (simp_all add: sample_call_def)
  then show "\<exists>env s tid t p. snd (run_agentic_loop env s tid (messages t) False) = Ok (LoopNeedApproval p) \<and>
      \<not> protocol_ok (pa_context_messages p @ [msg_tool_result (pa_tool_call_id p) (pa_tool_name p) c])"
    by (intro exI conjI) (assumption, simp add: protocol_ok_def proto_append)
qed

theorem approval_drops_later_calls_witness:
  "\<exists>env s tid t p. snd (run_agentic_loop env s tid (messages t) False) = Ok (LoopNeedApproval p) \<and>
      \<not> protocol_ok (pa_context_messages p @ [msg_tool_result (pa_tool_call_id p) (pa_tool_name p) ''out''])"
  using approval_drops_later_calls [of "''out''"] by blast

text \<open>
  Tool results land on the last call.  All calls of an answer are recorded before the first one
  runs, and a result is recorded on the last call of the turn: after the calls of an answer all
  returned results, the last call holds the last result and no other call holds any.
\<close>

theorem results_land_on_last_call:
  assumes "th_turns t = us @ [u]" and "tn_tool_calls u = []" and "length rs = length tcs" and "tcs \<noteq> []"
  shows "map tt_result (tn_tool_calls (last (th_turns
      (foldl thread_step (foldl thread_step t (map (\<lambda>tc. RecordToolCall (tc_name tc) (tc_arguments tc)) tcs))
         (map RecordToolResult rs))))) =
    replicate (length tcs - 1) None @ [Some (last rs)]"
proof -
  have "rs \<noteq> []" using assms(3,4) by auto
  then show ?thesis
    using assms(1,2,4) record_results [where us = us and rs = rs]
    by (cases tcs rule: rev_cases) (simp_all add: record_calls record_tool_call_def map_replicate_const comp_def)
qed

theorem results_land_on_last_call_witness:
  "map tt_result (tn_tool_calls (last (th_turns
      (foldl thread_step (foldl thread_step (start_turn 0 (thread_new 9 0 1) ''go'')
         (map (\<lambda>tc. RecordToolCall (tc_name tc) (tc_arguments tc)) [sample_call ''1'' ''a'', sample_call ''2'' ''b'']))
         (map RecordToolResult [JString ''x'', JString ''y'']))))) = [None, Some (JString ''y'')]"
  using results_land_on_last_call [of "start_turn 0 (thread_new 9 0 1) ''go''" "[]" "turn_new 0 0 ''go''"
      "[JString ''x'', JString ''y'']" "[sample_call ''1'' ''a'', sample_call ''2'' ''b'']"]
  by (simp add: start_turn_def thread_new_def turn_new_def)

text \<open>
  Early runs pass no hook.  A shell call that the streamed answer completes and that the approval
  check admits is run with the arguments of the model whatever the \<open>BeforeToolCall\<close> hooks say, although
  the loop lets hooks reject or rewrite every tool call.
\<close>

theorem piped_ignores_hook:
  assumes "\<not> interrupted s tid" and "le_limit env 1 = None"
    and "(i, args) \<in> set (early_starts (le_from_json env) (le_to_json env) (le_piped env) [] (le_stream env 1 ms))"
    and "early_allowed env s args"
  shows "(''shell'', args, args) \<in> set (ls_trace (fst (run_agentic_loop (env\<lparr>le_hook := h\<rparr>) s tid ms b)))"
proof -
  let ?env = "env\<lparr>le_hook := h\<rparr>"
  let ?st = "\<lparr>ls_session = s, ls_context = ms, ls_iteration = 0, ls_tools_executed = b,
    ls_early = [], ls_calls = [], ls_trace = []\<rparr>"
  have "early_allowed ?env s args" using assms(4) by (simp add: early_allowed_def split: option.splits)
  with assms(3) have "(''shell'', args, args) \<in> set (ls_trace (after_stream ?env ?st))"
    unfolding after_stream_def run_early_def by (intro run_early_runs) simp_all
  with first_pass_trace [of ?st tid ?env] assms(1,2) set_mono_prefix show ?thesis
    by (fastforce simp: run_agentic_loop_def MAX_TOOL_ITERATIONS_def)
qed

theorem piped_ignores_hook_witness:
  "(''shell'', stream_args, stream_args) \<in>
     set (ls_trace (fst (run_agentic_loop (stream_env\<lparr>le_hook := \<lambda>_ _. HookRejected ''policy''\<rparr>) (session_new 1 0 ''u'') 9 [] False)))"
proof (rule piped_ignores_hook)
  show "\<not> interrupted (session_new 1 0 ''u'') 9" by (simp add: interrupted_def session_new_def)
  show "le_limit stream_env 1 = None" by (simp add: stream_env_def sample_env_def)
  show "(''1'', stream_args) \<in> set (early_starts (le_from_json stream_env) (le_to_json stream_env) (le_piped stream_env) []
      (le_stream stream_env 1 []))"
    unfolding stream_env_start by simp
qed (rule stream_env_allowed)

text \<open>
  A streamed shell call may run twice.  When the early run of a call is still going on at the time
  the loop gets to the call, its result is not there yet, and the loop runs the same command a second
  time.
\<close>

theorem piped_may_run_twice:
  assumes "\<not> interrupted s tid" and "le_limit env 1 = None"
    and "le_llm env 1 ms = Ok (ToolCalls [tc] content)" and "tc_name tc = ''shell''"
    and "early_starts (le_from_json env) (le_to_json env) (le_piped env) [] (le_stream env 1 ms) = [(tc_id tc, tc_arguments tc)]"
    and "early_allowed env s (tc_arguments tc)" and "le_hook env (tc_name tc) (tc_arguments tc) = HookContinue"
    and "\<not> le_early_done env 1 (tc_id tc)"
  shows "prefix (replicate 2 (''shell'', tc_arguments tc, tc_arguments tc)) (ls_trace (fst (run_agentic_loop env s tid ms b)))"
proof -
  let ?x = "(''shell'', tc_arguments tc, tc_arguments tc)"
  let ?st = "\<lparr>ls_session = s, ls_context = ms, ls_iteration = 0, ls_tools_executed = b,
    ls_early = [], ls_calls = [], ls_trace = []\<rparr>"
  let ?st2 = "on_thread (push_context ((after_stream env ?st)\<lparr>ls_tools_executed := True\<rparr>)
    [assistant_with_tool_calls content [tc]]) tid [RecordToolCall (tc_name tc) (tc_arguments tc)]"
  have early: "ls_trace ?st2 = [?x]" "ls_early ?st2 = []"
    using assms(5,6,8) by (simp_all add: after_stream_def run_early_def early_task_def push_context_def on_thread_def)
  have "needs_approval env (ls_session ?st2) tc = None"
    using assms(4,6) by (auto simp: needs_approval_def early_allowed_def on_thread_def after_stream_def
        is_tool_auto_approved_def update_thread_def split: option.splits)
  moreover have "apply_tool_hook env tc = Ok (tc_arguments tc)" using assms(7) by (simp add: apply_tool_hook_def)
  moreover have "run_tool env ?st2 tc (tc_arguments tc) = (?st2\<lparr>ls_trace := [?x, ?x]\<rparr>,
      tool_outcome (execute_chat_tool env 1 ''shell'' (tc_arguments tc)))"
    using early assms(4) by (simp add: run_tool_def)
  ultimately have "ls_trace (fst (run_tool_calls env tid ?st2 [tc])) = [?x, ?x]"
    by (simp add: Let_def split: option.split)
  then have "prefix [?x, ?x] (case loop_pass env tid ?st of Inl (st', r) \<Rightarrow> ls_trace st' | Inr st' \<Rightarrow> ls_trace st')"
    using loop_pass_calls [of ?st tid env] assms(1-3)
    by (auto simp: MAX_TOOL_ITERATIONS_def split: prod.splits option.splits)
  from loop_pass_trace [OF this] show ?thesis by (simp add: run_agentic_loop_def numeral_2_eq_2)
qed

theorem piped_may_run_twice_witness:
  "prefix (replicate 2 (''shell'', stream_args, stream_args))
     (ls_trace (fst (run_agentic_loop stream_env (session_new 1 0 ''u'') 9 [] False)))"
proof -
  let ?tc = "\<lparr>tc_id = ''1'', tc_name = ''shell'', tc_arguments = stream_args\<rparr>"
  have "\<not> interrupted (session_new 1 0 ''u'') 9" by (simp add: interrupted_def session_new_def)
  moreover have "le_limit stream_env 1 = None" "le_llm stream_env 1 [] = Ok (ToolCalls [?tc] None)"
    "le_hook stream_env (tc_name ?tc) (tc_arguments ?tc) = HookContinue" "\<not> le_early_done stream_env 1 (tc_id ?tc)"
    by (simp_all add: stream_env_def sample_env_def)
  ultimately show ?thesis
    using piped_may_run_twice [of "session_new 1 0 ''u''" 9 stream_env "[]" ?tc None False]
      stream_env_start [of "[]"] stream_env_allowed by simp
qed

end
