(* ===== verification/Job_State.thy ===== *)
theory Job_State
  imports Prelude
begin

text \<open>
  The job state machine of \<^verbatim>\<open>src/src/context/state.rs\<close>: \<open>JobState\<close>, \<open>StateTransition\<close> and
  \<open>JobContext\<close> with every operation that changes a context.  Money is \<open>rust_decimal::Decimal\<close>, a
  type of another crate: the context is polymorphic in it and the code relies on an ordered
  additive group only.  \<open>Uuid::new_v4\<close> and \<open>Utc::now\<close> are arguments.
\<close>

section \<open>States\<close>

datatype job_state =
    Pending
  | InProgress
  | Completed
  | Submitted
  | Accepted
  | Failed
  | Stuck
  | Cancelled

fun can_transition_to :: "job_state \<Rightarrow> job_state \<Rightarrow> bool" where
  "can_transition_to Pending InProgress = True"
| "can_transition_to Pending Cancelled = True"
| "can_transition_to InProgress Completed = True"
| "can_transition_to InProgress Failed = True"
| "can_transition_to InProgress Stuck = True"
| "can_transition_to InProgress Cancelled = True"
| "can_transition_to Completed Submitted = True"
| "can_transition_to Completed Failed = True"
| "can_transition_to Submitted Accepted = True"
| "can_transition_to Submitted Failed = True"
| "can_transition_to Stuck InProgress = True"
| "can_transition_to Stuck Failed = True"
| "can_transition_to Stuck Cancelled = True"
| "can_transition_to _ _ = False"

definition is_terminal :: "job_state \<Rightarrow> bool" where
  "is_terminal s \<longleftrightarrow> s \<in> {Accepted, Failed, Cancelled}"

definition is_active :: "job_state \<Rightarrow> bool" where
  "is_active s \<longleftrightarrow> \<not> is_terminal s"

fun job_state_display :: "job_state \<Rightarrow> string" where
  "job_state_display Pending = ''pending''"
| "job_state_display InProgress = ''in_progress''"
| "job_state_display Completed = ''completed''"
| "job_state_display Submitted = ''submitted''"
| "job_state_display Accepted = ''accepted''"
| "job_state_display Failed = ''failed''"
| "job_state_display Stuck = ''stuck''"
| "job_state_display Cancelled = ''cancelled''"

record state_transition =
  tr_from :: job_state
  tr_to :: job_state
  tr_timestamp :: instant
  tr_reason :: "string option"

section \<open>The context of a job\<close>

record 'd job_context =
  jc_job_id :: uuid
  jc_state :: job_state
  jc_user_id :: string
  jc_conversation_id :: "uuid option"
  jc_title :: string
  jc_description :: string
  jc_category :: "string option"
  jc_budget :: "'d option"
  jc_budget_token :: "string option"
  jc_bid_amount :: "'d option"
  jc_estimated_cost :: "'d option"
  jc_estimated_duration :: "duration option"
  jc_actual_cost :: 'd
  jc_total_tokens_used :: u64
  jc_max_tokens :: u64
  jc_created_at :: instant
  jc_started_at :: "instant option"
  jc_completed_at :: "instant option"
  jc_repair_attempts :: u32
  jc_transitions :: "state_transition list"
  jc_metadata :: json
  jc_extra_env :: "(string \<times> string) list"

definition with_user ::
  "uuid \<Rightarrow> instant \<Rightarrow> string \<Rightarrow> string \<Rightarrow> string \<Rightarrow> ('d::zero) job_context" where
  "with_user new_id now user_id title description =
     \<lparr> jc_job_id = new_id, jc_state = Pending, jc_user_id = user_id, jc_conversation_id = None,
       jc_title = title, jc_description = description, jc_category = None, jc_budget = None,
       jc_budget_token = None, jc_bid_amount = None, jc_estimated_cost = None,
       jc_estimated_duration = None, jc_actual_cost = 0, jc_total_tokens_used = 0,
       jc_max_tokens = 0, jc_created_at = now, jc_started_at = None, jc_completed_at = None,
       jc_repair_attempts = 0, jc_transitions = [], jc_metadata = JNull, jc_extra_env = [] \<rparr>"

definition job_context_new ::
  "uuid \<Rightarrow> instant \<Rightarrow> string \<Rightarrow> string \<Rightarrow> ('d::zero) job_context" where
  "job_context_new new_id now title description =
     with_user new_id now ''default'' title description"

definition job_context_default :: "uuid \<Rightarrow> instant \<Rightarrow> ('d::zero) job_context" where
  "job_context_default new_id now =
     with_user new_id now ''default'' ''Untitled'' ''No description''"

definition MAX_TRANSITIONS :: nat where
  "MAX_TRANSITIONS = 200"

definition cap_transitions :: "state_transition list \<Rightarrow> state_transition list" where
  "cap_transitions ts =
     (if length ts > MAX_TRANSITIONS then drop (length ts - MAX_TRANSITIONS) ts else ts)"

text \<open>
  \<open>transition_to\<close> reads the clock twice: \<open>now\<close> stamps the history entry, \<open>now'\<close> the
  \<open>started_at\<close> or \<open>completed_at\<close> field.
\<close>

definition stamp_times :: "instant \<Rightarrow> job_state \<Rightarrow> 'd job_context \<Rightarrow> 'd job_context" where
  "stamp_times now' new_state c =
     (if new_state = InProgress \<and> jc_started_at c = None then c\<lparr>jc_started_at := Some now'\<rparr>
      else if new_state \<in> {Completed, Accepted, Failed, Cancelled}
        then c\<lparr>jc_completed_at := Some now'\<rparr>
      else c)"

definition transition_to ::
  "instant \<Rightarrow> instant \<Rightarrow> 'd job_context \<Rightarrow> job_state \<Rightarrow> string option
     \<Rightarrow> 'd job_context \<times> (string, unit) result" where
  "transition_to now now' c new_state reason =
     (if \<not> can_transition_to (jc_state c) new_state
      then (c, Err (''Cannot transition from '' @ job_state_display (jc_state c) @ '' to '' @
                    job_state_display new_state))
      else
        (let t = \<lparr>tr_from = jc_state c, tr_to = new_state, tr_timestamp = now, tr_reason = reason\<rparr>;
             c1 = c\<lparr>jc_transitions := cap_transitions (jc_transitions c @ [t])\<rparr>;
             c2 = c1\<lparr>jc_state := new_state\<rparr>
         in (stamp_times now' new_state c2, Ok ())))"

definition add_cost :: "('d::plus) job_context \<Rightarrow> 'd \<Rightarrow> 'd job_context" where
  "add_cost c cost = c\<lparr>jc_actual_cost := jc_actual_cost c + cost\<rparr>"

text \<open>The counter is a \<open>u64\<close> and its addition wraps around in a release build.\<close>

definition add_tokens :: "'d job_context \<Rightarrow> u64 \<Rightarrow> 'd job_context \<times> (string, unit) result" where
  "add_tokens c tokens =
     (let c' = c\<lparr>jc_total_tokens_used := jc_total_tokens_used c + tokens\<rparr>
      in if jc_max_tokens c' > 0 \<and> jc_total_tokens_used c' > jc_max_tokens c'
         then (c', Err (''Token budget exceeded: used '' @ nat_str (unat (jc_total_tokens_used c')) @
                        '' of '' @ nat_str (unat (jc_max_tokens c')) @ '' allowed tokens''))
         else (c', Ok ()))"

definition budget_exceeded :: "('d::ord) job_context \<Rightarrow> bool" where
  "budget_exceeded c = (case jc_budget c of Some budget \<Rightarrow> budget < jc_actual_cost c | None \<Rightarrow> False)"

text \<open>\<open>num_seconds_since\<close> is chrono's \<open>signed_duration_since(..).num_seconds()\<close>.\<close>

definition elapsed ::
  "(instant \<Rightarrow> instant \<Rightarrow> int) \<Rightarrow> instant \<Rightarrow> 'd job_context \<Rightarrow> nat option" where
  "elapsed num_seconds_since now c =
     (case jc_started_at c of
        None \<Rightarrow> None
      | Some start \<Rightarrow>
          let end' = (case jc_completed_at c of Some t \<Rightarrow> t | None \<Rightarrow> now)
          in Some (nat (max (num_seconds_since end' start) 0)))"

definition mark_stuck ::
  "instant \<Rightarrow> instant \<Rightarrow> 'd job_context \<Rightarrow> string \<Rightarrow> 'd job_context \<times> (string, unit) result" where
  "mark_stuck now now' c reason = transition_to now now' c Stuck (Some reason)"

definition attempt_recovery ::
  "instant \<Rightarrow> instant \<Rightarrow> 'd job_context \<Rightarrow> 'd job_context \<times> (string, unit) result" where
  "attempt_recovery now now' c =
     (if jc_state c \<noteq> Stuck then (c, Err ''Job is not stuck'')
      else transition_to now now' (c\<lparr>jc_repair_attempts := jc_repair_attempts c + 1\<rparr>) InProgress
             (Some ''Recovery attempt''))"

section \<open>The machine of one job\<close>

text \<open>Every operation of \<open>JobContext\<close> that takes \<open>&mut self\<close>, as an event.\<close>

datatype 'd job_event =
    TransitionTo job_state "string option" instant instant
  | AddCost 'd
  | AddTokens u64
  | MarkStuck string instant instant
  | AttemptRecovery instant instant

fun job_step :: "('d::plus) job_context \<Rightarrow> 'd job_event \<Rightarrow> 'd job_context" where
  "job_step c (TransitionTo s r now now') = fst (transition_to now now' c s r)"
| "job_step c (AddCost d) = add_cost c d"
| "job_step c (AddTokens n) = fst (add_tokens c n)"
| "job_step c (MarkStuck r now now') = fst (mark_stuck now now' c r)"
| "job_step c (AttemptRecovery now now') = fst (attempt_recovery now now' c)"

fun linked :: "state_transition list \<Rightarrow> bool" where
  "linked [] = True"
| "linked [t] = can_transition_to (tr_from t) (tr_to t)"
| "linked (t # u # ts) = (can_transition_to (tr_from t) (tr_to t) \<and> tr_to t = tr_from u \<and> linked (u # ts))"

definition job_wf :: "'d job_context \<Rightarrow> bool" where
  "job_wf c \<longleftrightarrow>
     length (jc_transitions c) \<le> MAX_TRANSITIONS \<and>
     linked (jc_transitions c) \<and>
     (if jc_transitions c = [] then jc_state c = Pending
      else tr_to (last (jc_transitions c)) = jc_state c) \<and>
     (jc_started_at c = None \<longrightarrow> jc_state c \<in> {Pending, Cancelled}) \<and>
     (is_terminal (jc_state c) \<longrightarrow> jc_completed_at c \<noteq> None)"

lemmas job_op_defs = transition_to_def mark_stuck_def attempt_recovery_def add_cost_def add_tokens_def

lemma terminal_no_transition: "is_terminal s \<Longrightarrow> \<not> can_transition_to s t"
  by (cases s; cases t) (auto simp: is_terminal_def)

lemma active_can_terminate: "is_active s \<Longrightarrow> \<exists>t u. can_transition_to s t \<and> (is_terminal t \<or> can_transition_to t u \<and> is_terminal u)"
  by (cases s)
     (auto simp: is_active_def is_terminal_def intro: exI [of _ Failed] exI [of _ Cancelled])

lemma linked_drop: "linked ts \<Longrightarrow> linked (drop n ts)"
proof (induction ts arbitrary: n rule: linked.induct)
  case (3 t u ts)
  then show ?case by (cases n) auto
qed (auto simp: drop_Cons split: nat.splits)

lemma linked_snoc:
  "linked ts \<Longrightarrow> can_transition_to (tr_from t) (tr_to t) \<Longrightarrow>
   ts \<noteq> [] \<longrightarrow> tr_to (last ts) = tr_from t \<Longrightarrow> linked (ts @ [t])"
  by (induction ts rule: linked.induct) auto

lemma length_cap_transitions: "length (cap_transitions ts) \<le> MAX_TRANSITIONS"
  by (simp add: cap_transitions_def)

lemma last_cap_transitions: "cap_transitions (ts @ [t]) \<noteq> [] \<and> last (cap_transitions (ts @ [t])) = t"
  by (auto simp: cap_transitions_def MAX_TRANSITIONS_def last_drop)

lemma linked_cap_transitions: "linked ts \<Longrightarrow> linked (cap_transitions ts)"
  by (simp add: cap_transitions_def linked_drop)

lemma stamp_times_frame [simp]:
  "jc_transitions (stamp_times n s c) = jc_transitions c"
  "jc_state (stamp_times n s c) = jc_state c"
  by (auto simp: stamp_times_def)

lemma stamp_times_started:
  "jc_started_at (stamp_times n s c) = None \<Longrightarrow> s \<noteq> InProgress \<and> jc_started_at c = None"
  by (auto simp: stamp_times_def split: if_splits)

lemma stamp_times_completed:
  "is_terminal s \<Longrightarrow> jc_completed_at (stamp_times n s c) \<noteq> None"
  by (auto simp: stamp_times_def is_terminal_def)

lemma transition_to_wf [keeps]:
  assumes "job_wf c"
  shows "job_wf (fst (transition_to n n' c s r))"
proof (cases "can_transition_to (jc_state c) s")
  case False
  with assms show ?thesis by (simp add: transition_to_def)
next
  case True
  define t where "t = \<lparr>tr_from = jc_state c, tr_to = s, tr_timestamp = n, tr_reason = r\<rparr>"
  define c2 where "c2 = c\<lparr>jc_transitions := cap_transitions (jc_transitions c @ [t]), jc_state := s\<rparr>"
  have eq: "fst (transition_to n n' c s r) = stamp_times n' s c2"
    using True by (simp add: transition_to_def Let_def c2_def t_def)
  have "linked (jc_transitions c @ [t])"
    using assms True by (intro linked_snoc) (auto simp: job_wf_def t_def split: if_splits)
  then have "linked (jc_transitions c2)"
    by (simp add: c2_def linked_cap_transitions)
  moreover have "jc_transitions c2 \<noteq> []" "last (jc_transitions c2) = t"
    using last_cap_transitions by (auto simp: c2_def)
  moreover have "jc_started_at (stamp_times n' s c2) = None \<Longrightarrow> s \<in> {Pending, Cancelled}"
    using assms True stamp_times_started [of n' s c2]
    by (cases "jc_state c"; cases s) (auto simp: job_wf_def c2_def)
  ultimately show ?thesis
    unfolding eq using stamp_times_completed [of s n' c2]
    by (auto simp: job_wf_def c2_def t_def length_cap_transitions)
qed

lemma add_cost_wf [keeps]: "job_wf c \<Longrightarrow> job_wf (add_cost c d)"
  by (simp add: job_wf_def add_cost_def)

lemma add_tokens_wf [keeps]: "job_wf c \<Longrightarrow> job_wf (fst (add_tokens c n))"
  by (simp add: job_wf_def add_tokens_def Let_def)

lemma mark_stuck_wf [keeps]: "job_wf c \<Longrightarrow> job_wf (fst (mark_stuck n n' c r))"
  by (simp add: mark_stuck_def transition_to_wf)

lemma attempt_recovery_wf [keeps]: "job_wf c \<Longrightarrow> job_wf (fst (attempt_recovery n n' c))"
proof -
  assume "job_wf c"
  then have "job_wf (c\<lparr>jc_repair_attempts := jc_repair_attempts c + 1\<rparr>)"
    by (simp add: job_wf_def)
  with \<open>job_wf c\<close> show ?thesis
    by (simp add: attempt_recovery_def transition_to_wf)
qed

lemma job_step_wf: "job_wf c \<Longrightarrow> job_wf (job_step c e)"
  by (cases e) (simp_all add: keeps)

interpretation job: inv_machine "job_step :: ('d::plus) job_context \<Rightarrow> 'd job_event \<Rightarrow> 'd job_context" job_wf
  by unfold_locales (rule job_step_wf)

lemma with_user_wf: "job_wf (with_user i n u t d)"
  by (simp add: job_wf_def with_user_def is_terminal_def)

lemma job_step_terminal:
  "is_terminal (jc_state c) \<Longrightarrow>
   jc_state (job_step c e) = jc_state c \<and> jc_transitions (job_step c e) = jc_transitions c \<and>
   jc_completed_at (job_step c e) = jc_completed_at c"
  by (cases e)
     (auto simp: job_op_defs Let_def terminal_no_transition is_terminal_def)

lemma job_run_terminal:
  "is_terminal (jc_state c) \<Longrightarrow>
   jc_state (foldl job_step c es) = jc_state c \<and>
   jc_transitions (foldl job_step c es) = jc_transitions c \<and>
   jc_completed_at (foldl job_step c es) = jc_completed_at c"
proof (induction es arbitrary: c)
  case Nil
  then show ?case by simp
next
  case (Cons e es)
  with job_step_terminal [of c e] show ?case by simp
qed

section \<open>Properties\<close>

text \<open>
  C13: Whatever operations are applied to a new job, in any order, its history never exceeds 200
  entries, every entry is a permitted transition and starts where the one before it ended, the
  last entry names the current state, a job that has left \<open>Pending\<close> other than by cancellation
  has a start time, and a job in a terminal state has a completion time.
\<close>

theorem job_lifecycle: "job_wf (foldl job_step (with_user i n u t d) es)"
  by (rule job.run_inv) (rule with_user_wf)

text \<open>
  Terminal states are final.  Once a job is accepted, failed or cancelled, no sequence of
  operations changes its state, its history or its completion time, and every requested
  transition is refused with an error that leaves the context as it was.
\<close>

theorem job_terminal_final:
  assumes "is_terminal (jc_state c)"
  shows "jc_state (foldl job_step c es) = jc_state c \<and>
         jc_transitions (foldl job_step c es) = jc_transitions c \<and>
         jc_completed_at (foldl job_step c es) = jc_completed_at c \<and>
         (\<exists>msg. transition_to now now' c s r = (c, Err msg))"
  using job_run_terminal [OF assms] terminal_no_transition [OF assms, of s]
  by (simp add: transition_to_def)

theorem job_terminal_final_witness:
  "let c = (with_user 1 0 ''u'' ''t'' ''d'' :: int job_context)\<lparr>jc_state := Failed\<rparr> in
   is_terminal (jc_state c) \<and>
   jc_state (foldl job_step c [TransitionTo InProgress None 1 2, AddCost 3]) = Failed"
  using job_terminal_final
    [of "(with_user 1 0 ''u'' ''t'' ''d'' :: int job_context)\<lparr>jc_state := Failed\<rparr>"
        "[TransitionTo InProgress None 1 2, AddCost 3]"]
  by (simp add: is_terminal_def)

text \<open>
  What a permitted transition does: it succeeds, the new state is the requested one, the
  history is the last 200 entries of the old history followed by the new entry, the start time is
  set by the first entry into \<open>InProgress\<close> and never overwritten, the completion time is stamped
  exactly on entering \<open>Completed\<close>, \<open>Accepted\<close>, \<open>Failed\<close> or \<open>Cancelled\<close>, and nothing else
  changes.
\<close>

theorem transition_to_effect:
  assumes "can_transition_to (jc_state c) s"
  shows "transition_to now now' c s r =
    (c\<lparr>jc_state := s,
       jc_transitions :=
         drop (length (jc_transitions c) + 1 - 200)
           (jc_transitions c @ [\<lparr>tr_from = jc_state c, tr_to = s, tr_timestamp = now, tr_reason = r\<rparr>]),
       jc_started_at := (if s = InProgress \<and> jc_started_at c = None then Some now' else jc_started_at c),
       jc_completed_at := (if s \<in> {Completed, Accepted, Failed, Cancelled} then Some now'
                           else jc_completed_at c)\<rparr>, Ok ())"
  using assms
  by (auto simp: transition_to_def Let_def stamp_times_def cap_transitions_def MAX_TRANSITIONS_def)

theorem transition_to_effect_witness:
  "transition_to 5 6 (with_user 1 0 ''u'' ''t'' ''d'' :: int job_context) InProgress None =
   ((with_user 1 0 ''u'' ''t'' ''d'' :: int job_context)
      \<lparr>jc_state := InProgress,
       jc_transitions := [\<lparr>tr_from = Pending, tr_to = InProgress, tr_timestamp = 5, tr_reason = None\<rparr>],
       jc_started_at := Some 6\<rparr>, Ok ())"
  using transition_to_effect [of "with_user 1 0 ''u'' ''t'' ''d'' :: int job_context" InProgress 5 6 None]
  by (simp add: with_user_def)

text \<open>
  The token budget.  As long as the 64-bit counter does not overflow, recording tokens adds
  them exactly, and the call reports an error if and only if a budget is set and the new total
  exceeds it; the tokens are recorded in both cases.
\<close>

theorem add_tokens_budget:
  assumes "unat (jc_total_tokens_used c) + unat n < 2 ^ 64"
  shows "unat (jc_total_tokens_used (fst (add_tokens c n))) = unat (jc_total_tokens_used c) + unat n \<and>
    ((\<exists>msg. snd (add_tokens c n) = Err msg) \<longleftrightarrow>
       0 < unat (jc_max_tokens c) \<and> unat (jc_max_tokens c) < unat (jc_total_tokens_used c) + unat n)"
proof -
  have "unat (jc_total_tokens_used c + n) = unat (jc_total_tokens_used c) + unat n"
    using assms by (simp add: unat_word_ariths)
  then show ?thesis
    by (auto simp: add_tokens_def Let_def word_less_nat_alt word_gt_0 unat_gt_0)
qed

theorem add_tokens_budget_witness:
  "let c = (with_user 1 0 ''u'' ''t'' ''d'' :: int job_context)\<lparr>jc_max_tokens := 100\<rparr> in
   unat (jc_total_tokens_used (fst (add_tokens c 101))) = 101 \<and>
   (\<exists>msg. snd (add_tokens c 101) = Err msg)"
  using add_tokens_budget
    [of "(with_user 1 0 ''u'' ''t'' ''d'' :: int job_context)\<lparr>jc_max_tokens := 100\<rparr>" 101]
  by (simp add: with_user_def)

end
