(* ===== verification/Context_Memory.thy ===== *)
theory Context_Memory
  imports Llm_Types
begin

text \<open>
  The memory of a job, \<^verbatim>\<open>src/src/context/memory.rs\<close>: action records, the bounded conversation and
  \<open>Memory\<close>.
\<close>

record 'd action_record =
  ar_id :: uuid
  ar_sequence :: u32
  ar_tool_name :: string
  ar_input :: json
  ar_output_raw :: "string option"
  ar_output_sanitized :: "json option"
  ar_sanitization_warnings :: "string list"
  ar_cost :: "'d option"
  ar_duration :: duration
  ar_success :: bool
  ar_error :: "string option"
  ar_executed_at :: instant

definition action_new :: "uuid \<Rightarrow> instant \<Rightarrow> u32 \<Rightarrow> string \<Rightarrow> json \<Rightarrow> 'd action_record" where
  "action_new new_id now sequence tool_name input =
     \<lparr>ar_id = new_id, ar_sequence = sequence, ar_tool_name = tool_name, ar_input = input,
      ar_output_raw = None, ar_output_sanitized = None, ar_sanitization_warnings = [],
      ar_cost = None, ar_duration = 0, ar_success = False, ar_error = None, ar_executed_at = now\<rparr>"

definition action_succeed ::
  "'d action_record \<Rightarrow> string option \<Rightarrow> json \<Rightarrow> duration \<Rightarrow> 'd action_record" where
  "action_succeed a raw sanitized dur =
     a\<lparr>ar_success := True, ar_output_raw := raw, ar_output_sanitized := Some sanitized,
       ar_duration := dur\<rparr>"

definition action_fail :: "'d action_record \<Rightarrow> string \<Rightarrow> duration \<Rightarrow> 'd action_record" where
  "action_fail a err dur = a\<lparr>ar_success := False, ar_error := Some err, ar_duration := dur\<rparr>"

definition action_with_warnings :: "'d action_record \<Rightarrow> string list \<Rightarrow> 'd action_record" where
  "action_with_warnings a ws = a\<lparr>ar_sanitization_warnings := ws\<rparr>"

definition action_with_cost :: "'d action_record \<Rightarrow> 'd \<Rightarrow> 'd action_record" where
  "action_with_cost a cost = a\<lparr>ar_cost := Some cost\<rparr>"

record conversation_memory =
  cv_messages :: "chat_message list"
  cv_max_messages :: nat

definition conversation_new :: "nat \<Rightarrow> conversation_memory" where
  "conversation_new max_messages = \<lparr>cv_messages = [], cv_max_messages = max_messages\<rparr>"

text \<open>The trimming loop of \<open>add\<close>: a leading system message is skipped, the next one goes.\<close>

fun trim_messages :: "nat \<Rightarrow> chat_message list \<Rightarrow> chat_message list" where
  "trim_messages mx [] = []"
| "trim_messages mx [m] =
     (if 1 > mx then (if cm_role m = System then [m] else trim_messages mx []) else [m])"
| "trim_messages mx (m # m' # ms) =
     (if length (m # m' # ms) > mx
      then (if cm_role m = System then trim_messages mx (m # ms) else trim_messages mx (m' # ms))
      else m # m' # ms)"

definition conversation_add :: "conversation_memory \<Rightarrow> chat_message \<Rightarrow> conversation_memory" where
  "conversation_add cv msg =
     cv\<lparr>cv_messages := trim_messages (cv_max_messages cv) (cv_messages cv @ [msg])\<rparr>"

definition conversation_last_n :: "conversation_memory \<Rightarrow> nat \<Rightarrow> chat_message list" where
  "conversation_last_n cv n = drop (length (cv_messages cv) - n) (cv_messages cv)"

definition conversation_clear :: "conversation_memory \<Rightarrow> conversation_memory" where
  "conversation_clear cv = cv\<lparr>cv_messages := []\<rparr>"

record 'd memory =
  mm_job_id :: uuid
  mm_conversation :: conversation_memory
  mm_actions :: "'d action_record list"
  mm_next_sequence :: u32

definition memory_new :: "uuid \<Rightarrow> 'd memory" where
  "memory_new job_id =
     \<lparr>mm_job_id = job_id, mm_conversation = conversation_new 100, mm_actions = [], mm_next_sequence = 0\<rparr>"

definition add_message :: "'d memory \<Rightarrow> chat_message \<Rightarrow> 'd memory" where
  "add_message m msg = m\<lparr>mm_conversation := conversation_add (mm_conversation m) msg\<rparr>"

definition create_action ::
  "uuid \<Rightarrow> instant \<Rightarrow> 'd memory \<Rightarrow> string \<Rightarrow> json \<Rightarrow> 'd memory \<times> 'd action_record" where
  "create_action new_id now m tool_name input =
     (m\<lparr>mm_next_sequence := mm_next_sequence m + 1\<rparr>,
      action_new new_id now (mm_next_sequence m) tool_name input)"

definition record_action :: "'d memory \<Rightarrow> 'd action_record \<Rightarrow> 'd memory" where
  "record_action m a = m\<lparr>mm_actions := mm_actions m @ [a]\<rparr>"

definition total_cost :: "('d::{plus,zero}) memory \<Rightarrow> 'd" where
  "total_cost m = foldl (+) 0 (List.map_filter ar_cost (mm_actions m))"

definition total_duration :: "'d memory \<Rightarrow> duration" where
  "total_duration m = foldl (+) 0 (map ar_duration (mm_actions m))"

definition successful_actions :: "'d memory \<Rightarrow> nat" where
  "successful_actions m = length (filter ar_success (mm_actions m))"

definition failed_actions :: "'d memory \<Rightarrow> nat" where
  "failed_actions m = length (filter (\<lambda>a. \<not> ar_success a) (mm_actions m))"

definition last_action :: "'d memory \<Rightarrow> 'd action_record option" where
  "last_action m = (if mm_actions m = [] then None else Some (last (mm_actions m)))"

definition actions_by_tool :: "'d memory \<Rightarrow> string \<Rightarrow> 'd action_record list" where
  "actions_by_tool m tool_name = filter (\<lambda>a. ar_tool_name a = tool_name) (mm_actions m)"

section \<open>The conversation stays within its bound\<close>

lemma trim_messages_length:
  "length (trim_messages mx ms) \<le> max mx 1"
  by (induction mx ms rule: trim_messages.induct) auto

lemma trim_messages_subseq: "subseq (trim_messages mx ms) ms"
proof (induction mx ms rule: trim_messages.induct)
  case (3 mx m m' ms)
  have "subseq (m # ms) (m # m' # ms)" by (simp add: list_emb_Cons)
  with 3 show ?case by (auto intro: list_emb_Cons subseq_order.order_trans)
qed auto

lemma trim_messages_system:
  "ms \<noteq> [] \<Longrightarrow> cm_role (hd ms) = System \<Longrightarrow>
   trim_messages mx ms \<noteq> [] \<and> hd (trim_messages mx ms) = hd ms"
  by (induction mx ms rule: trim_messages.induct) auto

lemma trim_messages_last:
  "2 \<le> mx \<Longrightarrow> ms \<noteq> [] \<Longrightarrow> trim_messages mx ms \<noteq> [] \<and> last (trim_messages mx ms) = last ms"
proof (induction mx ms rule: trim_messages.induct)
  case (3 mx m m' ms)
  then show ?case by (cases ms) auto
qed auto

lemma conversation_add_max [simp]: "cv_max_messages (conversation_add cv m) = cv_max_messages cv"
  by (simp add: conversation_add_def)

definition conversation_ok :: "conversation_memory \<Rightarrow> bool" where
  "conversation_ok cv \<longleftrightarrow> length (cv_messages cv) \<le> max (cv_max_messages cv) 1"

interpretation conversation: inv_machine conversation_add conversation_ok
  by unfold_locales
     (use trim_messages_length in \<open>simp add: conversation_ok_def conversation_add_def\<close>)

lemma conversation_fold_max [simp]:
  "cv_max_messages (foldl conversation_add cv msgs) = cv_max_messages cv"
  by (induction msgs arbitrary: cv) auto

lemma actions_partition: "successful_actions m + failed_actions m = length (mm_actions m)"
  by (simp add: successful_actions_def failed_actions_def sum_length_filter_compl)

text \<open>
  The conversation of a job is bounded and keeps what matters.  From a conversation within
  its limit of at least two messages, adding any messages never exceeds the limit, a system
  message in first place stays in first place, and the newest message is the last one.
\<close>

theorem conversation_bounded:
  assumes "2 \<le> cv_max_messages cv" and "length (cv_messages cv) \<le> cv_max_messages cv"
  shows "length (cv_messages (foldl conversation_add cv msgs)) \<le> cv_max_messages cv \<and>
    (cv_messages cv \<noteq> [] \<and> cm_role (hd (cv_messages cv)) = System \<longrightarrow>
       cv_messages (foldl conversation_add cv msgs) \<noteq> [] \<and>
       hd (cv_messages (foldl conversation_add cv msgs)) = hd (cv_messages cv)) \<and>
    (msgs \<noteq> [] \<longrightarrow> last (cv_messages (foldl conversation_add cv msgs)) = last msgs)"
proof -
  have "conversation_ok cv" using assms by (simp add: conversation_ok_def)
  then have "conversation_ok (foldl conversation_add cv msgs)" by (rule conversation.run_inv)
  then have bound: "length (cv_messages (foldl conversation_add cv msgs)) \<le> cv_max_messages cv"
    using assms by (simp add: conversation_ok_def)
  have sys: "cv_messages cv \<noteq> [] \<Longrightarrow> cm_role (hd (cv_messages cv)) = System \<Longrightarrow>
      cv_messages (foldl conversation_add cv msgs) \<noteq> [] \<and>
      hd (cv_messages (foldl conversation_add cv msgs)) = hd (cv_messages cv)" for cv
  proof (induction msgs arbitrary: cv)
    case (Cons m msgs)
    from Cons.prems trim_messages_system [of "cv_messages cv @ [m]" "cv_max_messages cv"]
    show ?case using Cons.IH [of "conversation_add cv m"] by (simp add: conversation_add_def)
  qed simp
  have "msgs \<noteq> [] \<longrightarrow> last (cv_messages (foldl conversation_add cv msgs)) = last msgs"
    using assms(1) trim_messages_last
    by (cases msgs rule: rev_cases) (simp_all add: conversation_add_def)
  with bound sys show ?thesis by blast
qed

theorem conversation_bounded_witness:
  "cv_messages (foldl conversation_add (conversation_new 2) [msg_system ''s'', msg_user ''a'', msg_user ''b'']) =
     [msg_system ''s'', msg_user ''b''] \<and>
   length (cv_messages (foldl conversation_add (conversation_new 2)
     [msg_system ''s'', msg_user ''a'', msg_user ''b''])) \<le> 2"
  using conversation_bounded [of "conversation_new 2" "[msg_system ''s'', msg_user ''a'', msg_user ''b'']"]
  by (simp add: conversation_new_def conversation_add_def)

end
