(* ===== verification/Context_Manager.thy ===== *)
theory Context_Manager
  imports Job_State Context_Memory
begin

text \<open>
  The manager of all jobs, \<^verbatim>\<open>src/src/context/manager.rs\<close>.  Its two maps sit behind two locks;
  an operation that takes both locks one after the other is two steps, and other callers may run
  in between.
\<close>

record 'd context_manager =
  cx_contexts :: "(uuid \<times> 'd job_context) list"
  cx_memories :: "(uuid \<times> 'd memory) list"
  cx_max_jobs :: nat

definition context_manager_new :: "nat \<Rightarrow> 'd context_manager" where
  "context_manager_new max_jobs = \<lparr>cx_contexts = [], cx_memories = [], cx_max_jobs = max_jobs\<rparr>"

definition context_manager_default :: "'d context_manager" where
  "context_manager_default = context_manager_new 10"

definition active_count :: "'d context_manager \<Rightarrow> nat" where
  "active_count m = length (filter (\<lambda>(_, c). is_active (jc_state c)) (cx_contexts m))"

text \<open>The section of \<open>create_job_for_user\<close> under the write lock of the contexts.\<close>

definition insert_context ::
  "uuid \<Rightarrow> instant \<Rightarrow> ('d::zero) context_manager \<Rightarrow> string \<Rightarrow> string \<Rightarrow> string
     \<Rightarrow> 'd context_manager \<times> (job_error, uuid) result" where
  "insert_context new_id now m user_id title description =
     (if active_count m \<ge> cx_max_jobs m then (m, Err (MaxJobsExceeded (cx_max_jobs m)))
      else (m\<lparr>cx_contexts := AList.update new_id (with_user new_id now user_id title description)
                               (cx_contexts m)\<rparr>, Ok new_id))"

definition insert_memory :: "uuid \<Rightarrow> 'd context_manager \<Rightarrow> 'd context_manager" where
  "insert_memory job_id m =
     m\<lparr>cx_memories := AList.update job_id (memory_new job_id) (cx_memories m)\<rparr>"

definition create_job_for_user ::
  "uuid \<Rightarrow> instant \<Rightarrow> ('d::zero) context_manager \<Rightarrow> string \<Rightarrow> string \<Rightarrow> string
     \<Rightarrow> 'd context_manager \<times> (job_error, uuid) result" where
  "create_job_for_user new_id now m user_id title description =
     (case insert_context new_id now m user_id title description of
        (m', Err e) \<Rightarrow> (m', Err e)
      | (m', Ok job_id) \<Rightarrow> (insert_memory job_id m', Ok job_id))"

definition create_job ::
  "uuid \<Rightarrow> instant \<Rightarrow> ('d::zero) context_manager \<Rightarrow> string \<Rightarrow> string
     \<Rightarrow> 'd context_manager \<times> (job_error, uuid) result" where
  "create_job new_id now m title description =
     create_job_for_user new_id now m ''default'' title description"

definition get_context :: "'d context_manager \<Rightarrow> uuid \<Rightarrow> (job_error, 'd job_context) result" where
  "get_context m job_id =
     (case map_of (cx_contexts m) job_id of Some c \<Rightarrow> Ok c | None \<Rightarrow> Err (JobNotFound job_id))"

definition update_context ::
  "'d context_manager \<Rightarrow> uuid \<Rightarrow> ('d job_context \<Rightarrow> 'd job_context \<times> 'r)
     \<Rightarrow> 'd context_manager \<times> (job_error, 'r) result" where
  "update_context m job_id f =
     (case map_of (cx_contexts m) job_id of
        None \<Rightarrow> (m, Err (JobNotFound job_id))
      | Some c \<Rightarrow> (case f c of (c', r) \<Rightarrow>
          (m\<lparr>cx_contexts := AList.update job_id c' (cx_contexts m)\<rparr>, Ok r)))"

definition get_memory :: "'d context_manager \<Rightarrow> uuid \<Rightarrow> (job_error, 'd memory) result" where
  "get_memory m job_id =
     (case map_of (cx_memories m) job_id of Some c \<Rightarrow> Ok c | None \<Rightarrow> Err (JobNotFound job_id))"

definition update_memory ::
  "'d context_manager \<Rightarrow> uuid \<Rightarrow> ('d memory \<Rightarrow> 'd memory \<times> 'r)
     \<Rightarrow> 'd context_manager \<times> (job_error, 'r) result" where
  "update_memory m job_id f =
     (case map_of (cx_memories m) job_id of
        None \<Rightarrow> (m, Err (JobNotFound job_id))
      | Some c \<Rightarrow> (case f c of (c', r) \<Rightarrow>
          (m\<lparr>cx_memories := AList.update job_id c' (cx_memories m)\<rparr>, Ok r)))"

definition active_jobs :: "'d context_manager \<Rightarrow> uuid list" where
  "active_jobs m = map fst (filter (\<lambda>(_, c). is_active (jc_state c)) (cx_contexts m))"

definition all_jobs :: "'d context_manager \<Rightarrow> uuid list" where
  "all_jobs m = map fst (cx_contexts m)"

definition active_jobs_for :: "'d context_manager \<Rightarrow> string \<Rightarrow> uuid list" where
  "active_jobs_for m user_id =
     map fst (filter (\<lambda>(_, c). jc_user_id c = user_id \<and> is_active (jc_state c)) (cx_contexts m))"

definition all_jobs_for :: "'d context_manager \<Rightarrow> string \<Rightarrow> uuid list" where
  "all_jobs_for m user_id = map fst (filter (\<lambda>(_, c). jc_user_id c = user_id) (cx_contexts m))"

text \<open>\<open>remove_job\<close> takes the context out first; the error of the second lookup comes after that.\<close>

definition remove_context ::
  "'d context_manager \<Rightarrow> uuid \<Rightarrow> 'd context_manager \<times> (job_error, 'd job_context) result" where
  "remove_context m job_id =
     (case map_of (cx_contexts m) job_id of
        None \<Rightarrow> (m, Err (JobNotFound job_id))
      | Some c \<Rightarrow> (m\<lparr>cx_contexts := AList.delete job_id (cx_contexts m)\<rparr>, Ok c))"

definition remove_memory ::
  "'d context_manager \<Rightarrow> uuid \<Rightarrow> 'd context_manager \<times> (job_error, 'd memory) result" where
  "remove_memory m job_id =
     (case map_of (cx_memories m) job_id of
        None \<Rightarrow> (m, Err (JobNotFound job_id))
      | Some c \<Rightarrow> (m\<lparr>cx_memories := AList.delete job_id (cx_memories m)\<rparr>, Ok c))"

definition remove_job ::
  "'d context_manager \<Rightarrow> uuid
     \<Rightarrow> 'd context_manager \<times> (job_error, 'd job_context \<times> 'd memory) result" where
  "remove_job m job_id =
     (case remove_context m job_id of
        (m', Err e) \<Rightarrow> (m', Err e)
      | (m', Ok c) \<Rightarrow> (case remove_memory m' job_id of
            (m'', Err e) \<Rightarrow> (m'', Err e)
          | (m'', Ok mem) \<Rightarrow> (m'', Ok (c, mem))))"

definition find_stuck_jobs :: "'d context_manager \<Rightarrow> uuid list" where
  "find_stuck_jobs m = map fst (filter (\<lambda>(_, c). jc_state c = Stuck) (cx_contexts m))"

record context_summary =
  sm_total :: nat
  sm_pending :: nat
  sm_in_progress :: nat
  sm_completed :: nat
  sm_submitted :: nat
  sm_accepted :: nat
  sm_failed :: nat
  sm_stuck :: nat
  sm_cancelled :: nat

definition summary_default :: context_summary where
  "summary_default = \<lparr>sm_total = 0, sm_pending = 0, sm_in_progress = 0, sm_completed = 0,
     sm_submitted = 0, sm_accepted = 0, sm_failed = 0, sm_stuck = 0, sm_cancelled = 0\<rparr>"

fun summary_count :: "context_summary \<Rightarrow> job_state \<Rightarrow> context_summary" where
  "summary_count s Pending = s\<lparr>sm_pending := sm_pending s + 1\<rparr>"
| "summary_count s InProgress = s\<lparr>sm_in_progress := sm_in_progress s + 1\<rparr>"
| "summary_count s Completed = s\<lparr>sm_completed := sm_completed s + 1\<rparr>"
| "summary_count s Submitted = s\<lparr>sm_submitted := sm_submitted s + 1\<rparr>"
| "summary_count s Accepted = s\<lparr>sm_accepted := sm_accepted s + 1\<rparr>"
| "summary_count s Failed = s\<lparr>sm_failed := sm_failed s + 1\<rparr>"
| "summary_count s Stuck = s\<lparr>sm_stuck := sm_stuck s + 1\<rparr>"
| "summary_count s Cancelled = s\<lparr>sm_cancelled := sm_cancelled s + 1\<rparr>"

definition summary :: "'d context_manager \<Rightarrow> context_summary" where
  "summary m =
     (foldl (\<lambda>s (_, c). summary_count s (jc_state c)) summary_default (cx_contexts m))
       \<lparr>sm_total := length (cx_contexts m)\<rparr>"

definition summary_for :: "'d context_manager \<Rightarrow> string \<Rightarrow> context_summary" where
  "summary_for m user_id =
     (let s = foldl (\<lambda>s (_, c). summary_count s (jc_state c)) summary_default
                (filter (\<lambda>(_, c). jc_user_id c = user_id) (cx_contexts m))
      in s\<lparr>sm_total := sm_pending s + sm_in_progress s + sm_completed s + sm_submitted s +
                       sm_accepted s + sm_failed s + sm_stuck s + sm_cancelled s\<rparr>)"

section \<open>Interleaved callers\<close>

text \<open>
  One event per lock section.  Contexts are changed through \<open>update_context\<close> with an operation
  of \<open>JobContext\<close>: no other code assigns the state of a job.
\<close>

datatype 'd cx_event =
    InsertContext uuid instant string string string
  | InsertMemory uuid
  | UpdateContext uuid "'d job_event"
  | UpdateMemory uuid "'d memory \<Rightarrow> 'd memory"
  | RemoveContext uuid
  | RemoveMemory uuid

fun cx_step :: "('d::{plus,zero}) context_manager \<Rightarrow> 'd cx_event \<Rightarrow> 'd context_manager" where
  "cx_step m (InsertContext i n u t d) = fst (insert_context i n m u t d)"
| "cx_step m (InsertMemory i) = insert_memory i m"
| "cx_step m (UpdateContext i e) = fst (update_context m i (\<lambda>c. (job_step c e, ())))"
| "cx_step m (UpdateMemory i f) = fst (update_memory m i (\<lambda>c. (f c, ())))"
| "cx_step m (RemoveContext i) = fst (remove_context m i)"
| "cx_step m (RemoveMemory i) = fst (remove_memory m i)"

definition cx_wf :: "'d context_manager \<Rightarrow> bool" where
  "cx_wf m \<longleftrightarrow>
     distinct (map fst (cx_contexts m)) \<and> distinct (map fst (cx_memories m)) \<and>
     active_count m \<le> cx_max_jobs m \<and>
     (\<forall>(i, c) \<in> set (cx_contexts m). jc_job_id c = i \<and> job_wf c)"

lemma job_step_id [simp]: "jc_job_id (job_step c e) = jc_job_id c"
  by (cases e) (auto simp: job_op_defs Let_def stamp_times_def)

lemma job_step_active: "is_active (jc_state (job_step c e)) \<Longrightarrow> is_active (jc_state c)"
  using job_step_terminal [of c e] by (auto simp: is_active_def)

lemma insert_context_wf: "cx_wf m \<Longrightarrow> cx_wf (fst (insert_context i n m u t d))"
proof -
  assume wf: "cx_wf m"
  have "length (filter (\<lambda>(_, c). is_active (jc_state c))
      (AList.update i (with_user i n u t d) (cx_contexts m))) \<le> Suc (active_count m)"
    unfolding active_count_def by (rule length_filter_update_le)
  moreover have "jc_job_id (with_user i n u t d :: 'a job_context) = i" by (simp add: with_user_def)
  ultimately show ?thesis
    using wf set_update_subset [of i "with_user i n u t d" "cx_contexts m"] with_user_wf
    by (fastforce simp: cx_wf_def insert_context_def active_count_def distinct_update)
qed

lemma update_context_wf: "cx_wf m \<Longrightarrow> cx_wf (fst (update_context m i (\<lambda>c. (job_step c e, ()))))"
proof (cases "map_of (cx_contexts m) i")
  case (Some c)
  assume wf: "cx_wf m"
  then have c: "jc_job_id c = i" "job_wf c"
    using map_of_SomeD [OF Some] by (auto simp: cx_wf_def)
  have "length (filter (\<lambda>(_, c). is_active (jc_state c)) (AList.update i (job_step c e) (cx_contexts m)))
      \<le> active_count m"
    unfolding active_count_def
    by (rule length_filter_update_same [OF _ Some])
       (use wf job_step_active in \<open>auto simp: cx_wf_def\<close>)
  then show ?thesis
    using wf c Some set_update_subset [of i "job_step c e" "cx_contexts m"] job_step_wf [of c e]
    by (fastforce simp: cx_wf_def update_context_def active_count_def distinct_update)
qed (simp add: update_context_def)

lemma remove_context_wf: "cx_wf m \<Longrightarrow> cx_wf (fst (remove_context m i))"
proof (cases "map_of (cx_contexts m) i")
  case (Some c)
  assume wf: "cx_wf m"
  have "active_count (fst (remove_context m i)) \<le> active_count m"
    using Some by (simp add: remove_context_def active_count_def length_filter_delete_le)
  with wf Some set_delete_subset [of i "cx_contexts m"] show ?thesis
    by (auto simp: cx_wf_def remove_context_def distinct_delete)
qed (simp add: remove_context_def)

lemma cx_step_wf: "cx_wf m \<Longrightarrow> cx_wf (cx_step m e)"
proof (cases e)
  case (InsertMemory i)
  assume "cx_wf m"
  with InsertMemory show ?thesis
    by (simp add: insert_memory_def cx_wf_def active_count_def distinct_update)
next
  case (UpdateMemory i f)
  assume "cx_wf m"
  with UpdateMemory show ?thesis
    by (auto simp: update_memory_def cx_wf_def active_count_def distinct_update split: option.splits)
next
  case (RemoveMemory i)
  assume "cx_wf m"
  with RemoveMemory show ?thesis
    by (auto simp: remove_memory_def cx_wf_def active_count_def distinct_delete split: option.splits)
qed (simp_all add: insert_context_wf update_context_wf remove_context_wf)

interpretation cx: inv_machine "cx_step :: ('d::{plus,zero}) context_manager \<Rightarrow> 'd cx_event \<Rightarrow> 'd context_manager" cx_wf
  by unfold_locales (rule cx_step_wf)

lemma cx_step_max [simp]: "cx_max_jobs (cx_step m e) = cx_max_jobs m"
  by (cases e) (auto simp: insert_context_def insert_memory_def update_context_def
      update_memory_def remove_context_def remove_memory_def split: option.splits)

lemma cx_run_max [simp]: "cx_max_jobs (foldl cx_step m es) = cx_max_jobs m"
  by (induction es arbitrary: m) auto

definition state_tally :: "job_state \<Rightarrow> (uuid \<times> 'd job_context) list \<Rightarrow> nat" where
  "state_tally s cs = length (filter (\<lambda>(_, c). jc_state c = s) cs)"

lemma state_tally_simps [simp]:
  "state_tally s [] = 0"
  "state_tally s ((i, c) # cs) = (if jc_state c = s then 1 else 0) + state_tally s cs"
  by (auto simp: state_tally_def)

lemma summary_fold:
  "foldl (\<lambda>s (_, c). summary_count s (jc_state c)) s cs =
   s\<lparr>sm_pending := sm_pending s + state_tally Pending cs,
     sm_in_progress := sm_in_progress s + state_tally InProgress cs,
     sm_completed := sm_completed s + state_tally Completed cs,
     sm_submitted := sm_submitted s + state_tally Submitted cs,
     sm_accepted := sm_accepted s + state_tally Accepted cs,
     sm_failed := sm_failed s + state_tally Failed cs,
     sm_stuck := sm_stuck s + state_tally Stuck cs,
     sm_cancelled := sm_cancelled s + state_tally Cancelled cs\<rparr>"
proof (induction cs arbitrary: s)
  case (Cons e cs)
  then show ?case by (cases e; cases "jc_state (snd e)") auto
qed simp

lemma tally_total:
  "length cs = state_tally Pending cs + state_tally InProgress cs + state_tally Completed cs +
     state_tally Submitted cs + state_tally Accepted cs + state_tally Failed cs +
     state_tally Stuck cs + state_tally Cancelled cs"
proof (induction cs)
  case (Cons e cs)
  then show ?case by (cases e; cases "jc_state (snd e)") auto
qed simp

lemma tally_active:
  "length (filter (\<lambda>(_, c). is_active (jc_state c)) cs) =
     state_tally Pending cs + state_tally InProgress cs + state_tally Completed cs +
     state_tally Submitted cs + state_tally Stuck cs"
proof (induction cs)
  case (Cons e cs)
  then show ?case by (cases e; cases "jc_state (snd e)") (auto simp: is_active_def is_terminal_def)
qed simp

section \<open>Properties\<close>

text \<open>
  The limit on parallel jobs holds under every interleaving.  Starting from an empty manager,
  whatever sequence of lock sections its callers run, at most \<open>max_jobs\<close> jobs are active, every
  context is filed under its own id, and every job keeps the invariant of the job state machine.
\<close>

theorem max_jobs_respected:
  "cx_wf (foldl cx_step (context_manager_new mx) es) \<and>
   active_count (foldl cx_step (context_manager_new mx) es) \<le> mx"
proof -
  have "cx_wf (context_manager_new mx :: 'a context_manager)"
    by (simp add: cx_wf_def context_manager_new_def active_count_def)
  then have "cx_wf (foldl cx_step (context_manager_new mx) es)" by (rule cx.run_inv)
  then show ?thesis
    by (auto simp: cx_wf_def context_manager_new_def)
qed

text \<open>
  The summary is exact: its total is the number of jobs, it is the sum of the eight counters,
  each counter is the number of jobs in that state, and the five counters of active states add up
  to \<open>active_count\<close>.  The summary of a user counts that user's jobs.
\<close>

theorem summary_exact:
  "sm_total (summary m) = length (all_jobs m) \<and>
   sm_total (summary m) = sm_pending (summary m) + sm_in_progress (summary m) +
     sm_completed (summary m) + sm_submitted (summary m) + sm_accepted (summary m) +
     sm_failed (summary m) + sm_stuck (summary m) + sm_cancelled (summary m) \<and>
   sm_stuck (summary m) = length (find_stuck_jobs m) \<and>
   active_count m = sm_pending (summary m) + sm_in_progress (summary m) +
     sm_completed (summary m) + sm_submitted (summary m) + sm_stuck (summary m) \<and>
   sm_total (summary_for m u) = length (all_jobs_for m u)"
  using tally_total [of "cx_contexts m"]
    tally_total [of "filter (\<lambda>(_, c). jc_user_id c = u) (cx_contexts m)"]
  by (simp add: summary_def summary_for_def summary_fold summary_default_def all_jobs_def
      all_jobs_for_def active_count_def tally_active find_stuck_jobs_def state_tally_def [of Stuck] Let_def)

text \<open>
  Creating a job with a fresh id either fails with \<open>MaxJobsExceeded\<close> and changes nothing, or
  makes the new pending job and its empty memory retrievable under the returned id; removing it
  then returns exactly that context and memory and leaves no trace of the id.
\<close>

theorem create_then_remove:
  assumes "create_job_for_user i n m u t d = (m', r)"
  shows "(r = Err (MaxJobsExceeded (cx_max_jobs m)) \<and> m' = m \<and> cx_max_jobs m \<le> active_count m) \<or>
    (r = Ok i \<and> active_count m < cx_max_jobs m \<and>
     get_context m' i = Ok (with_user i n u t d) \<and> get_memory m' i = Ok (memory_new i) \<and>
     (\<exists>m''. remove_job m' i = (m'', Ok (with_user i n u t d, memory_new i)) \<and>
        get_context m'' i = Err (JobNotFound i) \<and> get_memory m'' i = Err (JobNotFound i)))"
  using assms
  by (auto simp: create_job_for_user_def insert_context_def insert_memory_def get_context_def
      get_memory_def remove_job_def remove_context_def remove_memory_def distinct_map_of_update
      split: if_splits)

theorem create_then_remove_witness:
  "get_context (fst (create_job_for_user 7 0 (context_manager_new 1 :: int context_manager) ''u'' ''t'' ''d'')) 7 =
     Ok (with_user 7 0 ''u'' ''t'' ''d'')"
  using create_then_remove [of 7 0 "context_manager_new 1 :: int context_manager" "''u''" "''t''" "''d''"
      "fst (create_job_for_user 7 0 (context_manager_new 1 :: int context_manager) ''u'' ''t'' ''d'')"
      "snd (create_job_for_user 7 0 (context_manager_new 1 :: int context_manager) ''u'' ''t'' ''d'')"]
  by (simp add: context_manager_new_def active_count_def)

text \<open>
  The two lock sections can be overtaken.  When a job is removed between the insertion of
  its context and of its memory, \<open>remove_job\<close> reports that the job does not exist although it has
  just taken its context away, and the memory inserted afterwards belongs to no job.
\<close>

theorem remove_during_create:
  assumes "insert_context i n m u t d = (m1, Ok i)" and "map_of (cx_memories m) i = None"
  shows "snd (remove_job m1 i) = Err (JobNotFound i) \<and>
    get_context (fst (remove_job m1 i)) i = Err (JobNotFound i) \<and>
    get_memory (insert_memory i (fst (remove_job m1 i))) i = Ok (memory_new i) \<and>
    get_context (insert_memory i (fst (remove_job m1 i))) i = Err (JobNotFound i)"
  using assms
  by (auto simp: insert_context_def insert_memory_def get_context_def get_memory_def remove_job_def
      remove_context_def remove_memory_def distinct_map_of_update split: if_splits)

theorem remove_during_create_witness:
  "snd (remove_job (fst (insert_context 7 0 (context_manager_new 1 :: int context_manager) ''u'' ''t'' ''d'')) 7) =
     Err (JobNotFound 7)"
  using remove_during_create [of 7 0 "context_manager_new 1 :: int context_manager" "''u''" "''t''" "''d''"
      "fst (insert_context 7 0 (context_manager_new 1 :: int context_manager) ''u'' ''t'' ''d'')"]
  by (simp add: context_manager_new_def insert_context_def active_count_def)

end
