(* ===== verification/Thread_Ops.thy ===== *)
theory Thread_Ops
  imports Session_Manager Submission Dispatcher Context_Manager
begin

text \<open>
  The handlers of \<^verbatim>\<open>src/src/agent/thread_ops.rs\<close> and the dispatch of one message in
  \<^verbatim>\<open>src/src/agent/agent_loop.rs\<close>.  A handler gets the session manager and the session of the
  message (the value behind its \<open>Arc<Mutex<_>>\<close>) and returns both.  The agentic loop is an argument;
  the theory Dispatcher provides it.  Other collaborators (tool execution, hooks, the safety layer,
  the router, the database, extensions) are the record \<open>agent_env\<close>.  Status messages and the
  fire-and-forget writes to the database are output only and left out.
\<close>

section \<open>The surroundings of the handlers\<close>

datatype auth_reply = Authenticated | AuthInvalid "string option" | AuthFailed string

record agent_env =
  ae_new_id :: uuid
  ae_now :: instant
  ae_execute :: "string \<Rightarrow> json \<Rightarrow> (string, string) result"
  ae_from_json :: "string \<Rightarrow> json option"
  ae_tool_content :: "string \<Rightarrow> string \<Rightarrow> string"
  ae_show_error :: "loop_error \<Rightarrow> string"
  ae_response_hook :: "string \<Rightarrow> hook_reply"
  ae_chain_id :: "uuid \<Rightarrow> string option"
  ae_shadow :: "string \<Rightarrow> string option"
  ae_invalid :: "string \<Rightarrow> string option"
  ae_policy_blocks :: "string \<Rightarrow> bool"
  ae_route :: "string \<Rightarrow> submission_result option"
  ae_reflex_tool :: "string \<Rightarrow> string option"
  ae_tool :: "string \<Rightarrow> tool_info option"
  ae_compact :: "thread \<Rightarrow> thread"
  ae_stop_job :: "uuid \<Rightarrow> bool"
  ae_stop_container :: "(uuid \<Rightarrow> bool) option"
  ae_auth :: "(string \<Rightarrow> string \<Rightarrow> auth_reply) option"
  ae_activate :: "string \<Rightarrow> (string, string list) result"
  ae_uuid_str :: "uuid \<Rightarrow> string"
  ae_parse_uuid :: "string \<Rightarrow> uuid option"
  ae_submission_json :: "string \<Rightarrow> submission option"
  ae_inbound_hook :: "string \<Rightarrow> hook_reply"
  ae_db_messages :: "(uuid \<Rightarrow> (string \<times> string) list) option"
  ae_db_response_id :: "uuid \<Rightarrow> string option"
  ae_new_session_id :: uuid
  ae_new_thread_id :: uuid
  ae_compact_command :: "thread \<Rightarrow> thread \<times> submission_result"
  ae_command :: "submission \<Rightarrow> (job_error, submission_result) result"

type_synonym handled = "(session_manager \<times> session) \<times> (job_error, submission_result) result"

definition put_undo :: "session_manager \<Rightarrow> uuid \<Rightarrow> undo_manager \<Rightarrow> session_manager" where
  "put_undo m tid u = m\<lparr>sm_undo_managers := AList.update tid u (sm_undo_managers m)\<rparr>"

definition put_thread :: "session \<Rightarrow> uuid \<Rightarrow> thread \<Rightarrow> session" where
  "put_thread s tid t = s\<lparr>ss_threads := AList.update tid t (ss_threads s)\<rparr>"

section \<open>Undo, redo, clear, interrupt, resume\<close>

definition process_undo :: "agent_env \<Rightarrow> session_manager \<Rightarrow> session \<Rightarrow> uuid \<Rightarrow> handled" where
  "process_undo env m s tid =
     (let (m, mgr) = get_undo_manager m tid
      in if \<not> can_undo mgr then ((m, s), Ok (ok_with_message ''Nothing to undo.''))
         else case map_of (ss_threads s) tid of
           None \<Rightarrow> ((m, s), Err (JobNotFound tid))
         | Some t \<Rightarrow>
             (case undo (ae_new_id env) mgr (turn_number t) (messages t) of
                (mgr, Some c) \<Rightarrow>
                  ((put_undo m tid mgr,
                    put_thread s tid (restore_from_messages (ae_now env) t (cp_messages c))),
                   Ok (ok_with_message (''Undone to turn '' @ nat_str (cp_turn_number c) @ ''. '' @
                         nat_str (undo_count mgr) @ '' undo(s) remaining.'')))
              | (mgr, None) \<Rightarrow> ((put_undo m tid mgr, s), Ok (SubError ''Undo failed.''))))"

definition process_redo :: "agent_env \<Rightarrow> session_manager \<Rightarrow> session \<Rightarrow> uuid \<Rightarrow> handled" where
  "process_redo env m s tid =
     (let (m, mgr) = get_undo_manager m tid
      in if \<not> can_redo mgr then ((m, s), Ok (ok_with_message ''Nothing to redo.''))
         else case map_of (ss_threads s) tid of
           None \<Rightarrow> ((m, s), Err (JobNotFound tid))
         | Some t \<Rightarrow>
             (case redo (ae_new_id env) mgr (turn_number t) (messages t) of
                (mgr, Some c) \<Rightarrow>
                  ((put_undo m tid mgr,
                    put_thread s tid (restore_from_messages (ae_now env) t (cp_messages c))),
                   Ok (ok_with_message (''Redone to turn '' @ nat_str (cp_turn_number c) @ ''.'')))
              | (mgr, None) \<Rightarrow> ((put_undo m tid mgr, s), Ok (SubError ''Redo failed.''))))"

definition canceled_jobs :: "agent_env \<Rightarrow> uuid list \<Rightarrow> nat" where
  "canceled_jobs env jobs =
     (\<Sum>j \<leftarrow> jobs. (if ae_stop_job env j then 1 else 0) +
        (case ae_stop_container env of Some stop \<Rightarrow> if stop j then 1 else 0 | None \<Rightarrow> 0))"

definition process_interrupt ::
  "agent_env \<Rightarrow> 'd context_manager \<Rightarrow> string \<Rightarrow> session_manager \<Rightarrow> session \<Rightarrow> uuid \<Rightarrow> handled" where
  "process_interrupt env jobs user_id m s tid =
     (case map_of (ss_threads s) tid of
        None \<Rightarrow> ((m, s), Err (JobNotFound tid))
      | Some t \<Rightarrow>
          if th_state t = thread_state.Processing \<or> th_state t = AwaitingApproval
          then let canceled = canceled_jobs env (active_jobs_for jobs user_id)
               in ((m, put_thread s tid (interrupt (ae_now env) t)),
                   Ok (ok_with_message
                     (if canceled > 0
                      then ''Interrupted. Requested cancellation for '' @ nat_str canceled @ '' active job(s).''
                      else ''Interrupted.'')))
          else ((m, s), Ok (ok_with_message ''Nothing to interrupt.'')))"

definition process_clear :: "session_manager \<Rightarrow> session \<Rightarrow> uuid \<Rightarrow> handled" where
  "process_clear m s tid =
     (case map_of (ss_threads s) tid of
        None \<Rightarrow> ((m, s), Err (JobNotFound tid))
      | Some t \<Rightarrow>
          let s' = put_thread s tid (t\<lparr>th_turns := [], th_state := Idle\<rparr>);
              (m', mgr) = get_undo_manager m tid
          in ((put_undo m' tid (undo_clear mgr), s'), Ok (ok_with_message ''Thread cleared.'')))"

definition process_resume :: "agent_env \<Rightarrow> session_manager \<Rightarrow> session \<Rightarrow> uuid \<Rightarrow> uuid \<Rightarrow> handled" where
  "process_resume env m s tid checkpoint_id =
     (let (m, mgr) = get_undo_manager m tid
      in case restore mgr checkpoint_id of
           (mgr, None) \<Rightarrow> ((put_undo m tid mgr, s), Ok (SubError ''Checkpoint not found.''))
         | (mgr, Some c) \<Rightarrow>
             (case map_of (ss_threads s) tid of
                None \<Rightarrow> ((put_undo m tid mgr, s), Err (JobNotFound tid))
              | Some t \<Rightarrow>
                  ((put_undo m tid mgr,
                    put_thread s tid (restore_from_messages (ae_now env) t (cp_messages c))),
                   Ok (ok_with_message (''Resumed from checkpoint: '' @ cp_description c)))))"

section \<open>Threads of a session\<close>

text \<open>These two fetch the session of the user themselves; here it is the one passed.\<close>

definition process_new_thread :: "agent_env \<Rightarrow> session_manager \<Rightarrow> session \<Rightarrow> handled" where
  "process_new_thread env m s =
     ((m, create_thread (ae_new_id env) (ae_now env) s),
      Ok (ok_with_message (''New thread: '' @ ae_uuid_str env (ae_new_id env))))"

definition process_switch_thread :: "agent_env \<Rightarrow> session_manager \<Rightarrow> session \<Rightarrow> uuid \<Rightarrow> handled" where
  "process_switch_thread env m s target =
     (case switch_thread (ae_now env) s target of
        (s', True) \<Rightarrow> ((m, s'), Ok (ok_with_message (''Switched to thread '' @ ae_uuid_str env target)))
      | (s', False) \<Rightarrow> ((m, s'), Ok (SubError ''Thread not found.'')))"

section \<open>Turns\<close>

definition persist_response_chain :: "agent_env \<Rightarrow> thread \<Rightarrow> thread" where
  "persist_response_chain env t =
     (case ae_chain_id env (th_id t) of
        Some rid \<Rightarrow> t\<lparr>th_last_response_id := Some rid\<rparr>
      | None \<Rightarrow> t)"

definition normalize_reflex_pattern :: "string \<Rightarrow> string" where
  "normalize_reflex_pattern input = join '' '' (split_whitespace (to_lowercase input))"

definition transform_response :: "agent_env \<Rightarrow> string \<Rightarrow> string" where
  "transform_response env response =
     (case ae_response_hook env response of
        HookRejected reason \<Rightarrow> ''[Response filtered: '' @ reason @ '']''
      | HookFailed err \<Rightarrow> ''[Response blocked by hook policy: '' @ err @ '']''
      | HookModified new_response \<Rightarrow> new_response
      | HookContinue \<Rightarrow> response)"

definition need_approval_result :: "pending_approval \<Rightarrow> submission_result" where
  "need_approval_result p =
     NeedApproval (pa_request_id p) (pa_tool_name p) (pa_description p) (pa_parameters p)"

text \<open>A turn answered without the loop: the shadow cache or a reflex tool.\<close>

definition quick_turn :: "agent_env \<Rightarrow> session \<Rightarrow> uuid \<Rightarrow> string \<Rightarrow> string \<Rightarrow> session" where
  "quick_turn env s tid content response =
     update_thread s tid (\<lambda>t. persist_response_chain env
       (complete_turn (ae_now env) (start_turn (ae_now env) t content) response))"

definition reflex_output :: "agent_env \<Rightarrow> session \<Rightarrow> string \<Rightarrow> string option" where
  "reflex_output env s content =
     (case ae_reflex_tool env (normalize_reflex_pattern content) of
        None \<Rightarrow> None
      | Some tool_name \<Rightarrow>
          (case ae_tool env tool_name of
             None \<Rightarrow> None
           | Some tool \<Rightarrow>
               let params = JObject [(''input'', JString content)] in
               if ti_requires_approval tool \<and>
                  (\<not> is_tool_auto_approved s tool_name \<or> ti_requires_approval_for tool params)
               then None
               else (case ae_execute env tool_name params of Ok output \<Rightarrow> Some output | Err _ \<Rightarrow> None)))"

definition finish_turn :: "agent_env \<Rightarrow> thread \<Rightarrow> loop_outcome \<Rightarrow> thread \<times> submission_result" where
  "finish_turn env t out =
     (if th_state t = thread_state.Interrupted then (t, SubInterrupted)
      else case out of
        Ok (LoopResponse response) \<Rightarrow>
          let response = transform_response env response
          in (persist_response_chain env (complete_turn (ae_now env) t response), Response response)
      | Ok (LoopNeedApproval p) \<Rightarrow> (await_approval (ae_now env) t p, need_approval_result p)
      | Err e \<Rightarrow> (fail_turn (ae_now env) t (ae_show_error env e), SubError (ae_show_error env e)))"

definition before_label :: "nat \<Rightarrow> string" where
  "before_label n = ''Before turn '' @ nat_str n"

text \<open>The turn proper: compaction, checkpoint, start, loop, finish.\<close>

definition run_turn ::
  "(session \<Rightarrow> uuid \<Rightarrow> chat_message list \<Rightarrow> bool \<Rightarrow> session \<times> loop_outcome) \<Rightarrow>
   agent_env \<Rightarrow> session_manager \<Rightarrow> session \<Rightarrow> uuid \<Rightarrow> string \<Rightarrow> handled" where
  "run_turn loop env m s tid content =
     (case map_of (ss_threads s) tid of
        None \<Rightarrow> ((m, s), Err (JobNotFound tid))
      | Some t \<Rightarrow>
          let t1 = ae_compact env t;
              (m1, mgr) = get_undo_manager m tid;
              m2 = put_undo m1 tid (um_checkpoint (ae_new_id env) mgr (turn_number t1) (messages t1)
                     (before_label (turn_number t1)));
              t2 = start_turn (ae_now env) t1 content;
              (s3, out) = loop (put_thread s tid t2) tid (messages t2) False
          in case map_of (ss_threads s3) tid of
               None \<Rightarrow> ((m2, s3), Err (JobNotFound tid))
             | Some t3 \<Rightarrow>
                 let (t4, r) = finish_turn env t3 out in ((m2, put_thread s3 tid t4), Ok r))"

definition process_user_input ::
  "(session \<Rightarrow> uuid \<Rightarrow> chat_message list \<Rightarrow> bool \<Rightarrow> session \<times> loop_outcome) \<Rightarrow>
   agent_env \<Rightarrow> session_manager \<Rightarrow> session \<Rightarrow> uuid \<Rightarrow> string \<Rightarrow> handled" where
  "process_user_input loop env m s tid content =
     (case map_of (ss_threads s) tid of
        None \<Rightarrow> ((m, s), Err (JobNotFound tid))
      | Some t \<Rightarrow>
          (case th_state t of
             thread_state.Processing \<Rightarrow>
               ((m, s), Ok (SubError ''Turn in progress. Use /interrupt to cancel.''))
           | AwaitingApproval \<Rightarrow>
               ((m, s), Ok (SubError ''Waiting for approval. Use /interrupt to cancel.''))
           | thread_state.Completed \<Rightarrow> ((m, s), Ok (SubError ''Thread completed. Use /thread new.''))
           | _ \<Rightarrow>
               (case ae_shadow env content of
                  Some cached \<Rightarrow> ((m, quick_turn env s tid content cached), Ok (Response cached))
                | None \<Rightarrow>
                    (case ae_invalid env content of
                       Some details \<Rightarrow>
                         ((m, s), Ok (SubError (''Input rejected by safety validation: '' @ details)))
                     | None \<Rightarrow>
                         if ae_policy_blocks env content
                         then ((m, s), Ok (SubError ''Input rejected by safety policy.''))
                         else case ae_route env content of
                           Some r \<Rightarrow> ((m, s), Ok r)
                         | None \<Rightarrow>
                             (case reflex_output env s content of
                                Some output \<Rightarrow>
                                  ((m, quick_turn env s tid content output), Ok (Response output))
                              | None \<Rightarrow> run_turn loop env m s tid content)))))"

section \<open>Approvals\<close>

text \<open>
  The handler calls the tool executor only through \<open>run_logged\<close>, which keeps the calls made so far,
  so the list a handler returns is what it really ran.
\<close>

type_synonym tool_run = "string \<times> json"

definition run_logged ::
  "agent_env \<Rightarrow> tool_run list \<Rightarrow> string \<Rightarrow> json \<Rightarrow> tool_run list \<times> (string, string) result" where
  "run_logged env used tool_name params = (used @ [(tool_name, params)], ae_execute env tool_name params)"

definition resume_approved ::
  "(session \<Rightarrow> uuid \<Rightarrow> chat_message list \<Rightarrow> bool \<Rightarrow> session \<times> loop_outcome) \<Rightarrow>
   agent_env \<Rightarrow> session \<Rightarrow> uuid \<Rightarrow> pending_approval \<Rightarrow>
   (session \<times> (job_error, submission_result) result) \<times> tool_run list" where
  "resume_approved loop env s tid p =
     (let (used, r) = run_logged env [] (pa_tool_name p) (pa_parameters p);
          s1 = update_thread s tid (\<lambda>t. thread_step t (record_event r))
      in case detect_auth_awaiting (ae_from_json env) (pa_tool_name p) r of
           Some (ext_name, instructions) \<Rightarrow>
             ((update_thread s1 tid (\<lambda>t. complete_turn (ae_now env)
                (enter_auth_mode (ae_now env) t ext_name) instructions), Ok (Response instructions)), used)
         | None \<Rightarrow>
             let content = (case r of Ok output \<Rightarrow> ae_tool_content env (pa_tool_name p) output
                                    | Err e \<Rightarrow> ''Error: '' @ e);
                 context_messages = pa_context_messages p @
                   [msg_tool_result (pa_tool_call_id p) (pa_tool_name p) content];
                 (s2, out) = loop s1 tid context_messages True
             in (case map_of (ss_threads s2) tid of
                  None \<Rightarrow> (s2, Err (JobNotFound tid))
                | Some t \<Rightarrow>
                    (case out of
                       Ok (LoopResponse response) \<Rightarrow>
                         (put_thread s2 tid (persist_response_chain env (complete_turn (ae_now env) t response)),
                          Ok (Response response))
                     | Ok (LoopNeedApproval p') \<Rightarrow>
                         (put_thread s2 tid (await_approval (ae_now env) t p'), Ok (need_approval_result p'))
                     | Err e \<Rightarrow>
                         (put_thread s2 tid (fail_turn (ae_now env) t (ae_show_error env e)),
                          Ok (SubError (ae_show_error env e)))), used))"

text \<open>The second component is the log of the tools this call runs itself, outside the loop.\<close>

definition process_approval ::
  "(session \<Rightarrow> uuid \<Rightarrow> chat_message list \<Rightarrow> bool \<Rightarrow> session \<times> loop_outcome) \<Rightarrow>
   agent_env \<Rightarrow> session_manager \<Rightarrow> session \<Rightarrow> uuid \<Rightarrow> uuid option \<Rightarrow> bool \<Rightarrow> bool \<Rightarrow>
   handled \<times> tool_run list" where
  "process_approval loop env m s tid request_id approved always =
     (case map_of (ss_threads s) tid of
        None \<Rightarrow> (((m, s), Err (JobNotFound tid)), [])
      | Some t \<Rightarrow>
          if th_state t \<noteq> AwaitingApproval
          then (((m, s), Ok (SubError ''No pending approval request.'')), [])
          else
            let (t1, pending) = take_pending_approval t; s1 = put_thread s tid t1
            in case pending of
                 None \<Rightarrow> (((m, s1), Ok (SubError ''No pending approval request.'')), [])
               | Some p \<Rightarrow>
                   if request_id \<noteq> None \<and> request_id \<noteq> Some (pa_request_id p)
                   then (((m, update_thread s1 tid (\<lambda>t. await_approval (ae_now env) t p)),
                          Ok (SubError ''Request ID mismatch. Use the correct request ID.'')), [])
                   else if approved
                   then let s2 = (if always then auto_approve_tool s1 (pa_tool_name p) else s1);
                            s3 = update_thread s2 tid (\<lambda>t. t\<lparr>th_state := thread_state.Processing\<rparr>);
                            ((s4, r), used) = resume_approved loop env s3 tid p
                        in (((m, s4), r), used)
                   else (((m, update_thread s1 tid (clear_pending_approval (ae_now env))),
                          Ok (Response (''Tool '' @ [CHR 0x27] @ pa_tool_name p @ [CHR 0x27] @
                            '' was rejected. The agent will not execute this tool.'' @ [CHR 0x0A, CHR 0x0A] @
                            ''You can continue the conversation or try a different approach.''))), []))"

section \<open>Authentication mode\<close>

definition process_auth_token ::
  "agent_env \<Rightarrow> session \<Rightarrow> uuid \<Rightarrow> pending_auth \<Rightarrow> string \<Rightarrow> session \<times> string option" where
  "process_auth_token env s tid extension_name token0 =
     (let token = trim token0;
          s1 = update_thread s tid (\<lambda>t. t\<lparr>th_pending_auth := None\<rparr>)
      in case ae_auth env of
           None \<Rightarrow> (s1, Some ''Extension manager not available.'')
         | Some auth \<Rightarrow>
             (case auth extension_name token of
                Authenticated \<Rightarrow>
                  (s1, Some (case ae_activate env extension_name of
                     Ok tools \<Rightarrow>
                       extension_name @ '' authenticated and activated ('' @ nat_str (length tools) @
                       '' tools loaded).'' @
                       (if tools = [] then [] else [CHR 0x0A, CHR 0x0A] @ ''Tools: '' @ join '', '' tools)
                   | Err e \<Rightarrow>
                       extension_name @ '' authenticated successfully, but activation failed: '' @ e @
                       ''. Try activating manually.''))
              | AuthInvalid instructions \<Rightarrow>
                  (update_thread s1 tid (\<lambda>t. enter_auth_mode (ae_now env) t extension_name),
                   Some (case instructions of Some i \<Rightarrow> i | None \<Rightarrow> ''Invalid token. Please try again.''))
              | AuthFailed e \<Rightarrow>
                  (s1, Some (''Authentication failed for '' @ extension_name @ '': '' @ e))))"

section \<open>One message\<close>

record incoming_message =
  im_user_id :: string
  im_channel :: string
  im_content :: string
  im_thread_id :: "string option"

definition db_chat_messages :: "(string \<times> string) list \<Rightarrow> chat_message list" where
  "db_chat_messages rows =
     concat (map (\<lambda>(role, content).
       if role = ''user'' then [msg_user content]
       else if role = ''assistant'' then [msg_assistant content] else []) rows)"

definition put_session :: "session_manager \<Rightarrow> string \<Rightarrow> session \<Rightarrow> session_manager" where
  "put_session m user_id s = m\<lparr>sm_sessions := AList.update user_id s (sm_sessions m)\<rparr>"

definition hydrated_thread :: "agent_env \<Rightarrow> uuid \<Rightarrow> uuid \<Rightarrow> thread" where
  "hydrated_thread env tid session_id =
     (let chat_messages = (case ae_db_messages env of Some db \<Rightarrow> db_chat_messages (db tid) | None \<Rightarrow> []);
          t = thread_with_id (ae_now env) tid session_id;
          t = (if chat_messages \<noteq> [] then restore_from_messages (ae_now env) t chat_messages else t)
      in case (if ae_db_messages env = None then None else ae_db_response_id env tid) of
           Some rid \<Rightarrow> t\<lparr>th_last_response_id := Some rid\<rparr>
         | None \<Rightarrow> t)"

definition maybe_hydrate_thread ::
  "agent_env \<Rightarrow> session_manager \<Rightarrow> incoming_message \<Rightarrow> string \<Rightarrow> session_manager" where
  "maybe_hydrate_thread env m message external =
     (case ae_parse_uuid env external of
        None \<Rightarrow> m
      | Some tid \<Rightarrow>
          let (m, s) = get_or_create_session (ae_new_session_id env) (ae_now env) m (im_user_id message)
          in if map_of (ss_threads s) tid \<noteq> None then m
             else
               let s' = (put_thread s tid (hydrated_thread env tid (ss_id s)))
                          \<lparr>ss_active_thread := Some tid, ss_last_active_at := ae_now env\<rparr>
               in register_thread (ae_uuid_str env) (put_session m (im_user_id message) s')
                    (im_user_id message) (im_channel message) tid s')"

text \<open>What the main loop does with the answer: \<open>None\<close> shuts the agent down.\<close>

definition reply_of :: "(job_error, submission_result) result \<Rightarrow> (job_error, string option) result" where
  "reply_of r =
     (case r of
        Err e \<Rightarrow> Err e
      | Ok (Response content) \<Rightarrow> Ok (Some content)
      | Ok (SubOk m) \<Rightarrow> Ok m
      | Ok (SubError e) \<Rightarrow> Ok (Some (''Error: '' @ e))
      | Ok SubInterrupted \<Rightarrow> Ok (Some ''Interrupted.'')
      | Ok (NeedApproval _ _ _ _) \<Rightarrow> Ok (Some []))"

definition dispatch ::
  "(session \<Rightarrow> uuid \<Rightarrow> chat_message list \<Rightarrow> bool \<Rightarrow> session \<times> loop_outcome) \<Rightarrow> agent_env \<Rightarrow>
   'd context_manager \<Rightarrow> string \<Rightarrow> session_manager \<Rightarrow> session \<Rightarrow> uuid \<Rightarrow> submission \<Rightarrow> handled" where
  "dispatch loop env jobs user_id m s tid submission =
     (case submission of
        UserInput content \<Rightarrow> process_user_input loop env m s tid content
      | SubUndo \<Rightarrow> process_undo env m s tid
      | SubRedo \<Rightarrow> process_redo env m s tid
      | SubInterrupt \<Rightarrow> process_interrupt env jobs user_id m s tid
      | Compact \<Rightarrow>
          (case map_of (ss_threads s) tid of
             None \<Rightarrow> ((m, s), Err (JobNotFound tid))
           | Some t \<Rightarrow> let (t', r) = ae_compact_command env t in ((m, put_thread s tid t'), Ok r))
      | Clear \<Rightarrow> process_clear m s tid
      | NewThread \<Rightarrow> process_new_thread env m s
      | SubSwitchThread target \<Rightarrow> process_switch_thread env m s target
      | SubResume checkpoint_id \<Rightarrow> process_resume env m s tid checkpoint_id
      | ExecApproval request_id approved always \<Rightarrow>
          fst (process_approval loop env m s tid (Some request_id) approved always)
      | ApprovalResponse approved always \<Rightarrow>
          fst (process_approval loop env m s tid None approved always)
      | _ \<Rightarrow> ((m, s), ae_command env submission))"

definition inbound ::
  "agent_env \<Rightarrow> submission \<Rightarrow> (string, submission) result" where
  "inbound env submission =
     (case submission of
        UserInput content \<Rightarrow>
          (case ae_inbound_hook env content of
             HookRejected reason \<Rightarrow> Err (''[Message rejected: '' @ reason @ '']'')
           | HookFailed err \<Rightarrow> Err (''[Message blocked by hook policy: '' @ err @ '']'')
           | HookModified new_content \<Rightarrow> Ok (UserInput new_content)
           | HookContinue \<Rightarrow> Ok submission)
      | _ \<Rightarrow> Ok submission)"

definition handle_message ::
  "(session \<Rightarrow> uuid \<Rightarrow> chat_message list \<Rightarrow> bool \<Rightarrow> session \<times> loop_outcome) \<Rightarrow> agent_env \<Rightarrow>
   'd context_manager \<Rightarrow> session_manager \<Rightarrow> incoming_message \<Rightarrow>
   session_manager \<times> (job_error, string option) result" where
  "handle_message loop env jobs m0 message =
     (case inbound env (parse (ae_parse_uuid env) (ae_submission_json env) (im_content message)) of
        Err refusal \<Rightarrow> (m0, Ok (Some refusal))
      | Ok submission \<Rightarrow>
          let m1 = (case im_thread_id message of
                      Some external \<Rightarrow> maybe_hydrate_thread env m0 message external
                    | None \<Rightarrow> m0);
              user_id = im_user_id message;
              (m, tid) = resolve_thread (ae_new_session_id env) (ae_new_thread_id env) (ae_now env) m1
                           user_id (im_channel message) (im_thread_id message)
          in case map_of (sm_sessions m) user_id of
               None \<Rightarrow> (m, Err (JobNotFound tid))
             | Some s \<Rightarrow>
                 (case (Option.bind (map_of (ss_threads s) tid) th_pending_auth, submission) of
                    (Some extension_name, UserInput content) \<Rightarrow>
                      let (s', reply) = process_auth_token env s tid extension_name content
                      in (put_session m user_id s', Ok reply)
                  | (auth, _) \<Rightarrow>
                      let s1 = (if auth = None then s
                                else update_thread s tid (\<lambda>t. t\<lparr>th_pending_auth := None\<rparr>))
                      in if submission = Quit then (put_session m user_id s1, Ok None)
                         else let ((m', s'), r) = dispatch loop env jobs user_id m s1 tid submission
                              in (put_session m' user_id s', reply_of r)))"

section \<open>Lemmas\<close>

lemma map_of_put_thread [simp]:
  "map_of (ss_threads (put_thread s tid t)) = (map_of (ss_threads s))(tid \<mapsto> t)"
  by (simp add: put_thread_def distinct_map_of_update)

lemma map_of_put_undo [simp]:
  "map_of (sm_undo_managers (put_undo m tid u)) = (map_of (sm_undo_managers m))(tid \<mapsto> u)"
  by (simp add: put_undo_def distinct_map_of_update)

lemma get_undo_manager_known:
  "map_of (sm_undo_managers m) tid = Some u \<Longrightarrow> get_undo_manager m tid = (m, u)"
  by (simp add: get_undo_manager_def)

lemma persist_response_chain_frame [simp]:
  "th_state (persist_response_chain env t) = th_state t"
  "th_turns (persist_response_chain env t) = th_turns t"
  "th_pending_approval (persist_response_chain env t) = th_pending_approval t"
  "messages (persist_response_chain env t) = messages t"
  by (simp_all add: persist_response_chain_def messages_def split: option.split)

lemma restore_state [simp]: "th_state (restore_from_messages n t ms) = Idle"
  by (simp add: restore_from_messages_def)

lemma turn_ends_state [simp]:
  "th_state (complete_turn n t r) = Idle" "th_state (fail_turn n t r) = Idle"
  "th_state (await_approval n t p) = AwaitingApproval"
  "th_pending_approval (await_approval n t p) = Some p"
  "th_state (start_turn n t c) = thread_state.Processing"
  by (simp_all add: complete_turn_def fail_turn_def await_approval_def start_turn_def)

definition settled :: "thread \<Rightarrow> bool" where
  "settled t \<longleftrightarrow> th_state t = Idle \<or> th_state t = thread_state.Interrupted \<or>
     th_state t = AwaitingApproval \<and> th_pending_approval t \<noteq> None"

lemma finish_turn_settled: "th_state t = thread_state.Processing \<Longrightarrow> settled (fst (finish_turn env t out))"
  by (auto simp: finish_turn_def settled_def Let_def split: sum.split agentic_loop_result.split)

lemma undo_after_checkpoint:
  assumes "0 < um_max_checkpoints u"
  shows "\<exists>st. um_undo_stack (um_checkpoint i u n ms d) = st @ [checkpoint_new i n ms d] \<and>
    um_redo_stack (um_checkpoint i u n ms d) = [] \<and> length st < um_max_checkpoints u"
proof -
  let ?xs = "um_undo_stack u @ [checkpoint_new i n ms d]"
  have "drop (length ?xs - um_max_checkpoints u) ?xs =
      drop (length ?xs - um_max_checkpoints u) (um_undo_stack u) @ [checkpoint_new i n ms d]"
    using assms by simp
  then show ?thesis using assms
    by (auto simp: um_checkpoint_def push_undo_def pop_front_while_over_drop)
qed

lemma checkpoint_max [simp]: "um_max_checkpoints (um_checkpoint i u n ms d) = um_max_checkpoints u"
  by (simp add: um_checkpoint_def push_undo_def)

lemma cp_messages_new [simp]: "cp_messages (checkpoint_new i n ms d) = ms"
  by (simp add: checkpoint_new_def)

lemma process_undo_known:
  assumes "map_of (sm_undo_managers m) tid = Some u" and "map_of (ss_threads s) tid = Some t"
    and "um_undo_stack u = st @ [c]"
  shows "fst (process_undo env m s tid) =
    (put_undo m tid (u\<lparr>um_redo_stack := um_redo_stack u @
        [checkpoint_new (ae_new_id env) (turn_number t) (messages t) (turn_label (turn_number t))],
      um_undo_stack := st\<rparr>),
     put_thread s tid (restore_from_messages (ae_now env) t (cp_messages c)))"
  using assms by (simp add: process_undo_def get_undo_manager_known can_undo_def undo_snoc)

lemma process_redo_known:
  assumes "map_of (sm_undo_managers m) tid = Some u" and "map_of (ss_threads s) tid = Some t"
    and "um_redo_stack u = st @ [c]" and "undo_ok u"
  shows "fst (process_redo env m s tid) =
    (put_undo m tid (u\<lparr>um_undo_stack := um_undo_stack u @
        [checkpoint_new (ae_new_id env) (turn_number t) (messages t) (turn_label (turn_number t))],
      um_redo_stack := st\<rparr>),
     put_thread s tid (restore_from_messages (ae_now env) t (cp_messages c)))"
  using assms by (simp add: process_redo_def get_undo_manager_known can_redo_def redo_snoc)

context turn_loop
begin

lemma run_turn_shape:
  assumes "map_of (ss_threads s) tid = Some t" and "map_of (sm_undo_managers m) tid = Some u"
    and "run_turn loop env m s tid content = ((m', s'), r)"
  shows "\<exists>t3 t4 out x. th_state t3 = thread_state.Processing \<and> finish_turn env t3 out = (t4, x) \<and> r = Ok x \<and>
    map_of (ss_threads s') tid = Some t4 \<and>
    m' = put_undo m tid (um_checkpoint (ae_new_id env) u (turn_number (ae_compact env t)) (messages (ae_compact env t))
      (before_label (turn_number (ae_compact env t))))"
proof -
  define t2 where "t2 = start_turn (ae_now env) (ae_compact env t) content"
  obtain s3 out where lo: "loop (put_thread s tid t2) tid (messages t2) False = (s3, out)" by fastforce
  have "map_of (ss_threads (put_thread s tid t2)) tid = Some t2" by simp
  from loop_thread [OF this, of "messages t2" False] obtain es where
    es: "\<forall>e \<in> set es. quiet_event e"
      "s3 = (put_thread s tid t2)\<lparr>ss_threads := AList.update tid (foldl thread_step t2 es) (ss_threads (put_thread s tid t2))\<rparr>"
    using lo by (metis fst_conv)
  then have t3: "map_of (ss_threads s3) tid = Some (foldl thread_step t2 es)"
    by (simp add: distinct_map_of_update)
  obtain t4 x where fin: "finish_turn env (foldl thread_step t2 es) out = (t4, x)" by fastforce
  have st: "th_state (foldl thread_step t2 es) = thread_state.Processing"
    using quiet_thread_frames [OF es(1), of t2] by (simp add: t2_def)
  have "m' = put_undo m tid (um_checkpoint (ae_new_id env) u (turn_number (ae_compact env t)) (messages (ae_compact env t))
      (before_label (turn_number (ae_compact env t)))) \<and> s' = put_thread s3 tid t4 \<and> r = Ok x"
    using assms(3) assms(1) lo t3 fin
    by (simp add: run_turn_def get_undo_manager_known [OF assms(2)] Let_def t2_def [symmetric])
  moreover from this have "map_of (ss_threads s') tid = Some t4" by simp
  ultimately show ?thesis using st fin by blast
qed

lemma process_user_input_settles:
  assumes "map_of (ss_threads s) tid = Some t" and "settled t"
    and "map_of (sm_undo_managers m) tid = Some u"
    and "process_user_input loop env m s tid content = ((m', s'), r)"
  shows "\<exists>t'. map_of (ss_threads s') tid = Some t' \<and> settled t'"
proof (cases "s' = s \<or> (\<exists>c. s' = quick_turn env s tid content c)")
  case True
  have "settled (persist_response_chain env (complete_turn (ae_now env) (start_turn (ae_now env) t content) c))" for c
    by (simp add: settled_def)
  with True assms(1,2) show ?thesis by (auto simp: quick_turn_def update_thread_def distinct_map_of_update)
next
  case False
  with assms(1,4) have "run_turn loop env m s tid content = ((m', s'), r)"
    by (auto simp: process_user_input_def split: thread_state.splits option.splits if_splits)
  from run_turn_shape [OF assms(1,3) this] show ?thesis by (metis finish_turn_settled fst_conv)
qed

lemma turn_undo_redo:
  assumes "map_of (ss_threads s) tid = Some t" and "map_of (sm_undo_managers m) tid = Some u"
    and "0 < um_max_checkpoints u"
    and "run_turn loop env m s tid content = ((m1, s1), r)"
    and "process_undo env1 m1 s1 tid = ((m2, s2), r2)"
    and "process_redo env2 m2 s2 tid = ((m3, s3), r3)"
  shows "\<exists>t1 t2 t3. map_of (ss_threads s1) tid = Some t1 \<and> map_of (ss_threads s2) tid = Some t2 \<and>
    map_of (ss_threads s3) tid = Some t3 \<and> th_state t2 = Idle \<and>
    messages t2 = messages (ae_compact env t) \<and> messages t3 = messages t1"
proof -
  let ?c = "ae_compact env t" and ?d = "before_label (turn_number (ae_compact env t))"
  let ?u = "um_checkpoint (ae_new_id env) u (turn_number ?c) (messages ?c) ?d"
  obtain t1 where t1: "map_of (ss_threads s1) tid = Some t1" "m1 = put_undo m tid ?u"
    using run_turn_shape [OF assms(1,2,4)] by blast
  then have u1: "map_of (sm_undo_managers m1) tid = Some ?u" by simp
  obtain st where st: "um_undo_stack ?u = st @ [checkpoint_new (ae_new_id env) (turn_number ?c) (messages ?c) ?d]"
    "um_redo_stack ?u = []" "length st < um_max_checkpoints u"
    using undo_after_checkpoint [OF assms(3)] by blast
  let ?cur = "checkpoint_new (ae_new_id env1) (turn_number t1) (messages t1) (turn_label (turn_number t1))"
  let ?u2 = "?u\<lparr>um_redo_stack := [] @ [?cur], um_undo_stack := st\<rparr>"
  let ?t2 = "restore_from_messages (ae_now env1) t1 (messages ?c)"
  have two: "map_of (sm_undo_managers m2) tid = Some ?u2" "map_of (ss_threads s2) tid = Some ?t2"
    using process_undo_known [OF u1 t1(1) st(1), of env1] assms(5) st(2) by auto
  have ok: "undo_ok ?u2" using st(3) by (simp add: undo_ok_def undo_count_def redo_count_def)
  have "\<exists>t3. map_of (ss_threads s3) tid = Some t3 \<and> messages t3 = messages t1"
    using process_redo_known [OF two _ ok, of "[]" ?cur env2] assms(6) by (auto simp: messages_restore)
  with t1 two show ?thesis by (simp add: messages_restore)
qed

end

section \<open>A sample agent\<close>

definition sample_agent :: agent_env where
  "sample_agent =
     \<lparr>ae_new_id = 50, ae_now = 5, ae_execute = (\<lambda>_ _. Ok ''out''), ae_from_json = (\<lambda>_. None),
      ae_tool_content = (\<lambda>_ c. c), ae_show_error = (\<lambda>_. ''err''), ae_response_hook = (\<lambda>_. HookContinue),
      ae_chain_id = (\<lambda>_. None), ae_shadow = (\<lambda>_. None), ae_invalid = (\<lambda>_. None),
      ae_policy_blocks = (\<lambda>_. False), ae_route = (\<lambda>_. None), ae_reflex_tool = (\<lambda>_. None),
      ae_tool = (\<lambda>_. None), ae_compact = (\<lambda>t. t), ae_stop_job = (\<lambda>_. True), ae_stop_container = None,
      ae_auth = None, ae_activate = (\<lambda>_. Ok []), ae_uuid_str = nat_str, ae_parse_uuid = (\<lambda>_. None),
      ae_submission_json = (\<lambda>_. None), ae_inbound_hook = (\<lambda>_. HookContinue), ae_db_messages = None,
      ae_db_response_id = (\<lambda>_. None), ae_new_session_id = 51, ae_new_thread_id = 52,
      ae_compact_command = (\<lambda>t. (t, SubInterrupted)), ae_command = (\<lambda>_. Ok SubInterrupted)\<rparr>"

definition sample_session :: session where
  "sample_session = create_thread 9 0 (session_new 2 0 ''u'')"

definition sample_sm :: session_manager where
  "sample_sm = put_undo session_manager_new 9 undo_manager_new"

lemma sample_facts:
  "map_of (ss_threads sample_session) 9 = Some (thread_new 9 0 2)" "settled (thread_new 9 0 2)"
  "map_of (sm_undo_managers sample_sm) 9 = Some undo_manager_new" "0 < um_max_checkpoints undo_manager_new"
  "ae_compact sample_agent = (\<lambda>t. t)" "messages (thread_new 9 0 2) = []"
  by (simp_all add: sample_agent_def messages_def sample_session_def create_thread_def session_new_def settled_def thread_new_def
      sample_sm_def undo_manager_new_def DEFAULT_MAX_CHECKPOINTS_def)

section \<open>Approvals, rejections, threads and tokens\<close>

lemma put_thread_update_thread:
  "map_of (ss_threads s) tid = Some t \<Longrightarrow> update_thread s tid f = put_thread s tid (f t)"
  by (simp add: update_thread_def put_thread_def)

lemma put_thread_put_thread [simp]: "put_thread (put_thread s tid t) tid t' = put_thread s tid t'"
  by (simp add: put_thread_def)

lemma update_put_thread [simp]: "update_thread (put_thread s tid t) tid f = put_thread s tid (f t)"
  by (simp add: put_thread_update_thread)

lemma update_thread_frame:
  assumes "\<And>t. g (f t) = g t"
  shows "map_option g (map_of (ss_threads (update_thread s tid f)) j) = map_option g (map_of (ss_threads s) j)"
  using assms by (auto simp: update_thread_def distinct_map_of_update split: option.split)

lemma process_auth_token_frame:
  assumes "process_auth_token env s tid ext token = (s', reply)"
  shows "map_option th_turns (map_of (ss_threads s') j) = map_option th_turns (map_of (ss_threads s) j)"
  using assms
  by (auto simp: process_auth_token_def Let_def update_thread_frame enter_auth_mode_def
      split: option.splits auth_reply.splits sum.splits)

lemma resolve_put_session:
  assumes "map_of (sm_sessions m) user_id = Some s" and "resolve_thread i j n m user_id ch ext = (m, tid)"
    and "map_of (sm_thread_map m) \<lparr>tk_user_id = user_id, tk_channel = ch, tk_external_thread_id = ext\<rparr> = Some tid"
    and "map_of (ss_threads s') tid \<noteq> None"
  shows "resolve_thread i' j' n' (put_session m user_id s') user_id ch ext = (put_session m user_id s', tid)"
  by (rule resolve_thread_known [where s = s'])
    (use assms in \<open>simp_all add: put_session_def distinct_map_of_update\<close>)

lemma resume_approved_executor:
  assumes "ex (pa_tool_name p) (pa_parameters p) = ae_execute env (pa_tool_name p) (pa_parameters p)"
  shows "resume_approved loop (env\<lparr>ae_execute := ex\<rparr>) s tid p = resume_approved loop env s tid p"
  using assms
  by (simp add: resume_approved_def run_logged_def persist_response_chain_def Let_def
      cong: option.case_cong sum.case_cong prod.case_cong agentic_loop_result.case_cong)

lemma resume_approved_loop:
  assumes "\<forall>s1. let ms = pa_context_messages p @ [msg_tool_result (pa_tool_call_id p) (pa_tool_name p)
        (case ae_execute env (pa_tool_name p) (pa_parameters p) of
           Ok output \<Rightarrow> ae_tool_content env (pa_tool_name p) output | Err e \<Rightarrow> ''Error: '' @ e)]
      in loop' s1 tid ms True = loop s1 tid ms True"
  shows "resume_approved loop' env s tid p = resume_approved loop env s tid p"
  using assms by (simp add: resume_approved_def run_logged_def Let_def cong: option.case_cong)

lemma resume_approved_log [simp]: "snd (resume_approved loop env s tid p) = [(pa_tool_name p, pa_parameters p)]"
  by (simp add: resume_approved_def run_logged_def Let_def split: option.split prod.split)

lemma process_approval_log:
  assumes "map_of (ss_threads s) tid = Some t"
  shows "snd (process_approval loop env m s tid request_id approved always) =
    (case th_pending_approval t of None \<Rightarrow> []
     | Some p \<Rightarrow> if approved \<and> th_state t = AwaitingApproval \<and> request_id \<in> {None, Some (pa_request_id p)}
                then [(pa_tool_name p, pa_parameters p)] else [])"
  using assms
  by (auto simp: process_approval_def take_pending_approval_def Let_def case_prod_beta split: option.split)

lemma process_approval_executor:
  assumes "map_of (ss_threads s) tid = Some t"
    and "\<And>p. th_pending_approval t = Some p \<Longrightarrow> th_state t = AwaitingApproval \<Longrightarrow> approved \<Longrightarrow>
      request_id \<in> {None, Some (pa_request_id p)} \<Longrightarrow>
      ex (pa_tool_name p) (pa_parameters p) = ae_execute env (pa_tool_name p) (pa_parameters p)"
  shows "process_approval loop (env\<lparr>ae_execute := ex\<rparr>) m s tid request_id approved always =
    process_approval loop env m s tid request_id approved always"
  using assms
  by (auto simp: process_approval_def take_pending_approval_def Let_def case_prod_beta resume_approved_executor
      split: option.split)

section \<open>Properties\<close>

text \<open>
  C11: A turn never leaves its thread in the processing state.  With the agent's own loop, user input
  on a settled thread (idle, interrupted, or waiting with its request stored) leaves the thread
  settled, whatever the model, the tools, the hooks and the safety layer answer.
\<close>

theorem user_input_settles:
  assumes "map_of (ss_threads s) tid = Some t" and "settled t"
    and "map_of (sm_undo_managers m) tid = Some u"
    and "process_user_input (chat_loop lenv) env m s tid content = ((m', s'), r)"
  shows "\<exists>t'. map_of (ss_threads s') tid = Some t' \<and> settled t'"
  by (rule dispatcher.process_user_input_settles [OF assms])

theorem user_input_settles_witness:
  "\<exists>t'. map_of (ss_threads (snd (fst (process_user_input (chat_loop sample_env) sample_agent sample_sm
     sample_session 9 ''hi'')))) 9 = Some t' \<and> settled t'"
proof -
  obtain m' s' r where "process_user_input (chat_loop sample_env) sample_agent sample_sm sample_session 9 ''hi'' =
      ((m', s'), r)" by (metis prod.exhaust)
  with user_input_settles [OF sample_facts(1-3) this] show ?thesis by simp
qed

text \<open>
  C3: Undo takes a turn back and redo brings it again.  After a full turn with the agent's loop, undo
  leaves the messages as they were before the turn (after compaction), with the thread idle, and
  redo gives the messages after the turn.
\<close>

theorem turn_then_undo_redo:
  assumes "map_of (ss_threads s) tid = Some t" and "map_of (sm_undo_managers m) tid = Some u"
    and "0 < um_max_checkpoints u"
    and "run_turn (chat_loop lenv) env m s tid content = ((m1, s1), r)"
    and "process_undo env1 m1 s1 tid = ((m2, s2), r2)"
    and "process_redo env2 m2 s2 tid = ((m3, s3), r3)"
  shows "\<exists>t1 t2 t3. map_of (ss_threads s1) tid = Some t1 \<and> map_of (ss_threads s2) tid = Some t2 \<and>
    map_of (ss_threads s3) tid = Some t3 \<and> th_state t2 = Idle \<and>
    messages t2 = messages (ae_compact env t) \<and> messages t3 = messages t1"
  by (rule dispatcher.turn_undo_redo [OF assms])

theorem turn_then_undo_redo_witness:
  "let x1 = run_turn (chat_loop sample_env) sample_agent sample_sm sample_session 9 ''hi'';
       x2 = process_undo sample_agent (fst (fst x1)) (snd (fst x1)) 9;
       x3 = process_redo sample_agent (fst (fst x2)) (snd (fst x2)) 9
   in map_option messages (map_of (ss_threads (snd (fst x2))) 9) = Some [] \<and>
      map_option messages (map_of (ss_threads (snd (fst x3))) 9) = map_option messages (map_of (ss_threads (snd (fst x1))) 9)"
proof -
  obtain m1 s1 r1 where 1: "run_turn (chat_loop sample_env) sample_agent sample_sm sample_session 9 ''hi'' = ((m1, s1), r1)"
    by (metis prod.exhaust)
  obtain m2 s2 r2 where 2: "process_undo sample_agent m1 s1 9 = ((m2, s2), r2)" by (metis prod.exhaust)
  obtain m3 s3 r3 where 3: "process_redo sample_agent m2 s2 9 = ((m3, s3), r3)" by (metis prod.exhaust)
  from turn_then_undo_redo [OF sample_facts(1,3,4) 1 2 3] show ?thesis
    by (auto simp: 1 2 3 Let_def sample_facts)
qed

text \<open>
  C2: An approval runs the pending tool and nothing else.  The log of the tools that processing an
  answer runs itself, outside the loop, is exactly the tool and the parameters of the stored request
  when the answer approves, the thread waits for approval and the id given with the answer (if any)
  is that request's, and empty otherwise.  The result depends on the executor only through the logged
  call: any other executor that agrees on it, and on a refusal or a wrong id any executor at all,
  gives the same session and the same reply.  The loop resumes on the stored context followed by
  the result of that call.  With a wrong id the request stays stored and the thread keeps waiting.
\<close>

theorem approval_runs_pending_only:
  assumes "map_of (ss_threads s) tid = Some t"
    and "process_approval loop env m s tid request_id approved always = (((m', s'), r), used)"
  shows "(used = (case th_pending_approval t of None \<Rightarrow> []
        | Some p \<Rightarrow> if approved \<and> th_state t = AwaitingApproval \<and> request_id \<in> {None, Some (pa_request_id p)}
                   then [(pa_tool_name p, pa_parameters p)] else [])) \<and>
    (\<forall>ex. (\<forall>(name, params) \<in> set used. ex name params = ae_execute env name params) \<longrightarrow>
      process_approval loop (env\<lparr>ae_execute := ex\<rparr>) m s tid request_id approved always = (((m', s'), r), used)) \<and>
    (\<forall>p loop'. th_pending_approval t = Some p \<and>
        (\<forall>s1. let ms = pa_context_messages p @ [msg_tool_result (pa_tool_call_id p) (pa_tool_name p)
                 (case ae_execute env (pa_tool_name p) (pa_parameters p) of
                    Ok output \<Rightarrow> ae_tool_content env (pa_tool_name p) output | Err e \<Rightarrow> ''Error: '' @ e)]
              in loop' s1 tid ms True = loop s1 tid ms True) \<longrightarrow>
      process_approval loop' env m s tid request_id approved always = (((m', s'), r), used)) \<and>
    (\<forall>p i. th_state t = AwaitingApproval \<and> th_pending_approval t = Some p \<and> request_id = Some i \<and> i \<noteq> pa_request_id p \<longrightarrow>
      (\<exists>t'. map_of (ss_threads s') tid = Some t' \<and> th_pending_approval t' = Some p \<and> th_state t' = AwaitingApproval \<and>
            th_turns t' = th_turns t))"
proof (intro conjI allI impI)
  show used: "used = (case th_pending_approval t of None \<Rightarrow> []
        | Some p \<Rightarrow> if approved \<and> th_state t = AwaitingApproval \<and> request_id \<in> {None, Some (pa_request_id p)}
                   then [(pa_tool_name p, pa_parameters p)] else [])"
    using process_approval_log [OF assms(1), of loop env m request_id approved always] assms(2) by simp
  show "process_approval loop (env\<lparr>ae_execute := ex\<rparr>) m s tid request_id approved always = (((m', s'), r), used)"
    if "\<forall>(name, params) \<in> set used. ex name params = ae_execute env name params" for ex
    using process_approval_executor [OF assms(1), of approved request_id ex env] that assms(2) used
    by (auto split: option.splits)
  show "process_approval loop' env m s tid request_id approved always = (((m', s'), r), used)"
    if "th_pending_approval t = Some p \<and>
        (\<forall>s1. let ms = pa_context_messages p @ [msg_tool_result (pa_tool_call_id p) (pa_tool_name p)
                 (case ae_execute env (pa_tool_name p) (pa_parameters p) of
                    Ok output \<Rightarrow> ae_tool_content env (pa_tool_name p) output | Err e \<Rightarrow> ''Error: '' @ e)]
              in loop' s1 tid ms True = loop s1 tid ms True)" for p loop'
    using that assms resume_approved_loop [of p env loop' tid loop]
    by (auto simp: process_approval_def take_pending_approval_def Let_def split: if_splits)
next
  fix p i
  assume "th_state t = AwaitingApproval \<and> th_pending_approval t = Some p \<and> request_id = Some i \<and> i \<noteq> pa_request_id p"
  with assms show "\<exists>t'. map_of (ss_threads s') tid = Some t' \<and> th_pending_approval t' = Some p \<and>
      th_state t' = AwaitingApproval \<and> th_turns t' = th_turns t"
    by (auto simp: process_approval_def take_pending_approval_def await_approval_def)
qed

definition sample_pending :: pending_approval where
  "sample_pending = \<lparr>pa_request_id = 77, pa_tool_name = ''shell'', pa_parameters = JNull,
     pa_description = ''d'', pa_tool_call_id = ''1'', pa_context_messages = []\<rparr>"

theorem approval_runs_pending_only_witness:
  "let s = put_thread sample_session 9 (await_approval 3 (thread_new 9 0 2) sample_pending);
       answer = process_approval (chat_loop sample_env) sample_agent sample_sm s 9
   in (\<exists>t'. map_of (ss_threads (snd (fst (fst (answer (Some 78) True False))))) 9 = Some t' \<and>
         th_pending_approval t' = Some sample_pending) \<and>
      snd (answer (Some 78) True False) = [] \<and> snd (answer (Some 77) False False) = [] \<and>
      snd (answer (Some 77) True False) = [(''shell'', JNull)]"
proof -
  let ?t = "await_approval 3 (thread_new 9 0 2) sample_pending"
  let ?s = "put_thread sample_session 9 ?t"
  let ?a = "process_approval (chat_loop sample_env) sample_agent sample_sm ?s 9"
  have t: "map_of (ss_threads ?s) 9 = Some ?t" by simp
  have id: "pa_request_id sample_pending = 77" "pa_tool_name sample_pending = ''shell''"
    "pa_parameters sample_pending = JNull" by (simp_all add: sample_pending_def)
  note only = approval_runs_pending_only [OF t, of "chat_loop sample_env" sample_agent sample_sm]
  obtain m1 s1 r1 u1 where 1: "?a (Some 78) True False = (((m1, s1), r1), u1)" by (metis prod.exhaust)
  obtain m2 s2 r2 u2 where 2: "?a (Some 77) False False = (((m2, s2), r2), u2)" by (metis prod.exhaust)
  obtain m3 s3 r3 u3 where 3: "?a (Some 77) True False = (((m3, s3), r3), u3)" by (metis prod.exhaust)
  have "\<exists>t'. map_of (ss_threads s1) 9 = Some t' \<and> th_pending_approval t' = Some sample_pending"
    using only [OF 1] id by auto
  moreover have "u1 = []" using only [OF 1] id by simp
  moreover have "u2 = []" using only [OF 2] id by simp
  moreover have "u3 = [(''shell'', JNull)]" using only [OF 3] id by simp
  ultimately show ?thesis by (simp add: 1 2 3)
qed

text \<open>
  Switching threads does not redirect messages.  Creating a thread or switching to one changes
  the active thread of the session, but a message is resolved by its channel and external id, so
  the next message of the same conversation goes to the thread it went to before.
\<close>

theorem new_thread_not_reached:
  assumes "resolve_thread i j n m0 user_id ch ext = (m, tid)" and "map_of (sm_sessions m) user_id = Some s"
    and "s' = snd (fst (process_new_thread env m s)) \<or> s' = snd (fst (process_switch_thread env m s target))"
  shows "resolve_thread i' j' n' (put_session m user_id s') user_id ch ext = (put_session m user_id s', tid)"
proof -
  from resolve_thread_found [OF assms(1)] assms(2) have k: "map_of (ss_threads s) tid \<noteq> None"
    "map_of (sm_thread_map m) \<lparr>tk_user_id = user_id, tk_channel = ch, tk_external_thread_id = ext\<rparr> = Some tid"
    by auto
  have "map_of (ss_threads s') tid \<noteq> None"
    using assms(3) k(1)
    by (auto simp: process_new_thread_def process_switch_thread_def switch_thread_def create_thread_def
        distinct_map_of_update split: if_splits)
  with k assms(2) show ?thesis by (intro resolve_put_session resolve_thread_known)
qed

theorem new_thread_not_reached_witness:
  "let (m, tid) = resolve_thread 7 2 0 session_manager_new ''u'' ''cli'' None;
       s = create_thread 2 0 (session_new 7 0 ''u'');
       s' = snd (fst (process_new_thread sample_agent m s))
   in ss_active_thread s' = Some 50 \<and>
      resolve_thread 3 4 5 (put_session m ''u'' s') ''u'' ''cli'' None = (put_session m ''u'' s', 2)"
proof -
  obtain m tid where r: "resolve_thread 7 2 0 session_manager_new ''u'' ''cli'' None = (m, tid)" by fastforce
  then have m: "tid = 2" "map_of (sm_sessions m) ''u'' = Some (create_thread 2 0 (session_new 7 0 ''u''))"
    by (auto simp: resolve_thread_def get_or_create_session_def session_manager_new_def fire_def Let_def)
  from new_thread_not_reached [OF r m(2), of "snd (fst (process_new_thread sample_agent m (create_thread 2 0 (session_new 7 0 ''u''))))"
      sample_agent 0 3 4 5] show ?thesis
    by (simp add: Let_def r m(1) process_new_thread_def create_thread_def sample_agent_def)
qed

text \<open>
  Tokens stay out of the history.  A message received in authentication mode changes the turns of
  no thread, whatever the extension answers, and is always answered.
\<close>

theorem auth_token_not_recorded:
  assumes "process_auth_token env s tid ext token = (s', reply)"
  shows "map_option th_turns (map_of (ss_threads s') j) = map_option th_turns (map_of (ss_threads s) j) \<and>
    map_option messages (map_of (ss_threads s') j) = map_option messages (map_of (ss_threads s) j) \<and> reply \<noteq> None"
proof -
  have "map_option th_turns (map_of (ss_threads s') j) = map_option th_turns (map_of (ss_threads s) j)"
    by (rule process_auth_token_frame [OF assms])
  moreover from this have "map_option messages (map_of (ss_threads s') j) = map_option messages (map_of (ss_threads s) j)"
    by (cases "map_of (ss_threads s') j"; cases "map_of (ss_threads s) j") (simp_all add: messages_def)
  moreover have "reply \<noteq> None" using assms
    by (auto simp: process_auth_token_def Let_def split: option.splits auth_reply.splits)
  ultimately show ?thesis by blast
qed

theorem auth_token_not_recorded_witness:
  "map_option th_turns (map_of (ss_threads (fst (process_auth_token sample_agent sample_session 9 ''gh'' '' secret ''))) 9) = Some []"
proof -
  obtain s' reply where p: "process_auth_token sample_agent sample_session 9 ''gh'' '' secret '' = (s', reply)" by fastforce
  from auth_token_not_recorded [OF p, of 9] show ?thesis by (simp add: p sample_facts(1) thread_new_def)
qed

end
