(* ===== verification/Circuit_Breaker.thy ===== *)
theory Circuit_Breaker
  imports Llm_Types
begin

text \<open>
  The circuit breaker of \<^verbatim>\<open>src/src/llm/circuit_breaker.rs\<close>.  Each of its three internal operations
  holds the lock of the state, so concurrent calls interleave at their boundaries; the wrapped
  provider is an argument.  The printing of the remaining seconds is the parameter \<open>fmt\<close>.
\<close>

section \<open>State and operations\<close>

record circuit_breaker_config =
  cc_failure_threshold :: u32
  cc_recovery_timeout :: duration
  cc_half_open_successes_needed :: u32

definition circuit_breaker_config_default :: circuit_breaker_config where
  "circuit_breaker_config_default =
     \<lparr>cc_failure_threshold = 5, cc_recovery_timeout = 30 * SECS, cc_half_open_successes_needed = 2\<rparr>"

datatype circuit_state = Closed | Open | HalfOpen

record breaker_state =
  bs_state :: circuit_state
  bs_consecutive_failures :: u32
  bs_opened_at :: "instant option"
  bs_half_open_successes :: u32

definition breaker_new :: breaker_state where
  "breaker_new =
     \<lparr>bs_state = Closed, bs_consecutive_failures = 0, bs_opened_at = None, bs_half_open_successes = 0\<rparr>"

definition u32_str :: "u32 \<Rightarrow> string" where
  "u32_str n = nat_str (unat n)"

definition cb_check_allowed ::
  "circuit_breaker_config \<Rightarrow> (duration \<Rightarrow> string) \<Rightarrow> string \<Rightarrow> instant \<Rightarrow> breaker_state \<Rightarrow>
   breaker_state \<times> (llm_error, unit) result" where
  "cb_check_allowed cfg fmt model now b =
     (case bs_state b of
        Closed \<Rightarrow> (b, Ok ())
      | HalfOpen \<Rightarrow> (b, Ok ())
      | Open \<Rightarrow>
          (case bs_opened_at b of
             Some opened_at \<Rightarrow>
               if now - opened_at \<ge> cc_recovery_timeout cfg
               then (b\<lparr>bs_state := HalfOpen, bs_half_open_successes := 0\<rparr>, Ok ())
               else (b, Err (RequestFailed model
                      (''Circuit breaker open ('' @ u32_str (bs_consecutive_failures b) @
                       '' consecutive failures, recovery in '' @
                       fmt (cc_recovery_timeout cfg - (now - opened_at)) @ ''s)'')))
           | None \<Rightarrow> (b\<lparr>bs_state := Closed\<rparr>, Ok ())))"

definition cb_record_success :: "circuit_breaker_config \<Rightarrow> breaker_state \<Rightarrow> breaker_state" where
  "cb_record_success cfg b =
     (case bs_state b of
        Closed \<Rightarrow> b\<lparr>bs_consecutive_failures := 0\<rparr>
      | HalfOpen \<Rightarrow>
          let b = b\<lparr>bs_half_open_successes := bs_half_open_successes b + 1\<rparr>
          in if bs_half_open_successes b \<ge> cc_half_open_successes_needed cfg
             then b\<lparr>bs_state := Closed, bs_consecutive_failures := 0, bs_opened_at := None\<rparr>
             else b
      | Open \<Rightarrow> b\<lparr>bs_state := Closed, bs_consecutive_failures := 0, bs_opened_at := None\<rparr>)"

fun is_transient :: "llm_error \<Rightarrow> bool" where
  "is_transient (RequestFailed _ _) = True"
| "is_transient (RateLimited _ _) = True"
| "is_transient (InvalidResponse _ _) = True"
| "is_transient (SessionExpired _) = True"
| "is_transient (SessionRenewalFailed _ _) = True"
| "is_transient (Http _) = True"
| "is_transient (Json _) = True"
| "is_transient (Io _) = True"
| "is_transient _ = False"

definition cb_record_failure ::
  "circuit_breaker_config \<Rightarrow> instant \<Rightarrow> breaker_state \<Rightarrow> llm_error \<Rightarrow> breaker_state" where
  "cb_record_failure cfg now b err =
     (if \<not> is_transient err then b
      else case bs_state b of
        Closed \<Rightarrow>
          let b = b\<lparr>bs_consecutive_failures := bs_consecutive_failures b + 1\<rparr>
          in if bs_consecutive_failures b \<ge> cc_failure_threshold cfg
             then b\<lparr>bs_state := Open, bs_opened_at := Some now\<rparr>
             else b
      | HalfOpen \<Rightarrow> b\<lparr>bs_state := Open, bs_opened_at := Some now, bs_half_open_successes := 0\<rparr>
      | Open \<Rightarrow> b)"

text \<open>One call, alone: the clock is read before the call and, on failure, after it.\<close>

definition cb_complete ::
  "circuit_breaker_config \<Rightarrow> (duration \<Rightarrow> string) \<Rightarrow> string \<Rightarrow>
   ('p \<Rightarrow> completion_request \<Rightarrow> 'p \<times> (llm_error, completion_response) result) \<Rightarrow>
   instant \<Rightarrow> instant \<Rightarrow> breaker_state \<times> 'p \<Rightarrow> completion_request \<Rightarrow>
   (breaker_state \<times> 'p) \<times> (llm_error, completion_response) result" where
  "cb_complete cfg fmt model inner now later s request =
     (case cb_check_allowed cfg fmt model now (fst s) of
        (b, Err e) \<Rightarrow> ((b, snd s), Err e)
      | (b, Ok _) \<Rightarrow>
          (case inner (snd s) request of
             (p, Ok resp) \<Rightarrow> ((cb_record_success cfg b, p), Ok resp)
           | (p, Err err) \<Rightarrow> ((cb_record_failure cfg later b err, p), Err err)))"

section \<open>The machine of the breaker\<close>

datatype breaker_event = CheckAllowed instant | Success | Failure llm_error instant

fun breaker_step :: "circuit_breaker_config \<Rightarrow> breaker_state \<Rightarrow> breaker_event \<Rightarrow> breaker_state" where
  "breaker_step cfg b (CheckAllowed now) = fst (cb_check_allowed cfg (\<lambda>_. []) [] now b)"
| "breaker_step cfg b Success = cb_record_success cfg b"
| "breaker_step cfg b (Failure err now) = cb_record_failure cfg now b err"

text \<open>The counters stay below the limits of the configuration, so they never wrap, and an open
  circuit knows when it was opened, so the recovery branch of \<open>check_allowed\<close> is dead code.\<close>

definition breaker_ok :: "circuit_breaker_config \<Rightarrow> breaker_state \<Rightarrow> bool" where
  "breaker_ok cfg b \<longleftrightarrow>
     (bs_state b = Closed \<longrightarrow> cc_failure_threshold cfg = 0 \<or> bs_consecutive_failures b < cc_failure_threshold cfg) \<and>
     (bs_state b = Open \<longrightarrow> bs_opened_at b \<noteq> None) \<and>
     (bs_state b = HalfOpen \<longrightarrow> cc_half_open_successes_needed cfg = 0 \<or>
        bs_half_open_successes b < cc_half_open_successes_needed cfg)"

lemma breaker_step_ok: "breaker_ok cfg b \<Longrightarrow> breaker_ok cfg (breaker_step cfg b e)"
proof (cases e)
  case (CheckAllowed now)
  assume "breaker_ok cfg b"
  with CheckAllowed show ?thesis
    by (cases "bs_state b")
      (auto simp: breaker_ok_def cb_check_allowed_def word_gt_0 split: option.splits)
next
  case Success
  assume "breaker_ok cfg b"
  with Success show ?thesis
    by (cases "bs_state b") (auto simp: breaker_ok_def cb_record_success_def Let_def word_gt_0 not_le)
next
  case (Failure err now)
  assume "breaker_ok cfg b"
  with Failure show ?thesis
    by (cases "bs_state b") (auto simp: breaker_ok_def cb_record_failure_def Let_def not_le)
qed

interpretation breaker: inv_machine "breaker_step cfg" "breaker_ok cfg" for cfg
  by unfold_locales (rule breaker_step_ok)

lemma breaker_new_ok: "breaker_ok cfg breaker_new"
  by (simp add: breaker_ok_def breaker_new_def word_gt_0)

section \<open>Consecutive failures\<close>

lemma failures_count:
  assumes "\<forall>(e, n) \<in> set es. is_transient e" and "length es < unat (cc_failure_threshold cfg)"
  shows "foldl (breaker_step cfg) breaker_new (map (\<lambda>(e, n). Failure e n) es) =
    breaker_new\<lparr>bs_consecutive_failures := of_nat (length es)\<rparr>"
  using assms
proof (induction es rule: rev_induct)
  case (snoc x es)
  obtain e n where x: "x = (e, n)" by fastforce
  let ?k = "of_nat (length es) :: u32"
  have lt: "unat (?k + 1) = Suc (length es)"
  proof -
    have "Suc (length es) < 2 ^ 32"
      using snoc.prems(2) unat_lt_2p [of "cc_failure_threshold cfg"] by simp
    then have "unat (of_nat (Suc (length es)) :: u32) = Suc (length es)" by (intro unat_of_nat_small) simp
    then show ?thesis by (simp add: add.commute)
  qed
  then have "\<not> cc_failure_threshold cfg \<le> ?k + 1"
    using snoc.prems(2) by (simp add: word_le_nat_alt)
  with snoc x show ?case
    by (simp add: cb_record_failure_def breaker_new_def Let_def add.commute)
qed (simp add: breaker_new_def)

definition failures_in_row :: "breaker_event list \<Rightarrow> nat" where
  "failures_in_row es =
     length (filter (\<lambda>e. case e of Failure err _ \<Rightarrow> is_transient err | _ \<Rightarrow> False) (takeWhile (\<lambda>e. e \<noteq> Success) (rev es)))"

lemma failures_in_row_snoc [simp]:
  "failures_in_row (es @ [Success]) = 0" "failures_in_row (es @ [CheckAllowed n]) = failures_in_row es"
  "failures_in_row (es @ [Failure err n]) = (if is_transient err then Suc (failures_in_row es) else failures_in_row es)"
  by (simp_all add: failures_in_row_def)

lemma next_count: "(k :: u32) < n \<Longrightarrow> unat (k + 1) = Suc (unat k)"
proof -
  assume "k < n"
  then have "Suc (unat k) < 2 ^ LENGTH(32)" using unat_lt_2p [of n] by (simp add: word_less_nat_alt)
  then have "unat (of_nat (Suc (unat k)) :: u32) = Suc (unat k)" by (rule unat_of_nat_small)
  then show ?thesis by (simp add: add.commute)
qed

text \<open>A closed circuit counts the transient failures since the last success: only a success closes a circuit.\<close>

lemma row_counted:
  "bs_state (foldl (breaker_step cfg) breaker_new es) = Closed \<longrightarrow>
   unat (bs_consecutive_failures (foldl (breaker_step cfg) breaker_new es)) = failures_in_row es"
proof (induction es rule: rev_induct)
  case (snoc e es)
  define b where "b = foldl (breaker_step cfg) breaker_new es"
  have ok: "breaker_ok cfg b" unfolding b_def by (rule breaker.run_inv) (rule breaker_new_ok)
  have ih: "bs_state b = Closed \<Longrightarrow> unat (bs_consecutive_failures b) = failures_in_row es" using snoc by (simp add: b_def)
  have "bs_state (breaker_step cfg b e) = Closed \<longrightarrow> unat (bs_consecutive_failures (breaker_step cfg b e)) = failures_in_row (es @ [e])"
  proof (cases e)
    case (CheckAllowed n)
    then show ?thesis using ok ih by (cases "bs_state b") (auto simp: cb_check_allowed_def breaker_ok_def split: option.splits)
  next
    case Success
    then show ?thesis by (cases "bs_state b") (auto simp: cb_record_success_def Let_def)
  next
    case (Failure err n)
    then show ?thesis using ok ih next_count [of "bs_consecutive_failures b" "cc_failure_threshold cfg"]
      by (cases "bs_state b") (auto simp: cb_record_failure_def breaker_ok_def Let_def)
  qed
  then show ?case by (simp add: b_def)
qed (simp add: breaker_new_def failures_in_row_def)

section \<open>Properties\<close>

text \<open>
  The breaker keeps its books.  After any interleaving of checks, successes and failures of
  concurrent calls, a closed circuit has fewer failures than the threshold, a half-open one
  fewer successes than needed, and an open one knows when it opened, so no counter overflows
  and the recovery branch for a missing time is never taken.
\<close>

theorem breaker_invariant: "breaker_ok cfg (foldl (breaker_step cfg) breaker_new es)"
  by (rule breaker.run_inv) (rule breaker_new_ok)

text \<open>
  C38: As many transient failures in a row as the threshold open the circuit, and not one fewer.  After any interleaving of
  checks, successes and failures, with the circuit closed, the next transient failure opens it exactly if with it the
  transient failures since the last success reach the threshold; other failures change nothing.  While the circuit is
  open and no call that was admitted before succeeds, every check before the recovery timeout is refused and changes nothing, a
  later one lets a probe through and leaves the circuit half open, and failures change nothing; a success of an
  earlier call closes it at once.  In the half-open state a transient failure opens the circuit again.
\<close>

theorem breaker_trips:
  assumes "b = foldl (breaker_step cfg) breaker_new es"
    and "transient = (\<lambda>e. case e of llm_error.AuthFailed _ \<Rightarrow> False | ContextLengthExceeded _ _ \<Rightarrow> False | ModelNotAvailable _ _ \<Rightarrow> False | _ \<Rightarrow> True)"
    and "row = length (filter (\<lambda>e. case e of Failure err _ \<Rightarrow> transient err | _ \<Rightarrow> False) (takeWhile (\<lambda>e. e \<noteq> Success) (rev es)))"
  shows "(bs_state b = Closed \<and> transient err \<longrightarrow>
      (if unat (cc_failure_threshold cfg) \<le> Suc row
       then bs_state (cb_record_failure cfg t b err) = Open \<and> bs_opened_at (cb_record_failure cfg t b err) = Some t
       else bs_state (cb_record_failure cfg t b err) = Closed)) \<and>
    (\<not> transient err \<longrightarrow> cb_record_failure cfg t b err = b) \<and>
    (bs_state b = Open \<longrightarrow> (\<exists>opened. bs_opened_at b = Some opened \<and>
       (\<forall>now. opened \<le> now \<and> now < opened + cc_recovery_timeout cfg \<longrightarrow> (\<exists>e. cb_check_allowed cfg fmt model now b = (b, Err e))) \<and>
       (\<forall>now. opened + cc_recovery_timeout cfg \<le> now \<longrightarrow> snd (cb_check_allowed cfg fmt model now b) = Ok () \<and>
          bs_state (fst (cb_check_allowed cfg fmt model now b)) = HalfOpen) \<and>
       cb_record_failure cfg t b err = b \<and> bs_state (cb_record_success cfg b) = Closed)) \<and>
    (bs_state b = HalfOpen \<and> transient err \<longrightarrow>
       bs_state (cb_record_failure cfg t b err) = Open \<and> bs_opened_at (cb_record_failure cfg t b err) = Some t)"
proof -
  have tr: "transient e = is_transient e" for e unfolding assms(2) by (cases e) simp_all
  have row: "row = failures_in_row es" unfolding assms(3) failures_in_row_def tr ..
  have ok: "breaker_ok cfg b" unfolding assms(1) by (rule breaker.run_inv) (rule breaker_new_ok)
  have closed: "bs_state b = Closed \<Longrightarrow> unat (bs_consecutive_failures b) = row"
    using row_counted [of cfg es] unfolding assms(1) row by simp
  have open': "bs_state b = Open \<Longrightarrow> \<exists>opened. bs_opened_at b = Some opened" using ok by (auto simp: breaker_ok_def)
  have "unat (bs_consecutive_failures b + 1) = Suc row \<and>
      (cc_failure_threshold cfg \<le> bs_consecutive_failures b + 1 \<longleftrightarrow> unat (cc_failure_threshold cfg) \<le> Suc row)
      \<or> cc_failure_threshold cfg = 0" if "bs_state b = Closed"
    using ok that closed [OF that] next_count [of "bs_consecutive_failures b" "cc_failure_threshold cfg"]
    by (auto simp: breaker_ok_def word_le_nat_alt)
  note counted = this
  have waits: "\<exists>e. cb_check_allowed cfg fmt model now b = (b, Err e)"
    if "bs_state b = Open" "bs_opened_at b = Some opened" "opened \<le> now \<and> now < opened + cc_recovery_timeout cfg" for opened now
  proof -
    have "\<not> cc_recovery_timeout cfg \<le> now - opened" using that(3) by linarith
    with that show ?thesis by (simp add: cb_check_allowed_def)
  qed
  have probes: "snd (cb_check_allowed cfg fmt model now b) = Ok () \<and> bs_state (fst (cb_check_allowed cfg fmt model now b)) = HalfOpen"
    if "bs_state b = Open" "bs_opened_at b = Some opened" "opened + cc_recovery_timeout cfg \<le> now" for opened now
  proof -
    have "cc_recovery_timeout cfg \<le> now - opened" using that(3) by linarith
    with that show ?thesis by (simp add: cb_check_allowed_def)
  qed
  have trips: "if unat (cc_failure_threshold cfg) \<le> Suc row
       then bs_state (cb_record_failure cfg t b err) = Open \<and> bs_opened_at (cb_record_failure cfg t b err) = Some t
       else bs_state (cb_record_failure cfg t b err) = Closed" if "bs_state b = Closed" "is_transient err"
    using counted [OF that(1)] that by (auto simp: cb_record_failure_def Let_def)
  show ?thesis
    unfolding tr using open' waits probes trips by (auto simp: cb_record_failure_def cb_record_success_def)
qed

theorem breaker_trips_witness:
  "let es = [Failure (Http ''x'') 1, Failure (Io ''x'') 2, Success, Failure (Http ''x'') 3,
         Failure (Http ''x'') 4, CheckAllowed 5, Failure (Json ''x'') 5, Failure (Http ''x'') 6];
       b = foldl (breaker_step circuit_breaker_config_default) breaker_new es
   in bs_state b = Closed \<and> bs_state (cb_record_failure circuit_breaker_config_default 7 b (Io ''y'')) = Open"
proof -
  let ?cfg = circuit_breaker_config_default
  define es where "es = [Failure (Http ''x'') 1, Failure (Io ''x'') 2, Success, Failure (Http ''x'') 3,
         Failure (Http ''x'') 4, CheckAllowed 5, Failure (Json ''x'') 5, Failure (Http ''x'') 6]"
  define tr where "tr = (\<lambda>e. case e of llm_error.AuthFailed _ \<Rightarrow> False | ContextLengthExceeded _ _ \<Rightarrow> False | ModelNotAvailable _ _ \<Rightarrow> False | _ \<Rightarrow> True)"
  define row where "row = length (filter (\<lambda>e. case e of Failure err _ \<Rightarrow> tr err | _ \<Rightarrow> False) (takeWhile (\<lambda>e. e \<noteq> Success) (rev es)))"
  have c: "bs_state (foldl (breaker_step ?cfg) breaker_new es) = Closed"
  proof -
    let ?b = "\<lambda>k. \<lparr>bs_state = Closed, bs_consecutive_failures = k, bs_opened_at = None, bs_half_open_successes = 0\<rparr>"
    have f: "breaker_step ?cfg (?b k) (Failure e t) = ?b (k + 1)" if "is_transient e" "k + 1 < 5" for e t k
      using that by (simp add: cb_record_failure_def circuit_breaker_config_default_def Let_def not_le)
    have s: "breaker_step ?cfg (?b k) Success = ?b 0" "breaker_step ?cfg (?b k) (CheckAllowed t) = ?b k" for k t
      by (simp_all add: cb_record_success_def cb_check_allowed_def)
    show ?thesis by (simp add: es_def breaker_new_def f s del: breaker_step.simps)
  qed
  have r: "row = 4" by (simp add: row_def es_def tr_def)
  have "tr (Io ''y'')" "unat (cc_failure_threshold ?cfg) = 5" by (simp_all add: tr_def circuit_breaker_config_default_def)
  moreover note breaker_trips [OF refl tr_def row_def, of ?cfg "Io ''y''" 7, THEN conjunct1]
  ultimately have "bs_state (cb_record_failure ?cfg 7 (foldl (breaker_step ?cfg) breaker_new es) (Io ''y'')) = Open"
    using c by (simp only: r simp_thms)
  with c show ?thesis by (simp only: es_def Let_def simp_thms)
qed

text \<open>
  A late success closes an open circuit at once.  A call admitted before the circuit opened may
  succeed after it: the state is then closed without any probe, although the code's comment says
  this cannot happen.
\<close>

theorem late_success_closes:
  "let b = foldl (breaker_step cfg) breaker_new
       (CheckAllowed t0 # CheckAllowed t1 # replicate (unat (cc_failure_threshold cfg)) (Failure (Http m) t2)) in
   0 < unat (cc_failure_threshold cfg) \<longrightarrow> bs_state b = Open \<and> bs_state (cb_record_success cfg b) = Closed"
proof -
  have checks: "breaker_step cfg (breaker_step cfg breaker_new (CheckAllowed t0)) (CheckAllowed t1) = breaker_new"
    by (simp add: breaker_new_def cb_check_allowed_def)
  show ?thesis
  proof (cases "unat (cc_failure_threshold cfg)")
    case (Suc k)
    have "foldl (breaker_step cfg) breaker_new (replicate k (Failure (Http m) t2)) =
        breaker_new\<lparr>bs_consecutive_failures := of_nat k\<rparr>"
      using failures_count [of "replicate k (Http m, t2)" cfg] Suc by simp
    moreover have "of_nat k + 1 = cc_failure_threshold cfg"
      using Suc by (intro Suc_unat) simp
    moreover have "replicate (Suc k) (Failure (Http m) t2) = replicate k (Failure (Http m) t2) @ [Failure (Http m) t2]"
      by (simp add: replicate_append_same)
    ultimately have "bs_state (foldl (breaker_step cfg) breaker_new (replicate (Suc k) (Failure (Http m) t2))) = Open"
      by (simp add: cb_record_failure_def Let_def del: replicate.simps) (simp add: breaker_new_def)
    with checks Suc show ?thesis by (simp add: Let_def cb_record_success_def del: breaker_step.simps replicate.simps)
  qed simp
qed

theorem late_success_closes_witness:
  "bs_state (cb_record_success circuit_breaker_config_default (foldl (breaker_step circuit_breaker_config_default) breaker_new
     (CheckAllowed 0 # CheckAllowed 0 # replicate (unat (cc_failure_threshold circuit_breaker_config_default)) (Failure (Http ''x'') 0)))) = Closed"
  using late_success_closes [of circuit_breaker_config_default 0 0 "''x''" 0]
  by (simp add: Let_def circuit_breaker_config_default_def del: replicate.simps foldl_Cons)

end
