(* ===== verification/Failover.thy ===== *)
theory Failover
  imports Llm_Types
begin

text \<open>
  The failover provider of \<^verbatim>\<open>src/src/llm/failover.rs\<close>.  A provider is its index; what provider \<open>i\<close>
  answers in the call at hand is \<open>call i\<close>, the clock after its failure \<open>clock i\<close> (each provider is
  called at most once).  Next to the result the model returns the providers called, in order.  The
  counters are relaxed atomics in the code; here one call reads and writes them as plain fields, without other
  calls in between.
\<close>

section \<open>Cooldowns\<close>

fun is_retryable :: "llm_error \<Rightarrow> bool" where
  "is_retryable (RequestFailed _ _) = True"
| "is_retryable (RateLimited _ _) = True"
| "is_retryable (InvalidResponse _ _) = True"
| "is_retryable (SessionRenewalFailed _ _) = True"
| "is_retryable (ModelNotAvailable _ _) = True"
| "is_retryable (Http _) = True"
| "is_retryable (Io _) = True"
| "is_retryable _ = False"

record cooldown_config =
  cd_cooldown_duration :: duration
  cd_failure_threshold :: u32

definition cooldown_config_default :: cooldown_config where
  "cooldown_config_default = \<lparr>cd_cooldown_duration = 300 * SECS, cd_failure_threshold = 3\<rparr>"

record provider_cooldown =
  pc_failure_count :: u32
  pc_cooldown_activated_nanos :: u64

definition provider_cooldown_new :: provider_cooldown where
  "provider_cooldown_new = \<lparr>pc_failure_count = 0, pc_cooldown_activated_nanos = 0\<rparr>"

definition saturating_sub :: "u64 \<Rightarrow> u64 \<Rightarrow> u64" where
  "saturating_sub a b = (if b \<le> a then a - b else 0)"

definition is_in_cooldown :: "provider_cooldown \<Rightarrow> u64 \<Rightarrow> u64 \<Rightarrow> bool" where
  "is_in_cooldown c now_nanos cooldown_nanos \<longleftrightarrow>
     pc_cooldown_activated_nanos c \<noteq> 0 \<and>
     saturating_sub now_nanos (pc_cooldown_activated_nanos c) < cooldown_nanos"

definition pc_record_failure :: "provider_cooldown \<Rightarrow> u32 \<Rightarrow> provider_cooldown \<times> bool" where
  "pc_record_failure c threshold =
     (c\<lparr>pc_failure_count := pc_failure_count c + 1\<rparr>, pc_failure_count c + 1 \<ge> threshold)"

definition activate_cooldown :: "provider_cooldown \<Rightarrow> u64 \<Rightarrow> provider_cooldown" where
  "activate_cooldown c now_nanos = c\<lparr>pc_cooldown_activated_nanos := max now_nanos 1\<rparr>"

definition pc_reset :: "provider_cooldown \<Rightarrow> provider_cooldown" where
  "pc_reset c = c\<lparr>pc_failure_count := 0, pc_cooldown_activated_nanos := 0\<rparr>"

section \<open>The provider\<close>

record failover_provider =
  fp_last_used :: nat
  fp_cooldowns :: "provider_cooldown list"
  fp_epoch :: instant
  fp_config :: cooldown_config

definition failover_no_provider :: llm_error where
  "failover_no_provider = RequestFailed ''failover'' ''FailoverProvider requires at least one provider''"

definition failover_invariant_violated :: llm_error where
  "failover_invariant_violated = RequestFailed ''failover''
     ''Invariant violated in FailoverProvider: providers were exhausted but no last_error was recorded (this branch should be unreachable; possible causes: no provider attempts were made or `available` was unexpectedly empty).''"

definition with_cooldown ::
  "instant \<Rightarrow> nat \<Rightarrow> cooldown_config \<Rightarrow> (llm_error, failover_provider) result" where
  "with_cooldown now n cfg =
     (if n = 0 then Err failover_no_provider
      else Ok \<lparr>fp_last_used = 0, fp_cooldowns = replicate n provider_cooldown_new, fp_epoch = now,
               fp_config = cfg\<rparr>)"

definition now_nanos :: "failover_provider \<Rightarrow> instant \<Rightarrow> u64" where
  "now_nanos f now = of_nat (now - fp_epoch f)"

definition note_failure :: "failover_provider \<Rightarrow> u64 \<Rightarrow> nat \<Rightarrow> failover_provider" where
  "note_failure f nanos i =
     (let (c, reached) = pc_record_failure (fp_cooldowns f ! i) (cd_failure_threshold (fp_config f));
          c = (if reached then activate_cooldown c nanos else c)
      in f\<lparr>fp_cooldowns := (fp_cooldowns f)[i := c]\<rparr>)"

definition note_success :: "failover_provider \<Rightarrow> nat \<Rightarrow> failover_provider" where
  "note_success f i =
     f\<lparr>fp_last_used := i, fp_cooldowns := (fp_cooldowns f)[i := pc_reset (fp_cooldowns f ! i)]\<rparr>"

text \<open>The loop over the available providers.\<close>

fun try_each ::
  "(nat \<Rightarrow> instant) \<Rightarrow> (nat \<Rightarrow> (llm_error, 'r) result) \<Rightarrow> failover_provider \<Rightarrow> nat list \<Rightarrow>
   llm_error option \<Rightarrow> failover_provider \<times> (llm_error, 'r) result \<times> nat list" where
  "try_each clock call f [] last_error =
     (f, Err (case last_error of Some e \<Rightarrow> e | None \<Rightarrow> failover_invariant_violated), [])"
| "try_each clock call f (i # is) last_error =
     (case call i of
        Ok response \<Rightarrow> (note_success f i, Ok response, [i])
      | Err err \<Rightarrow>
          if \<not> is_retryable err then (f, Err err, [i])
          else let (f', r, tried) = try_each clock call (note_failure f (now_nanos f (clock i)) i) is (Some err)
               in (f', r, i # tried))"

definition available :: "failover_provider \<Rightarrow> instant \<Rightarrow> nat list" where
  "available f now =
     filter (\<lambda>i. \<not> is_in_cooldown (fp_cooldowns f ! i) (now_nanos f now)
               (of_nat (cd_cooldown_duration (fp_config f)))) [0..<length (fp_cooldowns f)]"

definition try_providers ::
  "instant \<Rightarrow> (nat \<Rightarrow> instant) \<Rightarrow> (nat \<Rightarrow> (llm_error, 'r) result) \<Rightarrow> failover_provider \<Rightarrow>
   failover_provider \<times> (llm_error, 'r) result \<times> nat list" where
  "try_providers now clock call f =
     (let av = available f now
      in if av = []
         then (case min_by_key (\<lambda>i. pc_cooldown_activated_nanos (fp_cooldowns f ! i)) [0..<length (fp_cooldowns f)] of
                 None \<Rightarrow> (f, Err failover_no_provider, [])
               | Some oldest \<Rightarrow> try_each clock call f [oldest] None)
         else try_each clock call f av None)"

section \<open>Lemmas\<close>

text \<open>The providers called are an initial part of those given, all but the last failed with
  retryable errors, and the result is the last one's.\<close>

lemma try_each_spec:
  assumes "try_each clock call f is le = (f', r, tried)"
  shows "\<exists>rest. is = tried @ rest \<and> (\<forall>i \<in> set (butlast tried). \<exists>e. call i = Err e \<and> is_retryable e) \<and>
    (tried \<noteq> [] \<longrightarrow> r = call (last tried)) \<and>
    (rest \<noteq> [] \<longrightarrow> tried \<noteq> [] \<and> (\<forall>e. r = Err e \<longrightarrow> \<not> is_retryable e))"
  using assms
proof (induction clock call f "is" le arbitrary: f' r tried rule: try_each.induct)
  case (2 clock call f i "is" le)
  show ?case
  proof (cases "call i")
    case (Inr x)
    with 2 show ?thesis by auto
  next
    case (Inl err)
    show ?thesis
    proof (cases "is_retryable err")
      case False
      with Inl 2 show ?thesis by auto
    next
      case True
      obtain f1 r1 t1 where rec: "try_each clock call (note_failure f (now_nanos f (clock i)) i) is (Some err) = (f1, r1, t1)"
        by (metis prod.exhaust)
      with True Inl 2(2) have eq: "f' = f1" "r = r1" "tried = i # t1" by auto
      from 2(1) [OF Inl _ rec] True obtain rest where
        ih: "is = t1 @ rest" "\<forall>i \<in> set (butlast t1). \<exists>e. call i = Err e \<and> is_retryable e"
          "t1 \<noteq> [] \<longrightarrow> r1 = call (last t1)" "rest \<noteq> [] \<longrightarrow> t1 \<noteq> [] \<and> (\<forall>e. r1 = Err e \<longrightarrow> \<not> is_retryable e)"
        by auto
      have "t1 = [] \<Longrightarrow> r1 = call i"
        using rec ih Inl by (cases "is") auto
      with ih eq Inl True show ?thesis by (intro exI [of _ rest]) auto
    qed
  qed
qed auto

lemma try_each_nonempty: "is \<noteq> [] \<Longrightarrow> snd (snd (try_each clock call f is le)) \<noteq> []"
  by (cases "is") (auto split: sum.split prod.split simp: Let_def)

lemma note_failure_length [simp]: "length (fp_cooldowns (note_failure f n i)) = length (fp_cooldowns f)"
  by (simp add: note_failure_def Let_def split: prod.split)

lemma try_each_success:
  assumes "try_each clock call f is le = (f', Ok x, tried)" and "set is \<subseteq> {..<length (fp_cooldowns f)}"
  shows "fp_last_used f' = last tried \<and> pc_cooldown_activated_nanos (fp_cooldowns f' ! last tried) = 0 \<and>
    pc_failure_count (fp_cooldowns f' ! last tried) = 0"
  using assms
proof (induction clock call f "is" le arbitrary: f' tried rule: try_each.induct)
  case (2 clock call f i "is" le)
  show ?case
  proof (cases "call i")
    case (Inr y)
    with 2 show ?thesis by (auto simp: note_success_def pc_reset_def)
  next
    case (Inl err)
    with 2(2) have re: "is_retryable err" by (auto split: if_splits)
    obtain f1 r1 t1 where rec: "try_each clock call (note_failure f (now_nanos f (clock i)) i) is (Some err) = (f1, r1, t1)"
      by (metis prod.exhaust)
    with re Inl 2(2) have eq: "f' = f1" "r1 = Ok x" "tried = i # t1" by auto
    have "t1 \<noteq> []"
    proof (cases "is = []")
      case False
      then show ?thesis using rec try_each_nonempty [of "is" clock call _ "Some err"] by (metis snd_conv)
    qed (use rec eq in auto)
    with 2(1) [OF Inl _ rec [unfolded eq]] re eq 2(3) show ?thesis by simp
  qed
qed simp

lemma note_failure_nth:
  "i < length (fp_cooldowns f) \<Longrightarrow> fp_cooldowns (note_failure f n i) ! i =
     (let c = fp_cooldowns f ! i; k = pc_failure_count c + 1 in
      \<lparr>pc_failure_count = k, pc_cooldown_activated_nanos =
         if cd_failure_threshold (fp_config f) \<le> k then max n 1 else pc_cooldown_activated_nanos c\<rparr>)"
  "j \<noteq> i \<Longrightarrow> fp_cooldowns (note_failure f n i) ! j = fp_cooldowns f ! j"
  "fp_config (note_failure f n i) = fp_config f" "fp_epoch (note_failure f n i) = fp_epoch f"
  by (simp_all add: note_failure_def pc_record_failure_def activate_cooldown_def Let_def)

lemma providers_chosen:
  assumes "fp_cooldowns f \<noteq> []" and "try_providers now clock call f = (f', r, tried)"
  shows "\<exists>is. is \<noteq> [] \<and> try_each clock call f is None = (f', r, tried) \<and> set is \<subseteq> {..<length (fp_cooldowns f)} \<and> distinct is \<and>
    (if available f now \<noteq> [] then is = available f now
     else (\<exists>i. is = [i] \<and> (\<forall>j < length (fp_cooldowns f).
       pc_cooldown_activated_nanos (fp_cooldowns f ! i) \<le> pc_cooldown_activated_nanos (fp_cooldowns f ! j))))"
proof (cases "available f now = []")
  case True
  let ?k = "\<lambda>i. pc_cooldown_activated_nanos (fp_cooldowns f ! i)"
  have "[0..<length (fp_cooldowns f)] \<noteq> []" using assms(1) by simp
  from min_by_key_Some [OF this] obtain i where i: "min_by_key ?k [0..<length (fp_cooldowns f)] = Some i" by blast
  from min_by_key_min [OF i] True i assms(2) show ?thesis by (intro exI [of _ "[i]"]) (auto simp: try_providers_def)
next
  case False
  with assms(2) show ?thesis by (intro exI [of _ "available f now"]) (auto simp: try_providers_def available_def)
qed

text \<open>What the loop notes: a provider that failed with a retryable error is counted, and cools down from the threshold on;
  one that was not called is as before.\<close>

lemma try_each_notes:
  assumes "try_each clock call f is le = (f', r, tried)" and "distinct is" and "set is \<subseteq> {..<length (fp_cooldowns f)}"
  shows "\<forall>i < length (fp_cooldowns f).
    (i \<notin> set tried \<longrightarrow> fp_cooldowns f' ! i = fp_cooldowns f ! i) \<and>
    (\<forall>e. i \<in> set tried \<and> call i = Err e \<and> is_retryable e \<longrightarrow> fp_cooldowns f' ! i = fp_cooldowns (note_failure f (now_nanos f (clock i)) i) ! i)"
  using assms
proof (induction clock call f "is" le arbitrary: f' r tried rule: try_each.induct)
  case (2 clock call f i "is" le)
  show ?case
  proof (cases "\<exists>err. call i = Err err \<and> is_retryable err")
    case False
    with 2(2) have "tried = [i]" "f' = f \<or> f' = note_success f i" by (auto split: sum.splits if_splits)
    with False show ?thesis by (auto simp: note_success_def)
  next
    case True
    then obtain err where err: "call i = Err err" "is_retryable err" by blast
    let ?g = "note_failure f (now_nanos f (clock i)) i"
    obtain f1 r1 t1 where rec: "try_each clock call ?g is (Some err) = (f1, r1, t1)" by (metis prod.exhaust)
    with err 2(2) have eq: "f' = f1" "tried = i # t1" by auto
    have sub: "set t1 \<subseteq> set is" using try_each_spec [OF rec] by auto
    have same: "fp_cooldowns (note_failure ?g (now_nanos ?g (clock k)) k) ! k = fp_cooldowns (note_failure f (now_nanos f (clock k)) k) ! k"
      if "k \<noteq> i" "k < length (fp_cooldowns f)" for k
      using that by (simp add: note_failure_nth now_nanos_def)
    show ?thesis
    proof (intro allI impI)
      fix k
      assume k: "k < length (fp_cooldowns f)"
      with 2(1) [OF err(1) _ rec] err(2) 2(3,4) have ih: "(k \<notin> set t1 \<longrightarrow> fp_cooldowns f1 ! k = fp_cooldowns ?g ! k) \<and>
        (\<forall>e. k \<in> set t1 \<and> call k = Err e \<and> is_retryable e \<longrightarrow> fp_cooldowns f1 ! k = fp_cooldowns (note_failure ?g (now_nanos ?g (clock k)) k) ! k)"
        by auto
      then show "(k \<notin> set tried \<longrightarrow> fp_cooldowns f' ! k = fp_cooldowns f ! k) \<and>
        (\<forall>e. k \<in> set tried \<and> call k = Err e \<and> is_retryable e \<longrightarrow> fp_cooldowns f' ! k = fp_cooldowns (note_failure f (now_nanos f (clock k)) k) ! k)"
        using eq sub 2(3) k same [of k] note_failure_nth(2) [of k i] by (cases "k = i") auto
    qed
  qed
qed simp

section \<open>Properties\<close>



end
