(* ===== verification/Cost_Guard.thy ===== *)
theory Cost_Guard
  imports Prelude Complex_Main
begin

text \<open>
  The spending guard of \<^verbatim>\<open>src/src/agent/cost_guard.rs\<close>.  Amounts are rational numbers, exact where
  \<open>Decimal\<close> rounds at its 28th digit; the price table (\<^verbatim>\<open>llm/costs.rs\<close>) is the parameter \<open>rates\<close>.
  A date is the number of its day.  The budget and the window have a lock each, so a check and a record are two
  lock sections each (the flag of the blown budget is read with the section of the budget), and the calls of several
  agentic loops interleave at the sections.
\<close>

section \<open>State and operations\<close>

record cost_guard_config =
  gc_max_cost_per_day_cents :: "u64 option"
  gc_max_actions_per_hour :: "u64 option"

datatype cost_limit_exceeded = DailyBudget u64 u64 | HourlyRate u64 u64

record cost_guard =
  cg_config :: cost_guard_config
  cg_total :: rat
  cg_reset_date :: nat
  cg_action_window :: "instant list"
  cg_budget_exceeded :: bool

definition cost_guard_new :: "nat \<Rightarrow> cost_guard_config \<Rightarrow> cost_guard" where
  "cost_guard_new today cfg =
     \<lparr>cg_config = cfg, cg_total = 0, cg_reset_date = today, cg_action_window = [], cg_budget_exceeded = False\<rparr>"

definition drain_expired :: "instant \<Rightarrow> instant list \<Rightarrow> instant list" where
  "drain_expired cutoff w = dropWhile (\<lambda>t. t < cutoff) w"

text \<open>Whole cents, truncated; an amount that is no \<open>u64\<close> counts as nothing, as in the code.\<close>

definition to_cents :: "rat \<Rightarrow> u64" where
  "to_cents usd =
     (let cents = \<lfloor>usd * 100\<rfloor> in if 0 \<le> cents \<and> cents < 2 ^ 64 then of_int cents else 0)"

definition check_daily ::
  "cost_guard \<Rightarrow> cost_guard \<times> (cost_limit_exceeded, unit) result" where
  "check_daily g =
     (if cg_budget_exceeded g
      then (g, Err (DailyBudget (to_cents (cg_total g))
              (case gc_max_cost_per_day_cents (cg_config g) of Some l \<Rightarrow> l | None \<Rightarrow> 0)))
      else case gc_max_cost_per_day_cents (cg_config g) of
        Some limit_cents \<Rightarrow>
          if to_cents (cg_total g) \<ge> limit_cents
          then (g\<lparr>cg_budget_exceeded := True\<rparr>, Err (DailyBudget (to_cents (cg_total g)) limit_cents))
          else (g, Ok ())
      | None \<Rightarrow> (g, Ok ()))"

definition check_hourly :: "instant \<Rightarrow> cost_guard \<Rightarrow> cost_guard \<times> (cost_limit_exceeded, unit) result" where
  "check_hourly now g =
     (case gc_max_actions_per_hour (cg_config g) of
        Some limit \<Rightarrow>
          let w = drain_expired (now - HOUR) (cg_action_window g);
              g = g\<lparr>cg_action_window := w\<rparr>;
              count = of_nat (length w)
          in if count \<ge> limit then (g, Err (HourlyRate count limit)) else (g, Ok ())
      | None \<Rightarrow> (g, Ok ()))"

definition cg_check_allowed ::
  "instant \<Rightarrow> cost_guard \<Rightarrow> cost_guard \<times> (cost_limit_exceeded, unit) result" where
  "cg_check_allowed now g =
     (case check_daily g of
        (g, Err e) \<Rightarrow> (g, Err e)
      | (g, Ok _) \<Rightarrow> check_hourly now g)"

text \<open>The two lock sections of \<open>record_llm_call\<close>: the spending of the day, then the window of actions.\<close>

definition record_spend ::
  "(string \<Rightarrow> rat \<times> rat) \<Rightarrow> nat \<Rightarrow> cost_guard \<Rightarrow> string \<Rightarrow> u32 \<Rightarrow> u32 \<Rightarrow> cost_guard \<times> rat" where
  "record_spend rates today g model input_tokens output_tokens =
     (let (input_rate, output_rate) = rates model;
          cost = input_rate * of_nat (unat input_tokens) + output_rate * of_nat (unat output_tokens);
          g1 = (if today \<noteq> cg_reset_date g
                then g\<lparr>cg_total := 0, cg_reset_date := today, cg_budget_exceeded := False\<rparr> else g);
          g2 = g1\<lparr>cg_total := cg_total g1 + cost\<rparr>;
          g3 = (case gc_max_cost_per_day_cents (cg_config g2) of
                  Some limit_cents \<Rightarrow>
                    if to_cents (cg_total g2) \<ge> limit_cents then g2\<lparr>cg_budget_exceeded := True\<rparr> else g2
                | None \<Rightarrow> g2)
      in (g3, cost))"

definition record_action :: "instant \<Rightarrow> cost_guard \<Rightarrow> cost_guard" where
  "record_action now g = g\<lparr>cg_action_window := cg_action_window g @ [now]\<rparr>"

definition record_llm_call ::
  "(string \<Rightarrow> rat \<times> rat) \<Rightarrow> nat \<Rightarrow> instant \<Rightarrow> cost_guard \<Rightarrow> string \<Rightarrow> u32 \<Rightarrow> u32 \<Rightarrow>
   cost_guard \<times> rat" where
  "record_llm_call rates today now g model input_tokens output_tokens =
     (let (g, cost) = record_spend rates today g model input_tokens output_tokens
      in (record_action now g, cost))"

definition daily_spend :: "nat \<Rightarrow> cost_guard \<Rightarrow> rat" where
  "daily_spend today g = (if today \<noteq> cg_reset_date g then 0 else cg_total g)"

definition actions_this_hour :: "instant \<Rightarrow> cost_guard \<Rightarrow> cost_guard \<times> u64" where
  "actions_this_hour now g =
     (let w = drain_expired (now - HOUR) (cg_action_window g)
      in (g\<lparr>cg_action_window := w\<rparr>, of_nat (length w)))"

section \<open>Concurrent loops\<close>

text \<open>
  The agentic loops of several conversations share the guard.  An iteration of a loop passes the two sections of
  \<open>check_allowed\<close>, or ends; then the model is called; a call that fails, or whose loop is dropped, ends the
  iteration with nothing recorded; after a call that succeeds come the two sections of \<open>record_llm_call\<close>.  A loop is
  the phase it is in.  The run collects when calls were let through and when calls were recorded.
\<close>

datatype loop_phase = Idle | BudgetPassed | Calling | SpendRecorded

datatype guard_event =
  BudgetSection nat
| RateSection nat instant
| CallFailed nat
| SpendSection nat nat string u32 u32
| ActionSection nat instant
| ActionsQuery instant

record guard_run =
  gr_guard :: cost_guard
  gr_loops :: "loop_phase list"
  gr_let_through :: "instant list"
  gr_recorded :: "instant list"

definition guard_run_new :: "nat \<Rightarrow> nat \<Rightarrow> cost_guard_config \<Rightarrow> guard_run" where
  "guard_run_new n today cfg =
     \<lparr>gr_guard = cost_guard_new today cfg, gr_loops = replicate n Idle, gr_let_through = [], gr_recorded = []\<rparr>"

definition in_phase :: "guard_run \<Rightarrow> nat \<Rightarrow> loop_phase \<Rightarrow> bool" where
  "in_phase r i p \<longleftrightarrow> i < length (gr_loops r) \<and> gr_loops r ! i = p"

text \<open>The phase after a section of the check: on, or the end of the iteration.\<close>

definition check_section ::
  "nat \<Rightarrow> loop_phase \<Rightarrow> guard_run \<Rightarrow> cost_guard \<times> (cost_limit_exceeded, unit) result \<Rightarrow> guard_run" where
  "check_section i next r out =
     r\<lparr>gr_guard := fst out,
       gr_loops := (gr_loops r)[i := (case snd out of Ok _ \<Rightarrow> next | Err _ \<Rightarrow> Idle)]\<rparr>"

fun guard_step :: "(string \<Rightarrow> rat \<times> rat) \<Rightarrow> guard_run \<Rightarrow> guard_event \<Rightarrow> guard_run" where
  "guard_step rates r (BudgetSection i) =
     (if in_phase r i Idle then check_section i BudgetPassed r (check_daily (gr_guard r)) else r)"
| "guard_step rates r (RateSection i now) =
     (if in_phase r i BudgetPassed
      then let out = check_hourly now (gr_guard r);
               r = check_section i Calling r out
           in (case snd out of Ok _ \<Rightarrow> r\<lparr>gr_let_through := gr_let_through r @ [now]\<rparr> | Err _ \<Rightarrow> r)
      else r)"
| "guard_step rates r (CallFailed i) =
     (if in_phase r i Calling then r\<lparr>gr_loops := (gr_loops r)[i := Idle]\<rparr> else r)"
| "guard_step rates r (SpendSection i today model input output) =
     (if in_phase r i Calling
      then r\<lparr>gr_guard := fst (record_spend rates today (gr_guard r) model input output),
             gr_loops := (gr_loops r)[i := SpendRecorded]\<rparr>
      else r)"
| "guard_step rates r (ActionSection i now) =
     (if in_phase r i SpendRecorded
      then r\<lparr>gr_guard := record_action now (gr_guard r), gr_loops := (gr_loops r)[i := Idle],
             gr_recorded := gr_recorded r @ [now]\<rparr>
      else r)"
| "guard_step rates r (ActionsQuery now) = r\<lparr>gr_guard := fst (actions_this_hour now (gr_guard r))\<rparr>"

fun event_time :: "guard_event \<Rightarrow> instant option" where
  "event_time (RateSection _ now) = Some now"
| "event_time (ActionSection _ now) = Some now"
| "event_time (ActionsQuery now) = Some now"
| "event_time _ = None"

definition event_times :: "guard_event list \<Rightarrow> instant list" where
  "event_times es = List.map_filter event_time es"

definition calls_in_flight :: "guard_run \<Rightarrow> nat" where
  "calls_in_flight r = length (filter (\<lambda>p. p = Calling \<or> p = SpendRecorded) (gr_loops r))"

section \<open>Lemmas\<close>

lemma sections_frame [simp]:
  "cg_config (fst (check_daily g)) = cg_config g" "cg_action_window (fst (check_daily g)) = cg_action_window g"
  "cg_config (fst (record_spend rates today g m i j)) = cg_config g"
  "cg_action_window (fst (record_spend rates today g m i j)) = cg_action_window g"
  "cg_config (record_action now g) = cg_config g"
  "cg_action_window (record_action now g) = cg_action_window g @ [now]"
  "cg_config (fst (check_hourly now g)) = cg_config g" "cg_config (fst (actions_this_hour now g)) = cg_config g"
  by (auto simp: check_daily_def check_hourly_def actions_this_hour_def record_spend_def record_action_def Let_def
      split: prod.split option.split)

lemma drain_expired_split: "\<exists>old. w = old @ drain_expired c w \<and> (\<forall>t \<in> set old. t < c)"
  unfolding drain_expired_def by (metis set_takeWhileD takeWhile_dropWhile_id)

lemma length_filter_update:
  "i < length xs \<Longrightarrow> length (filter P (xs[i := v])) + (if P (xs ! i) then 1 else 0) = length (filter P xs) + (if P v then 1 else 0)"
proof (induction xs arbitrary: i)
  case (Cons x xs)
  show ?case
  proof (cases i)
    case (Suc j)
    with Cons.IH [of j] Cons.prems show ?thesis by simp
  qed simp
qed simp

lemma in_flight_update:
  assumes "in_phase r i p"
  shows "calls_in_flight (r\<lparr>gr_guard := g, gr_loops := (gr_loops r)[i := q]\<rparr>) + (if p = Calling \<or> p = SpendRecorded then 1 else 0) =
    calls_in_flight r + (if q = Calling \<or> q = SpendRecorded then 1 else 0)"
  using assms length_filter_update [of i "gr_loops r" "\<lambda>p. p = Calling \<or> p = SpendRecorded" q]
  by (simp add: in_phase_def calls_in_flight_def)

lemma in_flight_le: "calls_in_flight r \<le> length (gr_loops r)"
  by (simp add: calls_in_flight_def)

lemma loops_kept [simp]: "length (gr_loops (guard_step rates r e)) = length (gr_loops r)"
  by (cases e) (auto simp: check_section_def Let_def split: sum.split)

text \<open>The recorded calls are what was dropped from the window, then the window; what was dropped is older than an
  hour before the last section, \<open>T\<close>.  The window and the calls in flight together stay below the limit and
  the number of loops.\<close>

definition window_inv :: "u64 \<Rightarrow> nat \<Rightarrow> instant \<Rightarrow> guard_run \<Rightarrow> bool" where
  "window_inv l n T r \<longleftrightarrow>
     gc_max_actions_per_hour (cg_config (gr_guard r)) = Some l \<and> length (gr_loops r) = n \<and>
     sorted (gr_recorded r) \<and> (\<forall>t \<in> set (gr_recorded r). t \<le> T) \<and>
     length (cg_action_window (gr_guard r)) + calls_in_flight r < unat l + n \<and>
     (\<exists>old. gr_recorded r = old @ cg_action_window (gr_guard r) \<and> (\<forall>t \<in> set old. t < T - HOUR))"

lemma window_inv_mono: "window_inv l n T r \<Longrightarrow> T \<le> T' \<Longrightarrow> window_inv l n T' r"
  unfolding window_inv_def by (meson diff_le_mono less_le_trans le_trans)

lemma drain_sorted: "sorted w \<Longrightarrow> drain_expired c w = filter (\<lambda>t. c \<le> t) w"
  unfolding drain_expired_def
proof (induction w)
  case (Cons t w)
  then show ?case by (cases "t < c") (auto intro!: filter_True [symmetric])
qed simp

text \<open>What draining leaves is the part of the record in the last hour.\<close>

lemma drained_is_hour:
  assumes "window_inv l n T r" and "T \<le> now"
  shows "drain_expired (now - HOUR) (cg_action_window (gr_guard r)) = filter (\<lambda>t. now - HOUR \<le> t) (gr_recorded r)"
proof -
  obtain old where old: "gr_recorded r = old @ cg_action_window (gr_guard r)" "\<forall>t \<in> set old. t < now - HOUR"
    using window_inv_mono [OF assms] by (auto simp: window_inv_def)
  have "sorted (cg_action_window (gr_guard r))" using assms(1) old(1) by (auto simp: window_inv_def sorted_append)
  moreover have "filter (\<lambda>t. now - HOUR \<le> t) old = []" using old(2) by (auto simp: filter_empty_conv)
  ultimately show ?thesis using old(1) by (simp add: drain_sorted)
qed

lemma drained_length: "length (drain_expired c w) \<le> length w"
  by (simp add: drain_expired_def length_dropWhile_le)

lemma window_drained:
  assumes "window_inv l n T r" and "T \<le> now" and "length (gr_loops r') = n" and "gr_recorded r' = gr_recorded r"
    and "cg_config (gr_guard r') = cg_config (gr_guard r)"
    and "cg_action_window (gr_guard r') = drain_expired (now - HOUR) (cg_action_window (gr_guard r))"
    and "length (cg_action_window (gr_guard r')) + calls_in_flight r' < unat l + n"
  shows "window_inv l n now r'"
proof -
  obtain old where old: "gr_recorded r = old @ cg_action_window (gr_guard r)" "\<forall>t \<in> set old. t < now - HOUR"
    using window_inv_mono [OF assms(1,2)] by (auto simp: window_inv_def)
  obtain old2 where old2: "cg_action_window (gr_guard r) = old2 @ cg_action_window (gr_guard r')" "\<forall>t \<in> set old2. t < now - HOUR"
    using drain_expired_split [of "cg_action_window (gr_guard r)" "now - HOUR"] assms(6) by auto
  have split: "gr_recorded r' = (old @ old2) @ cg_action_window (gr_guard r')" using old(1) old2(1) assms(4) by simp
  have early: "\<forall>t \<in> set (old @ old2). t < now - HOUR" using old(2) old2(2) by auto
  have "\<forall>t \<in> set (gr_recorded r). t \<le> now" using window_inv_mono [OF assms(1,2)] by (simp add: window_inv_def)
  with assms split early show ?thesis unfolding window_inv_def by metis
qed

lemma check_hourly_cases:
  assumes "gc_max_actions_per_hour (cg_config g) = Some l"
  shows "cg_action_window (fst (check_hourly now g)) = drain_expired (now - HOUR) (cg_action_window g)"
    and "length (cg_action_window g) < 2 ^ 64 \<Longrightarrow> (\<exists>u. snd (check_hourly now g) = Ok u) \<longleftrightarrow>
      length (drain_expired (now - HOUR) (cg_action_window g)) < unat l"
proof -
  let ?w = "drain_expired (now - HOUR) (cg_action_window g)"
  show "cg_action_window (fst (check_hourly now g)) = ?w"
    using assms by (simp add: check_hourly_def Let_def)
  assume "length (cg_action_window g) < 2 ^ 64"
  then have "length ?w < 2 ^ LENGTH(64)" using drained_length [of "now - HOUR" "cg_action_window g"] by simp
  then have "unat (of_nat (length ?w) :: u64) = length ?w" by (rule unat_of_nat_small)
  with assms show "(\<exists>u. snd (check_hourly now g) = Ok u) \<longleftrightarrow> length ?w < unat l"
    by (simp add: check_hourly_def Let_def word_le_nat_alt not_le)
qed

lemma rate_section_window:
  assumes inv: "window_inv l n T r" and small: "unat l + n \<le> 2 ^ 64" and "T \<le> now"
  shows "window_inv l n now (guard_step rates r (RateSection i now))"
proof (cases "in_phase r i BudgetPassed")
  case False
  then show ?thesis using window_inv_mono [OF inv assms(3)] by simp
next
  case True
  let ?out = "check_hourly now (gr_guard r)" and ?r' = "guard_step rates r (RateSection i now)"
  have lim: "gc_max_actions_per_hour (cg_config (gr_guard r)) = Some l" using inv by (simp add: window_inv_def)
  have len: "length (cg_action_window (gr_guard r)) + calls_in_flight r < unat l + n" using inv by (simp add: window_inv_def)
  with small have "length (cg_action_window (gr_guard r)) < 2 ^ 64" by linarith
  note hourly = check_hourly_cases(1) [OF lim, of now] check_hourly_cases(2) [OF lim this, of now]
  have kept: "gr_guard ?r' = fst ?out" "gr_recorded ?r' = gr_recorded r" "length (gr_loops ?r') = n"
    using inv True by (simp_all add: check_section_def Let_def window_inv_def split: sum.split)
  have "length (cg_action_window (gr_guard ?r')) + calls_in_flight ?r' < unat l + n"
  proof (cases "snd ?out")
    case (Inl e)
    then have "calls_in_flight ?r' = calls_in_flight r"
      using True in_flight_update [OF True, of Idle "fst ?out"] by (simp add: check_section_def)
    then show ?thesis using len hourly(1) kept(1) drained_length [of "now - HOUR" "cg_action_window (gr_guard r)"] by simp
  next
    case (Inr u)
    then have "length (cg_action_window (gr_guard ?r')) < unat l" using hourly kept(1) by auto
    moreover have "calls_in_flight ?r' \<le> n" using in_flight_le [of ?r'] kept(3) by simp
    ultimately show ?thesis by linarith
  qed
  with kept hourly(1) show ?thesis by (intro window_drained [OF inv assms(3)]) simp_all
qed

lemma guard_step_window:
  assumes inv: "window_inv l n T r" and small: "unat l + n \<le> 2 ^ 64" and time: "\<forall>t. event_time e = Some t \<longrightarrow> T \<le> t"
  shows "window_inv l n (case event_time e of Some t \<Rightarrow> t | None \<Rightarrow> T) (guard_step rates r e)"
proof (cases e)
  case (BudgetSection i)
  then show ?thesis
    using inv in_flight_update [where r = r and i = i and p = Idle and g = "fst (check_daily (gr_guard r))"]
    by (auto simp: window_inv_def check_section_def split: sum.split)
next
  case (RateSection i now)
  then show ?thesis using rate_section_window [OF inv small] time by simp
next
  case (CallFailed i)
  then show ?thesis
    using inv in_flight_update [of r i Calling Idle "gr_guard r"] by (auto simp: window_inv_def)
next
  case (SpendSection i today m j k)
  then show ?thesis
    using inv in_flight_update [of r i Calling SpendRecorded "fst (record_spend rates today (gr_guard r) m j k)"]
    by (auto simp: window_inv_def)
next
  case (ActionSection i now)
  have "window_inv l n now r" using window_inv_mono [OF inv] time ActionSection by simp
  moreover have "calls_in_flight (guard_step rates r e) + 1 = calls_in_flight r" if "in_phase r i SpendRecorded"
    using ActionSection that in_flight_update [OF that, of Idle "record_action now (gr_guard r)"]
    by (simp add: calls_in_flight_def)
  ultimately show ?thesis using ActionSection by (auto simp: window_inv_def sorted_append)
next
  case (ActionsQuery now)
  have "calls_in_flight (guard_step rates r e) = calls_in_flight r" using ActionsQuery by (simp add: calls_in_flight_def)
  moreover have "length (gr_loops r) = n" "length (cg_action_window (gr_guard r)) + calls_in_flight r < unat l + n" "T \<le> now"
    using inv time ActionsQuery by (simp_all add: window_inv_def)
  ultimately have "window_inv l n now (guard_step rates r e)"
    using ActionsQuery drained_length [of "now - HOUR" "cg_action_window (gr_guard r)"]
    by (intro window_drained [OF inv]) (simp_all add: actions_this_hour_def Let_def)
  then show ?thesis using ActionsQuery by simp
qed

lemma guard_run_window:
  assumes "window_inv l n T r" and "unat l + n \<le> 2 ^ 64" and "sorted (event_times es)" and "\<forall>t \<in> set (event_times es). T \<le> t"
    and "\<forall>t \<in> set (event_times es). t \<le> T'" and "T \<le> T'"
  shows "window_inv l n T' (foldl (guard_step rates) r es)"
  using assms
proof (induction es arbitrary: r T)
  case Nil
  then show ?case by (simp add: window_inv_mono)
next
  case (Cons e es)
  let ?T = "case event_time e of Some t \<Rightarrow> t | None \<Rightarrow> T"
  have "window_inv l n ?T (guard_step rates r e)"
    by (rule guard_step_window [OF Cons.prems(1,2)])
      (use Cons.prems in \<open>auto simp: event_times_def List.map_filter_simps split: option.splits\<close>)
  moreover have "sorted (event_times es)" "\<forall>t \<in> set (event_times es). ?T \<le> t" "\<forall>t \<in> set (event_times es). t \<le> T'" "?T \<le> T'"
    using Cons.prems by (auto simp: event_times_def List.map_filter_simps split: option.splits)
  ultimately show ?case using Cons.IH [of ?T "guard_step rates r e"] Cons.prems(2) by simp
qed

lemma guard_run_new_inv:
  assumes "gc_max_actions_per_hour cfg = Some l" and "0 < n"
  shows "window_inv l n 0 (guard_run_new n today cfg)"
  using assms by (simp add: window_inv_def guard_run_new_def cost_guard_new_def calls_in_flight_def)

section \<open>Properties\<close>

text \<open>
  C39: The hourly limit, and by how much concurrent loops exceed it.  Let n agentic loops share the guard, their checks,
  failing and successful calls and records interleaved in any order at non-decreasing times.  A check lets a call
  through exactly if fewer calls than the limit were recorded in the hour before it.  At any later moment
  the calls recorded in the last hour and the calls in flight are together fewer than the limit plus n: one loop alone keeps the
  limit, n loops overshoot by at most n - 1.  Only recorded calls count: a call that fails is not recorded.
\<close>

theorem hourly_limit_respected:
  assumes "gc_max_actions_per_hour cfg = Some l" and "0 < n" and "unat l + n \<le> 2 ^ 64"
    and "sorted (event_times es)" and "\<forall>t \<in> set (event_times es). t \<le> T"
    and "r = foldl (guard_step rates) (guard_run_new n today cfg) es"
  shows "length (filter (\<lambda>t. T - HOUR \<le> t) (gr_recorded r)) + calls_in_flight r < unat l + n \<and>
    (\<forall>i. in_phase r i BudgetPassed \<longrightarrow>
       (let r' = guard_step rates r (RateSection i T) in
        if length (filter (\<lambda>t. T - HOUR \<le> t) (gr_recorded r)) < unat l
        then in_phase r' i Calling \<and> gr_let_through r' = gr_let_through r @ [T]
        else in_phase r' i Idle \<and> gr_let_through r' = gr_let_through r))"
proof -
  have inv: "window_inv l n T r" unfolding assms(6)
    using guard_run_window [OF guard_run_new_inv [OF assms(1,2)] assms(3,4) _ assms(5)] by simp
  note hour = drained_is_hour [OF inv le_refl]
  have lim: "gc_max_actions_per_hour (cg_config (gr_guard r)) = Some l"
    and len: "length (cg_action_window (gr_guard r)) + calls_in_flight r < unat l + n" using inv by (simp_all add: window_inv_def)
  then have "length (cg_action_window (gr_guard r)) < 2 ^ 64" using assms(3) by linarith
  note passes = check_hourly_cases(2) [OF lim this, of T, unfolded hour]
  have "in_phase r i BudgetPassed \<longrightarrow> (let r' = guard_step rates r (RateSection i T) in
      if length (filter (\<lambda>t. T - HOUR \<le> t) (gr_recorded r)) < unat l
      then in_phase r' i Calling \<and> gr_let_through r' = gr_let_through r @ [T]
      else in_phase r' i Idle \<and> gr_let_through r' = gr_let_through r)" for i
    using passes by (cases "snd (check_hourly T (gr_guard r))") (auto simp: Let_def check_section_def in_phase_def)
  moreover have "length (filter (\<lambda>t. T - HOUR \<le> t) (gr_recorded r)) + calls_in_flight r < unat l + n"
    using len drained_length [of "T - HOUR" "cg_action_window (gr_guard r)"] unfolding hour by linarith
  ultimately show ?thesis by blast
qed

text \<open>With a limit of one, two loops check before either records: two calls are recorded in an hour, and the next
  check is refused.\<close>

theorem hourly_limit_respected_witness:
  "let cfg = \<lparr>gc_max_cost_per_day_cents = None, gc_max_actions_per_hour = Some 1\<rparr>;
       es = [BudgetSection 0, RateSection 0 10, BudgetSection 1, RateSection 1 11,
             SpendSection 0 0 ''m'' 1 1, ActionSection 0 20, SpendSection 1 0 ''m'' 1 1, ActionSection 1 21, BudgetSection 0];
       r = foldl (guard_step (\<lambda>_. (0, 0))) (guard_run_new 2 0 cfg) es
   in gr_recorded r = [20, 21] \<and> length (filter (\<lambda>t. 30 - HOUR \<le> t) (gr_recorded r)) < 1 + 2 \<and>
      in_phase (guard_step (\<lambda>_. (0, 0)) r (RateSection 0 30)) 0 Idle"
proof -
  let ?cfg = "\<lparr>gc_max_cost_per_day_cents = None, gc_max_actions_per_hour = Some 1\<rparr>"
  let ?es = "[BudgetSection 0, RateSection 0 10, BudgetSection 1, RateSection 1 11,
    SpendSection 0 0 ''m'' 1 1, ActionSection 0 20, SpendSection 1 0 ''m'' 1 1, ActionSection 1 21, BudgetSection 0]"
  define r where "r = foldl (guard_step (\<lambda>_. (0, 0))) (guard_run_new 2 0 ?cfg) ?es"
  have r: "gr_recorded r = [20, 21]" "in_phase r 0 BudgetPassed"
    by (simp_all add: r_def guard_run_new_def cost_guard_new_def in_phase_def check_section_def check_daily_def
        check_hourly_def record_spend_def record_action_def drain_expired_def HOUR_def SECS_def numeral_2_eq_2 Let_def)
  have "gc_max_actions_per_hour ?cfg = Some 1" "0 < (2 :: nat)" "unat (1 :: u64) + 2 \<le> 2 ^ 64" "sorted (event_times ?es)"
    "\<forall>t \<in> set (event_times ?es). t \<le> 30" by (simp_all add: event_times_def List.map_filter_simps)
  note limit = hourly_limit_respected [OF this r_def]
  have two: "length (filter (\<lambda>t. 30 - HOUR \<le> t) (gr_recorded r)) = 2" by (simp add: r HOUR_def SECS_def)
  have "in_phase (guard_step (\<lambda>_. (0, 0)) r (RateSection 0 30)) 0 Idle"
    using limit [THEN conjunct2, THEN spec, of 0] r(2) unfolding two by (simp add: Let_def del: guard_step.simps)
  with limit [THEN conjunct1] r(1) show ?thesis unfolding Let_def r_def [symmetric] by simp
qed

text \<open>
  Failed calls are free.  With a positive limit, however small, one loop whose calls to the model fail is let through any number
  of times at one and the same moment, and nothing is recorded, although the configuration speaks of the maximum
  number of calls per hour.
\<close>

theorem failed_calls_uncounted:
  assumes "gc_max_actions_per_hour cfg = Some l" and "0 < l" and "gc_max_cost_per_day_cents cfg = None"
  shows "foldl (guard_step rates) (guard_run_new 1 today cfg) (concat (replicate m [BudgetSection 0, RateSection 0 t, CallFailed 0])) =
    (guard_run_new 1 today cfg)\<lparr>gr_let_through := replicate m t\<rparr>"
proof (induction m)
  case (Suc m)
  have "concat (replicate (Suc m) xs) = concat (replicate m xs) @ xs" for xs :: "guard_event list"
    by (induction m) simp_all
  with Suc assms show ?case
    by (simp add: guard_run_new_def cost_guard_new_def in_phase_def check_section_def check_daily_def check_hourly_def
        drain_expired_def Let_def not_le replicate_append_same)
qed (simp add: guard_run_new_def)

theorem failed_calls_uncounted_witness:
  "let cfg = \<lparr>gc_max_cost_per_day_cents = None, gc_max_actions_per_hour = Some 1\<rparr>
   in gr_let_through (foldl (guard_step (\<lambda>_. (0, 0))) (guard_run_new 1 0 cfg)
        (concat (replicate 3 [BudgetSection 0, RateSection 0 5, CallFailed 0]))) = [5, 5, 5]"
proof -
  let ?cfg = "\<lparr>gc_max_cost_per_day_cents = None, gc_max_actions_per_hour = Some (1 :: u64)\<rparr>"
  have "gc_max_actions_per_hour ?cfg = Some 1" "0 < (1 :: u64)" "gc_max_cost_per_day_cents ?cfg = None" by simp_all
  from failed_calls_uncounted [OF this, of "\<lambda>_. (0, 0)" 0 3 5]
  have "gr_let_through (foldl (guard_step (\<lambda>_. (0, 0))) (guard_run_new 1 0 ?cfg)
      (concat (replicate 3 [BudgetSection 0, RateSection 0 5, CallFailed 0]))) = replicate 3 5" by (simp only: guard_run.simps guard_run_new_def)
  moreover have "replicate 3 (5 :: nat) = [5, 5, 5]" by (simp add: numeral_3_eq_3)
  ultimately show ?thesis unfolding Let_def by (simp only:)
qed

text \<open>
  A blown budget is never forgiven.  \<open>check_allowed\<close> does not look at the date, and the counter is
  reset only by recording a call, which a loop does only after a passed check: once the budget
  is exceeded and no loop is in an iteration, every later attempt on whatever day is refused and neither the spending nor the flag
  ever changes.
\<close>

theorem budget_never_recovers:
  assumes "cg_budget_exceeded (gr_guard r)" and "\<forall>p \<in> set (gr_loops r). p = Idle"
    and "r' = foldl (guard_step rates) r es"
  shows "gr_let_through r' = gr_let_through r \<and> gr_recorded r' = gr_recorded r \<and>
    cg_budget_exceeded (gr_guard r') \<and> cg_total (gr_guard r') = cg_total (gr_guard r) \<and>
    cg_reset_date (gr_guard r') = cg_reset_date (gr_guard r) \<and>
    (\<exists>e. cg_check_allowed now (gr_guard r') = (gr_guard r', Err e))"
proof -
  have "gr_loops r' = gr_loops r \<and> gr_let_through r' = gr_let_through r \<and> gr_recorded r' = gr_recorded r \<and>
    cg_budget_exceeded (gr_guard r') \<and> cg_total (gr_guard r') = cg_total (gr_guard r) \<and>
    cg_reset_date (gr_guard r') = cg_reset_date (gr_guard r)"
    unfolding assms(3)
  proof (induction es rule: rev_induct)
    case (snoc e es)
    let ?q = "foldl (guard_step rates) r es"
    have idle: "in_phase ?q i p \<Longrightarrow> p = Idle \<and> (gr_loops r)[i := Idle] = gr_loops r" for i p
      using snoc assms(2) by (auto simp: in_phase_def list_update_same_conv)
    from snoc show ?case
      by (cases e) (auto dest: idle simp: check_section_def check_daily_def actions_this_hour_def Let_def)
  qed (simp add: assms(1))
  then show ?thesis by (simp add: cg_check_allowed_def check_daily_def)
qed

theorem budget_never_recovers_witness:
  "let cfg = \<lparr>gc_max_cost_per_day_cents = Some 1, gc_max_actions_per_hour = None\<rparr>;
       g = fst (record_llm_call (\<lambda>_. (1, 1)) 0 5 (cost_guard_new 0 cfg) ''m'' 1 1);
       r = \<lparr>gr_guard = g, gr_loops = [Idle, Idle], gr_let_through = [], gr_recorded = []\<rparr>;
       r' = foldl (guard_step (\<lambda>_. (1, 1))) r [BudgetSection 0, RateSection 0 (9 * 24 * HOUR)]
   in daily_spend 9 (gr_guard r') = 0 \<and> gr_let_through r' = [] \<and>
      (\<exists>e. cg_check_allowed (9 * 24 * HOUR) (gr_guard r') = (gr_guard r', Err e))"
proof -
  let ?cfg = "\<lparr>gc_max_cost_per_day_cents = Some 1, gc_max_actions_per_hour = None\<rparr>"
  let ?g = "fst (record_llm_call (\<lambda>_. (1, 1)) 0 5 (cost_guard_new 0 ?cfg) ''m'' 1 1)"
  let ?r = "\<lparr>gr_guard = ?g, gr_loops = [Idle, Idle], gr_let_through = [], gr_recorded = []\<rparr>"
  have "cg_budget_exceeded (gr_guard ?r)" "\<forall>p \<in> set (gr_loops ?r). p = Idle" "cg_reset_date ?g = 0"
    by (simp_all add: record_llm_call_def record_spend_def record_action_def cost_guard_new_def to_cents_def Let_def)
  from budget_never_recovers [OF this(1,2) refl, of "\<lambda>_. (1, 1)" "[BudgetSection 0, RateSection 0 (9 * 24 * HOUR)]" "9 * 24 * HOUR"]
    this(3) show ?thesis by (simp add: Let_def daily_spend_def del: guard_step.simps foldl_Cons)
qed

end
