(* ===== verification/Allowlist.thy ===== *)
theory Allowlist
  imports Prelude
begin

text \<open>
  Where tools and sandboxed processes may connect: the endpoint patterns and the allowlist of WASM
  tools (\<^verbatim>\<open>src/src/tools/wasm/capabilities.rs\<close>, \<^verbatim>\<open>src/src/tools/wasm/allowlist.rs\<close>) and the domain
  allowlist of the network proxy (\<^verbatim>\<open>src/src/sandbox/proxy/allowlist.rs\<close>).  \<open>Url::parse\<close> (crate url)
  is the parameter \<open>url_parse\<close>, \<open>urlencoding::decode\<close> the parameter \<open>decode\<close>.

  The two matchers of host patterns are instances of one interface, the locale \<open>host_matcher\<close>.
\<close>

section \<open>Endpoint patterns\<close>

record endpoint_pattern =
  ep_host :: string
  ep_path_prefix :: "string option"
  ep_methods :: "string list"

definition host_matches :: "string \<Rightarrow> string \<Rightarrow> bool" where
  "host_matches pattern url_host \<longleftrightarrow>
     pattern = url_host \<or>
     (case strip_prefix pattern ''*.'' of
        Some sfx \<Rightarrow>
          ends_with url_host sfx \<and> length url_host > length sfx \<and>
          (let pfx = take (length url_host - length sfx) url_host
           in ends_with pfx ''.'' \<or> pfx = [])
      | None \<Rightarrow> False)"

definition endpoint_matches :: "endpoint_pattern \<Rightarrow> string \<Rightarrow> string \<Rightarrow> string \<Rightarrow> bool" where
  "endpoint_matches p url_host url_path meth \<longleftrightarrow>
     (if \<not> host_matches (ep_host p) url_host then False
      else if (case ep_path_prefix p of Some pfx \<Rightarrow> \<not> starts_with url_path pfx | None \<Rightarrow> False) then False
      else if ep_methods p \<noteq> [] \<and> \<not> list_ex (\<lambda>m. to_uppercase m = to_uppercase meth) (ep_methods p) then False
      else True)"

section \<open>The allowlist of a tool\<close>

datatype deny_reason =
    InvalidUrl string
  | HostNotAllowed string
  | PathNotAllowed string string
  | MethodNotAllowed string string
  | EmptyAllowlist
  | InsecureScheme string

datatype allowlist_result = Allowed | Denied deny_reason

record url_parts =
  up_scheme :: string
  up_username :: string
  up_password :: "string option"
  up_host :: "string option"
  up_path :: string

record parsed_url =
  pu_scheme :: string
  pu_host :: string
  pu_path :: string

definition is_hexdigit :: "char \<Rightarrow> bool" where
  "is_hexdigit c \<longleftrightarrow> (48 \<le> char_code c \<and> char_code c \<le> 57) \<or> (65 \<le> char_code c \<and> char_code c \<le> 70) \<or>
     (97 \<le> char_code c \<and> char_code c \<le> 102)"

fun has_valid_percent_encoding :: "string \<Rightarrow> bool" where
  "has_valid_percent_encoding [] = True"
| "has_valid_percent_encoding (c # cs) =
     (if c = CHR ''%''
      then (case cs of
              a # b # rest \<Rightarrow> is_hexdigit a \<and> is_hexdigit b \<and> has_valid_percent_encoding rest
            | _ \<Rightarrow> False)
      else has_valid_percent_encoding cs)"

fun normalize_segments ::
  "(string \<Rightarrow> string option) \<Rightarrow> string list \<Rightarrow> string list \<Rightarrow> (string, string list) result" where
  "normalize_segments decode [] segments = Ok segments"
| "normalize_segments decode (raw # raws) segments =
     (if \<not> has_valid_percent_encoding raw
      then Err (''Invalid percent-encoding in path segment: '' @ raw)
      else case decode raw of
        None \<Rightarrow> Err (''Invalid percent-encoding in path segment: '' @ raw)
      | Some segment \<Rightarrow>
          if CHR ''/'' \<in> set segment \<or> CHR 0x5C \<in> set segment
          then Err ''Path segment contains encoded path separator''
          else if segment = [] \<or> segment = ''.'' then normalize_segments decode raws segments
          else if segment = ''..'' then normalize_segments decode raws (butlast segments)
          else normalize_segments decode raws (segments @ [segment]))"

definition normalize_path :: "(string \<Rightarrow> string option) \<Rightarrow> string \<Rightarrow> (string, string) result" where
  "normalize_path decode path =
     (case normalize_segments decode (split_on (CHR ''/'') path) [] of
        Err e \<Rightarrow> Err e
      | Ok segments \<Rightarrow>
          let r = ''/'' @ join ''/'' segments
          in Ok (if length path > 1 \<and> ends_with path ''/'' \<and> \<not> ends_with r ''/'' then r @ ''/'' else r))"

definition strip_brackets :: "string \<Rightarrow> string" where
  "strip_brackets host =
     (case Option.bind (strip_prefix host ''['') (\<lambda>h. strip_suffix h '']'') of Some h \<Rightarrow> h | None \<Rightarrow> host)"

definition parse_url ::
  "(string \<Rightarrow> (string, url_parts) result) \<Rightarrow> (string \<Rightarrow> string option) \<Rightarrow> string \<Rightarrow> (string, parsed_url) result" where
  "parse_url url_parse decode url =
     (case url_parse url of
        Err e \<Rightarrow> Err (''URL parse failed: '' @ e)
      | Ok parsed \<Rightarrow>
          let scheme = to_lowercase (up_scheme parsed)
          in if scheme \<noteq> ''http'' \<and> scheme \<noteq> ''https'' then Err (''Unsupported scheme: '' @ scheme)
             else if up_username parsed \<noteq> [] \<or> up_password parsed \<noteq> None
             then Err ''URL contains userinfo (@) which is not allowed''
             else case up_host parsed of
               None \<Rightarrow> Err ''Empty host''
             | Some host \<Rightarrow>
                 (case normalize_path decode (up_path parsed) of
                    Err e \<Rightarrow> Err e
                  | Ok path \<Rightarrow>
                      Ok \<lparr>pu_scheme = scheme, pu_host = to_lowercase (strip_brackets host), pu_path = path\<rparr>))"

record allowlist_validator =
  av_patterns :: "endpoint_pattern list"
  av_require_https :: bool

definition allowlist_validator_new :: "endpoint_pattern list \<Rightarrow> allowlist_validator" where
  "allowlist_validator_new patterns = \<lparr>av_patterns = patterns, av_require_https = True\<rparr>"

definition allow_http :: "allowlist_validator \<Rightarrow> allowlist_validator" where
  "allow_http v = v\<lparr>av_require_https := False\<rparr>"

definition deny_why :: "endpoint_pattern list \<Rightarrow> parsed_url \<Rightarrow> string \<Rightarrow> deny_reason" where
  "deny_why patterns parsed meth =
     (let host_ok = filter (\<lambda>p. host_matches (ep_host p) (pu_host parsed)) patterns
      in if host_ok = [] then HostNotAllowed (pu_host parsed)
         else if filter (\<lambda>p. ep_path_prefix p = None \<or>
                   starts_with (pu_path parsed) (case ep_path_prefix p of Some x \<Rightarrow> x | None \<Rightarrow> [])) host_ok = []
         then PathNotAllowed (pu_host parsed) (pu_path parsed)
         else MethodNotAllowed meth (pu_host parsed))"

definition validate ::
  "(string \<Rightarrow> (string, url_parts) result) \<Rightarrow> (string \<Rightarrow> string option) \<Rightarrow> allowlist_validator \<Rightarrow>
   string \<Rightarrow> string \<Rightarrow> allowlist_result" where
  "validate url_parse decode v url meth =
     (if av_patterns v = [] then Denied EmptyAllowlist
      else case parse_url url_parse decode url of
        Err e \<Rightarrow> Denied (InvalidUrl e)
      | Ok parsed \<Rightarrow>
          if av_require_https v \<and> pu_scheme parsed \<noteq> ''https''
          then Denied (InsecureScheme (pu_scheme parsed))
          else if list_ex (\<lambda>p. endpoint_matches p (pu_host parsed) (pu_path parsed) meth) (av_patterns v)
          then Allowed
          else Denied (deny_why (av_patterns v) parsed meth))"

definition host_allowed :: "allowlist_validator \<Rightarrow> string \<Rightarrow> bool" where
  "host_allowed v host \<longleftrightarrow> list_ex (\<lambda>p. host_matches (ep_host p) host) (av_patterns v)"

section \<open>The domains of the proxy\<close>

record domain_pattern =
  dp_pattern :: string
  dp_is_wildcard :: bool
  dp_base_domain :: string

definition domain_pattern_new :: "string \<Rightarrow> domain_pattern" where
  "domain_pattern_new pattern =
     (let is_wildcard = starts_with pattern ''*.''
      in \<lparr>dp_pattern = pattern, dp_is_wildcard = is_wildcard,
          dp_base_domain = (if is_wildcard then to_lowercase (drop 2 pattern) else to_lowercase pattern)\<rparr>)"

definition domain_matches :: "domain_pattern \<Rightarrow> string \<Rightarrow> bool" where
  "domain_matches p host \<longleftrightarrow>
     (let host_lower = to_lowercase host
      in if dp_is_wildcard p
         then host_lower = dp_base_domain p \<or> ends_with host_lower (''.'' @ dp_base_domain p)
         else host_lower = dp_base_domain p)"

datatype domain_validation_result = DomainAllowed | DomainDenied string

definition domain_is_allowed :: "domain_pattern list \<Rightarrow> string \<Rightarrow> domain_validation_result" where
  "domain_is_allowed patterns host =
     (if patterns = [] then DomainDenied ''empty allowlist''
      else if list_ex (\<lambda>p. domain_matches p host) patterns then DomainAllowed
      else DomainDenied (''host '' @ [CHR 0x27] @ host @ [CHR 0x27] @ '' not in allowlist: ['' @
             join '', '' (map dp_pattern patterns) @ '']''))"

definition extract_host :: "(string \<Rightarrow> (string, url_parts) result) \<Rightarrow> string \<Rightarrow> string option" where
  "extract_host url_parse url =
     (case url_parse url of
        Err _ \<Rightarrow> None
      | Ok parsed \<Rightarrow>
          if up_scheme parsed \<noteq> ''http'' \<and> up_scheme parsed \<noteq> ''https'' then None
          else map_option (\<lambda>h. to_lowercase (strip_brackets h)) (up_host parsed))"

section \<open>The interface of a host matcher\<close>

text \<open>A name is the domain or one of its subdomains.\<close>

definition under :: "string \<Rightarrow> string \<Rightarrow> bool" where
  "under domain host \<longleftrightarrow> host = domain \<or> ends_with host (''.'' @ domain)"

locale host_matcher =
  fixes matches :: "string \<Rightarrow> string \<Rightarrow> bool"
    and norm :: "string \<Rightarrow> string"
  assumes plain: "\<not> starts_with p ''*.'' \<Longrightarrow> matches p h \<longleftrightarrow> norm h = norm p"
    and wildcard: "matches (''*.'' @ d) h \<Longrightarrow> under (norm d) (norm h) \<or> norm h = norm (''*.'' @ d)"
    and subdomain: "norm h = x @ ''.'' @ norm d \<Longrightarrow> matches (''*.'' @ d) h"
begin

definition covers :: "string \<Rightarrow> string \<Rightarrow> bool" where
  "covers p h \<longleftrightarrow> norm h = norm p \<or> (case strip_prefix p ''*.'' of Some d \<Rightarrow> under (norm d) (norm h) | None \<Rightarrow> False)"

lemma matches_covers: "matches p h \<Longrightarrow> covers p h"
proof (cases "starts_with p ''*.''")
  case True
  then obtain d where d: "p = ''*.'' @ d" by (auto simp: starts_with_iff)
  then have "strip_prefix p ''*.'' = Some d" by (simp add: strip_prefix_Some)
  moreover assume "matches p h"
  ultimately show ?thesis using wildcard [of d h] d by (auto simp: covers_def)
next
  case False
  moreover assume "matches p h"
  ultimately show ?thesis by (simp add: covers_def plain)
qed

lemma allowed_covers: "list_ex (\<lambda>p. matches p h) ps \<Longrightarrow> \<exists>p \<in> set ps. covers p h"
  by (auto simp: list_ex_iff intro: matches_covers)

text \<open>A name that merely ends in the domain's letters is not let in.\<close>

lemma no_lookalike:
  assumes "norm h = x @ [c] @ norm d" and "c \<noteq> CHR ''.''" and "norm h \<noteq> norm (''*.'' @ d)"
  shows "\<not> matches (''*.'' @ d) h"
proof
  assume "matches (''*.'' @ d) h"
  with wildcard assms(3) have "under (norm d) (norm h)" by blast
  then obtain y where "norm h = norm d \<or> norm h = y @ ''.'' @ norm d" by (auto simp: under_def ends_with_iff)
  with assms(1,2) show False by auto
qed

end

lemma host_matches_wild:
  "host_matches (''*.'' @ d) h \<longleftrightarrow> h = ''*.'' @ d \<or> (\<exists>x. h = x @ ''.'' @ d)"
proof -
  have sp: "strip_prefix (''*.'' @ d) ''*.'' = Some d" by (simp only: strip_prefix_Some)
  have "(ends_with h d \<and> length h > length d \<and>
      (let pfx = take (length h - length d) h in ends_with pfx ''.'' \<or> pfx = [])) \<longleftrightarrow> (\<exists>x. h = x @ ''.'' @ d)"
    by (auto simp: ends_with_iff Let_def)
  then show ?thesis unfolding host_matches_def sp by auto
qed

interpretation endpoint_host: host_matcher host_matches "\<lambda>h. h"
proof unfold_locales
  fix p h :: string
  show "host_matches p h \<longleftrightarrow> h = p" if "\<not> starts_with p ''*.''"
    using that by (auto simp: host_matches_def strip_prefix_def)
next
  fix d h :: string
  show "under d h \<or> h = ''*.'' @ d" if "host_matches (''*.'' @ d) h"
    using that unfolding host_matches_wild by (auto simp: under_def ends_with_iff)
next
  fix h x d :: string
  show "host_matches (''*.'' @ d) h" if "h = x @ ''.'' @ d" using that unfolding host_matches_wild by blast
qed

lemma domain_matches_wild:
  "domain_matches (domain_pattern_new (''*.'' @ d)) h \<longleftrightarrow> under (to_lowercase d) (to_lowercase h)"
proof -
  have "starts_with (''*.'' @ d) ''*.''" by (simp add: starts_with_def)
  then show ?thesis by (simp add: domain_matches_def domain_pattern_new_def under_def Let_def)
qed

interpretation proxy_host: host_matcher "\<lambda>p. domain_matches (domain_pattern_new p)" to_lowercase
proof unfold_locales
  fix p h :: string
  show "domain_matches (domain_pattern_new p) h \<longleftrightarrow> to_lowercase h = to_lowercase p" if "\<not> starts_with p ''*.''"
    using that by (simp add: domain_matches_def domain_pattern_new_def Let_def)
next
  fix d h :: string
  show "under (to_lowercase d) (to_lowercase h) \<or> to_lowercase h = to_lowercase (''*.'' @ d)"
    if "domain_matches (domain_pattern_new (''*.'' @ d)) h" using that unfolding domain_matches_wild by blast
next
  fix h x d :: string
  show "domain_matches (domain_pattern_new (''*.'' @ d)) h" if "to_lowercase h = x @ ''.'' @ to_lowercase d"
    using that unfolding domain_matches_wild by (auto simp: under_def ends_with_iff)
qed

section \<open>Normalized paths\<close>

definition plain_segment :: "string \<Rightarrow> bool" where
  "plain_segment w \<longleftrightarrow> w \<noteq> [] \<and> w \<noteq> ''.'' \<and> w \<noteq> ''..'' \<and> CHR ''/'' \<notin> set w"

lemma normalize_segments_plain:
  "normalize_segments decode raws acc = Ok segs \<Longrightarrow> \<forall>w \<in> set acc. plain_segment w \<Longrightarrow> \<forall>w \<in> set segs. plain_segment w"
proof (induction raws arbitrary: acc)
  case (Cons raw raws)
  from Cons.prems(1) obtain seg where raw: "has_valid_percent_encoding raw" "decode raw = Some seg"
    "\<not> (CHR ''/'' \<in> set seg \<or> CHR 0x5C \<in> set seg)"
    by (cases "decode raw"; simp split: if_splits)
  have rest: "\<forall>w \<in> set (butlast acc). plain_segment w" using Cons.prems(2) by (meson in_set_butlastD)
  consider "seg = [] \<or> seg = ''.''" | "seg = ''..''" | "seg \<noteq> []" "seg \<noteq> ''.''" "seg \<noteq> ''..''" by blast
  then show ?case
  proof cases
    case 3
    with raw have "\<forall>w \<in> set (acc @ [seg]). plain_segment w" using Cons.prems(2) by (simp add: plain_segment_def)
    with 3 raw Cons.prems(1) show ?thesis by (intro Cons.IH [of "acc @ [seg]"]) simp_all
  qed (use raw rest Cons in \<open>simp_all\<close>)
qed simp

lemma split_slash_join:
  assumes "\<forall>w \<in> set segs. plain_segment w" and "segs \<noteq> []"
  shows "split_on (CHR ''/'') (''/'' @ join ''/'' segs) = [] # segs"
proof -
  have "split_on (CHR ''/'') (join [CHR ''/''] segs) = segs"
    using assms by (intro split_on_join) (auto simp: plain_segment_def)
  then show ?thesis by (simp add: split_on_def)
qed

lemma join_snoc_Nil: "segs \<noteq> [] \<Longrightarrow> join sep (segs @ [[]]) = join sep segs @ sep"
proof (induction segs)
  case (Cons w ws)
  then show ?case by (cases "ws = []") (simp_all add: join_Cons)
qed simp

lemma normalize_path_shape:
  assumes "normalize_path decode path = Ok q"
  obtains segs where "\<forall>w \<in> set segs. plain_segment w"
    and "q = ''/'' @ join ''/'' segs \<or> q = (''/'' @ join ''/'' segs) @ ''/''"
proof (cases "normalize_segments decode (split_on (CHR ''/'') path) []")
  case (Inr segs)
  show ?thesis
  proof (rule that [of segs])
    show "\<forall>w \<in> set segs. plain_segment w" using normalize_segments_plain [OF Inr] by simp
    show "q = ''/'' @ join ''/'' segs \<or> q = (''/'' @ join ''/'' segs) @ ''/''"
      using assms Inr by (auto simp: normalize_path_def Let_def split: if_splits)
  qed
qed (use assms in \<open>simp add: normalize_path_def\<close>)

lemma normalize_path_no_dots:
  assumes "normalize_path decode path = Ok q" and "w \<in> set (split_on (CHR ''/'') q)"
  shows "w \<noteq> ''.'' \<and> w \<noteq> ''..''"
proof -
  obtain segs where segs: "\<forall>w \<in> set segs. plain_segment w"
    "q = ''/'' @ join ''/'' segs \<or> q = (''/'' @ join ''/'' segs) @ ''/''"
    by (rule normalize_path_shape [OF assms(1)])
  have one: "w \<in> set segs \<or> w = []" if "w \<in> set (split_on (CHR ''/'') (''/'' @ join ''/'' segs))"
    using that split_slash_join [OF segs(1)] by (cases "segs = []") (auto simp: split_on_def)
  have two: "w \<in> set segs \<or> w = []" if "w \<in> set (split_on (CHR ''/'') ((''/'' @ join ''/'' segs) @ ''/''))"
  proof (cases "segs = []")
    case False
    have "(''/'' @ join ''/'' segs) @ ''/'' = ''/'' @ join ''/'' (segs @ [[]])"
      using False by (simp add: join_snoc_Nil)
    moreover have "split_on (CHR ''/'') (join [CHR ''/''] (segs @ [[]])) = segs @ [[]]"
      using segs(1) by (intro split_on_join) (auto simp: plain_segment_def)
    ultimately show ?thesis using that by (auto simp: split_on_def)
  qed (use that in \<open>auto simp: split_on_def\<close>)
  from segs(2) assms(2) one two show ?thesis using segs(1) by (auto simp: plain_segment_def)
qed

section \<open>Properties\<close>

text \<open>
  C16: A request is allowed only where the allowlist says.  If the validator allows a request, the URL
  parses without user information, is https where https is required, its path contains no dot
  segment after decoding, and one pattern covers it: its host is the pattern's or, for a wildcard,
  lies under its domain, its path starts with the pattern's prefix, and its method is listed.
\<close>

theorem allowlist_sound:
  assumes "validate url_parse decode v url meth = Allowed"
  shows "\<exists>parts parsed p. url_parse url = Ok parts \<and> up_username parts = [] \<and> up_password parts = None \<and>
    parse_url url_parse decode url = Ok parsed \<and>
    (av_require_https v \<longrightarrow> pu_scheme parsed = ''https'') \<and>
    (\<forall>w \<in> set (split_on (CHR ''/'') (pu_path parsed)). w \<noteq> ''.'' \<and> w \<noteq> ''..'') \<and>
    p \<in> set (av_patterns v) \<and> endpoint_host.covers (ep_host p) (pu_host parsed) \<and>
    (\<forall>x. ep_path_prefix p = Some x \<longrightarrow> starts_with (pu_path parsed) x) \<and>
    (ep_methods p = [] \<or> to_uppercase meth \<in> to_uppercase ` set (ep_methods p))"
proof -
  obtain parsed where parsed: "parse_url url_parse decode url = Ok parsed"
    "av_require_https v \<longrightarrow> pu_scheme parsed = ''https''"
    "list_ex (\<lambda>p. endpoint_matches p (pu_host parsed) (pu_path parsed) meth) (av_patterns v)"
    using assms by (auto simp: validate_def split: if_splits sum.splits)
  obtain parts where parts: "url_parse url = Ok parts" "up_username parts = []" "up_password parts = None"
    "normalize_path decode (up_path parts) = Ok (pu_path parsed)"
    using parsed(1) by (auto simp: parse_url_def Let_def split: if_splits sum.splits option.splits)
  obtain p where p: "p \<in> set (av_patterns v)" "endpoint_matches p (pu_host parsed) (pu_path parsed) meth"
    using parsed(3) by (auto simp: list_ex_iff)
  then have "host_matches (ep_host p) (pu_host parsed)" "\<forall>x. ep_path_prefix p = Some x \<longrightarrow> starts_with (pu_path parsed) x"
    "ep_methods p = [] \<or> to_uppercase meth \<in> to_uppercase ` set (ep_methods p)"
    by (fastforce simp: endpoint_matches_def list_ex_iff image_iff split: if_splits option.splits)+
  then show ?thesis using parsed parts p normalize_path_no_dots [OF parts(4)] endpoint_host.matches_covers
    by blast
qed

definition sample_url_parse :: "string \<Rightarrow> (string, url_parts) result" where
  "sample_url_parse url = (if starts_with url ''https://''
     then Ok \<lparr>up_scheme = ''https'', up_username = [], up_password = None, up_host = Some (drop 8 url), up_path = ''/''\<rparr>
     else Err ''bad'')"

theorem allowlist_sound_witness:
  "\<exists>p \<in> set [\<lparr>ep_host = ''*.x.io'', ep_path_prefix = None, ep_methods = []\<rparr>]. endpoint_host.covers (ep_host p) ''a.x.io''"
proof -
  let ?v = "allowlist_validator_new [\<lparr>ep_host = ''*.x.io'', ep_path_prefix = None, ep_methods = []\<rparr>]"
  have v: "validate sample_url_parse Some ?v ''https://A.x.io'' ''GET'' = Allowed" by code_simp
  have "parse_url sample_url_parse Some ''https://A.x.io'' = Ok \<lparr>pu_scheme = ''https'', pu_host = ''a.x.io'', pu_path = ''/''\<rparr>"
    by code_simp
  with allowlist_sound [OF v] show ?thesis by (auto simp: allowlist_validator_new_def)
qed

end
