(* ===== verification/Pairing.thy ===== *)
theory Pairing
  imports Prelude
begin

text \<open>
  Who may talk to the agent: the pairing store of \<^verbatim>\<open>src/src/pairing/store.rs\<close>.  The three files of a
  channel are association lists from the channel's key to the decoded content; opening a file with
  truncation leaves it empty.  Failures of the file system are not modelled.  Clock, time formats
  and random codes are arguments.
\<close>

section \<open>State\<close>

definition PAIRING_CODE_LENGTH :: nat where "PAIRING_CODE_LENGTH = 8"
definition PAIRING_PENDING_TTL_SECS :: nat where "PAIRING_PENDING_TTL_SECS = 15 * 60"
definition PAIRING_PENDING_MAX :: nat where "PAIRING_PENDING_MAX = 3"
definition PAIRING_APPROVE_RATE_LIMIT :: nat where "PAIRING_APPROVE_RATE_LIMIT = 10"
definition PAIRING_APPROVE_RATE_WINDOW_SECS :: nat where "PAIRING_APPROVE_RATE_WINDOW_SECS = 5 * 60"

datatype pairing_store_error = InvalidChannel string | ApproveRateLimited

record pairing_request =
  pr_id :: string
  pr_code :: string
  pr_created_at :: string
  pr_last_seen_at :: string
  pr_meta :: "json option"

record pairing_store =
  ps_pairing :: "(string \<times> pairing_request list) list"
  ps_allow_from :: "(string \<times> string list) list"
  ps_attempts :: "(string \<times> nat list) list"

text \<open>What the store reads from outside: the time in seconds, as text, and the decoding of a time
  stamp; the codes drawn at random and the suffix of the fallback.\<close>

record pairing_env =
  pe_now_secs :: nat
  pe_now_iso :: string
  pe_parse_timestamp :: "string \<Rightarrow> nat option"
  pe_codes :: "string list"
  pe_fallback :: string

section \<open>Channel keys\<close>

definition unsafe_char :: "char \<Rightarrow> bool" where
  "unsafe_char c \<longleftrightarrow> c \<in> set [CHR 0x5C, CHR ''/'', CHR '':'', CHR ''*'', CHR ''?'', CHR 0x22, CHR ''<'', CHR ''>'', CHR ''|'']"

definition safe_channel_key :: "string \<Rightarrow> (pairing_store_error, string) result" where
  "safe_channel_key channel =
     (let raw = to_lowercase (trim channel)
      in if raw = [] then Err (InvalidChannel ''empty'')
         else let safe = replace_str (map (\<lambda>c. if unsafe_char c then CHR ''_'' else c) raw) ''..'' ''_''
              in if safe = [] \<or> safe = ''_'' then Err (InvalidChannel channel) else Ok safe)"

section \<open>Requests\<close>

definition is_expired :: "pairing_env \<Rightarrow> pairing_request \<Rightarrow> bool" where
  "is_expired env r \<longleftrightarrow>
     pe_now_secs env - (case pe_parse_timestamp env (pr_created_at r) of Some t \<Rightarrow> t | None \<Rightarrow> 0)
       > PAIRING_PENDING_TTL_SECS"

definition file_content :: "(string \<times> 'a list) list \<Rightarrow> string \<Rightarrow> 'a list" where
  "file_content f key = (case map_of f key of Some c \<Rightarrow> c | None \<Rightarrow> [])"

definition generate_unique_code :: "pairing_env \<Rightarrow> string list \<Rightarrow> string" where
  "generate_unique_code env existing =
     (case find (\<lambda>c. c \<notin> set existing) (take 500 (pe_codes env)) of
        Some c \<Rightarrow> c
      | None \<Rightarrow> pe_fallback env)"

definition list_pending ::
  "pairing_env \<Rightarrow> (pairing_request list \<Rightarrow> pairing_request list) \<Rightarrow> pairing_store \<Rightarrow> string \<Rightarrow>
   pairing_store \<times> (pairing_store_error, pairing_request list) result" where
  "list_pending env sort_by_created s channel =
     (case safe_channel_key channel of
        Err e \<Rightarrow> (s, Err e)
      | Ok key \<Rightarrow>
          (case map_of (ps_pairing s) key of
             None \<Rightarrow> (s, Ok [])
           | Some reqs \<Rightarrow>
               let live = filter (\<lambda>r. \<not> is_expired env r) reqs
               in (if length live \<noteq> length reqs
                   then s\<lparr>ps_pairing := AList.update key live (ps_pairing s)\<rparr> else s,
                   Ok (sort_by_created live))))"

definition upsert_request ::
  "pairing_env \<Rightarrow> pairing_store \<Rightarrow> string \<Rightarrow> string \<Rightarrow> json option \<Rightarrow>
   pairing_store \<times> (pairing_store_error, string \<times> bool) result" where
  "upsert_request env s channel id0 meta =
     (case safe_channel_key channel of
        Err e \<Rightarrow> (s, Err e)
      | Ok key \<Rightarrow>
          let s1 = (if map_of (ps_pairing s) key = None
                    then s\<lparr>ps_pairing := AList.update key [] (ps_pairing s)\<rparr> else s);
              i = trim id0
          in if i = [] then (s1, Err (InvalidChannel ''empty id''))
             else
               let live = filter (\<lambda>r. \<not> is_expired env r) (file_content (ps_pairing s1) key);
                   codes = map (\<lambda>r. to_uppercase (pr_code r)) live
               in case position (\<lambda>r. pr_id r = i) live of
                    Some idx \<Rightarrow>
                      let req = live ! idx;
                          code = (if pr_code req = [] then generate_unique_code env codes else pr_code req);
                          req' = req\<lparr>pr_last_seen_at := pe_now_iso env, pr_code := code,
                                    pr_meta := (case meta of Some m \<Rightarrow> Some m | None \<Rightarrow> pr_meta req)\<rparr>
                      in (s1\<lparr>ps_pairing := AList.update key (live[idx := req']) (ps_pairing s1)\<rparr>, Ok (code, False))
                  | None \<Rightarrow>
                      if length live \<ge> PAIRING_PENDING_MAX then (s1, Ok ([], False))
                      else
                        let code = generate_unique_code env codes;
                            req = \<lparr>pr_id = i, pr_code = code, pr_created_at = pe_now_iso env,
                                   pr_last_seen_at = pe_now_iso env, pr_meta = meta\<rparr>
                        in (s1\<lparr>ps_pairing := AList.update key (live @ [req]) (ps_pairing s1)\<rparr>, Ok (code, True)))"

section \<open>Approval\<close>

definition recent_failures :: "pairing_env \<Rightarrow> nat list \<Rightarrow> nat list" where
  "recent_failures env ts = filter (\<lambda>t. pe_now_secs env - PAIRING_APPROVE_RATE_WINDOW_SECS \<le> t) ts"

definition is_approve_rate_limited :: "pairing_env \<Rightarrow> pairing_store \<Rightarrow> string \<Rightarrow> bool" where
  "is_approve_rate_limited env s key \<longleftrightarrow>
     length (recent_failures env (file_content (ps_attempts s) key)) \<ge> PAIRING_APPROVE_RATE_LIMIT"

definition record_failed_approve :: "pairing_env \<Rightarrow> pairing_store \<Rightarrow> string \<Rightarrow> pairing_store" where
  "record_failed_approve env s key =
     s\<lparr>ps_attempts := AList.update key
         (recent_failures env (file_content (ps_attempts s) key @ [pe_now_secs env])) (ps_attempts s)\<rparr>"

definition add_allow_from :: "pairing_store \<Rightarrow> string \<Rightarrow> string \<Rightarrow> pairing_store" where
  "add_allow_from s key entry0 =
     (let entry = trim entry0
      in if entry = [] then s
         else
           let s1 = s\<lparr>ps_allow_from := AList.update key [] (ps_allow_from s)\<rparr>;
               allow = file_content (ps_allow_from s1) key
           in if list_ex (\<lambda>e. to_lowercase e = to_lowercase entry) allow then s1
              else s1\<lparr>ps_allow_from := AList.update key (allow @ [entry]) (ps_allow_from s1)\<rparr>)"

definition remove_at :: "nat \<Rightarrow> 'a list \<Rightarrow> 'a list" where
  "remove_at i xs = take i xs @ drop (Suc i) xs"

definition approve ::
  "pairing_env \<Rightarrow> pairing_store \<Rightarrow> string \<Rightarrow> string \<Rightarrow>
   pairing_store \<times> (pairing_store_error, pairing_request option) result" where
  "approve env s channel code0 =
     (let code = to_uppercase (trim code0)
      in if code = [] then (s, Ok None)
         else case safe_channel_key channel of
           Err e \<Rightarrow> (s, Err e)
         | Ok key \<Rightarrow>
             if is_approve_rate_limited env s key then (s, Err ApproveRateLimited)
             else case map_of (ps_pairing s) key of
               None \<Rightarrow> (s, Err (InvalidChannel ''no pairing file''))
             | Some reqs \<Rightarrow>
                 let live = filter (\<lambda>r. \<not> is_expired env r) reqs
                 in case position (\<lambda>r. to_uppercase (pr_code r) = code) live of
                      None \<Rightarrow> (record_failed_approve env s key, Ok None)
                    | Some i \<Rightarrow>
                        (add_allow_from
                           (s\<lparr>ps_pairing := AList.update key (remove_at i live) (ps_pairing s)\<rparr>)
                           key (pr_id (live ! i)),
                         Ok (Some (live ! i))))"

definition read_allow_from :: "pairing_store \<Rightarrow> string \<Rightarrow> (pairing_store_error, string list) result" where
  "read_allow_from s channel =
     (case safe_channel_key channel of
        Err e \<Rightarrow> Err e
      | Ok key \<Rightarrow> Ok (file_content (ps_allow_from s) key))"

definition is_sender_allowed ::
  "pairing_store \<Rightarrow> string \<Rightarrow> string \<Rightarrow> string option \<Rightarrow> (pairing_store_error, bool) result" where
  "is_sender_allowed s channel id0 username =
     (case read_allow_from s channel of
        Err e \<Rightarrow> Err e
      | Ok allow \<Rightarrow>
          if list_ex (\<lambda>e. trim e = trim id0) allow then Ok True
          else case username of
            None \<Rightarrow> Ok False
          | Some u0 \<Rightarrow>
              let u = to_lowercase (trim u0);
                  u_norm = (case strip_prefix u ''@'' of Some n \<Rightarrow> n | None \<Rightarrow> u)
              in Ok (list_ex (\<lambda>e. to_lowercase (trim e) = u \<or> to_lowercase (trim e) = ''@'' @ u_norm) allow))"

section \<open>Lemmas\<close>

lemma file_content_update [simp]:
  "file_content (AList.update k v f) j = (if j = k then v else file_content f j)"
  by (simp add: file_content_def distinct_map_of_update)

text \<open>Replacing two dots leaves no two dots.\<close>

lemma replace_dots_head:
  "replace_nonempty ''..'' ''_'' s = CHR ''.'' # t \<Longrightarrow> \<exists>s'. s = CHR ''.'' # s' \<and> \<not> starts_with s' ''.''"
  by (subst (asm) replace_nonempty.simps) (cases s, auto simp: starts_with_def split: if_splits)

lemma replace_dots: "\<not> contains (replace_nonempty ''..'' ''_'' s) ''..''"
proof (induction "length s" arbitrary: s rule: less_induct)
  case less
  show ?case
  proof (cases s)
    case Nil
    then show ?thesis by (subst replace_nonempty.simps) simp
  next
    case (Cons c cs)
    show ?thesis
    proof (cases "starts_with s ''..''")
      case True
      have "\<not> contains (replace_nonempty ''..'' ''_'' (drop 2 s)) ''..''" using Cons by (intro less) simp
      with True Cons show ?thesis by (subst replace_nonempty.simps) (simp add: starts_with_def)
    next
      case False
      have step: "replace_nonempty ''..'' ''_'' s = c # replace_nonempty ''..'' ''_'' cs"
        using False Cons by (subst replace_nonempty.simps) simp
      have rest: "\<not> contains (replace_nonempty ''..'' ''_'' cs) ''..''" using Cons by (intro less) simp
      have "\<not> starts_with (c # replace_nonempty ''..'' ''_'' cs) ''..''"
      proof
        assume "starts_with (c # replace_nonempty ''..'' ''_'' cs) ''..''"
        then obtain t where t: "c = CHR ''.''" "replace_nonempty ''..'' ''_'' cs = CHR ''.'' # t"
          by (auto simp: starts_with_iff)
        from replace_dots_head [OF t(2)] t(1) False Cons show False by (auto simp: starts_with_def)
      qed
      with rest step show ?thesis by simp
    qed
  qed
qed

lemma unsafe_underscore: "\<not> unsafe_char (CHR ''_'')"
  by (simp add: unsafe_char_def)

lemma safe_channel_key_safe:
  assumes "safe_channel_key channel = Ok key"
  shows "key \<noteq> [] \<and> (\<forall>c \<in> set key. \<not> unsafe_char c) \<and> \<not> contains key ''..''"
proof -
  define raw where "raw = map (\<lambda>c. if unsafe_char c then CHR ''_'' else c) (to_lowercase (trim channel))"
  have key: "key = replace_nonempty ''..'' ''_'' raw" "key \<noteq> []"
    using assms by (auto simp: safe_channel_key_def Let_def replace_str_def raw_def split: if_splits)
  have "\<forall>c \<in> set raw. \<not> unsafe_char c" by (auto simp: raw_def unsafe_underscore)
  moreover have "set key \<subseteq> set raw \<union> {CHR ''_''}" using replace_set [of "''..''" "''_''" raw] key by simp
  ultimately show ?thesis using key replace_dots unsafe_underscore by blast
qed

lemma add_allow_from_content:
  "trim entry \<noteq> [] \<Longrightarrow> file_content (ps_allow_from (add_allow_from s key entry)) j =
     (if j = key then [trim entry] else file_content (ps_allow_from s) j)"
  by (simp add: add_allow_from_def Let_def)

lemma add_allow_from_pairing [simp]: "ps_pairing (add_allow_from s key entry) = ps_pairing s"
  by (simp add: add_allow_from_def Let_def)

lemma approve_Some:
  assumes "approve env s channel code = (s', Ok (Some r))"
  shows "\<exists>key reqs i. safe_channel_key channel = Ok key \<and> \<not> is_approve_rate_limited env s key \<and>
    map_of (ps_pairing s) key = Some reqs \<and>
    position (\<lambda>r. to_uppercase (pr_code r) = to_uppercase (trim code)) (filter (\<lambda>r. \<not> is_expired env r) reqs) = Some i \<and>
    r = filter (\<lambda>r. \<not> is_expired env r) reqs ! i \<and>
    s' = add_allow_from (s\<lparr>ps_pairing := AList.update key (remove_at i (filter (\<lambda>r. \<not> is_expired env r) reqs)) (ps_pairing s)\<rparr>)
           key (pr_id r)"
  using assms by (auto simp: approve_def Let_def split: if_splits option.splits sum.splits)

section \<open>The machine of the store\<close>

datatype pairing_event =
    ListPending pairing_env string
  | Upsert pairing_env string string "json option"
  | Approve pairing_env string string

fun pairing_step :: "pairing_store \<Rightarrow> pairing_event \<Rightarrow> pairing_store" where
  "pairing_step s (ListPending env ch) = fst (list_pending env (\<lambda>rs. rs) s ch)"
| "pairing_step s (Upsert env ch i meta) = fst (upsert_request env s ch i meta)"
| "pairing_step s (Approve env ch code) = fst (approve env s ch code)"

definition pending_ok :: "pairing_store \<Rightarrow> bool" where
  "pending_ok s \<longleftrightarrow> (\<forall>(key, reqs) \<in> set (ps_pairing s). length reqs \<le> PAIRING_PENDING_MAX)"

lemma pending_ok_update:
  "pending_ok s \<Longrightarrow> length reqs \<le> PAIRING_PENDING_MAX \<Longrightarrow> pending_ok (s\<lparr>ps_pairing := AList.update key reqs (ps_pairing s)\<rparr>)"
  using set_update_subset [of key reqs "ps_pairing s"] by (fastforce simp: pending_ok_def)

lemma pending_ok_live:
  "pending_ok s \<Longrightarrow> length (filter P (file_content (ps_pairing s) key)) \<le> PAIRING_PENDING_MAX"
proof -
  assume ok: "pending_ok s"
  have "length (file_content (ps_pairing s) key) \<le> PAIRING_PENDING_MAX"
    using ok by (auto simp: file_content_def pending_ok_def dest!: map_of_SomeD split: option.splits)
  then show ?thesis using length_filter_le le_trans by blast
qed

lemma upsert_pending_ok: "pending_ok s \<Longrightarrow> pending_ok (fst (upsert_request env s ch i meta))"
proof (cases "safe_channel_key ch")
  case (Inr key)
  assume ok: "pending_ok s"
  define s1 where "s1 = (if map_of (ps_pairing s) key = None
      then s\<lparr>ps_pairing := AList.update key [] (ps_pairing s)\<rparr> else s)"
  have ok1: "pending_ok s1" using ok pending_ok_update [OF ok, of "[]" key] by (simp add: s1_def)
  let ?live = "filter (\<lambda>r. \<not> is_expired env r) (file_content (ps_pairing s1) key)"
  have live: "length ?live \<le> PAIRING_PENDING_MAX" by (rule pending_ok_live [OF ok1])
  have up: "pending_ok (s1\<lparr>ps_pairing := AList.update key rs (ps_pairing s1)\<rparr>)" if "length rs \<le> PAIRING_PENDING_MAX" for rs
    by (rule pending_ok_update [OF ok1 that])
  show ?thesis
    unfolding upsert_request_def Inr sum.case s1_def [symmetric] Let_def
    using ok1 live by (auto intro!: up split: option.split)
qed (simp add: upsert_request_def)

lemma list_pending_ok: "pending_ok s \<Longrightarrow> pending_ok (fst (list_pending env f s ch))"
proof (cases "safe_channel_key ch")
  case (Inr key)
  assume ok: "pending_ok s"
  show ?thesis
  proof (cases "map_of (ps_pairing s) key")
    case (Some reqs)
    then have "length (filter (\<lambda>r. \<not> is_expired env r) reqs) \<le> PAIRING_PENDING_MAX"
      using pending_ok_live [OF ok, of "\<lambda>r. \<not> is_expired env r" key] by (simp add: file_content_def)
    with Some Inr ok show ?thesis by (simp add: list_pending_def Let_def pending_ok_update)
  qed (use ok Inr in \<open>simp add: list_pending_def\<close>)
qed (simp add: list_pending_def)

lemma pending_ok_frame [simp]:
  "pending_ok (add_allow_from s key entry) = pending_ok s" "pending_ok (record_failed_approve env s key) = pending_ok s"
  by (simp_all add: pending_ok_def record_failed_approve_def)

lemma length_remove_at: "i < length xs \<Longrightarrow> length (remove_at i xs) < length xs"
  by (simp add: remove_at_def)

lemma approve_pending_ok: "pending_ok s \<Longrightarrow> pending_ok (fst (approve env s ch code))"
proof (cases "safe_channel_key ch")
  case (Inr key)
  assume ok: "pending_ok s"
  show ?thesis
  proof (cases "map_of (ps_pairing s) key")
    case (Some reqs)
    let ?live = "filter (\<lambda>r. \<not> is_expired env r) reqs"
    have "length ?live \<le> PAIRING_PENDING_MAX"
      using pending_ok_live [OF ok, of "\<lambda>r. \<not> is_expired env r" key] Some by (simp add: file_content_def)
    then have "length (remove_at i ?live) \<le> PAIRING_PENDING_MAX" if "i < length ?live" for i
      using length_remove_at [OF that] by simp
    with Some Inr ok show ?thesis
      by (auto simp: approve_def Let_def pending_ok_update split: option.split dest!: position_Some)
  qed (use ok Inr in \<open>simp add: approve_def Let_def\<close>)
qed (simp add: approve_def Let_def)

interpretation pairing: inv_machine pairing_step pending_ok
proof unfold_locales
  fix s e assume "pending_ok s"
  then show "pending_ok (pairing_step s e)"
    by (cases e) (simp_all add: upsert_pending_ok list_pending_ok approve_pending_ok)
qed

definition empty_store :: pairing_store where
  "empty_store = \<lparr>ps_pairing = [], ps_allow_from = [], ps_attempts = []\<rparr>"

definition sample_pairing_env :: "nat \<Rightarrow> string \<Rightarrow> pairing_env" where
  "sample_pairing_env now code = \<lparr>pe_now_secs = now, pe_now_iso = ''t'', pe_parse_timestamp = (\<lambda>_. Some 100),
     pe_codes = [code], pe_fallback = ''F''\<rparr>"

section \<open>Properties\<close>

text \<open>
  Approval admits exactly one waiting sender, and forgets the others.  A code is accepted only
  while the channel is not rate limited, for an unexpired pending request with that code; the
  request leaves the pending list of its channel.  The file of admitted senders is truncated
  before it is read, so afterwards the channel admits this sender alone, whoever was admitted
  before.
\<close>

theorem approve_admits_only_last:
  assumes "approve env s channel code = (s', Ok (Some r))" and "trim (pr_id r) \<noteq> []"
  shows "\<exists>key reqs. safe_channel_key channel = Ok key \<and> \<not> is_approve_rate_limited env s key \<and>
    map_of (ps_pairing s) key = Some reqs \<and> r \<in> set reqs \<and> \<not> is_expired env r \<and>
    to_uppercase (pr_code r) = to_uppercase (trim code) \<and>
    length (file_content (ps_pairing s') key) < length reqs \<and>
    read_allow_from s' channel = Ok [trim (pr_id r)] \<and>
    (\<forall>j. j \<noteq> key \<longrightarrow> file_content (ps_allow_from s') j = file_content (ps_allow_from s) j)"
proof -
  from approve_Some [OF assms(1)] obtain key reqs i where a: "safe_channel_key channel = Ok key"
    "\<not> is_approve_rate_limited env s key" "map_of (ps_pairing s) key = Some reqs"
    "position (\<lambda>r. to_uppercase (pr_code r) = to_uppercase (trim code)) (filter (\<lambda>r. \<not> is_expired env r) reqs) = Some i"
    "r = filter (\<lambda>r. \<not> is_expired env r) reqs ! i"
    "s' = add_allow_from (s\<lparr>ps_pairing := AList.update key (remove_at i (filter (\<lambda>r. \<not> is_expired env r) reqs)) (ps_pairing s)\<rparr>)
           key (pr_id r)" by auto
  note pos = position_Some [OF a(4)]
  then have "r \<in> set (filter (\<lambda>r. \<not> is_expired env r) reqs)" using a(5) nth_mem by blast
  moreover have "length (remove_at i (filter (\<lambda>r. \<not> is_expired env r) reqs)) < length reqs"
    using pos length_remove_at [of i] length_filter_le [of "\<lambda>r. \<not> is_expired env r" reqs] by (metis less_le_trans)
  ultimately show ?thesis using a pos assms(2)
    by (auto simp: read_allow_from_def add_allow_from_content)
qed

theorem approve_admits_only_last_witness:
  "let e1 = sample_pairing_env 100 ''AAAA''; e2 = sample_pairing_env 100 ''BBBB'';
       s1 = fst (approve e1 (fst (upsert_request e1 empty_store ''tg'' ''alice'' None)) ''tg'' ''aaaa'');
       s2 = fst (upsert_request e2 s1 ''tg'' ''bob'' None)
   in read_allow_from s1 ''tg'' = Ok [''alice''] \<and>
      read_allow_from (fst (approve e2 s2 ''tg'' ''bbbb'')) ''tg'' = Ok [''bob'']"
proof -
  let ?e1 = "sample_pairing_env 100 ''AAAA''" and ?e2 = "sample_pairing_env 100 ''BBBB''"
  let ?s1 = "fst (approve ?e1 (fst (upsert_request ?e1 empty_store ''tg'' ''alice'' None)) ''tg'' ''aaaa'')"
  let ?s2 = "fst (upsert_request ?e2 ?s1 ''tg'' ''bob'' None)"
  have one: "read_allow_from ?s1 ''tg'' = Ok [''alice'']" by code_simp
  let ?r = "\<lparr>pr_id = ''bob'', pr_code = ''BBBB'', pr_created_at = ''t'', pr_last_seen_at = ''t'', pr_meta = None\<rparr>"
  obtain s3 x where a: "approve ?e2 ?s2 ''tg'' ''bbbb'' = (s3, x)" by fastforce
  moreover have "snd (approve ?e2 ?s2 ''tg'' ''bbbb'') = Ok (Some ?r)" by code_simp
  ultimately have "approve ?e2 ?s2 ''tg'' ''bbbb'' = (s3, Ok (Some ?r))" by simp
  moreover have "trim (pr_id ?r) = ''bob''" by code_simp
  ultimately have "read_allow_from s3 ''tg'' = Ok [''bob'']"
    using approve_admits_only_last [of ?e2 ?s2 "''tg''" "''bbbb''" s3 ?r] by auto
  with one a show ?thesis by (simp add: Let_def)
qed

text \<open>
  A channel never has more than three pending requests, whatever is listed, requested and
  approved, and the name of a channel's files never leaves its directory: the key has no
  separator of paths and no two dots in a row.
\<close>

theorem pending_bounded_and_key_safe:
  "pending_ok (foldl pairing_step empty_store es) \<and>
   (case safe_channel_key channel of
      Ok key \<Rightarrow> key \<noteq> [] \<and> CHR ''/'' \<notin> set key \<and> CHR 0x5C \<notin> set key \<and> \<not> contains key ''..''
    | Err _ \<Rightarrow> True)"
proof
  show "pending_ok (foldl pairing_step empty_store es)"
    by (rule pairing.run_inv) (simp add: pending_ok_def empty_store_def)
  show "case safe_channel_key channel of
      Ok key \<Rightarrow> key \<noteq> [] \<and> CHR ''/'' \<notin> set key \<and> CHR 0x5C \<notin> set key \<and> \<not> contains key ''..''
    | Err _ \<Rightarrow> True"
    using safe_channel_key_safe [of channel] by (auto simp: unsafe_char_def split: sum.split)
qed

end
