(* ===== verification/Hooks.thy ===== *)
theory Hooks
  imports Dispatcher
begin

text \<open>
  The hook registry of \<^verbatim>\<open>src/src/hooks\<close>.  A hook is what its trait gives: a name, the points it is called
  at, its failure mode, its timeout, and its answer to an event, which may also be an error or not
  come in time.  The registry runs the matching hooks in the order of their priorities; the loop asks
  it before every tool call.
\<close>

section \<open>Events and hooks\<close>

datatype hook_point =
    BeforeInbound | BeforeToolCall | BeforeOutbound | OnSessionStart | OnSessionEnd | TransformResponse

datatype hook_event =
    Inbound string string string "string option"
  | ToolCallEvent string json string string
  | Outbound string string string "string option"
  | SessionStart string string
  | SessionEnd string string
  | ResponseTransform string string string

fun hook_point_of :: "hook_event \<Rightarrow> hook_point" where
  "hook_point_of (Inbound _ _ _ _) = BeforeInbound"
| "hook_point_of (ToolCallEvent _ _ _ _) = BeforeToolCall"
| "hook_point_of (Outbound _ _ _ _) = BeforeOutbound"
| "hook_point_of (SessionStart _ _) = OnSessionStart"
| "hook_point_of (SessionEnd _ _) = OnSessionEnd"
| "hook_point_of (ResponseTransform _ _ _) = TransformResponse"

fun apply_modification :: "(string \<Rightarrow> json option) \<Rightarrow> hook_event \<Rightarrow> string \<Rightarrow> hook_event" where
  "apply_modification from_json (Inbound u c _ t) modified = Inbound u c modified t"
| "apply_modification from_json (Outbound u c _ t) modified = Outbound u c modified t"
| "apply_modification from_json (ToolCallEvent n p u x) modified =
     (case from_json modified of Some parsed \<Rightarrow> ToolCallEvent n parsed u x | None \<Rightarrow> ToolCallEvent n p u x)"
| "apply_modification from_json (ResponseTransform u t _) modified = ResponseTransform u t modified"
| "apply_modification from_json (SessionStart u s) modified = SessionStart u s"
| "apply_modification from_json (SessionEnd u s) modified = SessionEnd u s"

fun extract_content :: "(json \<Rightarrow> string) \<Rightarrow> hook_event \<Rightarrow> string" where
  "extract_content to_json (Inbound _ _ content _) = content"
| "extract_content to_json (Outbound _ _ content _) = content"
| "extract_content to_json (ToolCallEvent _ params _ _) = to_json params"
| "extract_content to_json (ResponseTransform _ _ response) = response"
| "extract_content to_json (SessionStart _ sid) = sid"
| "extract_content to_json (SessionEnd _ sid) = sid"

datatype hook_outcome = Continue "string option" | Reject string

datatype hook_failure_mode = FailOpen | FailClosed

datatype hook_error =
    HookExecutionFailed string
  | HookTimeout duration
  | Rejected string

text \<open>What a call of a hook ends with: its own result, or the timeout.\<close>

datatype hook_run = Finished "(hook_error, hook_outcome) result" | Elapsed

record hook =
  hk_name :: string
  hk_points :: "hook_point list"
  hk_failure_mode :: hook_failure_mode
  hk_timeout :: duration
  hk_execute :: "hook_event \<Rightarrow> hook_run"

section \<open>The registry\<close>

record hook_entry =
  he_hook :: hook
  he_priority :: u32

type_synonym hook_registry = "hook_entry list"

definition register_with_priority :: "hook_registry \<Rightarrow> hook \<Rightarrow> u32 \<Rightarrow> hook_registry" where
  "register_with_priority hooks h p = sort_key he_priority (hooks @ [\<lparr>he_hook = h, he_priority = p\<rparr>])"

definition register_hook :: "hook_registry \<Rightarrow> hook \<Rightarrow> hook_registry" where
  "register_hook hooks h = register_with_priority hooks h 100"

definition unregister_hook :: "hook_registry \<Rightarrow> string \<Rightarrow> hook_registry \<times> bool" where
  "unregister_hook hooks name =
     (let kept = filter (\<lambda>e. hk_name (he_hook e) \<noteq> name) hooks
      in (kept, length kept < length hooks))"

definition list_hooks :: "hook_registry \<Rightarrow> string list" where
  "list_hooks hooks = map (hk_name \<circ> he_hook) hooks"

definition matching_hooks :: "hook_registry \<Rightarrow> hook_point \<Rightarrow> hook list" where
  "matching_hooks hooks point = map he_hook (filter (\<lambda>e. point \<in> set (hk_points (he_hook e))) hooks)"

fun hook_error_display :: "(duration \<Rightarrow> string) \<Rightarrow> hook_error \<Rightarrow> string" where
  "hook_error_display show_duration (HookExecutionFailed r) = ''Hook execution failed: '' @ r"
| "hook_error_display show_duration (HookTimeout d) = ''Hook timed out after '' @ show_duration d"
| "hook_error_display show_duration (Rejected r) = ''Hook rejected: '' @ r"

record json_lib =
  jl_from :: "string \<Rightarrow> json option"
  jl_to :: "json \<Rightarrow> string"
  jl_duration :: "duration \<Rightarrow> string"

fun run_chain :: "json_lib \<Rightarrow> hook_event \<Rightarrow> hook list \<Rightarrow> (hook_error, hook_event) result" where
  "run_chain jl event [] = Ok event"
| "run_chain jl event (h # hs) =
     (case hk_execute h event of
        Finished (Inr (Reject reason)) \<Rightarrow> Err (Rejected reason)
      | Finished (Inr (Continue (Some value))) \<Rightarrow> run_chain jl (apply_modification (jl_from jl) event value) hs
      | Finished (Inr (Continue None)) \<Rightarrow> run_chain jl event hs
      | Finished (Inl err) \<Rightarrow>
          (case hk_failure_mode h of
             FailOpen \<Rightarrow> run_chain jl event hs
           | FailClosed \<Rightarrow>
               Err (HookExecutionFailed (''Hook '' @ [CHR 0x27] @ hk_name h @ [CHR 0x27] @ '' failed: '' @
                 hook_error_display (jl_duration jl) err)))
      | Elapsed \<Rightarrow>
          (case hk_failure_mode h of
             FailOpen \<Rightarrow> run_chain jl event hs
           | FailClosed \<Rightarrow> Err (HookTimeout (hk_timeout h))))"

definition run_hooks :: "json_lib \<Rightarrow> hook_registry \<Rightarrow> hook_event \<Rightarrow> (hook_error, hook_outcome) result" where
  "run_hooks jl hooks event =
     (let matching = matching_hooks hooks (hook_point_of event)
      in if matching = [] then Ok (Continue None)
         else case run_chain jl event matching of
           Err e \<Rightarrow> Err e
         | Ok current \<Rightarrow>
             (let modified = extract_content (jl_to jl) current; original = extract_content (jl_to jl) event
              in if modified \<noteq> original then Ok (Continue (Some modified)) else Ok (Continue None)))"

section \<open>Refusals\<close>

text \<open>A hook refuses an event when it rejects it, or fails or is late and is to fail closed.\<close>

definition refuses :: "hook \<Rightarrow> hook_event \<Rightarrow> bool" where
  "refuses h e \<longleftrightarrow>
     (case hk_execute h e of
        Finished (Inr (Reject _)) \<Rightarrow> True
      | Finished (Inr (Continue _)) \<Rightarrow> False
      | _ \<Rightarrow> hk_failure_mode h = FailClosed)"

text \<open>What a hook that does not refuse makes of an event.\<close>

definition hook_effect :: "json_lib \<Rightarrow> hook \<Rightarrow> hook_event \<Rightarrow> hook_event" where
  "hook_effect jl h e =
     (case hk_execute h e of
        Finished (Inr (Continue (Some value))) \<Rightarrow> apply_modification (jl_from jl) e value
      | _ \<Rightarrow> e)"

lemma run_chain_Cons:
  "run_chain jl e (h # hs) =
     (if refuses h e then Err (projl (run_chain jl e [h])) else run_chain jl (hook_effect jl h e) hs)"
  by (auto simp: refuses_def hook_effect_def split: hook_run.splits sum.splits hook_outcome.splits
      option.splits hook_failure_mode.splits)

declare run_chain.simps(2) [simp del]

lemma run_chain_refused_single: "refuses h e \<Longrightarrow> \<exists>err. run_chain jl e [h] = Err err"
  by (subst run_chain_Cons) simp

lemma apply_modification_point [simp]:
  "hook_point_of (apply_modification fj e m) = hook_point_of e"
  by (cases e) (auto split: option.split)

lemma hook_effect_point [simp]: "hook_point_of (hook_effect jl h e) = hook_point_of e"
  by (auto simp: hook_effect_def split: hook_run.splits sum.splits hook_outcome.splits option.splits)

text \<open>The chain is the composition of the effects up to the first refusal.\<close>

definition after_hooks :: "json_lib \<Rightarrow> hook list \<Rightarrow> nat \<Rightarrow> hook_event \<Rightarrow> hook_event" where
  "after_hooks jl hs k e = foldl (\<lambda>e h. hook_effect jl h e) e (take k hs)"

lemma after_hooks_simps [simp]:
  "after_hooks jl hs 0 e = e"
  "after_hooks jl (h # hs) (Suc k) e = after_hooks jl hs k (hook_effect jl h e)"
  by (simp_all add: after_hooks_def)

lemma after_hooks_point [simp]: "hook_point_of (after_hooks jl hs k e) = hook_point_of e"
  by (induction hs arbitrary: k e) (auto simp: after_hooks_def take_Cons split: nat.split)

lemma run_chain_Ok_iff:
  "run_chain jl e hs = Ok e' \<longleftrightarrow>
     (\<forall>k < length hs. \<not> refuses (hs ! k) (after_hooks jl hs k e)) \<and> e' = after_hooks jl hs (length hs) e"
proof (induction hs arbitrary: e)
  case (Cons h hs)
  show ?case
    by (subst run_chain_Cons) (auto simp: Cons All_less_Suc2)
qed (auto simp: after_hooks_def)

lemma run_chain_Err_iff:
  "(\<exists>err. run_chain jl e hs = Err err) \<longleftrightarrow> (\<exists>k < length hs. refuses (hs ! k) (after_hooks jl hs k e))"
  using run_chain_Ok_iff [of jl e hs] by (cases "run_chain jl e hs") auto

section \<open>The order of the registry\<close>

definition registry_sorted :: "hook_registry \<Rightarrow> bool" where
  "registry_sorted hooks \<longleftrightarrow> sorted (map he_priority hooks)"

datatype registry_op = Register hook u32 | Unregister string

fun registry_step :: "hook_registry \<Rightarrow> registry_op \<Rightarrow> hook_registry" where
  "registry_step hooks (Register h p) = register_with_priority hooks h p"
| "registry_step hooks (Unregister n) = fst (unregister_hook hooks n)"

lemma registry_step_sorted: "registry_sorted hooks \<Longrightarrow> registry_sorted (registry_step hooks op)"
  by (cases op) (simp_all add: registry_sorted_def register_with_priority_def unregister_hook_def Let_def sorted_filter)

interpretation registry: inv_machine registry_step registry_sorted
  by unfold_locales (rule registry_step_sorted)

section \<open>The loop asks the registry\<close>

text \<open>What the dispatcher makes of the answer: the value of the field \<open>le_hook\<close> of the loop.\<close>

definition tool_hook_reply :: "json_lib \<Rightarrow> hook_registry \<Rightarrow> string \<Rightarrow> string \<Rightarrow> json \<Rightarrow> hook_reply" where
  "tool_hook_reply jl hooks user_id name params =
     (case run_hooks jl hooks (ToolCallEvent name params user_id ''chat'') of
        Err (Rejected reason) \<Rightarrow> HookRejected reason
      | Err err \<Rightarrow> HookFailed (hook_error_display (jl_duration jl) err)
      | Ok (Continue (Some new_params)) \<Rightarrow> HookModified new_params
      | Ok _ \<Rightarrow> HookContinue)"

lemma run_hooks_Err_iff:
  "(\<exists>err. run_hooks jl hooks e = Err err) \<longleftrightarrow>
     (\<exists>err. run_chain jl e (matching_hooks hooks (hook_point_of e)) = Err err)"
  by (auto simp: run_hooks_def Let_def split: sum.splits if_splits)

lemma refused_by_all_events:
  assumes "h \<in> set (matching_hooks hooks (hook_point_of e))"
    and "\<And>e'. hook_point_of e' = hook_point_of e \<Longrightarrow> refuses h e'"
  shows "\<exists>err. run_hooks jl hooks e = Err err"
proof -
  from assms(1) obtain k where "k < length (matching_hooks hooks (hook_point_of e))"
    "matching_hooks hooks (hook_point_of e) ! k = h" by (auto simp: in_set_conv_nth)
  with assms(2) show ?thesis unfolding run_hooks_Err_iff run_chain_Err_iff by (intro exI [of _ k]) simp
qed

text \<open>The fields an event keeps through any chain.\<close>

lemma hook_effect_tool_call:
  "\<exists>p'. hook_effect jl h (ToolCallEvent n p u c) = ToolCallEvent n p' u c"
  by (auto simp: hook_effect_def split: hook_run.splits sum.splits hook_outcome.splits option.splits)

lemma after_hooks_tool_call:
  "\<exists>p'. after_hooks jl hs k (ToolCallEvent n p u c) = ToolCallEvent n p' u c"
proof (induction hs arbitrary: k p)
  case (Cons h hs)
  then show ?case using hook_effect_tool_call [of jl h n p u c] by (cases k) (simp, metis after_hooks_simps(2))
qed (auto simp: after_hooks_def)

section \<open>Properties\<close>

text \<open>
  Hooks run in order up to the first refusal.  After any registrations and removals the registry
  is sorted by priority, and an event is refused exactly if some matching hook refuses what the
  hooks before it have made of it; otherwise it passes with all modifications applied, and a result
  is reported as modified exactly if its content differs.
\<close>

theorem hooks_run_in_order:
  "let hooks = foldl registry_step [] ops; hs = matching_hooks hooks (hook_point_of e) in
   sorted (map he_priority hooks) \<and>
   ((\<exists>err. run_hooks jl hooks e = Err err) \<longleftrightarrow> (\<exists>k < length hs. refuses (hs ! k) (after_hooks jl hs k e))) \<and>
   (\<forall>out. run_hooks jl hooks e = Ok out \<longrightarrow>
      (let c = extract_content (jl_to jl) (after_hooks jl hs (length hs) e) in
       out = Continue (if c = extract_content (jl_to jl) e then None else Some c)))"
proof -
  let ?hooks = "foldl registry_step [] ops"
  let ?hs = "matching_hooks ?hooks (hook_point_of e)"
  have sorted: "sorted (map he_priority ?hooks)"
    using registry.run_inv [of "[]" ops] by (simp add: registry_sorted_def)
  have "out = Continue (if extract_content (jl_to jl) (after_hooks jl ?hs (length ?hs) e) = extract_content (jl_to jl) e
      then None else Some (extract_content (jl_to jl) (after_hooks jl ?hs (length ?hs) e)))"
    if "run_hooks jl ?hooks e = Ok out" for out
  proof (cases "?hs = []")
    case True
    with that show ?thesis by (simp add: run_hooks_def)
  next
    case False
    with that obtain e' where "run_chain jl e ?hs = Ok e'"
      by (auto simp: run_hooks_def Let_def split: sum.splits)
    with that False show ?thesis
      by (auto simp: run_hooks_def Let_def run_chain_Ok_iff split: if_splits)
  qed
  with sorted run_chain_Err_iff show ?thesis by (auto simp: Let_def run_hooks_Err_iff)
qed

definition sample_hook :: hook where
  "sample_hook = \<lparr>hk_name = ''deny'', hk_points = [BeforeToolCall], hk_failure_mode = FailClosed, hk_timeout = 5,
     hk_execute = (\<lambda>_. Elapsed)\<rparr>"

theorem hooks_run_in_order_witness:
  "\<exists>err. run_hooks \<lparr>jl_from = (\<lambda>_. None), jl_to = (\<lambda>_. []), jl_duration = (\<lambda>_. [])\<rparr>
     (foldl registry_step [] [Register sample_hook 5]) (ToolCallEvent ''shell'' JNull ''u'' ''chat'') = Err err"
proof -
  let ?jl = "\<lparr>jl_from = (\<lambda>_. None), jl_to = (\<lambda>_. []), jl_duration = (\<lambda>_. [])\<rparr>"
  let ?e = "ToolCallEvent ''shell'' JNull ''u'' ''chat''"
  have "matching_hooks (foldl registry_step [] [Register sample_hook 5]) BeforeToolCall = [sample_hook]"
    by (simp add: matching_hooks_def register_with_priority_def sample_hook_def)
  moreover have "refuses sample_hook ?e" by (simp add: refuses_def sample_hook_def)
  ultimately show ?thesis
    using hooks_run_in_order [of "[Register sample_hook 5]" ?e ?jl] by (simp add: Let_def)
qed

end
