(* ===== verification/Util.thy ===== *)
theory Util
  imports Prelude
begin

text \<open>
  \<^verbatim>\<open>src/src/util.rs\<close>, and the operations of Rust's \<open>str\<close> that count in characters or in positions.
  A string is its list of UTF-8 bytes; a character starts at every byte that is not a continuation
  byte, so counting and taking characters is exact on valid UTF-8.
\<close>

section \<open>Characters of a byte string\<close>

definition is_continuation :: "char \<Rightarrow> bool" where
  "is_continuation c \<longleftrightarrow> 128 \<le> char_code c \<and> char_code c < 192"

definition char_count :: "string \<Rightarrow> nat" where
  "char_count s = length (filter (\<lambda>c. \<not> is_continuation c) s)"

fun take_chars :: "nat \<Rightarrow> string \<Rightarrow> string" where
  "take_chars n [] = []"
| "take_chars n (c # s) =
     (if is_continuation c then c # take_chars n s
      else if n = 0 then [] else c # take_chars (n - 1) s)"

text \<open>\<open>str::chars\<close>, each character as its bytes.\<close>

function utf8_chars :: "string \<Rightarrow> string list" where
  "utf8_chars [] = []"
| "utf8_chars (c # s) =
     (c # takeWhile is_continuation s) # utf8_chars (dropWhile is_continuation s)"
  by pat_completeness auto
termination
  by (relation "measure length") (auto simp: le_imp_less_Suc length_dropWhile_le)

text \<open>\<open>str::lines\<close>: split at line feeds, without the empty piece after a final one and without a
  carriage return before one.\<close>

definition strip_cr :: "string \<Rightarrow> string" where
  "strip_cr l = (if l \<noteq> [] \<and> last l = CHR 0x0D then butlast l else l)"

definition str_lines :: "string \<Rightarrow> string list" where
  "str_lines s =
     (let ls = split_on (CHR 0x0A) s
      in map strip_cr (butlast ls) @ (if last ls = [] then [] else [last ls]))"

definition is_char_boundary :: "string \<Rightarrow> nat \<Rightarrow> bool" where
  "is_char_boundary s i \<longleftrightarrow> i = 0 \<or> i = length s \<or> (i < length s \<and> \<not> is_continuation (s ! i))"

text \<open>\<open>str::match_indices\<close>: the non-overlapping occurrences of a non-empty pattern, from the left.\<close>

function match_indices_from :: "nat \<Rightarrow> string \<Rightarrow> string \<Rightarrow> nat list" where
  "match_indices_from i p s =
     (if s = [] \<or> p = [] then []
      else if starts_with s p then i # match_indices_from (i + length p) p (drop (length p) s)
      else match_indices_from (Suc i) p (tl s))"
  by pat_completeness auto
termination
  by (relation "measure (\<lambda>(i, p, s). length s)") auto

declare match_indices_from.simps [simp del]

definition match_indices :: "string \<Rightarrow> string \<Rightarrow> nat list" where
  "match_indices s p = match_indices_from 0 p s"

text \<open>\<open>str::find\<close>: the byte offset of the first occurrence.\<close>

fun str_find :: "string \<Rightarrow> string \<Rightarrow> nat option" where
  "str_find [] p = (if p = [] then Some 0 else None)"
| "str_find (c # s) p = (if starts_with (c # s) p then Some 0 else map_option Suc (str_find s p))"

lemma str_find_Some:
  "str_find s p = Some k \<Longrightarrow> k + length p \<le> length s \<and> take (length p) (drop k s) = p \<and> (\<forall>j < k. take (length p) (drop j s) \<noteq> p)"
proof (induction s p arbitrary: k rule: str_find.induct)
  case (2 c s p)
  show ?case
  proof (cases "starts_with (c # s) p")
    case True
    then have "length p \<le> length (c # s)" by (metis starts_with_def length_take min.cobounded1)
    then show ?thesis using 2 True by (auto simp: starts_with_def)
  next
    case False
    then obtain j where j: "k = Suc j" "str_find s p = Some j" using 2 by auto
    have "take (length p) (drop i (c # s)) \<noteq> p" if "i < k" for i
      using that 2(1) [OF False j(2)] False j(1) by (cases i) (auto simp: starts_with_def)
    then show ?thesis using 2(1) [OF False j(2)] j(1) by simp
  qed
qed (simp split: if_splits)

lemma str_find_None: "str_find s p = None \<longleftrightarrow> \<not> contains s p"
  by (induction s p rule: str_find.induct) auto

section \<open>The utilities\<close>

fun floor_boundary_loop :: "string \<Rightarrow> nat \<Rightarrow> nat" where
  "floor_boundary_loop s 0 = 0"
| "floor_boundary_loop s (Suc i) =
     (if is_char_boundary s (Suc i) then Suc i else floor_boundary_loop s i)"

definition floor_char_boundary :: "string \<Rightarrow> nat \<Rightarrow> nat" where
  "floor_char_boundary s pos = (if length s \<le> pos then length s else floor_boundary_loop s pos)"

definition positive_phrases :: "string list" where
  "positive_phrases =
     [''job is complete'', ''job is done'', ''job is finished'', ''task is complete'', ''task is done'',
      ''task is finished'', ''work is complete'', ''work is done'', ''work is finished'',
      ''successfully completed'', ''have completed the job'', ''have completed the task'',
      ''have finished the job'', ''have finished the task'', ''all steps are complete'',
      ''all steps are done'', ''i have completed'', ''i'' @ [CHR 0x27] @ ''ve completed'', ''all done'',
      ''all tasks complete'']"

definition negative_phrases :: "string list" where
  "negative_phrases =
     [''not complete'', ''not done'', ''not finished'', ''incomplete'', ''unfinished'',
      ''isn'' @ [CHR 0x27] @ ''t done'', ''isn'' @ [CHR 0x27] @ ''t complete'', ''isn'' @ [CHR 0x27] @ ''t finished'',
      ''not yet done'', ''not yet complete'', ''not yet finished'']"

definition llm_signals_completion :: "string \<Rightarrow> bool" where
  "llm_signals_completion response =
     (let lower = to_lowercase response
      in if list_ex (contains lower) negative_phrases then False
         else list_ex (contains lower) positive_phrases)"

section \<open>Lemmas\<close>

lemma floor_boundary_loop: "floor_boundary_loop s i \<le> i \<and> is_char_boundary s (floor_boundary_loop s i) \<and>
    (\<forall>j. floor_boundary_loop s i < j \<and> j \<le> i \<longrightarrow> \<not> is_char_boundary s j)"
proof (induction i)
  case 0
  then show ?case by (auto simp: is_char_boundary_def)
next
  case (Suc i)
  then show ?case by (auto simp: le_Suc_eq)
qed

text \<open>The result is the largest boundary up to the position.\<close>

lemma floor_char_boundary_max:
  "floor_char_boundary s pos \<le> length s \<and> is_char_boundary s (floor_char_boundary s pos) \<and>
   floor_char_boundary s pos \<le> max pos (length s) \<and>
   (\<forall>j. is_char_boundary s j \<and> j \<le> pos \<longrightarrow> j \<le> floor_char_boundary s pos)"
proof (cases "length s \<le> pos")
  case True
  then show ?thesis by (auto simp: floor_char_boundary_def is_char_boundary_def)
next
  case False
  then show ?thesis
    using floor_boundary_loop [of s pos] by (fastforce simp: floor_char_boundary_def not_le)
qed

lemma floor_char_boundary_le: "floor_char_boundary s pos \<le> pos \<or> floor_char_boundary s pos = length s"
  using floor_boundary_loop [of s pos] by (simp add: floor_char_boundary_def)

lemma match_indices_from_sound:
  "i \<in> set (match_indices_from k p s) \<Longrightarrow>
   \<exists>a b. s = a @ p @ b \<and> i = k + length a \<and> p \<noteq> []"
proof (induction k p s rule: match_indices_from.induct)
  case (1 k p s)
  consider "s = [] \<or> p = []" | "s \<noteq> []" "p \<noteq> []" "starts_with s p" | "s \<noteq> []" "p \<noteq> []" "\<not> starts_with s p" by blast
  then show ?case
  proof cases
    case 1
    with "1.prems" show ?thesis by (subst (asm) match_indices_from.simps) simp
  next
    case 2
    with "1.prems" have "i = k \<or> i \<in> set (match_indices_from (k + length p) p (drop (length p) s))"
      by (subst (asm) match_indices_from.simps) simp
    then show ?thesis
    proof
      assume "i = k"
      from 2 obtain t where "s = p @ t" by (auto simp: starts_with_iff)
      with 2 \<open>i = k\<close> show ?thesis by (intro exI [of _ "[]"] exI [of _ t]) simp
    next
      assume "i \<in> set (match_indices_from (k + length p) p (drop (length p) s))"
      from "1.IH"(1) [OF _ 2(3) this] 2 obtain a b where "drop (length p) s = a @ p @ b" "i = k + length p + length a"
        by auto
      with 2 show ?thesis by (intro exI [of _ "p @ a"] exI [of _ b]) (auto simp: starts_with_iff)
    qed
  next
    case 3
    with "1.prems" have "i \<in> set (match_indices_from (Suc k) p (tl s))"
      by (subst (asm) match_indices_from.simps) simp
    from "1.IH"(2) [OF _ 3(3) this] 3 obtain a b where "tl s = a @ p @ b" "i = Suc k + length a" by auto
    with 3 show ?thesis by (intro exI [of _ "hd s # a"] exI [of _ b]) (cases s; auto)
  qed
qed

lemma match_indices_sound:
  "i \<in> set (match_indices s p) \<Longrightarrow> \<exists>a b. s = a @ p @ b \<and> length a = i"
  unfolding match_indices_def by (drule match_indices_from_sound) auto

lemma match_indices_nonempty:
  assumes "p \<noteq> []"
  shows "match_indices_from k p s \<noteq> [] \<longleftrightarrow> contains s p"
  using assms
proof (induction k p s rule: match_indices_from.induct)
  case (1 k p s)
  have unfold: "match_indices_from k p s = (if s = [] \<or> p = [] then []
      else if starts_with s p then k # match_indices_from (k + length p) p (drop (length p) s)
      else match_indices_from (Suc k) p (tl s))"
    by (subst match_indices_from.simps) simp
  with 1 show ?case by (cases s) auto
qed

lemma take_chars_prefix: "prefix (take_chars n s) s"
  by (induction n s rule: take_chars.induct) auto

lemma char_count_take_chars: "char_count (take_chars n s) \<le> n"
  by (induction n s rule: take_chars.induct) (auto simp: char_count_def)

text \<open>Replacing one character acts on each character alone.\<close>

lemma replace_char:
  "replace_str s [c] r = concat (map (\<lambda>x. if x = c then r else [x]) s)"
proof -
  have "replace_nonempty [c] r s = concat (map (\<lambda>x. if x = c then r else [x]) s)"
    by (induction s) (subst replace_nonempty.simps, simp add: starts_with_def)+
  then show ?thesis by (simp add: replace_str_def)
qed

lemma split_on_no_sep: "l \<in> set (split_on c s) \<Longrightarrow> c \<notin> set l"
  unfolding split_on_def using split_by_no_sep [of l "\<lambda>x. x = c" s c] by blast

lemma str_lines_no_newline: "l \<in> set (str_lines s) \<Longrightarrow> CHR 0x0A \<notin> set l \<and> set l \<subseteq> set s"
proof -
  assume l: "l \<in> set (str_lines s)"
  have ne: "split_on (CHR 0x0A) s \<noteq> []" by (simp add: split_on_def)
  from l obtain l' where "l' \<in> set (split_on (CHR 0x0A) s)" "set l \<subseteq> set l'"
    unfolding str_lines_def Let_def
    by (auto simp: strip_cr_def split: if_splits dest: in_set_butlastD intro: last_in_set [OF ne])
  then show ?thesis using split_on_no_sep split_by_chars [of l' "\<lambda>x. x = CHR 0x0A" s] by (fastforce simp: split_on_def)
qed

end
