(* ===== verification/Shell.thy ===== *)
theory Shell
  imports Tool_Stream Util
begin

text \<open>
  The shell tool of \<^verbatim>\<open>src/src/tools/builtin/shell.rs\<close>: its lists of blocked, dangerous and never
  auto-approved patterns, the detection of obfuscated commands, and the ways a command is run: in
  the sandbox, as a process with a scrubbed environment, or as such a process with streamed output.

  What a run does is not part of the program: the record \<open>shell_world\<close> gives the current directory,
  the environment of the agent and the outcome of each run.  Every operation also returns the runs it
  starts, so that statements can speak about what was executed.
\<close>

section \<open>Patterns\<close>

definition MAX_OUTPUT_SIZE :: nat where
  "MAX_OUTPUT_SIZE = 64 * 1024"

definition DEFAULT_TIMEOUT :: duration where
  "DEFAULT_TIMEOUT = 120 * SECS"

definition BLOCKED_COMMANDS :: "string list" where
  "BLOCKED_COMMANDS =
     [''rm -rf /'', ''rm -rf /*'', '':(){ :|:& };:'', ''dd if=/dev/zero'', ''mkfs'', ''chmod -R 777 /'',
      ''> /dev/sda'', ''curl | sh'', ''wget | sh'', ''curl | bash'', ''wget | bash'']"

definition DANGEROUS_PATTERNS :: "string list" where
  "DANGEROUS_PATTERNS =
     [''sudo '', ''doas '', '' | sh'', '' | bash'', '' | zsh'', ''eval '', ''$(curl'', ''$(wget'',
      ''/etc/passwd'', ''/etc/shadow'', ''~/.ssh'', ''.bash_history'', ''id_rsa'']"

definition NEVER_AUTO_APPROVE_PATTERNS :: "string list" where
  "NEVER_AUTO_APPROVE_PATTERNS =
     [''rm -rf'', ''rm -fr'', ''chmod -r 777'', ''chmod 777'', ''chown -r'', ''shutdown'', ''reboot'',
      ''poweroff'', ''init 0'', ''init 6'', ''iptables'', ''nft '', ''useradd'', ''userdel'', ''passwd'',
      ''visudo'', ''crontab'', ''systemctl disable'', ''launchctl unload'', ''kill -9'', ''killall'',
      ''pkill'', ''docker rm'', ''docker rmi'', ''docker system prune'', ''git push --force'',
      ''git push -f'', ''git reset --hard'', ''git clean -f'', ''DROP TABLE'', ''DROP DATABASE'',
      ''TRUNCATE'', ''DELETE FROM'']"

definition SAFE_ENV_VARS :: "string list" where
  "SAFE_ENV_VARS =
     [''PATH'', ''HOME'', ''USER'', ''LOGNAME'', ''SHELL'', ''TERM'', ''COLORTERM'', ''LANG'', ''LC_ALL'',
      ''LC_CTYPE'', ''LC_MESSAGES'', ''PWD'', ''TMPDIR'', ''TMP'', ''TEMP'', ''XDG_RUNTIME_DIR'',
      ''XDG_DATA_HOME'', ''XDG_CONFIG_HOME'', ''XDG_CACHE_HOME'', ''CARGO_HOME'', ''RUSTUP_HOME'',
      ''NODE_PATH'', ''NPM_CONFIG_PREFIX'', ''EDITOR'', ''VISUAL'', ''SystemRoot'', ''SYSTEMROOT'',
      ''ComSpec'', ''PATHEXT'', ''APPDATA'', ''LOCALAPPDATA'', ''USERPROFILE'', ''ProgramFiles'',
      ''ProgramFiles(x86)'', ''WINDIR'']"

definition requires_explicit_approval :: "string \<Rightarrow> bool" where
  "requires_explicit_approval command =
     (let lower = to_lowercase command
      in list_ex (\<lambda>p. contains lower (to_lowercase p)) NEVER_AUTO_APPROVE_PATTERNS)"

section \<open>Injection and obfuscation\<close>

definition has_pipe_to :: "string \<Rightarrow> string \<Rightarrow> bool" where
  "has_pipe_to lower shell =
     list_ex (\<lambda>pfx. let pattern = pfx @ shell in
        list_ex (\<lambda>i. let stop = i + length pattern in
          stop \<ge> length lower \<or>
          lower ! stop \<in> set [CHR '' '', CHR 0x09, CHR 0x0A, CHR '';'', CHR ''|'', CHR ''&'', CHR '')''])
        (match_indices lower pattern)) [''| '', ''|'']"

definition contains_shell_pipe :: "string \<Rightarrow> bool" where
  "contains_shell_pipe lower \<longleftrightarrow>
     has_pipe_to lower ''sh'' \<or> has_pipe_to lower ''bash'' \<or> has_pipe_to lower ''zsh'' \<or>
     has_pipe_to lower ''dash'' \<or> has_pipe_to lower ''/bin/sh'' \<or> has_pipe_to lower ''/bin/bash''"

definition has_command_substitution :: "string \<Rightarrow> bool" where
  "has_command_substitution s \<longleftrightarrow> contains s ''$('' \<or> CHR 0x60 \<in> set s"

definition has_command_token :: "string \<Rightarrow> string \<Rightarrow> bool" where
  "has_command_token lower token =
     list_ex (\<lambda>i. i = 0 \<or>
       lower ! (i - 1) \<in> set [CHR '' '', CHR 0x09, CHR ''|'', CHR '';'', CHR ''&'', CHR 0x0A, CHR ''(''])
     (match_indices lower token)"

definition detect_command_injection :: "string \<Rightarrow> string option" where
  "detect_command_injection cmd =
     (if CHR 0x00 \<in> set cmd then Some ''null byte in command''
      else let lower = to_lowercase cmd in
      if (contains lower ''base64 -d'' \<or> contains lower ''base64 --decode'') \<and> contains_shell_pipe lower
      then Some ''base64 decode piped to shell''
      else if (contains lower ''printf'' \<or> contains lower ''echo -e'' \<or> contains lower (''echo $'' @ [CHR 0x27])) \<and>
              (contains lower [CHR 0x5C, CHR ''x''] \<or> contains lower [CHR 0x5C, CHR ''0'']) \<and>
              contains_shell_pipe lower
      then Some ''encoded escape sequences piped to shell''
      else if (contains lower ''xxd -r'' \<or> has_command_token lower ''od '') \<and> contains_shell_pipe lower
      then Some ''binary decode piped to shell''
      else if (has_command_token lower ''dig '' \<or> has_command_token lower ''nslookup '' \<or>
               has_command_token lower ''host '') \<and> has_command_substitution lower
      then Some ''potential DNS exfiltration via command substitution''
      else if (has_command_token lower ''nc '' \<or> has_command_token lower ''ncat '' \<or>
               has_command_token lower ''netcat '') \<and> (CHR ''|'' \<in> set lower \<or> CHR ''<'' \<in> set lower)
      then Some ''netcat with data piping''
      else if contains lower ''curl'' \<and>
              (contains lower ''-d @'' \<or> contains lower ''-d@'' \<or> contains lower ''--data @'' \<or>
               contains lower ''--data-binary @'' \<or> contains lower ''--upload-file'')
      then Some ''curl posting file contents''
      else if contains lower ''wget'' \<and> contains lower ''--post-file''
      then Some ''wget posting file contents''
      else if (contains lower ''| rev'' \<or> contains lower ''|rev'') \<and> contains_shell_pipe lower
      then Some ''string reversal piped to shell''
      else None)"

section \<open>The tool\<close>

datatype sandbox_policy = ReadOnly | WorkspaceWrite | FullAccess

record sandbox_state =
  sb_initialized :: bool
  sb_enabled :: bool

record shell_tool =
  sh_working_dir :: "string option"
  sh_timeout :: duration
  sh_allow_dangerous :: bool
  sh_sandbox :: "sandbox_state option"
  sh_sandbox_policy :: sandbox_policy

definition shell_tool_new :: shell_tool where
  "shell_tool_new = \<lparr>sh_working_dir = None, sh_timeout = DEFAULT_TIMEOUT, sh_allow_dangerous = False,
     sh_sandbox = None, sh_sandbox_policy = ReadOnly\<rparr>"

datatype exec_error =
    InvalidParams string
  | ExecFailed string
  | ExecTimedOut duration
  | NotAuthorized string
  | ExternalService string

definition is_blocked :: "shell_tool \<Rightarrow> string \<Rightarrow> string option" where
  "is_blocked tool cmd =
     (let normalized = to_lowercase cmd in
      if list_ex (contains normalized) BLOCKED_COMMANDS
      then Some ''Command contains blocked pattern''
      else if \<not> sh_allow_dangerous tool \<and> list_ex (contains normalized) DANGEROUS_PATTERNS
      then Some ''Command contains potentially dangerous pattern''
      else None)"

definition truncate_output :: "string \<Rightarrow> string" where
  "truncate_output s =
     (if length s \<le> MAX_OUTPUT_SIZE then s
      else let half = MAX_OUTPUT_SIZE div 2;
               head_end = floor_char_boundary s half;
               tail_start = floor_char_boundary s (length s - half)
           in take head_end s @ [CHR 0x0A, CHR 0x0A] @ ''... [truncated '' @ nat_str (length s - MAX_OUTPUT_SIZE) @
              '' bytes] ...'' @ [CHR 0x0A, CHR 0x0A] @ drop tail_start s)"

definition truncate_for_error :: "string \<Rightarrow> string" where
  "truncate_for_error s = (if char_count s \<le> 100 then s else take_chars 100 s @ ''...'')"

section \<open>Runs\<close>

datatype shell_run =
    RunSandboxed string string sandbox_policy duration
  | RunDirect string string duration "(string \<times> string) list"

datatype sandbox_outcome = SandboxDone string int | SandboxFailed string | SandboxTimeout

datatype direct_outcome =
    SpawnFailed string
  | DirectDone string string "int option"
  | DirectFailed string
  | DirectTimeout

text \<open>A streamed run delivers pieces of its two outputs, \<open>True\<close> marking the error output.\<close>

datatype stream_outcome =
    StreamSpawnFailed string
  | StreamDone "(bool \<times> string) list" "int option"
  | StreamFailed string
  | StreamTimeout

record shell_world =
  sw_cwd :: string
  sw_env :: "string \<Rightarrow> string option"
  sw_sandbox :: "shell_run \<Rightarrow> sandbox_outcome"
  sw_direct :: "shell_run \<Rightarrow> direct_outcome"
  sw_stream :: "shell_run \<Rightarrow> stream_outcome"

text \<open>\<open>env_clear\<close>, the safe variables that are set, then the extra ones on top.\<close>

definition child_env :: "shell_world \<Rightarrow> (string \<times> string) list \<Rightarrow> (string \<times> string) list" where
  "child_env w extra_env =
     foldl (\<lambda>e (k, v). AList.update k v e)
       (concat (map (\<lambda>k. case sw_env w k of Some v \<Rightarrow> [(k, v)] | None \<Rightarrow> []) SAFE_ENV_VARS)) extra_env"

definition combine_output :: "string \<Rightarrow> string \<Rightarrow> string" where
  "combine_output out err =
     (if err = [] then out else if out = [] then err
      else out @ [CHR 0x0A, CHR 0x0A] @ ''--- stderr ---'' @ [CHR 0x0A] @ err)"

definition exit_code :: "int option \<Rightarrow> int" where
  "exit_code status = (case status of Some c \<Rightarrow> c | None \<Rightarrow> - 1)"

type_synonym 'a shell_result = "shell_run list \<times> (exec_error, 'a) result"

definition execute_sandboxed ::
  "shell_world \<Rightarrow> shell_tool \<Rightarrow> string \<Rightarrow> string \<Rightarrow> duration \<Rightarrow> (string \<times> int) shell_result" where
  "execute_sandboxed w tool cmd workdir timeout =
     (let run = RunSandboxed cmd workdir (sh_sandbox_policy tool) timeout in
      ([run],
       case sw_sandbox w run of
         SandboxDone output code \<Rightarrow> Ok (truncate_output output, code)
       | SandboxFailed e \<Rightarrow> Err (ExecFailed (''Sandbox error: '' @ e))
       | SandboxTimeout \<Rightarrow> Err (ExecTimedOut timeout)))"

definition execute_direct ::
  "shell_world \<Rightarrow> string \<Rightarrow> string \<Rightarrow> duration \<Rightarrow> (string \<times> string) list \<Rightarrow> (string \<times> int) shell_result" where
  "execute_direct w cmd workdir timeout extra_env =
     (let run = RunDirect cmd workdir timeout (child_env w extra_env) in
      ([run],
       case sw_direct w run of
         SpawnFailed e \<Rightarrow> Err (ExecFailed (''Failed to spawn command: '' @ e))
       | DirectDone out err status \<Rightarrow> Ok (truncate_output (combine_output out err), exit_code status)
       | DirectFailed e \<Rightarrow> Err (ExecFailed (''Command execution failed: '' @ e))
       | DirectTimeout \<Rightarrow> Err (ExecTimedOut timeout)))"

definition execute_direct_with_streaming ::
  "shell_world \<Rightarrow> string \<Rightarrow> string \<Rightarrow> duration \<Rightarrow> (string \<times> string) list \<Rightarrow> (string \<times> int) shell_result" where
  "execute_direct_with_streaming w cmd workdir timeout extra_env =
     (let run = RunDirect cmd workdir timeout (child_env w extra_env) in
      ([run],
       case sw_stream w run of
         StreamSpawnFailed e \<Rightarrow> Err (ExecFailed (''Failed to spawn command: '' @ e))
       | StreamDone chunks status \<Rightarrow>
           Ok (truncate_output (combine_output (concat (map snd (filter (\<lambda>(e, c). \<not> e) chunks)))
                 (concat (map snd (filter fst chunks)))), exit_code status)
       | StreamFailed e \<Rightarrow> Err (ExecFailed e)
       | StreamTimeout \<Rightarrow> Err (ExecTimedOut timeout)))"

definition run_cwd :: "shell_world \<Rightarrow> shell_tool \<Rightarrow> string option \<Rightarrow> string" where
  "run_cwd w tool workdir =
     (case workdir of Some d \<Rightarrow> d
      | None \<Rightarrow> (case sh_working_dir tool of Some d \<Rightarrow> d | None \<Rightarrow> sw_cwd w))"

definition run_timeout :: "shell_tool \<Rightarrow> nat option \<Rightarrow> duration" where
  "run_timeout tool timeout = (case timeout of Some secs \<Rightarrow> secs * SECS | None \<Rightarrow> sh_timeout tool)"

definition execute_command ::
  "shell_world \<Rightarrow> shell_tool \<Rightarrow> string \<Rightarrow> string option \<Rightarrow> nat option \<Rightarrow> (string \<times> string) list \<Rightarrow>
   (string \<times> int) shell_result" where
  "execute_command w tool cmd workdir timeout extra_env =
     (case is_blocked tool cmd of
        Some reason \<Rightarrow> ([], Err (NotAuthorized (reason @ '': '' @ truncate_for_error cmd)))
      | None \<Rightarrow>
          (case detect_command_injection cmd of
             Some reason \<Rightarrow>
               ([], Err (NotAuthorized (''Command injection detected ('' @ reason @ ''): '' @ truncate_for_error cmd)))
           | None \<Rightarrow>
               let cwd = run_cwd w tool workdir; t = run_timeout tool timeout in
               (case sh_sandbox tool of
                  Some sandbox \<Rightarrow>
                    if sb_initialized sandbox \<or> sb_enabled sandbox
                    then execute_sandboxed w tool cmd cwd t
                    else execute_direct w cmd cwd t extra_env
                | None \<Rightarrow> execute_direct w cmd cwd t extra_env)))"

section \<open>The operations of the tool trait\<close>

text \<open>\<open>as_u64\<close> of a number literal: an unsigned integer below the bound.\<close>

definition is_digit :: "char \<Rightarrow> bool" where
  "is_digit c \<longleftrightarrow> 48 \<le> char_code c \<and> char_code c \<le> 57"

definition parse_digits :: "string \<Rightarrow> nat" where
  "parse_digits s = foldl (\<lambda>n c. 10 * n + (char_code c - 48)) 0 s"

definition json_as_u64 :: "json \<Rightarrow> nat option" where
  "json_as_u64 v =
     (case v of
        JNumber s \<Rightarrow> if s \<noteq> [] \<and> list_all is_digit s \<and> parse_digits s < 2 ^ 64 then Some (parse_digits s) else None
      | _ \<Rightarrow> None)"

definition require_str :: "json \<Rightarrow> string \<Rightarrow> (exec_error, string) result" where
  "require_str params name =
     (case json_str params name of
        Some s \<Rightarrow> Ok s
      | None \<Rightarrow> Err (InvalidParams (''missing '' @ [CHR 0x27] @ name @ [CHR 0x27] @ '' parameter'')))"

definition int_str :: "int \<Rightarrow> string" where
  "int_str i = (if i < 0 then CHR ''-'' # nat_str (nat (- i)) else nat_str (nat i))"

definition shell_result_json :: "shell_tool \<Rightarrow> string \<times> int \<Rightarrow> json" where
  "shell_result_json tool r =
     JObject [(''output'', JString (fst r)), (''exit_code'', JNumber (int_str (snd r))),
              (''success'', JBool (snd r = 0)), (''sandboxed'', JBool (sh_sandbox tool \<noteq> None))]"

definition map_run :: "('a \<Rightarrow> 'b) \<Rightarrow> 'a shell_result \<Rightarrow> 'b shell_result" where
  "map_run f r = (fst r, map_sum id f (snd r))"

definition shell_execute ::
  "shell_world \<Rightarrow> shell_tool \<Rightarrow> (string \<times> string) list \<Rightarrow> json \<Rightarrow> json shell_result" where
  "shell_execute w tool extra_env params =
     (case require_str params ''command'' of
        Err e \<Rightarrow> ([], Err e)
      | Ok command \<Rightarrow>
          map_run (shell_result_json tool)
            (execute_command w tool command (json_str params ''workdir'')
               (Option.bind (json_get params ''timeout'') json_as_u64) extra_env))"

definition shell_execute_streaming ::
  "shell_world \<Rightarrow> shell_tool \<Rightarrow> (string \<times> string) list \<Rightarrow> json \<Rightarrow> bool \<Rightarrow> json shell_result" where
  "shell_execute_streaming w tool extra_env params has_callback =
     (case require_str params ''command'' of
        Err e \<Rightarrow> ([], Err e)
      | Ok command \<Rightarrow>
          let workdir = json_str params ''workdir'';
              timeout = Option.bind (json_get params ''timeout'') json_as_u64
          in map_run (shell_result_json tool)
               (if has_callback \<and> sh_sandbox tool = None
                then execute_direct_with_streaming w command (run_cwd w tool workdir) (run_timeout tool timeout) extra_env
                else execute_command w tool command workdir timeout extra_env))"

definition shell_requires_approval_for :: "(string \<Rightarrow> json option) \<Rightarrow> json \<Rightarrow> bool" where
  "shell_requires_approval_for from_json params =
     (let cmd = (case json_str params ''command'' of
                   Some c \<Rightarrow> Some c
                 | None \<Rightarrow>
                     Option.bind (Option.bind (json_as_str params) from_json) (\<lambda>v. json_str v ''command''))
      in case cmd of Some c \<Rightarrow> requires_explicit_approval c | None \<Rightarrow> False)"

section \<open>Lemmas\<close>

lemma update_all_subset: "set (foldl (\<lambda>e (k, v). AList.update k v e) m xs) \<subseteq> set m \<union> set xs"
proof (induction xs arbitrary: m)
  case (Cons x xs)
  obtain k v where x: "x = (k, v)" by (cases x)
  from Cons [of "AList.update k v m"] set_update_subset [of k v m] show ?case by (auto simp: x)
qed simp

lemma child_env_scrubbed:
  "(k, v) \<in> set (child_env w extra_env) \<Longrightarrow>
   (k \<in> set SAFE_ENV_VARS \<and> sw_env w k = Some v) \<or> (k, v) \<in> set extra_env"
  unfolding child_env_def by (drule subsetD [OF update_all_subset]) (auto split: option.splits)

lemma contains_lower_fixed:
  "contains (to_lowercase s) p \<Longrightarrow> to_lowercase p = p"
proof -
  assume "contains (to_lowercase s) p"
  then have "set p \<subseteq> lower_char ` set s" by (auto simp: contains_iff to_lowercase_def dest: arg_cong [where f = set])
  then show ?thesis unfolding to_lowercase_def by (intro map_idI) auto
qed

lemma run_lists [simp]:
  "fst (map_run f r) = fst r"
  "fst (execute_direct_with_streaming w cmd d t e) = [RunDirect cmd d t (child_env w e)]"
  by (simp_all add: map_run_def execute_direct_with_streaming_def Let_def)

text \<open>One blocked pattern is written with an upper-case letter and compared with the lower-cased
  command, so it never applies.\<close>

lemma blocked_pattern_dead: "\<not> contains (to_lowercase cmd) ''chmod -R 777 /''"
proof
  assume "contains (to_lowercase cmd) ''chmod -R 777 /''"
  from contains_lower_fixed [OF this] have "lower_char CHR ''R'' = CHR ''R''" by (simp add: to_lowercase_def)
  moreover have "lower_char CHR ''R'' \<noteq> CHR ''R''" by code_simp
  ultimately show False by simp
qed

lemma truncate_output_shape:
  assumes "MAX_OUTPUT_SIZE < length s"
  shows "\<exists>a b. truncate_output s = take a s @ [CHR 0x0A, CHR 0x0A] @ ''... [truncated '' @ nat_str (length s - MAX_OUTPUT_SIZE) @
      '' bytes] ...'' @ [CHR 0x0A, CHR 0x0A] @ drop b s \<and>
    a \<le> MAX_OUTPUT_SIZE div 2 \<and> b \<le> length s - MAX_OUTPUT_SIZE div 2 \<and> is_char_boundary s a \<and> is_char_boundary s b"
proof -
  have "\<not> length s \<le> MAX_OUTPUT_SIZE div 2" "\<not> length s \<le> length s - MAX_OUTPUT_SIZE div 2"
    using assms by (auto simp: MAX_OUTPUT_SIZE_def)
  with assms floor_boundary_loop show ?thesis
    unfolding truncate_output_def Let_def floor_char_boundary_def by auto
qed

lemma injection_free:
  assumes "detect_command_injection cmd = None" and "lower = to_lowercase cmd"
  shows "CHR 0x00 \<notin> set cmd"
    and "contains_shell_pipe lower \<longrightarrow>
      (\<forall>p \<in> {''base64 -d'', ''base64 --decode'', ''xxd -r'', ''| rev'', ''|rev''}. \<not> contains lower p) \<and>
      \<not> has_command_token lower ''od '' \<and>
      (contains lower [CHR 0x5C, CHR ''x''] \<or> contains lower [CHR 0x5C, CHR ''0''] \<longrightarrow>
        (\<forall>p \<in> {''printf'', ''echo -e'', ''echo $'' @ [CHR 0x27]}. \<not> contains lower p))"
    and "contains lower ''$('' \<or> CHR 0x60 \<in> set lower \<longrightarrow>
      (\<forall>p \<in> {''dig '', ''nslookup '', ''host ''}. \<not> has_command_token lower p)"
    and "CHR ''|'' \<in> set lower \<or> CHR ''<'' \<in> set lower \<longrightarrow>
      (\<forall>p \<in> {''nc '', ''ncat '', ''netcat ''}. \<not> has_command_token lower p)"
    and "contains lower ''curl'' \<longrightarrow>
      (\<forall>p \<in> {''-d @'', ''-d@'', ''--data @'', ''--data-binary @'', ''--upload-file''}. \<not> contains lower p)"
    and "contains lower ''wget'' \<longrightarrow> \<not> contains lower ''--post-file''"
  using assms(1) unfolding detect_command_injection_def has_command_substitution_def Let_def assms(2) [symmetric]
  by (auto split: if_splits)

section \<open>Properties\<close>



text \<open>
  The streamed path is open.  With a callback for output and no sandbox the tool starts every
  command as it is, also one that \<open>execute_command\<close> refuses; the loop always passes a callback to the
  shell tool.
\<close>

theorem streaming_skips_guard:
  "shell_execute_streaming w (tool\<lparr>sh_sandbox := None\<rparr>) extra_env (JObject [(''command'', JString cmd)]) True =
     map_run (shell_result_json (tool\<lparr>sh_sandbox := None\<rparr>))
       (execute_direct_with_streaming w cmd (run_cwd w tool None) (sh_timeout tool) extra_env) \<and>
   fst (shell_execute_streaming w (tool\<lparr>sh_sandbox := None\<rparr>) extra_env (JObject [(''command'', JString cmd)]) True) =
     [RunDirect cmd (run_cwd w tool None) (sh_timeout tool) (child_env w extra_env)] \<and>
   fst (shell_execute w (tool\<lparr>sh_sandbox := None\<rparr>) extra_env (JObject [(''command'', JString ''sudo rm -rf /'')])) = []"
proof -
  have "is_blocked (tool\<lparr>sh_sandbox := None\<rparr>) ''sudo rm -rf /'' \<noteq> None"
    by (simp add: is_blocked_def Let_def BLOCKED_COMMANDS_def to_lowercase_def lower_char_def char_code_def starts_with_def)
  moreover have "run_timeout (tool\<lparr>sh_sandbox := None\<rparr>) None = sh_timeout tool"
    "run_cwd w (tool\<lparr>sh_sandbox := None\<rparr>) None = run_cwd w tool None"
    by (simp_all add: run_timeout_def run_cwd_def)
  ultimately show ?thesis
    by (auto simp: shell_execute_streaming_def shell_execute_def require_str_def json_str_def json_get_def json_as_str_def
        execute_command_def Let_def)
qed

end
