(* ===== verification/Leak_Detector.thy ===== *)
theory Leak_Detector
  imports Util
begin

text \<open>
  The detection of secrets in outputs and requests, \<^verbatim>\<open>src/src/safety/leak_detector.rs\<close>.  The two engines
  are third-party crates and enter as functions: a compiled regular expression is the function from a
  text to its matches as byte ranges, and the Aho-Corasick automaton is built from the literal
  prefixes and yields matches as triples of pattern number, start and end.
\<close>

section \<open>Patterns\<close>

datatype leak_action = LeakBlock | LeakRedact | LeakWarn

datatype leak_severity = LeakLow | LeakMedium | LeakHigh | LeakCritical

text \<open>The derived order of the enum is the order of its variants.\<close>

fun leak_rank :: "leak_severity \<Rightarrow> nat" where
  "leak_rank LeakLow = 0"
| "leak_rank LeakMedium = 1"
| "leak_rank LeakHigh = 2"
| "leak_rank LeakCritical = 3"

lemma leak_rank_inj: "leak_rank a = leak_rank b \<Longrightarrow> a = b"
  by (cases a; cases b) simp_all

instantiation leak_severity :: linorder
begin

definition less_eq_leak_severity :: "leak_severity \<Rightarrow> leak_severity \<Rightarrow> bool" where
  "less_eq_leak_severity a b \<longleftrightarrow> leak_rank a \<le> leak_rank b"

definition less_leak_severity :: "leak_severity \<Rightarrow> leak_severity \<Rightarrow> bool" where
  "less_leak_severity a b \<longleftrightarrow> leak_rank a < leak_rank b"

instance
  by standard (auto simp: less_eq_leak_severity_def less_leak_severity_def intro: leak_rank_inj)

end

type_synonym byte_range = "nat \<times> nat"

record leak_pattern =
  lp_name :: string
  lp_regex :: string
  lp_find :: "string \<Rightarrow> byte_range list"
  lp_severity :: leak_severity
  lp_action :: leak_action

record leak_match =
  lm_pattern_name :: string
  lm_severity :: leak_severity
  lm_action :: leak_action
  lm_location :: byte_range
  lm_masked_preview :: string

record leak_scan_result =
  lr_matches :: "leak_match list"
  lr_should_block :: bool
  lr_redacted_content :: "string option"

definition is_clean :: "leak_scan_result \<Rightarrow> bool" where
  "is_clean r \<longleftrightarrow> lr_matches r = []"

definition max_severity :: "leak_scan_result \<Rightarrow> leak_severity option" where
  "max_severity r = (if lr_matches r = [] then None else Some (Max (set (map lm_severity (lr_matches r)))))"

type_synonym automaton = "string \<Rightarrow> (nat \<times> byte_range) list"

record leak_detector =
  ld_patterns :: "leak_pattern list"
  ld_prefix_matcher :: "automaton option"
  ld_known_prefixes :: "(string \<times> nat) list"

section \<open>Building a detector\<close>

definition regex_special :: "char \<Rightarrow> bool" where
  "regex_special ch \<longleftrightarrow> ch \<in> set (''[(.*+?{|^$'' @ [CHR 0x5C])"

definition extract_literal_prefix :: "string \<Rightarrow> string option" where
  "extract_literal_prefix pattern =
     (let p = takeWhile (\<lambda>ch. \<not> regex_special ch) pattern in if length p \<ge> 3 then Some p else None)"

definition known_prefixes :: "leak_pattern list \<Rightarrow> (string \<times> nat) list" where
  "known_prefixes patterns =
     concat (map (\<lambda>(idx, pattern).
       case extract_literal_prefix (lp_regex pattern) of
         Some p \<Rightarrow> if length p \<ge> 3 then [(p, idx)] else []
       | None \<Rightarrow> []) (enumerate 0 patterns))"

definition with_patterns :: "(string list \<Rightarrow> automaton option) \<Rightarrow> leak_pattern list \<Rightarrow> leak_detector" where
  "with_patterns build patterns =
     (let prefixes = known_prefixes patterns in
      \<lparr>ld_patterns = patterns,
       ld_prefix_matcher = (if prefixes \<noteq> [] then build (map fst prefixes) else None),
       ld_known_prefixes = prefixes\<rparr>)"

definition add_pattern :: "leak_detector \<Rightarrow> leak_pattern \<Rightarrow> leak_detector" where
  "add_pattern d pattern = d\<lparr>ld_patterns := ld_patterns d @ [pattern]\<rparr>"

definition leak_pattern_count :: "leak_detector \<Rightarrow> nat" where
  "leak_pattern_count d = length (ld_patterns d)"

text \<open>Name, regular expression, severity and action of the built-in patterns.\<close>

definition DEFAULT_PATTERNS :: "(string \<times> string \<times> leak_severity \<times> leak_action) list" where
  "DEFAULT_PATTERNS =
     [(''openai_api_key'', ''sk-(?:proj-)?[a-zA-Z0-9]{20,}(?:T3BlbkFJ[a-zA-Z0-9_-]*)?'', LeakCritical, LeakBlock),
      (''anthropic_api_key'', ''sk-ant-api[a-zA-Z0-9_-]{90,}'', LeakCritical, LeakBlock),
      (''aws_access_key'', ''AKIA[0-9A-Z]{16}'', LeakCritical, LeakBlock),
      (''github_token'', ''gh[pousr]_[A-Za-z0-9_]{36,}'', LeakCritical, LeakBlock),
      (''github_fine_grained_pat'', ''github_pat_[a-zA-Z0-9]{22}_[a-zA-Z0-9]{59}'', LeakCritical, LeakBlock),
      (''stripe_api_key'', ''sk_(?:live|test)_[a-zA-Z0-9]{24,}'', LeakCritical, LeakBlock),
      (''session_token'', ''sess_[a-zA-Z0-9]{32,}'', LeakCritical, LeakBlock),
      (''pem_private_key'', ''-----BEGIN'' @ [CHR 0x5C] @ ''s+(?:RSA'' @ [CHR 0x5C] @ ''s+)?PRIVATE'' @ [CHR 0x5C] @ ''s+KEY-----'',
         LeakCritical, LeakBlock),
      (''ssh_private_key'', ''-----BEGIN'' @ [CHR 0x5C] @ ''s+(?:OPENSSH|EC|DSA)'' @ [CHR 0x5C] @ ''s+PRIVATE'' @ [CHR 0x5C] @ ''s+KEY-----'',
         LeakCritical, LeakBlock),
      (''google_api_key'', ''AIza[0-9A-Za-z_-]{35}'', LeakHigh, LeakBlock),
      (''slack_token'', ''xox[baprs]-[0-9a-zA-Z-]{10,}'', LeakHigh, LeakBlock),
      (''twilio_api_key'', ''SK[a-fA-F0-9]{32}'', LeakHigh, LeakBlock),
      (''sendgrid_api_key'', ''SG'' @ [CHR 0x5C] @ ''.[a-zA-Z0-9_-]{22}'' @ [CHR 0x5C] @ ''.[a-zA-Z0-9_-]{43}'', LeakHigh, LeakBlock),
      (''bearer_token'', ''Bearer'' @ [CHR 0x5C] @ ''s+[a-zA-Z0-9_-]{20,}'', LeakHigh, LeakRedact),
      (''auth_header'', ''(?i)authorization:'' @ [CHR 0x5C] @ ''s*[a-zA-Z]+'' @ [CHR 0x5C] @ ''s+[a-zA-Z0-9_-]{20,}'', LeakHigh, LeakRedact),
      (''high_entropy_hex'', [CHR 0x5C] @ ''b[a-fA-F0-9]{64}'' @ [CHR 0x5C] @ ''b'', LeakMedium, LeakWarn)]"

definition default_patterns :: "(string \<Rightarrow> string \<Rightarrow> byte_range list) \<Rightarrow> leak_pattern list" where
  "default_patterns regex =
     map (\<lambda>(name, re, severity, action).
       \<lparr>lp_name = name, lp_regex = re, lp_find = regex re, lp_severity = severity, lp_action = action\<rparr>) DEFAULT_PATTERNS"

definition leak_detector_new ::
  "(string \<Rightarrow> string \<Rightarrow> byte_range list) \<Rightarrow> (string list \<Rightarrow> automaton option) \<Rightarrow> leak_detector" where
  "leak_detector_new regex build = with_patterns build (default_patterns regex)"

section \<open>Scanning\<close>

definition mask_secret :: "string \<Rightarrow> string" where
  "mask_secret secret =
     (let len = length secret in
      if len \<le> 8 then replicate len (CHR ''*'')
      else concat (take 4 (utf8_chars secret)) @ replicate (min (len - 8) 8) (CHR ''*'') @
           concat (drop (len - 4) (utf8_chars secret)))"

fun redact_loop :: "string \<Rightarrow> byte_range list \<Rightarrow> nat \<Rightarrow> string" where
  "redact_loop content [] last_end = (if last_end < length content then drop last_end content else [])"
| "redact_loop content ((s, e) # ranges) last_end =
     (if s > last_end then take (s - last_end) (drop last_end content) else []) @
     ''[REDACTED]'' @ redact_loop content ranges e"

definition apply_redactions :: "string \<Rightarrow> byte_range list \<Rightarrow> string" where
  "apply_redactions content ranges = (if ranges = [] then content else redact_loop content ranges 0)"

definition push_new :: "nat list \<Rightarrow> nat \<Rightarrow> nat list" where
  "push_new xs i = (if i \<in> set xs then xs else xs @ [i])"

definition candidate_indices :: "leak_detector \<Rightarrow> string \<Rightarrow> nat list" where
  "candidate_indices d content =
     (case ld_prefix_matcher d of
        Some matcher \<Rightarrow>
          let hit = foldl (\<lambda>is m. push_new is (snd (ld_known_prefixes d ! fst m))) [] (matcher content)
          in foldl (\<lambda>is i. if i \<notin> snd ` set (ld_known_prefixes d) then push_new is i else is) hit
               [0..<length (ld_patterns d)]
      | None \<Rightarrow> [0..<length (ld_patterns d)])"

definition pattern_matches :: "leak_pattern \<Rightarrow> string \<Rightarrow> leak_match list" where
  "pattern_matches pattern content =
     map (\<lambda>(s, e). \<lparr>lm_pattern_name = lp_name pattern, lm_severity = lp_severity pattern, lm_action = lp_action pattern,
                    lm_location = (s, e), lm_masked_preview = mask_secret (take (e - s) (drop s content))\<rparr>)
       (lp_find pattern content)"

definition scan :: "leak_detector \<Rightarrow> string \<Rightarrow> leak_scan_result" where
  "scan d content =
     (let found = concat (map (\<lambda>i. pattern_matches (ld_patterns d ! i) content) (candidate_indices d content));
          matches = sort_key (fst \<circ> lm_location) found;
          redact_ranges = sort_key fst (map lm_location (filter (\<lambda>m. lm_action m = LeakRedact) found))
      in \<lparr>lr_matches = matches,
          lr_should_block = list_ex (\<lambda>m. lm_action m = LeakBlock) found,
          lr_redacted_content = (if redact_ranges = [] then None else Some (apply_redactions content redact_ranges))\<rparr>)"

datatype leak_detection_error = SecretLeakBlocked string string

fun leak_error_display :: "leak_detection_error \<Rightarrow> string" where
  "leak_error_display (SecretLeakBlocked pattern preview) =
     ''Secret leak blocked: pattern '' @ [CHR 0x27] @ pattern @ [CHR 0x27] @ '' matched '' @ [CHR 0x27] @ preview @ [CHR 0x27]"

definition scan_and_clean :: "leak_detector \<Rightarrow> string \<Rightarrow> (leak_detection_error, string) result" where
  "scan_and_clean d content =
     (let result = scan d content in
      if lr_should_block result
      then (case find (\<lambda>m. lm_action m = LeakBlock) (lr_matches result) of
              Some m \<Rightarrow> Err (SecretLeakBlocked (lm_pattern_name m) (lm_masked_preview m))
            | None \<Rightarrow> Err (SecretLeakBlocked [] []))
      else Ok (case lr_redacted_content result of Some c \<Rightarrow> c | None \<Rightarrow> content))"

fun scan_headers :: "leak_detector \<Rightarrow> (string \<times> string) list \<Rightarrow> (leak_detection_error, unit) result" where
  "scan_headers d [] = Ok ()"
| "scan_headers d ((name, value) # headers) =
     (case scan_and_clean d value of
        Err e \<Rightarrow> Err (SecretLeakBlocked (''header:'' @ name) (leak_error_display e))
      | Ok _ \<Rightarrow> scan_headers d headers)"

definition scan_http_request ::
  "(string \<Rightarrow> string) \<Rightarrow> leak_detector \<Rightarrow> string \<Rightarrow> (string \<times> string) list \<Rightarrow> string option \<Rightarrow>
   (leak_detection_error, unit) result" where
  "scan_http_request lossy d url headers body =
     (case scan_and_clean d url of
        Err e \<Rightarrow> Err e
      | Ok _ \<Rightarrow>
          (case scan_headers d headers of
             Err e \<Rightarrow> Err e
           | Ok _ \<Rightarrow>
               (case body of
                  None \<Rightarrow> Ok ()
                | Some bytes \<Rightarrow>
                    (case scan_and_clean d (lossy bytes) of Err e \<Rightarrow> Err e | Ok _ \<Rightarrow> Ok ()))))"

section \<open>Candidates\<close>

lemma set_push_new [simp]: "set (push_new xs i) = insert i (set xs)"
  by (auto simp: push_new_def)

lemma set_foldl_push: "set (foldl (\<lambda>is x. push_new is (g x)) is xs) = set is \<union> g ` set xs"
  by (induction xs arbitrary: "is") auto

lemma set_foldl_push_if:
  "set (foldl (\<lambda>is x. if P x then push_new is x else is) is xs) = set is \<union> {x \<in> set xs. P x}"
  by (induction xs arbitrary: "is") auto

lemma set_candidates:
  "set (candidate_indices d content) =
     (case ld_prefix_matcher d of
        Some m \<Rightarrow> (\<lambda>x. snd (ld_known_prefixes d ! fst x)) ` set (m content) \<union>
          {i. i < length (ld_patterns d) \<and> i \<notin> snd ` set (ld_known_prefixes d)}
      | None \<Rightarrow> {i. i < length (ld_patterns d)})"
  by (auto simp: candidate_indices_def Let_def set_foldl_push set_foldl_push_if split: option.split)

lemma lr_matches_scan:
  "set (lr_matches (scan d content)) =
     (\<Union>i \<in> set (candidate_indices d content). set (pattern_matches (ld_patterns d ! i) content))"
  by (simp add: scan_def Let_def)

lemma pattern_matches_action:
  "m \<in> set (pattern_matches p content) \<Longrightarrow> lm_action m = lp_action p \<and> lm_pattern_name m = lp_name p"
  by (auto simp: pattern_matches_def)

lemma pattern_matches_Nil: "pattern_matches p content = [] \<longleftrightarrow> lp_find p content = []"
  by (simp add: pattern_matches_def)

lemma should_block_iff:
  "lr_should_block (scan d content) \<longleftrightarrow>
     (\<exists>i \<in> set (candidate_indices d content). lp_action (ld_patterns d ! i) = LeakBlock \<and> lp_find (ld_patterns d ! i) content \<noteq> [])"
proof -
  have "(\<exists>m \<in> set (pattern_matches p content). lm_action m = LeakBlock) \<longleftrightarrow> lp_action p = LeakBlock \<and> lp_find p content \<noteq> []" for p
    by (cases "lp_find p content") (auto simp: pattern_matches_def)
  then show ?thesis by (auto simp: scan_def Let_def list_ex_iff)
qed

lemma scan_and_clean_Err_iff: "(\<exists>e. scan_and_clean d content = Err e) \<longleftrightarrow> lr_should_block (scan d content)"
  by (auto simp: scan_and_clean_def Let_def split: option.splits)

lemma scan_headers_Ok_iff:
  "scan_headers d headers = Ok () \<longleftrightarrow> (\<forall>(n, v) \<in> set headers. \<not> lr_should_block (scan d v))"
proof (induction headers)
  case (Cons h headers)
  obtain n v where h: "h = (n, v)" by (cases h)
  from Cons scan_and_clean_Err_iff [of d v] show ?case
    by (cases "scan_and_clean d v") (auto simp: h)
qed simp

section \<open>Prefixes that hide each other\<close>

definition occurs_at :: "string \<Rightarrow> string \<Rightarrow> nat \<Rightarrow> bool" where
  "occurs_at content p i \<longleftrightarrow> take (length p) (drop i content) = p"

text \<open>The documented behaviour of the automaton in its standard mode: matches are reported as they are
  seen, so no occurrence that begins within a reported match or later ends before it.\<close>

definition earliest_matches :: "string list \<Rightarrow> automaton \<Rightarrow> bool" where
  "earliest_matches pats m \<longleftrightarrow>
     (\<forall>content. \<forall>(k, s, e) \<in> set (m content).
        k < length pats \<and> e = s + length (pats ! k) \<and> occurs_at content (pats ! k) s \<and>
        (\<forall>j < length pats. \<forall>i. s \<le> i \<and> occurs_at content (pats ! j) i \<longrightarrow> e \<le> i + length (pats ! j)))"

lemma shadowed_never_reported:
  assumes "earliest_matches pats m" and "strict_prefix (pats ! j) (pats ! k)" and "j < length pats"
    and "(k, s, e) \<in> set (m content)"
  shows False
proof -
  have k: "k < length pats" "e = s + length (pats ! k)" "occurs_at content (pats ! k) s"
    and first: "\<forall>j < length pats. \<forall>i. s \<le> i \<and> occurs_at content (pats ! j) i \<longrightarrow> e \<le> i + length (pats ! j)"
    using assms(1) [unfolded earliest_matches_def, rule_format, OF assms(4)] by auto
  from assms(2) obtain t where t: "pats ! k = pats ! j @ t" "t \<noteq> []" by (auto simp: strict_prefix_def prefix_def)
  have "take (length (pats ! j)) (take (length (pats ! k)) (drop s content)) = take (length (pats ! j)) (pats ! k)"
    using k(3) by (simp add: occurs_at_def)
  then have "occurs_at content (pats ! j) s" using t by (simp add: occurs_at_def min_def)
  with first assms(3) k(2) t show False by fastforce
qed

lemma known_prefixes_regex:
  "known_prefixes patterns = concat (map (\<lambda>(idx, re). case extract_literal_prefix re of
       Some p \<Rightarrow> if length p \<ge> 3 then [(p, idx)] else [] | None \<Rightarrow> []) (enumerate 0 (map lp_regex patterns)))"
proof -
  have "enumerate 0 (map lp_regex patterns) = map (\<lambda>(i, x). (i, lp_regex x)) (enumerate 0 patterns)"
    by (simp add: enumerate_eq_zip zip_map2)
  then show ?thesis unfolding known_prefixes_def
    by (simp only: map_map, intro arg_cong [where f = concat] map_cong) auto
qed

lemma default_regexes: "map lp_regex (default_patterns regex) = map (fst \<circ> snd) DEFAULT_PATTERNS"
  by (simp add: default_patterns_def comp_def case_prod_beta)

lemma default_prefixes:
  "known_prefixes (default_patterns regex) =
     [(''sk-'', 0), (''sk-ant-api'', 1), (''AKIA'', 2), (''github_pat_'', 4), (''sk_'', 5), (''sess_'', 6),
      (''-----BEGIN'', 7), (''-----BEGIN'', 8), (''AIza'', 9), (''xox'', 10), (''Bearer'', 13)]"
  unfolding known_prefixes_regex default_regexes by code_simp

text \<open>A matcher with this behaviour, as a reference: the next match is the one with the smallest end, and
  the search goes on after it.\<close>

definition ends_here :: "string list \<Rightarrow> string \<Rightarrow> nat \<Rightarrow> nat \<Rightarrow> nat option" where
  "ends_here pats content pos e =
     find (\<lambda>k. length (pats ! k) \<le> e - pos \<and> occurs_at content (pats ! k) (e - length (pats ! k))) [0..<length pats]"

definition next_match :: "string list \<Rightarrow> string \<Rightarrow> nat \<Rightarrow> (nat \<times> nat) option" where
  "next_match pats content pos =
     (case find (\<lambda>e. ends_here pats content pos e \<noteq> None) [Suc pos..<Suc (length content)] of
        Some e \<Rightarrow> map_option (\<lambda>k. (k, e)) (ends_here pats content pos e)
      | None \<Rightarrow> None)"

lemma find_SomeD: "find P xs = Some x \<Longrightarrow> x \<in> set xs \<and> P x"
  by (auto simp: find_Some_iff)

lemma next_match_bounds: "next_match pats content pos = Some (k, e) \<Longrightarrow> pos < e \<and> e \<le> length content"
  by (auto simp: next_match_def split: option.splits simp del: upt_Suc dest!: find_SomeD)

function reference_scan :: "string list \<Rightarrow> string \<Rightarrow> nat \<Rightarrow> (nat \<times> byte_range) list" where
  "reference_scan pats content pos =
     (case next_match pats content pos of
        None \<Rightarrow> []
      | Some (k, e) \<Rightarrow> (k, e - length (pats ! k), e) # reference_scan pats content e)"
  by pat_completeness auto
termination
  by (relation "measure (\<lambda>(pats, content, pos). length content - pos)") (auto dest: next_match_bounds)

declare reference_scan.simps [simp del]

lemma next_match_first:
  assumes "next_match pats content pos = Some (k, e)"
  shows "k < length pats \<and> pos \<le> e - length (pats ! k) \<and> length (pats ! k) \<le> e \<and>
    occurs_at content (pats ! k) (e - length (pats ! k)) \<and>
    (\<forall>j < length pats. \<forall>i. pats ! j \<noteq> [] \<and> pos \<le> i \<and> occurs_at content (pats ! j) i \<longrightarrow> e \<le> i + length (pats ! j))"
proof -
  from assms have e: "find (\<lambda>e. ends_here pats content pos e \<noteq> None) [Suc pos..<Suc (length content)] = Some e"
    and k: "ends_here pats content pos e = Some k" by (auto simp: next_match_def split: option.splits simp del: upt_Suc)
  from k have k': "k < length pats" "length (pats ! k) \<le> e - pos" "occurs_at content (pats ! k) (e - length (pats ! k))"
    by (auto simp: ends_here_def find_Some_iff)
  have least: "ends_here pats content pos e' = None" if "pos < e'" "e' < e" for e'
  proof -
    from e obtain n where n: "n < Suc (length content) - Suc pos" "e = Suc pos + n"
      "\<forall>j < n. ends_here pats content pos (Suc pos + j) = None"
      by (auto simp: find_Some_iff simp del: upt_Suc)
    with that n(3) [rule_format, of "e' - Suc pos"] show ?thesis by simp
  qed
  have "e \<le> i + length (pats ! j)" if "j < length pats" "pats ! j \<noteq> []" "pos \<le> i" "occurs_at content (pats ! j) i" for i j
  proof (rule ccontr)
    assume "\<not> e \<le> i + length (pats ! j)"
    moreover have "pos < i + length (pats ! j)" using that by (cases "pats ! j") auto
    ultimately have "ends_here pats content pos (i + length (pats ! j)) = None" using least by simp
    then have "\<forall>x < length pats. length (pats ! x) \<le> i + length (pats ! j) - pos \<longrightarrow>
        \<not> occurs_at content (pats ! x) (i + length (pats ! j) - length (pats ! x))"
      by (auto simp: ends_here_def find_None_iff)
    moreover have "length (pats ! j) \<le> i + length (pats ! j) - pos" using that(3) by linarith
    ultimately show False using that(1,4) by fastforce
  qed
  with k' assms next_match_bounds show ?thesis by fastforce
qed

lemma reference_scan_earliest:
  assumes "\<forall>p \<in> set pats. p \<noteq> []"
  shows "earliest_matches pats (\<lambda>content. reference_scan pats content 0)"
proof -
  have "k < length pats \<and> e = s + length (pats ! k) \<and> occurs_at content (pats ! k) s \<and>
      (\<forall>j < length pats. \<forall>i. s \<le> i \<and> occurs_at content (pats ! j) i \<longrightarrow> e \<le> i + length (pats ! j))"
    if "(k, s, e) \<in> set (reference_scan pats content pos)" for content pos k s e
    using that
  proof (induction "length content - pos" arbitrary: pos rule: less_induct)
    case less
    from less.prems obtain k0 e0 where n: "next_match pats content pos = Some (k0, e0)"
      and m: "(k, s, e) = (k0, e0 - length (pats ! k0), e0) \<or> (k, s, e) \<in> set (reference_scan pats content e0)"
      by (simp add: reference_scan.simps [of pats content pos] split: option.splits prod.splits) (metis (no_types))
    from m show ?case
    proof
      assume "(k, s, e) = (k0, e0 - length (pats ! k0), e0)"
      with next_match_first [OF n] assms show ?thesis by (auto simp: all_set_conv_all_nth)
    next
      assume "(k, s, e) \<in> set (reference_scan pats content e0)"
      moreover have "length content - e0 < length content - pos" using next_match_bounds [OF n] by linarith
      ultimately show ?thesis using less.hyps by blast
    qed
  qed
  then show ?thesis unfolding earliest_matches_def by fast
qed

section \<open>Redaction\<close>

text \<open>The pieces of a redacted text: a kept range of the original, or the mark.\<close>

fun pieces :: "nat \<Rightarrow> byte_range list \<Rightarrow> nat \<Rightarrow> byte_range option list" where
  "pieces n [] last_end = (if last_end < n then [Some (last_end, n)] else [])"
| "pieces n ((s, e) # ranges) last_end =
     (if s > last_end then [Some (last_end, s)] else []) @ None # pieces n ranges e"

definition render_piece :: "string \<Rightarrow> byte_range option \<Rightarrow> string" where
  "render_piece content p =
     (case p of None \<Rightarrow> ''[REDACTED]'' | Some (a, b) \<Rightarrow> take (b - a) (drop a content))"

lemma redact_loop_pieces:
  "redact_loop content ranges l = concat (map (render_piece content) (pieces (length content) ranges l))"
  by (induction content ranges l rule: redact_loop.induct) (auto simp: render_piece_def)

lemma pieces_outside:
  assumes "sorted (map fst ranges)" and "sorted (map snd ranges)"
    and "\<forall>(s, e) \<in> set ranges. l \<le> e" and "Some (a, b) \<in> set (pieces n ranges l)"
  shows "l \<le> a \<and> (\<forall>(s, e) \<in> set ranges. b \<le> s \<or> e \<le> a)"
  using assms
proof (induction ranges arbitrary: l)
  case Nil
  then show ?case by (auto split: if_splits)
next
  case (Cons r ranges)
  obtain s e where r: "r = (s, e)" by (cases r)
  from Cons.prems(4) consider "s > l" "a = l" "b = s" | "Some (a, b) \<in> set (pieces n ranges e)"
    by (auto simp: r split: if_splits)
  then show ?case
  proof cases
    case 1
    with Cons.prems(1) show ?thesis by (auto simp: r)
  next
    case 2
    with Cons.prems Cons.IH [of e] have "e \<le> a \<and> (\<forall>(s, e) \<in> set ranges. b \<le> s \<or> e \<le> a)"
      by (force simp: r)
    with Cons.prems(3) show ?thesis by (auto simp: r)
  qed
qed

lemma earliest_in_range: "earliest_matches pats m \<Longrightarrow> x \<in> set (m content) \<Longrightarrow> fst x < length pats"
  unfolding earliest_matches_def by (cases x) auto

lemma anthropic_prefix_hidden:
  assumes "build (map fst (known_prefixes (default_patterns regex))) = Some m"
    and "earliest_matches (map fst (known_prefixes (default_patterns regex))) m" and "x \<in> set (m content)"
  shows "snd (known_prefixes (default_patterns regex) ! fst x) \<noteq> 1"
proof -
  let ?ps = "map fst (known_prefixes (default_patterns regex))"
  have hidden: "fst x \<noteq> 1" if "x \<in> set (m content)" for x
  proof
    assume "fst x = 1"
    with that have "(1, snd x) \<in> set (m content)" by (metis prod.collapse)
    then obtain s e where "(1, s, e) \<in> set (m content)" by (cases "snd x") simp
    moreover have "strict_prefix (?ps ! 0) (?ps ! 1)" "0 < length ?ps" by (simp_all add: default_prefixes strict_prefix_def)
    ultimately show False using shadowed_never_reported [OF assms(2)] by blast
  qed
  have bound: "fst x < 11" if "x \<in> set (m content)" for x
    using assms(2) that unfolding earliest_matches_def by (cases x) (fastforce simp: default_prefixes)
  have index: "snd (known_prefixes (default_patterns regex) ! k) \<noteq> 1" if "k < 11" "k \<noteq> 1" for k
  proof -
    have "k \<in> {0, 2, 3, 4, 5, 6, 7, 8, 9, 10}" using that by (simp, presburger)
    then show ?thesis by (elim insertE) (simp_all add: default_prefixes)
  qed
  show ?thesis using hidden [OF assms(3)] bound [OF assms(3)] index by blast
qed

lemma default_anthropic: "lp_name (default_patterns regex ! 1) = ''anthropic_api_key''" "lp_action (default_patterns regex ! 1) = LeakBlock"
  "lp_name (default_patterns regex ! Suc 0) = ''anthropic_api_key''" "lp_action (default_patterns regex ! Suc 0) = LeakBlock"
  by (simp_all add: default_patterns_def DEFAULT_PATTERNS_def)

lemma known_prefixes_set:
  "(p, i) \<in> set (known_prefixes ps) \<longleftrightarrow> i < length ps \<and> extract_literal_prefix (lp_regex (ps ! i)) = Some p"
proof -
  have long: "extract_literal_prefix re = Some p \<Longrightarrow> 3 \<le> length p" for re p
    by (auto simp: extract_literal_prefix_def Let_def split: if_splits)
  have "(p, i) \<in> set (case extract_literal_prefix re of Some p \<Rightarrow> if length p \<ge> 3 then [(p, idx)] else [] | None \<Rightarrow> []) \<longleftrightarrow>
      i = idx \<and> extract_literal_prefix re = Some p" for re idx
    using long [of re] by (cases "extract_literal_prefix re") auto
  then have "(p, i) \<in> set (known_prefixes ps) \<longleftrightarrow> (\<exists>x \<in> set (enumerate 0 ps). i = fst x \<and> extract_literal_prefix (lp_regex (snd x)) = Some p)"
    by (simp add: known_prefixes_def case_prod_beta)
  also have "\<dots> \<longleftrightarrow> i < length ps \<and> extract_literal_prefix (lp_regex (ps ! i)) = Some p"
    by (auto simp: in_set_enumerate_eq intro: bexI [of _ "(i, ps ! i)"])
  finally show ?thesis .
qed

lemma known_prefixes_index:
  "i \<in> snd ` set (known_prefixes ps) \<longleftrightarrow> i < length ps \<and> extract_literal_prefix (lp_regex (ps ! i)) \<noteq> None"
proof
  assume "i \<in> snd ` set (known_prefixes ps)"
  then obtain p where "(p, i) \<in> set (known_prefixes ps)" by auto
  then show "i < length ps \<and> extract_literal_prefix (lp_regex (ps ! i)) \<noteq> None" by (simp add: known_prefixes_set)
next
  assume "i < length ps \<and> extract_literal_prefix (lp_regex (ps ! i)) \<noteq> None"
  then obtain p where "(p, i) \<in> set (known_prefixes ps)" by (auto simp: known_prefixes_set)
  then show "i \<in> snd ` set (known_prefixes ps)" by force
qed

lemma candidate_iff:
  assumes "i < length ps"
  shows "i \<notin> set (candidate_indices (with_patterns build ps) w) \<longleftrightarrow>
    extract_literal_prefix (lp_regex (ps ! i)) \<noteq> None \<and>
    (\<exists>m. build (map fst (known_prefixes ps)) = Some m \<and> (\<forall>x \<in> set (m w). snd (known_prefixes ps ! fst x) \<noteq> i))"
proof (cases "build (map fst (known_prefixes ps))")
  case None
  then show ?thesis using assms by (simp add: set_candidates with_patterns_def Let_def)
next
  case (Some m)
  have c: "set (candidate_indices (with_patterns build ps) w) =
      (if known_prefixes ps = [] then {i. i < length ps}
       else (\<lambda>x. snd (known_prefixes ps ! fst x)) ` set (m w) \<union> {i. i < length ps \<and> i \<notin> snd ` set (known_prefixes ps)})"
    by (simp add: set_candidates with_patterns_def Let_def Some)
  have empty: "known_prefixes ps = [] \<Longrightarrow> extract_literal_prefix (lp_regex (ps ! i)) = None"
    using known_prefixes_index [of i ps] assms by simp
  have hit: "i \<notin> (\<lambda>x. snd (known_prefixes ps ! fst x)) ` set (m w) \<longleftrightarrow> (\<forall>x \<in> set (m w). snd (known_prefixes ps ! fst x) \<noteq> i)"
    unfolding image_iff by metis
  show ?thesis
    unfolding c Some using empty assms known_prefixes_index [of i ps] hit
    by (cases "known_prefixes ps = []") (simp_all del: not_None_eq image_iff, blast)
qed

lemma candidates_in_range:
  assumes "\<forall>m w x. build (map fst (known_prefixes ps)) = Some m \<and> x \<in> set (m w) \<longrightarrow> fst x < length (known_prefixes ps)"
  shows "set (candidate_indices (with_patterns build ps) w) \<subseteq> {..<length ps}"
proof -
  have "snd (known_prefixes ps ! k) < length ps" if "k < length (known_prefixes ps)" for k
    using known_prefixes_index [of "snd (known_prefixes ps ! k)" ps] that by (meson image_eqI nth_mem)
  then have "snd (known_prefixes ps ! fst x) < length ps"
    if "build (map fst (known_prefixes ps)) = Some m" "x \<in> set (m w)" for m x
    using assms that by blast
  then show ?thesis unfolding set_candidates with_patterns_def Let_def by (auto split: option.splits if_splits)
qed

section \<open>Properties\<close>

text \<open>
  C31: A request passes the scan exactly if every blocking pattern that matches in it is one the prefilter leaves out.  The address,
  every header value and the body are scanned.  A blocking pattern that matches in one of them lets the request pass
  only if its regular expression begins with at least three literal characters, the automaton for such prefixes was built, and it
  reports no occurrence of this pattern's prefix there; every other match refuses the request.  With the default
  patterns this leaves a hole: an automaton that reports matches as they are seen never reports the prefix of the
  pattern for Anthropic keys, so a request with such a key passes unless another pattern matches.
\<close>

theorem http_scan_exact:
  assumes "\<forall>m w x. build (map fst (known_prefixes ps)) = Some m \<and> x \<in> set (m w) \<longrightarrow> fst x < length (known_prefixes ps)"
  shows "(scan_http_request lossy (with_patterns build ps) url headers body = Ok () \<longleftrightarrow>
     (\<forall>w \<in> set (url # map snd headers @ (case body of Some b \<Rightarrow> [lossy b] | None \<Rightarrow> [])).
        \<forall>i < length ps. lp_action (ps ! i) = LeakBlock \<and> lp_find (ps ! i) w \<noteq> [] \<longrightarrow>
          3 \<le> length (takeWhile (\<lambda>ch. ch \<notin> set (''[(.*+?{|^$'' @ [CHR 0x5C])) (lp_regex (ps ! i))) \<and>
          (\<exists>m. build (map fst (known_prefixes ps)) = Some m \<and> (\<forall>x \<in> set (m w). snd (known_prefixes ps ! fst x) \<noteq> i)))) \<and>
    (\<forall>regex m. ps = default_patterns regex \<and> build (map fst (known_prefixes ps)) = Some m \<and>
       earliest_matches (map fst (known_prefixes ps)) m \<longrightarrow>
       lp_name (ps ! 1) = ''anthropic_api_key'' \<and> lp_action (ps ! 1) = LeakBlock \<and>
       (\<forall>w. \<forall>x \<in> set (m w). snd (known_prefixes ps ! fst x) \<noteq> 1))"
proof (intro conjI allI impI)
  let ?d = "with_patterns build ps"
  have clean: "(\<exists>c. scan_and_clean ?d w = Ok c) \<longleftrightarrow>
      (\<forall>i < length ps. lp_action (ps ! i) = LeakBlock \<and> lp_find (ps ! i) w \<noteq> [] \<longrightarrow> i \<notin> set (candidate_indices ?d w))" for w
    using scan_and_clean_Err_iff [of ?d w] should_block_iff [of ?d w] candidates_in_range [where build = build and ps = ps and w = w, OF assms]
    by (cases "scan_and_clean ?d w") (auto simp: with_patterns_def Let_def)
  have skip: "i \<notin> set (candidate_indices ?d w) \<longleftrightarrow>
      3 \<le> length (takeWhile (\<lambda>ch. ch \<notin> set (''[(.*+?{|^$'' @ [CHR 0x5C])) (lp_regex (ps ! i))) \<and>
      (\<exists>m. build (map fst (known_prefixes ps)) = Some m \<and> (\<forall>x \<in> set (m w). snd (known_prefixes ps ! fst x) \<noteq> i))" if "i < length ps" for i w
    using candidate_iff [OF that, of build w] unfolding extract_literal_prefix_def regex_special_def Let_def by (simp add: not_le split: if_splits)
  have "(\<exists>c. scan_and_clean ?d w = Ok c) \<longleftrightarrow> \<not> lr_should_block (scan ?d w)" for w
    using scan_and_clean_Err_iff [of ?d w] by (cases "scan_and_clean ?d w") auto
  then have heads: "scan_headers ?d headers = Ok () \<longleftrightarrow> (\<forall>v \<in> snd ` set headers. \<exists>c. scan_and_clean ?d v = Ok c)"
    unfolding scan_headers_Ok_iff by auto
  have "scan_http_request lossy ?d url headers body = Ok () \<longleftrightarrow>
      (\<exists>c. scan_and_clean ?d url = Ok c) \<and> scan_headers ?d headers = Ok () \<and>
      (case body of Some b \<Rightarrow> \<exists>c. scan_and_clean ?d (lossy b) = Ok c | None \<Rightarrow> True)"
    by (cases "scan_and_clean ?d url"; cases "scan_headers ?d headers"; cases body)
      (auto simp: scan_http_request_def split: sum.splits)
  also have "\<dots> \<longleftrightarrow> (\<forall>w \<in> set (url # map snd headers @ (case body of Some b \<Rightarrow> [lossy b] | None \<Rightarrow> [])). \<exists>c. scan_and_clean ?d w = Ok c)"
    unfolding heads by (auto split: option.splits)
  finally show "scan_http_request lossy ?d url headers body = Ok () \<longleftrightarrow>
     (\<forall>w \<in> set (url # map snd headers @ (case body of Some b \<Rightarrow> [lossy b] | None \<Rightarrow> [])).
        \<forall>i < length ps. lp_action (ps ! i) = LeakBlock \<and> lp_find (ps ! i) w \<noteq> [] \<longrightarrow>
          3 \<le> length (takeWhile (\<lambda>ch. ch \<notin> set (''[(.*+?{|^$'' @ [CHR 0x5C])) (lp_regex (ps ! i))) \<and>
          (\<exists>m. build (map fst (known_prefixes ps)) = Some m \<and> (\<forall>x \<in> set (m w). snd (known_prefixes ps ! fst x) \<noteq> i)))"
    unfolding clean by (simp only: skip cong: imp_cong)
next
  fix regex m
  assume d: "ps = default_patterns regex \<and> build (map fst (known_prefixes ps)) = Some m \<and>
    earliest_matches (map fst (known_prefixes ps)) m"
  then show "lp_name (ps ! 1) = ''anthropic_api_key''" "lp_action (ps ! 1) = LeakBlock" using default_anthropic by simp_all
  show "\<forall>x \<in> set (m w). snd (known_prefixes ps ! fst x) \<noteq> 1" for w
    using d anthropic_prefix_hidden [of build regex m _ w] by blast
qed

theorem http_scan_exact_witness:
  "scan_http_request (\<lambda>b. b) (leak_detector_new (\<lambda>re w. if contains w ''AKIA'' \<and> starts_with re ''AKIA'' then [(0, 4)] else [])
     (\<lambda>_. None)) ''http://x/?k=AKIA'' [] None \<noteq> Ok ()"
proof -
  let ?r = "\<lambda>re w. if contains w ''AKIA'' \<and> starts_with re ''AKIA'' then [(0, 4)] else []"
  have "2 < length (default_patterns ?r)" by (simp add: default_patterns_def DEFAULT_PATTERNS_def)
  moreover have "lp_action (default_patterns ?r ! 2) = LeakBlock \<and> lp_find (default_patterns ?r ! 2) ''http://x/?k=AKIA'' \<noteq> []"
    by (simp add: default_patterns_def DEFAULT_PATTERNS_def starts_with_def)
  ultimately show ?thesis
    using http_scan_exact [of "\<lambda>_. None" "default_patterns ?r" "\<lambda>b. b" "''http://x/?k=AKIA''" "[]" None, THEN conjunct1]
    unfolding leak_detector_new_def by auto
qed

text \<open>
  Keys of one provider are never found.  With an automaton that reports matches as they are seen, the
  prefix of the pattern for Anthropic keys is hidden by the shorter prefix of the pattern for OpenAI
  keys, so the pattern is never a candidate: no scan of any text reports it, whatever the regular
  expression would match.
\<close>

theorem anthropic_key_never_found:
  assumes "build (map fst (known_prefixes (default_patterns regex))) = Some m"
    and "earliest_matches (map fst (known_prefixes (default_patterns regex))) m"
  shows "1 \<notin> set (candidate_indices (leak_detector_new regex build) content) \<and>
    (\<forall>x \<in> set (lr_matches (scan (leak_detector_new regex build) content)). lm_pattern_name x \<noteq> ''anthropic_api_key'')"
proof -
  let ?d = "leak_detector_new regex build"
  let ?ps = "map fst (known_prefixes (default_patterns regex))"
  have d: "ld_known_prefixes ?d = known_prefixes (default_patterns regex)" "ld_prefix_matcher ?d = Some m"
    "ld_patterns ?d = default_patterns regex"
    using assms(1) by (auto simp: leak_detector_new_def with_patterns_def Let_def default_prefixes)
  have c: "1 \<notin> set (candidate_indices ?d content)"
  proof
    assume "1 \<in> set (candidate_indices ?d content)"
    moreover have "1 \<in> snd ` set (known_prefixes (default_patterns regex))" by (simp add: default_prefixes)
    ultimately obtain x where "x \<in> set (m content)" "snd (known_prefixes (default_patterns regex) ! fst x) = 1"
      unfolding set_candidates d option.case by (elim UnE imageE) (auto intro: sym)
    with anthropic_prefix_hidden [where build = build and regex = regex and m = m and content = content, OF assms] show False by blast
  qed
  have "lp_name (default_patterns regex ! i) \<noteq> ''anthropic_api_key''" if "i < 16" "i \<noteq> 1" for i
  proof -
    have "i \<in> {0, 2, 3, 4, 5, 6, 7, 8, 9, 10, 11, 12, 13, 14, 15}" using that by (simp, presburger)
    then show ?thesis by (elim insertE) (simp_all add: default_patterns_def DEFAULT_PATTERNS_def)
  qed
  moreover have "i < 16" if "i \<in> set (candidate_indices ?d content)" for i
  proof -
    have "\<forall>k < 11. snd (known_prefixes (default_patterns regex) ! k) < 16"
      by (simp add: default_prefixes All_less_Suc numeral_eq_Suc)
    moreover have "fst x < 11" if "x \<in> set (m content)" for x
      using earliest_in_range [OF assms(2) that] by (simp add: default_prefixes)
    ultimately show ?thesis using that by (auto simp: set_candidates d default_patterns_def DEFAULT_PATTERNS_def)
  qed
  ultimately have "\<forall>i \<in> set (candidate_indices ?d content). lp_name (default_patterns regex ! i) \<noteq> ''anthropic_api_key''"
    using c by (metis (no_types))
  then have "\<forall>x \<in> set (lr_matches (scan ?d content)). lm_pattern_name x \<noteq> ''anthropic_api_key''"
    unfolding lr_matches_scan d by (metis UN_E pattern_matches_action)
  with c show ?thesis by blast
qed

theorem anthropic_key_never_found_witness:
  "\<exists>content. \<forall>x \<in> set (lr_matches (scan (leak_detector_new (\<lambda>re w. if contains w ''sk-ant-api'' then [(0, 10)] else [])
      (\<lambda>ps. Some (\<lambda>w. reference_scan ps w 0))) content)). contains content ''sk-ant-api'' \<and> lm_pattern_name x \<noteq> ''anthropic_api_key''"
proof -
  let ?re = "\<lambda>re w. if contains w ''sk-ant-api'' then [(0, 10)] else []"
  let ?b = "\<lambda>ps. Some (\<lambda>w. reference_scan ps w 0)"
  have "earliest_matches (map fst (known_prefixes (default_patterns ?re))) (\<lambda>w. reference_scan (map fst (known_prefixes (default_patterns ?re))) w 0)"
    by (rule reference_scan_earliest) (simp add: default_prefixes)
  from anthropic_key_never_found [of ?b ?re, OF refl this, of "''sk-ant-api03''"] show ?thesis
    by (intro exI [of _ "''sk-ant-api03''"]) (simp add: starts_with_def)
qed

text \<open>
  Redaction removes every range that does not end inside an earlier one.  With the ranges sorted by
  start and by end, the redacted text consists of marks and of pieces of the original outside all
  ranges.  The loop moves back to the end of the last range, so of a range that contains a later one
  the rest after the inner range is kept.
\<close>

theorem redaction_covers:
  "(sorted (map fst ranges) \<and> sorted (map snd ranges) \<and> ranges \<noteq> [] \<longrightarrow>
     (\<exists>ps. apply_redactions content ranges = concat (map (render_piece content) ps) \<and>
        (\<forall>(a, b) \<in> {r. Some r \<in> set ps}. \<forall>(s, e) \<in> set ranges. b \<le> s \<or> e \<le> a))) \<and>
   apply_redactions ''token=SECRETSECRET'' [(0, 18), (0, 5)] = ''[REDACTED][REDACTED]=SECRETSECRET''"
proof
  show "sorted (map fst ranges) \<and> sorted (map snd ranges) \<and> ranges \<noteq> [] \<longrightarrow>
     (\<exists>ps. apply_redactions content ranges = concat (map (render_piece content) ps) \<and>
        (\<forall>(a, b) \<in> {r. Some r \<in> set ps}. \<forall>(s, e) \<in> set ranges. b \<le> s \<or> e \<le> a))"
  proof
    assume r: "sorted (map fst ranges) \<and> sorted (map snd ranges) \<and> ranges \<noteq> []"
    let ?ps = "pieces (length content) ranges 0"
    have "apply_redactions content ranges = concat (map (render_piece content) ?ps)"
      using r by (simp add: apply_redactions_def redact_loop_pieces)
    moreover have "\<forall>(a, b) \<in> {r. Some r \<in> set ?ps}. \<forall>(s, e) \<in> set ranges. b \<le> s \<or> e \<le> a"
      using r pieces_outside [of ranges 0] by fastforce
    ultimately show "\<exists>ps. apply_redactions content ranges = concat (map (render_piece content) ps) \<and>
        (\<forall>(a, b) \<in> {r. Some r \<in> set ps}. \<forall>(s, e) \<in> set ranges. b \<le> s \<or> e \<le> a)" by blast
  qed
qed (simp add: apply_redactions_def)

theorem redaction_covers_witness:
  "\<exists>ps. apply_redactions ''a SECRET b'' [(2, 8)] = concat (map (render_piece ''a SECRET b'') ps) \<and>
     (\<forall>(a, b) \<in> {r. Some r \<in> set ps}. b \<le> 2 \<or> 8 \<le> a)"
  using redaction_covers [of "[(2, 8)]" "''a SECRET b''"] by simp

end
