(* ===== verification/Validator.thy ===== *)
theory Validator
  imports Util
begin

text \<open>
  The input validator of \<^verbatim>\<open>src/src/safety/validator.rs\<close>, used for user input and, on every string inside
  them, for the parameters of a tool call.  The two ratios of the source are computed in floating
  point; they are compared with constants far from any rounding, so the comparisons below are the
  exact ones.
\<close>

section \<open>Results\<close>

datatype validation_error_code =
    VEmpty | VTooLong | VTooShort | VInvalidFormat | VForbiddenContent | VInvalidEncoding | VSuspiciousPattern

record validation_error =
  ve_field :: string
  ve_message :: string
  ve_code :: validation_error_code

record validation_result =
  vr_is_valid :: bool
  vr_errors :: "validation_error list"
  vr_warnings :: "string list"

definition validation_ok :: validation_result where
  "validation_ok = \<lparr>vr_is_valid = True, vr_errors = [], vr_warnings = []\<rparr>"

definition validation_failed :: "validation_error \<Rightarrow> validation_result" where
  "validation_failed e = \<lparr>vr_is_valid = False, vr_errors = [e], vr_warnings = []\<rparr>"

definition with_warning :: "validation_result \<Rightarrow> string \<Rightarrow> validation_result" where
  "with_warning r warning = r\<lparr>vr_warnings := vr_warnings r @ [warning]\<rparr>"

definition merge_validation :: "validation_result \<Rightarrow> validation_result \<Rightarrow> validation_result" where
  "merge_validation r other =
     \<lparr>vr_is_valid = vr_is_valid r \<and> vr_is_valid other, vr_errors = vr_errors r @ vr_errors other,
      vr_warnings = vr_warnings r @ vr_warnings other\<rparr>"

section \<open>The validator\<close>

record validator =
  va_max_length :: nat
  va_min_length :: nat
  va_forbidden_patterns :: "string list"

definition validator_new :: validator where
  "validator_new = \<lparr>va_max_length = 100000, va_min_length = 1, va_forbidden_patterns = []\<rparr>"

definition with_max_length :: "validator \<Rightarrow> nat \<Rightarrow> validator" where
  "with_max_length va m = va\<lparr>va_max_length := m\<rparr>"

definition with_min_length :: "validator \<Rightarrow> nat \<Rightarrow> validator" where
  "with_min_length va m = va\<lparr>va_min_length := m\<rparr>"

definition forbid_pattern :: "validator \<Rightarrow> string \<Rightarrow> validator" where
  "forbid_pattern va pattern = va\<lparr>va_forbidden_patterns := List.insert (to_lowercase pattern) (va_forbidden_patterns va)\<rparr>"

text \<open>The longest run of equal characters: the loop carries the current run and the longest.\<close>

fun max_repeat_loop :: "string list \<Rightarrow> nat \<Rightarrow> nat \<Rightarrow> nat" where
  "max_repeat_loop (x # y # cs) current longest =
     (if y = x then max_repeat_loop (y # cs) (current + 1) (max longest (current + 1))
      else max_repeat_loop (y # cs) 1 longest)"
| "max_repeat_loop _ current longest = longest"

definition has_excessive_repetition :: "string \<Rightarrow> bool" where
  "has_excessive_repetition s \<longleftrightarrow> \<not> length s < 50 \<and> max_repeat_loop (utf8_chars s) 1 1 > 20"

definition input_error :: "string \<Rightarrow> validation_error_code \<Rightarrow> validation_error" where
  "input_error message code = \<lparr>ve_field = ''input'', ve_message = message, ve_code = code\<rparr>"

definition validate_input :: "validator \<Rightarrow> string \<Rightarrow> validation_result" where
  "validate_input va input =
     (if input = [] then validation_failed (input_error ''Input cannot be empty'' VEmpty)
      else
        let r1 = (if length input > va_max_length va
                  then merge_validation validation_ok (validation_failed (input_error
                    (''Input too long: '' @ nat_str (length input) @ '' bytes (max '' @ nat_str (va_max_length va) @ '')'') VTooLong))
                  else validation_ok);
            r2 = (if length input < va_min_length va
                  then merge_validation r1 (validation_failed (input_error
                    (''Input too short: '' @ nat_str (length input) @ '' bytes (min '' @ nat_str (va_min_length va) @ '')'') VTooShort))
                  else r1);
            r3 = (if CHR 0x00 \<in> set input
                  then merge_validation r2 (validation_failed (input_error ''Input contains null bytes'' VInvalidEncoding))
                  else r2);
            lower_input = to_lowercase input;
            r4 = foldl (\<lambda>r pattern.
                   if contains lower_input pattern
                   then merge_validation r (validation_failed (input_error
                     (''Input contains forbidden pattern: '' @ pattern) VForbiddenContent))
                   else r) r3 (va_forbidden_patterns va);
            r5 = (if 9 * length input < 10 * length (filter is_whitespace input) \<and> length input > 100
                  then with_warning r4 ''Input has unusually high whitespace ratio'' else r4)
        in if has_excessive_repetition input
           then with_warning r5 ''Input has excessive character repetition'' else r5)"

section \<open>Tool parameters\<close>

fun check_strings :: "validator \<Rightarrow> json \<Rightarrow> validation_result \<Rightarrow> validation_result" where
  "check_strings va (JString s) r = merge_validation r (validate_input va s)"
| "check_strings va (JArray arr) r = foldl (\<lambda>r v. check_strings va v r) r arr"
| "check_strings va (JObject obj) r = foldl (\<lambda>r e. check_strings va (snd e) r) r obj"
| "check_strings va _ r = r"

definition validate_tool_params :: "validator \<Rightarrow> json \<Rightarrow> validation_result" where
  "validate_tool_params va params = check_strings va params validation_ok"

section \<open>What is valid\<close>

text \<open>The strings inside a JSON value, keys excluded, in document order.\<close>

fun json_strings :: "json \<Rightarrow> string list" where
  "json_strings (JString s) = [s]"
| "json_strings (JArray arr) = concat (map json_strings arr)"
| "json_strings (JObject obj) = concat (map (\<lambda>e. json_strings (snd e)) obj)"
| "json_strings _ = []"

definition acceptable :: "validator \<Rightarrow> string \<Rightarrow> bool" where
  "acceptable va s \<longleftrightarrow>
     s \<noteq> [] \<and> va_min_length va \<le> length s \<and> length s \<le> va_max_length va \<and> CHR 0x00 \<notin> set s \<and>
     (\<forall>p \<in> set (va_forbidden_patterns va). \<not> contains (to_lowercase s) p)"

lemma merge_valid [simp]:
  "vr_is_valid (merge_validation r s) \<longleftrightarrow> vr_is_valid r \<and> vr_is_valid s"
  "vr_is_valid (with_warning r w) = vr_is_valid r" "vr_is_valid validation_ok" "\<not> vr_is_valid (validation_failed e)"
  "vr_errors (with_warning r w) = vr_errors r" "vr_errors validation_ok = []" "vr_errors (validation_failed e) = [e]"
  "vr_errors (merge_validation r s) = vr_errors r @ vr_errors s"
  by (simp_all add: merge_validation_def with_warning_def validation_ok_def validation_failed_def)

lemma merge_ok [simp]: "merge_validation r validation_ok = r" "merge_validation validation_ok r = r"
  by (simp_all add: merge_validation_def validation_ok_def)

lemma merge_assoc: "merge_validation (merge_validation r s) t = merge_validation r (merge_validation s t)"
  by (simp add: merge_validation_def)

lemma forbidden_loop_valid:
  "vr_is_valid (foldl (\<lambda>r p. if contains l p then merge_validation r (validation_failed (f p)) else r) r ps) \<longleftrightarrow>
     vr_is_valid r \<and> (\<forall>p \<in> set ps. \<not> contains l p)"
  by (induction ps arbitrary: r) auto

lemma validate_input_valid_iff: "vr_is_valid (validate_input va s) \<longleftrightarrow> acceptable va s"
  by (auto simp: validate_input_def acceptable_def Let_def forbidden_loop_valid not_less)

lemma foldl_merge:
  "(\<And>x r. x \<in> set xs \<Longrightarrow> f x r = merge_validation r (g x)) \<Longrightarrow>
   foldl (\<lambda>r x. f x r) r xs = merge_validation r (foldl (\<lambda>r x. merge_validation r (g x)) validation_ok xs)"
proof (induction xs arbitrary: r)
  case (Cons x xs)
  have assoc: "foldl (\<lambda>r x. merge_validation r (g x)) a xs =
      merge_validation a (foldl (\<lambda>r x. merge_validation r (g x)) validation_ok xs)" for a
  proof (induction xs arbitrary: a)
    case (Cons y ys)
    from Cons [of "merge_validation a (g y)"] Cons [of "g y"] show ?case by (simp add: merge_assoc)
  qed simp
  from Cons.IH [of "f x r"] Cons.prems assoc [of "g x"] show ?case by (simp add: merge_assoc)
qed simp

text \<open>The recursive check is one pass over the strings in document order.\<close>

definition merge_all :: "validator \<Rightarrow> string list \<Rightarrow> validation_result" where
  "merge_all va ss = foldl (\<lambda>r s. merge_validation r (validate_input va s)) validation_ok ss"

lemma merge_all_append: "merge_all va (xs @ ys) = merge_validation (merge_all va xs) (merge_all va ys)"
  unfolding merge_all_def foldl_append
  by (rule foldl_merge [where f = "\<lambda>s r. merge_validation r (validate_input va s)"]) simp

lemma merge_all_concat:
  "foldl (\<lambda>r x. merge_validation r (merge_all va (h x))) r xs = merge_validation r (merge_all va (concat (map h xs)))"
  by (induction xs arbitrary: r) (simp_all add: merge_all_append merge_assoc, simp add: merge_all_def)

lemma check_strings_merge: "check_strings va v r = merge_validation r (merge_all va (json_strings v))"
proof (induction va v r rule: check_strings.induct)
  case (1 va s r)
  then show ?case by (simp add: merge_all_def)
next
  case (2 va arr r)
  have "foldl (\<lambda>r v. check_strings va v r) r arr = foldl (\<lambda>r v. merge_validation r (merge_all va (json_strings v))) r arr"
    by (rule foldl_cong) (simp_all add: 2)
  then show ?case by (simp add: merge_all_concat)
next
  case (3 va obj r)
  have "foldl (\<lambda>r e. check_strings va (snd e) r) r obj =
      foldl (\<lambda>r e. merge_validation r (merge_all va (json_strings (snd e)))) r obj"
    by (rule foldl_cong) (simp_all add: 3)
  then show ?case by (simp add: merge_all_concat)
qed (simp_all add: merge_all_def)

lemma merge_all_valid: "vr_is_valid (merge_all va ss) \<longleftrightarrow> (\<forall>s \<in> set ss. acceptable va s)"
proof (induction ss rule: rev_induct)
  case (snoc s ss)
  then show ?case by (simp add: merge_all_append) (auto simp: merge_all_def validate_input_valid_iff)
qed (simp add: merge_all_def)

section \<open>Properties\<close>

text \<open>
  Tool parameters are valid exactly if every string in them is.  The recursive check accepts a JSON
  value if and only if each string value inside it, at any depth, is not empty, within the length
  bounds, free of null bytes and of every forbidden pattern in any case; in particular an empty
  string anywhere in the parameters makes the whole call invalid.
\<close>

theorem tool_params_valid_iff:
  "vr_is_valid (validate_tool_params va params) \<longleftrightarrow> (\<forall>s \<in> set (json_strings params). acceptable va s)"
  by (simp add: validate_tool_params_def check_strings_merge merge_all_valid)

theorem tool_params_valid_iff_witness:
  "vr_is_valid (validate_tool_params validator_new (JObject [(''command'', JString ''make''), (''n'', JArray [JNumber ''1'', JString ''x''])])) \<and>
   \<not> vr_is_valid (validate_tool_params validator_new (JObject [(''content'', JString [])]))"
  using tool_params_valid_iff [of validator_new "JObject [(''command'', JString ''make''), (''n'', JArray [JNumber ''1'', JString ''x''])]"]
    tool_params_valid_iff [of validator_new "JObject [(''content'', JString [])]"]
  by (simp add: acceptable_def validator_new_def)

end
