(* ===== verification/Safety.thy ===== *)
theory Safety
  imports Leak_Detector Validator
begin

text \<open>
  The safety layer, \<^verbatim>\<open>src/src/safety/{mod,policy,sanitizer}.rs\<close>: the policy rules, the sanitizer of external
  content, and what a tool output goes through before the model sees it.  Regular expressions and the
  automaton of the sanitizer are functions, as in the theory of the leak detector.
\<close>

section \<open>Policy\<close>

datatype severity = SevLow | SevMedium | SevHigh | SevCritical

fun severity_value :: "severity \<Rightarrow> nat" where
  "severity_value SevLow = 1"
| "severity_value SevMedium = 2"
| "severity_value SevHigh = 3"
| "severity_value SevCritical = 4"

lemma severity_value_inj: "severity_value a = severity_value b \<Longrightarrow> a = b"
  by (cases a; cases b) simp_all

instantiation severity :: linorder
begin

definition less_eq_severity :: "severity \<Rightarrow> severity \<Rightarrow> bool" where
  "less_eq_severity a b \<longleftrightarrow> severity_value a \<le> severity_value b"

definition less_severity :: "severity \<Rightarrow> severity \<Rightarrow> bool" where
  "less_severity a b \<longleftrightarrow> severity_value a < severity_value b"

instance
  by standard (auto simp: less_eq_severity_def less_severity_def intro: severity_value_inj)

end

datatype policy_action = PolicyWarn | PolicyBlock | PolicyReview | PolicySanitize

record policy_rule =
  rl_id :: string
  rl_description :: string
  rl_severity :: severity
  rl_matches :: "string \<Rightarrow> bool"
  rl_action :: policy_action

type_synonym policy = "policy_rule list"

definition policy_check :: "policy \<Rightarrow> string \<Rightarrow> policy_rule list" where
  "policy_check policy content = filter (\<lambda>rule. rl_matches rule content) policy"

definition is_policy_blocked :: "policy \<Rightarrow> string \<Rightarrow> bool" where
  "is_policy_blocked policy content = list_ex (\<lambda>rule. rl_action rule = PolicyBlock) (policy_check policy content)"

text \<open>The built-in rules: id, description, severity and action; the pattern is in the source.\<close>

definition DEFAULT_RULES :: "(string \<times> string \<times> severity \<times> policy_action) list" where
  "DEFAULT_RULES =
     [(''system_file_access'', ''Attempt to access system files'', SevCritical, PolicyBlock),
      (''crypto_private_key'', ''Potential cryptocurrency private key'', SevCritical, PolicyBlock),
      (''sql_pattern'', ''SQL-like pattern detected'', SevMedium, PolicyWarn),
      (''shell_injection'', ''Potential shell command injection'', SevCritical, PolicyBlock),
      (''excessive_urls'', ''Excessive number of URLs detected'', SevLow, PolicyWarn),
      (''encoded_exploit'', ''Potential encoded exploit payload'', SevHigh, PolicySanitize),
      (''obfuscated_string'', ''Potential obfuscated content'', SevMedium, PolicyWarn)]"

text \<open>\<open>is_match\<close> of the compiled pattern of a rule, by the id of the rule.\<close>

definition policy_default :: "(string \<Rightarrow> string \<Rightarrow> bool) \<Rightarrow> policy" where
  "policy_default is_match =
     map (\<lambda>(i, d, s, a). \<lparr>rl_id = i, rl_description = d, rl_severity = s, rl_matches = is_match i, rl_action = a\<rparr>) DEFAULT_RULES"

section \<open>Sanitizer\<close>

record injection_warning =
  iw_pattern :: string
  iw_severity :: severity
  iw_location :: byte_range
  iw_description :: string

record sanitized_output =
  so_content :: string
  so_warnings :: "injection_warning list"
  so_was_modified :: bool

record pattern_info =
  pi_pattern :: string
  pi_severity :: severity
  pi_description :: string

record regex_pattern =
  rx_find :: "string \<Rightarrow> byte_range list"
  rx_name :: string
  rx_severity :: severity
  rx_description :: string

record sanitizer =
  sz_matcher :: automaton
  sz_patterns :: "pattern_info list"
  sz_regex_patterns :: "regex_pattern list"

definition INJECTION_PATTERNS :: "(string \<times> severity \<times> string) list" where
  "INJECTION_PATTERNS =
     [(''ignore previous'', SevHigh, ''Attempt to override previous instructions''),
      (''ignore all previous'', SevCritical, ''Attempt to override all previous instructions''),
      (''disregard'', SevMedium, ''Potential instruction override''),
      (''forget everything'', SevHigh, ''Attempt to reset context''),
      (''you are now'', SevHigh, ''Attempt to change assistant role''),
      (''act as'', SevMedium, ''Potential role manipulation''),
      (''pretend to be'', SevMedium, ''Potential role manipulation''),
      (''system:'', SevCritical, ''Attempt to inject system message''),
      (''assistant:'', SevHigh, ''Attempt to inject assistant response''),
      (''user:'', SevHigh, ''Attempt to inject user message''),
      (''<|'', SevCritical, ''Potential special token injection''),
      (''|>'', SevCritical, ''Potential special token injection''),
      (''[INST]'', SevCritical, ''Potential instruction token injection''),
      (''[/INST]'', SevCritical, ''Potential instruction token injection''),
      (''new instructions'', SevHigh, ''Attempt to provide new instructions''),
      (''updated instructions'', SevHigh, ''Attempt to update instructions''),
      (replicate 3 (CHR 0x60) @ ''system'', SevHigh, ''Potential code block instruction injection''),
      (replicate 3 (CHR 0x60) @ ''bash'' @ [CHR 0x0A] @ ''sudo'', SevMedium, ''Potential dangerous command injection'')]"

definition REGEX_PATTERNS :: "(string \<times> severity \<times> string) list" where
  "REGEX_PATTERNS =
     [(''base64_payload'', SevMedium, ''Potential encoded payload''),
      (''eval_call'', SevHigh, ''Potential code evaluation attempt''),
      (''exec_call'', SevHigh, ''Potential code execution attempt''),
      (''null_byte'', SevCritical, ''Null byte injection attempt'')]"

definition sanitizer_new ::
  "(string list \<Rightarrow> automaton) \<Rightarrow> (string \<Rightarrow> string \<Rightarrow> byte_range list) \<Rightarrow> sanitizer" where
  "sanitizer_new build regex =
     \<lparr>sz_matcher = build (map fst INJECTION_PATTERNS),
      sz_patterns = map (\<lambda>(p, s, d). \<lparr>pi_pattern = p, pi_severity = s, pi_description = d\<rparr>) INJECTION_PATTERNS,
      sz_regex_patterns = map (\<lambda>(n, s, d). \<lparr>rx_find = regex n, rx_name = n, rx_severity = s, rx_description = d\<rparr>) REGEX_PATTERNS\<rparr>"

definition is_role_line :: "string \<Rightarrow> bool" where
  "is_role_line line \<longleftrightarrow>
     (let trimmed = to_lowercase (trim_start line)
      in starts_with trimmed ''system:'' \<or> starts_with trimmed ''user:'' \<or> starts_with trimmed ''assistant:'')"

definition escape_content :: "string \<Rightarrow> string" where
  "escape_content content =
     (let e1 = replace_str content ''<|'' (CHR 0x5C # ''<|'');
          e2 = replace_str e1 ''|>'' [CHR ''|'', CHR 0x5C, CHR ''>''];
          e3 = replace_str e2 ''[INST]'' (CHR 0x5C # ''[INST]'');
          e4 = replace_str e3 ''[/INST]'' (CHR 0x5C # ''[/INST]'');
          e5 = replace_str e4 [CHR 0x00] []
      in join [CHR 0x0A] (map (\<lambda>line. if is_role_line line then ''[ESCAPED] '' @ line else line) (str_lines e5)))"

definition injection_warnings :: "sanitizer \<Rightarrow> string \<Rightarrow> injection_warning list" where
  "injection_warnings sz content =
     sort_key (\<lambda>w. 4 - severity_value (iw_severity w))
       (map (\<lambda>(k, loc). let p = sz_patterns sz ! k in
           \<lparr>iw_pattern = pi_pattern p, iw_severity = pi_severity p, iw_location = loc, iw_description = pi_description p\<rparr>)
          (sz_matcher sz content) @
        concat (map (\<lambda>r. map (\<lambda>loc.
           \<lparr>iw_pattern = rx_name r, iw_severity = rx_severity r, iw_location = loc, iw_description = rx_description r\<rparr>)
          (rx_find r content)) (sz_regex_patterns sz)))"

definition sanitize :: "sanitizer \<Rightarrow> string \<Rightarrow> sanitized_output" where
  "sanitize sz content =
     (let warnings = injection_warnings sz content;
          has_critical = list_ex (\<lambda>w. iw_severity w = SevCritical) warnings
      in \<lparr>so_content = (if has_critical then escape_content content else content),
          so_warnings = warnings, so_was_modified = has_critical\<rparr>)"

section \<open>The layer\<close>

record safety_layer =
  sl_sanitizer :: sanitizer
  sl_validator :: validator
  sl_policy :: policy
  sl_leak_detector :: leak_detector
  sl_max_output_length :: nat
  sl_injection_check_enabled :: bool

definition sanitize_tool_output :: "safety_layer \<Rightarrow> string \<Rightarrow> string \<Rightarrow> sanitized_output" where
  "sanitize_tool_output sl tool_name output =
     (if length output > sl_max_output_length sl
      then \<lparr>so_content = ''[Output truncated: '' @ nat_str (length output) @ '' bytes exceeded maximum of '' @
              nat_str (sl_max_output_length sl) @ '' bytes]'',
            so_warnings = [\<lparr>iw_pattern = ''output_too_large'', iw_severity = SevLow, iw_location = (0, length output),
              iw_description = ''Output from tool '' @ [CHR 0x27] @ tool_name @ [CHR 0x27] @ '' was truncated due to size''\<rparr>],
            so_was_modified = True\<rparr>
      else case scan_and_clean (sl_leak_detector sl) output of
        Err _ \<Rightarrow> \<lparr>so_content = ''[Output blocked due to potential secret leakage]'', so_warnings = [], so_was_modified = True\<rparr>
      | Ok content \<Rightarrow>
          let was_modified = (content \<noteq> output);
              violations = policy_check (sl_policy sl) content
          in if list_ex (\<lambda>rule. rl_action rule = PolicyBlock) violations
             then \<lparr>so_content = ''[Output blocked by safety policy]'', so_warnings = [], so_was_modified = True\<rparr>
             else
               let force_sanitize = list_ex (\<lambda>rule. rl_action rule = PolicySanitize) violations;
                   was_modified = (force_sanitize \<or> was_modified)
               in if sl_injection_check_enabled sl \<or> force_sanitize
                  then let sanitized = sanitize (sl_sanitizer sl) content
                       in sanitized\<lparr>so_was_modified := so_was_modified sanitized \<or> was_modified\<rparr>
                  else \<lparr>so_content = content, so_warnings = [], so_was_modified = was_modified\<rparr>)"

definition escape_xml_attr :: "string \<Rightarrow> string" where
  "escape_xml_attr s =
     replace_str (replace_str (replace_str (replace_str s ''&'' ''&amp;'') [CHR 0x22] ''&quot;'') ''<'' ''&lt;'') ''>'' ''&gt;''"

definition escape_xml_content :: "string \<Rightarrow> string" where
  "escape_xml_content s = replace_str (replace_str (replace_str s ''&'' ''&amp;'') ''<'' ''&lt;'') ''>'' ''&gt;''"

definition wrap_for_llm :: "string \<Rightarrow> string \<Rightarrow> bool \<Rightarrow> string" where
  "wrap_for_llm tool_name content sanitized =
     ''<tool_output name='' @ [CHR 0x22] @ escape_xml_attr tool_name @ [CHR 0x22] @ '' sanitized='' @ [CHR 0x22] @
     (if sanitized then ''true'' else ''false'') @ [CHR 0x22] @ ''>'' @ [CHR 0x0A] @ escape_xml_content content @
     [CHR 0x0A] @ ''</tool_output>''"

text \<open>What the loop sends to the model for an output: the value of its field \<open>le_tool_content\<close>.\<close>

definition safe_tool_content :: "safety_layer \<Rightarrow> string \<Rightarrow> string \<Rightarrow> string" where
  "safe_tool_content sl tool_name output =
     (let sanitized = sanitize_tool_output sl tool_name output
      in wrap_for_llm tool_name (so_content sanitized) (so_was_modified sanitized))"

section \<open>Escaping\<close>

definition escape_char :: "char \<Rightarrow> string" where
  "escape_char c =
     (if c = CHR ''&'' then ''&amp;'' else if c = CHR ''<'' then ''&lt;'' else if c = CHR ''>'' then ''&gt;'' else [c])"

definition escape_attr_char :: "char \<Rightarrow> string" where
  "escape_attr_char c = (if c = CHR 0x22 then ''&quot;'' else escape_char c)"

lemma concat_map_concat: "concat (map f (concat (map g s))) = concat (map (\<lambda>c. concat (map f (g c))) s)"
  by (induction s) auto

lemma escape_xml_content_chars: "escape_xml_content s = concat (map escape_char s)"
  unfolding escape_xml_content_def replace_char concat_map_concat
  by (intro arg_cong [where f = concat] map_cong) (auto simp: escape_char_def)

lemma escape_xml_attr_chars: "escape_xml_attr s = concat (map escape_attr_char s)"
  unfolding escape_xml_attr_def replace_char concat_map_concat
  by (intro arg_cong [where f = concat] map_cong) (auto simp: escape_char_def escape_attr_char_def)

lemma escaped_no_angle: "CHR ''<'' \<notin> set (escape_xml_content s)" "CHR ''<'' \<notin> set (escape_xml_attr s)"
    "CHR 0x22 \<notin> set (escape_xml_attr s)"
  by (auto simp: escape_xml_content_chars escape_xml_attr_chars escape_attr_char_def escape_char_def split: if_splits)

text \<open>A reader of the wrapped form, as a reference: entities back to characters, and the parts of the element.\<close>

function unescape :: "string \<Rightarrow> string" where
  "unescape s =
     (if s = [] then []
      else if starts_with s ''&amp;'' then CHR ''&'' # unescape (drop 5 s)
      else if starts_with s ''&lt;'' then CHR ''<'' # unescape (drop 4 s)
      else if starts_with s ''&gt;'' then CHR ''>'' # unescape (drop 4 s)
      else if starts_with s ''&quot;'' then CHR 0x22 # unescape (drop 6 s)
      else hd s # unescape (tl s))"
  by pat_completeness auto
termination
  by (relation "measure length") auto

declare unescape.simps [simp del]

lemma unescape_simps:
  "unescape [] = []"
  "unescape (''&amp;'' @ s) = CHR ''&'' # unescape s"
  "unescape (''&lt;'' @ s) = CHR ''<'' # unescape s"
  "unescape (''&gt;'' @ s) = CHR ''>'' # unescape s"
  "unescape (''&quot;'' @ s) = CHR 0x22 # unescape s"
  "c \<noteq> CHR ''&'' \<Longrightarrow> unescape (c # s) = c # unescape s"
  by (subst unescape.simps, simp add: starts_with_def)+

lemma unescape_content: "unescape (escape_xml_content s) = s"
proof -
  have "unescape (escape_char c @ t) = c # unescape t" for c t
    using unescape_simps(2-) by (simp add: escape_char_def)
  then show ?thesis unfolding escape_xml_content_chars by (induction s) (simp_all add: unescape_simps(1))
qed

lemma unescape_attr: "unescape (escape_xml_attr s) = s"
proof -
  have "unescape (escape_attr_char c @ t) = c # unescape t" for c t
    using unescape_simps(2-) by (simp add: escape_char_def escape_attr_char_def)
  then show ?thesis unfolding escape_xml_attr_chars by (induction s) (simp_all add: unescape_simps(1))
qed

definition unwrap :: "string \<Rightarrow> (string \<times> string \<times> string) option" where
  "unwrap s =
     (case strip_prefix s (''<tool_output name='' @ [CHR 0x22]) of
        None \<Rightarrow> None
      | Some r \<Rightarrow>
          let name = takeWhile (\<lambda>c. c \<noteq> CHR 0x22) r in
          (case strip_prefix (dropWhile (\<lambda>c. c \<noteq> CHR 0x22) r) ([CHR 0x22] @ '' sanitized='' @ [CHR 0x22]) of
             None \<Rightarrow> None
           | Some r \<Rightarrow>
               let flag = takeWhile (\<lambda>c. c \<noteq> CHR 0x22) r in
               (case strip_prefix (dropWhile (\<lambda>c. c \<noteq> CHR 0x22) r) [CHR 0x22, CHR ''>'', CHR 0x0A] of
                  None \<Rightarrow> None
                | Some r \<Rightarrow>
                    map_option (\<lambda>body. (unescape name, flag, unescape body)) (strip_suffix r ([CHR 0x0A] @ ''</tool_output>'')))))"

lemma strip_prefix_append [simp]: "strip_prefix (p @ s) p = Some s"
  by (simp add: strip_prefix_Some)

lemma strip_suffix_append [simp]: "strip_suffix (s @ p) p = Some s"
  by (simp add: strip_suffix_Some)

lemma takeWhile_stop: "c \<notin> set w \<Longrightarrow> takeWhile (\<lambda>x. x \<noteq> c) (w @ c # s) = w"
  by (induction w) auto

lemma dropWhile_stop: "c \<notin> set w \<Longrightarrow> dropWhile (\<lambda>x. x \<noteq> c) (w @ c # s) = c # s"
  by (induction w) auto

lemma wrap_round_trip:
  "unwrap (wrap_for_llm name content sanitized) = Some (name, if sanitized then ''true'' else ''false'', content)"
proof -
  let ?flag = "if sanitized then ''true'' else ''false''"
  define body where "body = escape_xml_content content @ [CHR 0x0A] @ ''</tool_output>''"
  have flag: "CHR 0x22 \<notin> set ?flag" by auto
  have w: "wrap_for_llm name content sanitized = (''<tool_output name='' @ [CHR 0x22]) @ escape_xml_attr name @ CHR 0x22 #
      ('' sanitized='' @ [CHR 0x22]) @ ?flag @ CHR 0x22 # [CHR ''>'', CHR 0x0A] @ body"
    by (simp add: wrap_for_llm_def body_def)
  have s1: "strip_prefix (CHR 0x22 # ('' sanitized='' @ [CHR 0x22]) @ r) ([CHR 0x22] @ '' sanitized='' @ [CHR 0x22]) = Some r" for r
    by (simp add: strip_prefix_Some)
  have s2: "strip_prefix (CHR 0x22 # [CHR ''>'', CHR 0x0A] @ r) [CHR 0x22, CHR ''>'', CHR 0x0A] = Some r" for r
    by (simp add: strip_prefix_Some)
  have s3: "strip_suffix body ([CHR 0x0A] @ ''</tool_output>'') = Some (escape_xml_content content)"
    unfolding body_def by (rule strip_suffix_append)
  show ?thesis
    unfolding w unwrap_def strip_prefix_append Let_def option.case
      takeWhile_stop [OF escaped_no_angle(3)] dropWhile_stop [OF escaped_no_angle(3)] s1
      takeWhile_stop [OF flag] dropWhile_stop [OF flag] s2 s3
    by (simp only: option.map unescape_attr unescape_content)
qed

section \<open>Role lines\<close>

lemma not_role_line_escaped: "\<not> is_role_line (''[ESCAPED] '' @ line)"
  by (simp add: is_role_line_def Let_def trim_start_def is_whitespace_def char_code_def to_lowercase_def starts_with_iff
      lower_char_def)

lemma not_role_line_Nil: "\<not> is_role_line []"
  by (simp add: is_role_line_def Let_def trim_start_def to_lowercase_def starts_with_iff)

lemma join_set: "set (join sep ws) \<subseteq> set sep \<union> \<Union> (set ` set ws)"
  by (induction sep ws rule: join.induct) auto

lemma escape_content_lines:
  assumes "line \<in> set (split_on (CHR 0x0A) (escape_content content))"
  shows "\<not> is_role_line line"
proof -
  obtain t where e: "escape_content content =
      join [CHR 0x0A] (map (\<lambda>line. if is_role_line line then ''[ESCAPED] '' @ line else line) (str_lines t))" (is "_ = join _ (map ?f _)")
    by (simp add: escape_content_def Let_def)
  show ?thesis
  proof (cases "str_lines t = []")
    case True
    with assms e show ?thesis by (simp add: split_on_def not_role_line_Nil)
  next
    case False
    have "\<forall>w \<in> set (map ?f (str_lines t)). CHR 0x0A \<notin> set w" using str_lines_no_newline by fastforce
    with False have "split_on (CHR 0x0A) (escape_content content) = map ?f (str_lines t)"
      unfolding e by (intro split_on_join) auto
    with assms show ?thesis using not_role_line_escaped by (auto split: if_splits)
  qed
qed

lemma escape_content_no_null: "CHR 0x00 \<notin> set (escape_content content)"
proof -
  obtain t where e: "escape_content content = join [CHR 0x0A]
      (map (\<lambda>line. if is_role_line line then ''[ESCAPED] '' @ line else line) (str_lines (replace_str t [CHR 0x00] [])))"
    by (simp add: escape_content_def Let_def)
  have "CHR 0x00 \<notin> set (replace_str t [CHR 0x00] [])" by (auto simp: replace_char split: if_splits)
  then have "CHR 0x00 \<notin> set l" if "l \<in> set (str_lines (replace_str t [CHR 0x00] []))" for l
    using str_lines_no_newline [OF that] by blast
  with join_set [of "[CHR 0x0A]" "map (\<lambda>line. if is_role_line line then ''[ESCAPED] '' @ line else line) (str_lines (replace_str t [CHR 0x00] []))"]
  show ?thesis unfolding e by (fastforce split: if_splits)
qed

lemma sanitize_content: "so_content (sanitize sz content) = (if so_was_modified (sanitize sz content) then escape_content content else content)"
  by (simp add: sanitize_def Let_def)

lemma sanitize_modified_iff:
  "so_was_modified (sanitize sz content) \<longleftrightarrow> (\<exists>w \<in> set (injection_warnings sz content). iw_severity w = SevCritical)"
  by (simp add: sanitize_def Let_def list_ex_iff)

section \<open>Properties\<close>

text \<open>C32: The element around a tool output cannot be closed by the output: the closing tag occurs only at the very
  end of the wrapped text, whatever the name and the content, and a reader of the element gets back
  exactly the name, the flag and the content.\<close>

theorem wrapped_output_delimited:
  "unwrap (wrap_for_llm name content sanitized) = Some (name, if sanitized then ''true'' else ''false'', content) \<and>
   (\<forall>x y. wrap_for_llm name content sanitized = x @ ''</tool_output>'' @ y \<longrightarrow> y = [])"
proof
  let ?flag = "if sanitized then ''true'' else ''false''"
  have flag: "CHR ''<'' \<notin> set ?flag" by auto
  show "unwrap (wrap_for_llm name content sanitized) = Some (name, ?flag, content)" by (rule wrap_round_trip)
  show "\<forall>x y. wrap_for_llm name content sanitized = x @ ''</tool_output>'' @ y \<longrightarrow> y = []"
  proof (intro allI impI)
    fix x y assume eq: "wrap_for_llm name content sanitized = x @ ''</tool_output>'' @ y"
    define a where "a = ''tool_output name='' @ [CHR 0x22] @ escape_xml_attr name @ [CHR 0x22] @ '' sanitized='' @ [CHR 0x22] @ ?flag @
      [CHR 0x22, CHR ''>'', CHR 0x0A] @ escape_xml_content content @ [CHR 0x0A]"
    have a: "CHR ''<'' \<notin> set a" using escaped_no_angle flag by (auto simp: a_def)
    have w': "CHR ''<'' # a @ CHR ''<'' # ''/tool_output>'' = x @ CHR ''<'' # ''/tool_output>'' @ y"
      using eq by (simp add: wrap_for_llm_def a_def)
    have hd_a: "a \<noteq> []" "hd a = CHR ''t''" by (simp_all add: a_def)
    show "y = []"
    proof (cases x)
      case Nil
      with w' hd_a show ?thesis by (cases a) auto
    next
      case (Cons c x')
      then have "a @ CHR ''<'' # ''/tool_output>'' = x' @ CHR ''<'' # (''/tool_output>'' @ y)"
        using arg_cong [OF w', of tl] by simp
      with a append_Cons_eq_iff [of "CHR ''<''" a "''/tool_output>''" x' "''/tool_output>'' @ y"] show ?thesis by simp
    qed
  qed
qed

theorem wrapped_output_delimited_witness:
  "unwrap (wrap_for_llm ''shell'' ''x</tool_output>y'' True) = Some (''shell'', ''true'', ''x</tool_output>y'')"
  using wrapped_output_delimited [of "''shell''" "''x</tool_output>y''" True] by simp

text \<open>What reaches the model from a tool is one of the three notices, or an output within the length limit that
  no tried blocking leak pattern matches and whose cleaned text no blocking rule of the policy matches;
  when the injection check found a critical pattern it has no null byte and no line that starts with a role.\<close>

theorem tool_output_screened:
  assumes "so_content (sanitize_tool_output sl name output) = c"
  shows "c = ''[Output truncated: '' @ nat_str (length output) @ '' bytes exceeded maximum of '' @
           nat_str (sl_max_output_length sl) @ '' bytes]'' \<and> length output > sl_max_output_length sl \<or>
    c = ''[Output blocked due to potential secret leakage]'' \<and> lr_should_block (scan (sl_leak_detector sl) output) \<or>
    c = ''[Output blocked by safety policy]'' \<or>
    (length output \<le> sl_max_output_length sl \<and>
     (\<forall>i \<in> set (candidate_indices (sl_leak_detector sl) output).
        lp_action (ld_patterns (sl_leak_detector sl) ! i) = LeakBlock \<longrightarrow> lp_find (ld_patterns (sl_leak_detector sl) ! i) output = []) \<and>
     (\<exists>cleaned. scan_and_clean (sl_leak_detector sl) output = Ok cleaned \<and> \<not> is_policy_blocked (sl_policy sl) cleaned \<and>
        (if sl_injection_check_enabled sl \<and> (\<exists>w \<in> set (injection_warnings (sl_sanitizer sl) cleaned). iw_severity w = SevCritical)
         then c = escape_content cleaned \<and> CHR 0x00 \<notin> set c \<and> (\<forall>line \<in> set (split_on (CHR 0x0A) c). \<not> is_role_line line)
         else c = cleaned \<or> c = escape_content cleaned)))"
proof (cases "length output > sl_max_output_length sl")
  case True
  with assms show ?thesis by (auto simp: sanitize_tool_output_def)
next
  case short: False
  show ?thesis
  proof (cases "scan_and_clean (sl_leak_detector sl) output")
    case (Inl e)
    with scan_and_clean_Err_iff have "lr_should_block (scan (sl_leak_detector sl) output)" by blast
    with Inl short assms show ?thesis by (simp add: sanitize_tool_output_def)
  next
    case (Inr cleaned)
    then have nb: "\<not> lr_should_block (scan (sl_leak_detector sl) output)"
      using scan_and_clean_Err_iff [of "sl_leak_detector sl" "output"] by auto
    show ?thesis
    proof (cases "is_policy_blocked (sl_policy sl) cleaned")
      case True
      with Inr short assms show ?thesis by (simp add: sanitize_tool_output_def is_policy_blocked_def Let_def)
    next
      case False
      have "c = (if sl_injection_check_enabled sl \<or> list_ex (\<lambda>rule. rl_action rule = PolicySanitize) (policy_check (sl_policy sl) cleaned)
          then so_content (sanitize (sl_sanitizer sl) cleaned) else cleaned)"
        using False Inr short assms by (auto simp: sanitize_tool_output_def is_policy_blocked_def Let_def)
      then have "if sl_injection_check_enabled sl \<and> (\<exists>w \<in> set (injection_warnings (sl_sanitizer sl) cleaned). iw_severity w = SevCritical)
         then c = escape_content cleaned else c = cleaned \<or> c = escape_content cleaned"
        by (auto simp: sanitize_content sanitize_modified_iff)
      with False Inr short nb escape_content_no_null [of cleaned] escape_content_lines [of _ cleaned] show ?thesis
        by (intro disjI2 conjI exI [of _ cleaned]) (auto simp: should_block_iff)
    qed
  qed
qed

text \<open>A layer with literal patterns, for the examples.\<close>

definition sample_layer :: safety_layer where
  "sample_layer =
     \<lparr>sl_sanitizer = sanitizer_new (\<lambda>_ _. []) (\<lambda>n s. if n = ''null_byte'' \<and> CHR 0x00 \<in> set s then [(0, 1)] else []),
      sl_validator = validator_new,
      sl_policy = policy_default (\<lambda>n s. n = ''system_file_access'' \<and>
        list_ex (contains (to_lowercase s)) [''/etc/passwd'', ''/etc/shadow'', ''.ssh/'', ''.aws/credentials'']),
      sl_leak_detector = leak_detector_new (\<lambda>_ _. []) (\<lambda>_. None),
      sl_max_output_length = 100, sl_injection_check_enabled = True\<rparr>"

lemma sample_leaks: "scan_and_clean (sl_leak_detector sample_layer) s = Ok s"
  by (simp add: sample_layer_def scan_and_clean_def scan_def Let_def leak_detector_new_def with_patterns_def
      candidate_indices_def default_patterns_def DEFAULT_PATTERNS_def pattern_matches_def)

theorem tool_output_screened_witness:
  "so_content (sanitize_tool_output sample_layer ''t'' ''hello'') = ''hello'' \<and>
   \<not> is_policy_blocked (sl_policy sample_layer) ''hello''"
proof -
  have c: "so_content (sanitize_tool_output sample_layer ''t'' ''hello'') = ''hello''"
    by (simp add: sanitize_tool_output_def sample_leaks, simp add: sample_layer_def Let_def policy_check_def policy_default_def DEFAULT_RULES_def
        to_lowercase_def lower_char_def char_code_def starts_with_def sanitize_def injection_warnings_def sanitizer_new_def REGEX_PATTERNS_def)
  with tool_output_screened [OF c] show ?thesis by (simp add: sample_leaks)
qed

text \<open>Null bytes are taken out after the policy and the leak detector have looked: with the built-in rules, a path
  the policy blocks passes when a null byte splits it, and the text that reaches the model is the path.\<close>

theorem null_byte_hides_path:
  assumes "sl_policy sl = policy_default is_match" and "sl_sanitizer sl = sanitizer_new build regex"
    and "\<forall>s. is_match ''system_file_access'' s =
      list_ex (contains (to_lowercase s)) [''/etc/passwd'', ''/etc/shadow'', ''.ssh/'', ''.aws/credentials'']"
    and "\<forall>s. regex ''null_byte'' s \<noteq> [] \<longleftrightarrow> CHR 0x00 \<in> set s"
    and "\<not> is_match ''crypto_private_key'' hidden" and "\<not> is_match ''shell_injection'' hidden"
    and "hidden = ''/etc/pas'' @ [CHR 0x00] @ ''swd''"
    and "sl_injection_check_enabled sl" and "length hidden \<le> sl_max_output_length sl"
    and "scan_and_clean (sl_leak_detector sl) hidden = Ok hidden"
  shows "so_content (sanitize_tool_output sl name hidden) = ''/etc/passwd'' \<and>
    is_policy_blocked (sl_policy sl) ''/etc/passwd''"
proof
  have lower: "to_lowercase hidden = hidden" "to_lowercase ''/etc/passwd'' = ''/etc/passwd''"
    unfolding assms(7) by code_simp+
  have "\<not> list_ex (contains hidden) [''/etc/passwd'', ''/etc/shadow'', ''.ssh/'', ''.aws/credentials'']"
    unfolding assms(7) by code_simp
  then have policy: "\<not> is_policy_blocked (sl_policy sl) hidden"
    using assms(3,5,6) lower by (simp add: assms(1) is_policy_blocked_def policy_check_def policy_default_def DEFAULT_RULES_def)
  obtain loc where "loc \<in> set (regex ''null_byte'' hidden)"
    using assms(4,7) by (metis append_Cons in_set_conv_decomp last_in_set)
  then have "\<exists>w \<in> set (injection_warnings (sl_sanitizer sl) hidden). iw_severity w = SevCritical"
    by (simp add: assms(2) injection_warnings_def sanitizer_new_def REGEX_PATTERNS_def bex_Un) (cases loc, blast)
  then have "so_content (sanitize (sl_sanitizer sl) hidden) = escape_content hidden"
    by (simp add: sanitize_content sanitize_modified_iff)
  moreover have "escape_content hidden = ''/etc/passwd''" unfolding assms(7) by code_simp
  ultimately show "so_content (sanitize_tool_output sl name hidden) = ''/etc/passwd''"
    using policy assms(8-10) by (simp add: sanitize_tool_output_def Let_def is_policy_blocked_def)
  have "contains ''/etc/passwd'' ''/etc/passwd''" by (simp add: starts_with_def)
  then show "is_policy_blocked (sl_policy sl) ''/etc/passwd''"
    using assms(3) lower by (simp add: assms(1) is_policy_blocked_def policy_check_def policy_default_def DEFAULT_RULES_def)
qed

theorem null_byte_hides_path_witness:
  "so_content (sanitize_tool_output sample_layer ''t'' (''/etc/pas'' @ [CHR 0x00] @ ''swd'')) = ''/etc/passwd''"
proof -
  let ?m = "\<lambda>n s. n = ''system_file_access'' \<and>
        list_ex (contains (to_lowercase s)) [''/etc/passwd'', ''/etc/shadow'', ''.ssh/'', ''.aws/credentials'']"
  let ?r = "\<lambda>n s. if n = ''null_byte'' \<and> CHR 0x00 \<in> set s then [(0, 1)] else []"
  have p: "sl_policy sample_layer = policy_default ?m" "sl_sanitizer sample_layer = sanitizer_new (\<lambda>_ _. []) ?r"
    by (simp_all add: sample_layer_def)
  from null_byte_hides_path [OF p, of "''/etc/pas'' @ [CHR 0x00] @ ''swd''" "''t''"] show ?thesis
    using sample_leaks by (simp add: sample_layer_def)
qed

end
