(* ===== verification/Agent_Stack.thy ===== *)
theory Agent_Stack
  imports Hooks Shell Safety "HOL-Library.Countable"
begin

text \<open>
  The agentic loop with the parts of this program around it: the hook registry, the parameter
  validator, the safety layer and the shell tool take the places that the record \<open>loop_env\<close> leaves
  open.  The other tools, the model and the JSON library stay parameters.
\<close>

section \<open>The assembled loop\<close>

fun exec_error_display :: "(duration \<Rightarrow> string) \<Rightarrow> exec_error \<Rightarrow> string" where
  "exec_error_display show_duration (InvalidParams r) = ''Invalid parameters: '' @ r"
| "exec_error_display show_duration (ExecFailed r) = ''Execution failed: '' @ r"
| "exec_error_display show_duration (ExecTimedOut d) = ''Timeout after '' @ show_duration d"
| "exec_error_display show_duration (NotAuthorized r) = ''Not authorized: '' @ r"
| "exec_error_display show_duration (ExternalService r) = ''External service error: '' @ r"

definition shell_tool_info :: "(string \<Rightarrow> json option) \<Rightarrow> tool_info" where
  "shell_tool_info from_json =
     \<lparr>ti_requires_approval = True, ti_requires_approval_for = shell_requires_approval_for from_json,
      ti_description = ''Execute shell commands. Use for running builds, tests, git operations, and other CLI tasks. '' @
        ''Commands run in a subprocess with captured output. Long-running commands have a timeout. '' @
        ''When Docker sandbox is enabled, commands run in isolated containers for security.'',
      ti_timeout_secs = 60, ti_timeout_debug = ''60s''\<rparr>"

record agent_parts =
  ap_safety :: safety_layer
  ap_hooks :: hook_registry
  ap_json :: json_lib
  ap_user :: string
  ap_world :: shell_world
  ap_shell :: shell_tool
  ap_extra_env :: "(string \<times> string) list"
  ap_late :: "nat \<Rightarrow> bool"

text \<open>The shell tool is run with the callback for live output; the caller's timeout cuts it off.\<close>

definition run_shell_tool :: "agent_parts \<Rightarrow> json \<Rightarrow> json shell_result" where
  "run_shell_tool ap params = shell_execute_streaming (ap_world ap) (ap_shell ap) (ap_extra_env ap) params True"

definition exec_shell :: "agent_parts \<Rightarrow> nat \<Rightarrow> json \<Rightarrow> exec_result" where
  "exec_shell ap n params =
     (if ap_late ap n then ExecTimeout
      else case snd (run_shell_tool ap params) of
        Ok v \<Rightarrow> ExecOk v
      | Err e \<Rightarrow> ExecErr (exec_error_display (jl_duration (ap_json ap)) e))"

definition agent_validate :: "validator \<Rightarrow> json \<Rightarrow> bool \<times> (string \<times> string) list" where
  "agent_validate va params =
     (let r = validate_tool_params va params
      in (vr_is_valid r, map (\<lambda>e. (ve_field e, ve_message e)) (vr_errors r)))"

definition assembled_env :: "agent_parts \<Rightarrow> loop_env \<Rightarrow> loop_env" where
  "assembled_env ap base = base\<lparr>
     le_tools := (\<lambda>n. if n = ''shell'' then Some (shell_tool_info (jl_from (ap_json ap))) else le_tools base n),
     le_validate := agent_validate (sl_validator (ap_safety ap)),
     le_execute := (\<lambda>k n p. if n = ''shell'' then exec_shell ap k p else le_execute base k n p),
     le_hook := tool_hook_reply (ap_json ap) (ap_hooks ap) (ap_user ap),
     le_from_json := jl_from (ap_json ap), le_to_json := jl_to (ap_json ap),
     le_tool_content := safe_tool_content (ap_safety ap)\<rparr>"

text \<open>The processes a tool call of the trace has started.\<close>

definition processes :: "agent_parts \<Rightarrow> string \<times> json \<times> json \<Rightarrow> shell_run list" where
  "processes ap call =
     (case call of (name, _, args) \<Rightarrow>
        if name = ''shell'' \<and> vr_is_valid (validate_tool_params (sl_validator (ap_safety ap)) args)
        then fst (run_shell_tool ap args) else [])"

fun run_command :: "shell_run \<Rightarrow> string" where
  "run_command (RunSandboxed c _ _ _) = c"
| "run_command (RunDirect c _ _ _) = c"

section \<open>One rule for the trace\<close>

lemma run_tool_calls_trace_all:
  assumes "\<And>tc args. apply_tool_hook env tc = Ok args \<Longrightarrow> P (tc_name tc, tc_arguments tc, args)"
    and "\<forall>call \<in> set (ls_trace st). P call"
  shows "\<forall>call \<in> set (ls_trace (fst (run_tool_calls env tid st tcs))). P call"
proof -
  have "\<forall>call \<in> set (ls_trace (fst (run_tool env st tc args))). P call"
    if "\<forall>call \<in> set (ls_trace st). P call" "apply_tool_hook env tc = Ok args" for st tc args
    using that(1) assms(1) [OF that(2)] by (auto simp: run_tool_def split: option.split)
  then show ?thesis
    by (intro run_tool_calls_inv [where I = "\<lambda>st _. \<forall>call \<in> set (ls_trace st). P call"
          and R = "\<lambda>st _. \<forall>call \<in> set (ls_trace st). P call"] assms(2)) simp_all
qed

lemma early_tasks_trace_all:
  assumes "\<forall>x \<in> set xs. P (''shell'', snd x, snd x)" and "\<forall>call \<in> set (ls_trace st). P call"
  shows "\<forall>call \<in> set (ls_trace (foldl (early_task env n) st xs)). P call"
  using assms
proof (induction xs arbitrary: st)
  case (Cons x xs)
  have "\<forall>call \<in> set (ls_trace (early_task env n st x)). P call"
    using Cons.prems by (cases x) (auto simp: early_task_def)
  with Cons.IH [of "early_task env n st x"] Cons.prems(1) show ?case by simp
qed simp

text \<open>A call of the trace has passed the hooks or was started from the stream.\<close>

lemma agentic_loop_trace_all:
  assumes "\<And>args. le_piped env \<Longrightarrow> has_command args \<Longrightarrow> P (''shell'', args, args)"
    and "\<And>tc args. apply_tool_hook env tc = Ok args \<Longrightarrow> P (tc_name tc, tc_arguments tc, args)"
    and "\<forall>call \<in> set (ls_trace st). P call"
  shows "\<forall>call \<in> set (ls_trace (fst (agentic_loop env tid st))). P call"
proof -
  let ?I = "\<lambda>st. \<forall>call \<in> set (ls_trace st). P call"
  have early: "?I (run_early env i st)" if "?I st" for i st
    unfolding run_early_def
    by (rule early_tasks_trace_all) (use that early_starts_sound assms(1) in fastforce)+
  have calls: "?I st'" if "?I st" "run_tool_calls env tid st tcs = (st', r)" for st st' tcs r
    using run_tool_calls_trace_all [of env P st tid tcs] assms(2) that by simp
  show ?thesis
    by (rule agentic_loop_rule [where I = ?I and C = ?I and J = "\<lambda>st _. ?I st" and Q = "\<lambda>out. ?I (fst out)"])
      (auto intro!: early simp: assms(3), (metis calls)+)
qed

text \<open>All messages of the context and of what was sent before satisfy a predicate.\<close>

definition context_all :: "(chat_message \<Rightarrow> bool) \<Rightarrow> loop_state \<Rightarrow> bool" where
  "context_all P st \<longleftrightarrow> list_all P (ls_context st) \<and> list_all (list_all P) (ls_calls st)"

lemma context_all_steps [simp]:
  "context_all P (push_context st ms) \<longleftrightarrow> context_all P st \<and> list_all P ms"
  "context_all P (on_thread st tid es) = context_all P st"
  "context_all P (fst (run_tool env st tc args)) = context_all P st"
  "context_all P (run_early env i st) = context_all P st"
  "context_all P (st\<lparr>ls_iteration := i\<rparr>) = context_all P st"
  "context_all P (st\<lparr>ls_tools_executed := b\<rparr>) = context_all P st"
  "context_all P (st\<lparr>ls_iteration := i, ls_calls := ls_calls st @ [ls_context st]\<rparr>) = context_all P st"
  by (auto simp: context_all_def)

lemma run_tool_calls_context_all:
  assumes "\<And>tc refusal. apply_tool_hook env tc = Err refusal \<Longrightarrow> P (msg_tool_result (tc_id tc) (tc_name tc) refusal)"
    and "\<And>i n r. P (msg_tool_result i n (result_content env n r))"
    and "context_all P st"
  shows "context_all P (fst (run_tool_calls env tid st tcs))"
  by (rule run_tool_calls_inv [where I = "\<lambda>st _. context_all P st" and R = "\<lambda>st _. context_all P st"])
    (simp_all add: assms)

lemma agentic_loop_context_all:
  assumes "\<And>m. cm_role m \<noteq> Tool \<Longrightarrow> P m"
    and "\<And>tc refusal. apply_tool_hook env tc = Err refusal \<Longrightarrow> P (msg_tool_result (tc_id tc) (tc_name tc) refusal)"
    and "\<And>i n r. P (msg_tool_result i n (result_content env n r))"
    and "context_all P st"
  shows "context_all P (fst (agentic_loop env tid st))"
proof -
  have own: "P (msg_assistant x)" "P (msg_user x)" "P (assistant_with_tool_calls c tcs)" for x c tcs
    by (simp_all add: assms(1) assistant_with_tool_calls_def)
  have calls: "context_all P st'" if "context_all P st" "run_tool_calls env tid st tcs = (st', r)" for st st' tcs r
    using run_tool_calls_context_all [of env P st tid tcs] assms(2,3) that by simp
  show ?thesis
    by (rule agentic_loop_rule [where I = "context_all P" and C = "context_all P" and J = "\<lambda>st _. context_all P st"
          and Q = "\<lambda>out. context_all P (fst out)"])
      (simp_all add: own assms(4), (metis calls)+)
qed

section \<open>What passes the hooks\<close>

abbreviation tool_hooks :: "agent_parts \<Rightarrow> hook list" where
  "tool_hooks ap \<equiv> matching_hooks (ap_hooks ap) BeforeToolCall"

abbreviation tool_event :: "agent_parts \<Rightarrow> string \<Rightarrow> json \<Rightarrow> hook_event" where
  "tool_event ap name params \<equiv> ToolCallEvent name params (ap_user ap) ''chat''"

lemma assembled_env_fields [simp]:
  "le_piped (assembled_env ap base) = le_piped base" "le_from_json (assembled_env ap base) = jl_from (ap_json ap)"
  "le_hook (assembled_env ap base) = tool_hook_reply (ap_json ap) (ap_hooks ap) (ap_user ap)"
  "le_tools (assembled_env ap base) ''shell'' = Some (shell_tool_info (jl_from (ap_json ap)))"
  "le_tool_content (assembled_env ap base) = safe_tool_content (ap_safety ap)"
  "le_limit (assembled_env ap base) = le_limit base" "le_llm (assembled_env ap base) = le_llm base"
  by (simp_all add: assembled_env_def)

lemma assembled_hook_Ok:
  assumes "apply_tool_hook (assembled_env ap base) tc = Ok args"
  shows "\<exists>out. run_hooks (ap_json ap) (ap_hooks ap) (tool_event ap (tc_name tc) (tc_arguments tc)) = Ok out"
proof (cases "run_hooks (ap_json ap) (ap_hooks ap) (tool_event ap (tc_name tc) (tc_arguments tc))")
  case (Inl err)
  with assms show ?thesis by (cases err) (simp_all add: apply_tool_hook_def tool_hook_reply_def)
qed simp

lemma assembled_hook:
  assumes json: "\<forall>v. jl_from (ap_json ap) (jl_to (ap_json ap) v) = Some v"
    and ok: "apply_tool_hook (assembled_env ap base) tc = Ok args"
  shows "(\<forall>k < length (tool_hooks ap). \<not> refuses (tool_hooks ap ! k)
      (after_hooks (ap_json ap) (tool_hooks ap) k (tool_event ap (tc_name tc) (tc_arguments tc)))) \<and>
    after_hooks (ap_json ap) (tool_hooks ap) (length (tool_hooks ap)) (tool_event ap (tc_name tc) (tc_arguments tc)) =
      tool_event ap (tc_name tc) args"
proof (cases "tool_hooks ap = []")
  case True
  with ok show ?thesis by (simp add: apply_tool_hook_def tool_hook_reply_def run_hooks_def)
next
  case False
  let ?e = "tool_event ap (tc_name tc) (tc_arguments tc)"
  have inj: "jl_to (ap_json ap) v = jl_to (ap_json ap) v' \<Longrightarrow> v = v'" for v v' using json by (metis option.inject)
  obtain e' where chain: "run_chain (ap_json ap) ?e (tool_hooks ap) = Ok e'"
    using assembled_hook_Ok [OF ok] False by (auto simp: run_hooks_def Let_def split: sum.splits)
  obtain p' where e': "e' = tool_event ap (tc_name tc) p'"
    using chain after_hooks_tool_call by (metis run_chain_Ok_iff)
  have "args = p'"
    using ok False json by (auto simp: apply_tool_hook_def tool_hook_reply_def run_hooks_def chain e' Let_def
        dest: inj split: if_splits)
  with chain e' show ?thesis by (simp add: run_chain_Ok_iff)
qed

lemma shell_processes_command:
  "run \<in> set (processes ap (name, given, args)) \<Longrightarrow> name = ''shell'' \<and> json_str args ''command'' = Some (run_command run)"
  by (auto simp: processes_def run_shell_tool_def shell_execute_streaming_def execute_command_def require_str_def Let_def
      execute_sandboxed_def execute_direct_def split: option.splits if_splits)

lemma unwrap_safe:
  "unwrap (safe_tool_content sl name out) = Some (name, if so_was_modified (sanitize_tool_output sl name out) then ''true'' else ''false'',
     so_content (sanitize_tool_output sl name out))"
  unfolding safe_tool_content_def Let_def by (rule wrap_round_trip)

section \<open>An example\<close>

definition sample_world :: shell_world where
  "sample_world = \<lparr>sw_cwd = ''/w'', sw_env = (\<lambda>_. None), sw_sandbox = (\<lambda>_. SandboxTimeout), sw_direct = (\<lambda>_. DirectDone ''ok'' [] (Some 0)),
     sw_stream = (\<lambda>_. StreamTimeout)\<rparr>"

definition sample_parts :: "json_lib \<Rightarrow> hook_registry \<Rightarrow> agent_parts" where
  "sample_parts jl hooks = \<lparr>ap_safety = sample_layer, ap_hooks = hooks, ap_json = jl, ap_user = ''u'', ap_world = sample_world,
     ap_shell = shell_tool_new, ap_extra_env = [], ap_late = (\<lambda>_. True)\<rparr>"

definition sample_base :: loop_env where
  "sample_base = sample_env\<lparr>le_llm := (\<lambda>i _. if i = 1
     then Ok (ToolCalls [\<lparr>tc_id = ''1'', tc_name = ''shell'', tc_arguments = stream_args\<rparr>] None) else Ok (Text ''bye''))\<rparr>"

lemma first_call_runs:
  assumes "\<not> interrupted s tid" and "le_limit env 1 = None" and "\<not> le_piped env"
    and "le_llm env 1 ms = Ok (ToolCalls (tc # tcs) content)"
    and "needs_approval env s tc = None" and "apply_tool_hook env tc = Ok args"
  shows "(tc_name tc, tc_arguments tc, args) \<in> set (ls_trace (fst (run_agentic_loop env s tid ms b)))"
proof -
  let ?x = "(tc_name tc, tc_arguments tc, args)"
  let ?st = "\<lparr>ls_session = s, ls_context = ms, ls_iteration = 0, ls_tools_executed = b,
    ls_early = [], ls_calls = [], ls_trace = []\<rparr>"
  let ?st2 = "on_thread (push_context ((after_stream env ?st)\<lparr>ls_tools_executed := True\<rparr>)
    [assistant_with_tool_calls content (tc # tcs)]) tid (map (\<lambda>tc. RecordToolCall (tc_name tc) (tc_arguments tc)) (tc # tcs))"
  have "needs_approval env (ls_session ?st2) tc = None"
    using assms(5) by (auto simp: needs_approval_def on_thread_def after_stream_def is_tool_auto_approved_def
        update_thread_def split: option.splits if_splits)
  moreover have "?x \<in> set (ls_trace (fst (run_tool env ?st2 tc args)))" using assms(3) by (simp add: run_tool_def)
  moreover have "?x \<in> set (ls_trace st) \<Longrightarrow> ?x \<in> set (ls_trace (fst (run_tool_calls env tid st tcs)))" for st
    using run_tool_calls_trace [of "ls_trace st" st env tid tcs] by (auto dest: set_mono_prefix)
  ultimately have "?x \<in> set (ls_trace (fst (run_tool_calls env tid ?st2 (tc # tcs))))"
    using assms(6) by (auto simp: Let_def split_beta split: option.split)
  moreover have "prefix (ls_trace (fst (run_tool_calls env tid ?st2 (tc # tcs)))) (ls_trace (fst (agentic_loop env tid ?st)))"
    by (rule loop_pass_trace) (use assms(1,2,4) in \<open>auto simp: loop_pass_calls MAX_TOOL_ITERATIONS_def split: prod.split option.split\<close>)
  ultimately show ?thesis using set_mono_prefix by (fastforce simp: run_agentic_loop_def)
qed

text \<open>Any coding of the JSON values as strings with a decoder will do.\<close>

instance json :: countable
  by countable_datatype

definition sample_json :: json_lib where
  "sample_json = \<lparr>jl_from = (\<lambda>s. Some (from_nat (length s))), jl_to = (\<lambda>v. replicate (to_nat v) CHR ''x''), jl_duration = (\<lambda>_. ''1s'')\<rparr>"

definition shell_session :: session where
  "shell_session = auto_approve_tool (session_new 1 0 ''u'') ''shell''"

lemma sample_no_approval:
  "needs_approval (assembled_env (sample_parts jl hooks) base) shell_session \<lparr>tc_id = ''1'', tc_name = ''shell'', tc_arguments = stream_args\<rparr> = None"
proof -
  have "\<not> shell_requires_approval_for (jl_from jl) stream_args"
  proof -
    have "\<not> requires_explicit_approval ''make''" by code_simp
    then show ?thesis by (simp add: shell_requires_approval_for_def stream_args_def json_str_def json_get_def json_as_str_def)
  qed
  then show ?thesis
    by (simp add: needs_approval_def shell_tool_info_def is_tool_auto_approved_def shell_session_def auto_approve_tool_def
        session_new_def sample_parts_def)
qed

lemma sample_trace:
  "(''shell'', stream_args, stream_args) \<in> set (ls_trace (fst (run_agentic_loop (assembled_env (sample_parts sample_json []) sample_base) shell_session 9 [] False)))"
proof -
  let ?tc = "\<lparr>tc_id = ''1'', tc_name = ''shell'', tc_arguments = stream_args\<rparr>"
  let ?env = "assembled_env (sample_parts sample_json []) sample_base"
  have "apply_tool_hook ?env ?tc = Ok stream_args"
    by (simp add: apply_tool_hook_def tool_hook_reply_def run_hooks_def matching_hooks_def sample_parts_def)
  then have "(tc_name ?tc, tc_arguments ?tc, stream_args) \<in> set (ls_trace (fst (run_agentic_loop ?env shell_session 9 [] False)))"
    by (intro first_call_runs [where tcs = "[]" and content = None] sample_no_approval)
      (simp_all add: interrupted_def shell_session_def session_new_def auto_approve_tool_def sample_base_def sample_env_def)
  then show ?thesis by simp
qed

section \<open>Properties\<close>



text \<open>A hook that refuses every call of a tool keeps the tool from running in the loop, whatever the hooks before it
  make of the arguments; this needs that streamed shell calls are not started early.\<close>

theorem refusing_hook_stops_tool:
  assumes "h \<in> set (tool_hooks ap)" and "\<And>params. refuses h (tool_event ap name params)" and "\<not> le_piped base"
  shows "\<forall>(n, given, args) \<in> set (ls_trace (fst (run_agentic_loop (assembled_env ap base) s tid ms b))). n \<noteq> name"
proof -
  have "tc_name tc \<noteq> name" if ok: "apply_tool_hook (assembled_env ap base) tc = Ok args" for tc args
  proof
    assume n: "tc_name tc = name"
    from assms(1) obtain k where k: "k < length (tool_hooks ap)" "tool_hooks ap ! k = h" by (auto simp: in_set_conv_nth)
    obtain p' where "after_hooks (ap_json ap) (tool_hooks ap) k (tool_event ap name (tc_arguments tc)) = tool_event ap name p'"
      using after_hooks_tool_call by metis
    with k assms(2) have "\<exists>err. run_hooks (ap_json ap) (ap_hooks ap) (tool_event ap name (tc_arguments tc)) = Err err"
      unfolding run_hooks_Err_iff run_chain_Err_iff by auto
    with assembled_hook_Ok [OF ok] n show False by auto
  qed
  then show ?thesis
    unfolding run_agentic_loop_def by (intro agentic_loop_trace_all) (use assms(3) in simp_all)
qed

theorem refusing_hook_stops_tool_witness:
  "''shell'' \<notin> fst ` set (ls_trace (fst (run_agentic_loop
     (assembled_env (sample_parts sample_json [\<lparr>he_hook = sample_hook, he_priority = 1\<rparr>]) sample_base) shell_session 9 [] False)))"
proof -
  have "\<forall>(n, given, args) \<in> set (ls_trace (fst (run_agentic_loop
     (assembled_env (sample_parts sample_json [\<lparr>he_hook = sample_hook, he_priority = 1\<rparr>]) sample_base) shell_session 9 [] False))). n \<noteq> ''shell''"
    by (rule refusing_hook_stops_tool [where h = sample_hook])
      (simp_all add: sample_parts_def matching_hooks_def sample_hook_def refuses_def sample_base_def sample_env_def)
  then show ?thesis by force
qed

text \<open>C12: No raw tool output reaches the model.  Every tool message the loop sends, beyond those it was started with,
  is the notice of a hook's refusal, an error text, or the delimited form of an output that went through the safety layer.\<close>

theorem tool_messages_wrapped:
  assumes "c \<in> set (ls_calls (fst (run_agentic_loop (assembled_env ap base) s tid ms b)))"
    and "m \<in> set c" and "m \<notin> set ms" and "cm_role m = Tool"
  shows "starts_with (cm_content m) ''Tool call rejected by hook: '' \<or>
    starts_with (cm_content m) ''Tool call blocked by hook policy: '' \<or>
    starts_with (cm_content m) ''Error: '' \<or>
    (\<exists>name out. cm_content m = safe_tool_content (ap_safety ap) name out \<and>
       unwrap (cm_content m) = Some (name, if so_was_modified (sanitize_tool_output (ap_safety ap) name out) then ''true'' else ''false'',
         so_content (sanitize_tool_output (ap_safety ap) name out)))"
proof -
  let ?env = "assembled_env ap base"
  define P where "P = (\<lambda>m. m \<in> set ms \<or> cm_role m \<noteq> Tool \<or> starts_with (cm_content m) ''Tool call rejected by hook: '' \<or>
    starts_with (cm_content m) ''Tool call blocked by hook policy: '' \<or> starts_with (cm_content m) ''Error: '' \<or>
    (\<exists>name out. cm_content m = safe_tool_content (ap_safety ap) name out))"
  have "context_all P (fst (run_agentic_loop ?env s tid ms b))"
    unfolding run_agentic_loop_def
  proof (rule agentic_loop_context_all)
    fix tc :: tool_call and refusal
    assume "apply_tool_hook ?env tc = Err refusal"
    then show "P (msg_tool_result (tc_id tc) (tc_name tc) refusal)"
      by (auto simp: P_def apply_tool_hook_def starts_with_iff split: hook_reply.splits option.splits)
  next
    fix i n r
    show "P (msg_tool_result i n (result_content ?env n r))"
      by (auto simp: P_def result_content_def starts_with_iff split: sum.splits)
  qed (auto simp: P_def context_all_def list_all_iff)
  with assms have "P m" by (auto simp: context_all_def list_all_iff)
  with assms(3,4) show ?thesis
    using unwrap_safe [of "ap_safety ap"] unfolding P_def by metis
qed

theorem tool_messages_wrapped_witness:
  "let st = fst (run_agentic_loop (assembled_env (sample_parts sample_json [\<lparr>he_hook = sample_hook, he_priority = 1\<rparr>])
       (stream_env\<lparr>le_piped := False, le_stream := (\<lambda>_ _. []), le_llm := (\<lambda>i _. if i = 1 then Ok (ToolCalls [sample_call ''1'' ''echo''] None) else Ok (Text ''bye''))\<rparr>))
       (session_new 1 0 ''u'') 9 [] False)
   in \<exists>c \<in> set (ls_calls st). \<exists>m \<in> set c. cm_role m = Tool \<and> starts_with (cm_content m) ''Tool call blocked by hook policy: ''"
proof -
  let ?base = "stream_env\<lparr>le_piped := False, le_stream := (\<lambda>_ _. []), le_llm := (\<lambda>i _. if i = 1 then Ok (ToolCalls [sample_call ''1'' ''echo''] None) else Ok (Text ''bye''))\<rparr>"
  let ?ap = "sample_parts sample_json [\<lparr>he_hook = sample_hook, he_priority = 1\<rparr>]"
  let ?m = "msg_tool_result ''1'' ''echo'' ''Tool call blocked by hook policy: Hook timed out after 1s''"
  have "ls_calls (fst (run_agentic_loop (assembled_env \<lparr>ap_safety = sl, ap_hooks = [\<lparr>he_hook = sample_hook, he_priority = 1\<rparr>],
       ap_json = \<lparr>jl_from = f, jl_to = g, jl_duration = (\<lambda>_. ''1s'')\<rparr>, ap_user = ''u'', ap_world = w, ap_shell = t, ap_extra_env = [],
       ap_late = l\<rparr> ?base) (session_new 1 0 ''u'') 9 [] False)) =
      [[], [assistant_with_tool_calls None [sample_call ''1'' ''echo''], ?m]]" for sl f g w t l by code_simp
  then have "ls_calls (fst (run_agentic_loop (assembled_env ?ap ?base) (session_new 1 0 ''u'') 9 [] False)) =
      [[], [assistant_with_tool_calls None [sample_call ''1'' ''echo''], ?m]]" by (simp only: sample_parts_def sample_json_def)
  then show ?thesis
    using tool_messages_wrapped [of "[assistant_with_tool_calls None [sample_call ''1'' ''echo''], ?m]" ?ap ?base "session_new 1 0 ''u''" 9 "[]" False ?m]
    by (simp add: starts_with_def)
qed

end
