(* ===== verification/Rate_Limiter.thy ===== *)
theory Rate_Limiter
  imports Prelude
begin

text \<open>
  The rate limiter of the WASM tools, \<^verbatim>\<open>src/src/tools/wasm/rate_limiter.rs\<close>.  Each operation holds the
  write lock, so it is one step; the clock is read once per step and passed in.
\<close>

section \<open>Windows\<close>

record rate_limit_config =
  rc_requests_per_minute :: u32
  rc_requests_per_hour :: u32

datatype limit_type = PerMinute | PerHour

datatype rate_limit_result = Allowed u32 u32 | Limited duration limit_type

fun is_allowed :: "rate_limit_result \<Rightarrow> bool" where
  "is_allowed (Allowed _ _) = True"
| "is_allowed (Limited _ _) = False"

record window_state =
  ws_window_start :: instant
  ws_count :: u32

definition window_state_new :: "instant \<Rightarrow> window_state" where
  "window_state_new now = \<lparr>ws_window_start = now, ws_count = 0\<rparr>"

definition maybe_reset :: "instant \<Rightarrow> duration \<Rightarrow> window_state \<Rightarrow> window_state" where
  "maybe_reset now window_duration w =
     (if now - ws_window_start w \<ge> window_duration then \<lparr>ws_window_start = now, ws_count = 0\<rparr> else w)"

definition time_until_reset :: "instant \<Rightarrow> duration \<Rightarrow> window_state \<Rightarrow> duration" where
  "time_until_reset now window_duration w =
     (let elapsed = now - ws_window_start w
      in if elapsed \<ge> window_duration then 0 else window_duration - elapsed)"

record tool_rate_limit_state =
  rl_minute_window :: window_state
  rl_hour_window :: window_state

definition tool_rate_limit_state_new :: "instant \<Rightarrow> tool_rate_limit_state" where
  "tool_rate_limit_state_new now = \<lparr>rl_minute_window = window_state_new now, rl_hour_window = window_state_new now\<rparr>"

section \<open>The limiter\<close>

type_synonym rate_limiter = "((string \<times> string) \<times> tool_rate_limit_state) list"

definition MINUTE :: duration where "MINUTE = 60 * SECS"

text \<open>The entry of a key with both windows brought up to date.\<close>

definition current_state :: "instant \<Rightarrow> rate_limiter \<Rightarrow> string \<times> string \<Rightarrow> tool_rate_limit_state" where
  "current_state now rl key =
     (let ts = (case map_of rl key of Some ts \<Rightarrow> ts | None \<Rightarrow> tool_rate_limit_state_new now)
      in \<lparr>rl_minute_window = maybe_reset now MINUTE (rl_minute_window ts),
          rl_hour_window = maybe_reset now HOUR (rl_hour_window ts)\<rparr>)"

definition check_and_record ::
  "instant \<Rightarrow> rate_limiter \<Rightarrow> string \<Rightarrow> string \<Rightarrow> rate_limit_config \<Rightarrow> rate_limiter \<times> rate_limit_result" where
  "check_and_record now rl user_id tool_name config =
     (let key = (user_id, tool_name);
          ts = current_state now rl key;
          rl' = AList.update key ts rl
      in if ws_count (rl_minute_window ts) \<ge> rc_requests_per_minute config
         then (rl', Limited (time_until_reset now MINUTE (rl_minute_window ts)) PerMinute)
         else if ws_count (rl_hour_window ts) \<ge> rc_requests_per_hour config
         then (rl', Limited (time_until_reset now HOUR (rl_hour_window ts)) PerHour)
         else
           let m = ws_count (rl_minute_window ts) + 1;
               h = ws_count (rl_hour_window ts) + 1
           in (AList.update key \<lparr>rl_minute_window = (rl_minute_window ts)\<lparr>ws_count := m\<rparr>,
                                 rl_hour_window = (rl_hour_window ts)\<lparr>ws_count := h\<rparr>\<rparr> rl,
               Allowed (rc_requests_per_minute config - m) (rc_requests_per_hour config - h)))"

definition rate_check ::
  "instant \<Rightarrow> rate_limiter \<Rightarrow> string \<Rightarrow> string \<Rightarrow> rate_limit_config \<Rightarrow> rate_limiter \<times> rate_limit_result" where
  "rate_check now rl user_id tool_name config =
     (let key = (user_id, tool_name);
          ts = current_state now rl key;
          rl' = AList.update key ts rl
      in if ws_count (rl_minute_window ts) \<ge> rc_requests_per_minute config
         then (rl', Limited (time_until_reset now MINUTE (rl_minute_window ts)) PerMinute)
         else if ws_count (rl_hour_window ts) \<ge> rc_requests_per_hour config
         then (rl', Limited (time_until_reset now HOUR (rl_hour_window ts)) PerHour)
         else (rl', Allowed (rc_requests_per_minute config - ws_count (rl_minute_window ts))
                            (rc_requests_per_hour config - ws_count (rl_hour_window ts))))"

definition get_usage :: "rate_limiter \<Rightarrow> string \<Rightarrow> string \<Rightarrow> (u32 \<times> u32) option" where
  "get_usage rl user_id tool_name =
     map_option (\<lambda>ts. (ws_count (rl_minute_window ts), ws_count (rl_hour_window ts))) (map_of rl (user_id, tool_name))"

definition clear_key :: "rate_limiter \<Rightarrow> string \<Rightarrow> string \<Rightarrow> rate_limiter" where
  "clear_key rl user_id tool_name = AList.delete (user_id, tool_name) rl"

definition clear_all :: "rate_limiter \<Rightarrow> rate_limiter" where
  "clear_all rl = []"

definition rate_limit_error :: "rate_limit_result \<Rightarrow> (duration \<times> limit_type, unit) result" where
  "rate_limit_error r = (case r of Allowed _ _ \<Rightarrow> Ok () | Limited retry_after limit_type \<Rightarrow> Err (retry_after, limit_type))"

section \<open>One window and its history\<close>

definition within :: "instant \<Rightarrow> duration \<Rightarrow> instant list \<Rightarrow> nat" where
  "within t d as = length (filter (\<lambda>a. t \<le> a \<and> a < t + d) as)"

text \<open>\<open>as\<close> are the times of the requests recorded so far: the count is that of the current window, the
  stretch before the window of the same length holds at most the limit, and no stretch holds more
  than twice the limit.\<close>

definition window_ok :: "nat \<Rightarrow> duration \<Rightarrow> instant list \<Rightarrow> instant \<Rightarrow> window_state \<Rightarrow> bool" where
  "window_ok l d as now w \<longleftrightarrow>
     ws_window_start w \<le> now \<and> (\<forall>a \<in> set as. a \<le> now \<and> a < ws_window_start w + d) \<and>
     unat (ws_count w) = length (filter (\<lambda>a. ws_window_start w \<le> a) as) \<and> unat (ws_count w) \<le> l \<and>
     length (filter (\<lambda>a. ws_window_start w \<le> a + d \<and> a < ws_window_start w) as) \<le> l \<and>
     (\<forall>t. within t d as \<le> 2 * l)"

lemma window_ok_new: "0 < d \<Longrightarrow> window_ok l d [] now (window_state_new now)"
  by (simp add: window_ok_def window_state_new_def within_def)

lemma window_ok_later: "window_ok l d as now w \<Longrightarrow> now \<le> now' \<Longrightarrow> window_ok l d as now' w"
  by (force simp: window_ok_def)

lemma length_filter_mono: "(\<And>x. x \<in> set xs \<Longrightarrow> P x \<Longrightarrow> Q x) \<Longrightarrow> length (filter P xs) \<le> length (filter Q xs)"
  by (induction xs) auto

lemma window_ok_reset:
  assumes "window_ok l d as now w" and "0 < d"
  shows "window_ok l d as now (maybe_reset now d w)"
proof (cases "now - ws_window_start w \<ge> d")
  case True
  then have later: "ws_window_start w + d \<le> now" using assms by (simp add: window_ok_def)
  have "filter (\<lambda>a. now \<le> a) as = []" using assms(1) later by (fastforce simp: window_ok_def filter_empty_conv)
  moreover have "length (filter (\<lambda>a. now \<le> a + d \<and> a < now) as) \<le> length (filter (\<lambda>a. ws_window_start w \<le> a) as)"
    using later by (intro length_filter_mono) simp
  ultimately show ?thesis using assms later True by (auto simp: window_ok_def maybe_reset_def)
next
  case False
  with assms show ?thesis by (simp add: maybe_reset_def)
qed

lemma window_ok_record:
  assumes ok: "window_ok l d as now w" and lt: "now < ws_window_start w + d" and room: "unat (ws_count w) < l" and "l < 2 ^ 32"
  shows "window_ok l d (as @ [now]) now (w\<lparr>ws_count := ws_count w + 1\<rparr>)"
proof -
  have cnt: "unat (ws_count w + 1) = Suc (unat (ws_count w))"
    using room assms(4) by (simp add: unat_word_ariths)
  have "within t d (as @ [now]) \<le> 2 * l" for t
  proof (cases "t \<le> now \<and> now < t + d")
    case True
    have "within t d as = length (filter (\<lambda>a. (t \<le> a \<and> a < t + d) \<and> a < ws_window_start w) as) +
        length (filter (\<lambda>a. (t \<le> a \<and> a < t + d) \<and> \<not> a < ws_window_start w) as)"
      unfolding within_def using sum_length_filter_compl [of "\<lambda>a. a < ws_window_start w" "filter (\<lambda>a. t \<le> a \<and> a < t + d) as"]
      by (simp add: conj_commute)
    also have "length (filter (\<lambda>a. (t \<le> a \<and> a < t + d) \<and> a < ws_window_start w) as) \<le>
        length (filter (\<lambda>a. ws_window_start w \<le> a + d \<and> a < ws_window_start w) as)"
      using True ok by (intro length_filter_mono) (auto simp: window_ok_def)
    also have "length (filter (\<lambda>a. (t \<le> a \<and> a < t + d) \<and> \<not> a < ws_window_start w) as) \<le>
        length (filter (\<lambda>a. ws_window_start w \<le> a) as)"
      by (intro length_filter_mono) simp
    finally show ?thesis using ok room True by (simp add: window_ok_def within_def)
  next
    case False
    with ok show ?thesis by (auto simp: window_ok_def within_def)
  qed
  with ok lt cnt room show ?thesis by (auto simp: window_ok_def)
qed

section \<open>Runs of the limiter\<close>

text \<open>The requests of all users and tools in the order of the lock, each some time after the one before; for one
  key, under one configuration, the times of the requests it was allowed are kept aside.\<close>

datatype rate_op = RateRecord string string | RateCheck string string

record rate_run =
  rr_limiter :: rate_limiter
  rr_now :: instant
  rr_allowed :: "instant list"

definition rate_step :: "rate_limit_config \<Rightarrow> string \<times> string \<Rightarrow> rate_run \<Rightarrow> duration \<times> rate_op \<Rightarrow> rate_run" where
  "rate_step config key r e =
     (let now = rr_now r + fst e in
      case snd e of
        RateRecord u t \<Rightarrow>
          (let (rl, res) = check_and_record now (rr_limiter r) u t config
           in \<lparr>rr_limiter = rl, rr_now = now,
               rr_allowed = (if (u, t) = key \<and> is_allowed res then rr_allowed r @ [now] else rr_allowed r)\<rparr>)
      | RateCheck u t \<Rightarrow> \<lparr>rr_limiter = fst (rate_check now (rr_limiter r) u t config), rr_now = now, rr_allowed = rr_allowed r\<rparr>)"

definition state_ok :: "rate_limit_config \<Rightarrow> instant list \<Rightarrow> instant \<Rightarrow> tool_rate_limit_state \<Rightarrow> bool" where
  "state_ok config as now ts \<longleftrightarrow>
     window_ok (unat (rc_requests_per_minute config)) MINUTE as now (rl_minute_window ts) \<and>
     window_ok (unat (rc_requests_per_hour config)) HOUR as now (rl_hour_window ts)"

definition rate_inv :: "rate_limit_config \<Rightarrow> string \<times> string \<Rightarrow> rate_run \<Rightarrow> bool" where
  "rate_inv config key r \<longleftrightarrow>
     (case map_of (rr_limiter r) key of
        Some ts \<Rightarrow> state_ok config (rr_allowed r) (rr_now r) ts
      | None \<Rightarrow> rr_allowed r = [])"

lemma durations_pos [simp]: "0 < MINUTE" "0 < HOUR"
  by (simp_all add: MINUTE_def HOUR_def SECS_def)

lemma current_state_ok:
  assumes "rate_inv config key r" and "rr_now r \<le> now"
  shows "state_ok config (rr_allowed r) now (current_state now (rr_limiter r) key)"
proof (cases "map_of (rr_limiter r) key")
  case None
  with assms show ?thesis
    by (simp add: rate_inv_def state_ok_def current_state_def tool_rate_limit_state_new_def window_ok_reset window_ok_new)
next
  case (Some ts)
  with assms show ?thesis
    by (auto simp: rate_inv_def state_ok_def current_state_def intro!: window_ok_reset elim: window_ok_later)
qed

lemma maybe_reset_open: "0 < d \<Longrightarrow> ws_window_start w \<le> now \<Longrightarrow> now < ws_window_start (maybe_reset now d w) + d"
  by (auto simp: maybe_reset_def)

lemma current_state_open:
  assumes "rate_inv config key r" and "rr_now r \<le> now"
  shows "now < ws_window_start (rl_minute_window (current_state now (rr_limiter r) key)) + MINUTE \<and>
    now < ws_window_start (rl_hour_window (current_state now (rr_limiter r) key)) + HOUR"
  using assms by (auto simp: current_state_def rate_inv_def state_ok_def window_ok_def tool_rate_limit_state_new_def
      window_state_new_def intro!: maybe_reset_open split: option.splits)

lemma rate_check_frame:
  "(u, t) \<noteq> key \<Longrightarrow> map_of (fst (check_and_record now rl u t config)) key = map_of rl key"
  "(u, t) \<noteq> key \<Longrightarrow> map_of (fst (rate_check now rl u t config)) key = map_of rl key"
  by (auto simp: check_and_record_def rate_check_def Let_def update_conv')

lemma check_and_record_cases:
  "(\<exists>res. check_and_record now rl u t config = (AList.update (u, t) (current_state now rl (u, t)) rl, res) \<and> \<not> is_allowed res) \<or>
   (let ts = current_state now rl (u, t) in
    ws_count (rl_minute_window ts) < rc_requests_per_minute config \<and> ws_count (rl_hour_window ts) < rc_requests_per_hour config \<and>
    fst (check_and_record now rl u t config) = AList.update (u, t)
      \<lparr>rl_minute_window = (rl_minute_window ts)\<lparr>ws_count := ws_count (rl_minute_window ts) + 1\<rparr>,
       rl_hour_window = (rl_hour_window ts)\<lparr>ws_count := ws_count (rl_hour_window ts) + 1\<rparr>\<rparr> rl \<and>
    is_allowed (snd (check_and_record now rl u t config)))"
  by (simp add: check_and_record_def Let_def not_le)

lemma rate_check_state: "fst (rate_check now rl u t config) = AList.update (u, t) (current_state now rl (u, t)) rl"
  by (simp add: rate_check_def Let_def)

lemma rate_step_inv:
  assumes "rate_inv config key r"
  shows "rate_inv config key (rate_step config key r e)"
proof -
  let ?now = "rr_now r + fst e" and ?rl = "rr_limiter r"
  obtain u t where e: "snd e = RateRecord u t \<or> snd e = RateCheck u t" by (cases "snd e") auto
  show ?thesis
  proof (cases "(u, t) = key")
    case False
    have "state_ok config (rr_allowed r) ?now ts" if "map_of ?rl key = Some ts" for ts
      using assms that by (auto simp: rate_inv_def state_ok_def elim: window_ok_later)
    with e False assms rate_check_frame [OF False, of ?now ?rl config] show ?thesis
      by (auto simp: rate_inv_def rate_step_def Let_def split_beta split: option.splits)
  next
    case True
    note ok = current_state_ok [OF assms, of ?now] and opn = current_state_open [OF assms, of ?now]
    have rec: "rate_inv config key (rate_step config key r e)" if op: "snd e = RateRecord u t"
      using check_and_record_cases [of ?now ?rl u t config]
    proof (elim disjE exE conjE)
      fix res assume "check_and_record ?now ?rl u t config = (AList.update (u, t) (current_state ?now ?rl (u, t)) ?rl, res)" "\<not> is_allowed res"
      with op ok True show ?thesis by (simp add: rate_inv_def rate_step_def Let_def update_conv')
    next
      assume "let ts = current_state ?now ?rl (u, t) in
        ws_count (rl_minute_window ts) < rc_requests_per_minute config \<and> ws_count (rl_hour_window ts) < rc_requests_per_hour config \<and>
        fst (check_and_record ?now ?rl u t config) = AList.update (u, t)
          \<lparr>rl_minute_window = (rl_minute_window ts)\<lparr>ws_count := ws_count (rl_minute_window ts) + 1\<rparr>,
           rl_hour_window = (rl_hour_window ts)\<lparr>ws_count := ws_count (rl_hour_window ts) + 1\<rparr>\<rparr> ?rl \<and>
        is_allowed (snd (check_and_record ?now ?rl u t config))"
      with op ok opn True show ?thesis
        using unat_lt_2p [of "rc_requests_per_minute config"] unat_lt_2p [of "rc_requests_per_hour config"]
        by (simp add: rate_inv_def rate_step_def Let_def split_beta update_conv' state_ok_def window_ok_record word_less_nat_alt)
    qed
    from e show ?thesis
    proof
      assume "snd e = RateCheck u t"
      with ok True show ?thesis by (simp add: rate_inv_def rate_step_def Let_def rate_check_state update_conv')
    qed (rule rec)
  qed
qed

interpretation limiter: inv_machine "rate_step config key" "rate_inv config key" for config key
  by unfold_locales (rule rate_step_inv)

lemma twice_reached:
  "let as = rr_allowed (foldl (rate_step \<lparr>rc_requests_per_minute = 2, rc_requests_per_hour = 100\<rparr> (''u'', ''t''))
        \<lparr>rr_limiter = [], rr_now = 0, rr_allowed = []\<rparr>
        [(0, RateCheck ''u'' ''t''), (59 * SECS, RateRecord ''u'' ''t''), (0, RateRecord ''u'' ''t''), (0, RateRecord ''u'' ''t''),
         (SECS, RateRecord ''u'' ''t''), (0, RateRecord ''u'' ''t''), (0, RateRecord ''u'' ''t'')]) in
    as = [59 * SECS, 59 * SECS, 60 * SECS, 60 * SECS] \<and> within (59 * SECS) MINUTE as = 4"
proof -
  let ?c = "\<lparr>rc_requests_per_minute = 2, rc_requests_per_hour = 100\<rparr>" and ?k = "(''u'', ''t'')"
  define R where "R m cm ch now as = \<lparr>rr_limiter = [(?k, \<lparr>rl_minute_window = \<lparr>ws_window_start = m, ws_count = cm\<rparr>,
      rl_hour_window = \<lparr>ws_window_start = 0, ws_count = ch\<rparr>\<rparr>)], rr_now = now, rr_allowed = as\<rparr>" for m cm ch now as
  note eval = rate_step_def check_and_record_def rate_check_def current_state_def tool_rate_limit_state_new_def
    window_state_new_def maybe_reset_def MINUTE_def HOUR_def SECS_def R_def Let_def word_le_nat_alt
  have "rate_step ?c ?k \<lparr>rr_limiter = [], rr_now = 0, rr_allowed = []\<rparr> (0, RateCheck ''u'' ''t'') = R 0 0 0 0 []"
    by (simp add: eval)
  moreover have "rate_step ?c ?k (R 0 0 0 0 []) (59 * SECS, RateRecord ''u'' ''t'') = R 0 1 1 (59 * SECS) [59 * SECS]"
    by (simp add: eval)
  moreover have "rate_step ?c ?k (R 0 1 1 (59 * SECS) [59 * SECS]) (0, RateRecord ''u'' ''t'') = R 0 2 2 (59 * SECS) [59 * SECS, 59 * SECS]"
    by (simp add: eval)
  moreover have "rate_step ?c ?k (R 0 2 2 (59 * SECS) [59 * SECS, 59 * SECS]) (0, RateRecord ''u'' ''t'') = R 0 2 2 (59 * SECS) [59 * SECS, 59 * SECS]"
    by (simp add: eval)
  moreover have "rate_step ?c ?k (R 0 2 2 (59 * SECS) [59 * SECS, 59 * SECS]) (SECS, RateRecord ''u'' ''t'') =
      R (60 * SECS) 1 3 (60 * SECS) [59 * SECS, 59 * SECS, 60 * SECS]"
    by (simp add: eval)
  moreover have "rate_step ?c ?k (R (60 * SECS) 1 3 (60 * SECS) [59 * SECS, 59 * SECS, 60 * SECS]) (0, RateRecord ''u'' ''t'') =
      R (60 * SECS) 2 4 (60 * SECS) [59 * SECS, 59 * SECS, 60 * SECS, 60 * SECS]"
    by (simp add: eval)
  moreover have "rate_step ?c ?k (R (60 * SECS) 2 4 (60 * SECS) [59 * SECS, 59 * SECS, 60 * SECS, 60 * SECS]) (0, RateRecord ''u'' ''t'') =
      R (60 * SECS) 2 4 (60 * SECS) [59 * SECS, 59 * SECS, 60 * SECS, 60 * SECS]"
    by (simp add: eval)
  ultimately show ?thesis by (simp add: Let_def) (simp add: R_def within_def MINUTE_def SECS_def)
qed

section \<open>Properties\<close>

text \<open>The limits hold up to a factor of two.  Whatever requests and checks of all users and tools come in whatever
  order, in no stretch of a minute is a tool allowed more than twice its limit per minute to a user, and in no
  hour more than twice its hourly limit; and twice the limit is reached, because a full window may be followed
  at once by another.\<close>

theorem rate_at_most_twice:
  "(\<forall>t. let as = rr_allowed (foldl (rate_step config key) \<lparr>rr_limiter = [], rr_now = start, rr_allowed = []\<rparr> es) in
      within t MINUTE as \<le> 2 * unat (rc_requests_per_minute config) \<and> within t HOUR as \<le> 2 * unat (rc_requests_per_hour config)) \<and>
   (let as = rr_allowed (foldl (rate_step \<lparr>rc_requests_per_minute = 2, rc_requests_per_hour = 100\<rparr> (''u'', ''t''))
        \<lparr>rr_limiter = [], rr_now = 0, rr_allowed = []\<rparr>
        [(0, RateCheck ''u'' ''t''), (59 * SECS, RateRecord ''u'' ''t''), (0, RateRecord ''u'' ''t''), (0, RateRecord ''u'' ''t''),
         (SECS, RateRecord ''u'' ''t''), (0, RateRecord ''u'' ''t''), (0, RateRecord ''u'' ''t'')]) in
    as = [59 * SECS, 59 * SECS, 60 * SECS, 60 * SECS] \<and> within (59 * SECS) MINUTE as = 4)"
proof
  let ?r = "foldl (rate_step config key) \<lparr>rr_limiter = [], rr_now = start, rr_allowed = []\<rparr> es"
  have "rate_inv config key ?r" by (rule limiter.run_inv) (simp add: rate_inv_def)
  then have "within t MINUTE (rr_allowed ?r) \<le> 2 * unat (rc_requests_per_minute config) \<and>
      within t HOUR (rr_allowed ?r) \<le> 2 * unat (rc_requests_per_hour config)" for t
    by (auto simp: rate_inv_def state_ok_def window_ok_def within_def split: option.splits)
  then show "\<forall>t. let as = rr_allowed ?r in
      within t MINUTE as \<le> 2 * unat (rc_requests_per_minute config) \<and> within t HOUR as \<le> 2 * unat (rc_requests_per_hour config)"
    by (simp add: Let_def)
qed (rule twice_reached)

text \<open>The counters never wrap.  An allowed request leaves as remaining exactly the difference of the limits and the
  counts, and a refused one is told to come back within the window that refused it.\<close>

theorem remaining_exact:
  assumes "check_and_record now rl u t config = (rl', res)"
  shows "case res of
     Allowed m h \<Rightarrow> (\<exists>cm ch. get_usage rl' u t = Some (cm, ch) \<and> 0 < unat cm \<and> 0 < unat ch \<and>
        unat m + unat cm = unat (rc_requests_per_minute config) \<and> unat h + unat ch = unat (rc_requests_per_hour config))
   | Limited retry_after l \<Rightarrow> retry_after \<le> (case l of PerMinute \<Rightarrow> MINUTE | PerHour \<Rightarrow> HOUR)"
proof -
  have word: "unat (l - (c + 1)) + unat (c + 1) = unat l" "0 < unat (c + 1)" if "c < l" for c l :: u32
  proof -
    have "unat (c + 1) = Suc (unat c)" using that unat_lt_2p [of l] by (simp add: unat_word_ariths word_less_nat_alt)
    moreover from this have "c + 1 \<le> l" using that by (simp add: word_le_nat_alt word_less_nat_alt)
    ultimately show "unat (l - (c + 1)) + unat (c + 1) = unat l" "0 < unat (c + 1)"
      by (simp_all add: unat_sub word_le_nat_alt)
  qed
  have until: "time_until_reset now d w \<le> d" for d w by (simp add: time_until_reset_def Let_def)
  from assms word until show ?thesis
    by (auto simp: check_and_record_def Let_def get_usage_def update_conv' not_le split: if_splits)
qed

theorem remaining_exact_witness:
  "\<exists>rl'. check_and_record 0 [] ''u'' ''t'' \<lparr>rc_requests_per_minute = 2, rc_requests_per_hour = 9\<rparr> = (rl', Allowed 1 8) \<and>
     get_usage rl' ''u'' ''t'' = Some (1, 1)"
proof -
  let ?r = "check_and_record 0 [] ''u'' ''t'' \<lparr>rc_requests_per_minute = 2, rc_requests_per_hour = 9\<rparr>"
  have r: "?r = (fst ?r, Allowed 1 8)" "get_usage (fst ?r) ''u'' ''t'' = Some (1, 1)"
    by (simp_all add: check_and_record_def current_state_def tool_rate_limit_state_new_def window_state_new_def maybe_reset_def
        get_usage_def Let_def)
  from remaining_exact [OF r(1)] r show ?thesis by blast
qed

end
