(* ===== verification/Response_Cache.thy ===== *)
theory Response_Cache
  imports Llm_Types
begin

text \<open>
  The response cache, \<^verbatim>\<open>src/src/llm/response_cache.rs\<close>.  The digest and the JSON text of the messages are
  parameters.  A call takes the lock twice, for the look-up and for the store, and calls the provider in
  between; the two halves are separate steps, so sequences of steps are the interleavings of all callers.
  A caller's clock is read once, before the look-up, and used for both halves.
\<close>

section \<open>Keys\<close>

record response_cache_config =
  rcc_ttl :: duration
  rcc_max_entries :: nat

definition response_cache_config_default :: response_cache_config where
  "response_cache_config_default = \<lparr>rcc_ttl = 3600 * SECS, rcc_max_entries = 1000\<rparr>"

definition to_le_bytes :: "u32 \<Rightarrow> string" where
  "to_le_bytes w = map (\<lambda>k. char_of (unat w div 256 ^ k mod 256)) [0..<4]"

text \<open>What is fed to the hash.\<close>

definition key_material :: "(chat_message list \<Rightarrow> string option) \<Rightarrow> string \<Rightarrow> completion_request \<Rightarrow> string" where
  "key_material to_json model request =
     model @ ''|'' @
     (case to_json (cr_messages request) of Some json \<Rightarrow> json | None \<Rightarrow> []) @ ''|'' @
     (case cr_max_tokens request of Some m \<Rightarrow> to_le_bytes m | None \<Rightarrow> []) @ ''|'' @
     (case cr_temperature request of Some t \<Rightarrow> to_le_bytes t | None \<Rightarrow> []) @ ''|'' @
     (case cr_stop_sequences request of
        Some stops \<Rightarrow> concat (map (\<lambda>s. s @ [CHR 0x00]) stops)
      | None \<Rightarrow> [])"

definition cache_key ::
  "(string \<Rightarrow> string) \<Rightarrow> (chat_message list \<Rightarrow> string option) \<Rightarrow> string \<Rightarrow> completion_request \<Rightarrow> string" where
  "cache_key sha256 to_json model request = sha256 (key_material to_json model request)"

section \<open>The cache\<close>

record cache_entry =
  ce_response :: completion_response
  ce_created_at :: instant
  ce_last_accessed :: instant
  ce_hit_count :: nat

type_synonym response_cache = "(string \<times> cache_entry) list"

lemma set_delete_alist: "set (AList.delete k al) = {x \<in> set al. fst x \<noteq> k}"
  by (auto simp: AList.delete_eq)

lemma length_delete_less: "(k, e) \<in> set al \<Longrightarrow> length (AList.delete k al) < length al"
  unfolding AList.delete_eq by (rule length_filter_less) auto

function evict_lru :: "nat \<Rightarrow> response_cache \<Rightarrow> response_cache" where
  "evict_lru max_entries cache =
     (if length cache \<ge> max_entries
      then case min_by_key (\<lambda>(_, entry). ce_last_accessed entry) cache of
             Some (k, _) \<Rightarrow> evict_lru max_entries (AList.delete k cache)
           | None \<Rightarrow> cache
      else cache)"
  by pat_completeness auto
termination
proof (relation "measure (\<lambda>(m, cache). length cache)")
  fix m :: nat and cache :: response_cache and p k and e :: cache_entry
  assume "min_by_key (\<lambda>(_, entry). ce_last_accessed entry) cache = Some p" "(k, e) = p"
  then have ke: "(k, e) \<in> set cache" using min_by_key_min [of "\<lambda>(_, entry). ce_last_accessed entry" cache p] by simp
  from length_delete_less [OF ke] show "((m, AList.delete k cache), (m, cache)) \<in> measure (\<lambda>(m, cache). length cache)"
    by simp
qed simp

declare evict_lru.simps [simp del]

definition cache_lookup ::
  "response_cache_config \<Rightarrow> instant \<Rightarrow> string \<Rightarrow> response_cache \<Rightarrow> response_cache \<times> completion_response option" where
  "cache_lookup config now key cache =
     (case map_of cache key of
        Some entry \<Rightarrow>
          if now - ce_created_at entry < rcc_ttl config
          then (AList.update key (entry\<lparr>ce_last_accessed := now, ce_hit_count := ce_hit_count entry + 1\<rparr>) cache,
                Some (ce_response entry))
          else (AList.delete key cache, None)
      | None \<Rightarrow> (cache, None))"

definition cache_store ::
  "response_cache_config \<Rightarrow> instant \<Rightarrow> string \<Rightarrow> completion_response \<Rightarrow> response_cache \<Rightarrow> response_cache" where
  "cache_store config now key response cache =
     (let fresh = filter (\<lambda>(_, entry). now - ce_created_at entry < rcc_ttl config) cache;
          kept = evict_lru (rcc_max_entries config) fresh
      in AList.update key \<lparr>ce_response = response, ce_created_at = now, ce_last_accessed = now, ce_hit_count = 0\<rparr> kept)"

text \<open>A call that nothing else interrupts; the provider's answer is an argument.\<close>

definition cached_complete ::
  "(string \<Rightarrow> string) \<Rightarrow> (chat_message list \<Rightarrow> string option) \<Rightarrow> response_cache_config \<Rightarrow> string \<Rightarrow>
   (completion_request \<Rightarrow> (llm_error, completion_response) result) \<Rightarrow> instant \<Rightarrow> completion_request \<Rightarrow>
   response_cache \<Rightarrow> response_cache \<times> (llm_error, completion_response) result" where
  "cached_complete sha256 to_json config model inner now request cache =
     (let key = cache_key sha256 to_json model request in
      case cache_lookup config now key cache of
        (cache', Some response) \<Rightarrow> (cache', Ok response)
      | (cache', None) \<Rightarrow>
          (case inner request of
             Err e \<Rightarrow> (cache', Err e)
           | Ok response \<Rightarrow> (cache_store config now key response cache', Ok response)))"

definition total_hits :: "response_cache \<Rightarrow> nat" where
  "total_hits cache = sum_list (map (\<lambda>(_, e). ce_hit_count e) cache)"

definition cache_clear :: "response_cache \<Rightarrow> response_cache" where
  "cache_clear cache = []"

section \<open>Eviction\<close>

lemma distinct_delete_alist: "distinct (map fst al) \<Longrightarrow> distinct (map fst (AList.delete k al))"
  by (rule distinct_delete)

lemma evict_lru_bound: "length (evict_lru m cache) < m \<or> evict_lru m cache = []"
proof (induction m cache rule: evict_lru.induct)
  case (1 m cache)
  show ?case
  proof (cases "length cache \<ge> m \<and> cache \<noteq> []")
    case True
    then obtain k e where "min_by_key (\<lambda>(_, entry). ce_last_accessed entry) cache = Some (k, e)"
      by (metis min_by_key_None not_None_eq surj_pair)
    with 1 True show ?thesis by (subst (1 2) evict_lru.simps) simp
  next
    case False
    then show ?thesis by (subst (1 2) evict_lru.simps) auto
  qed
qed

text \<open>What is evicted was used no later than anything that stays.\<close>

lemma evict_lru_oldest:
  "distinct (map fst cache) \<Longrightarrow>
   set (evict_lru m cache) \<subseteq> set cache \<and> distinct (map fst (evict_lru m cache)) \<and>
   (\<forall>(k, e) \<in> set cache - set (evict_lru m cache). \<forall>(k', e') \<in> set (evict_lru m cache). ce_last_accessed e \<le> ce_last_accessed e')"
proof (induction m cache rule: evict_lru.induct)
  case (1 m cache)
  show ?case
  proof (cases "length cache \<ge> m \<and> cache \<noteq> []")
    case False
    then have "evict_lru m cache = cache" by (subst evict_lru.simps) auto
    with 1 show ?thesis by auto
  next
    case True
    then obtain k e where min: "min_by_key (\<lambda>(_, entry). ce_last_accessed entry) cache = Some (k, e)"
      by (metis min_by_key_None not_None_eq surj_pair)
    with True have unfold: "evict_lru m cache = evict_lru m (AList.delete k cache)" by (subst evict_lru.simps) simp
    from "1.IH" [OF _ min refl] True distinct_delete_alist [OF "1.prems"]
    have IH: "set (evict_lru m cache) \<subseteq> set (AList.delete k cache) \<and> distinct (map fst (evict_lru m cache)) \<and>
        (\<forall>(k, e) \<in> set (AList.delete k cache) - set (evict_lru m cache). \<forall>(k', e') \<in> set (evict_lru m cache).
           ce_last_accessed e \<le> ce_last_accessed e')"
      unfolding unfold by blast
    have first: "(k, e) \<in> set cache" "\<forall>(k', e') \<in> set cache. ce_last_accessed e \<le> ce_last_accessed e'"
      using min_by_key_min [OF min] by (auto simp: split_beta)
    have same: "e' = e" if "(k, e') \<in> set cache" for e'
      using that first(1) "1.prems" by (metis eq_key_imp_eq_value)
    have gone: "set cache - set (evict_lru m cache) \<subseteq> insert (k, e) (set (AList.delete k cache) - set (evict_lru m cache))"
    proof
      fix x assume x: "x \<in> set cache - set (evict_lru m cache)"
      show "x \<in> insert (k, e) (set (AList.delete k cache) - set (evict_lru m cache))"
      proof (cases "fst x = k")
        case True
        with x have "(k, snd x) \<in> set cache" by (metis DiffD1 prod.collapse)
        from same [OF this] True show ?thesis by (metis insertI1 prod.collapse)
      next
        case False
        with x show ?thesis by (simp add: set_delete_alist)
      qed
    qed
    have sub: "set (evict_lru m cache) \<subseteq> set cache" using IH set_delete_subset [of k cache] by (meson subset_trans)
    have "ce_last_accessed (snd x) \<le> ce_last_accessed (snd y)"
      if "x \<in> set cache - set (evict_lru m cache)" "y \<in> set (evict_lru m cache)" for x y
    proof (cases "x = (k, e)")
      case True
      with first(2) subsetD [OF sub that(2)] show ?thesis by (auto simp: split_beta)
    next
      case False
      with gone that(1) have "x \<in> set (AList.delete k cache) - set (evict_lru m cache)" by auto
      with IH that(2) show ?thesis by (auto simp: split_beta)
    qed
    with IH sub show ?thesis by (simp add: split_beta)
  qed
qed

section \<open>Interleavings\<close>

datatype cache_op = CacheLookup instant string | CacheStore instant string completion_response | CacheClear

text \<open>The cache, with all that was ever stored in it.\<close>

type_synonym cache_run = "response_cache \<times> (string \<times> instant \<times> completion_response) list"

fun cache_step :: "response_cache_config \<Rightarrow> cache_run \<Rightarrow> cache_op \<Rightarrow> cache_run" where
  "cache_step config (cache, stored) (CacheLookup now key) = (fst (cache_lookup config now key cache), stored)"
| "cache_step config (cache, stored) (CacheStore now key response) =
     (cache_store config now key response cache, stored @ [(key, now, response)])"
| "cache_step config (cache, stored) CacheClear = (cache_clear cache, stored)"

definition cache_inv :: "response_cache_config \<Rightarrow> cache_run \<Rightarrow> bool" where
  "cache_inv config r \<longleftrightarrow>
     distinct (map fst (fst r)) \<and> length (fst r) \<le> max 1 (rcc_max_entries config) \<and>
     (\<forall>(k, e) \<in> set (fst r). (k, ce_created_at e, ce_response e) \<in> set (snd r))"

lemma length_update_le: "length (AList.update k v al) \<le> Suc (length al)"
  by (induction al) auto

lemma length_update_mem: "map_of al k = Some u \<Longrightarrow> length (AList.update k v al) = length al"
  by (induction al) auto

lemma cache_lookup_inv:
  assumes "cache_inv config (cache, stored)"
  shows "cache_inv config (fst (cache_lookup config now key cache), stored)"
proof (cases "map_of cache key")
  case None
  with assms show ?thesis by (simp add: cache_lookup_def)
next
  case (Some entry)
  then have "(key, ce_created_at entry, ce_response entry) \<in> set stored"
    using assms map_of_SomeD [OF Some] by (auto simp: cache_inv_def)
  then have upd: "(k, ce_created_at e, ce_response e) \<in> set stored"
    if "(k, e) \<in> set (AList.update key (entry\<lparr>ce_last_accessed := now, ce_hit_count := ce_hit_count entry + 1\<rparr>) cache)" for k e
    using subsetD [OF set_update_subset that] assms by (auto simp: cache_inv_def)
  have del: "(k, ce_created_at e, ce_response e) \<in> set stored" if "(k, e) \<in> set (AList.delete key cache)" for k e
    using subsetD [OF set_delete_subset that] assms by (auto simp: cache_inv_def)
  from assms Some upd del length_delete_le [of key cache] show ?thesis
    by (auto simp: cache_lookup_def cache_inv_def distinct_update distinct_delete length_update_mem)
qed

lemma cache_store_inv:
  assumes "cache_inv config (cache, stored)"
  shows "cache_inv config (cache_store config now key response cache, stored @ [(key, now, response)])"
proof -
  let ?entry = "\<lparr>ce_response = response, ce_created_at = now, ce_last_accessed = now, ce_hit_count = 0\<rparr>"
  let ?fresh = "filter (\<lambda>(_, entry). now - ce_created_at entry < rcc_ttl config) cache"
  let ?kept = "evict_lru (rcc_max_entries config) ?fresh"
  have "distinct (map fst ?fresh)" using assms by (simp add: cache_inv_def distinct_map_filter)
  note kept = evict_lru_oldest [OF this, of "rcc_max_entries config"]
  have len: "length ?kept \<le> max 1 (rcc_max_entries config) - 1"
    using evict_lru_bound [of "rcc_max_entries config" ?fresh] by auto
  have "(k, ce_created_at e, ce_response e) \<in> set (stored @ [(key, now, response)])" if "(k, e) \<in> set (AList.update key ?entry ?kept)" for k e
  proof -
    from subsetD [OF set_update_subset that] have "(k, e) = (key, ?entry) \<or> (k, e) \<in> set cache" using kept by auto
    with assms show ?thesis by (auto simp: cache_inv_def)
  qed
  with len kept length_update_le [of key ?entry ?kept] show ?thesis
    by (auto simp: cache_inv_def cache_store_def Let_def distinct_update)
qed

lemma cache_step_inv: "cache_inv config r \<Longrightarrow> cache_inv config (cache_step config r e)"
  by (cases r; cases e) (simp_all add: cache_lookup_inv cache_store_inv, simp add: cache_inv_def cache_clear_def)

interpretation response_cache: inv_machine "cache_step config" "cache_inv config" for config
  by unfold_locales (rule cache_step_inv)

section \<open>Properties\<close>

text \<open>The cache is bounded and serves only what is fresh.  However the look-ups, stores and clears of concurrent callers
  interleave, the cache has one entry per key and at most its maximum of entries (one when the maximum is zero),
  and a hit is a response that was stored under the same key by a call that began less than the time to live ago.\<close>

theorem cache_hits_fresh:
  "let r = foldl (cache_step config) ([], []) ops in
   distinct (map fst (fst r)) \<and> length (fst r) \<le> max 1 (rcc_max_entries config) \<and>
   (\<forall>now key cache' response. cache_lookup config now key (fst r) = (cache', Some response) \<longrightarrow>
      (\<exists>t. (key, t, response) \<in> set (snd r) \<and> now - t < rcc_ttl config))"
proof -
  let ?r = "foldl (cache_step config) ([], []) ops"
  have inv: "cache_inv config ?r" by (rule response_cache.run_inv) (simp add: cache_inv_def)
  have "\<exists>t. (key, t, response) \<in> set (snd ?r) \<and> now - t < rcc_ttl config"
    if "cache_lookup config now key (fst ?r) = (cache', Some response)" for now key cache' response
  proof -
    from that obtain e where e: "map_of (fst ?r) key = Some e" "now - ce_created_at e < rcc_ttl config" "ce_response e = response"
      by (auto simp: cache_lookup_def split: option.splits if_splits)
    with inv map_of_SomeD [OF e(1)] show ?thesis by (auto simp: cache_inv_def)
  qed
  with inv show ?thesis by (auto simp: cache_inv_def Let_def)
qed

definition sample_response :: completion_response where
  "sample_response = \<lparr>rs_content = ''hi'', rs_input_tokens = 1, rs_output_tokens = 1, rs_finish_reason = Stop, rs_response_id = None\<rparr>"

theorem cache_hits_fresh_witness:
  "\<exists>cache'. cache_lookup \<lparr>rcc_ttl = 10, rcc_max_entries = 2\<rparr> 9 ''k''
     (fst (foldl (cache_step \<lparr>rcc_ttl = 10, rcc_max_entries = 2\<rparr>) ([], []) [CacheStore 3 ''k'' sample_response])) = (cache', Some sample_response) \<and>
   (\<exists>t. (''k'', t, sample_response) \<in> set [(''k'', 3, sample_response)] \<and> 9 - t < (10 :: nat))"
proof -
  let ?c = "\<lparr>rcc_ttl = 10, rcc_max_entries = 2\<rparr>"
  let ?r = "foldl (cache_step ?c) ([], []) [CacheStore 3 ''k'' sample_response]"
  have r: "?r = ([(''k'', \<lparr>ce_response = sample_response, ce_created_at = 3, ce_last_accessed = 3, ce_hit_count = 0\<rparr>)],
      [(''k'', 3, sample_response)])"
    by (simp add: cache_store_def evict_lru.simps)
  then have hit: "\<exists>cache'. cache_lookup ?c 9 ''k'' (fst ?r) = (cache', Some sample_response)" by (simp add: cache_lookup_def)
  with cache_hits_fresh [of ?c "[CacheStore 3 ''k'' sample_response]"] r show ?thesis by (simp add: Let_def)
qed

text \<open>The fields of a key are not told apart: a request that sets only the token limit can feed the hash the same
  bytes as one that sets only the temperature, so a digest without collisions still gives both one key.\<close>

theorem cache_key_ambiguous:
  "cache_key sha256 to_json model \<lparr>cr_messages = ms, cr_max_tokens = Some 124, cr_temperature = None, cr_stop_sequences = st, cr_metadata = md\<rparr> =
   cache_key sha256 to_json model \<lparr>cr_messages = ms, cr_max_tokens = None, cr_temperature = Some 0x7C000000, cr_stop_sequences = st, cr_metadata = md\<rparr>"
proof -
  have "to_le_bytes 124 = [CHR ''|'', CHR 0x00, CHR 0x00, CHR 0x00]" "to_le_bytes 0x7C000000 = [CHR 0x00, CHR 0x00, CHR 0x00, CHR ''|'']"
    by (simp_all add: to_le_bytes_def upt_rec char_of_def bit_iff_odd)
  then show ?thesis by (simp add: cache_key_def key_material_def)
qed

end
