(* ===== verification/Retry.thy ===== *)
theory Retry
  imports Prelude
begin

text \<open>
  \<^verbatim>\<open>src/src/llm/retry.rs\<close>: which statuses are retried, and the delay before a retry.  The arithmetic is that
  of the source, at 64 bits: saturating in the base, then signed; the random offset is an argument.
\<close>

definition is_retryable_status :: "nat \<Rightarrow> bool" where
  "is_retryable_status status \<longleftrightarrow> status \<in> {429, 500, 502, 503, 504}"

definition saturating_pow2 :: "u32 \<Rightarrow> u64" where
  "saturating_pow2 attempt = (if 2 ^ unat attempt \<ge> (2 ^ 64 :: nat) then - 1 else of_nat (2 ^ unat attempt))"

definition saturating_mul :: "u64 \<Rightarrow> u64 \<Rightarrow> u64" where
  "saturating_mul a b = (if unat a * unat b \<ge> 2 ^ 64 then - 1 else a * b)"

definition backoff_base_ms :: "u32 \<Rightarrow> u64" where
  "backoff_base_ms attempt = saturating_mul 1000 (saturating_pow2 attempt)"

text \<open>The largest offset that may be drawn.\<close>

definition jitter_range :: "u32 \<Rightarrow> u64" where
  "jitter_range attempt = backoff_base_ms attempt div 4"

text \<open>\<open>as i64\<close> reads the bits as a signed number; the sum is signed and wraps in release builds.\<close>

definition retry_backoff_delay_ms :: "u32 \<Rightarrow> u64 \<Rightarrow> u64" where
  "retry_backoff_delay_ms attempt offset =
     (let base_ms = backoff_base_ms attempt;
          jr = jitter_range attempt;
          jitter = (if jr > 0 then offset - jr else 0);
          sum = base_ms + jitter
      in if sint sum < 100 then 100 else sum)"

lemma saturating_pow2_exact: "unat attempt \<le> 63 \<Longrightarrow> unat (saturating_pow2 attempt) = 2 ^ unat attempt"
proof -
  assume "unat attempt \<le> 63"
  then have "(2::nat) ^ unat attempt \<le> 2 ^ 63" by (intro power_increasing) simp_all
  then have "(2::nat) ^ unat attempt < 2 ^ LENGTH(64)" by simp
  from unat_of_nat_small [OF this] this show ?thesis by (simp add: saturating_pow2_def del: of_nat_power)
qed

lemma backoff_base_exact: "unat attempt \<le> 54 \<Longrightarrow> unat (backoff_base_ms attempt) = 1000 * 2 ^ unat attempt"
proof -
  assume a: "unat attempt \<le> 54"
  then have "(2::nat) ^ unat attempt \<le> 2 ^ 54" by (intro power_increasing) simp_all
  with a saturating_pow2_exact [of attempt] show ?thesis
    by (simp add: backoff_base_ms_def saturating_mul_def unat_mult_lem [THEN iffD1])
qed

lemma backoff_base_saturated: "unat attempt \<ge> 55 \<Longrightarrow> backoff_base_ms attempt = - 1"
proof (cases "unat attempt \<le> 63")
  case True
  assume "unat attempt \<ge> 55"
  then have "(2::nat) ^ 55 \<le> 2 ^ unat attempt" by (intro power_increasing) simp_all
  with saturating_pow2_exact [OF True] show ?thesis by (simp add: backoff_base_ms_def saturating_mul_def)
next
  case False
  then have "(2::nat) ^ 64 \<le> 2 ^ unat attempt" by (intro power_increasing) simp_all
  then show ?thesis by (simp add: backoff_base_ms_def saturating_mul_def saturating_pow2_def unsigned_minus_1_eq_mask mask_eq_exp_minus_1)
qed

lemma sint_small: "unat w < 2 ^ 63 \<Longrightarrow> sint (w :: u64) = int (unat w)"
proof -
  assume "unat w < 2 ^ 63"
  then have "int (unat w) < int (2 ^ 63)" by (simp only: of_nat_less_iff)
  then have "int (unat w) < 2 ^ 63" by (simp only: of_nat_power of_nat_numeral)
  then have "signed_take_bit 63 (int (unat w)) = int (unat w)" by (intro signed_take_bit_int_eq_self) linarith+
  then show ?thesis using sint_sbintrunc' [where 'a = 64 and bin = "int (unat w)"] by simp
qed

text \<open>The delay doubles with each attempt, within a quarter: up to attempt 52 it lies between three quarters and
  five quarters of the base, whatever offset is drawn.  From attempt 55 on the base has saturated and reads as a
  negative number, so that an offset below the middle gives the least delay of a tenth of a second.\<close>

theorem backoff_bounds:
  "(unat attempt \<le> 52 \<and> offset \<le> 2 * jitter_range attempt \<longrightarrow>
      750 * 2 ^ unat attempt \<le> unat (retry_backoff_delay_ms attempt offset) \<and>
      unat (retry_backoff_delay_ms attempt offset) \<le> 1250 * 2 ^ unat attempt) \<and>
   (unat attempt \<ge> 55 \<and> offset \<le> jitter_range attempt \<longrightarrow> retry_backoff_delay_ms attempt offset = 100)"
proof (intro conjI impI; elim conjE)
  assume a: "unat attempt \<le> 52" and off: "offset \<le> 2 * jitter_range attempt"
  let ?p = "(2::nat) ^ unat attempt"
  have p: "?p \<le> 2 ^ 52" "1 \<le> ?p" using a power_increasing [of "unat attempt" 52 "2 :: nat"] by simp_all
  have base: "unat (backoff_base_ms attempt) = 1000 * ?p" using a backoff_base_exact by simp
  then have jr: "unat (jitter_range attempt) = 250 * ?p" by (simp add: jitter_range_def unat_div)
  have jr2: "unat (2 * jitter_range attempt) = 500 * ?p"
    using jr p by (simp add: unat_mult_lem [THEN iffD1])
  have off': "unat offset \<le> 500 * ?p" using off jr2 by (simp add: word_le_nat_alt)
  have pos: "jitter_range attempt > 0" using jr p by (simp add: word_gt_0 unat_eq_zero [symmetric])
  have sum: "unat (backoff_base_ms attempt + (offset - jitter_range attempt)) = 750 * ?p + unat offset"
  proof -
    have d: "unat (backoff_base_ms attempt - jitter_range attempt) = 750 * ?p"
      using base jr by (simp add: unat_sub word_le_nat_alt)
    have "unat ((backoff_base_ms attempt - jitter_range attempt) + offset) = 750 * ?p + unat offset"
      using d off' p unat_add_lem [of "backoff_base_ms attempt - jitter_range attempt" offset] by simp
    then show ?thesis by (simp add: algebra_simps)
  qed
  have "sint (backoff_base_ms attempt + (offset - jitter_range attempt)) = int (750 * ?p + unat offset)"
    using sum off' p sint_small [of "backoff_base_ms attempt + (offset - jitter_range attempt)"] by simp
  then have "\<not> sint (backoff_base_ms attempt + (offset - jitter_range attempt)) < 100" using p(2) by linarith
  with sum off' p pos show "750 * 2 ^ unat attempt \<le> unat (retry_backoff_delay_ms attempt offset)"
    "unat (retry_backoff_delay_ms attempt offset) \<le> 1250 * 2 ^ unat attempt"
    by (simp_all add: retry_backoff_delay_ms_def Let_def)
next
  assume a: "unat attempt \<ge> 55" and off: "offset \<le> jitter_range attempt"
  have jr: "jitter_range attempt = 2 ^ 62 - 1" using backoff_base_saturated [OF a] by (simp add: jitter_range_def)
  define d where "d = unat (jitter_range attempt - offset)"
  have d: "d \<le> 2 ^ 62 - 1" using off by (simp add: d_def unat_sub jr)
  have "backoff_base_ms attempt + (offset - jitter_range attempt) = word_of_int (- 1 - int d)"
    using backoff_base_saturated [OF a] by (simp add: d_def)
  then have "sint (backoff_base_ms attempt + (offset - jitter_range attempt)) = - 1 - int d"
    using d by (simp only: sint_sbintrunc') (simp add: signed_take_bit_int_eq_self)
  then show "retry_backoff_delay_ms attempt offset = 100" using jr by (simp add: retry_backoff_delay_ms_def Let_def)
qed

theorem backoff_bounds_witness:
  "3000 \<le> unat (retry_backoff_delay_ms 2 700) \<and> unat (retry_backoff_delay_ms 2 700) \<le> 5000 \<and> retry_backoff_delay_ms 60 7 = 100"
proof -
  have "jitter_range 2 = 1000" "jitter_range 60 = 2 ^ 62 - 1"
    using backoff_base_saturated [of 60] by (simp_all add: jitter_range_def) (simp add: backoff_base_ms_def saturating_mul_def saturating_pow2_def)
  then show ?thesis using backoff_bounds [of 2 700] backoff_bounds [of 60 7] by (simp add: word_le_nat_alt)
qed

end
