(* ===== verification/Credentials.thy ===== *)
theory Credentials
  imports Allowlist
begin

text \<open>
  The credential injector of the WASM host, \<^verbatim>\<open>src/src/tools/wasm/credential_injector.rs\<close>: which secrets a request
  to a host carries, and where.  The store of secrets is a function from user and name to a secret or an
  error.  The mappings are a \<open>HashMap\<close>, so their order is arbitrary.
\<close>

unbundle bit_operations_syntax

section \<open>Data\<close>

datatype secret_error =
    SecretMissing string
  | SecretHasExpired
  | DecryptionError string
  | EncryptionError string
  | InvalidMasterKey
  | InvalidUtf8
  | DatabaseError string
  | SecretAccessDenied
  | KeychainError string

fun secret_error_display :: "secret_error \<Rightarrow> string" where
  "secret_error_display (SecretMissing n) = ''Secret not found: '' @ n"
| "secret_error_display SecretHasExpired = ''Secret has expired''"
| "secret_error_display (DecryptionError m) = ''Decryption failed: '' @ m"
| "secret_error_display (EncryptionError m) = ''Encryption failed: '' @ m"
| "secret_error_display InvalidMasterKey = ''Invalid master key''"
| "secret_error_display InvalidUtf8 = ''Secret value is not valid UTF-8''"
| "secret_error_display (DatabaseError m) = ''Database error: '' @ m"
| "secret_error_display SecretAccessDenied = ''Secret access denied for tool''"
| "secret_error_display (KeychainError m) = ''Keychain error: '' @ m"

datatype credential_location =
    AuthorizationBearer
  | AuthorizationBasic string
  | HeaderLoc string "string option"
  | QueryParam string
  | UrlPath string

record credential_mapping =
  cm_secret_name :: string
  cm_location :: credential_location
  cm_host_patterns :: "string list"

datatype injection_error =
    InjSecretNotFound string
  | InjAccessDenied string
  | InjSecretExpired string
  | InjDecryptionFailed string
  | NoMatchingCredential string

record injected_credentials =
  ic_headers :: "(string \<times> string) list"
  ic_query_params :: "(string \<times> string) list"

definition injected_empty :: injected_credentials where
  "injected_empty = \<lparr>ic_headers = [], ic_query_params = []\<rparr>"

record credential_injector =
  ci_mappings :: "(string \<times> credential_mapping) list"
  ci_allowed_secrets :: "string list"

section \<open>Base64\<close>

definition ALPHABET :: string where
  "ALPHABET = ''ABCDEFGHIJKLMNOPQRSTUVWXYZabcdefghijklmnopqrstuvwxyz0123456789+/''"

definition byte :: "char \<Rightarrow> u8" where
  "byte c = of_nat (char_code c)"

definition sextets :: "u8 \<Rightarrow> u8 \<Rightarrow> u8 \<Rightarrow> u8 list" where
  "sextets b0 b1 b2 =
     [drop_bit 2 b0, push_bit 4 (b0 AND 0x03) OR drop_bit 4 b1,
      push_bit 2 (b1 AND 0x0F) OR drop_bit 6 b2, b2 AND 0x3F]"

text \<open>One round of the loop takes up to three bytes; missing bytes count as zero and print as padding.\<close>

fun base64_encode :: "string \<Rightarrow> string" where
  "base64_encode [] = []"
| "base64_encode [c0] =
     (let s = sextets (byte c0) 0 0 in [ALPHABET ! unat (s ! 0), ALPHABET ! unat (s ! 1), CHR ''='', CHR ''=''])"
| "base64_encode [c0, c1] =
     (let s = sextets (byte c0) (byte c1) 0 in
      [ALPHABET ! unat (s ! 0), ALPHABET ! unat (s ! 1), ALPHABET ! unat (s ! 2), CHR ''=''])"
| "base64_encode (c0 # c1 # c2 # cs) =
     (let s = sextets (byte c0) (byte c1) (byte c2) in
      [ALPHABET ! unat (s ! 0), ALPHABET ! unat (s ! 1), ALPHABET ! unat (s ! 2), ALPHABET ! unat (s ! 3)] @ base64_encode cs)"

section \<open>Injection\<close>

text \<open>\<open>host_matches_pattern\<close> has the body of the allowlist's check, with its arguments the other way round.\<close>

definition host_matches_pattern :: "string \<Rightarrow> string \<Rightarrow> bool" where
  "host_matches_pattern host pattern =
     (if pattern = host then True
      else case strip_prefix pattern ''*.'' of
        Some sfx \<Rightarrow>
          if ends_with host sfx \<and> length host > length sfx
          then let pfx = take (length host - length sfx) host in ends_with pfx ''.'' \<or> pfx = []
          else False
      | None \<Rightarrow> False)"

definition find_credentials_for_host :: "credential_injector \<Rightarrow> string \<Rightarrow> credential_mapping list" where
  "find_credentials_for_host ci host =
     filter (\<lambda>m. list_ex (host_matches_pattern host) (cm_host_patterns m)) (map snd (ci_mappings ci))"

definition is_secret_allowed :: "credential_injector \<Rightarrow> string \<Rightarrow> bool" where
  "is_secret_allowed ci name =
     list_ex (\<lambda>pattern. pattern = name \<or>
       (case strip_suffix pattern ''*'' of Some pfx \<Rightarrow> starts_with name pfx | None \<Rightarrow> False)) (ci_allowed_secrets ci)"

definition inject_credential :: "injected_credentials \<Rightarrow> credential_location \<Rightarrow> string \<Rightarrow> injected_credentials" where
  "inject_credential result location secret =
     (case location of
        AuthorizationBearer \<Rightarrow>
          result\<lparr>ic_headers := AList.update ''Authorization'' (''Bearer '' @ secret) (ic_headers result)\<rparr>
      | AuthorizationBasic username \<Rightarrow>
          result\<lparr>ic_headers := AList.update ''Authorization''
            (''Basic '' @ base64_encode (username @ '':'' @ secret)) (ic_headers result)\<rparr>
      | HeaderLoc name pfx \<Rightarrow>
          result\<lparr>ic_headers := AList.update name ((case pfx of Some p \<Rightarrow> p | None \<Rightarrow> []) @ secret) (ic_headers result)\<rparr>
      | QueryParam name \<Rightarrow>
          result\<lparr>ic_query_params := AList.update name secret (ic_query_params result)\<rparr>
      | UrlPath _ \<Rightarrow> result)"

fun inject_all ::
  "(string \<Rightarrow> string \<Rightarrow> (secret_error, string) result) \<Rightarrow> credential_injector \<Rightarrow> string \<Rightarrow>
   injected_credentials \<Rightarrow> credential_mapping list \<Rightarrow> (injection_error, injected_credentials) result" where
  "inject_all get_decrypted ci user_id result [] = Ok result"
| "inject_all get_decrypted ci user_id result (m # ms) =
     (if \<not> is_secret_allowed ci (cm_secret_name m) then Err (InjAccessDenied (cm_secret_name m))
      else case get_decrypted user_id (cm_secret_name m) of
        Err (SecretMissing name) \<Rightarrow> Err (InjSecretNotFound name)
      | Err SecretHasExpired \<Rightarrow> Err (InjSecretExpired (cm_secret_name m))
      | Err e \<Rightarrow> Err (InjDecryptionFailed (secret_error_display e))
      | Ok secret \<Rightarrow> inject_all get_decrypted ci user_id (inject_credential result (cm_location m) secret) ms)"

definition inject ::
  "(string \<Rightarrow> string \<Rightarrow> (secret_error, string) result) \<Rightarrow> credential_injector \<Rightarrow> string \<Rightarrow> string \<Rightarrow>
   (injection_error, injected_credentials) result" where
  "inject get_decrypted ci user_id host =
     (let matching_mappings = find_credentials_for_host ci host
      in if matching_mappings = [] then Ok injected_empty
         else inject_all get_decrypted ci user_id injected_empty matching_mappings)"

section \<open>What is injected\<close>

lemma host_matches_pattern_eq: "host_matches_pattern host pattern = host_matches pattern host"
  by (auto simp: host_matches_pattern_def host_matches_def Let_def split: option.splits)

text \<open>The header or parameter a mapping gives for its secret.\<close>

fun header_of :: "credential_location \<Rightarrow> string \<Rightarrow> (string \<times> string) option" where
  "header_of AuthorizationBearer s = Some (''Authorization'', ''Bearer '' @ s)"
| "header_of (AuthorizationBasic u) s = Some (''Authorization'', ''Basic '' @ base64_encode (u @ '':'' @ s))"
| "header_of (HeaderLoc n p) s = Some (n, (case p of Some p \<Rightarrow> p | None \<Rightarrow> []) @ s)"
| "header_of _ s = None"

fun query_of :: "credential_location \<Rightarrow> string \<Rightarrow> (string \<times> string) option" where
  "query_of (QueryParam n) s = Some (n, s)"
| "query_of _ s = None"

lemma inject_credential_sets:
  "set (ic_headers (inject_credential r l s)) \<subseteq> set (ic_headers r) \<union> set_option (header_of l s)"
  "set (ic_query_params (inject_credential r l s)) \<subseteq> set (ic_query_params r) \<union> set_option (query_of l s)"
  using set_update_subset by (cases l; force simp: inject_credential_def)+

text \<open>Injection succeeds exactly if every matching mapping is allowed and its secret can be read, and then everything
  in the request comes from such a mapping.\<close>

lemma inject_all_Ok:
  "(\<exists>r'. inject_all get ci u r ms = Ok r') \<longleftrightarrow> (\<forall>m \<in> set ms. is_secret_allowed ci (cm_secret_name m) \<and> (\<exists>s. get u (cm_secret_name m) = Ok s))"
proof (induction ms arbitrary: r)
  case (Cons m ms)
  then show ?case
    by (cases "get u (cm_secret_name m)") (auto split: secret_error.splits)
qed simp

lemma inject_all_sources:
  "inject_all get ci u r ms = Ok r' \<Longrightarrow>
   (\<forall>h \<in> set (ic_headers r'). h \<in> set (ic_headers r) \<or>
      (\<exists>m \<in> set ms. \<exists>s. get u (cm_secret_name m) = Ok s \<and> header_of (cm_location m) s = Some h)) \<and>
   (\<forall>q \<in> set (ic_query_params r'). q \<in> set (ic_query_params r) \<or>
      (\<exists>m \<in> set ms. \<exists>s. get u (cm_secret_name m) = Ok s \<and> query_of (cm_location m) s = Some q))"
proof (induction ms arbitrary: r)
  case (Cons m ms)
  then obtain s where s: "get u (cm_secret_name m) = Ok s" "inject_all get ci u (inject_credential r (cm_location m) s) ms = Ok r'"
    by (cases "get u (cm_secret_name m)") (auto split: if_splits secret_error.splits)
  from Cons.IH [OF s(2)] inject_credential_sets [of r "cm_location m" s] s(1) show ?case by fastforce
qed simp

section \<open>Base64 can be read back\<close>

lemma unat_shifted: "j + k \<le> 8 \<Longrightarrow> unat (push_bit k (b AND mask j :: u8)) = unat b mod 2 ^ j * 2 ^ k"
proof -
  assume "j + k \<le> 8"
  have "unat b mod 2 ^ j * 2 ^ k < 2 ^ (j + k)" by (simp add: power_add)
  also have "(2::nat) ^ (j + k) \<le> 2 ^ 8" using \<open>j + k \<le> 8\<close> by (intro power_increasing) simp_all
  finally have small: "unat b mod 2 ^ j * 2 ^ k < 2 ^ 8" .
  have "unat (push_bit k (b AND mask j)) = take_bit 8 (push_bit k (take_bit j (unat b)))"
    unfolding take_bit_eq_mask [symmetric] unsigned_push_bit_eq unsigned_take_bit_eq by simp
  with small show ?thesis by (simp add: take_bit_eq_mod push_bit_eq_mult)
qed

lemma or_shift:
  assumes "j + k \<le> 8"
  shows "unat (push_bit k (b AND mask j) OR drop_bit (8 - k) (c :: u8)) = unat b mod 2 ^ j * 2 ^ k + unat c div 2 ^ (8 - k)"
proof -
  have disj: "push_bit k (b AND mask j) AND drop_bit (8 - k) c = 0"
    by (rule bit_word_eqI) (auto simp: bit_simps dest: bit_imp_le_length)
  have "unat (push_bit k (b AND mask j) OR drop_bit (8 - k) c) = unat (push_bit k (b AND mask j)) OR unat (drop_bit (8 - k) c)"
    by (simp add: unsigned_or_eq)
  also have "\<dots> = unat (push_bit k (b AND mask j)) + unat (drop_bit (8 - k) c)"
    using arg_cong [OF disj, of unat] by (simp add: disjunctive_add_eq_or unsigned_and_eq)
  finally show ?thesis unfolding unat_shifted [OF assms, of b] unat_drop_bit_eq by (simp add: drop_bit_eq_div)
qed

lemma unat_sextets:
  "map unat (sextets b0 b1 b2) =
     [unat b0 div 4, unat b0 mod 4 * 16 + unat b1 div 16, unat b1 mod 16 * 4 + unat b2 div 64, unat b2 mod 64]"
proof -
  have m: "mask 2 = (0x03 :: u8)" "mask 4 = (0x0F :: u8)" "mask 6 = (0x3F :: u8)" by (simp_all add: mask_eq_exp_minus_1)
  have "unat (drop_bit 2 b0) = unat b0 div 4" unfolding unat_drop_bit_eq by (simp add: drop_bit_eq_div)
  moreover have "unat (b2 AND 0x3F) = unat b2 mod 64" using unat_shifted [of 6 0 b2] by (simp add: m)
  ultimately show ?thesis
    using or_shift [of 2 4 b0 b1] or_shift [of 4 2 b1 b2] unfolding sextets_def m by simp
qed

text \<open>A decoder, as a reference.\<close>

definition sextet_of :: "char \<Rightarrow> nat option" where
  "sextet_of c = position (\<lambda>x. x = c) ALPHABET"

fun base64_decode :: "string \<Rightarrow> string option" where
  "base64_decode [] = Some []"
| "base64_decode (a # b # c # d # cs) =
     (case (sextet_of a, sextet_of b) of
        (Some i, Some j) \<Rightarrow>
          if c = CHR ''='' \<and> d = CHR ''='' \<and> cs = [] then Some [char_of (i * 4 + j div 16)]
          else (case sextet_of c of
            None \<Rightarrow> None
          | Some k \<Rightarrow>
              if d = CHR ''='' \<and> cs = [] then Some [char_of (i * 4 + j div 16), char_of (j mod 16 * 16 + k div 4)]
              else (case (sextet_of d, base64_decode cs) of
                (Some l, Some r) \<Rightarrow>
                  Some (char_of (i * 4 + j div 16) # char_of (j mod 16 * 16 + k div 4) # char_of (k mod 4 * 64 + l) # r)
              | _ \<Rightarrow> None))
      | _ \<Rightarrow> None)"
| "base64_decode _ = None"

lemma position_nth: "distinct xs \<Longrightarrow> i < length xs \<Longrightarrow> position (\<lambda>x. x = xs ! i) xs = Some i"
proof (induction xs arbitrary: i)
  case (Cons x xs)
  then show ?case by (cases i) (auto simp: nth_mem)
qed simp

lemma ALPHABET_facts: "distinct ALPHABET" "length ALPHABET = 64" "CHR ''='' \<notin> set ALPHABET"
  by code_simp+

lemma sextet_of_nth: "i < 64 \<Longrightarrow> sextet_of (ALPHABET ! i) = Some i"
  unfolding sextet_of_def by (rule position_nth) (simp_all add: ALPHABET_facts)

lemma alphabet_no_pad: "i < 64 \<Longrightarrow> ALPHABET ! i \<noteq> CHR ''=''"
  using ALPHABET_facts by (metis nth_mem)

lemma char_of_byte: "char_of (unat (byte c)) = c"
  using char_code_lt [of c] by (simp add: byte_def unat_of_nat_small char_code_def)

lemma sextets_range:
  "unat (sextets b0 b1 b2 ! 0) = unat b0 div 4" "unat (sextets b0 b1 b2 ! 1) = unat b0 mod 4 * 16 + unat b1 div 16"
  "unat (sextets b0 b1 b2 ! 2) = unat b1 mod 16 * 4 + unat b2 div 64" "unat (sextets b0 b1 b2 ! 3) = unat b2 mod 64"
  "unat (sextets b0 b1 b2 ! 0) < 64" "unat (sextets b0 b1 b2 ! 1) < 64" "unat (sextets b0 b1 b2 ! 2) < 64" "unat (sextets b0 b1 b2 ! 3) < 64"
proof -
  have l: "length (sextets b0 b1 b2) = 4" by (simp add: sextets_def)
  note nths = unat_sextets [THEN arg_cong, of "\<lambda>xs. xs ! k" b0 b1 b2 for k]
  show eqs: "unat (sextets b0 b1 b2 ! 0) = unat b0 div 4" "unat (sextets b0 b1 b2 ! 1) = unat b0 mod 4 * 16 + unat b1 div 16"
    "unat (sextets b0 b1 b2 ! 2) = unat b1 mod 16 * 4 + unat b2 div 64" "unat (sextets b0 b1 b2 ! 3) = unat b2 mod 64"
    using nths [of 0] nths [of 1] nths [of 2] nths [of 3] by (simp_all add: l)
  have "unat b0 < 256" "unat b1 < 256" "unat b2 < 256"
    using unat_lt_2p [of b0] unat_lt_2p [of b1] unat_lt_2p [of b2] by simp_all
  then have "unat b0 div 4 < 64" "unat b1 div 16 < 16" "unat b2 div 64 < 4" by simp_all
  moreover have "unat b0 mod 4 < 4" "unat b1 mod 16 < 16" by simp_all
  ultimately show "unat (sextets b0 b1 b2 ! 0) < 64" "unat (sextets b0 b1 b2 ! 1) < 64" "unat (sextets b0 b1 b2 ! 2) < 64"
    "unat (sextets b0 b1 b2 ! 3) < 64"
    unfolding eqs by simp_all
qed

lemmas sextet_simps = sextets_range [unfolded One_nat_def]

text \<open>The bytes come back from the sextets.\<close>

lemma sextets_bytes:
  fixes n0 n1 n2 :: nat
  assumes "n0 < 256" "n1 < 256" "n2 < 256"
  shows "n0 div 4 * 4 + (n0 mod 4 * 16 + n1 div 16) div 16 = n0"
    "(n0 mod 4 * 16 + n1 div 16) mod 16 * 16 + (n1 mod 16 * 4 + n2 div 64) div 4 = n1"
    "(n1 mod 16 * 4 + n2 div 64) mod 4 * 64 + n2 mod 64 = n2"
proof -
  have "n1 div 16 < 16" "n2 div 64 < 4" using assms by simp_all
  then show "n0 div 4 * 4 + (n0 mod 4 * 16 + n1 div 16) div 16 = n0"
    "(n0 mod 4 * 16 + n1 div 16) mod 16 * 16 + (n1 mod 16 * 4 + n2 div 64) div 4 = n1"
    "(n1 mod 16 * 4 + n2 div 64) mod 4 * 64 + n2 mod 64 = n2"
    by (simp_all add: div_mult_mod_eq)
qed

lemma base64_round_trip: "base64_decode (base64_encode s) = Some s"
proof (induction s rule: base64_encode.induct)
  case 1
  then show ?case by simp
next
  case (2 c0)
  show ?case using sextets_bytes [of "unat (byte c0)" 0 0] unat_lt_2p [of "byte c0"]
    by (simp add: sextet_of_nth sextet_simps alphabet_no_pad char_of_byte)
next
  case (3 c0 c1)
  show ?case using sextets_bytes [of "unat (byte c0)" "unat (byte c1)" 0] unat_lt_2p [of "byte c0"] unat_lt_2p [of "byte c1"]
    by (simp add: sextet_of_nth sextet_simps alphabet_no_pad char_of_byte)
next
  case (4 c0 c1 c2 cs)
  show ?case using sextets_bytes [of "unat (byte c0)" "unat (byte c1)" "unat (byte c2)"] unat_lt_2p [of "byte c0"]
      unat_lt_2p [of "byte c1"] unat_lt_2p [of "byte c2"]
    by (simp add: sextet_of_nth sextet_simps alphabet_no_pad char_of_byte 4 Let_def)
qed

section \<open>Properties\<close>

text \<open>C17: Secrets go only where they belong.  Injection for a host succeeds exactly if every mapping with a pattern for the host
  names an allowed secret that can be read for the user; then every header and query parameter it adds is the rendering of
  such a mapping's own secret.\<close>

theorem injection_scoped:
  "((\<exists>r. inject get ci u host = Ok r) \<longleftrightarrow>
     (\<forall>m \<in> set (find_credentials_for_host ci host). is_secret_allowed ci (cm_secret_name m) \<and> (\<exists>s. get u (cm_secret_name m) = Ok s))) \<and>
   (\<forall>r. inject get ci u host = Ok r \<longrightarrow>
     (\<forall>h. h \<in> set (ic_headers r) \<or> h \<in> set (ic_query_params r) \<longrightarrow>
       (\<exists>m s p. m \<in> set (map snd (ci_mappings ci)) \<and> p \<in> set (cm_host_patterns m) \<and> host_matches p host \<and>
          is_secret_allowed ci (cm_secret_name m) \<and> get u (cm_secret_name m) = Ok s \<and>
          (header_of (cm_location m) s = Some h \<or> query_of (cm_location m) s = Some h))))"
proof
  let ?ms = "find_credentials_for_host ci host"
  have all: "inject get ci u host = inject_all get ci u injected_empty ?ms" by (simp add: inject_def Let_def)
  show iff: "(\<exists>r. inject get ci u host = Ok r) \<longleftrightarrow>
     (\<forall>m \<in> set ?ms. is_secret_allowed ci (cm_secret_name m) \<and> (\<exists>s. get u (cm_secret_name m) = Ok s))"
    unfolding all by (rule inject_all_Ok)
  show "\<forall>r. inject get ci u host = Ok r \<longrightarrow> (\<forall>h. h \<in> set (ic_headers r) \<or> h \<in> set (ic_query_params r) \<longrightarrow>
       (\<exists>m s p. m \<in> set (map snd (ci_mappings ci)) \<and> p \<in> set (cm_host_patterns m) \<and> host_matches p host \<and>
          is_secret_allowed ci (cm_secret_name m) \<and> get u (cm_secret_name m) = Ok s \<and>
          (header_of (cm_location m) s = Some h \<or> query_of (cm_location m) s = Some h)))"
  proof (intro allI impI)
    fix r h
    assume ok: "inject get ci u host = Ok r" and h: "h \<in> set (ic_headers r) \<or> h \<in> set (ic_query_params r)"
    from inject_all_sources [OF ok [unfolded all]] h obtain m s where ms: "m \<in> set ?ms" "get u (cm_secret_name m) = Ok s"
      "header_of (cm_location m) s = Some h \<or> query_of (cm_location m) s = Some h"
      by (auto simp: injected_empty_def)
    moreover from ms(1) obtain p where "p \<in> set (cm_host_patterns m)" "host_matches p host" "m \<in> set (map snd (ci_mappings ci))"
      by (auto simp: find_credentials_for_host_def list_ex_iff host_matches_pattern_eq)
    ultimately show "\<exists>m s p. m \<in> set (map snd (ci_mappings ci)) \<and> p \<in> set (cm_host_patterns m) \<and> host_matches p host \<and>
          is_secret_allowed ci (cm_secret_name m) \<and> get u (cm_secret_name m) = Ok s \<and>
          (header_of (cm_location m) s = Some h \<or> query_of (cm_location m) s = Some h)"
      using iff ok by blast
  qed
qed

theorem injection_scoped_witness:
  "\<exists>r. inject (\<lambda>u n. Ok ''tok'') \<lparr>ci_mappings = [(''gh'', \<lparr>cm_secret_name = ''gh_token'', cm_location = AuthorizationBearer,
      cm_host_patterns = [''*.github.com'']\<rparr>)], ci_allowed_secrets = [''gh_*'']\<rparr> ''me'' ''api.github.com'' = Ok r"
  using injection_scoped [of "\<lambda>u n. Ok ''tok''" "\<lparr>ci_mappings = [(''gh'', \<lparr>cm_secret_name = ''gh_token'', cm_location = AuthorizationBearer,
      cm_host_patterns = [''*.github.com'']\<rparr>)], ci_allowed_secrets = [''gh_*'']\<rparr>" "''me''" "''api.github.com''"]
  by (simp add: find_credentials_for_host_def is_secret_allowed_def strip_suffix_def ends_with_def starts_with_def)

text \<open>What the encoder prints can be read back: decoding gives the input again, byte for byte, for every length; so
  the header of a basic authorization carries exactly the user name and the secret.\<close>

theorem basic_credentials_decode:
  "base64_decode (base64_encode input) = Some input \<and>
   (\<exists>e. header_of (AuthorizationBasic user) secret = Some (''Authorization'', ''Basic '' @ e) \<and>
        base64_decode e = Some (user @ '':'' @ secret))"
  using base64_round_trip [of input] base64_round_trip [of "user @ '':'' @ secret"] by simp

end
