(* ===== verification/Worker_Auth.thy ===== *)
theory Worker_Auth
  imports Prelude
begin

text \<open>
  The tokens of the container workers, \<^verbatim>\<open>src/src/orchestrator/auth.rs\<close>.  The random bytes of a token and the parser of
  UUIDs are arguments; the comparison in constant time is equality.
\<close>

record credential_grant =
  cg_secret_name :: string
  cg_env_var :: string

record token_store =
  tk_tokens :: "(uuid \<times> string) list"
  tk_credential_grants :: "(uuid \<times> credential_grant list) list"

definition token_store_new :: token_store where
  "token_store_new = \<lparr>tk_tokens = [], tk_credential_grants = []\<rparr>"

definition hex_digit :: "nat \<Rightarrow> char" where
  "hex_digit n = ''0123456789abcdef'' ! n"

definition hex_byte :: "u8 \<Rightarrow> string" where
  "hex_byte b = [hex_digit (unat b div 16), hex_digit (unat b mod 16)]"

definition generate_token :: "u8 list \<Rightarrow> string" where
  "generate_token bytes = foldl (\<lambda>s b. s @ hex_byte b) [] bytes"

definition create_token :: "token_store \<Rightarrow> uuid \<Rightarrow> u8 list \<Rightarrow> token_store \<times> string" where
  "create_token ts job_id bytes =
     (let token = generate_token bytes
      in (ts\<lparr>tk_tokens := AList.update job_id token (tk_tokens ts)\<rparr>, token))"

definition validate_token :: "token_store \<Rightarrow> uuid \<Rightarrow> string \<Rightarrow> bool" where
  "validate_token ts job_id token =
     (case map_of (tk_tokens ts) job_id of Some stored \<Rightarrow> stored = token | None \<Rightarrow> False)"

definition revoke :: "token_store \<Rightarrow> uuid \<Rightarrow> token_store" where
  "revoke ts job_id =
     ts\<lparr>tk_tokens := AList.delete job_id (tk_tokens ts),
        tk_credential_grants := AList.delete job_id (tk_credential_grants ts)\<rparr>"

definition token_active_count :: "token_store \<Rightarrow> nat" where
  "token_active_count ts = length (tk_tokens ts)"

definition store_grants :: "token_store \<Rightarrow> uuid \<Rightarrow> credential_grant list \<Rightarrow> token_store" where
  "store_grants ts job_id grants =
     (if grants \<noteq> [] then ts\<lparr>tk_credential_grants := AList.update job_id grants (tk_credential_grants ts)\<rparr> else ts)"

definition get_grants :: "token_store \<Rightarrow> uuid \<Rightarrow> credential_grant list option" where
  "get_grants ts job_id = map_of (tk_credential_grants ts) job_id"

definition extract_job_id_from_path :: "(string \<Rightarrow> uuid option) \<Rightarrow> string \<Rightarrow> uuid option" where
  "extract_job_id_from_path parse_uuid path =
     (let parts = split_on (CHR ''/'') (dropWhile (\<lambda>c. c = CHR ''/'') path)
      in if length parts \<ge> 2 \<and> parts ! 0 = ''worker'' then parse_uuid (parts ! 1) else None)"

datatype status_code = BAD_REQUEST | UNAUTHORIZED

text \<open>\<open>Ok\<close>: the request goes on to its handler.\<close>

definition worker_auth_middleware ::
  "(string \<Rightarrow> uuid option) \<Rightarrow> token_store \<Rightarrow> string \<Rightarrow> string option \<Rightarrow> (status_code, unit) result" where
  "worker_auth_middleware parse_uuid ts path authorization =
     (case extract_job_id_from_path parse_uuid path of
        None \<Rightarrow> Err BAD_REQUEST
      | Some job_id \<Rightarrow>
          (case Option.bind authorization (\<lambda>v. strip_prefix v ''Bearer '') of
             None \<Rightarrow> Err UNAUTHORIZED
           | Some token \<Rightarrow> if \<not> validate_token ts job_id token then Err UNAUTHORIZED else Ok ()))"

section \<open>Tokens are as many as their bytes\<close>

lemma generate_token_concat: "generate_token bytes = concat (map hex_byte bytes)"
proof -
  have "foldl (\<lambda>s b. s @ hex_byte b) acc bytes = acc @ concat (map hex_byte bytes)" for acc
    by (induction bytes arbitrary: acc) simp_all
  then show ?thesis by (simp add: generate_token_def)
qed

lemma hex_digit_inj: "m < 16 \<Longrightarrow> n < 16 \<Longrightarrow> hex_digit m = hex_digit n \<Longrightarrow> m = n"
proof -
  have "distinct ''0123456789abcdef''" "length ''0123456789abcdef'' = 16" by simp_all
  then show "m < 16 \<Longrightarrow> n < 16 \<Longrightarrow> hex_digit m = hex_digit n \<Longrightarrow> m = n"
    unfolding hex_digit_def by (metis nth_eq_iff_index_eq)
qed

lemma hex_byte_inj: "hex_byte a = hex_byte b \<Longrightarrow> a = b"
proof -
  assume "hex_byte a = hex_byte b"
  moreover have "unat a div 16 < 16" "unat b div 16 < 16" using unat_lt_2p [of a] unat_lt_2p [of b] by simp_all
  ultimately have "unat a div 16 = unat b div 16" "unat a mod 16 = unat b mod 16"
    by (auto simp: hex_byte_def intro: hex_digit_inj)
  then have "unat a = unat b" by (metis div_mult_mod_eq)
  then show ?thesis by (simp add: word_unat_eq_iff)
qed

lemma generate_token_inj: "generate_token as = generate_token bs \<Longrightarrow> as = bs"
  unfolding generate_token_concat
proof (induction "as" arbitrary: bs)
  case Nil
  then show ?case by (cases bs) (simp_all add: hex_byte_def)
next
  case (Cons a as)
  then obtain b bs' where bs: "bs = b # bs'" by (cases bs) (simp_all add: hex_byte_def)
  with Cons.prems have "hex_byte a @ concat (map hex_byte as) = hex_byte b @ concat (map hex_byte bs')" by simp
  then have "hex_byte a = hex_byte b" "concat (map hex_byte as) = concat (map hex_byte bs')"
    by (simp_all add: hex_byte_def)
  with Cons.IH bs hex_byte_inj show ?case by blast
qed

lemma length_generate_token: "length (generate_token bytes) = 2 * length bytes"
  by (induction bytes) (simp_all add: generate_token_concat hex_byte_def)

section \<open>Histories\<close>

datatype token_op = CreateToken uuid "u8 list" | Revoke uuid | StoreGrants uuid "credential_grant list"

fun token_step :: "token_store \<Rightarrow> token_op \<Rightarrow> token_store" where
  "token_step ts (CreateToken j bytes) = fst (create_token ts j bytes)"
| "token_step ts (Revoke j) = revoke ts j"
| "token_step ts (StoreGrants j gs) = store_grants ts j gs"

text \<open>What the last operations on a job say.\<close>

fun issued :: "uuid \<Rightarrow> token_op list \<Rightarrow> u8 list option" where
  "issued j [] = None"
| "issued j (CreateToken i bytes # older) = (if i = j then Some bytes else issued j older)"
| "issued j (Revoke i # older) = (if i = j then None else issued j older)"
| "issued j (StoreGrants _ _ # older) = issued j older"

fun granted :: "uuid \<Rightarrow> token_op list \<Rightarrow> credential_grant list option" where
  "granted j [] = None"
| "granted j (CreateToken _ _ # older) = granted j older"
| "granted j (Revoke i # older) = (if i = j then None else granted j older)"
| "granted j (StoreGrants i gs # older) = (if i = j \<and> gs \<noteq> [] then Some gs else granted j older)"

lemma token_store_history:
  "map_of (tk_tokens (foldl token_step token_store_new ops)) j = map_option generate_token (issued j (rev ops)) \<and>
   get_grants (foldl token_step token_store_new ops) j = granted j (rev ops)"
proof (induction ops rule: rev_induct)
  case (snoc op ops)
  then show ?case
    by (cases op) (auto simp: create_token_def revoke_def store_grants_def get_grants_def Let_def update_conv' delete_conv')
qed (simp add: token_store_new_def get_grants_def)

lemma issued_created: "issued j ops = Some bytes \<Longrightarrow> CreateToken j bytes \<in> set ops"
  by (induction j ops rule: issued.induct) (auto split: if_splits)

text \<open>C18: A token opens exactly its own job.  After any creations, revocations and grants, a request is let through exactly if its
  path names a job whose last token, not revoked since, is the one presented; a token that was only ever issued for other
  jobs, from bytes never drawn for this one, is refused; and a job's grants are gone with its token.\<close>

theorem worker_token_scoped:
  fixes ops :: "token_op list"
  defines "ts \<equiv> foldl token_step token_store_new ops"
  shows "(worker_auth_middleware parse ts path auth = Ok () \<longleftrightarrow>
      (\<exists>j bytes. extract_job_id_from_path parse path = Some j \<and> issued j (rev ops) = Some bytes \<and>
         auth = Some (''Bearer '' @ generate_token bytes))) \<and>
    (\<forall>j bytes. CreateToken j bytes \<notin> set ops \<and> extract_job_id_from_path parse path = Some j \<and>
       auth = Some (''Bearer '' @ generate_token bytes) \<longrightarrow> worker_auth_middleware parse ts path auth = Err UNAUTHORIZED) \<and>
    (\<forall>j. map_of (tk_tokens (revoke ts j)) j = None \<and> get_grants (revoke ts j) j = None)"
proof (intro conjI)
  have tok: "validate_token ts j t \<longleftrightarrow> (\<exists>bytes. issued j (rev ops) = Some bytes \<and> t = generate_token bytes)" for j t
    using token_store_history [of ops j] by (auto simp: validate_token_def ts_def split: option.splits)
  show "worker_auth_middleware parse ts path auth = Ok () \<longleftrightarrow>
      (\<exists>j bytes. extract_job_id_from_path parse path = Some j \<and> issued j (rev ops) = Some bytes \<and>
         auth = Some (''Bearer '' @ generate_token bytes))"
    by (auto simp: worker_auth_middleware_def tok strip_prefix_Some strip_prefix_None starts_with_iff bind_eq_Some_conv split: option.splits)
  show "\<forall>j bytes. CreateToken j bytes \<notin> set ops \<and> extract_job_id_from_path parse path = Some j \<and>
       auth = Some (''Bearer '' @ generate_token bytes) \<longrightarrow> worker_auth_middleware parse ts path auth = Err UNAUTHORIZED"
  proof (intro allI impI)
    fix j bytes
    assume a: "CreateToken j bytes \<notin> set ops \<and> extract_job_id_from_path parse path = Some j \<and>
       auth = Some (''Bearer '' @ generate_token bytes)"
    have "\<not> validate_token ts j (generate_token bytes)"
      using a issued_created [of j "rev ops"] by (auto simp: tok dest: generate_token_inj)
    then show "worker_auth_middleware parse ts path auth = Err UNAUTHORIZED"
      using a by (simp add: worker_auth_middleware_def strip_prefix_def starts_with_def)
  qed
  show "\<forall>j. map_of (tk_tokens (revoke ts j)) j = None \<and> get_grants (revoke ts j) j = None"
    by (simp add: revoke_def get_grants_def delete_conv')
qed

theorem worker_token_scoped_witness:
  "worker_auth_middleware (\<lambda>s. if s = ''7'' then Some 7 else Some 8) (foldl token_step token_store_new [CreateToken 7 [1, 2], CreateToken 8 [3, 4]])
     ''/worker/8/llm'' (Some (''Bearer '' @ generate_token [1, 2])) = Err UNAUTHORIZED"
proof -
  have "extract_job_id_from_path (\<lambda>s. if s = ''7'' then Some 7 else Some 8) ''/worker/8/llm'' = Some 8" by code_simp
  then show ?thesis
    using worker_token_scoped [of "\<lambda>s. if s = ''7'' then Some 7 else Some 8" "[CreateToken 7 [1, 2], CreateToken 8 [3, 4]]"
        "''/worker/8/llm''" "Some (''Bearer '' @ generate_token [1, 2])"] by simp
qed

end
