(* ===== verification/Skill_Registry.thy ===== *)
theory Skill_Registry
  imports Skills
begin

text \<open>
  The parser, the gating and the registry of skills, \<^verbatim>\<open>src/src/skills/{parser,gating,registry}.rs\<close>.  The YAML reader, the
  compiler of patterns, the digest and the checks of the machine are the record \<open>skill_env\<close>.  The part of the file system the
  registry reads and writes is explicit: the entries of its directories and the state of its files.  Failures of writing
  are arguments of the operations that write.
\<close>

section \<open>Parsing\<close>

datatype skill_parse_error = MissingFrontmatter | InvalidYaml string | EmptyPrompt | InvalidName string

fun skill_parse_error_display :: "skill_parse_error \<Rightarrow> string" where
  "skill_parse_error_display MissingFrontmatter =
     ''Missing YAML frontmatter delimiters (expected '' @ [CHR 0x60] @ ''---'' @ [CHR 0x60] @ '' at start of file)''"
| "skill_parse_error_display (InvalidYaml e) = ''Invalid YAML frontmatter: '' @ e"
| "skill_parse_error_display EmptyPrompt = ''Prompt body is empty (no content after frontmatter)''"
| "skill_parse_error_display (InvalidName n) =
     ''Invalid skill name '' @ [CHR 0x27] @ n @ [CHR 0x27] @ '': must match [a-zA-Z0-9][a-zA-Z0-9._-]{0,63}''"

fun closing_delimiter_from :: "nat \<Rightarrow> string list \<Rightarrow> nat option" where
  "closing_delimiter_from pos [] = None"
| "closing_delimiter_from pos (line # lines) =
     (if trim line = ''---'' then Some pos else closing_delimiter_from (pos + length line + 1) lines)"

definition find_closing_delimiter :: "string \<Rightarrow> nat option" where
  "find_closing_delimiter content = closing_delimiter_from 0 (str_lines content)"

definition BOM :: string where
  "BOM = [CHR 0xEF, CHR 0xBB, CHR 0xBF]"

definition parse_skill_md ::
  "(string \<Rightarrow> (string, skill_manifest) result) \<Rightarrow> string \<Rightarrow> (skill_parse_error, skill_manifest \<times> string) result" where
  "parse_skill_md from_yaml content0 =
     (let content = (case strip_prefix content0 BOM of Some c \<Rightarrow> c | None \<Rightarrow> content0);
          trimmed = dropWhile (\<lambda>c. c = CHR 0x0A \<or> c = CHR 0x0D) content
      in if \<not> starts_with trimmed ''---'' then Err MissingFrontmatter
         else let after_first = drop 3 trimmed in
         case position (\<lambda>c. c = CHR 0x0A) after_first of
           None \<Rightarrow> Err MissingFrontmatter
         | Some pos \<Rightarrow>
             let after_first_line = drop (pos + 1) after_first in
             (case find_closing_delimiter after_first_line of
                None \<Rightarrow> Err MissingFrontmatter
              | Some yaml_end \<Rightarrow>
                  (case from_yaml (take yaml_end after_first_line) of
                     Err e \<Rightarrow> Err (InvalidYaml e)
                   | Ok manifest \<Rightarrow>
                       if \<not> validate_skill_name (mf_name manifest) then Err (InvalidName (mf_name manifest))
                       else
                         let manifest' = manifest\<lparr>mf_activation := enforce_limits (mf_activation manifest)\<rparr>;
                             after_yaml = drop yaml_end after_first_line;
                             prompt_start = (case position (\<lambda>c. c = CHR 0x0A) after_yaml of
                                               Some p \<Rightarrow> p + 1 | None \<Rightarrow> length after_yaml);
                             prompt_content = dropWhile (\<lambda>c. c = CHR 0x0A) (drop prompt_start after_yaml)
                         in if trim prompt_content = [] then Err EmptyPrompt else Ok (manifest', prompt_content))))"

section \<open>Gating\<close>

record skill_env =
  se_from_yaml :: "string \<Rightarrow> (string, skill_manifest) result"
  se_build_regex :: "string \<Rightarrow> (string \<Rightarrow> bool) option"
  se_sha256 :: "string \<Rightarrow> string"
  se_from_utf8 :: "string \<Rightarrow> (string, string) result"
  se_binary_exists :: "string \<Rightarrow> bool"
  se_env_set :: "string \<Rightarrow> bool"
  se_path_exists :: "string \<Rightarrow> bool"

definition check_requirements :: "skill_env \<Rightarrow> gating_requirements \<Rightarrow> bool \<times> string list" where
  "check_requirements env r =
     (let failures =
        map (\<lambda>b. ''required binary not found: '' @ b) (filter (\<lambda>b. \<not> se_binary_exists env b) (gr_bins r)) @
        map (\<lambda>v. ''required env var not set: '' @ v) (filter (\<lambda>v. \<not> se_env_set env v) (gr_env r)) @
        map (\<lambda>p. ''required config not found: '' @ p) (filter (\<lambda>p. \<not> se_path_exists env p) (gr_config r))
      in (failures = [], failures))"

section \<open>Files\<close>

datatype dir_entry = Unstatable | SymlinkEntry | Subdir string | RegularFile string | OtherEntry

datatype file_state = SymlinkFile bool | Unreadable string | FileBytes string

record skill_world =
  kw_dirs :: "(string \<times> dir_entry list) list"
  kw_files :: "(string \<times> file_state) list"

definition path_join :: "string \<Rightarrow> string \<Rightarrow> string" where
  "path_join dir name = dir @ ''/'' @ name"

text \<open>\<open>try_exists\<close> follows a link.\<close>

definition try_exists :: "skill_world \<Rightarrow> string \<Rightarrow> bool" where
  "try_exists w path =
     (case map_of (kw_files w) path of None \<Rightarrow> False | Some (SymlinkFile target) \<Rightarrow> target | Some _ \<Rightarrow> True)"

section \<open>The registry\<close>

datatype skill_registry_error =
    SkillNotFound string
  | SkillReadError string string
  | SkillParseFailed string string
  | FileTooLarge string nat nat
  | SymlinkDetected string
  | GatingFailed string string
  | TokenBudgetExceeded string nat nat
  | SkillAlreadyExists string
  | CannotRemove string string
  | SkillWriteError string string

definition MAX_DISCOVERED_SKILLS :: nat where "MAX_DISCOVERED_SKILLS = 100"

record skill_registry =
  kr_skills :: "loaded_skill list"
  kr_user_dir :: string
  kr_workspace_dir :: "string option"

definition skill_registry_new :: "string \<Rightarrow> skill_registry" where
  "skill_registry_new user_dir = \<lparr>kr_skills = [], kr_user_dir = user_dir, kr_workspace_dir = None\<rparr>"

definition with_workspace_dir :: "skill_registry \<Rightarrow> string \<Rightarrow> skill_registry" where
  "with_workspace_dir reg dir = reg\<lparr>kr_workspace_dir := Some dir\<rparr>"

definition compute_hash :: "skill_env \<Rightarrow> string \<Rightarrow> string" where
  "compute_hash env content = ''sha256:'' @ se_sha256 env content"

definition parse_failure :: "string \<Rightarrow> skill_parse_error \<Rightarrow> skill_registry_error" where
  "parse_failure origin e =
     SkillParseFailed (case e of InvalidName name \<Rightarrow> name | _ \<Rightarrow> origin) (skill_parse_error_display e)"

text \<open>What a parsed file becomes, or why it is refused.\<close>

definition finish_skill ::
  "skill_env \<Rightarrow> skill_trust \<Rightarrow> skill_source \<Rightarrow> skill_manifest \<Rightarrow> string \<Rightarrow> (skill_registry_error, string \<times> loaded_skill) result" where
  "finish_skill env trust source manifest prompt_content =
     (let gate = (case mf_requires manifest of Some req \<Rightarrow> check_requirements env req | None \<Rightarrow> (True, []));
          approx = approx_tokens prompt_content;
          declared = ac_max_context_tokens (mf_activation manifest)
      in if \<not> fst gate then Err (GatingFailed (mf_name manifest) (join ''; '' (snd gate)))
         else if declared > 0 \<and> approx > declared * 2 then Err (TokenBudgetExceeded (mf_name manifest) approx declared)
         else Ok (mf_name manifest,
           \<lparr>lk_manifest = manifest, lk_prompt_content = prompt_content, lk_trust = trust, lk_source = source,
            lk_content_hash = compute_hash env prompt_content,
            lk_compiled_patterns = compile_patterns (se_build_regex env) (ac_patterns (mf_activation manifest)),
            lk_lowercased_keywords = map to_lowercase (ac_keywords (mf_activation manifest)),
            lk_lowercased_tags = map to_lowercase (ac_tags (mf_activation manifest))\<rparr>))"

definition load_and_validate_skill ::
  "skill_env \<Rightarrow> skill_world \<Rightarrow> string \<Rightarrow> skill_trust \<Rightarrow> skill_source \<Rightarrow> (skill_registry_error, string \<times> loaded_skill) result" where
  "load_and_validate_skill env w path trust source =
     (case map_of (kw_files w) path of
        None \<Rightarrow> Err (SkillReadError path ''No such file or directory (os error 2)'')
      | Some (SymlinkFile _) \<Rightarrow> Err (SymlinkDetected path)
      | Some (Unreadable reason) \<Rightarrow> Err (SkillReadError path reason)
      | Some (FileBytes raw_bytes) \<Rightarrow>
          if length raw_bytes > MAX_PROMPT_FILE_SIZE then Err (FileTooLarge path (length raw_bytes) MAX_PROMPT_FILE_SIZE)
          else case se_from_utf8 env raw_bytes of
            Err e \<Rightarrow> Err (SkillReadError path (''Invalid UTF-8: '' @ e))
          | Ok raw_content \<Rightarrow>
              (case parse_skill_md (se_from_yaml env) (normalize_line_endings raw_content) of
                 Err e \<Rightarrow> Err (parse_failure path e)
               | Ok (manifest, prompt_content) \<Rightarrow> finish_skill env trust source manifest prompt_content))"

text \<open>The entries of a directory in the order they are read; every entry with a skill file counts towards the cap, also
  when the file is refused.\<close>

fun discover_entries ::
  "skill_env \<Rightarrow> skill_world \<Rightarrow> string \<Rightarrow> skill_trust \<Rightarrow> (string \<Rightarrow> skill_source) \<Rightarrow> nat \<Rightarrow> dir_entry list \<Rightarrow>
   (string \<times> loaded_skill) list" where
  "discover_entries env w dir trust mk count [] = []"
| "discover_entries env w dir trust mk count (e # es) =
     (if count \<ge> MAX_DISCOVERED_SKILLS then []
      else case e of
        Subdir path \<Rightarrow>
          if try_exists w (path_join path ''SKILL.md'')
          then (case load_and_validate_skill env w (path_join path ''SKILL.md'') trust (mk path) of
                  Ok r \<Rightarrow> [r] | Err _ \<Rightarrow> []) @ discover_entries env w dir trust mk (count + 1) es
          else discover_entries env w dir trust mk count es
      | RegularFile fname \<Rightarrow>
          if fname = ''SKILL.md''
          then (case load_and_validate_skill env w (path_join dir ''SKILL.md'') trust (mk dir) of
                  Ok r \<Rightarrow> [r] | Err _ \<Rightarrow> []) @ discover_entries env w dir trust mk (count + 1) es
          else discover_entries env w dir trust mk count es
      | _ \<Rightarrow> discover_entries env w dir trust mk count es)"

definition discover_from_dir ::
  "skill_env \<Rightarrow> skill_world \<Rightarrow> string \<Rightarrow> skill_trust \<Rightarrow> (string \<Rightarrow> skill_source) \<Rightarrow> (string \<times> loaded_skill) list" where
  "discover_from_dir env w dir trust mk =
     (case map_of (kw_dirs w) dir of None \<Rightarrow> [] | Some entries \<Rightarrow> discover_entries env w dir trust mk 0 entries)"

text \<open>Earlier names win.\<close>

fun add_unseen :: "string list \<times> loaded_skill list \<Rightarrow> (string \<times> loaded_skill) list \<Rightarrow> string list \<times> loaded_skill list" where
  "add_unseen (seen, skills) [] = (seen, skills)"
| "add_unseen (seen, skills) ((name, skill) # rest) =
     (if name \<in> set seen then add_unseen (seen, skills) rest
      else add_unseen (seen @ [name], skills @ [skill]) rest)"

definition discover_all :: "skill_env \<Rightarrow> skill_world \<Rightarrow> skill_registry \<Rightarrow> skill_registry \<times> string list" where
  "discover_all env w reg =
     (let acc = (case kr_workspace_dir reg of
                   Some ws_dir \<Rightarrow> add_unseen ([], kr_skills reg) (discover_from_dir env w ws_dir Trusted WorkspaceSource)
                 | None \<Rightarrow> ([], kr_skills reg));
          (names, skills) = add_unseen acc (discover_from_dir env w (kr_user_dir reg) Trusted UserSource)
      in (reg\<lparr>kr_skills := skills\<rparr>, names))"

definition has_skill :: "skill_registry \<Rightarrow> string \<Rightarrow> bool" where
  "has_skill reg name = list_ex (\<lambda>s. mf_name (lk_manifest s) = name) (kr_skills reg)"

definition find_by_name :: "skill_registry \<Rightarrow> string \<Rightarrow> loaded_skill option" where
  "find_by_name reg name = find (\<lambda>s. mf_name (lk_manifest s) = name) (kr_skills reg)"

text \<open>Writing: the directory is made, then the file; either may fail.\<close>

record write_faults =
  wf_create_dir :: "string option"
  wf_write :: "string option"

definition add_entry :: "dir_entry \<Rightarrow> dir_entry list \<Rightarrow> dir_entry list" where
  "add_entry e es = (if e \<in> set es then es else es @ [e])"

definition make_dir :: "skill_world \<Rightarrow> string \<Rightarrow> string \<Rightarrow> skill_world" where
  "make_dir w parent dir =
     w\<lparr>kw_dirs := AList.update parent (add_entry (Subdir dir) (case map_of (kw_dirs w) parent of Some es \<Rightarrow> es | None \<Rightarrow> [])) (kw_dirs w)\<rparr>"

definition prepare_install_to_disk ::
  "skill_env \<Rightarrow> write_faults \<Rightarrow> skill_world \<Rightarrow> string \<Rightarrow> string \<Rightarrow> string \<Rightarrow>
   skill_world \<times> (skill_registry_error, string \<times> loaded_skill) result" where
  "prepare_install_to_disk env faults w user_dir skill_name normalized_content =
     (let skill_dir = path_join user_dir skill_name;
          skill_path = path_join skill_dir ''SKILL.md''
      in case wf_create_dir faults of
           Some reason \<Rightarrow> (w, Err (SkillWriteError skill_dir reason))
         | None \<Rightarrow>
             let w1 = make_dir w user_dir skill_dir in
             (case wf_write faults of
                Some reason \<Rightarrow> (w1, Err (SkillWriteError skill_path reason))
              | None \<Rightarrow>
                  let w2 = w1\<lparr>kw_files := AList.update skill_path (FileBytes normalized_content) (kw_files w1)\<rparr>
                  in (w2, load_and_validate_skill env w2 skill_path Installed (UserSource skill_dir))))"

definition commit_install :: "skill_registry \<Rightarrow> string \<Rightarrow> loaded_skill \<Rightarrow> skill_registry \<times> (skill_registry_error, unit) result" where
  "commit_install reg name skill =
     (if has_skill reg name then (reg, Err (SkillAlreadyExists name))
      else (reg\<lparr>kr_skills := kr_skills reg @ [skill]\<rparr>, Ok ()))"

definition install_skill ::
  "skill_env \<Rightarrow> write_faults \<Rightarrow> skill_world \<Rightarrow> skill_registry \<Rightarrow> string \<Rightarrow>
   skill_world \<times> skill_registry \<times> (skill_registry_error, string) result" where
  "install_skill env faults w reg content =
     (let normalized = normalize_line_endings content in
      case parse_skill_md (se_from_yaml env) normalized of
        Err e \<Rightarrow> (w, reg, Err (parse_failure ''(install)'' e))
      | Ok (manifest, _) \<Rightarrow>
          if has_skill reg (mf_name manifest) then (w, reg, Err (SkillAlreadyExists (mf_name manifest)))
          else
            (case prepare_install_to_disk env faults w (kr_user_dir reg) (mf_name manifest) normalized of
               (w', Err e) \<Rightarrow> (w', reg, Err e)
             | (w', Ok (name, skill)) \<Rightarrow>
                 (case commit_install reg name skill of
                    (reg', Err e) \<Rightarrow> (w', reg', Err e)
                  | (reg', Ok _) \<Rightarrow> (w', reg', Ok name))))"

definition validate_remove :: "skill_registry \<Rightarrow> string \<Rightarrow> (skill_registry_error, string) result" where
  "validate_remove reg name =
     (case find_by_name reg name of
        None \<Rightarrow> Err (SkillNotFound name)
      | Some skill \<Rightarrow>
          (case lk_source skill of
             UserSource path \<Rightarrow> Ok path
           | WorkspaceSource _ \<Rightarrow> Err (CannotRemove name ''workspace skills cannot be removed via this interface'')
           | BundledSource _ \<Rightarrow> Err (CannotRemove name ''bundled skills cannot be removed'')))"

text \<open>The file goes, if it is there; the directory goes with it when it is empty.\<close>

definition delete_skill_files ::
  "string option \<Rightarrow> bool \<Rightarrow> skill_world \<Rightarrow> string \<Rightarrow> skill_world \<times> (skill_registry_error, unit) result" where
  "delete_skill_files fault dir_removed w path =
     (let skill_md = path_join path ''SKILL.md'' in
      if try_exists w skill_md
      then (case fault of
              Some reason \<Rightarrow> (w, Err (SkillWriteError skill_md reason))
            | None \<Rightarrow>
                (let w1 = w\<lparr>kw_files := AList.delete skill_md (kw_files w)\<rparr>
                 in (if dir_removed then w1\<lparr>kw_dirs := map (\<lambda>(d, es). (d, filter (\<lambda>e. e \<noteq> Subdir path) es)) (kw_dirs w1)\<rparr> else w1,
                     Ok ())))
      else (w, Ok ()))"

definition commit_remove :: "skill_registry \<Rightarrow> string \<Rightarrow> skill_registry \<times> (skill_registry_error, unit) result" where
  "commit_remove reg name =
     (case position (\<lambda>s. mf_name (lk_manifest s) = name) (kr_skills reg) of
        None \<Rightarrow> (reg, Err (SkillNotFound name))
      | Some idx \<Rightarrow> (reg\<lparr>kr_skills := take idx (kr_skills reg) @ drop (idx + 1) (kr_skills reg)\<rparr>, Ok ()))"

definition remove_skill ::
  "string option \<Rightarrow> bool \<Rightarrow> skill_world \<Rightarrow> skill_registry \<Rightarrow> string \<Rightarrow> skill_world \<times> skill_registry \<times> (skill_registry_error, unit) result" where
  "remove_skill fault dir_removed w reg name =
     (case validate_remove reg name of
        Err e \<Rightarrow> (w, reg, Err e)
      | Ok path \<Rightarrow>
          (case delete_skill_files fault dir_removed w path of
             (w', Err e) \<Rightarrow> (w', reg, Err e)
           | (w', Ok _) \<Rightarrow> (let (reg', r) = commit_remove reg name in (w', reg', r))))"

definition reload :: "skill_env \<Rightarrow> skill_world \<Rightarrow> skill_registry \<Rightarrow> skill_registry \<times> string list" where
  "reload env w reg = discover_all env w (reg\<lparr>kr_skills := []\<rparr>)"

section \<open>What loading gives\<close>

abbreviation skill_name :: "loaded_skill \<Rightarrow> string" where
  "skill_name s \<equiv> mf_name (lk_manifest s)"

lemma parse_skill_md_name: "parse_skill_md fy c = Ok (m, prompt) \<Longrightarrow> validate_skill_name (mf_name m)"
  by (auto simp: parse_skill_md_def Let_def split: if_splits option.splits sum.splits)

lemma finish_skill_Ok:
  "finish_skill env trust source m prompt = Ok (n, sk) \<Longrightarrow>
   n = mf_name m \<and> lk_manifest sk = m \<and> lk_trust sk = trust \<and> lk_prompt_content sk = prompt \<and>
   finish_skill env trust' source' m prompt = Ok (n, sk\<lparr>lk_trust := trust', lk_source := source'\<rparr>)"
  by (auto simp: finish_skill_def Let_def split: if_splits)

lemma load_Ok:
  assumes "load_and_validate_skill env w path trust source = Ok (n, sk)"
  shows "n = skill_name sk \<and> validate_skill_name n \<and> lk_trust sk = trust \<and>
    load_and_validate_skill env w path trust' source' = Ok (n, sk\<lparr>lk_trust := trust', lk_source := source'\<rparr>)"
proof -
  from assms obtain raw c m prompt where p: "map_of (kw_files w) path = Some (FileBytes raw)" "\<not> length raw > MAX_PROMPT_FILE_SIZE"
    "se_from_utf8 env raw = Ok c" "parse_skill_md (se_from_yaml env) (normalize_line_endings c) = Ok (m, prompt)"
    "finish_skill env trust source m prompt = Ok (n, sk)"
    by (auto simp: load_and_validate_skill_def split: option.splits file_state.splits if_splits sum.splits)
  from finish_skill_Ok [OF p(5), of trust' source'] parse_skill_md_name [OF p(4)] p(1-4) show ?thesis
    by (auto simp: load_and_validate_skill_def)
qed

lemma discover_entries_Ok:
  "(n, sk) \<in> set (discover_entries env w dir trust mk k es) \<Longrightarrow> n = skill_name sk \<and> validate_skill_name n \<and> lk_trust sk = trust"
proof (induction es arbitrary: k)
  case (Cons e es)
  have one: "x = (n, sk) \<Longrightarrow> load_and_validate_skill env w p trust src = Ok x \<Longrightarrow> n = skill_name sk \<and> validate_skill_name n \<and> lk_trust sk = trust" for x p src
    using load_Ok by blast
  from Cons one show ?case by (fastforce split: if_splits dir_entry.splits sum.splits)
qed simp

section \<open>Names are unique\<close>

definition registry_wf :: "skill_registry \<Rightarrow> bool" where
  "registry_wf reg \<longleftrightarrow> distinct (map skill_name (kr_skills reg)) \<and> list_all validate_skill_name (map skill_name (kr_skills reg))"

lemma add_unseen_names:
  assumes "map skill_name skills = seen" "distinct seen" "list_all validate_skill_name seen"
    and "\<forall>(n, sk) \<in> set found. n = skill_name sk \<and> validate_skill_name n"
    and "add_unseen (seen, skills) found = (seen', skills')"
  shows "map skill_name skills' = seen' \<and> distinct seen' \<and> list_all validate_skill_name seen'"
  using assms
proof (induction "(seen, skills)" found arbitrary: seen skills rule: add_unseen.induct)
  case (2 seen skills name skill rest)
  show ?case
  proof (cases "name \<in> set seen")
    case True
    with 2 show ?thesis by auto
  next
    case False
    with "2.prems" have "map skill_name (skills @ [skill]) = seen @ [name]" "distinct (seen @ [name])" "list_all validate_skill_name (seen @ [name])"
      by auto
    with 2 False show ?thesis by (intro "2.hyps"(2)) auto
  qed
qed simp

lemma reload_wf: "registry_wf (fst (reload env w reg))"
proof -
  have found: "\<forall>(n, sk) \<in> set (discover_from_dir env w dir t mk). n = skill_name sk \<and> validate_skill_name n" for dir t mk
    using discover_entries_Ok by (fastforce simp: discover_from_dir_def split: option.splits)
  obtain names skills where acc: "(case kr_workspace_dir reg of
      Some ws_dir \<Rightarrow> add_unseen ([], []) (discover_from_dir env w ws_dir Trusted WorkspaceSource) | None \<Rightarrow> ([], [])) = (names, skills)"
    by fastforce
  then have one: "map skill_name skills = names \<and> distinct names \<and> list_all validate_skill_name names"
  proof (cases "kr_workspace_dir reg")
    case None
    with acc show ?thesis by auto
  next
    case (Some d)
    with acc have "add_unseen ([], []) (discover_from_dir env w d Trusted WorkspaceSource) = (names, skills)" by simp
    from add_unseen_names [OF _ _ _ found this] show ?thesis by simp
  qed
  obtain names' skills' where two: "add_unseen (names, skills) (discover_from_dir env w (kr_user_dir reg) Trusted UserSource) = (names', skills')"
    by fastforce
  have "fst (reload env w reg) = reg\<lparr>kr_skills := skills'\<rparr>"
    unfolding reload_def discover_all_def Let_def using acc two by (cases "kr_workspace_dir reg") simp_all
  with add_unseen_names [OF _ _ _ found two] one show ?thesis by (simp add: registry_wf_def)
qed

lemma prepare_install_Ok:
  assumes "prepare_install_to_disk env faults w dir n c = (w', Ok r)"
  shows "w' = (make_dir w dir (path_join dir n))\<lparr>kw_files := AList.update (path_join (path_join dir n) ''SKILL.md'') (FileBytes c) (kw_files w)\<rparr> \<and>
    load_and_validate_skill env w' (path_join (path_join dir n) ''SKILL.md'') Installed (UserSource (path_join dir n)) = Ok r"
  using assms by (auto simp: prepare_install_to_disk_def Let_def make_dir_def split: option.splits)

lemma install_Ok:
  assumes "install_skill env faults w reg content = (w', reg', Ok name)"
  obtains m sk prompt where "\<not> has_skill reg name" "reg' = reg\<lparr>kr_skills := kr_skills reg @ [sk]\<rparr>"
    "parse_skill_md (se_from_yaml env) (normalize_line_endings content) = Ok (m, prompt)"
    "prepare_install_to_disk env faults w (kr_user_dir reg) (mf_name m) (normalize_line_endings content) = (w', Ok (name, sk))"
  using assms unfolding install_skill_def commit_install_def Let_def
  by (auto split: sum.splits if_splits prod.splits)

lemma install_Err: "snd (snd (install_skill env faults w reg content)) = Err e \<Longrightarrow> fst (snd (install_skill env faults w reg content)) = reg"
  unfolding install_skill_def commit_install_def Let_def by (auto split: sum.splits if_splits prod.splits)

lemma install_wf:
  assumes "registry_wf reg"
  shows "registry_wf (fst (snd (install_skill env faults w reg content)))"
proof (cases "snd (snd (install_skill env faults w reg content))")
  case (Inl e)
  with assms install_Err show ?thesis by metis
next
  case (Inr name)
  then obtain w' reg' where "install_skill env faults w reg content = (w', reg', Ok name)" by (metis prod.collapse)
  then show ?thesis
  proof (rule install_Ok)
    fix m sk prompt
    assume new: "\<not> has_skill reg name" "reg' = reg\<lparr>kr_skills := kr_skills reg @ [sk]\<rparr>"
      and prep: "prepare_install_to_disk env faults w (kr_user_dir reg) (mf_name m) (normalize_line_endings content) = (w', Ok (name, sk))"
    from prepare_install_Ok [OF prep] load_Ok have "name = skill_name sk \<and> validate_skill_name name" by blast
    with new assms \<open>install_skill env faults w reg content = (w', reg', Ok name)\<close> show ?thesis
      by (auto simp: registry_wf_def has_skill_def list_ex_iff)
  qed
qed

lemma distinct_take_drop: "distinct xs \<Longrightarrow> distinct (take i xs @ drop (Suc i) xs)"
  by (auto dest: set_take_disj_set_drop_if_distinct [of xs i "Suc i"])

lemma remove_wf: "registry_wf reg \<Longrightarrow> registry_wf (fst (snd (remove_skill fault b w reg name)))"
proof -
  assume wf: "registry_wf reg"
  have "registry_wf (reg\<lparr>kr_skills := take i (kr_skills reg) @ drop (Suc i) (kr_skills reg)\<rparr>)" for i
    using wf distinct_take_drop [of "map skill_name (kr_skills reg)" i]
    by (auto simp: registry_wf_def take_map drop_map list_all_iff dest: in_set_takeD in_set_dropD)
  with wf show ?thesis
    by (auto simp: remove_skill_def commit_remove_def Let_def split: sum.splits prod.splits option.splits)
qed

datatype registry_event =
    InstallSkill write_faults string
  | RemoveSkill "string option" bool string
  | ReloadSkills

text \<open>The registry with the files it works on; other programs may change the files in between.\<close>

fun skill_step :: "skill_env \<Rightarrow> skill_world \<times> skill_registry \<Rightarrow> registry_event + skill_world \<Rightarrow> skill_world \<times> skill_registry" where
  "skill_step env (w, reg) (Inl (InstallSkill faults content)) = (let (w', reg', _) = install_skill env faults w reg content in (w', reg'))"
| "skill_step env (w, reg) (Inl (RemoveSkill fault b name)) = (let (w', reg', _) = remove_skill fault b w reg name in (w', reg'))"
| "skill_step env (w, reg) (Inl ReloadSkills) = (w, fst (reload env w reg))"
| "skill_step env (w, reg) (Inr w') = (w', reg)"

lemma skill_step_wf: "registry_wf (snd s) \<Longrightarrow> registry_wf (snd (skill_step env s e))"
proof (cases s; cases e)
  fix w reg ev assume "registry_wf (snd s)" "s = (w, reg)" "e = Inl ev"
  then show ?thesis using install_wf [of reg env _ w] remove_wf [of reg _ _ w] reload_wf by (cases ev) (simp_all add: split_beta)
qed simp

interpretation skills: inv_machine "skill_step env" "\<lambda>s. registry_wf (snd s)" for env
  by unfold_locales (rule skill_step_wf)

section \<open>Reading a file back\<close>

lemma position_append: "\<forall>x \<in> set xs. \<not> P x \<Longrightarrow> P y \<Longrightarrow> position P (xs @ y # ys) = Some (length xs)"
  by (induction xs) auto

lemma str_lines_Cons: "CHR 0x0A \<notin> set l \<Longrightarrow> str_lines (l @ CHR 0x0A # s) = strip_cr l # str_lines s"
proof -
  assume "CHR 0x0A \<notin> set l"
  then have "split_on (CHR 0x0A) (l @ CHR 0x0A # s) = l # split_on (CHR 0x0A) s"
    unfolding split_on_def by (intro split_by_append_sep) auto
  moreover have "split_on (CHR 0x0A) s \<noteq> []" by (simp add: split_on_def)
  ultimately show ?thesis by (simp add: str_lines_def Let_def)
qed

lemma closing_delimiter_lines:
  assumes "\<forall>l \<in> set ls. CHR 0x0A \<notin> set l \<and> strip_cr l = l \<and> trim l \<noteq> ''---''"
  shows "closing_delimiter_from k (str_lines (concat (map (\<lambda>l. l @ [CHR 0x0A]) ls) @ ''---'' @ CHR 0x0A # rest)) =
    Some (k + length (concat (map (\<lambda>l. l @ [CHR 0x0A]) ls)))"
  using assms
proof (induction ls arbitrary: k)
  case Nil
  have "trim ''---'' = ''---''" "strip_cr ''---'' = ''---''" by code_simp+
  then show ?case using str_lines_Cons [of "''---''" rest] by simp
next
  case (Cons l ls)
  then show ?case
    using str_lines_Cons [of l "concat (map (\<lambda>l. l @ [CHR 0x0A]) ls) @ ''---'' @ CHR 0x0A # rest"]
    by (simp add: add.assoc add.commute [of k])
qed

lemma parse_after_opening:
  "parse_skill_md from_yaml (''---'' @ CHR 0x0A # body) =
     (case find_closing_delimiter body of
        None \<Rightarrow> Err MissingFrontmatter
      | Some yaml_end \<Rightarrow>
          (case from_yaml (take yaml_end body) of
             Err e \<Rightarrow> Err (InvalidYaml e)
           | Ok manifest \<Rightarrow>
               if \<not> validate_skill_name (mf_name manifest) then Err (InvalidName (mf_name manifest))
               else
                 let after_yaml = drop yaml_end body;
                     prompt_start = (case position (\<lambda>c. c = CHR 0x0A) after_yaml of Some p \<Rightarrow> p + 1 | None \<Rightarrow> length after_yaml);
                     prompt_content = dropWhile (\<lambda>c. c = CHR 0x0A) (drop prompt_start after_yaml)
                 in if trim prompt_content = [] then Err EmptyPrompt
                    else Ok (manifest\<lparr>mf_activation := enforce_limits (mf_activation manifest)\<rparr>, prompt_content)))"
  by (simp add: parse_skill_md_def strip_prefix_def starts_with_def BOM_def) (simp only: Let_def)

section \<open>Properties\<close>

text \<open>C34: The names in the registry are unique and well-formed, whatever is installed, removed and reloaded and however the files
  change in between; such a name is a single path component.\<close>

theorem skill_names_unique:
  "let reg = snd (foldl (skill_step env) (w, skill_registry_new dir) es) in
   distinct (map skill_name (kr_skills reg)) \<and>
   (\<forall>s \<in> set (kr_skills reg). validate_skill_name (skill_name s) \<and> CHR ''/'' \<notin> set (skill_name s) \<and> skill_name s \<noteq> ''..'' \<and> length (skill_name s) \<le> 64)"
proof -
  let ?reg = "snd (foldl (skill_step env) (w, skill_registry_new dir) es)"
  have wf: "registry_wf ?reg" using skills.run_inv [of "(w, skill_registry_new dir)" env es] by (simp add: registry_wf_def skill_registry_new_def)
  have "CHR ''/'' \<notin> set n \<and> n \<noteq> ''..'' \<and> length n \<le> 64" if "validate_skill_name n" for n
    using that by (cases n) (auto simp: validate_skill_name_def is_ascii_alnum_def char_code_def list_all_iff)
  with wf show ?thesis by (auto simp: registry_wf_def list_all_iff Let_def)
qed

definition sample_manifest :: skill_manifest where
  "sample_manifest = \<lparr>mf_name = ''a'', mf_version = ''1'', mf_description = [],
     mf_activation = \<lparr>ac_keywords = [], ac_patterns = [], ac_tags = [], ac_max_context_tokens = 100\<rparr>, mf_requires = None\<rparr>"

definition sample_skill_env :: skill_env where
  "sample_skill_env = \<lparr>se_from_yaml = (\<lambda>_. Ok sample_manifest), se_build_regex = (\<lambda>_. None), se_sha256 = (\<lambda>s. s), se_from_utf8 = Ok,
     se_binary_exists = (\<lambda>_. True), se_env_set = (\<lambda>_. True), se_path_exists = (\<lambda>_. True)\<rparr>"

definition sample_md :: string where
  "sample_md = ''---'' @ [CHR 0x0A] @ ''n'' @ [CHR 0x0A] @ ''---'' @ [CHR 0x0A] @ ''go''"

theorem skill_names_unique_witness:
  "''..'' \<notin> skill_name ` set (kr_skills (snd (foldl (skill_step sample_skill_env) (\<lparr>kw_dirs = [], kw_files = []\<rparr>, skill_registry_new ''u'')
      [Inl (InstallSkill \<lparr>wf_create_dir = None, wf_write = None\<rparr> sample_md)])))"
  using skill_names_unique [of sample_skill_env "\<lparr>kw_dirs = [], kw_files = []\<rparr>" "''u''"
      "[Inl (InstallSkill \<lparr>wf_create_dir = None, wf_write = None\<rparr> sample_md)]"] by (force simp: Let_def)

text \<open>A file that is written as front matter and prompt is read back as such: lines that are not delimiters come to the YAML reader
  unchanged, and the prompt is everything after the closing delimiter.\<close>

theorem skill_md_round_trip:
  assumes "\<forall>l \<in> set ls. CHR 0x0A \<notin> set l \<and> strip_cr l = l \<and> trim l \<noteq> ''---''"
    and "from_yaml (concat (map (\<lambda>l. l @ [CHR 0x0A]) ls)) = Ok m" and "validate_skill_name (mf_name m)"
    and "trim prompt \<noteq> []" and "hd prompt \<noteq> CHR 0x0A"
  shows "parse_skill_md from_yaml (''---'' @ [CHR 0x0A] @ concat (map (\<lambda>l. l @ [CHR 0x0A]) ls) @ ''---'' @ [CHR 0x0A] @ prompt) =
    Ok (m\<lparr>mf_activation := enforce_limits (mf_activation m)\<rparr>, prompt)"
proof -
  let ?yaml = "concat (map (\<lambda>l. l @ [CHR 0x0A]) ls)"
  let ?body = "?yaml @ ''---'' @ CHR 0x0A # prompt"
  have "prompt \<noteq> []" using assms(4) by (auto simp: trim_def trim_start_def trim_end_def)
  then have keep: "dropWhile (\<lambda>c. c = CHR 0x0A) prompt = prompt" using assms(5) by (cases prompt) auto
  have close: "find_closing_delimiter ?body = Some (length ?yaml)"
    unfolding find_closing_delimiter_def using closing_delimiter_lines [OF assms(1), of 0 prompt] by simp
  have pos: "position (\<lambda>c. c = CHR 0x0A) (''---'' @ CHR 0x0A # prompt) = Some 3" by simp
  have "parse_skill_md from_yaml (''---'' @ CHR 0x0A # ?body) = Ok (m\<lparr>mf_activation := enforce_limits (mf_activation m)\<rparr>, prompt)"
    unfolding parse_after_opening close option.case using pos assms(2-4) keep by (simp add: Let_def)
  then show ?thesis by simp
qed

theorem skill_md_round_trip_witness:
  "parse_skill_md (\<lambda>_. Ok sample_manifest) sample_md =
     Ok (sample_manifest\<lparr>mf_activation := enforce_limits (mf_activation sample_manifest)\<rparr>, ''go'')"
proof -
  have "trim ''n'' \<noteq> ''---''" "strip_cr ''n'' = ''n''" "trim ''go'' \<noteq> []" "validate_skill_name ''a''" by code_simp+
  then show ?thesis
    using skill_md_round_trip [of "[''n'']" "\<lambda>_. Ok sample_manifest" sample_manifest "''go''"]
    by (simp add: sample_md_def sample_manifest_def)
qed

text \<open>An installed skill is trusted after a restart.  A skill that was installed from a registry is loaded with the trust of an installed
  skill, but its file lies in the user's directory, and the next discovery loads everything there as trusted; the
  restriction to read-only tools is lost with it.\<close>

theorem installed_becomes_trusted:
  assumes "install_skill env faults w reg content = (w', reg', Ok name)"
    and "map_of (kw_dirs w) (kr_user_dir reg) \<in> {None, Some []}" and "kr_workspace_dir reg = None"
  shows "\<exists>s s'. find_by_name reg' name = Some s \<and> lk_trust s = Installed \<and>
    kr_skills (fst (reload env w' reg')) = [s'] \<and> skill_name s' = name \<and> lk_prompt_content s' = lk_prompt_content s \<and> lk_trust s' = Trusted \<and>
    ar_tools (attenuate_tools tools [s]) = filter (\<lambda>t. td_name t \<in> set READ_ONLY_TOOLS) tools \<and> ar_tools (attenuate_tools tools [s']) = tools"
  using assms(1)
proof (rule install_Ok)
  fix m sk prompt
  assume new: "\<not> has_skill reg name" "reg' = reg\<lparr>kr_skills := kr_skills reg @ [sk]\<rparr>"
    and prep: "prepare_install_to_disk env faults w (kr_user_dir reg) (mf_name m) (normalize_line_endings content) = (w', Ok (name, sk))"
  let ?dir = "path_join (kr_user_dir reg) (mf_name m)"
  from prepare_install_Ok [OF prep] have w': "w' = (make_dir w (kr_user_dir reg) ?dir)\<lparr>kw_files :=
      AList.update (path_join ?dir ''SKILL.md'') (FileBytes (normalize_line_endings content)) (kw_files w)\<rparr>"
    and load: "load_and_validate_skill env w' (path_join ?dir ''SKILL.md'') Installed (UserSource ?dir) = Ok (name, sk)" by auto
  let ?sk' = "sk\<lparr>lk_trust := Trusted, lk_source := UserSource ?dir\<rparr>"
  note sk = load_Ok [OF load, of Trusted "UserSource ?dir"]
  have "try_exists w' (path_join ?dir ''SKILL.md'')" by (simp add: w' try_exists_def update_conv')
  moreover have "map_of (kw_dirs w') (kr_user_dir reg) = Some [Subdir ?dir]"
    using assms(2) by (auto simp: w' make_dir_def update_conv' add_entry_def)
  ultimately have "discover_from_dir env w' (kr_user_dir reg) Trusted UserSource = [(name, ?sk')]"
    using sk by (simp add: discover_from_dir_def MAX_DISCOVERED_SKILLS_def)
  then have "kr_skills (fst (reload env w' reg')) = [?sk']"
    using new(2) assms(3) by (simp add: reload_def discover_all_def Let_def)
  moreover have "find_by_name reg' name = Some sk"
  proof -
    have "\<forall>s \<in> set xs. skill_name s \<noteq> name \<Longrightarrow> find (\<lambda>s. skill_name s = name) (xs @ [sk]) = Some sk" for xs
      using sk by (induction xs) auto
    with new show ?thesis by (simp add: find_by_name_def has_skill_def list_ex_iff)
  qed
  moreover have "ar_tools (attenuate_tools tools [sk]) = filter (\<lambda>t. td_name t \<in> set READ_ONLY_TOOLS) tools" "ar_tools (attenuate_tools tools [?sk']) = tools"
    using sk by (simp_all add: attenuate_tools_def Let_def)
  ultimately show ?thesis using sk by (intro exI [of _ sk] exI [of _ ?sk']) simp
qed

theorem installed_becomes_trusted_witness:
  "\<exists>w' reg' s'. install_skill sample_skill_env \<lparr>wf_create_dir = None, wf_write = None\<rparr> \<lparr>kw_dirs = [], kw_files = []\<rparr> (skill_registry_new ''u'') sample_md =
       (w', reg', Ok ''a'') \<and> kr_skills (fst (reload sample_skill_env w' reg')) = [s'] \<and> lk_trust s' = Trusted"
proof -
  let ?f = "\<lparr>wf_create_dir = None, wf_write = None\<rparr>" and ?w = "\<lparr>kw_dirs = [], kw_files = []\<rparr>"
  have "snd (snd (install_skill sample_skill_env ?f ?w (skill_registry_new ''u'') sample_md)) = Ok ''a''" by code_simp
  then obtain w' reg' where i: "install_skill sample_skill_env ?f ?w (skill_registry_new ''u'') sample_md = (w', reg', Ok ''a'')"
    by (metis prod.collapse)
  with installed_becomes_trusted [OF i] show ?thesis by (auto simp: skill_registry_new_def)
qed

end
