(* ===== verification/Worker.thy ===== *)
theory Worker
  imports Context_Manager Hooks Safety
begin

text \<open>
  The worker of one job, \<^verbatim>\<open>src/src/agent/worker.rs\<close>: the guarded execution of a tool, the loop that
  asks the model for tools, the execution of a plan, and the state the job is left in.

  A worker shares the context manager with every other task of the agent.  Its state therefore counts
  its operations, and the record \<open>worker_env\<close> gives for each of them what the world does meanwhile: the
  answer of the model, the outcome of a tool, a message of the scheduler, the changes of other tasks
  to the contexts, and whether the deadline of the job passes.
\<close>

section \<open>Errors\<close>

datatype agent_error = AgentLlm llm_error | AgentJob job_error | AgentTool tool_error

record display_lib =
  dl_uuid :: "uuid \<Rightarrow> string"
  dl_duration :: "duration \<Rightarrow> string"

fun llm_error_display :: "display_lib \<Rightarrow> llm_error \<Rightarrow> string" where
  "llm_error_display dl (RequestFailed p r) = ''Provider '' @ p @ '' request failed: '' @ r"
| "llm_error_display dl (RateLimited p d) = ''Provider '' @ p @ '' rate limited, retry after '' @
     (case d of None \<Rightarrow> ''None'' | Some t \<Rightarrow> ''Some('' @ dl_duration dl t @ '')'')"
| "llm_error_display dl (InvalidResponse p r) = ''Invalid response from '' @ p @ '': '' @ r"
| "llm_error_display dl (ContextLengthExceeded u l) =
     ''Context length exceeded: '' @ nat_str u @ '' tokens used, '' @ nat_str l @ '' allowed''"
| "llm_error_display dl (ModelNotAvailable p m) = ''Model '' @ m @ '' not available on provider '' @ p"
| "llm_error_display dl (AuthFailed p) = ''Authentication failed for provider '' @ p"
| "llm_error_display dl (SessionExpired p) = ''Session expired for provider '' @ p"
| "llm_error_display dl (SessionRenewalFailed p r) = ''Session renewal failed for provider '' @ p @ '': '' @ r"
| "llm_error_display dl (Http e) = ''HTTP error: '' @ e"
| "llm_error_display dl (Json e) = ''JSON error: '' @ e"
| "llm_error_display dl (Io e) = ''IO error: '' @ e"

fun job_error_display :: "display_lib \<Rightarrow> job_error \<Rightarrow> string" where
  "job_error_display dl (JobNotFound i) = ''Job '' @ dl_uuid dl i @ '' not found''"
| "job_error_display dl (InvalidTransition i s t) =
     ''Job '' @ dl_uuid dl i @ '' already in state '' @ s @ '', cannot transition to '' @ t"
| "job_error_display dl (JobFailed i r) = ''Job '' @ dl_uuid dl i @ '' failed: '' @ r"
| "job_error_display dl (JobStuck i d) = ''Job '' @ dl_uuid dl i @ '' stuck for '' @ dl_duration dl d"
| "job_error_display dl (MaxJobsExceeded n) = ''Maximum parallel jobs ('' @ nat_str n @ '') exceeded''"
| "job_error_display dl (ContextError i r) = ''Job '' @ dl_uuid dl i @ '' context error: '' @ r"

fun agent_error_display :: "display_lib \<Rightarrow> agent_error \<Rightarrow> string" where
  "agent_error_display dl (AgentLlm e) = ''LLM error: '' @ llm_error_display dl e"
| "agent_error_display dl (AgentJob e) = ''Job error: '' @ job_error_display dl e"
| "agent_error_display dl (AgentTool e) = ''Tool error: '' @ tool_error_display e"

section \<open>State and surroundings\<close>

datatype worker_message = WorkerStart | WorkerStop | WorkerPing

record tool_selection =
  sel_tool_name :: string
  sel_parameters :: json
  sel_reasoning :: string
  sel_alternatives :: "string list"
  sel_tool_call_id :: string

record planned_action =
  pl_tool_name :: string
  pl_parameters :: json
  pl_reasoning :: string
  pl_expected_outcome :: string

text \<open>The estimates of a plan are only logged; the floating point ones are kept as bit patterns.\<close>

record action_plan =
  plan_goal :: string
  plan_actions :: "planned_action list"
  plan_estimated_cost :: "u64 option"
  plan_estimated_time_secs :: "u64 option"
  plan_confidence :: u64

record 'd worker_env =
  we_job :: uuid
  we_tools :: "nat \<Rightarrow> string \<Rightarrow> tool_info option"
  we_execute :: "nat \<Rightarrow> string \<Rightarrow> json \<Rightarrow> 'd job_context \<Rightarrow> exec_result"
  we_elapsed :: "nat \<Rightarrow> duration"
  we_new_id :: "nat \<Rightarrow> uuid"
  we_clock :: "nat \<Rightarrow> instant"
  we_hooks :: hook_registry
  we_json :: json_lib
  we_pretty :: "json \<Rightarrow> (string, string) result"
  we_display :: display_lib
  we_safety :: safety_layer
  we_store :: bool
  we_use_planning :: bool
  we_plan :: "chat_message list \<Rightarrow> (llm_error, action_plan) result"
  we_select :: "nat \<Rightarrow> chat_message list \<Rightarrow> (llm_error, tool_selection list) result"
  we_respond_with_tools :: "nat \<Rightarrow> chat_message list \<Rightarrow> (llm_error, respond_result) result"
  we_order :: "nat \<Rightarrow> nat list"
  we_first :: "worker_message option"
  we_recv :: "nat \<Rightarrow> worker_message option"
  we_others :: "nat \<Rightarrow> 'd context_manager \<Rightarrow> 'd context_manager"
  we_late :: "nat \<Rightarrow> bool"

text \<open>
  \<open>ws_trace\<close> lists the tools run: the operation, the name, the parameters asked for, those run with,
  and the context the tool was given.  \<open>ws_statuses\<close>, \<open>ws_saved\<close> and \<open>ws_failures\<close> are what is handed to
  the database in the background, \<open>ws_rounds\<close> counts the passes that asked the model to select.
\<close>

record 'd worker_state =
  ws_cx :: "'d context_manager"
  ws_messages :: "chat_message list"
  ws_ops :: nat
  ws_rounds :: nat
  ws_trace :: "(nat \<times> string \<times> json \<times> json \<times> 'd job_context) list"
  ws_statuses :: "(job_state \<times> string option) list"
  ws_saved :: "'d action_record list"
  ws_failures :: "(string \<times> string) list"

text \<open>How a part of the work ends: with a value, with an error, or cut off by the deadline.\<close>

datatype 'a work = Fin 'a | Fails agent_error | Cut

definition push_message :: "'d worker_state \<Rightarrow> chat_message \<Rightarrow> 'd worker_state" where
  "push_message ws m = ws\<lparr>ws_messages := ws_messages ws @ [m]\<rparr>"

text \<open>One operation passes, and the other tasks act.\<close>

definition tick :: "'d worker_env \<Rightarrow> 'd worker_state \<Rightarrow> 'd worker_state" where
  "tick env ws = ws\<lparr>ws_cx := we_others env (ws_ops ws) (ws_cx ws), ws_ops := ws_ops ws + 1\<rparr>"

section \<open>States of the job\<close>

definition persist_status :: "'d worker_env \<Rightarrow> job_state \<Rightarrow> string option \<Rightarrow> 'd worker_state \<Rightarrow> 'd worker_state" where
  "persist_status env status reason ws =
     (if we_store env then ws\<lparr>ws_statuses := ws_statuses ws @ [(status, reason)]\<rparr> else ws)"

text \<open>The common form of \<open>mark_completed\<close>, \<open>mark_failed\<close> and \<open>mark_stuck\<close>: \<open>update_context\<close> with a
  transition, its two errors, and the status for the database.\<close>

definition mark_job ::
  "'d worker_env \<Rightarrow> ('d job_context \<Rightarrow> 'd job_context \<times> (string, unit) result) \<Rightarrow> job_state \<Rightarrow> string \<Rightarrow>
   'd worker_state \<Rightarrow> 'd worker_state \<times> unit work" where
  "mark_job env f status reason ws =
     (case update_context (ws_cx ws) (we_job env) f of
        (cx, Err e) \<Rightarrow> (ws\<lparr>ws_cx := cx\<rparr>, Fails (AgentJob e))
      | (cx, Ok (Err s)) \<Rightarrow> (ws\<lparr>ws_cx := cx\<rparr>, Fails (AgentJob (ContextError (we_job env) s)))
      | (cx, Ok (Ok _)) \<Rightarrow> (persist_status env status (Some reason) (ws\<lparr>ws_cx := cx\<rparr>), Fin ()))"

definition mark_completed :: "'d worker_env \<Rightarrow> 'd worker_state \<Rightarrow> 'd worker_state \<times> unit work" where
  "mark_completed env ws =
     (let now = we_clock env (ws_ops ws) in
      mark_job env (\<lambda>c. transition_to now now c job_state.Completed (Some ''Job completed successfully'')) job_state.Completed
        ''Job completed successfully'' ws)"

definition mark_failed :: "'d worker_env \<Rightarrow> string \<Rightarrow> 'd worker_state \<Rightarrow> 'd worker_state \<times> unit work" where
  "mark_failed env reason ws =
     (let now = we_clock env (ws_ops ws) in
      mark_job env (\<lambda>c. transition_to now now c job_state.Failed (Some reason)) job_state.Failed reason ws)"

definition worker_mark_stuck :: "'d worker_env \<Rightarrow> string \<Rightarrow> 'd worker_state \<Rightarrow> 'd worker_state \<times> unit work" where
  "worker_mark_stuck env reason ws =
     (let now = we_clock env (ws_ops ws) in
      mark_job env (\<lambda>c. mark_stuck now now c reason) Stuck reason ws)"

section \<open>Tools\<close>

definition worker_hook_params ::
  "'d worker_env \<Rightarrow> 'd job_context \<Rightarrow> string \<Rightarrow> json \<Rightarrow> (tool_error, json) result" where
  "worker_hook_params env job_ctx tool_name params =
     (case run_hooks (we_json env) (we_hooks env)
             (ToolCallEvent tool_name params (jc_user_id job_ctx) (''job:'' @ dl_uuid (we_display env) (we_job env))) of
        Err (Rejected reason) \<Rightarrow> Err (ToolExecutionFailed tool_name (''Blocked by hook: '' @ reason))
      | Err err \<Rightarrow> Err (ToolExecutionFailed tool_name (''Blocked by hook failure mode: '' @
          hook_error_display (jl_duration (we_json env)) err))
      | Ok (Continue (Some new_params)) \<Rightarrow>
          Ok (case jl_from (we_json env) new_params of Some p \<Rightarrow> p | None \<Rightarrow> params)
      | Ok _ \<Rightarrow> Ok params)"

text \<open>The record of an action in the memory of the job.\<close>

definition action_of ::
  "'d worker_env \<Rightarrow> nat \<Rightarrow> string \<Rightarrow> json \<Rightarrow> exec_result \<Rightarrow> 'd memory \<Rightarrow> 'd memory \<times> 'd action_record" where
  "action_of env n tool_name params r mem =
     (case create_action (we_new_id env n) (we_clock env n) mem tool_name params of (mem', a) \<Rightarrow>
        let rec = (case r of
            ExecOk v \<Rightarrow>
              action_succeed a
                (case we_pretty env v of
                   Ok s \<Rightarrow> Some (so_content (sanitize_tool_output (we_safety env) tool_name s))
                 | Err _ \<Rightarrow> None) v (we_elapsed env n)
          | ExecErr e \<Rightarrow> action_fail a e (we_elapsed env n)
          | ExecTimeout \<Rightarrow> action_fail a ''Execution timeout'' (we_elapsed env n))
        in (record_action mem' rec, rec))"

definition record_outcome ::
  "'d worker_env \<Rightarrow> nat \<Rightarrow> string \<Rightarrow> json \<Rightarrow> exec_result \<Rightarrow> 'd worker_state \<Rightarrow> 'd worker_state" where
  "record_outcome env n tool_name params r ws =
     (case update_memory (ws_cx ws) (we_job env) (action_of env n tool_name params r) of
        (cx, Ok a) \<Rightarrow> ws\<lparr>ws_cx := cx, ws_saved := (if we_store env then ws_saved ws @ [a] else ws_saved ws)\<rparr>
      | (cx, Err _) \<Rightarrow> ws\<lparr>ws_cx := cx\<rparr>)"

definition tool_output ::
  "'d worker_env \<Rightarrow> string \<Rightarrow> tool_info \<Rightarrow> exec_result \<Rightarrow> (agent_error, string) result" where
  "tool_output env tool_name tool r =
     (case r of
        ExecTimeout \<Rightarrow> Err (AgentTool (ToolTimeout tool_name (ti_timeout_debug tool)))
      | ExecErr e \<Rightarrow> Err (AgentTool (ToolExecutionFailed tool_name e))
      | ExecOk v \<Rightarrow>
          (case we_pretty env v of
             Ok s \<Rightarrow> Ok s
           | Err e \<Rightarrow> Err (AgentTool (ToolExecutionFailed tool_name (''Failed to serialize result: '' @ e)))))"

definition invalid_details :: "validation_result \<Rightarrow> string" where
  "invalid_details r = join ''; '' (map (\<lambda>e. ve_field e @ '': '' @ ve_message e) (vr_errors r))"

text \<open>What is checked before a tool runs: the error, or the tool, its context and its parameters.\<close>

definition tool_admission ::
  "'d worker_env \<Rightarrow> 'd worker_state \<Rightarrow> string \<Rightarrow> json \<Rightarrow>
   (agent_error, tool_info \<times> 'd job_context \<times> json) result" where
  "tool_admission env ws tool_name params =
     (case we_tools env (ws_ops ws) tool_name of
        None \<Rightarrow> Err (AgentTool (ToolNotFound tool_name))
      | Some tool \<Rightarrow>
          if ti_requires_approval tool then Err (AgentTool (ToolAuthRequired tool_name))
          else case get_context (ws_cx ws) (we_job env) of
            Err e \<Rightarrow> Err (AgentJob e)
          | Ok job_ctx \<Rightarrow>
              (case worker_hook_params env job_ctx tool_name params of
                 Err e \<Rightarrow> Err (AgentTool e)
               | Ok args \<Rightarrow>
                   if jc_state job_ctx = job_state.Cancelled
                   then Err (AgentTool (ToolExecutionFailed tool_name ''Job is cancelled''))
                   else let validation = validate_tool_params (sl_validator (we_safety env)) args in
                     if \<not> vr_is_valid validation
                     then Err (AgentTool (ToolInvalidParameters tool_name
                            (''Invalid tool parameters: '' @ invalid_details validation)))
                     else Ok (tool, job_ctx, args)))"

definition execute_tool_inner ::
  "'d worker_env \<Rightarrow> 'd worker_state \<Rightarrow> string \<Rightarrow> json \<Rightarrow>
   'd worker_state \<times> (agent_error, string) result work" where
  "execute_tool_inner env ws tool_name params =
     (let n = ws_ops ws in
      case tool_admission env ws tool_name params of
        Err e \<Rightarrow> (tick env ws, if we_late env n then Cut else Fin (Err e))
      | Ok (tool, job_ctx, args) \<Rightarrow>
          let r = we_execute env n tool_name args job_ctx;
              ws1 = tick env (ws\<lparr>ws_trace := ws_trace ws @ [(n, tool_name, params, args, job_ctx)]\<rparr>)
          in if we_late env n then (ws1, Cut)
             else (record_outcome env n tool_name args r ws1, Fin (tool_output env tool_name tool r)))"

definition process_tool_result ::
  "'d worker_env \<Rightarrow> tool_selection \<Rightarrow> (agent_error, string) result \<Rightarrow> 'd worker_state \<Rightarrow> 'd worker_state" where
  "process_tool_result env sel r ws =
     (case r of
        Ok output \<Rightarrow>
          push_message ws (msg_tool_result (sel_tool_call_id sel) (sel_tool_name sel)
            (safe_tool_content (we_safety env) (sel_tool_name sel) output))
      | Err e \<Rightarrow>
          let text = agent_error_display (we_display env) e;
              ws' = (if we_store env then ws\<lparr>ws_failures := ws_failures ws @ [(sel_tool_name sel, text)]\<rparr> else ws)
          in push_message ws' (msg_tool_result (sel_tool_call_id sel) (sel_tool_name sel) (''Error: '' @ text)))"

fun run_calls :: "'d worker_env \<Rightarrow> 'd worker_state \<Rightarrow> tool_selection list \<Rightarrow> 'd worker_state \<times> unit work" where
  "run_calls env ws [] = (ws, Fin ())"
| "run_calls env ws (sel # sels) =
     (case execute_tool_inner env ws (sel_tool_name sel) (sel_parameters sel) of
        (ws', Fin r) \<Rightarrow> run_calls env (process_tool_result env sel r ws') sels
      | (ws', Fails e) \<Rightarrow> (ws', Fails e)
      | (ws', Cut) \<Rightarrow> (ws', Cut))"

text \<open>
  Several selections run at the same time.  Each run is one operation; the order in which they happen
  is the runtime's, and the results come back by position.
\<close>

fun run_positions ::
  "'d worker_env \<Rightarrow> tool_selection list \<Rightarrow> 'd worker_state \<Rightarrow> nat list \<Rightarrow>
   'd worker_state \<times> (nat \<times> (agent_error, string) result) list work" where
  "run_positions env sels ws [] = (ws, Fin [])"
| "run_positions env sels ws (i # is) =
     (case execute_tool_inner env ws (sel_tool_name (sels ! i)) (sel_parameters (sels ! i)) of
        (ws', Fin r) \<Rightarrow>
          (case run_positions env sels ws' is of
             (ws'', Fin rs) \<Rightarrow> (ws'', Fin ((i, r) # rs))
           | (ws'', Fails e) \<Rightarrow> (ws'', Fails e)
           | (ws'', Cut) \<Rightarrow> (ws'', Cut))
      | (ws', Fails e) \<Rightarrow> (ws', Fails e)
      | (ws', Cut) \<Rightarrow> (ws', Cut))"

definition parallel_order :: "'d worker_env \<Rightarrow> nat \<Rightarrow> nat \<Rightarrow> nat list" where
  "parallel_order env n k = (if sort (we_order env n) = [0..<k] then we_order env n else [0..<k])"

definition execute_tools_parallel ::
  "'d worker_env \<Rightarrow> 'd worker_state \<Rightarrow> tool_selection list \<Rightarrow>
   'd worker_state \<times> (agent_error, string) result list work" where
  "execute_tools_parallel env ws sels =
     (case run_positions env sels ws (parallel_order env (ws_ops ws) (length sels)) of
        (ws', Fin rs) \<Rightarrow> (ws', Fin (List.map_filter (map_of rs) [0..<length sels]))
      | (ws', Fails e) \<Rightarrow> (ws', Fails e)
      | (ws', Cut) \<Rightarrow> (ws', Cut))"

definition process_all ::
  "'d worker_env \<Rightarrow> (tool_selection \<times> (agent_error, string) result) list \<Rightarrow> 'd worker_state \<Rightarrow> 'd worker_state" where
  "process_all env rs ws = foldl (\<lambda>ws (sel, r). process_tool_result env sel r ws) ws rs"

section \<open>The loop\<close>

definition MAX_WORKER_ITERATIONS :: nat where
  "MAX_WORKER_ITERATIONS = 50"

definition selection_of_call :: "tool_call \<Rightarrow> tool_selection" where
  "selection_of_call tc =
     \<lparr>sel_tool_name = tc_name tc, sel_parameters = tc_arguments tc, sel_reasoning = [], sel_alternatives = [],
      sel_tool_call_id = tc_id tc\<rparr>"

text \<open>Continue with the next pass, or return from the loop.\<close>

datatype loop_flow = NextPass | LeaveLoop

definition after_work :: "'d worker_state \<times> 'a work \<Rightarrow> loop_flow \<Rightarrow> 'd worker_state \<times> loop_flow work" where
  "after_work r fl =
     (case r of (ws, Fin _) \<Rightarrow> (ws, Fin fl) | (ws, Fails e) \<Rightarrow> (ws, Fails e) | (ws, Cut) \<Rightarrow> (ws, Cut))"

definition stuck_question :: string where
  "stuck_question = ''Are you stuck? Do you need help completing this job?''"

text \<open>No selection: the model is asked directly.\<close>

definition respond_pass :: "'d worker_env \<Rightarrow> nat \<Rightarrow> 'd worker_state \<Rightarrow> 'd worker_state \<times> loop_flow work" where
  "respond_pass env iteration ws =
     (let n = ws_ops ws; ws1 = tick env ws in
      if we_late env n then (ws1, Cut)
      else case we_respond_with_tools env n (ws_messages ws) of
        Err e \<Rightarrow> (ws1, Fails (AgentLlm e))
      | Ok (Text response) \<Rightarrow>
          if llm_signals_completion response then after_work (mark_completed env ws1) LeaveLoop
          else let ws2 = push_message ws1 (msg_assistant response) in
            (if iteration > 3 \<and> iteration mod 5 = 0 then push_message ws2 (msg_user stuck_question) else ws2,
             Fin NextPass)
      | Ok (ToolCalls tcs content) \<Rightarrow>
          after_work (run_calls env (push_message ws1 (assistant_with_tool_calls content tcs)) (map selection_of_call tcs))
            NextPass)"

definition cancelled :: "'d worker_env \<Rightarrow> 'd worker_state \<Rightarrow> bool" where
  "cancelled env ws =
     (case get_context (ws_cx ws) (we_job env) of Ok c \<Rightarrow> jc_state c = job_state.Cancelled | Err _ \<Rightarrow> False)"

definition select_pass :: "'d worker_env \<Rightarrow> nat \<Rightarrow> 'd worker_state \<Rightarrow> 'd worker_state \<times> loop_flow work" where
  "select_pass env iteration ws =
     (let n = ws_ops ws; ws1 = (tick env ws)\<lparr>ws_rounds := ws_rounds ws + 1\<rparr> in
      if we_late env n then (ws1, Cut)
      else case we_select env n (ws_messages ws) of
        Err e \<Rightarrow> (ws1, Fails (AgentLlm e))
      | Ok [] \<Rightarrow> respond_pass env iteration ws1
      | Ok [sel] \<Rightarrow> after_work (run_calls env ws1 [sel]) NextPass
      | Ok sels \<Rightarrow>
          (case execute_tools_parallel env ws1 sels of
             (ws2, Fin rs) \<Rightarrow> (process_all env (zip sels rs) ws2, Fin NextPass)
           | (ws2, Fails e) \<Rightarrow> (ws2, Fails e)
           | (ws2, Cut) \<Rightarrow> (ws2, Cut)))"

definition worker_pass :: "'d worker_env \<Rightarrow> nat \<Rightarrow> 'd worker_state \<Rightarrow> 'd worker_state \<times> loop_flow work" where
  "worker_pass env iteration ws0 =
     (let n = ws_ops ws0; ws = tick env ws0 in
      if we_late env n then (ws, Cut)
      else if we_recv env n = Some WorkerStop then (ws, Fin LeaveLoop)
      else if cancelled env ws then (ws, Fin LeaveLoop)
      else if iteration + 1 > MAX_WORKER_ITERATIONS
      then after_work (worker_mark_stuck env ''Maximum iterations exceeded'' ws) LeaveLoop
      else select_pass env (iteration + 1) ws)"

lemma worker_pass_next: "worker_pass env i ws = (ws', Fin NextPass) \<Longrightarrow> i < MAX_WORKER_ITERATIONS"
  by (rule ccontr) (simp add: worker_pass_def after_work_def Let_def split: if_splits prod.splits work.splits)

function direct_loop :: "'d worker_env \<Rightarrow> nat \<Rightarrow> 'd worker_state \<Rightarrow> 'd worker_state \<times> unit work" where
  "direct_loop env iteration ws =
     (case worker_pass env iteration ws of
        (ws', Fin NextPass) \<Rightarrow> direct_loop env (iteration + 1) ws'
      | (ws', Fin LeaveLoop) \<Rightarrow> (ws', Fin ())
      | (ws', Fails e) \<Rightarrow> (ws', Fails e)
      | (ws', Cut) \<Rightarrow> (ws', Cut))"
  by pat_completeness auto
termination
  by (relation "measure (\<lambda>(env, i, ws). MAX_WORKER_ITERATIONS - i)") (auto dest!: worker_pass_next [OF sym])

declare direct_loop.simps [simp del]

section \<open>Plans\<close>

definition plan_selection :: "'d worker_env \<Rightarrow> nat \<Rightarrow> planned_action \<Rightarrow> tool_selection" where
  "plan_selection env i a =
     \<lparr>sel_tool_name = pl_tool_name a, sel_parameters = pl_parameters a, sel_reasoning = pl_reasoning a,
      sel_alternatives = [], sel_tool_call_id = ''plan_'' @ dl_uuid (we_display env) (we_job env) @ ''_'' @ nat_str i\<rparr>"

fun run_plan :: "'d worker_env \<Rightarrow> nat \<Rightarrow> planned_action list \<Rightarrow> 'd worker_state \<Rightarrow> 'd worker_state \<times> loop_flow work" where
  "run_plan env i [] ws = (ws, Fin NextPass)"
| "run_plan env i (a # as) ws0 =
     (let n = ws_ops ws0; ws = tick env ws0 in
      if we_late env n then (ws, Cut)
      else if we_recv env n = Some WorkerStop then (ws, Fin LeaveLoop)
      else case run_calls env ws [plan_selection env i a] of
        (ws', Fin _) \<Rightarrow> run_plan env (Suc i) as ws'
      | (ws', Fails e) \<Rightarrow> (ws', Fails e)
      | (ws', Cut) \<Rightarrow> (ws', Cut))"

definition plan_question :: string where
  "plan_question = ''All planned actions have been executed. Is the job complete? If not, what else needs to be done?''"

text \<open>\<open>Reasoning::respond\<close>: tool calls become text.\<close>

definition respond_text :: "'d worker_env \<Rightarrow> respond_result \<Rightarrow> string" where
  "respond_text env r =
     (case r of
        Text t \<Rightarrow> t
      | ToolCalls calls _ \<Rightarrow> ''[Calling tools: '' @ join '', '' (map (\<lambda>tc. [CHR 0x60] @ tc_name tc @ ''('' @
          jl_to (we_json env) (tc_arguments tc) @ '')'' @ [CHR 0x60]) calls) @ '']'')"

definition execute_plan :: "'d worker_env \<Rightarrow> action_plan \<Rightarrow> 'd worker_state \<Rightarrow> 'd worker_state \<times> unit work" where
  "execute_plan env plan ws0 =
     (case run_plan env 0 (plan_actions plan) ws0 of
        (ws, Fin LeaveLoop) \<Rightarrow> (ws, Fin ())
      | (ws, Fails e) \<Rightarrow> (ws, Fails e)
      | (ws, Cut) \<Rightarrow> (ws, Cut)
      | (ws, Fin NextPass) \<Rightarrow>
          let n = ws_ops ws; ws1 = tick env (push_message ws (msg_user plan_question)) in
          if we_late env n then (ws1, Cut)
          else case we_respond_with_tools env n (ws_messages ws @ [msg_user plan_question]) of
            Err e \<Rightarrow> (ws1, Fails (AgentLlm e))
          | Ok r \<Rightarrow>
              let response = respond_text env r; ws2 = push_message ws1 (msg_assistant response) in
              if llm_signals_completion response then mark_completed env ws2
              else worker_mark_stuck env ''Plan completed but job incomplete - needs re-planning'' ws2)"

definition plan_message :: "action_plan \<Rightarrow> chat_message" where
  "plan_message p = msg_assistant (''I've created a plan to accomplish this goal: '' @ plan_goal p @
     [CHR 0x0A, CHR 0x0A] @ ''Steps:'' @ [CHR 0x0A] @
     join [CHR 0x0A] (map (\<lambda>(i, a). nat_str (i + 1) @ ''. '' @ pl_tool_name a @ '' - '' @ pl_reasoning a)
       (List.enumerate 0 (plan_actions p))))"

definition execution_loop :: "'d worker_env \<Rightarrow> 'd worker_state \<Rightarrow> 'd worker_state \<times> unit work" where
  "execution_loop env ws =
     (if we_use_planning env
      then let n = ws_ops ws; ws1 = tick env ws in
        if we_late env n then (ws1, Cut)
        else case we_plan env (ws_messages ws) of
          Ok p \<Rightarrow> execute_plan env p (push_message ws1 (plan_message p))
        | Err _ \<Rightarrow> direct_loop env 0 ws1
      else direct_loop env 0 ws)"

definition job_prompt :: "'d job_context \<Rightarrow> string" where
  "job_prompt c = ''You are an autonomous agent working on a job.'' @ [CHR 0x0A, CHR 0x0A] @
     ''Job: '' @ jc_title c @ [CHR 0x0A] @ ''Description: '' @ jc_description c @ [CHR 0x0A, CHR 0x0A] @
     ''You have access to tools to complete this job. Plan your approach and execute tools as needed.'' @ [CHR 0x0A] @
     ''You may request multiple tools at once if they can be executed in parallel.'' @ [CHR 0x0A] @
     ''Report when the job is complete or if you encounter issues you cannot resolve.''"

definition worker_state_new :: "'d context_manager \<Rightarrow> 'd worker_state" where
  "worker_state_new cx = \<lparr>ws_cx = cx, ws_messages = [], ws_ops = 0, ws_rounds = 0, ws_trace = [], ws_statuses = [],
     ws_saved = [], ws_failures = []\<rparr>"

definition worker_run :: "'d worker_env \<Rightarrow> 'd context_manager \<Rightarrow> 'd worker_state \<times> (agent_error, unit) result" where
  "worker_run env cx =
     (let ws = worker_state_new cx in
      if we_first env = None \<or> we_first env = Some WorkerStop then (ws, Ok ())
      else case get_context (ws_cx ws) (we_job env) of
        Err e \<Rightarrow> (ws, Err (AgentJob e))
      | Ok job_ctx \<Rightarrow>
          let settle = (\<lambda>r. case r of (ws', Fin _) \<Rightarrow> (ws', Ok ()) | (ws', Fails e) \<Rightarrow> (ws', Err e) | (ws', Cut) \<Rightarrow> (ws', Ok ()))
          in case execution_loop env (push_message ws (msg_system (job_prompt job_ctx))) of
            (ws', Fin _) \<Rightarrow> (ws', Ok ())
          | (ws', Fails e) \<Rightarrow> settle (mark_failed env (agent_error_display (we_display env) e) ws')
          | (ws', Cut) \<Rightarrow> settle (worker_mark_stuck env ''Execution timeout'' ws'))"


section \<open>A rule for runs\<close>

text \<open>
  What every operation of a worker keeps, a whole run keeps.  The job is completed only after an
  answer of the model that signals completion.
\<close>

definition completion_answer :: "'d worker_env \<Rightarrow> bool" where
  "completion_answer env \<longleftrightarrow>
     (\<exists>n ms r. we_respond_with_tools env n ms = Ok r \<and> llm_signals_completion (respond_text env r))"

lemma fst_after_work: "fst (after_work r fl) = fst r"
  by (auto simp: after_work_def split: prod.splits work.splits)

locale worker_frame =
  fixes env :: "'d worker_env" and I :: "'d worker_state \<Rightarrow> bool"
  assumes tick: "I ws \<Longrightarrow> I (tick env ws)"
    and message: "I ws \<Longrightarrow> I (push_message ws m)"
    and tool: "I ws \<Longrightarrow> I (fst (execute_tool_inner env ws name params))"
    and processed: "I ws \<Longrightarrow> I (process_tool_result env sel r ws)"
begin

lemma calls: "I ws \<Longrightarrow> I (fst (run_calls env ws sels))"
proof (induction sels arbitrary: ws)
  case (Cons sel sels)
  obtain ws1 r where e: "execute_tool_inner env ws (sel_tool_name sel) (sel_parameters sel) = (ws1, r)" by fastforce
  have "I ws1" using tool [OF Cons.prems] e by (metis fst_conv)
  with Cons.IH processed show ?case by (cases r) (simp_all add: e)
qed simp

lemma positions: "I ws \<Longrightarrow> I (fst (run_positions env sels ws is))"
proof (induction "is" arbitrary: ws)
  case (Cons i "is")
  obtain ws1 r where e: "execute_tool_inner env ws (sel_tool_name (sels ! i)) (sel_parameters (sels ! i)) = (ws1, r)"
    by fastforce
  have "I ws1" using tool [OF Cons.prems] e by (metis fst_conv)
  from Cons.IH [OF this] this show ?case by (auto simp: e split: prod.splits work.splits)
qed simp

lemma parallel: "I ws \<Longrightarrow> I (fst (execute_tools_parallel env ws sels))"
proof -
  assume ws: "I ws"
  obtain ws1 r where e: "run_positions env sels ws (parallel_order env (ws_ops ws) (length sels)) = (ws1, r)" by fastforce
  have "I ws1" using positions [OF ws] e by (metis fst_conv)
  then show ?thesis by (cases r) (simp_all add: execute_tools_parallel_def e)
qed

lemma processed_all: "I ws \<Longrightarrow> I (process_all env rs ws)"
  unfolding process_all_def by (induction rs arbitrary: ws) (auto intro: processed)

lemma plan_steps: "I ws \<Longrightarrow> I (fst (run_plan env i as ws))"
proof (induction "as" arbitrary: i ws)
  case (Cons a "as")
  have ws1: "I (tick env ws)" using Cons.prems by (rule tick)
  obtain ws2 r where e: "run_calls env (tick env ws) [plan_selection env i a] = (ws2, r)" by fastforce
  have "I ws2" using calls [OF ws1] e by (metis fst_conv)
  with Cons.IH ws1 show ?case by (cases r) (simp_all add: e Let_def del: run_calls.simps)
qed simp

end

locale worker_invariant = worker_frame env I for env :: "'d worker_env" and I :: "'d worker_state \<Rightarrow> bool" +
  assumes round: "I ws \<Longrightarrow> I (ws\<lparr>ws_rounds := k\<rparr>)"
    and completed: "I ws \<Longrightarrow> completion_answer env \<Longrightarrow> I (fst (mark_completed env ws))"
    and failed: "I ws \<Longrightarrow> I (fst (mark_failed env reason ws))"
    and stuck: "I ws \<Longrightarrow> I (fst (worker_mark_stuck env reason ws))"
begin

lemma respond: "I ws \<Longrightarrow> I (fst (respond_pass env i ws))"
proof -
  assume ws: "I ws"
  then have ws1: "I (tick env ws)" by (rule tick)
  have said: "completion_answer env" if "we_respond_with_tools env n ms = Ok (Text t)" "llm_signals_completion t" for n ms t
    unfolding completion_answer_def using that by (intro exI [of _ n] exI [of _ ms] exI [of _ "Text t"]) (simp add: respond_text_def)
  show ?thesis
  proof (cases "we_respond_with_tools env (ws_ops ws) (ws_messages ws)")
    case (Inl e)
    with ws1 show ?thesis by (simp add: respond_pass_def Let_def)
  next
    case (Inr r)
    then show ?thesis
    proof (cases r)
      case (Text t)
      with Inr said [of "ws_ops ws" "ws_messages ws" t] completed [OF ws1] message [OF message [OF ws1]] message [OF ws1] ws1
      show ?thesis by (simp add: respond_pass_def Let_def fst_after_work)
    next
      case (ToolCalls tcs c)
      with Inr calls [OF message [OF ws1]] ws1 show ?thesis by (simp add: respond_pass_def Let_def fst_after_work)
    qed
  qed
qed

lemma select: "I ws \<Longrightarrow> I (fst (select_pass env i ws))"
proof -
  assume ws: "I ws"
  define ws1 where "ws1 = (tick env ws)\<lparr>ws_rounds := ws_rounds ws + 1\<rparr>"
  have I: "I ws1" unfolding ws1_def by (intro round tick ws)
  show ?thesis
  proof (cases "we_select env (ws_ops ws) (ws_messages ws)")
    case (Inl e)
    with I show ?thesis by (simp add: select_pass_def Let_def ws1_def)
  next
    case (Inr sels)
    consider "sels = []" | sel where "sels = [sel]" | a b rest where "sels = a # b # rest"
      by (metis neq_Nil_conv)
    then show ?thesis
    proof cases
      case 1
      with Inr I respond [OF I, of i] show ?thesis by (simp add: select_pass_def Let_def ws1_def)
    next
      case 2
      with Inr I calls [OF I, of sels] show ?thesis
        by (simp add: select_pass_def Let_def ws1_def fst_after_work del: run_calls.simps)
    next
      case 3
      obtain ws2 r where e: "execute_tools_parallel env ws1 (a # b # rest) = (ws2, r)" by fastforce
      have "I ws2" using parallel [OF I] e by (metis fst_conv)
      with 3 Inr I e processed_all show ?thesis by (cases r) (simp_all add: select_pass_def Let_def ws1_def)
    qed
  qed
qed

lemma pass: "I ws \<Longrightarrow> I (fst (worker_pass env i ws))"
  by (auto simp: worker_pass_def Let_def fst_after_work intro!: tick stuck select)

lemma direct: "I ws \<Longrightarrow> I (fst (direct_loop env i ws))"
proof -
  have "env' = env \<Longrightarrow> I ws \<Longrightarrow> I (fst (direct_loop env' i ws))" for env'
  proof (induction env' i ws rule: direct_loop.induct)
    case (1 env' i ws)
    obtain ws1 r where e: "worker_pass env i ws = (ws1, r)" by fastforce
    have "I ws1" using pass [OF 1(3)] e by (metis fst_conv)
    with 1(1,2) e show ?case by (subst direct_loop.simps) (auto split: work.splits loop_flow.splits)
  qed
  then show "I ws \<Longrightarrow> I (fst (direct_loop env i ws))" by simp
qed

lemma planned: "I ws \<Longrightarrow> I (fst (execute_plan env plan ws))"
proof -
  assume ws: "I ws"
  obtain ws1 r where e: "run_plan env 0 (plan_actions plan) ws = (ws1, r)" by fastforce
  have ws1: "I ws1" using plan_steps [OF ws] e by (metis fst_conv)
  let ?ws2 = "tick env (push_message ws1 (msg_user plan_question))"
  have ws2: "I ?ws2" using ws1 by (intro tick message)
  have said: "completion_answer env"
    if "we_respond_with_tools env n ms = Ok r" "llm_signals_completion (respond_text env r)" for n ms r
    unfolding completion_answer_def using that by blast
  show ?thesis
  proof (cases "r = Fin NextPass")
    case True
    show ?thesis
    proof (cases "we_respond_with_tools env (ws_ops ws1) (ws_messages ws1 @ [msg_user plan_question])")
      case (Inl err)
      with True e ws2 show ?thesis by (simp add: execute_plan_def Let_def)
    next
      case (Inr a)
      with True e ws2 said [OF Inr] completed [OF message [OF ws2]] stuck [OF message [OF ws2]]
      show ?thesis by (simp add: execute_plan_def Let_def)
    qed
  next
    case False
    with e ws1 show ?thesis by (cases r) (auto simp: execute_plan_def split: loop_flow.splits)
  qed
qed

lemma executed: "I ws \<Longrightarrow> I (fst (execution_loop env ws))"
proof -
  assume ws: "I ws"
  then have ws1: "I (tick env ws)" by (rule tick)
  show ?thesis
    using direct [OF ws] direct [OF ws1] planned [OF message [OF ws1]] ws1
    by (cases "we_plan env (ws_messages ws)") (simp_all add: execution_loop_def Let_def)
qed

lemma run: "I (worker_state_new cx) \<Longrightarrow> I (fst (worker_run env cx))"
proof -
  assume new: "I (worker_state_new cx)"
  show ?thesis
  proof (cases "get_context cx (we_job env)")
    case (Inl e)
    with new show ?thesis by (simp add: worker_run_def worker_state_new_def Let_def)
  next
    case (Inr c)
    let ?ws = "push_message (worker_state_new cx) (msg_system (job_prompt c))"
    obtain ws1 r where e: "execution_loop env ?ws = (ws1, r)" by fastforce
    have ws1: "I ws1" using executed [OF message [OF new]] e by (metis fst_conv)
    have settle: "fst (case p of (ws', Fin u) \<Rightarrow> (ws', Ok ()) | (ws', Fails x) \<Rightarrow> (ws', Err x) | (ws', Cut) \<Rightarrow> (ws', Ok ())) = fst p"
      for p :: "'d worker_state \<times> unit work" by (auto split: prod.splits work.splits)
    have cx: "ws_cx (worker_state_new cx) = cx" by (simp add: worker_state_new_def)
    from new ws1 failed [OF ws1] stuck [OF ws1] show ?thesis
      by (cases r) (simp_all add: worker_run_def Let_def cx Inr e settle)
  qed
qed

end

section \<open>What the operations leave alone\<close>

lemma tick_fields [simp]:
  "ws_messages (tick env ws) = ws_messages ws" "ws_rounds (tick env ws) = ws_rounds ws" "ws_trace (tick env ws) = ws_trace ws"
  "ws_statuses (tick env ws) = ws_statuses ws" "ws_cx (tick env ws) = we_others env (ws_ops ws) (ws_cx ws)"
  by (simp_all add: tick_def)

lemma push_message_fields [simp]:
  "ws_messages (push_message ws m) = ws_messages ws @ [m]" "ws_rounds (push_message ws m) = ws_rounds ws"
  "ws_trace (push_message ws m) = ws_trace ws" "ws_statuses (push_message ws m) = ws_statuses ws"
  "ws_cx (push_message ws m) = ws_cx ws" "ws_ops (push_message ws m) = ws_ops ws"
  by (simp_all add: push_message_def)

lemma record_outcome_fields [simp]:
  "ws_messages (record_outcome env n t p r ws) = ws_messages ws" "ws_rounds (record_outcome env n t p r ws) = ws_rounds ws"
  "ws_trace (record_outcome env n t p r ws) = ws_trace ws" "ws_statuses (record_outcome env n t p r ws) = ws_statuses ws"
  "cx_contexts (ws_cx (record_outcome env n t p r ws)) = cx_contexts (ws_cx ws)" "ws_ops (record_outcome env n t p r ws) = ws_ops ws"
  by (auto simp: record_outcome_def update_memory_def split: prod.splits option.splits sum.splits)

lemma process_tool_result_fields [simp]:
  "ws_rounds (process_tool_result env sel r ws) = ws_rounds ws" "ws_trace (process_tool_result env sel r ws) = ws_trace ws"
  "ws_ops (process_tool_result env sel r ws) = ws_ops ws"
  "ws_statuses (process_tool_result env sel r ws) = ws_statuses ws" "ws_cx (process_tool_result env sel r ws) = ws_cx ws"
  by (auto simp: process_tool_result_def Let_def split: sum.splits)

lemma mark_job_fields [simp]:
  "ws_messages (fst (mark_job env f s r ws)) = ws_messages ws" "ws_rounds (fst (mark_job env f s r ws)) = ws_rounds ws"
  "ws_trace (fst (mark_job env f s r ws)) = ws_trace ws"
  by (auto simp: mark_job_def persist_status_def split: prod.splits sum.splits)

lemmas mark_defs = mark_completed_def mark_failed_def worker_mark_stuck_def

lemma mark_statuses:
  "set (ws_statuses (fst (mark_job env f s r ws))) \<subseteq> insert (s, Some r) (set (ws_statuses ws))"
  by (auto simp: mark_job_def persist_status_def split: prod.splits sum.splits)

lemma execute_tool_fields [simp]:
  "ws_messages (fst (execute_tool_inner env ws t p)) = ws_messages ws" "ws_rounds (fst (execute_tool_inner env ws t p)) = ws_rounds ws"
  "ws_statuses (fst (execute_tool_inner env ws t p)) = ws_statuses ws"
  "cx_contexts (ws_cx (fst (execute_tool_inner env ws t p))) = cx_contexts (we_others env (ws_ops ws) (ws_cx ws))"
  by (auto simp: execute_tool_inner_def Let_def tick_def split: sum.splits prod.splits)

lemma execute_tool_trace:
  "ws_trace (fst (execute_tool_inner env ws t p)) = ws_trace ws \<or>
   (\<exists>tool c args. tool_admission env ws t p = Ok (tool, c, args) \<and>
      ws_trace (fst (execute_tool_inner env ws t p)) = ws_trace ws @ [(ws_ops ws, t, p, args, c)])"
  by (auto simp: execute_tool_inner_def Let_def split: sum.splits prod.splits)

section \<open>Guarded tools\<close>

definition admitted :: "'d worker_env \<Rightarrow> nat \<times> string \<times> json \<times> json \<times> 'd job_context \<Rightarrow> bool" where
  "admitted env call =
     (case call of (n, name, given, args, c) \<Rightarrow>
        pred_option (\<lambda>tool. \<not> ti_requires_approval tool) (we_tools env n name) \<and> we_tools env n name \<noteq> None \<and>
        worker_hook_params env c name given = Ok args \<and> jc_state c \<noteq> job_state.Cancelled \<and>
        vr_is_valid (validate_tool_params (sl_validator (we_safety env)) args))"

lemma admission_admitted: "tool_admission env ws t p = Ok (tool, c, args) \<Longrightarrow> admitted env (ws_ops ws, t, p, args, c)"
  by (auto simp: tool_admission_def admitted_def Let_def split: option.splits if_splits sum.splits)

interpretation gated: worker_invariant env "\<lambda>ws. \<forall>call \<in> set (ws_trace ws). admitted env call" for env
proof
  show "\<forall>call \<in> set (ws_trace (fst (execute_tool_inner env ws name params))). admitted env call"
    if "\<forall>call \<in> set (ws_trace ws). admitted env call" for ws name params
    using that execute_tool_trace [of env ws name params] admission_admitted [of env ws name params] by auto
qed (simp_all add: mark_defs Let_def)

interpretation completion: worker_invariant env
  "\<lambda>ws. (\<exists>reason. (job_state.Completed, reason) \<in> set (ws_statuses ws)) \<longrightarrow> completion_answer env" for env
proof
  show "(\<exists>reason. (job_state.Completed, reason) \<in> set (ws_statuses (fst (mark_failed env r ws)))) \<longrightarrow> completion_answer env"
    if "(\<exists>reason. (job_state.Completed, reason) \<in> set (ws_statuses ws)) \<longrightarrow> completion_answer env" for ws r
    using that mark_statuses [of env _ job_state.Failed r ws] unfolding mark_failed_def Let_def by blast
  show "(\<exists>reason. (job_state.Completed, reason) \<in> set (ws_statuses (fst (worker_mark_stuck env r ws)))) \<longrightarrow> completion_answer env"
    if "(\<exists>reason. (job_state.Completed, reason) \<in> set (ws_statuses ws)) \<longrightarrow> completion_answer env" for ws r
    using that mark_statuses [of env _ job_state.Stuck r ws] unfolding worker_mark_stuck_def Let_def by blast
qed simp_all

section \<open>How a run leaves the job\<close>

text \<open>Nobody else touches the contexts, and the scheduler sends no stop.\<close>

definition quiet :: "'d worker_env \<Rightarrow> bool" where
  "quiet env \<longleftrightarrow> (\<forall>n cx. we_others env n cx = cx) \<and> (\<forall>n. we_recv env n \<noteq> Some WorkerStop)"

definition job_is :: "'d context_manager \<Rightarrow> uuid \<Rightarrow> job_state \<Rightarrow> bool" where
  "job_is cx j s \<longleftrightarrow> (case map_of (cx_contexts cx) j of Some c \<Rightarrow> jc_state c = s | None \<Rightarrow> False)"

abbreviation working :: "'d worker_env \<Rightarrow> 'd worker_state \<Rightarrow> bool" where
  "working env ws \<equiv> job_is (ws_cx ws) (we_job env) InProgress"

lemma job_is_contexts: "cx_contexts cx = cx_contexts cx' \<Longrightarrow> job_is cx j s = job_is cx' j s"
  by (simp add: job_is_def)

interpretation undisturbed: worker_frame env "\<lambda>ws. quiet env \<longrightarrow> cx_contexts (ws_cx ws) = C" for env C
  by unfold_locales (simp_all add: quiet_def)

lemma transition_state:
  "can_transition_to (jc_state c) s \<Longrightarrow> \<exists>c'. transition_to now now' c s r = (c', Ok ()) \<and> jc_state c' = s"
  by (simp add: transition_to_def stamp_times_def Let_def)

lemma mark_from_progress:
  assumes "working env ws" and "can_transition_to InProgress s"
  shows "\<exists>ws'. mark_job env (\<lambda>c. transition_to now now' c s r) s reason ws = (ws', Fin ()) \<and> job_is (ws_cx ws') (we_job env) s"
proof -
  from assms(1) obtain c where c: "map_of (cx_contexts (ws_cx ws)) (we_job env) = Some c" "jc_state c = InProgress"
    by (auto simp: job_is_def split: option.splits)
  from transition_state [of c s now now' r] assms(2) c(2) obtain c' where "transition_to now now' c s r = (c', Ok ())" "jc_state c' = s"
    by auto
  with c(1) show ?thesis by (simp add: mark_job_def update_context_def persist_status_def job_is_def update_conv')
qed

lemma marks_from_progress:
  assumes "working env ws"
  shows "\<exists>ws'. mark_completed env ws = (ws', Fin ()) \<and> job_is (ws_cx ws') (we_job env) job_state.Completed"
    and "\<exists>ws'. mark_failed env reason ws = (ws', Fin ()) \<and> job_is (ws_cx ws') (we_job env) job_state.Failed"
    and "\<exists>ws'. worker_mark_stuck env reason ws = (ws', Fin ()) \<and> job_is (ws_cx ws') (we_job env) Stuck"
  using mark_from_progress [OF assms] by (simp_all add: mark_defs mark_stuck_def Let_def)

definition pass_ok :: "'d worker_env \<Rightarrow> 'd worker_state \<times> loop_flow work \<Rightarrow> bool" where
  "pass_ok env p \<longleftrightarrow>
     (case p of
        (ws, Fin LeaveLoop) \<Rightarrow> job_is (ws_cx ws) (we_job env) job_state.Completed \<or> job_is (ws_cx ws) (we_job env) Stuck
      | (ws, _) \<Rightarrow> working env ws)"

lemma pass_ok_simps [simp]:
  "pass_ok env (ws, Fin NextPass) = working env ws" "pass_ok env (ws, Fails e) = working env ws" "pass_ok env (ws, Cut) = working env ws"
  "pass_ok env (ws, Fin LeaveLoop) = (job_is (ws_cx ws) (we_job env) job_state.Completed \<or> job_is (ws_cx ws) (we_job env) Stuck)"
  by (simp_all add: pass_ok_def)

lemma pass_ok_next: "working env (fst p) \<Longrightarrow> pass_ok env (after_work p NextPass)"
  by (cases p; cases "snd p") (auto simp: after_work_def)

lemma pass_ok_leave: "\<exists>ws'. p = (ws', Fin ()) \<and> (job_is (ws_cx ws') (we_job env) job_state.Completed \<or> job_is (ws_cx ws') (we_job env) Stuck) \<Longrightarrow>
  pass_ok env (after_work p LeaveLoop)"
  by (auto simp: after_work_def)

lemma working_tick: "quiet env \<Longrightarrow> working env ws \<Longrightarrow> working env (tick env ws)"
  by (simp add: quiet_def)

lemma working_calls: "quiet env \<Longrightarrow> working env ws \<Longrightarrow> working env (fst (run_calls env ws sels))"
  using undisturbed.calls [where C = "cx_contexts (ws_cx ws)" and ws = ws] by (simp add: job_is_def)

lemma working_parallel: "quiet env \<Longrightarrow> working env ws \<Longrightarrow> working env (fst (execute_tools_parallel env ws sels))"
  using undisturbed.parallel [where C = "cx_contexts (ws_cx ws)" and ws = ws] by (simp add: job_is_def)

lemma working_process_all: "working env ws \<Longrightarrow> working env (process_all env rs ws)"
  unfolding process_all_def by (induction rs arbitrary: ws) auto

lemma respond_pass_ok:
  assumes q: "quiet env" and ws: "working env ws"
  shows "pass_ok env (respond_pass env i ws)"
proof -
  have ws1: "working env (tick env ws)" using q ws by (rule working_tick)
  show ?thesis
  proof (cases "we_respond_with_tools env (ws_ops ws) (ws_messages ws)")
    case (Inl e)
    with ws1 show ?thesis by (simp add: respond_pass_def Let_def)
  next
    case (Inr r)
    then show ?thesis
    proof (cases r)
      case (Text t)
      have "pass_ok env (after_work (mark_completed env (tick env ws)) LeaveLoop)"
        using marks_from_progress(1) [OF ws1] by (intro pass_ok_leave) blast
      with Inr Text ws1 show ?thesis by (simp add: respond_pass_def Let_def)
    next
      case (ToolCalls tcs c)
      with Inr ws1 q show ?thesis by (simp add: respond_pass_def Let_def pass_ok_next working_calls)
    qed
  qed
qed

lemma select_pass_ok:
  assumes q: "quiet env" and ws: "working env ws"
  shows "pass_ok env (select_pass env i ws)"
proof -
  define ws1 where "ws1 = (tick env ws)\<lparr>ws_rounds := ws_rounds ws + 1\<rparr>"
  have I: "working env ws1" using working_tick [OF q ws] by (simp add: ws1_def)
  show ?thesis
  proof (cases "we_select env (ws_ops ws) (ws_messages ws)")
    case (Inl e)
    with I show ?thesis by (simp add: select_pass_def Let_def ws1_def)
  next
    case (Inr sels)
    consider "sels = []" | sel where "sels = [sel]" | a b rest where "sels = a # b # rest"
      by (metis neq_Nil_conv)
    then show ?thesis
    proof cases
      case 1
      with Inr I respond_pass_ok [OF q I, of i] show ?thesis by (simp add: select_pass_def Let_def ws1_def)
    next
      case 2
      with Inr I pass_ok_next [OF working_calls [OF q I]] show ?thesis
        by (simp add: select_pass_def Let_def ws1_def del: run_calls.simps)
    next
      case 3
      obtain ws2 r where e: "execute_tools_parallel env ws1 (a # b # rest) = (ws2, r)" by fastforce
      have "working env ws2" using working_parallel [OF q I] e by (metis fst_conv)
      with 3 Inr I e show ?thesis by (cases r) (simp_all add: select_pass_def Let_def ws1_def working_process_all)
    qed
  qed
qed

lemma worker_pass_ok:
  assumes q: "quiet env" and ws: "working env ws"
  shows "pass_ok env (worker_pass env i ws)"
proof -
  have ws1: "working env (tick env ws)" using q ws by (rule working_tick)
  have "pass_ok env (after_work (worker_mark_stuck env r (tick env ws)) LeaveLoop)" for r
    using marks_from_progress(3) [OF ws1] by (intro pass_ok_leave) blast
  moreover have "\<not> cancelled env (tick env ws)"
    using ws1 by (auto simp: cancelled_def get_context_def job_is_def split: option.splits)
  ultimately show ?thesis
    using q ws1 select_pass_ok [OF q ws1] by (simp add: worker_pass_def Let_def quiet_def)
qed

definition loop_ok :: "'d worker_env \<Rightarrow> 'd worker_state \<times> unit work \<Rightarrow> bool" where
  "loop_ok env p \<longleftrightarrow>
     (case p of
        (ws, Fin _) \<Rightarrow> job_is (ws_cx ws) (we_job env) job_state.Completed \<or> job_is (ws_cx ws) (we_job env) Stuck
      | (ws, _) \<Rightarrow> working env ws)"

lemma direct_loop_ok: "quiet env \<Longrightarrow> working env ws \<Longrightarrow> loop_ok env (direct_loop env i ws)"
proof (induction env i ws rule: direct_loop.induct)
  case (1 env i ws)
  obtain ws1 r where e: "worker_pass env i ws = (ws1, r)" by fastforce
  have "pass_ok env (ws1, r)" using worker_pass_ok [OF 1(2,3)] e by metis
  with 1 e show ?case
    by (subst direct_loop.simps) (auto simp: loop_ok_def split: work.splits loop_flow.splits)
qed

lemma run_plan_ok: "quiet env \<Longrightarrow> working env ws \<Longrightarrow> working env (fst (run_plan env i as ws))"
  using undisturbed.plan_steps [where C = "cx_contexts (ws_cx ws)" and ws = ws] by (simp add: job_is_def)

lemma run_plan_leave: "quiet env \<Longrightarrow> snd (run_plan env i as ws) \<noteq> Fin LeaveLoop"
  by (induction env i "as" ws rule: run_plan.induct) (auto simp: quiet_def Let_def split: prod.splits work.splits)

lemma execute_plan_ok:
  assumes q: "quiet env" and ws: "working env ws"
  shows "loop_ok env (execute_plan env plan ws)"
proof -
  obtain ws1 r where e: "run_plan env 0 (plan_actions plan) ws = (ws1, r)" by fastforce
  have ws1: "working env ws1" using run_plan_ok [OF q ws] e by (metis fst_conv)
  let ?ws2 = "tick env (push_message ws1 (msg_user plan_question))"
  have ws2: "working env ?ws2" using q ws1 by (intro working_tick) simp_all
  have ends: "loop_ok env (mark_completed env (push_message ?ws2 m))" "loop_ok env (worker_mark_stuck env t (push_message ?ws2 m))" for m t
    using marks_from_progress(1) [where env = env and ws = "push_message ?ws2 m"]
      marks_from_progress(3) [where env = env and ws = "push_message ?ws2 m" and reason = t] ws2
    by (auto simp: loop_ok_def)
  show ?thesis
  proof (cases "r = Fin NextPass")
    case True
    with e ws2 ends show ?thesis
      by (cases "we_respond_with_tools env (ws_ops ws1) (ws_messages ws1 @ [msg_user plan_question])")
        (simp_all add: execute_plan_def Let_def loop_ok_def)
  next
    case False
    with e ws1 run_plan_leave [OF q, of 0 "plan_actions plan" ws] show ?thesis
      by (cases r) (auto simp: execute_plan_def loop_ok_def split: loop_flow.splits)
  qed
qed

lemma execution_loop_ok:
  assumes q: "quiet env" and ws: "working env ws"
  shows "loop_ok env (execution_loop env ws)"
proof -
  have ws1: "working env (tick env ws)" using q ws by (rule working_tick)
  have "loop_ok env (execute_plan env p (push_message (tick env ws) m))" for p m
    using ws1 by (intro execute_plan_ok [OF q]) simp
  with direct_loop_ok [OF q ws] direct_loop_ok [OF q ws1] ws1 show ?thesis
    by (cases "we_plan env (ws_messages ws)") (simp_all add: execution_loop_def Let_def loop_ok_def)
qed

text \<open>Each pass asks the model for a selection at most once.\<close>

interpretation same_rounds: worker_frame env "\<lambda>ws. ws_rounds ws = k" for env k
  by unfold_locales simp_all

lemma respond_pass_rounds: "ws_rounds (fst (respond_pass env i ws)) = ws_rounds ws"
  using same_rounds.calls [where k = "ws_rounds ws" and env = env]
  by (auto simp: respond_pass_def Let_def fst_after_work mark_defs split: sum.splits respond_result.splits)

lemma process_all_rounds [simp]: "ws_rounds (process_all env rs ws) = ws_rounds ws"
  by (rule same_rounds.processed_all) simp

lemma select_pass_rounds: "ws_rounds (fst (select_pass env i ws)) = Suc (ws_rounds ws)"
proof (cases "we_select env (ws_ops ws) (ws_messages ws)")
  case (Inr sels)
  let ?ws1 = "(tick env ws)\<lparr>ws_rounds := ws_rounds ws + 1\<rparr>"
  obtain ws2 r where e: "execute_tools_parallel env ?ws1 sels = (ws2, r)" by fastforce
  have "ws_rounds ws2 = ws_rounds ws + 1"
    using same_rounds.parallel [where ws = ?ws1 and k = "ws_rounds ws + 1" and env = env and sels = sels] e by simp
  moreover have "ws_rounds (fst (run_calls env ?ws1 sels)) = ws_rounds ws + 1" by (rule same_rounds.calls) simp
  ultimately show ?thesis
    using Inr e by (cases r) (auto simp: select_pass_def Let_def fst_after_work respond_pass_rounds simp del: run_calls.simps split: list.splits)
qed (simp add: select_pass_def Let_def)

lemma worker_pass_rounds:
  "ws_rounds (fst (worker_pass env i ws)) \<le> ws_rounds ws + (if i < MAX_WORKER_ITERATIONS then 1 else 0)"
  by (simp add: worker_pass_def Let_def fst_after_work select_pass_rounds worker_mark_stuck_def)

lemma direct_loop_rounds: "ws_rounds (fst (direct_loop env i ws)) \<le> ws_rounds ws + (MAX_WORKER_ITERATIONS - i)"
proof (induction env i ws rule: direct_loop.induct)
  case (1 env i ws)
  obtain ws1 r where e: "worker_pass env i ws = (ws1, r)" by fastforce
  have bound: "ws_rounds ws1 \<le> ws_rounds ws + (if i < MAX_WORKER_ITERATIONS then 1 else 0)"
    using worker_pass_rounds [of env i ws] e by simp
  show ?case
  proof (cases "r = Fin NextPass")
    case True
    with e have "i < MAX_WORKER_ITERATIONS" by (blast intro: worker_pass_next)
    moreover have "ws_rounds (fst (direct_loop env (i + 1) ws1)) \<le> ws_rounds ws1 + (MAX_WORKER_ITERATIONS - (i + 1))"
      using 1 e True by auto
    ultimately show ?thesis using bound e True by (subst direct_loop.simps) simp
  next
    case False
    then have "fst (direct_loop env i ws) = ws1"
      by (subst direct_loop.simps) (auto simp: e split: work.splits loop_flow.splits)
    with bound show ?thesis by (simp split: if_splits)
  qed
qed

lemma execute_plan_rounds: "ws_rounds (fst (execute_plan env plan ws)) = ws_rounds ws"
  using same_rounds.plan_steps [where ws = ws and k = "ws_rounds ws" and env = env and i = 0 and as = "plan_actions plan"]
  by (auto simp: execute_plan_def Let_def mark_defs split: prod.splits work.splits loop_flow.splits sum.splits)

lemma execution_loop_rounds: "ws_rounds (fst (execution_loop env ws)) \<le> ws_rounds ws + MAX_WORKER_ITERATIONS"
  using direct_loop_rounds [of env 0 ws] direct_loop_rounds [of env 0 "tick env ws"]
  by (simp add: execution_loop_def Let_def execute_plan_rounds split: sum.splits)

section \<open>What a worker does to the contexts\<close>

text \<open>Seen from the other tasks a worker only moves its own job to one of three states and writes its own memory.\<close>

inductive worker_step :: "uuid \<Rightarrow> 'd context_manager \<Rightarrow> 'd context_manager \<Rightarrow> bool" for j where
  mark: "s \<in> {job_state.Completed, job_state.Failed, Stuck} \<Longrightarrow>
    worker_step j cx (fst (update_context cx j (\<lambda>c. transition_to now now' c s (Some r))))"
| memory: "worker_step j cx (fst (update_memory cx j (f :: 'd memory \<Rightarrow> 'd memory \<times> 'd action_record)))"

inductive_cases worker_stepE: "worker_step j cx cx'"

lemma mark_job_cx:
  "ws_cx (fst (mark_job env f s r ws)) = fst (update_context (ws_cx ws) (we_job env) f)"
  by (auto simp: mark_job_def persist_status_def split: prod.splits sum.splits)

lemma record_outcome_cx:
  "ws_cx (record_outcome env n t p r ws) = fst (update_memory (ws_cx ws) (we_job env) (action_of env n t p r))"
  by (auto simp: record_outcome_def split: prod.splits sum.splits)

lemma execute_tool_cx:
  "ws_cx (fst (execute_tool_inner env ws t p)) = we_others env (ws_ops ws) (ws_cx ws) \<or>
   (\<exists>f :: 'd memory \<Rightarrow> 'd memory \<times> 'd action_record. ws_cx (fst (execute_tool_inner (env :: 'd worker_env) ws t p)) = fst (update_memory (we_others env (ws_ops ws) (ws_cx ws)) (we_job env) f))"
  by (auto simp: execute_tool_inner_def Let_def record_outcome_cx split: sum.splits)

lemma moves_memory:
  fixes f :: "'d memory \<Rightarrow> 'd memory \<times> 'd action_record"
  shows "(worker_step j)\<^sup>*\<^sup>* cx0 cx \<Longrightarrow> (worker_step j)\<^sup>*\<^sup>* cx0 (fst (update_memory cx j f))"
  by (erule rtranclp.rtrancl_into_rtrancl) (rule worker_step.memory)

lemma moves_mark:
  "(worker_step j)\<^sup>*\<^sup>* cx0 cx \<Longrightarrow> s \<in> {job_state.Completed, job_state.Failed, Stuck} \<Longrightarrow>
   (worker_step j)\<^sup>*\<^sup>* cx0 (fst (update_context cx j (\<lambda>c. transition_to now now' c s (Some r))))"
  by (erule rtranclp.rtrancl_into_rtrancl) (rule worker_step.mark)

interpretation worker_moves: worker_invariant env
  "\<lambda>ws. (\<forall>n cx. we_others env n cx = cx) \<longrightarrow> (worker_step (we_job env))\<^sup>*\<^sup>* cx0 (ws_cx ws)" for env cx0
proof
  fix ws :: "'a worker_state" and name params
  assume I: "(\<forall>n cx. we_others env n cx = cx) \<longrightarrow> (worker_step (we_job env))\<^sup>*\<^sup>* cx0 (ws_cx ws)"
  show "(\<forall>n cx. we_others env n cx = cx) \<longrightarrow>
      (worker_step (we_job env))\<^sup>*\<^sup>* cx0 (ws_cx (fst (execute_tool_inner env ws name params)))"
    using I execute_tool_cx [of env ws name params] by (auto intro: moves_memory)
qed (auto simp: mark_defs mark_stuck_def mark_job_cx Let_def intro!: moves_mark)

section \<open>Results of several selections\<close>

definition result_message :: "'d worker_env \<Rightarrow> tool_selection \<Rightarrow> (agent_error, string) result \<Rightarrow> chat_message" where
  "result_message env sel r = msg_tool_result (sel_tool_call_id sel) (sel_tool_name sel)
     (case r of Ok output \<Rightarrow> safe_tool_content (we_safety env) (sel_tool_name sel) output
      | Err e \<Rightarrow> ''Error: '' @ agent_error_display (we_display env) e)"

lemma process_tool_result_messages [simp]:
  "ws_messages (process_tool_result env sel r ws) = ws_messages ws @ [result_message env sel r]"
  by (simp add: process_tool_result_def result_message_def Let_def split: sum.split)

lemma process_all_messages:
  "ws_messages (process_all env rs ws) = ws_messages ws @ map (\<lambda>(sel, r). result_message env sel r) rs"
  unfolding process_all_def by (induction rs arbitrary: ws) auto

lemma run_positions_Fin:
  "run_positions env sels ws is = (ws', Fin rs) \<Longrightarrow> map fst rs = is \<and> ws_messages ws' = ws_messages ws"
proof (induction "is" arbitrary: ws ws' rs)
  case (Cons i "is")
  obtain ws1 r where e: "execute_tool_inner env ws (sel_tool_name (sels ! i)) (sel_parameters (sels ! i)) = (ws1, r)"
    by fastforce
  have "ws_messages ws1 = ws_messages ws" by (metis e execute_tool_fields(1) fst_conv)
  with Cons e show ?case by (fastforce split: prod.splits work.splits)
qed simp

lemma parallel_order_set: "set (parallel_order env n k) = {0..<k}"
  by (metis atLeastLessThan_upt parallel_order_def set_sort)

lemma length_map_filter_all: "\<forall>x \<in> set xs. f x \<noteq> None \<Longrightarrow> length (List.map_filter f xs) = length xs"
  by (induction xs) (auto simp: List.map_filter_simps)

lemma parallel_Fin:
  assumes "execute_tools_parallel env ws sels = (ws', Fin rs)"
  shows "length rs = length sels \<and> ws_messages ws' = ws_messages ws"
proof -
  from assms obtain prs where p: "run_positions env sels ws (parallel_order env (ws_ops ws) (length sels)) = (ws', Fin prs)"
    and rs: "rs = List.map_filter (map_of prs) [0..<length sels]"
    by (auto simp: execute_tools_parallel_def split: prod.splits work.splits)
  from run_positions_Fin [OF p] have "fst ` set prs = {0..<length sels}"
    by (metis list.set_map parallel_order_set)
  then have "map_of prs i \<noteq> None" if "i < length sels" for i
    using that by (metis atLeastLessThan_iff map_of_eq_None_iff zero_le)
  with rs run_positions_Fin [OF p] show ?thesis by (simp add: length_map_filter_all)
qed

section \<open>Properties\<close>

text \<open>
  C7: Every tool a job runs has been found in the registry, needs no approval, was let through by the
  hooks with the parameters it runs with, got valid parameters, and ran for a job that was not
  cancelled when its context was read.
\<close>

theorem worker_tools_gated:
  "\<forall>(n, name, given, args, c) \<in> set (ws_trace (fst (worker_run env cx))).
     (\<exists>tool. we_tools env n name = Some tool \<and> \<not> ti_requires_approval tool) \<and>
     worker_hook_params env c name given = Ok args \<and> jc_state c \<noteq> job_state.Cancelled \<and>
     vr_is_valid (validate_tool_params (sl_validator (we_safety env)) args)"
proof -
  have "\<forall>call \<in> set (ws_trace (fst (worker_run env cx))). admitted env call"
    by (rule gated.run) (simp add: worker_state_new_def)
  then show ?thesis by (fastforce simp: admitted_def)
qed

definition sample_tool :: tool_info where
  "sample_tool = \<lparr>ti_requires_approval = False, ti_requires_approval_for = (\<lambda>_. False), ti_description = [],
     ti_timeout_secs = 60, ti_timeout_debug = ''60s''\<rparr>"

definition sample_selection :: tool_selection where
  "sample_selection = \<lparr>sel_tool_name = ''echo'', sel_parameters = JNull, sel_reasoning = [], sel_alternatives = [],
     sel_tool_call_id = ''1''\<rparr>"

text \<open>A job whose first pass runs one tool and whose second pass meets an error of the model.\<close>

definition sample_worker :: "nat worker_env" where
  "sample_worker = \<lparr>we_job = 1, we_tools = (\<lambda>_ name. if name = ''echo'' then Some sample_tool else None),
     we_execute = (\<lambda>_ _ _ _. ExecErr ''no''), we_elapsed = (\<lambda>_. 0), we_new_id = (\<lambda>n. n), we_clock = (\<lambda>n. n), we_hooks = [],
     we_json = \<lparr>jl_from = (\<lambda>_. None), jl_to = (\<lambda>_. []), jl_duration = (\<lambda>_. [])\<rparr>, we_pretty = (\<lambda>_. Ok ''{}''),
     we_display = \<lparr>dl_uuid = nat_str, dl_duration = nat_str\<rparr>, we_safety = sample_layer, we_store = True, we_use_planning = False,
     we_plan = (\<lambda>_. Err (AuthFailed ''p'')), we_select = (\<lambda>n _. if n = 1 then Ok [sample_selection] else Err (AuthFailed ''p'')),
     we_respond_with_tools = (\<lambda>_ _. Err (AuthFailed ''p'')), we_order = (\<lambda>_. []), we_first = Some WorkerStart,
     we_recv = (\<lambda>_. None), we_others = (\<lambda>_ cx. cx), we_late = (\<lambda>_. False)\<rparr>"

definition sample_job :: "nat job_context" where
  "sample_job = (with_user 1 0 ''u'' ''t'' ''d'')\<lparr>jc_state := InProgress\<rparr>"

definition sample_cx :: "nat context_manager" where
  "sample_cx = \<lparr>cx_contexts = [(1, sample_job)], cx_memories = [], cx_max_jobs = 5\<rparr>"

lemma sample_worker_facts [simp]:
  "we_job sample_worker = 1" "we_tools sample_worker n ''echo'' = Some sample_tool" "we_late sample_worker n = False"
  "we_recv sample_worker n = None" "we_first sample_worker = Some WorkerStart" "we_others sample_worker n cx = cx"
  "we_use_planning sample_worker = False" "we_hooks sample_worker = []" "sl_validator (we_safety sample_worker) = validator_new"
  "we_select sample_worker n ms = (if n = 1 then Ok [sample_selection] else Err (AuthFailed ''p''))"
  by (simp_all add: sample_worker_def sample_layer_def)

lemma sample_job_state [simp]: "jc_state sample_job = InProgress" by (simp add: sample_job_def)

lemma sample_admission:
  "cx_contexts (ws_cx ws) = [(1, sample_job)] \<Longrightarrow>
   tool_admission sample_worker ws ''echo'' JNull = Ok (sample_tool, sample_job, JNull)"
  by (simp add: tool_admission_def sample_tool_def get_context_def worker_hook_params_def run_hooks_def matching_hooks_def Let_def
      validate_tool_params_def validation_ok_def)

lemma sample_call:
  "cx_contexts (ws_cx ws) = [(1, sample_job)] \<Longrightarrow>
   run_calls sample_worker ws [sample_selection] =
     (process_tool_result sample_worker sample_selection (Err (AgentTool (ToolExecutionFailed ''echo'' ''no'')))
        (record_outcome sample_worker (ws_ops ws) ''echo'' JNull (ExecErr ''no'')
           (tick sample_worker (ws\<lparr>ws_trace := ws_trace ws @ [(ws_ops ws, ''echo'', JNull, JNull, sample_job)]\<rparr>))), Fin ())"
  using sample_admission [of ws]
  by (simp add: execute_tool_inner_def sample_selection_def Let_def tool_output_def sample_worker_def [THEN arg_cong, of we_execute])

lemma sample_passes:
  assumes "cx_contexts (ws_cx ws) = [(1, sample_job)]" and "ws_ops ws = 0"
  shows "\<exists>ws'. direct_loop sample_worker 0 ws = (ws', Fails (AgentLlm (AuthFailed ''p''))) \<and>
    ws_trace ws' = ws_trace ws @ [(2, ''echo'', JNull, JNull, sample_job)] \<and> cx_contexts (ws_cx ws') = [(1, sample_job)]"
proof -
  let ?ws1 = "(tick sample_worker (tick sample_worker ws))\<lparr>ws_rounds := ws_rounds ws + 1\<rparr>"
  let ?ws2 = "process_tool_result sample_worker sample_selection (Err (AgentTool (ToolExecutionFailed ''echo'' ''no'')))
        (record_outcome sample_worker 2 ''echo'' JNull (ExecErr ''no'')
           (tick sample_worker (?ws1\<lparr>ws_trace := ws_trace ws @ [(2, ''echo'', JNull, JNull, sample_job)]\<rparr>)))"
  have "worker_pass sample_worker 0 ws = (?ws2, Fin NextPass)"
    using assms sample_call [of ?ws1]
    by (simp add: worker_pass_def select_pass_def cancelled_def get_context_def MAX_WORKER_ITERATIONS_def after_work_def Let_def tick_def
        numeral_2_eq_2 del: run_calls.simps)
  moreover have "worker_pass sample_worker 1 ?ws2 = ((tick sample_worker (tick sample_worker ?ws2))\<lparr>ws_rounds := ws_rounds ws + 2\<rparr>,
      Fails (AgentLlm (AuthFailed ''p'')))"
    using assms
    by (simp add: worker_pass_def select_pass_def cancelled_def get_context_def MAX_WORKER_ITERATIONS_def Let_def tick_def)
  ultimately show ?thesis using assms by (simp add: direct_loop.simps [of _ 0] direct_loop.simps [of _ "Suc 0"])
qed

lemma sample_run:
  "\<exists>ws. worker_run sample_worker sample_cx = (ws, Ok ()) \<and> ws_trace ws = [(2, ''echo'', JNull, JNull, sample_job)]"
proof -
  let ?ws = "push_message (worker_state_new sample_cx) (msg_system (job_prompt sample_job))"
  from sample_passes [of ?ws] obtain ws where ws: "direct_loop sample_worker 0 ?ws = (ws, Fails (AgentLlm (AuthFailed ''p'')))"
    "ws_trace ws = [(2, ''echo'', JNull, JNull, sample_job)]" "cx_contexts (ws_cx ws) = [(1, sample_job)]"
    by (auto simp: worker_state_new_def sample_cx_def)
  then have "working sample_worker ws" by (simp add: job_is_def)
  from marks_from_progress(2) [OF this] obtain ws' where
    m: "mark_failed sample_worker (agent_error_display (we_display sample_worker) (AgentLlm (AuthFailed ''p''))) ws = (ws', Fin ())"
    by blast
  have "ws_trace ws' = ws_trace ws" by (metis m fst_conv mark_failed_def mark_job_fields(3))
  moreover have "get_context sample_cx 1 = Ok sample_job" by (simp add: get_context_def sample_cx_def)
  moreover have "ws_cx (worker_state_new sample_cx) = sample_cx" by (simp add: worker_state_new_def)
  ultimately show ?thesis using ws m by (simp add: worker_run_def Let_def execution_loop_def del: agent_error_display.simps)
qed

theorem worker_tools_gated_witness:
  "\<exists>tool. we_tools sample_worker 2 ''echo'' = Some tool \<and> \<not> ti_requires_approval tool \<and>
     (2, ''echo'', JNull, JNull, sample_job) \<in> set (ws_trace (fst (worker_run sample_worker sample_cx)))"
  using worker_tools_gated [of sample_worker sample_cx] sample_run by auto

text \<open>
  C8: A worker that is left alone settles its job: started on a job in progress it asks the model for
  selections at most fifty times, returns without an error, and leaves the job completed, failed or
  stuck, also when the model fails or the deadline passes.
\<close>

theorem worker_settles:
  assumes "quiet env" and "we_first env = Some WorkerStart" and "job_is cx (we_job env) InProgress"
  shows "\<exists>ws. worker_run env cx = (ws, Ok ()) \<and> ws_rounds ws \<le> MAX_WORKER_ITERATIONS \<and>
    (\<exists>s \<in> {job_state.Completed, job_state.Failed, Stuck}. job_is (ws_cx ws) (we_job env) s)"
proof -
  from assms(3) obtain c where c: "get_context cx (we_job env) = Ok c"
    by (auto simp: job_is_def get_context_def split: option.splits)
  let ?ws = "push_message (worker_state_new cx) (msg_system (job_prompt c))"
  obtain ws r where e: "execution_loop env ?ws = (ws, r)" by fastforce
  have cx: "ws_cx (worker_state_new cx) = cx" "ws_rounds (worker_state_new cx) = 0" by (simp_all add: worker_state_new_def)
  then have ok: "loop_ok env (ws, r)" using execution_loop_ok [OF assms(1), of ?ws] assms(3) e by simp
  have rounds: "ws_rounds ws \<le> MAX_WORKER_ITERATIONS" using execution_loop_rounds [of env ?ws] e cx by simp
  have marks: "ws_rounds (fst (mark_failed env t ws)) = ws_rounds ws" "ws_rounds (fst (worker_mark_stuck env t ws)) = ws_rounds ws" for t
    by (simp_all add: mark_defs Let_def)
  show ?thesis
  proof (cases r)
    case (Fin u)
    with ok rounds show ?thesis by (auto simp: worker_run_def Let_def assms(2) c cx e loop_ok_def)
  next
    case (Fails err)
    then have "working env ws" using ok by (simp add: loop_ok_def)
    from marks_from_progress(2) [OF this, of "agent_error_display (we_display env) err"] marks(1) rounds Fails show ?thesis
      by (auto simp: worker_run_def Let_def assms(2) c cx e) (metis fst_conv)
  next
    case Cut
    then have "working env ws" using ok by (simp add: loop_ok_def)
    from marks_from_progress(3) [OF this, of "''Execution timeout''"] marks(2) rounds Cut show ?thesis
      by (auto simp: worker_run_def Let_def assms(2) c cx e) (metis fst_conv)
  qed
qed

theorem worker_settles_witness:
  "\<exists>ws. worker_run sample_worker sample_cx = (ws, Ok ()) \<and> ws_rounds ws \<le> MAX_WORKER_ITERATIONS"
proof -
  have "quiet sample_worker" by (simp add: quiet_def)
  moreover have "job_is sample_cx 1 InProgress" by (simp add: job_is_def sample_cx_def)
  ultimately show ?thesis using worker_settles [of sample_worker sample_cx] by auto
qed

text \<open>
  C9: Seen from outside, a run is a sequence of moves of two kinds: its own job goes to completed, failed
  or stuck as the state machine permits, or its own memory is written.  Other jobs are not touched.
\<close>

theorem worker_refines_moves:
  assumes "\<forall>n cx. we_others env n cx = cx"
  shows "(worker_step (we_job env))\<^sup>*\<^sup>* cx (ws_cx (fst (worker_run env cx)))"
  using worker_moves.run [where env = env and cx = cx and ?cx0.0 = cx] assms by (simp add: worker_state_new_def)

theorem worker_refines_moves_witness:
  "(worker_step 1)\<^sup>*\<^sup>* sample_cx (ws_cx (fst (worker_run sample_worker sample_cx)))"
  using worker_refines_moves [of sample_worker sample_cx] by simp

text \<open>
  The results of selected tools come in the order of the selections, in whatever order the tools
  finished, and nothing else is added to the context: the answer of the model that asked for the
  tools is not, so the tool messages answer calls that no message before them announces.
\<close>

theorem selected_results_unannounced:
  assumes "we_select env (ws_ops ws) (ws_messages ws) = Ok sels" and "sels \<noteq> []"
    and "select_pass env i ws = (ws', Fin fl)"
  shows "fl = NextPass \<and> (\<exists>rs. length rs = length sels \<and>
    ws_messages ws' = ws_messages ws @ map (\<lambda>(sel, r). result_message env sel r) (zip sels rs))"
proof -
  let ?ws1 = "(tick env ws)\<lparr>ws_rounds := ws_rounds ws + 1\<rparr>"
  consider sel where "sels = [sel]" | a b rest where "sels = a # b # rest" using assms(2) by (metis neq_Nil_conv)
  then show ?thesis
  proof cases
    case 1
    obtain ws2 r where e: "execute_tool_inner env ?ws1 (sel_tool_name sel) (sel_parameters sel) = (ws2, r)" by fastforce
    have "ws_messages ws2 = ws_messages ?ws1" by (metis e execute_tool_fields(1) fst_conv)
    with assms 1 e show ?thesis
      by (cases r) (auto simp: select_pass_def after_work_def Let_def split: if_splits intro!: exI [of _ "[_]"])
  next
    case 2
    obtain ws2 r where e: "execute_tools_parallel env ?ws1 sels = (ws2, r)" by fastforce
    with assms 2 obtain rs where r: "r = Fin rs" "ws' = process_all env (zip sels rs) ws2" "fl = NextPass"
      by (cases r) (auto simp: select_pass_def Let_def split: if_splits)
    from parallel_Fin [of env ?ws1 sels ws2 rs] e r have "length rs = length sels" "ws_messages ws2 = ws_messages ws" by simp_all
    with r show ?thesis by (auto simp: process_all_messages)
  qed
qed

theorem selected_results_unannounced_witness:
  "\<exists>ws' rs. ws_messages ws' = map (\<lambda>(sel, r). result_message sample_worker sel r) (zip [sample_selection] rs) \<and> length rs = 1 \<and>
     select_pass sample_worker 1 ((worker_state_new sample_cx)\<lparr>ws_ops := 1\<rparr>) = (ws', Fin NextPass)"
proof -
  let ?ws = "(worker_state_new sample_cx)\<lparr>ws_ops := 1\<rparr>"
  have "cx_contexts (ws_cx ((tick sample_worker ?ws)\<lparr>ws_rounds := 1\<rparr>)) = [(1, sample_job)]"
    by (simp add: worker_state_new_def sample_cx_def)
  from sample_call [OF this] obtain ws' where e: "select_pass sample_worker 1 ?ws = (ws', Fin NextPass)"
    by (simp add: select_pass_def after_work_def Let_def worker_state_new_def del: run_calls.simps)
  from selected_results_unannounced [OF _ _ e, of "[sample_selection]"] e show ?thesis
    by (auto simp: worker_state_new_def)
qed

text \<open>
  The record of a successful action has its two outputs exchanged: the field for the raw output gets
  the sanitized text, the field for the sanitized output gets the value the tool returned.
\<close>

theorem recorded_outputs_exchanged:
  assumes "tool_admission env ws t p = Ok (tool, c, args)" and "\<not> we_late env (ws_ops ws)"
    and "we_execute env (ws_ops ws) t args c = ExecOk v" and "we_pretty env v = Ok out"
    and "map_of (cx_memories (we_others env (ws_ops ws) (ws_cx ws))) (we_job env) = Some mem"
  shows "\<exists>mem' a. map_of (cx_memories (ws_cx (fst (execute_tool_inner env ws t p)))) (we_job env) = Some mem' \<and>
    last_action mem' = Some a \<and> ar_success a \<and> ar_output_sanitized a = Some v \<and>
    ar_output_raw a = Some (so_content (sanitize_tool_output (we_safety env) t out))"
  using assms
  by (simp add: execute_tool_inner_def Let_def record_outcome_cx update_memory_def action_of_def create_action_def record_action_def
      action_new_def action_succeed_def last_action_def update_conv')

theorem recorded_outputs_exchanged_witness:
  "let env = sample_worker\<lparr>we_execute := (\<lambda>_ _ _ _. ExecOk (JString ''key''))\<rparr>;
       ws = worker_state_new (sample_cx\<lparr>cx_memories := [(1, memory_new 1)]\<rparr>) in
   \<exists>mem' a. map_of (cx_memories (ws_cx (fst (execute_tool_inner env ws ''echo'' JNull)))) 1 = Some mem' \<and>
     last_action mem' = Some a \<and> ar_output_sanitized a = Some (JString ''key'')"
proof -
  let ?env = "sample_worker\<lparr>we_execute := (\<lambda>_ _ _ _. ExecOk (JString ''key''))\<rparr>"
  let ?ws = "worker_state_new (sample_cx\<lparr>cx_memories := [(1, memory_new 1)]\<rparr>)"
  have "tool_admission ?env ?ws ''echo'' JNull = Ok (sample_tool, sample_job, JNull)"
    by (simp add: tool_admission_def sample_tool_def get_context_def worker_hook_params_def run_hooks_def matching_hooks_def Let_def
        validate_tool_params_def validation_ok_def worker_state_new_def sample_cx_def)
  then show ?thesis
    using recorded_outputs_exchanged [of ?env ?ws "''echo''" JNull sample_tool sample_job JNull "JString ''key''" "''{}''" "memory_new 1"]
    by (auto simp: worker_state_new_def sample_worker_def [THEN arg_cong, of we_pretty])
qed

end
