(* ===== verification/Scheduler.thy ===== *)
theory Scheduler
  imports Worker
begin

text \<open>
  The scheduler of jobs and of sub-tasks, \<^verbatim>\<open>src/src/agent/scheduler.rs\<close> and \<^verbatim>\<open>src/src/agent/task.rs\<close>, and
  the repair of stuck jobs, \<^verbatim>\<open>src/src/agent/self_repair.rs\<close>.

  The state holds the contexts, the map of scheduled jobs, the workers that are still running and the
  cleanup task each scheduling starts.  A handle is a number; it is finished when no running worker
  has it.  The tasks of the agent are the rules of one step relation, one rule per lock section, so that
  a path of steps is an interleaving of them.  A stop is one step: the code sends the stop message, waits 100
  ms for the worker and then aborts its task, which ends at its next await, while the map of jobs stays locked.
\<close>

section \<open>Scheduling\<close>

record 'd scheduler =
  sc_max_parallel_jobs :: nat
  sc_cx :: "'d context_manager"
  sc_jobs :: "(uuid \<times> nat) list"
  sc_live :: "(nat \<times> uuid) list"
  sc_cleaners :: "(uuid \<times> bool) list"
  sc_next_handle :: nat

definition scheduler_new :: "nat \<Rightarrow> 'd context_manager \<Rightarrow> 'd scheduler" where
  "scheduler_new max_parallel cx =
     \<lparr>sc_max_parallel_jobs = max_parallel, sc_cx = cx, sc_jobs = [], sc_live = [], sc_cleaners = [], sc_next_handle = 0\<rparr>"

definition is_finished :: "'d scheduler \<Rightarrow> nat \<Rightarrow> bool" where
  "is_finished st h \<longleftrightarrow> h \<notin> fst ` set (sc_live st)"

definition schedule :: "instant \<Rightarrow> instant \<Rightarrow> uuid \<Rightarrow> 'd scheduler \<Rightarrow> 'd scheduler \<times> (job_error, unit) result" where
  "schedule now now' job_id st =
     (if map_of (sc_jobs st) job_id \<noteq> None then (st, Ok ())
      else if length (sc_jobs st) \<ge> sc_max_parallel_jobs st
      then (st, Err (MaxJobsExceeded (sc_max_parallel_jobs st)))
      else case update_context (sc_cx st) job_id
                  (\<lambda>c. transition_to now now' c InProgress (Some ''Scheduled for execution'')) of
        (cx, Err e) \<Rightarrow> (st\<lparr>sc_cx := cx\<rparr>, Err e)
      | (cx, Ok (Err s)) \<Rightarrow> (st\<lparr>sc_cx := cx\<rparr>, Err (ContextError job_id s))
      | (cx, Ok (Ok _)) \<Rightarrow>
          let h = sc_next_handle st in
          (st\<lparr>sc_cx := cx, sc_live := (h, job_id) # sc_live st, sc_jobs := AList.update job_id h (sc_jobs st),
              sc_cleaners := (job_id, False) # sc_cleaners st, sc_next_handle := h + 1\<rparr>, Ok ()))"

text \<open>The two lock sections of the cleanup task: it looks under the read lock, and removes under the write lock.\<close>

definition cleaner_sees_end :: "'d scheduler \<Rightarrow> uuid \<Rightarrow> bool" where
  "cleaner_sees_end st job_id =
     (case map_of (sc_jobs st) job_id of Some h \<Rightarrow> is_finished st h | None \<Rightarrow> True)"

definition cleaner_look :: "uuid \<Rightarrow> 'd scheduler \<Rightarrow> 'd scheduler" where
  "cleaner_look job_id st =
     (if cleaner_sees_end st job_id then st\<lparr>sc_cleaners := AList.update job_id True (sc_cleaners st)\<rparr> else st)"

definition cleaner_remove :: "uuid \<Rightarrow> 'd scheduler \<Rightarrow> 'd scheduler" where
  "cleaner_remove job_id st =
     st\<lparr>sc_jobs := AList.delete job_id (sc_jobs st), sc_cleaners := AList.delete job_id (sc_cleaners st)\<rparr>"

definition stop :: "instant \<Rightarrow> instant \<Rightarrow> uuid \<Rightarrow> 'd scheduler \<Rightarrow> 'd scheduler \<times> (job_error, unit) result" where
  "stop now now' job_id st =
     (case map_of (sc_jobs st) job_id of
        None \<Rightarrow> (st, Ok ())
      | Some h \<Rightarrow>
          let st1 = st\<lparr>sc_jobs := AList.delete job_id (sc_jobs st), sc_live := filter (\<lambda>p. fst p \<noteq> h) (sc_live st)\<rparr>
          in case update_context (sc_cx st1) job_id
                    (\<lambda>c. transition_to now now' c job_state.Cancelled (Some ''Stopped by scheduler'')) of
               (cx, Err e) \<Rightarrow> (st1\<lparr>sc_cx := cx\<rparr>, Err e)
             | (cx, Ok _) \<Rightarrow> (st1\<lparr>sc_cx := cx\<rparr>, Ok ()))"

definition stop_all :: "instant \<Rightarrow> instant \<Rightarrow> 'd scheduler \<Rightarrow> 'd scheduler" where
  "stop_all now now' st = foldl (\<lambda>s j. fst (stop now now' j s)) st (map fst (sc_jobs st))"

definition is_running :: "'d scheduler \<Rightarrow> uuid \<Rightarrow> bool" where
  "is_running st job_id \<longleftrightarrow> map_of (sc_jobs st) job_id \<noteq> None"

definition running_count :: "'d scheduler \<Rightarrow> nat" where
  "running_count st = length (sc_jobs st)"

definition running_jobs :: "'d scheduler \<Rightarrow> uuid list" where
  "running_jobs st = map fst (sc_jobs st)"

definition cleanup_finished :: "'d scheduler \<Rightarrow> 'd scheduler" where
  "cleanup_finished st = st\<lparr>sc_jobs := filter (\<lambda>(_, h). \<not> is_finished st h) (sc_jobs st)\<rparr>"

section \<open>Repair\<close>

record stuck_job =
  sj_job_id :: uuid
  sj_last_activity :: instant
  sj_stuck_secs :: nat
  sj_last_error :: "string option"
  sj_repair_attempts :: u32

datatype repair_result = RepairSuccess string | RepairRetry string | RepairFailed string | ManualRequired string

datatype repair_error = RepairError string uuid string

definition detect_stuck_jobs :: "(instant \<Rightarrow> instant \<Rightarrow> int) \<Rightarrow> instant \<Rightarrow> 'd context_manager \<Rightarrow> stuck_job list" where
  "detect_stuck_jobs num_seconds_since now cx =
     List.map_filter (\<lambda>job_id.
       case get_context cx job_id of
         Err _ \<Rightarrow> None
       | Ok c \<Rightarrow>
           if jc_state c = Stuck
           then Some \<lparr>sj_job_id = job_id,
                      sj_last_activity = (case jc_started_at c of Some t \<Rightarrow> t | None \<Rightarrow> jc_created_at c),
                      sj_stuck_secs = (case jc_started_at c of Some t \<Rightarrow> nat (max (num_seconds_since now t) 0) | None \<Rightarrow> 0),
                      sj_last_error = None, sj_repair_attempts = jc_repair_attempts c\<rparr>
           else None) (find_stuck_jobs cx)"

definition repair_stuck_job ::
  "display_lib \<Rightarrow> instant \<Rightarrow> instant \<Rightarrow> u32 \<Rightarrow> stuck_job \<Rightarrow> 'd context_manager \<Rightarrow>
   'd context_manager \<times> (repair_error, repair_result) result" where
  "repair_stuck_job dl now now' max_repair_attempts job cx =
     (if sj_repair_attempts job \<ge> max_repair_attempts
      then (cx, Ok (ManualRequired (''Job '' @ dl_uuid dl (sj_job_id job) @ '' has exceeded maximum repair attempts ('' @
             nat_str (unat max_repair_attempts) @ '')'')))
      else case update_context cx (sj_job_id job) (attempt_recovery now now') of
        (cx', Ok (Ok _)) \<Rightarrow> (cx', Ok (RepairSuccess (''Job '' @ dl_uuid dl (sj_job_id job) @ '' recovered and will be retried'')))
      | (cx', Ok (Err e)) \<Rightarrow> (cx', Ok (RepairRetry (''Recovery attempt failed: '' @ e)))
      | (cx', Err e) \<Rightarrow> (cx', Err (RepairError ''job'' (sj_job_id job) (job_error_display dl e))))"

text \<open>One round of the repair task over the stuck jobs.\<close>

definition repair_round ::
  "(instant \<Rightarrow> instant \<Rightarrow> int) \<Rightarrow> display_lib \<Rightarrow> instant \<Rightarrow> instant \<Rightarrow> u32 \<Rightarrow> 'd context_manager \<Rightarrow> 'd context_manager" where
  "repair_round num_seconds_since dl now now' max_attempts cx =
     foldl (\<lambda>c job. fst (repair_stuck_job dl now now' max_attempts job c)) cx (detect_stuck_jobs num_seconds_since now cx)"

section \<open>The steps of all tasks\<close>

text \<open>
  Callers create a job under a fresh id and schedule it; a worker acts and ends; the cleanup tasks look
  and remove; jobs are stopped, cancelled by the tool of that name, and recovered by the repair task or by
  the help command.
\<close>

inductive job_system_step :: "('d::zero) scheduler \<Rightarrow> 'd scheduler \<Rightarrow> bool" where
  create: "map_of (cx_contexts (sc_cx st)) i = None \<Longrightarrow>
    job_system_step st (st\<lparr>sc_cx := fst (create_job_for_user i now (sc_cx st) user title description)\<rparr>)"
| schedule: "job_system_step st (fst (schedule now now' j st))"
| stop: "job_system_step st (fst (stop now now' j st))"
| worker: "(h, j) \<in> set (sc_live st) \<Longrightarrow> worker_step j (sc_cx st) cx \<Longrightarrow> job_system_step st (st\<lparr>sc_cx := cx\<rparr>)"
| worker_end: "job_system_step st (st\<lparr>sc_live := filter (\<lambda>p. fst p \<noteq> h) (sc_live st)\<rparr>)"
| look: "j \<in> fst ` set (sc_cleaners st) \<Longrightarrow> job_system_step st (cleaner_look j st)"
| remove: "(j, True) \<in> set (sc_cleaners st) \<Longrightarrow> job_system_step st (cleaner_remove j st)"
| recover: "job_system_step st (st\<lparr>sc_cx := fst (update_context (sc_cx st) j (attempt_recovery now now'))\<rparr>)"
| cancel: "job_system_step st
    (st\<lparr>sc_cx := fst (update_context (sc_cx st) j (\<lambda>c. transition_to now now' c job_state.Cancelled (Some reason)))\<rparr>)"

| touch: "(\<And>c. jc_state (f c) = jc_state c) \<Longrightarrow>
    job_system_step st (st\<lparr>sc_cx := fst (update_context (sc_cx st) j (\<lambda>c. (f c, ())))\<rparr>)"

inductive_cases job_system_stepE: "job_system_step st st'"

section \<open>How contexts evolve\<close>

definition evolves :: "'d context_manager \<Rightarrow> 'd context_manager \<Rightarrow> bool" where
  "evolves cx cx' \<longleftrightarrow>
     (\<forall>j c. map_of (cx_contexts cx) j = Some c \<longrightarrow>
        (\<exists>c'. map_of (cx_contexts cx') j = Some c' \<and>
           (jc_state c' = jc_state c \<or> can_transition_to (jc_state c) (jc_state c'))))"

lemma evolves_refl [simp]: "evolves cx cx" by (simp add: evolves_def)

lemma evolves_contexts: "cx_contexts cx' = cx_contexts cx \<Longrightarrow> evolves cx cx'" by (simp add: evolves_def)

lemma evolves_update:
  assumes "\<And>c. jc_state (fst (f c)) = jc_state c \<or> can_transition_to (jc_state c) (jc_state (fst (f c)))"
  shows "evolves cx (fst (update_context cx i f))"
proof (cases "map_of (cx_contexts cx) i")
  case (Some c)
  obtain c' r where "f c = (c', r)" by fastforce
  then show ?thesis using Some assms [of c] by (auto simp: evolves_def update_context_def update_conv')
qed (simp add: update_context_def)

lemma evolves_transition [simp]: "evolves cx (fst (update_context cx i (\<lambda>c. transition_to now now' c s r)))"
  by (rule evolves_update) (simp add: transition_to_def stamp_times_def Let_def)

lemma evolves_recovery [simp]: "evolves cx (fst (update_context cx i (attempt_recovery now now')))"
  by (rule evolves_update) (simp add: attempt_recovery_def transition_to_def stamp_times_def Let_def)

lemma update_memory_contexts [simp]: "cx_contexts (fst (update_memory cx j f)) = cx_contexts cx"
  by (simp add: update_memory_def split: option.split prod.split)

lemma worker_step_evolves: "worker_step j cx cx' \<Longrightarrow> evolves cx cx'"
  by (elim worker_stepE) (auto intro: evolves_contexts)

lemma create_evolves:
  "map_of (cx_contexts cx) i = None \<Longrightarrow> evolves cx (fst (create_job_for_user i now cx u t d))"
  by (auto simp: evolves_def create_job_for_user_def insert_context_def insert_memory_def update_conv')

lemma schedule_cx:
  "sc_cx (fst (schedule now now' j st)) = sc_cx st \<or>
   sc_cx (fst (schedule now now' j st)) =
     fst (update_context (sc_cx st) j (\<lambda>c. transition_to now now' c InProgress (Some ''Scheduled for execution'')))"
  by (auto simp: schedule_def Let_def split: prod.splits sum.splits)

lemma stop_cx:
  "sc_cx (fst (stop now now' j st)) = sc_cx st \<or>
   sc_cx (fst (stop now now' j st)) =
     fst (update_context (sc_cx st) j (\<lambda>c. transition_to now now' c job_state.Cancelled (Some ''Stopped by scheduler'')))"
  by (auto simp: stop_def Let_def split: prod.splits sum.splits option.splits)

lemma step_evolves: "job_system_step st st' \<Longrightarrow> evolves (sc_cx st) (sc_cx st')"
proof (induction rule: job_system_step.induct)
  case (schedule st now now' j)
  then show ?case using schedule_cx [of now now' j st] by (metis evolves_refl evolves_transition)
next
  case (stop st now now' j)
  then show ?case using stop_cx [of now now' j st] by (metis evolves_refl evolves_transition)
next
  case (touch f st j)
  then show ?case by (simp add: evolves_update)
qed (auto simp: cleaner_look_def cleaner_remove_def
    intro: create_evolves worker_step_evolves)

text \<open>A job that has left the pending state, and one that will not run again.\<close>

definition has_started :: "'d context_manager \<Rightarrow> uuid \<Rightarrow> bool" where
  "has_started cx j \<longleftrightarrow> (case map_of (cx_contexts cx) j of Some c \<Rightarrow> jc_state c \<noteq> Pending | None \<Rightarrow> False)"

definition over :: "'d context_manager \<Rightarrow> uuid \<Rightarrow> bool" where
  "over cx j \<longleftrightarrow>
     (case map_of (cx_contexts cx) j of Some c \<Rightarrow> jc_state c \<notin> {Pending, InProgress, Stuck} | None \<Rightarrow> False)"

lemma transition_from_started: "can_transition_to s s' \<Longrightarrow> s' \<noteq> Pending"
  by (induction s s' rule: can_transition_to.induct) auto

lemma transition_from_over:
  "can_transition_to s s' \<Longrightarrow> s \<notin> {Pending, InProgress, Stuck} \<Longrightarrow> s' \<notin> {Pending, InProgress, Stuck}"
  by (induction s s' rule: can_transition_to.induct) auto

lemma evolves_has_started: "evolves cx cx' \<Longrightarrow> has_started cx j \<Longrightarrow> has_started cx' j"
  unfolding evolves_def has_started_def by (auto split: option.splits dest: transition_from_started) (metis option.sel option.distinct(1) transition_from_started)+

lemma evolves_over: "evolves cx cx' \<Longrightarrow> over cx j \<Longrightarrow> over cx' j"
  unfolding evolves_def over_def by (fastforce split: option.splits dest: transition_from_over)

section \<open>The invariant of the scheduler\<close>

definition sched_inv :: "'d scheduler \<Rightarrow> bool" where
  "sched_inv st \<longleftrightarrow>
     distinct (map fst (sc_jobs st)) \<and> length (sc_jobs st) \<le> sc_max_parallel_jobs st \<and>
     distinct (map fst (sc_cleaners st)) \<and> distinct (map fst (sc_live st)) \<and>
     (\<forall>h \<in> fst ` set (sc_live st). h < sc_next_handle st) \<and>
     (\<forall>h j. (h, j) \<in> set (sc_live st) \<longrightarrow> map_of (sc_jobs st) j = Some h) \<and>
     (\<forall>j h. map_of (sc_jobs st) j = Some h \<longrightarrow> j \<in> fst ` set (sc_cleaners st) \<and> has_started (sc_cx st) j \<and>
        (map_of (sc_cleaners st) j = Some True \<longrightarrow> (h, j) \<notin> set (sc_live st))) \<and>
     (\<forall>j \<in> fst ` set (sc_cleaners st). map_of (sc_jobs st) j = None \<longrightarrow> over (sc_cx st) j)"

lemma sched_inv_new: "sched_inv (scheduler_new n cx)"
  by (simp add: sched_inv_def scheduler_new_def)

lemma sched_inv_evolves: "sched_inv st \<Longrightarrow> evolves (sc_cx st) cx \<Longrightarrow> sched_inv (st\<lparr>sc_cx := cx\<rparr>)"
  unfolding sched_inv_def by (auto intro: evolves_has_started evolves_over)

lemma update_same: "map_of m k = Some v \<Longrightarrow> AList.update k v m = m"
  by (induction m) auto

lemma length_update_new: "k \<notin> fst ` set m \<Longrightarrow> length (AList.update k v m) = Suc (length m)"
  by (induction m) auto

lemma schedule_cases:
  obtains "fst (schedule now now' j st) = st"
  | c c' where "map_of (sc_jobs st) j = None" "length (sc_jobs st) < sc_max_parallel_jobs st"
      "map_of (cx_contexts (sc_cx st)) j = Some c" "can_transition_to (jc_state c) InProgress" "jc_state c' = InProgress"
      "fst (schedule now now' j st) =
         st\<lparr>sc_cx := (sc_cx st)\<lparr>cx_contexts := AList.update j c' (cx_contexts (sc_cx st))\<rparr>,
            sc_live := (sc_next_handle st, j) # sc_live st, sc_jobs := AList.update j (sc_next_handle st) (sc_jobs st),
            sc_cleaners := (j, False) # sc_cleaners st, sc_next_handle := sc_next_handle st + 1\<rparr>"
proof (cases "map_of (sc_jobs st) j \<noteq> None \<or> length (sc_jobs st) \<ge> sc_max_parallel_jobs st")
  case True
  with that(1) show thesis by (auto simp: schedule_def)
next
  case free: False
  show thesis
  proof (cases "map_of (cx_contexts (sc_cx st)) j")
    case None
    with free that(1) show thesis by (simp add: schedule_def update_context_def)
  next
    case (Some c)
    show thesis
    proof (cases "can_transition_to (jc_state c) InProgress")
      case True
      from transition_state [OF this] obtain c' where "transition_to now now' c InProgress (Some ''Scheduled for execution'') = (c', Ok ())"
        "jc_state c' = InProgress" by blast
      with free Some True that(2) [of c c'] show thesis by (simp add: schedule_def update_context_def Let_def)
    next
      case False
      have "(sc_cx st)\<lparr>cx_contexts := AList.update j c (cx_contexts (sc_cx st))\<rparr> = sc_cx st"
        using Some by (simp add: update_same)
      with free Some False that(1) show thesis by (simp add: schedule_def update_context_def transition_to_def)
    qed
  qed
qed

lemma stop_cases:
  obtains "fst (stop now now' j st) = st"
  | h where "map_of (sc_jobs st) j = Some h"
      "fst (stop now now' j st) = st\<lparr>sc_jobs := AList.delete j (sc_jobs st), sc_live := filter (\<lambda>p. fst p \<noteq> h) (sc_live st),
         sc_cx := fst (update_context (sc_cx st) j
           (\<lambda>c. transition_to now now' c job_state.Cancelled (Some ''Stopped by scheduler'')))\<rparr>"
proof (cases "map_of (sc_jobs st) j")
  case None
  with that(1) show thesis by (simp add: stop_def)
next
  case (Some h)
  then have "fst (stop now now' j st) = st\<lparr>sc_jobs := AList.delete j (sc_jobs st), sc_live := filter (\<lambda>p. fst p \<noteq> h) (sc_live st),
         sc_cx := fst (update_context (sc_cx st) j
           (\<lambda>c. transition_to now now' c job_state.Cancelled (Some ''Stopped by scheduler'')))\<rparr>"
    by (simp add: stop_def Let_def split: prod.split sum.split)
  with that(2) [OF Some] show thesis .
qed

lemma started_stopped_over:
  assumes "has_started cx j"
  shows "over (fst (update_context cx j (\<lambda>c. transition_to now now' c job_state.Cancelled r))) j"
proof -
  from assms obtain c where c: "map_of (cx_contexts cx) j = Some c" "jc_state c \<noteq> Pending"
    by (auto simp: has_started_def split: option.splits)
  then show ?thesis
    by (cases "jc_state c") (auto simp: over_def update_context_def update_conv' transition_to_def stamp_times_def Let_def)
qed

lemma schedule_inv: "sched_inv st \<Longrightarrow> sched_inv (fst (schedule now now' j st))"
proof (cases rule: schedule_cases [of now now' j st])
  case (2 c c')
  assume inv: "sched_inv st"
  let ?cx = "(sc_cx st)\<lparr>cx_contexts := AList.update j c' (cx_contexts (sc_cx st))\<rparr>"
  have "\<not> over (sc_cx st) j" using 2(3,4) by (cases "jc_state c") (auto simp: over_def)
  with inv 2(1) have new: "j \<notin> fst ` set (sc_cleaners st)" by (auto simp: sched_inv_def)
  have ev: "evolves (sc_cx st) ?cx" using 2(3-5) by (auto simp: evolves_def update_conv')
  have st: "has_started ?cx j" using 2(5) by (simp add: has_started_def update_conv')
  have len: "length (AList.update j h (sc_jobs st)) = Suc (length (sc_jobs st))" for h
    using 2(1) by (intro length_update_new) (simp add: map_of_eq_None_iff)
  have fresh: "sc_next_handle st \<notin> fst ` set (sc_live st)" using inv by (auto simp: sched_inv_def)
  have nolive: "(h, j) \<notin> set (sc_live st)" for h using inv 2(1) by (auto simp: sched_inv_def)
  show ?thesis
    unfolding 2(6) using inv 2(1,2) new ev st fresh nolive
    by (auto simp: sched_inv_def len update_conv' distinct_update less_Suc_eq intro: evolves_has_started evolves_over
        split: if_splits)
qed simp

lemma stop_inv: "sched_inv st \<Longrightarrow> sched_inv (fst (stop now now' j st))"
proof (cases rule: stop_cases [of now now' j st])
  case (2 h)
  assume inv: "sched_inv st"
  define cx where "cx = fst (update_context (sc_cx st) j (\<lambda>c. transition_to now now' c job_state.Cancelled (Some ''Stopped by scheduler'')))"
  let ?st' = "st\<lparr>sc_jobs := AList.delete j (sc_jobs st), sc_live := filter (\<lambda>p. fst p \<noteq> h) (sc_live st), sc_cx := cx\<rparr>"
  have ev: "evolves (sc_cx st) cx" unfolding cx_def by simp
  have ov: "over cx j" unfolding cx_def using inv 2(1) by (intro started_stopped_over) (simp add: sched_inv_def)
  have live: "(k, i) \<in> set (sc_live st) \<Longrightarrow> map_of (sc_jobs st) i = Some k" for k i using inv unfolding sched_inv_def by blast
  have only: "(k, j) \<in> set (sc_live st) \<Longrightarrow> k = h" for k using live [of k j] 2(1) by auto
  have entry: "i \<in> fst ` set (sc_cleaners st)" "has_started (sc_cx st) i" "map_of (sc_cleaners st) i = Some True \<Longrightarrow> (k, i) \<notin> set (sc_live st)"
    if "map_of (sc_jobs st) i = Some k" for i k using inv that unfolding sched_inv_def by blast+
  have gone: "i \<in> fst ` set (sc_cleaners st) \<Longrightarrow> map_of (sc_jobs st) i = None \<Longrightarrow> over cx i" for i
    using inv evolves_over [OF ev] unfolding sched_inv_def by blast
  have basic: "distinct (map fst (sc_jobs st))" "length (sc_jobs st) \<le> sc_max_parallel_jobs st" "distinct (map fst (sc_cleaners st))"
    "distinct (map fst (sc_live st))" "\<forall>k \<in> fst ` set (sc_live st). k < sc_next_handle st"
    using inv unfolding sched_inv_def by blast+
  have "sched_inv ?st'"
    unfolding sched_inv_def
  proof (intro conjI allI ballI impI)
    fix i k assume "map_of (sc_jobs ?st') i = Some k"
    then have "map_of (sc_jobs st) i = Some k" by (simp add: delete_conv' split: if_splits)
    note e = entry [OF this]
    from e(1) show "i \<in> fst ` set (sc_cleaners ?st')" by simp
    from evolves_has_started [OF ev e(2)] show "has_started (sc_cx ?st') i" by simp
    show "(k, i) \<notin> set (sc_live ?st')" if "map_of (sc_cleaners ?st') i = Some True" using that e(3) by simp
  qed (use basic live only gone ov length_delete_le [of j "sc_jobs st"] in
        \<open>auto simp: delete_conv' distinct_delete distinct_map_filter split: if_splits\<close>)
  then show ?thesis unfolding 2(2) cx_def .
qed simp

lemma worker_end_inv: "sched_inv st \<Longrightarrow> sched_inv (st\<lparr>sc_live := filter (\<lambda>p. fst p \<noteq> h) (sc_live st)\<rparr>)"
  by (auto simp: sched_inv_def distinct_map_filter)

lemma cleaner_look_inv:
  assumes inv: "sched_inv st" and j: "j \<in> fst ` set (sc_cleaners st)"
  shows "sched_inv (cleaner_look j st)"
proof (cases "cleaner_sees_end st j")
  case True
  have keys: "fst ` set (AList.update j True (sc_cleaners st)) = fst ` set (sc_cleaners st)"
    using j by (simp add: dom_update insert_absorb)
  have over: "(h, j) \<notin> set (sc_live st)" if "map_of (sc_jobs st) j = Some h" for h
    using True that by (force simp: cleaner_sees_end_def is_finished_def)
  have look: "cleaner_look j st = st\<lparr>sc_cleaners := AList.update j True (sc_cleaners st)\<rparr>" using True by (simp add: cleaner_look_def)
  show ?thesis
    unfolding look using inv over keys j by (simp add: sched_inv_def distinct_update update_conv')
qed (simp add: cleaner_look_def inv)

lemma cleaner_remove_inv:
  assumes inv: "sched_inv st" and j: "(j, True) \<in> set (sc_cleaners st)"
  shows "sched_inv (cleaner_remove j st)"
proof -
  have m: "map_of (sc_cleaners st) j = Some True" using inv j by (simp add: sched_inv_def)
  have none: "(h, j) \<notin> set (sc_live st)" for h using inv m by (fastforce simp: sched_inv_def)
  have len: "length (AList.delete j (sc_jobs st)) \<le> length (sc_jobs st)" by (rule length_delete_le)
  have keys: "fst ` set (AList.delete j (sc_cleaners st)) = fst ` set (sc_cleaners st) - {j}"
    by (metis delete_keys list.set_map set_removeAll)
  show ?thesis
    using inv none len by (auto simp: sched_inv_def cleaner_remove_def delete_conv' distinct_delete keys split: if_splits)
qed

lemma step_inv: "job_system_step st st' \<Longrightarrow> sched_inv st \<Longrightarrow> sched_inv st'"
proof (induction rule: job_system_step.induct)
  case (create st i now user title description)
  then show ?case by (intro sched_inv_evolves create_evolves)
next
  case (worker h j st cx)
  then show ?case by (intro sched_inv_evolves worker_step_evolves)
next
  case (touch f st j)
  then show ?case by (intro sched_inv_evolves evolves_update) simp_all
qed (simp_all add: schedule_inv stop_inv worker_end_inv cleaner_look_inv cleaner_remove_inv sched_inv_evolves)

lemma reachable_inv: "job_system_step\<^sup>*\<^sup>* st st' \<Longrightarrow> sched_inv st \<Longrightarrow> sched_inv st'"
  by (induction rule: rtranclp_induct) (auto intro: step_inv)

lemma step_max [simp]: "job_system_step st st' \<Longrightarrow> sc_max_parallel_jobs st' = sc_max_parallel_jobs st"
proof (induction rule: job_system_step.induct)
  case (schedule st now now' j)
  then show ?case by (cases rule: schedule_cases [of now now' j st]) simp_all
next
  case (stop st now now' j)
  then show ?case by (cases rule: stop_cases [of now now' j st]) simp_all
qed (simp_all add: cleaner_look_def cleaner_remove_def)

lemma reachable_max: "job_system_step\<^sup>*\<^sup>* st st' \<Longrightarrow> sc_max_parallel_jobs st' = sc_max_parallel_jobs st"
  by (induction rule: rtranclp_induct) auto

lemma update_context_max [simp]: "cx_max_jobs (fst (update_context cx i f)) = cx_max_jobs cx"
  by (simp add: update_context_def split: option.split prod.split)

lemma step_max_jobs: "job_system_step st st' \<Longrightarrow> cx_max_jobs (sc_cx st') = cx_max_jobs (sc_cx st)"
proof (induction rule: job_system_step.induct)
  case (schedule st now now' j)
  then show ?case using schedule_cx [of now now' j st] by (metis update_context_max)
next
  case (stop st now now' j)
  then show ?case using stop_cx [of now now' j st] by (metis update_context_max)
next
  case (worker h j st cx)
  then show ?case by (auto elim!: worker_stepE simp: update_memory_def split: option.split prod.split)
qed (simp_all add: cleaner_look_def cleaner_remove_def create_job_for_user_def insert_context_def insert_memory_def)

lemma reachable_max_jobs: "job_system_step\<^sup>*\<^sup>* st st' \<Longrightarrow> cx_max_jobs (sc_cx st') = cx_max_jobs (sc_cx st)"
  by (induction rule: rtranclp_induct) (auto dest: step_max_jobs)

section \<open>Jobs without a worker\<close>

definition no_worker :: "'d scheduler \<Rightarrow> uuid \<Rightarrow> bool" where
  "no_worker st j \<longleftrightarrow> j \<notin> snd ` set (sc_live st)"

lemma job_is_update:
  "job_is (fst (update_context cx i f)) j s \<longleftrightarrow>
     (if i = j then (case map_of (cx_contexts cx) j of Some c \<Rightarrow> jc_state (fst (f c)) = s | None \<Rightarrow> False) else job_is cx j s)"
  by (auto simp: job_is_def update_context_def update_conv' split: option.splits prod.splits)

lemma transition_keeps_or_moves:
  "jc_state (fst (transition_to now now' c s r)) = (if can_transition_to (jc_state c) s then s else jc_state c)"
  by (simp add: transition_to_def stamp_times_def Let_def)

lemma recovery_state: "jc_state (fst (attempt_recovery now now' c)) = (if jc_state c = Stuck then InProgress else jc_state c)"
  by (simp add: attempt_recovery_def transition_to_def stamp_times_def Let_def)

lemma job_is_worker_step: "worker_step i cx cx' \<Longrightarrow> i \<noteq> j \<Longrightarrow> job_is cx' j s = job_is cx j s"
  by (elim worker_stepE) (auto simp: job_is_update job_is_contexts [OF update_memory_contexts])

lemma job_is_create:
  "map_of (cx_contexts cx) i = None \<Longrightarrow> job_is cx j s \<Longrightarrow> job_is (fst (create_job_for_user i now cx u t d)) j s"
  by (auto simp: job_is_def create_job_for_user_def insert_context_def insert_memory_def update_conv' split: option.splits)

lemma job_is_map:
  assumes "job_is cx j s" and "\<And>c. jc_state c = s \<Longrightarrow> jc_state (fst (f c)) = s'"
  shows "job_is (fst (update_context cx i f)) j (if i = j then s' else s)"
  using assms by (auto simp: job_is_update) (auto simp: job_is_def split: option.splits)

lemma job_is_transition:
  "job_is cx j s \<Longrightarrow> job_is (fst (update_context cx i (\<lambda>c. transition_to now now' c s' r))) j
     (if i = j then (if can_transition_to s s' then s' else s) else s)"
  by (erule job_is_map) (simp add: transition_keeps_or_moves)

text \<open>A job that nobody works on and that cannot go back to in progress stays as it is, or is cancelled.\<close>

lemma step_without_worker:
  assumes "job_system_step st st'" and "no_worker st j" and "job_is (sc_cx st) j s" and s: "\<not> can_transition_to s InProgress"
  shows "no_worker st' j \<and> (\<exists>s' \<in> {s, job_state.Cancelled}. job_is (sc_cx st') j s' \<and> (s' = s \<or> can_transition_to s s'))"
  using assms(1-3)
proof (induction rule: job_system_step.induct)
  case (create st i now user title description)
  then show ?case by (auto simp: no_worker_def job_is_create)
next
  case (schedule st now now' i)
  show ?case
  proof (cases rule: schedule_cases [of now now' i st])
    case (2 c c')
    then have "i \<noteq> j" using schedule.prems(2) s by (auto simp: job_is_def)
    with 2(6) schedule.prems show ?thesis by (auto simp: no_worker_def job_is_def update_conv')
  qed (use schedule.prems in auto)
next
  case (stop st now now' i)
  show ?case
  proof (cases rule: stop_cases [of now now' i st])
    case (2 h)
    with stop.prems job_is_transition [OF stop.prems(2), of i now now' job_state.Cancelled "Some ''Stopped by scheduler''"] show ?thesis
      by (auto simp: no_worker_def split: if_splits)
  qed (use stop.prems in auto)
next
  case (worker h i st cx)
  then have "i \<noteq> j" by (force simp: no_worker_def)
  with worker show ?case by (auto simp: no_worker_def job_is_worker_step)
next
  case (recover st i now now')
  have "s \<noteq> Stuck" using s by auto
  with recover(2) have "job_is (fst (update_context (sc_cx st) i (attempt_recovery now now'))) j (if i = j then s else s)"
    by (intro job_is_map) (simp_all add: recovery_state)
  with recover(1) show ?case by (auto simp: no_worker_def)
next
  case (cancel st i now now' reason)
  with job_is_transition [OF cancel(2), of i now now' job_state.Cancelled "Some reason"] show ?case
    by (auto simp: no_worker_def split: if_splits)
next
  case (touch f st i)
  from touch(3) have "job_is (fst (update_context (sc_cx st) i (\<lambda>c. (f c, ())))) j (if i = j then s else s)"
    by (rule job_is_map) (simp add: touch(1))
  with touch(2) show ?case by (auto simp: no_worker_def)
qed (auto simp: no_worker_def cleaner_look_def cleaner_remove_def)

lemma run_without_worker:
  assumes "job_system_step\<^sup>*\<^sup>* st st'" and "no_worker st j" and "job_is (sc_cx st) j s" and "\<not> can_transition_to s InProgress"
    and "\<not> can_transition_to job_state.Cancelled InProgress"
  shows "no_worker st' j \<and> (\<exists>s' \<in> {s, job_state.Cancelled}. job_is (sc_cx st') j s' \<and> (s' = s \<or> can_transition_to s s'))"
  using assms(1)
proof (induction rule: rtranclp_induct)
  case base
  with assms(2,3) show ?case by auto
next
  case (step st1 st2)
  then obtain s1 where s1: "no_worker st1 j" "s1 \<in> {s, job_state.Cancelled}" "job_is (sc_cx st1) j s1" "s1 = s \<or> can_transition_to s s1" by blast
  with step_without_worker [OF step(2) s1(1,3)] assms(4,5) show ?case by auto
qed

section \<open>Properties\<close>

text \<open>
  C6: Over every interleaving of scheduling, workers, cleanup tasks, stops, repairs and cancellations the
  number of scheduled jobs and of running workers stays within the limit, no job has two workers, every
  running worker is registered, and every registered job has the cleanup task that frees its place.
\<close>

theorem scheduler_invariant:
  assumes "job_system_step\<^sup>*\<^sup>* (scheduler_new n cx) st"
  shows "running_count st \<le> n \<and> length (sc_live st) \<le> n \<and> distinct (map snd (sc_live st)) \<and>
    (\<forall>j \<in> set (map snd (sc_live st)). is_running st j) \<and> set (running_jobs st) \<subseteq> fst ` set (sc_cleaners st)"
proof -
  have inv: "sched_inv st" using reachable_inv [OF assms sched_inv_new] .
  have mx: "sc_max_parallel_jobs st = n" using reachable_max [OF assms] by (simp add: scheduler_new_def)
  have live: "(h, j) \<in> set (sc_live st) \<Longrightarrow> map_of (sc_jobs st) j = Some h" for h j using inv unfolding sched_inv_def by blast
  have len: "length (sc_jobs st) \<le> n" using inv mx by (simp add: sched_inv_def)
  have "inj_on snd (set (sc_live st))"
  proof (rule inj_onI)
    fix x y assume "x \<in> set (sc_live st)" "y \<in> set (sc_live st)" "snd x = snd y"
    with live show "x = y" by (metis option.inject prod.collapse)
  qed
  moreover have "distinct (sc_live st)" using inv by (auto simp: sched_inv_def distinct_map)
  ultimately have d: "distinct (map snd (sc_live st))" by (simp add: distinct_map)
  have sub: "set (map snd (sc_live st)) \<subseteq> set (map fst (sc_jobs st))" using live by (force dest: map_of_SomeD)
  have "length (sc_live st) \<le> length (sc_jobs st)"
    using card_mono [OF _ sub] distinct_card [OF d] card_length [of "map fst (sc_jobs st)"] by simp
  moreover have "j \<in> fst ` set (sc_cleaners st)" if "(j, h) \<in> set (sc_jobs st)" for j h
    using inv that by (auto simp: sched_inv_def)
  ultimately show ?thesis
    using len d live by (fastforce simp: running_count_def is_running_def running_jobs_def)
qed

definition sample_stuck :: "nat scheduler" where
  "sample_stuck = scheduler_new 5 \<lparr>cx_contexts = [(1, sample_job\<lparr>jc_state := Stuck\<rparr>)], cx_memories = [], cx_max_jobs = 1\<rparr>"

definition sample_stuck_job :: stuck_job where
  "sample_stuck_job = \<lparr>sj_job_id = 1, sj_last_activity = 0, sj_stuck_secs = 0, sj_last_error = None, sj_repair_attempts = 0\<rparr>"

theorem scheduler_invariant_witness:
  "running_count (fst (schedule 1 1 1 (scheduler_new 5 (sample_cx\<lparr>cx_contexts := [(1, with_user 1 0 ''u'' ''t'' ''d'')]\<rparr>)))) \<le> 5 \<and>
   is_running (fst (schedule 1 1 1 (scheduler_new 5 (sample_cx\<lparr>cx_contexts := [(1, with_user 1 0 ''u'' ''t'' ''d'')]\<rparr>)))) 1"
proof -
  let ?st = "scheduler_new 5 (sample_cx\<lparr>cx_contexts := [(1, with_user 1 0 ''u'' ''t'' ''d'')]\<rparr>)"
  have "job_system_step\<^sup>*\<^sup>* ?st (fst (schedule 1 1 1 ?st))" by (intro r_into_rtranclp job_system_step.schedule)
  from scheduler_invariant [OF this] show ?thesis
    by (simp add: schedule_def scheduler_new_def update_context_def transition_to_def with_user_def Let_def is_running_def stamp_times_def)
qed

text \<open>
  A stuck job that the repair task reports as recovered is not run again.  The repair sets it to in
  progress and starts no worker; scheduling needs a transition to in progress, which a job in progress
  does not have, so it stays in progress without a worker until somebody cancels it.
\<close>

theorem recovered_job_never_runs:
  assumes "repair_stuck_job dl now now' limit job (sc_cx st) = (cx, Ok (RepairSuccess msg))"
    and "no_worker st (sj_job_id job)" and "job_system_step\<^sup>*\<^sup>* (st\<lparr>sc_cx := cx\<rparr>) st'"
  shows "no_worker st' (sj_job_id job) \<and>
    (job_is (sc_cx st') (sj_job_id job) InProgress \<or> job_is (sc_cx st') (sj_job_id job) job_state.Cancelled)"
proof -
  let ?j = "sj_job_id job"
  have up: "update_context (sc_cx st) ?j (attempt_recovery now now') = (cx, Ok (Ok ()))"
    using assms(1) by (auto simp: repair_stuck_job_def split: if_splits prod.splits sum.splits)
  then have "job_is (sc_cx st) ?j Stuck"
    by (auto simp: update_context_def job_is_def attempt_recovery_def split: option.splits prod.splits if_splits)
  then have "job_is (fst (update_context (sc_cx st) ?j (attempt_recovery now now'))) ?j (if ?j = ?j then InProgress else Stuck)"
    by (rule job_is_map) (simp add: recovery_state)
  then have "job_is (sc_cx (st\<lparr>sc_cx := cx\<rparr>)) ?j InProgress" using up by simp
  moreover have "no_worker (st\<lparr>sc_cx := cx\<rparr>) ?j" using assms(2) by (simp add: no_worker_def)
  ultimately show ?thesis using run_without_worker [OF assms(3), of ?j InProgress] by auto
qed

theorem recovered_job_never_runs_witness:
  "\<exists>cx msg. repair_stuck_job (we_display sample_worker) 7 7 3 sample_stuck_job (sc_cx sample_stuck) = (cx, Ok (RepairSuccess msg)) \<and>
     no_worker (sample_stuck\<lparr>sc_cx := cx\<rparr>) 1"
proof -
  obtain cx msg where r: "repair_stuck_job (we_display sample_worker) 7 7 3 sample_stuck_job (sc_cx sample_stuck) = (cx, Ok (RepairSuccess msg))"
    by (simp add: repair_stuck_job_def sample_stuck_job_def sample_stuck_def scheduler_new_def update_context_def attempt_recovery_def
        transition_to_def Let_def)
  from recovered_job_never_runs [OF r, of "sample_stuck\<lparr>sc_cx := cx\<rparr>"] r show ?thesis
    by (auto simp: no_worker_def sample_stuck_def scheduler_new_def sample_stuck_job_def)
qed

text \<open>
  Completed jobs keep their places.  The limit on jobs counts those that are not in a final state,
  completed is not one, and no task moves a completed job on; once as many jobs as the limit allows
  have completed, every later creation of a job is refused.
\<close>

theorem completed_jobs_block_creation:
  assumes "finite K" and "cx_max_jobs (sc_cx st) \<le> card K"
    and "\<forall>j \<in> K. job_is (sc_cx st) j job_state.Completed \<and> no_worker st j" and "job_system_step\<^sup>*\<^sup>* st st'"
  shows "create_job_for_user i now (sc_cx st') user title description = (sc_cx st', Err (MaxJobsExceeded (cx_max_jobs (sc_cx st'))))"
proof -
  have "job_is (sc_cx st') j job_state.Completed" if "j \<in> K" for j
    using run_without_worker [OF assms(4), of j job_state.Completed] assms(3) that by auto
  then have "K \<subseteq> fst ` set (filter (\<lambda>(_, c). is_active (jc_state c)) (cx_contexts (sc_cx st')))"
    by (force simp: job_is_def is_active_def is_terminal_def split: option.splits dest: map_of_SomeD)
  then have "card K \<le> active_count (sc_cx st')"
    unfolding active_count_def by (metis (no_types, lifting) card_length card_mono finite_set le_trans length_map list.set_map)
  moreover have "cx_max_jobs (sc_cx st') = cx_max_jobs (sc_cx st)" using reachable_max_jobs [OF assms(4)] .
  ultimately show ?thesis using assms(2) by (simp add: create_job_for_user_def insert_context_def)
qed

theorem completed_jobs_block_creation_witness:
  "create_job_for_user 2 9 (sample_cx\<lparr>cx_contexts := [(1, sample_job\<lparr>jc_state := job_state.Completed\<rparr>)], cx_max_jobs := 1\<rparr>) ''u'' ''t'' ''d'' =
     (sample_cx\<lparr>cx_contexts := [(1, sample_job\<lparr>jc_state := job_state.Completed\<rparr>)], cx_max_jobs := 1\<rparr>, Err (MaxJobsExceeded 1))"
proof -
  let ?st = "scheduler_new 5 (sample_cx\<lparr>cx_contexts := [(1, sample_job\<lparr>jc_state := job_state.Completed\<rparr>)], cx_max_jobs := 1\<rparr>)"
  from completed_jobs_block_creation [of "{1}" ?st ?st 2 9 "''u''" "''t''" "''d''"] show ?thesis
    by (simp add: scheduler_new_def job_is_def no_worker_def)
qed

end
