(* ===== verification/Subtasks.thy ===== *)
theory Subtasks
  imports Scheduler
begin

text \<open>
  The sub-tasks of the scheduler, \<^verbatim>\<open>src/src/agent/scheduler.rs\<close> and \<^verbatim>\<open>src/src/agent/task.rs\<close>: a tool is run
  here, or offered to a peer of the swarm with a fallback to running it here, and a batch of tasks is
  run at once.  The swarm and the tools are arguments; a run also returns what was sent to the swarm
  and what ran here.
\<close>

section \<open>Tasks\<close>

record task_output =
  to_result :: json
  to_duration :: duration

record task_context =
  tx_task_id :: uuid
  tx_parent_id :: "uuid option"
  tx_metadata :: json

datatype task =
    TaskJob uuid string string
  | TaskToolExec uuid string json
  | TaskBackground uuid "task_context \<Rightarrow> (agent_error, task_output) result"

definition REMOTE_WAIT_TIMEOUT :: nat where "REMOTE_WAIT_TIMEOUT = 300"
definition REMOTE_DISTRIBUTE_RETRIES :: nat where "REMOTE_DISTRIBUTE_RETRIES = 2"

datatype offload_decision = LocalOnly | RemotePreferred

record scheduler_metrics =
  mx_remote_attempts :: u64
  mx_remote_successes :: u64
  mx_remote_failures :: u64
  mx_remote_timeouts :: u64
  mx_local_fallbacks :: u64
  mx_remote_ineligible :: u64

definition metrics_default :: scheduler_metrics where
  "metrics_default = \<lparr>mx_remote_attempts = 0, mx_remote_successes = 0, mx_remote_failures = 0, mx_remote_timeouts = 0,
     mx_local_fallbacks = 0, mx_remote_ineligible = 0\<rparr>"

text \<open>What comes back from a peer within the time to wait: a result, or nothing usable.\<close>

datatype remote_reply = RemoteResult bool string nat | NoReply

record swarm_lib =
  sw_has_capability :: "string \<Rightarrow> (string, bool) result"
  sw_register :: "uuid \<Rightarrow> bool"
  sw_distribute :: "uuid \<Rightarrow> nat \<Rightarrow> bool"
  sw_reply :: "uuid \<Rightarrow> remote_reply"

record 'd subtask_env =
  se_tools :: "string \<Rightarrow> tool_info option"
  se_cx :: "'d context_manager"
  se_validator :: validator
  se_execute :: "uuid \<Rightarrow> string \<Rightarrow> json \<Rightarrow> 'd job_context \<Rightarrow> exec_result"
  se_elapsed :: "uuid \<Rightarrow> duration"
  se_from_json :: "string \<Rightarrow> json option"
  se_swarm :: "swarm_lib option"
  se_task_id :: "nat \<Rightarrow> uuid"
  se_dropped :: "uuid \<Rightarrow> bool"

definition required_swarm_capability :: "string \<Rightarrow> string" where
  "required_swarm_capability tool_name =
     (if tool_name = ''shell'' then ''shell''
      else if tool_name = ''memory_search'' \<or> tool_name = ''memory_graph'' then ''memory_search''
      else ''tool_exec'')"

definition decide_offload :: "'d subtask_env \<Rightarrow> swarm_lib \<Rightarrow> string \<Rightarrow> json \<Rightarrow> offload_decision" where
  "decide_offload env swarm tool_name params =
     (case se_tools env tool_name of
        None \<Rightarrow> LocalOnly
      | Some tool \<Rightarrow>
          if ti_requires_approval tool \<or> ti_requires_approval_for tool params then LocalOnly
          else if sw_has_capability swarm (required_swarm_capability tool_name) = Ok True then RemotePreferred
          else LocalOnly)"

text \<open>Running a tool here; the second component is what has been executed.\<close>

definition execute_tool_task ::
  "'d subtask_env \<Rightarrow> uuid \<Rightarrow> uuid \<Rightarrow> string \<Rightarrow> json \<Rightarrow> (agent_error, task_output) result \<times> (string \<times> json) list" where
  "execute_tool_task env task_id job_id tool_name params =
     (case se_tools env tool_name of
        None \<Rightarrow> (Err (AgentTool (ToolNotFound tool_name)), [])
      | Some tool \<Rightarrow>
          (case get_context (se_cx env) job_id of
             Err e \<Rightarrow> (Err (AgentJob e), [])
           | Ok job_ctx \<Rightarrow>
               if jc_state job_ctx = job_state.Cancelled
               then (Err (AgentTool (ToolExecutionFailed tool_name ''Job is cancelled'')), [])
               else if ti_requires_approval tool then (Err (AgentTool (ToolAuthRequired tool_name)), [])
               else let validation = validate_tool_params (se_validator env) params in
                 if \<not> vr_is_valid validation
                 then (Err (AgentTool (ToolInvalidParameters tool_name
                        (''Invalid tool parameters: '' @ invalid_details validation))), [])
                 else ((case se_execute env task_id tool_name params job_ctx of
                          ExecTimeout \<Rightarrow> Err (AgentTool (ToolTimeout tool_name (ti_timeout_debug tool)))
                        | ExecErr e \<Rightarrow> Err (AgentTool (ToolExecutionFailed tool_name e))
                        | ExecOk v \<Rightarrow> Ok \<lparr>to_result = v, to_duration = se_elapsed env task_id\<rparr>),
                       [(tool_name, params)])))"

text \<open>The attempts to hand the task to a peer stop at the first that is taken.\<close>

definition distribute :: "swarm_lib \<Rightarrow> uuid \<Rightarrow> bool" where
  "distribute swarm task_id = list_ex (sw_distribute swarm task_id) [0..<REMOTE_DISTRIBUTE_RETRIES + 1]"

record tool_run =
  tr_result :: "(agent_error, task_output) result"
  tr_sent :: "(string \<times> json) list"
  tr_ran :: "(string \<times> json) list"

definition run_local ::
  "'d subtask_env \<Rightarrow> uuid \<Rightarrow> uuid \<Rightarrow> string \<Rightarrow> json \<Rightarrow> scheduler_metrics \<Rightarrow> (string \<times> json) list \<Rightarrow> scheduler_metrics \<times> tool_run" where
  "run_local env task_id parent tool_name params mx sent =
     (case execute_tool_task env task_id parent tool_name params of (r, here) \<Rightarrow>
        (mx\<lparr>mx_local_fallbacks := mx_local_fallbacks mx + 1\<rparr>, \<lparr>tr_result = r, tr_sent = sent, tr_ran = here\<rparr>))"

definition run_tool_exec ::
  "'d subtask_env \<Rightarrow> uuid \<Rightarrow> uuid \<Rightarrow> string \<Rightarrow> json \<Rightarrow> scheduler_metrics \<Rightarrow> scheduler_metrics \<times> tool_run" where
  "run_tool_exec env task_id parent tool_name params mx =
     (case se_swarm env of
        None \<Rightarrow> run_local env task_id parent tool_name params mx []
      | Some swarm \<Rightarrow>
          (case decide_offload env swarm tool_name params of
             LocalOnly \<Rightarrow>
               run_local env task_id parent tool_name params (mx\<lparr>mx_remote_ineligible := mx_remote_ineligible mx + 1\<rparr>) []
           | RemotePreferred \<Rightarrow>
               let mx1 = mx\<lparr>mx_remote_attempts := mx_remote_attempts mx + 1\<rparr> in
               if \<not> sw_register swarm task_id
               then run_local env task_id parent tool_name params (mx1\<lparr>mx_remote_ineligible := mx_remote_ineligible mx1 + 1\<rparr>) []
               else if \<not> distribute swarm task_id
               then run_local env task_id parent tool_name params (mx1\<lparr>mx_remote_failures := mx_remote_failures mx1 + 1\<rparr>) []
               else case sw_reply swarm task_id of
                 RemoteResult True output ms \<Rightarrow>
                   (mx1\<lparr>mx_remote_successes := mx_remote_successes mx1 + 1\<rparr>,
                    \<lparr>tr_result = Ok \<lparr>to_result = (case se_from_json env output of Some v \<Rightarrow> v | None \<Rightarrow> JObject [(''output'', JString output)]),
                        to_duration = ms * 1000000\<rparr>, tr_sent = [(tool_name, params)], tr_ran = []\<rparr>)
               | RemoteResult False _ _ \<Rightarrow>
                   run_local env task_id parent tool_name params (mx1\<lparr>mx_remote_failures := mx_remote_failures mx1 + 1\<rparr>)
                     [(tool_name, params)]
               | NoReply \<Rightarrow>
                   run_local env task_id parent tool_name params (mx1\<lparr>mx_remote_timeouts := mx_remote_timeouts mx1 + 1\<rparr>)
                     [(tool_name, params)]))"

text \<open>
  Spawning a sub-task gives the result that its receiver will get, or an error when the receiver finds the
  channel closed (\<open>se_dropped\<close>); a job is refused.
\<close>

definition spawn_subtask ::
  "'d subtask_env \<Rightarrow> uuid \<Rightarrow> uuid \<Rightarrow> task \<Rightarrow> scheduler_metrics \<Rightarrow>
   scheduler_metrics \<times> (job_error, (agent_error, task_output) result option) result" where
  "spawn_subtask env task_id parent_id t mx =
     (case t of
        TaskJob _ _ _ \<Rightarrow> (mx, Err (ContextError parent_id ''Use schedule() for Job tasks, not spawn_subtask()''))
      | TaskToolExec tool_parent tool_name params \<Rightarrow>
          (case run_tool_exec env task_id tool_parent tool_name params mx of (mx', run) \<Rightarrow>
             (mx', Ok (if se_dropped env task_id then None else Some (tr_result run))))
      | TaskBackground _ handler \<Rightarrow>
          (mx, Ok (if se_dropped env task_id then None
             else Some (handler \<lparr>tx_task_id = task_id, tx_parent_id = Some parent_id, tx_metadata = JNull\<rparr>))))"

fun spawn_all ::
  "'d subtask_env \<Rightarrow> uuid \<Rightarrow> nat \<Rightarrow> task list \<Rightarrow> scheduler_metrics \<Rightarrow>
   scheduler_metrics \<times> (job_error, (agent_error, task_output) result option) result list" where
  "spawn_all env parent_id n [] mx = (mx, [])"
| "spawn_all env parent_id n (t # ts) mx =
     (case spawn_subtask env (se_task_id env n) parent_id t mx of (mx1, rx) \<Rightarrow>
        case spawn_all env parent_id (Suc n) ts mx1 of (mx2, rxs) \<Rightarrow> (mx2, rx # rxs))"

definition collect ::
  "uuid \<Rightarrow> (job_error, (agent_error, task_output) result option) result \<Rightarrow> (agent_error, task_output) result" where
  "collect parent_id rx =
     (case rx of
        Err _ \<Rightarrow> Err (AgentJob (ContextError parent_id ''Subtask failed to spawn''))
      | Ok None \<Rightarrow> Err (AgentJob (ContextError parent_id ''Subtask channel closed unexpectedly''))
      | Ok (Some r) \<Rightarrow> r)"

definition spawn_batch ::
  "'d subtask_env \<Rightarrow> uuid \<Rightarrow> task list \<Rightarrow> scheduler_metrics \<Rightarrow> scheduler_metrics \<times> (agent_error, task_output) result list" where
  "spawn_batch env parent_id tasks mx =
     (case spawn_all env parent_id 0 tasks mx of (mx', rxs) \<Rightarrow> (mx', map (collect parent_id) rxs))"

section \<open>Lemmas\<close>

lemma execute_tool_task_ran:
  "execute_tool_task env i job name params = (r, here) \<Longrightarrow> here \<noteq> [] \<Longrightarrow>
   here = [(name, params)] \<and> (\<exists>tool. se_tools env name = Some tool \<and> \<not> ti_requires_approval tool) \<and>
   (\<exists>c. get_context (se_cx env) job = Ok c \<and> jc_state c \<noteq> job_state.Cancelled) \<and>
   vr_is_valid (validate_tool_params (se_validator env) params)"
  by (auto simp: execute_tool_task_def Let_def split: option.splits sum.splits if_splits)

lemma run_local_fields [simp]:
  "tr_sent (snd (run_local env i p n ps mx sent)) = sent"
  "tr_ran (snd (run_local env i p n ps mx sent)) = snd (execute_tool_task env i p n ps)"
  "tr_result (snd (run_local env i p n ps mx sent)) = fst (execute_tool_task env i p n ps)"
  "fst (run_local env i p n ps mx sent) = mx\<lparr>mx_local_fallbacks := mx_local_fallbacks mx + 1\<rparr>"
  by (simp_all add: run_local_def split: prod.split)

lemma decide_remote:
  "decide_offload env swarm n ps = RemotePreferred \<Longrightarrow>
   \<exists>tool. se_tools env n = Some tool \<and> \<not> ti_requires_approval tool \<and> \<not> ti_requires_approval_for tool ps"
  by (auto simp: decide_offload_def split: option.splits if_splits)

lemmas run_tool_exec_split = run_tool_exec_def [unfolded Let_def]

lemma run_tool_exec_sent:
  "tr_sent (snd (run_tool_exec env i p n ps mx)) \<in> {[], [(n, ps)]} \<and>
   (tr_sent (snd (run_tool_exec env i p n ps mx)) \<noteq> [] \<longrightarrow>
      (\<exists>tool. se_tools env n = Some tool \<and> \<not> ti_requires_approval tool \<and> \<not> ti_requires_approval_for tool ps))"
  by (auto simp: run_tool_exec_split split: option.splits offload_decision.splits remote_reply.splits bool.splits dest: decide_remote)

lemma run_tool_exec_ran:
  "tr_ran (snd (run_tool_exec env i p n ps mx)) \<in> {[], snd (execute_tool_task env i p n ps)}"
  by (simp add: run_tool_exec_split split: option.split offload_decision.split remote_reply.split bool.split)

lemma run_tool_exec_result_metrics:
  "snd (run_tool_exec env i p n ps mx) = snd (run_tool_exec env i p n ps mx')"
  by (simp add: run_tool_exec_split run_local_def split: option.split offload_decision.split remote_reply.split bool.split prod.split)

lemma spawn_result_metrics: "snd (spawn_subtask env i parent t mx) = snd (spawn_subtask env i parent t mx')"
proof (cases t)
  case (TaskToolExec p n ps)
  then show ?thesis using run_tool_exec_result_metrics [of env i p n ps mx mx'] by (auto simp: spawn_subtask_def split: prod.split)
qed (simp_all add: spawn_subtask_def)

lemma spawn_all_results:
  "snd (spawn_all env parent n ts mx) = map (\<lambda>(i, t). snd (spawn_subtask env (se_task_id env i) parent t mx0)) (List.enumerate n ts)"
proof (induction ts arbitrary: n mx)
  case (Cons t ts)
  obtain mx1 rx where e: "spawn_subtask env (se_task_id env n) parent t mx = (mx1, rx)" by fastforce
  have "rx = snd (spawn_subtask env (se_task_id env n) parent t mx0)" by (metis e snd_conv spawn_result_metrics)
  with Cons [of "Suc n" mx1] e show ?case by (auto split: prod.split)
qed simp

section \<open>Properties\<close>

text \<open>
  A tool that needs approval is neither run as a sub-task nor sent to a peer, and one whose parameters
  need approval is not sent.  What runs here has a job that is not cancelled and valid parameters;
  what is sent has been checked for neither.
\<close>

theorem subtask_gate:
  assumes "run_tool_exec env i job name params mx = (mx', run)"
  shows "set (tr_sent run) \<union> set (tr_ran run) \<subseteq> {(name, params)} \<and>
    (tr_sent run = [] \<and> tr_ran run = [] \<or> (\<exists>tool. se_tools env name = Some tool \<and> \<not> ti_requires_approval tool)) \<and>
    (tr_sent run = [] \<or> (\<exists>tool. se_tools env name = Some tool \<and> \<not> ti_requires_approval_for tool params)) \<and>
    (tr_ran run = [] \<or> (\<exists>c. get_context (se_cx env) job = Ok c \<and> jc_state c \<noteq> job_state.Cancelled) \<and>
       vr_is_valid (validate_tool_params (se_validator env) params))"
proof -
  obtain r here where e: "execute_tool_task env i job name params = (r, here)" by fastforce
  have "tr_ran run = [] \<or> tr_ran run = here" using run_tool_exec_ran [of env i job name params mx] assms e by auto
  then show ?thesis
    using execute_tool_task_ran [OF e] run_tool_exec_sent [of env i job name params mx] assms
    by (cases "tr_ran run = []") auto
qed

definition sample_swarm :: swarm_lib where
  "sample_swarm = \<lparr>sw_has_capability = (\<lambda>_. Ok True), sw_register = (\<lambda>_. True), sw_distribute = (\<lambda>_ n. n = 1), sw_reply = (\<lambda>_. NoReply)\<rparr>"

definition sample_subtask :: "nat subtask_env" where
  "sample_subtask = \<lparr>se_tools = (\<lambda>n. if n = ''echo'' then Some sample_tool else None), se_cx = sample_cx, se_validator = validator_new,
     se_execute = (\<lambda>_ _ _ _. ExecOk JNull), se_elapsed = (\<lambda>_. 1), se_from_json = (\<lambda>_. None), se_swarm = Some sample_swarm,
     se_task_id = (\<lambda>n. n), se_dropped = (\<lambda>_. False)\<rparr>"

lemma sample_subtask_task:
  "execute_tool_task sample_subtask i 1 ''echo'' JNull = (Ok \<lparr>to_result = JNull, to_duration = 1\<rparr>, [(''echo'', JNull)])"
  by (simp add: execute_tool_task_def sample_subtask_def sample_tool_def sample_cx_def get_context_def validate_tool_params_def
      validation_ok_def)

lemma sample_subtask_run:
  "tr_sent (snd (run_tool_exec sample_subtask 3 1 ''echo'' JNull mx)) = [(''echo'', JNull)]"
  "tr_ran (snd (run_tool_exec sample_subtask 3 1 ''echo'' JNull mx)) = [(''echo'', JNull)]"
  using sample_subtask_task [of 3]
  by (simp_all add: run_tool_exec_split decide_offload_def distribute_def REMOTE_DISTRIBUTE_RETRIES_def sample_subtask_def sample_tool_def
      sample_swarm_def upt_rec)

theorem subtask_gate_witness:
  "tr_ran (snd (run_tool_exec sample_subtask 3 1 ''echo'' JNull metrics_default)) = [(''echo'', JNull)] \<and>
   vr_is_valid (validate_tool_params (se_validator sample_subtask) JNull)"
proof -
  obtain mx run where e: "run_tool_exec sample_subtask 3 1 ''echo'' JNull metrics_default = (mx, run)" by fastforce
  from subtask_gate [OF e] sample_subtask_run(2) [of metrics_default] e show ?thesis by simp
qed

text \<open>
  A task that a peer has taken and whose result does not come within the time to wait is run here as
  well, so that one call of the tool is executed twice.
\<close>

theorem unanswered_offload_runs_twice:
  assumes "se_swarm env = Some swarm" and "decide_offload env swarm name params = RemotePreferred"
    and "sw_register swarm i" and "distribute swarm i" and "sw_reply swarm i = NoReply"
    and "execute_tool_task env i job name params = (r, [(name, params)])"
  shows "tr_sent (snd (run_tool_exec env i job name params mx)) = [(name, params)] \<and>
    tr_ran (snd (run_tool_exec env i job name params mx)) = [(name, params)]"
  using assms by (simp add: run_tool_exec_split)

theorem unanswered_offload_runs_twice_witness:
  "tr_sent (snd (run_tool_exec sample_subtask 3 1 ''echo'' JNull metrics_default)) = [(''echo'', JNull)] \<and>
   tr_ran (snd (run_tool_exec sample_subtask 3 1 ''echo'' JNull metrics_default)) = [(''echo'', JNull)]"
  by (rule unanswered_offload_runs_twice [OF _ _ _ _ _ sample_subtask_task, of sample_swarm])
    (simp_all add: decide_offload_def distribute_def REMOTE_DISTRIBUTE_RETRIES_def sample_subtask_def sample_tool_def sample_swarm_def upt_rec)

text \<open>
  A batch gives one result per task, in the order of the tasks, each the result of its own task whatever
  the other tasks do; a job in a batch gives an error and does not disturb the others.
\<close>

theorem batch_in_order:
  "snd (spawn_batch env parent tasks mx) =
     map (\<lambda>(i, t). collect parent (snd (spawn_subtask env (se_task_id env i) parent t metrics_default))) (List.enumerate 0 tasks)"
proof -
  have "snd (spawn_batch env parent tasks mx) = map (collect parent) (snd (spawn_all env parent 0 tasks mx))"
    by (simp add: spawn_batch_def split: prod.split)
  then show ?thesis by (simp add: spawn_all_results [where ?mx0.0 = metrics_default] comp_def case_prod_unfold)
qed

text \<open>The counters balance: every run adds one either to the remote successes or to the local fallbacks,
  and every remote attempt adds one to the successes, failures, timeouts or ineligible runs.\<close>

theorem metrics_balance:
  assumes "run_tool_exec env i job name params mx = (mx', run)"
  shows "mx_local_fallbacks mx' + mx_remote_successes mx' = mx_local_fallbacks mx + mx_remote_successes mx + 1 \<and>
    (se_swarm env = None \<or>
     mx_remote_successes mx' + mx_remote_failures mx' + mx_remote_timeouts mx' + mx_remote_ineligible mx' =
     mx_remote_successes mx + mx_remote_failures mx + mx_remote_timeouts mx + mx_remote_ineligible mx + 1)"
proof -
  have "fst (run_tool_exec env i job name params mx) = mx'" using assms by simp
  then show ?thesis
    by (auto simp: run_tool_exec_split split: option.splits offload_decision.splits remote_reply.splits bool.splits if_splits)
qed

end
