(* ===== verification/Job_Commands.thy ===== *)
theory Job_Commands
  imports Scheduler Submission
begin

text \<open>
  The router of commands, \<^verbatim>\<open>src/src/agent/router.rs\<close>, and the job commands of
  \<^verbatim>\<open>src/src/agent/commands.rs\<close> over the scheduler.  The three expressions of the router are written out as
  the texts they accept.  The system commands, which act on the model and on the kernel orchestrator,
  are an argument.
\<close>

section \<open>The router\<close>

datatype message_intent =
    CreateJob string string "string option"
  | CheckJobStatus "string option"
  | CancelJob string
  | ListJobs "string option"
  | HelpJob string
  | Chat string
  | Command string "string list"
  | UnknownIntent

record router =
  rt_command_prefix :: string

definition router_new :: router where
  "router_new = \<lparr>rt_command_prefix = ''/''\<rparr>"

definition with_prefix :: "router \<Rightarrow> string \<Rightarrow> router" where
  "with_prefix r p = r\<lparr>rt_command_prefix := p\<rparr>"

definition is_command :: "router \<Rightarrow> string \<Rightarrow> bool" where
  "is_command r content \<longleftrightarrow> starts_with (trim content) (rt_command_prefix r)"

definition parse_command :: "router \<Rightarrow> string \<Rightarrow> message_intent" where
  "parse_command r content =
     (let without_prefix = (case strip_prefix content (rt_command_prefix r) of Some s \<Rightarrow> s | None \<Rightarrow> content);
          parts = split_whitespace without_prefix
      in case parts of
        [] \<Rightarrow> UnknownIntent
      | p # args \<Rightarrow>
          let cmd = to_lowercase p in
          if cmd = ''job'' \<or> cmd = ''create'' then CreateJob (join '' '' args) (join '' '' args) None
          else if cmd = ''status'' then CheckJobStatus (case args of a # _ \<Rightarrow> Some a | [] \<Rightarrow> None)
          else if cmd = ''cancel'' then (case args of a # _ \<Rightarrow> CancelJob a | [] \<Rightarrow> UnknownIntent)
          else if cmd = ''list'' \<or> cmd = ''jobs'' then ListJobs (case args of a # _ \<Rightarrow> Some a | [] \<Rightarrow> None)
          else if cmd = ''help'' then (case args of a # _ \<Rightarrow> HelpJob a | [] \<Rightarrow> Command ''help'' [])
          else Command cmd args)"

definition route_command :: "router \<Rightarrow> string \<Rightarrow> message_intent option" where
  "route_command r message =
     (let content = trim message
      in if starts_with content (rt_command_prefix r) then Some (parse_command r content) else None)"

definition list_phrases :: "string list" where
  "list_phrases = [''list jobs'', ''list my jobs'', ''show jobs'', ''show my jobs'', ''what jobs are running'', ''what are my jobs'']"

text \<open>An expression \<open>^(?:p1|p2|...) job ([^\s]+)$\<close>: the captured word after one of the phrases.\<close>

definition job_phrase :: "string list \<Rightarrow> string \<Rightarrow> string option" where
  "job_phrase ps s =
     (case List.map_filter (\<lambda>p. case strip_prefix s (p @ '' job '') of
             Some w \<Rightarrow> if w \<noteq> [] \<and> list_all (\<lambda>c. \<not> is_whitespace c) w then Some w else None
           | None \<Rightarrow> None) ps of
        w # _ \<Rightarrow> Some w
      | [] \<Rightarrow> None)"

definition status_phrases :: "string list" where
  "status_phrases = [''status of'', ''status'', ''check status of'', ''check status'', ''check of'', ''check'']"

definition route_fast_path_nl :: "router \<Rightarrow> string \<Rightarrow> message_intent option" where
  "route_fast_path_nl r message =
     (if is_command r message then None
      else let raw = trim message in
      if raw = [] then None
      else let normalized = trim (to_lowercase raw) in
      if normalized \<in> set list_phrases then Some (ListJobs None)
      else let original_rest = trim (drop (length ''create job '') raw) in
      if starts_with normalized ''create job '' \<and> original_rest \<noteq> []
      then Some (CreateJob original_rest original_rest None)
      else case job_phrase status_phrases normalized of
        Some job_id \<Rightarrow> Some (CheckJobStatus (Some job_id))
      | None \<Rightarrow>
          (case job_phrase [''cancel'', ''stop''] normalized of
             Some job_id \<Rightarrow> Some (CancelJob job_id)
           | None \<Rightarrow>
               (case job_phrase [''help'', ''unstick''] normalized of
                  Some job_id \<Rightarrow> Some (HelpJob job_id)
                | None \<Rightarrow> None)))"

section \<open>Job commands\<close>

record 'd command_env =
  ce_parse_uuid :: "string \<Rightarrow> uuid option"
  ce_show_uuid :: "uuid \<Rightarrow> string"
  ce_date :: "instant \<Rightarrow> string"
  ce_cost :: "'d \<Rightarrow> string"
  ce_new_id :: uuid
  ce_now :: instant
  ce_system :: "string \<Rightarrow> string list \<Rightarrow> (agent_error, submission_result) result"

text \<open>The debug names of the states.\<close>

fun job_state_debug :: "job_state \<Rightarrow> string" where
  "job_state_debug Pending = ''Pending''"
| "job_state_debug InProgress = ''InProgress''"
| "job_state_debug job_state.Completed = ''Completed''"
| "job_state_debug Submitted = ''Submitted''"
| "job_state_debug Accepted = ''Accepted''"
| "job_state_debug job_state.Failed = ''Failed''"
| "job_state_debug Stuck = ''Stuck''"
| "job_state_debug job_state.Cancelled = ''Cancelled''"

type_synonym 'd command_result = "'d scheduler \<times> (agent_error, string) result"

definition handle_create_job ::
  "('d::zero) command_env \<Rightarrow> string \<Rightarrow> string \<Rightarrow> string \<Rightarrow> string option \<Rightarrow> 'd scheduler \<Rightarrow> 'd command_result" where
  "handle_create_job env user_id title description category st =
     (case create_job_for_user (ce_new_id env) (ce_now env) (sc_cx st) user_id title description of
        (cx, Err e) \<Rightarrow> (st\<lparr>sc_cx := cx\<rparr>, Err (AgentJob e))
      | (cx, Ok job_id) \<Rightarrow>
          (case (case category of
                   None \<Rightarrow> (cx, Ok ())
                 | Some cat \<Rightarrow> update_context cx job_id (\<lambda>c. (c\<lparr>jc_category := Some cat\<rparr>, ()))) of
             (cx', Err e) \<Rightarrow> (st\<lparr>sc_cx := cx'\<rparr>, Err (AgentJob e))
           | (cx', Ok _) \<Rightarrow>
               (case schedule (ce_now env) (ce_now env) job_id (st\<lparr>sc_cx := cx'\<rparr>) of
                  (st', Err e) \<Rightarrow> (st', Err (AgentJob e))
                | (st', Ok _) \<Rightarrow>
                    (st', Ok (''Created job: '' @ title @ [CHR 0x0A] @ ''ID: '' @ ce_show_uuid env job_id @ [CHR 0x0A, CHR 0x0A] @
                       ''The job has been scheduled and is now running.'')))))"

text \<open>The lookup the other handlers share: parse the id, get the context, compare the owner.\<close>

definition owned_job ::
  "'d command_env \<Rightarrow> string \<Rightarrow> string \<Rightarrow> 'd scheduler \<Rightarrow> (agent_error, uuid \<times> 'd job_context) result" where
  "owned_job env user_id job_id st =
     (case ce_parse_uuid env job_id of
        None \<Rightarrow> Err (AgentJob (JobNotFound 0))
      | Some uuid \<Rightarrow>
          (case get_context (sc_cx st) uuid of
             Err e \<Rightarrow> Err (AgentJob e)
           | Ok c \<Rightarrow> if jc_user_id c \<noteq> user_id then Err (AgentJob (JobNotFound uuid)) else Ok (uuid, c)))"

definition handle_check_status ::
  "'d command_env \<Rightarrow> string \<Rightarrow> string option \<Rightarrow> 'd scheduler \<Rightarrow> (agent_error, string) result" where
  "handle_check_status env user_id job_id st =
     (case job_id of
        Some i \<Rightarrow>
          (case owned_job env user_id i st of
             Err e \<Rightarrow> Err e
           | Ok (_, c) \<Rightarrow>
               Ok (''Job: '' @ jc_title c @ [CHR 0x0A] @ ''Status: '' @ job_state_debug (jc_state c) @ [CHR 0x0A] @
                   ''Created: '' @ ce_date env (jc_created_at c) @ [CHR 0x0A] @
                   ''Started: '' @ (case jc_started_at c of Some t \<Rightarrow> ce_date env t | None \<Rightarrow> ''Not started'') @ [CHR 0x0A] @
                   ''Actual cost: '' @ ce_cost env (jc_actual_cost c)))
      | None \<Rightarrow>
          let s = summary_for (sc_cx st) user_id in
          Ok (''Jobs summary:'' @ [CHR 0x0A] @ ''  Total: '' @ nat_str (sm_total s) @ [CHR 0x0A] @
              ''  In Progress: '' @ nat_str (sm_in_progress s) @ [CHR 0x0A] @ ''  Completed: '' @ nat_str (sm_completed s) @ [CHR 0x0A] @
              ''  Failed: '' @ nat_str (sm_failed s) @ [CHR 0x0A] @ ''  Stuck: '' @ nat_str (sm_stuck s)))"

definition handle_cancel_job :: "'d command_env \<Rightarrow> string \<Rightarrow> string \<Rightarrow> 'd scheduler \<Rightarrow> 'd command_result" where
  "handle_cancel_job env user_id job_id st =
     (case owned_job env user_id job_id st of
        Err e \<Rightarrow> (st, Err e)
      | Ok (uuid, _) \<Rightarrow>
          (case stop (ce_now env) (ce_now env) uuid st of
             (st', Err e) \<Rightarrow> (st', Err (AgentJob e))
           | (st', Ok _) \<Rightarrow> (st', Ok (''Job '' @ job_id @ '' has been cancelled.''))))"

definition handle_list_jobs :: "'d command_env \<Rightarrow> string \<Rightarrow> 'd scheduler \<Rightarrow> string" where
  "handle_list_jobs env user_id st =
     (let jobs = all_jobs_for (sc_cx st) user_id in
      if jobs = [] then ''No jobs found.''
      else ''Jobs:'' @ [CHR 0x0A] @ concat (map (\<lambda>j.
        case get_context (sc_cx st) j of
          Ok c \<Rightarrow> if jc_user_id c = user_id
                  then ''  '' @ ce_show_uuid env j @ '' - '' @ jc_title c @ '' ('' @ job_state_debug (jc_state c) @ '')'' @ [CHR 0x0A] else []
        | Err _ \<Rightarrow> []) jobs))"

definition handle_help_job :: "'d command_env \<Rightarrow> string \<Rightarrow> string \<Rightarrow> 'd scheduler \<Rightarrow> 'd command_result" where
  "handle_help_job env user_id job_id st =
     (case owned_job env user_id job_id st of
        Err e \<Rightarrow> (st, Err e)
      | Ok (uuid, c) \<Rightarrow>
          if jc_state c = Stuck
          then (case update_context (sc_cx st) uuid (attempt_recovery (ce_now env) (ce_now env)) of
                  (cx, Err e) \<Rightarrow> (st\<lparr>sc_cx := cx\<rparr>, Err (AgentJob e))
                | (cx, Ok (Err s)) \<Rightarrow> (st\<lparr>sc_cx := cx\<rparr>, Err (AgentJob (ContextError uuid s)))
                | (cx, Ok (Ok _)) \<Rightarrow>
                    (case schedule (ce_now env) (ce_now env) uuid (st\<lparr>sc_cx := cx\<rparr>) of
                       (st', Err e) \<Rightarrow> (st', Err (AgentJob e))
                     | (st', Ok _) \<Rightarrow>
                         (st', Ok (''Job '' @ job_id @ '' was stuck. Attempting recovery (attempt #'' @
                            nat_str (unat (jc_repair_attempts c + 1)) @ '').''))))
          else (st, Ok (''Job '' @ job_id @ '' is not stuck (current state: '' @ job_state_debug (jc_state c) @ ''). No help needed.'')))"

definition handle_command :: "'d command_env \<Rightarrow> string \<Rightarrow> string list \<Rightarrow> (agent_error, string option) result" where
  "handle_command env command args =
     (case ce_system env command args of
        Err e \<Rightarrow> Err e
      | Ok (Response content) \<Rightarrow> Ok (Some content)
      | Ok (SubOk message) \<Rightarrow> Ok message
      | Ok (SubError message) \<Rightarrow> Ok (Some (''Error: '' @ message))
      | Ok _ \<Rightarrow> Ok None)"

definition handle_job_or_command ::
  "('d::zero) command_env \<Rightarrow> message_intent \<Rightarrow> string \<Rightarrow> 'd scheduler \<Rightarrow> 'd scheduler \<times> (agent_error, submission_result) result" where
  "handle_job_or_command env intent user_id st =
     (let respond = (\<lambda>r. case r of (st', Ok s) \<Rightarrow> (st', Ok (Response s)) | (st', Err e) \<Rightarrow> (st', Err e)) in
      case intent of
        CreateJob title description category \<Rightarrow> respond (handle_create_job env user_id title description category st)
      | CheckJobStatus job_id \<Rightarrow> respond (st, handle_check_status env user_id job_id st)
      | CancelJob job_id \<Rightarrow> respond (handle_cancel_job env user_id job_id st)
      | ListJobs _ \<Rightarrow> respond (st, Ok (handle_list_jobs env user_id st))
      | HelpJob job_id \<Rightarrow> respond (handle_help_job env user_id job_id st)
      | Command command args \<Rightarrow>
          (case handle_command env command args of
             Err e \<Rightarrow> (st, Err e)
           | Ok (Some s) \<Rightarrow> (st, Ok (Response s))
           | Ok None \<Rightarrow> (st, Ok (SubOk None)))
      | _ \<Rightarrow> (st, Ok (Response ''Unknown intent'')))"

section \<open>Lemmas\<close>

lemma trim_fixed:
  assumes "s \<noteq> []" and "\<not> is_whitespace (hd s)" and "\<not> is_whitespace (last s)"
  shows "trim s = s"
proof -
  have "trim_start s = s" using assms(1,2) by (cases s) (simp_all add: trim_start_def)
  moreover have "trim_end s = s" using assms(1,3) by (cases s rule: rev_cases) (simp_all add: trim_end_def)
  ultimately show ?thesis by (simp add: trim_def)
qed

lemma last_join: "ws \<noteq> [] \<Longrightarrow> last ws \<noteq> [] \<Longrightarrow> join sep ws \<noteq> [] \<and> last (join sep ws) = last (last ws)"
  by (induction sep ws rule: join.induct) auto

lemma owned_job_Ok:
  "owned_job env user job st = Ok (i, c) \<longleftrightarrow>
     ce_parse_uuid env job = Some i \<and> map_of (cx_contexts (sc_cx st)) i = Some c \<and> jc_user_id c = user"
  by (auto simp: owned_job_def get_context_def split: option.splits)

lemma schedule_in_progress:
  assumes "job_is (sc_cx st) j InProgress"
  shows "fst (schedule now now' j st) = st \<and>
    snd (schedule now now' j st) =
      (if is_running st j then Ok ()
       else if length (sc_jobs st) \<ge> sc_max_parallel_jobs st then Err (MaxJobsExceeded (sc_max_parallel_jobs st))
       else Err (ContextError j ''Cannot transition from in_progress to in_progress''))"
proof -
  from assms obtain c where c: "map_of (cx_contexts (sc_cx st)) j = Some c" "jc_state c = InProgress"
    by (auto simp: job_is_def split: option.splits)
  have "(sc_cx st)\<lparr>cx_contexts := AList.update j c (cx_contexts (sc_cx st))\<rparr> = sc_cx st" using c(1) by (simp add: update_same)
  with c show ?thesis by (simp add: schedule_def is_running_def update_context_def transition_to_def)
qed

section \<open>Properties\<close>

text \<open>
  Jobs of other users cannot be told from jobs that do not exist: asking for the status of one,
  cancelling it or asking for help with it changes nothing and gives the error for an unknown id.
\<close>

theorem foreign_job_invisible:
  assumes "ce_parse_uuid env job = Some i"
    and "case map_of (cx_contexts (sc_cx st)) i of Some c \<Rightarrow> jc_user_id c \<noteq> user | None \<Rightarrow> True"
  shows "handle_job_or_command env (CheckJobStatus (Some job)) user st = (st, Err (AgentJob (JobNotFound i))) \<and>
    handle_job_or_command env (CancelJob job) user st = (st, Err (AgentJob (JobNotFound i))) \<and>
    handle_job_or_command env (HelpJob job) user st = (st, Err (AgentJob (JobNotFound i)))"
proof -
  have "owned_job env user job st = Err (AgentJob (JobNotFound i))"
    using assms by (auto simp: owned_job_def get_context_def split: option.splits)
  then show ?thesis
    by (simp add: handle_job_or_command_def handle_check_status_def handle_cancel_job_def handle_help_job_def Let_def)
qed

definition sample_commands :: "nat command_env" where
  "sample_commands = \<lparr>ce_parse_uuid = (\<lambda>s. Some (length s)), ce_show_uuid = nat_str, ce_date = nat_str, ce_cost = nat_str, ce_new_id = 7,
     ce_now = 3, ce_system = (\<lambda>_ _. Ok SubInterrupted)\<rparr>"

theorem foreign_job_invisible_witness:
  "handle_job_or_command sample_commands (CancelJob ''x'') ''other'' sample_stuck = (sample_stuck, Err (AgentJob (JobNotFound 1)))"
  using foreign_job_invisible [where env = sample_commands and job = "''x''" and i = 1 and st = sample_stuck and user = "''other''"]
  by (simp add: sample_commands_def sample_stuck_def scheduler_new_def sample_job_def with_user_def)

text \<open>
  Cancelling a job that no worker is registered for does nothing and reports success: a pending,
  stuck or recovered job stays as it is while the user is told that it has been cancelled.
\<close>

theorem cancel_without_worker:
  assumes "owned_job env user job st = Ok (i, c)" and "\<not> is_running st i"
  shows "handle_job_or_command env (CancelJob job) user st = (st, Ok (Response (''Job '' @ job @ '' has been cancelled.'')))"
  using assms by (simp add: handle_job_or_command_def handle_cancel_job_def stop_def is_running_def Let_def)

theorem cancel_without_worker_witness:
  "handle_job_or_command sample_commands (CancelJob ''x'') ''u'' sample_stuck =
     (sample_stuck, Ok (Response ''Job x has been cancelled.'')) \<and> job_is (sc_cx sample_stuck) 1 Stuck"
proof -
  have "owned_job sample_commands ''u'' ''x'' sample_stuck = Ok (1, sample_job\<lparr>jc_state := Stuck\<rparr>)"
    by (simp add: owned_job_Ok sample_commands_def sample_stuck_def scheduler_new_def sample_job_def with_user_def)
  from cancel_without_worker [OF this] show ?thesis
    by (simp add: is_running_def sample_stuck_def scheduler_new_def job_is_def)
qed

text \<open>
  Help with a stuck job never starts a worker.  The job is first set to in progress and then
  scheduled, which needs the transition to in progress that it no longer has: the command fails, or,
  while the old entry of the job is still registered, succeeds without effect.
\<close>

theorem help_starts_no_worker:
  assumes "owned_job env user job st = Ok (i, c)" and "jc_state c = Stuck"
  shows "\<exists>st' r. handle_job_or_command env (HelpJob job) user st = (st', r) \<and> sc_live st' = sc_live st \<and> sc_jobs st' = sc_jobs st \<and>
    job_is (sc_cx st') i InProgress \<and> ((\<exists>m. r = Ok m) \<longleftrightarrow> is_running st i)"
proof -
  from assms have m: "map_of (cx_contexts (sc_cx st)) i = Some c" by (simp add: owned_job_Ok)
  obtain c' where c': "attempt_recovery (ce_now env) (ce_now env) c = (c', Ok ())" "jc_state c' = InProgress"
    using assms(2) by (auto simp: attempt_recovery_def transition_to_def stamp_times_def Let_def)
  let ?cx = "(sc_cx st)\<lparr>cx_contexts := AList.update i c' (cx_contexts (sc_cx st))\<rparr>"
  have up: "update_context (sc_cx st) i (attempt_recovery (ce_now env) (ce_now env)) = (?cx, Ok (Ok ()))"
    using m c'(1) by (simp add: update_context_def)
  have ip: "job_is (sc_cx (st\<lparr>sc_cx := ?cx\<rparr>)) i InProgress" using c'(2) by (simp add: job_is_def update_conv')
  obtain st1 r where s: "schedule (ce_now env) (ce_now env) i (st\<lparr>sc_cx := ?cx\<rparr>) = (st1, r)" by fastforce
  from schedule_in_progress [OF ip, of "ce_now env" "ce_now env"] s
  have "st1 = st\<lparr>sc_cx := ?cx\<rparr>" "(\<exists>u. r = Ok u) \<longleftrightarrow> is_running st i" by (auto simp: is_running_def split: if_splits)
  with assms up s ip show ?thesis
    by (cases r) (auto simp: handle_job_or_command_def handle_help_job_def Let_def)
qed

theorem help_starts_no_worker_witness:
  "\<exists>st' r. handle_job_or_command sample_commands (HelpJob ''x'') ''u'' sample_stuck = (st', r) \<and> sc_live st' = [] \<and>
     job_is (sc_cx st') 1 InProgress \<and> (\<nexists>m. r = Ok m)"
proof -
  have "owned_job sample_commands ''u'' ''x'' sample_stuck = Ok (1, sample_job\<lparr>jc_state := Stuck\<rparr>)"
    by (simp add: owned_job_Ok sample_commands_def sample_stuck_def scheduler_new_def sample_job_def with_user_def)
  from help_starts_no_worker [OF this] show ?thesis
    by (auto simp: is_running_def sample_stuck_def scheduler_new_def)
qed

text \<open>
  The command for a new job ends in a running worker: for any words after it, with places free among
  the jobs and the workers and a fresh id, the message is routed to the creation of a job with these
  words as its title, which is then in progress and has exactly one worker.
\<close>

theorem create_command_starts_worker:
  assumes "\<forall>w \<in> set ws. w \<noteq> [] \<and> (\<forall>c \<in> set w. \<not> is_whitespace c)" and "ws \<noteq> []"
    and "active_count (sc_cx st) < cx_max_jobs (sc_cx st)" and "length (sc_jobs st) < sc_max_parallel_jobs st"
    and "map_of (sc_jobs st) (ce_new_id env) = None"
  shows "\<exists>intent st' text. route_command router_new (''/job '' @ join '' '' ws) = Some intent \<and>
    handle_job_or_command env intent user st = (st', Ok (Response text)) \<and>
    job_is (sc_cx st') (ce_new_id env) InProgress \<and> sc_live st' = (sc_next_handle st, ce_new_id env) # sc_live st \<and>
    map_option jc_title (map_of (cx_contexts (sc_cx st')) (ce_new_id env)) = Some (join '' '' ws)"
proof -
  let ?d = "join '' '' ws" and ?i = "ce_new_id env" and ?now = "ce_now env"
  have word: "\<forall>c \<in> set ''/job''. \<not> is_whitespace c" by (simp add: is_whitespace_def char_code_def)
  have parts: "''/job '' @ ?d = join '' '' (''/job'' # ws)" using assms(2) by (cases ws) simp_all
  have "split_whitespace (''job '' @ ?d) = split_whitespace (join '' '' (''job'' # ws))" using assms(2) by (cases ws) simp_all
  also have "\<dots> = ''job'' # ws" using assms(1) word by (intro split_whitespace_join) auto
  finally have sw: "split_whitespace (''job '' @ ?d) = ''job'' # ws" .
  have "last ws \<in> set ws" using assms(2) by simp
  with assms(1) have w: "last ws \<noteq> []" "\<not> is_whitespace (last (last ws))" using last_in_set by blast+
  with last_join [OF assms(2), of "'' ''"] have "?d \<noteq> []" "\<not> is_whitespace (last ?d)" by auto
  then have "trim (''/job '' @ ?d) = ''/job '' @ ?d"
    by (intro trim_fixed) (simp_all add: is_whitespace_def char_code_def)
  then have route: "route_command router_new (''/job '' @ ?d) = Some (CreateJob ?d ?d None)"
    using sw by (simp add: route_command_def router_new_def starts_with_def parse_command_def strip_prefix_def Let_def
        to_lowercase_def lower_char_def char_code_def)
  let ?cx = "insert_memory ?i ((sc_cx st)\<lparr>cx_contexts := AList.update ?i (with_user ?i ?now user ?d ?d) (cx_contexts (sc_cx st))\<rparr>)"
  have create: "create_job_for_user ?i ?now (sc_cx st) user ?d ?d = (?cx, Ok ?i)"
    using assms(3) by (simp add: create_job_for_user_def insert_context_def)
  obtain c where c: "transition_to ?now ?now (with_user ?i ?now user ?d ?d :: 'a job_context) InProgress (Some ''Scheduled for execution'') = (c, Ok ())"
    "jc_state c = InProgress" "jc_title c = ?d"
    by (simp add: transition_to_def with_user_def stamp_times_def Let_def)
  have m: "map_of (cx_contexts ?cx) ?i = Some (with_user ?i ?now user ?d ?d)" by (simp add: insert_memory_def update_conv')
  have "update_context ?cx ?i (\<lambda>c. transition_to ?now ?now c InProgress (Some ''Scheduled for execution'')) =
      (?cx\<lparr>cx_contexts := AList.update ?i c (cx_contexts ?cx)\<rparr>, Ok (Ok ()))"
    using m c(1) by (simp add: update_context_def)
  with assms(4,5) have sched: "schedule ?now ?now ?i (st\<lparr>sc_cx := ?cx\<rparr>) =
      (st\<lparr>sc_cx := ?cx\<lparr>cx_contexts := AList.update ?i c (cx_contexts ?cx)\<rparr>, sc_live := (sc_next_handle st, ?i) # sc_live st,
          sc_jobs := AList.update ?i (sc_next_handle st) (sc_jobs st), sc_cleaners := (?i, False) # sc_cleaners st,
          sc_next_handle := sc_next_handle st + 1\<rparr>, Ok ())"
    by (simp add: schedule_def Let_def)
  show ?thesis
    using route create sched c(2,3)
    by (simp add: handle_job_or_command_def handle_create_job_def Let_def job_is_def update_conv')
qed

theorem create_command_starts_worker_witness:
  "\<exists>intent st' text. route_command router_new ''/job fix it'' = Some intent \<and>
    handle_job_or_command sample_commands intent ''u'' (scheduler_new 5 sample_cx) = (st', Ok (Response text)) \<and>
    job_is (sc_cx st') 7 InProgress"
proof -
  let ?st = "scheduler_new 5 sample_cx"
  have "\<forall>w \<in> set [''fix'', ''it'']. w \<noteq> [] \<and> (\<forall>c \<in> set w. \<not> is_whitespace c)"
    by (simp add: is_whitespace_def char_code_def)
  moreover have "active_count (sc_cx ?st) < cx_max_jobs (sc_cx ?st)"
    by (simp add: scheduler_new_def sample_cx_def active_count_def is_active_def is_terminal_def)
  moreover have "length (sc_jobs ?st) < sc_max_parallel_jobs ?st" "map_of (sc_jobs ?st) (ce_new_id sample_commands) = None"
    by (simp_all add: scheduler_new_def)
  ultimately have "\<exists>intent st' text. route_command router_new (''/job '' @ join '' '' [''fix'', ''it'']) = Some intent \<and>
    handle_job_or_command sample_commands intent ''u'' ?st = (st', Ok (Response text)) \<and>
    job_is (sc_cx st') (ce_new_id sample_commands) InProgress"
    using create_command_starts_worker [of "[''fix'', ''it'']" ?st sample_commands "''u''"] by blast
  then show ?thesis by (simp add: sample_commands_def)
qed

end
