(* ===== verification/Compaction.thy ===== *)
theory Compaction
  imports Complex_Main Thread_Ops Worker
begin

text \<open>
  The monitor of the context size, \<^verbatim>\<open>src/src/agent/context_monitor.rs\<close>, the compaction of a thread,
  \<^verbatim>\<open>src/src/agent/compaction.rs\<close>, and their two callers in \<^verbatim>\<open>src/src/agent/thread_ops.rs\<close>: the automatic
  compaction before a turn and the command.

  Ratios are exact rationals.  The code multiplies a word count by 1.3 and the limit by the ratio in
  double precision and cuts the product off; the double nearest to 1.3 exceeds it by less than half a
  unit of the last place, so the cut-off product is the integer part of the exact one for every count
  below \<open>2^45\<close>, and the same holds of 0.8 and of the comparisons with 0.85 and 0.95.
\<close>

section \<open>The monitor\<close>

definition DEFAULT_CONTEXT_LIMIT :: nat where "DEFAULT_CONTEXT_LIMIT = 100000"
definition COMPACTION_THRESHOLD :: rat where "COMPACTION_THRESHOLD = 4 / 5"

datatype compaction_strategy = Summarize nat | Truncate nat | MoveToWorkspace

definition strategy_default :: compaction_strategy where "strategy_default = Summarize 5"

record context_monitor =
  mo_context_limit :: nat
  mo_threshold_ratio :: rat

definition monitor_new :: context_monitor where
  "monitor_new = \<lparr>mo_context_limit = DEFAULT_CONTEXT_LIMIT, mo_threshold_ratio = COMPACTION_THRESHOLD\<rparr>"

definition with_limit :: "context_monitor \<Rightarrow> nat \<Rightarrow> context_monitor" where
  "with_limit m limit = m\<lparr>mo_context_limit := limit\<rparr>"

definition with_threshold :: "context_monitor \<Rightarrow> rat \<Rightarrow> context_monitor" where
  "with_threshold m ratio = m\<lparr>mo_threshold_ratio := max (1 / 2) (min ratio (19 / 20))\<rparr>"

text \<open>\<open>n * TOKENS_PER_WORD\<close>, cut off.\<close>

definition word_tokens :: "nat \<Rightarrow> nat" where
  "word_tokens n = 13 * n div 10"

definition estimate_message_tokens :: "chat_message \<Rightarrow> nat" where
  "estimate_message_tokens m = word_tokens (length (split_whitespace (cm_content m))) + 4"

definition estimate_text_tokens :: "string \<Rightarrow> nat" where
  "estimate_text_tokens text = word_tokens (length (split_whitespace text))"

definition estimate_tokens :: "chat_message list \<Rightarrow> nat" where
  "estimate_tokens ms = sum_list (map estimate_message_tokens ms)"

definition threshold :: "context_monitor \<Rightarrow> nat" where
  "threshold m = nat \<lfloor>of_nat (mo_context_limit m) * mo_threshold_ratio m\<rfloor>"

definition needs_compaction :: "context_monitor \<Rightarrow> chat_message list \<Rightarrow> bool" where
  "needs_compaction m ms \<longleftrightarrow> threshold m \<le> estimate_tokens ms"

text \<open>The share of the limit in use; the limit of every monitor the program makes is positive.\<close>

definition usage_percent :: "context_monitor \<Rightarrow> chat_message list \<Rightarrow> rat" where
  "usage_percent m ms = of_nat (estimate_tokens ms) / of_nat (mo_context_limit m) * 100"

definition suggest_compaction :: "context_monitor \<Rightarrow> chat_message list \<Rightarrow> compaction_strategy option" where
  "suggest_compaction m ms =
     (if \<not> needs_compaction m ms then None
      else let tokens = estimate_tokens ms in
      if 20 * tokens > 19 * mo_context_limit m then Some (Truncate 3)
      else if 20 * tokens > 17 * mo_context_limit m then Some (Summarize 5)
      else Some MoveToWorkspace)"

record context_breakdown =
  cb_total_tokens :: nat
  cb_system_tokens :: nat
  cb_user_tokens :: nat
  cb_assistant_tokens :: nat
  cb_tool_tokens :: nat
  cb_message_count :: nat

definition count_message :: "context_breakdown \<Rightarrow> chat_message \<Rightarrow> context_breakdown" where
  "count_message b m =
     (let tokens = estimate_message_tokens m; b1 = b\<lparr>cb_total_tokens := cb_total_tokens b + tokens\<rparr> in
      case cm_role m of
        System \<Rightarrow> b1\<lparr>cb_system_tokens := cb_system_tokens b + tokens\<rparr>
      | User \<Rightarrow> b1\<lparr>cb_user_tokens := cb_user_tokens b + tokens\<rparr>
      | Assistant \<Rightarrow> b1\<lparr>cb_assistant_tokens := cb_assistant_tokens b + tokens\<rparr>
      | Tool \<Rightarrow> b1\<lparr>cb_tool_tokens := cb_tool_tokens b + tokens\<rparr>)"

definition analyze :: "chat_message list \<Rightarrow> context_breakdown" where
  "analyze ms = foldl count_message
     \<lparr>cb_total_tokens = 0, cb_system_tokens = 0, cb_user_tokens = 0, cb_assistant_tokens = 0, cb_tool_tokens = 0,
      cb_message_count = length ms\<rparr> ms"

section \<open>The compactor\<close>

record compaction_partial =
  cp_turns_removed :: nat
  cp_summary_written :: bool
  cp_summary :: "string option"

record compaction_result =
  co_turns_removed :: nat
  co_tokens_before :: nat
  co_tokens_after :: nat
  co_summary_written :: bool
  co_summary :: "string option"

text \<open>
  The model, the workspace (absent, or its \<open>append\<close> with whether it succeeds) and the texts of the clock.
  An attempted write is recorded with its path and its entry.
\<close>

record compactor_env =
  cc_complete :: "completion_request \<Rightarrow> (llm_error, completion_response) result"
  cc_workspace :: "(string \<Rightarrow> string \<Rightarrow> bool) option"
  cc_date :: string
  cc_time :: string

type_synonym writes = "(string \<times> string) list"

definition NL :: string where "NL = [CHR 0x0A]"

definition partial_empty :: compaction_partial where
  "partial_empty = \<lparr>cp_turns_removed = 0, cp_summary_written = False, cp_summary = None\<rparr>"

definition format_turn :: "turn \<Rightarrow> string" where
  "format_turn u =
     ''**Turn '' @ nat_str (tn_turn_number u + 1) @ ''**'' @ NL @
     ''User: '' @ tn_user_input u @ NL @
     (case tn_response u of Some r \<Rightarrow> ''Agent: '' @ r @ NL | None \<Rightarrow> []) @
     (if tn_tool_calls u = [] then [] else ''Tools: '' @ join '', '' (map tt_name (tn_tool_calls u)) @ NL)"

definition format_turns_for_storage :: "turn list \<Rightarrow> string" where
  "format_turns_for_storage us = join NL (map format_turn us)"

fun summary_line :: "chat_message \<Rightarrow> string" where
  "summary_line m =
     (case cm_role m of
        User \<Rightarrow> ''User: '' @ cm_content m
      | Assistant \<Rightarrow> ''Assistant: '' @ cm_content m
      | System \<Rightarrow> ''System: '' @ cm_content m
      | Tool \<Rightarrow> ''Tool '' @ (case cm_name m of Some n \<Rightarrow> n | None \<Rightarrow> ''unknown'') @ '': '' @ cm_content m)"

definition summary_prompt :: string where
  "summary_prompt = ''Summarize the following conversation concisely. Focus on:'' @ NL @
     ''- Key decisions made'' @ NL @ ''- Important information exchanged'' @ NL @ ''- Actions taken'' @ NL @
     ''- Outcomes achieved'' @ NL @ NL @ ''Be brief but capture all important details. Use bullet points.''"

definition summary_request :: "chat_message list \<Rightarrow> completion_request" where
  "summary_request ms =
     (completion_request_new
        [msg_system summary_prompt,
         msg_user (''Please summarize this conversation:'' @ NL @ NL @ join (NL @ NL) (map summary_line ms))])
     \<lparr>cr_max_tokens := Some 1024, cr_temperature := Some 0x3E99999A\<rparr>"

definition generate_summary :: "compactor_env \<Rightarrow> chat_message list \<Rightarrow> (llm_error, string) result" where
  "generate_summary env ms =
     (case cc_complete env (summary_request ms) of Ok r \<Rightarrow> Ok (rs_content r) | Err e \<Rightarrow> Err e)"

definition daily_path :: "compactor_env \<Rightarrow> string" where
  "daily_path env = ''daily/'' @ cc_date env @ ''.md''"

definition write_summary_to_workspace :: "compactor_env \<Rightarrow> string \<Rightarrow> string \<times> string" where
  "write_summary_to_workspace env txt =
     (daily_path env, NL @ ''## Context Summary ('' @ cc_time env @ '')'' @ NL @ NL @ txt @ NL)"

definition write_context_to_workspace :: "compactor_env \<Rightarrow> string \<Rightarrow> string \<times> string" where
  "write_context_to_workspace env content =
     (daily_path env, NL @ ''## Archived Context ('' @ cc_time env @ '')'' @ NL @ NL @ content @ NL)"

definition compact_with_summary ::
  "compactor_env \<Rightarrow> thread \<Rightarrow> nat \<Rightarrow> thread \<times> writes \<times> (llm_error, compaction_partial) result" where
  "compact_with_summary env t keep_recent =
     (if length (th_turns t) \<le> keep_recent then (t, [], Ok partial_empty)
      else let turns_to_remove = length (th_turns t) - keep_recent;
               to_summarize = concat (map turn_messages (take turns_to_remove (th_turns t)))
      in case generate_summary env to_summarize of
        Err e \<Rightarrow> (t, [], Err e)
      | Ok txt \<Rightarrow>
          let (ws, written) =
            (case cc_workspace env of
               Some app \<Rightarrow> let w = write_summary_to_workspace env txt in ([w], app (fst w) (snd w))
             | None \<Rightarrow> ([], False))
          in (truncate_turns t keep_recent, ws,
              Ok \<lparr>cp_turns_removed = turns_to_remove, cp_summary_written = written, cp_summary = Some txt\<rparr>))"

definition compact_truncate :: "thread \<Rightarrow> nat \<Rightarrow> thread \<times> compaction_partial" where
  "compact_truncate t keep_recent =
     (let t' = truncate_turns t keep_recent in
      (t', \<lparr>cp_turns_removed = length (th_turns t) - length (th_turns t'), cp_summary_written = False, cp_summary = None\<rparr>))"

definition compact_to_workspace ::
  "compactor_env \<Rightarrow> thread \<Rightarrow> thread \<times> writes \<times> (llm_error, compaction_partial) result" where
  "compact_to_workspace env t =
     (case cc_workspace env of
        None \<Rightarrow> let (t', p) = compact_truncate t 5 in (t', [], Ok p)
      | Some app \<Rightarrow>
          let keep_recent = 10 in
          if length (th_turns t) \<le> keep_recent then (t, [], Ok partial_empty)
          else let turns_to_remove = length (th_turns t) - keep_recent;
                   w = write_context_to_workspace env (format_turns_for_storage (take turns_to_remove (th_turns t)))
          in (truncate_turns t keep_recent, [w],
              Ok \<lparr>cp_turns_removed = turns_to_remove, cp_summary_written = app (fst w) (snd w), cp_summary = None\<rparr>))"

definition compact ::
  "compactor_env \<Rightarrow> thread \<Rightarrow> compaction_strategy \<Rightarrow> thread \<times> writes \<times> (llm_error, compaction_result) result" where
  "compact env t strategy =
     (case (case strategy of
              Summarize keep_recent \<Rightarrow> compact_with_summary env t keep_recent
            | Truncate keep_recent \<Rightarrow> let (t', p) = compact_truncate t keep_recent in (t', [], Ok p)
            | MoveToWorkspace \<Rightarrow> compact_to_workspace env t) of
        (t', ws, Err e) \<Rightarrow> (t', ws, Err e)
      | (t', ws, Ok p) \<Rightarrow>
          (t', ws, Ok \<lparr>co_turns_removed = cp_turns_removed p,
             co_tokens_before = cb_total_tokens (analyze (messages t)),
             co_tokens_after = cb_total_tokens (analyze (messages t')),
             co_summary_written = cp_summary_written p, co_summary = cp_summary p\<rparr>))"

section \<open>The callers\<close>

text \<open>Before a turn: an error is only logged.\<close>

definition auto_compact :: "context_monitor \<Rightarrow> compactor_env \<Rightarrow> thread \<Rightarrow> thread" where
  "auto_compact mo env t =
     (case suggest_compaction mo (messages t) of
        Some strategy \<Rightarrow> fst (compact env t strategy)
      | None \<Rightarrow> t)"

definition process_compact ::
  "context_monitor \<Rightarrow> compactor_env \<Rightarrow> (rat \<Rightarrow> string) \<Rightarrow> display_lib \<Rightarrow> thread \<Rightarrow> thread \<times> submission_result" where
  "process_compact mo env show_percent dl t =
     (let usage = usage_percent mo (messages t);
          strategy = (case suggest_compaction mo (messages t) of Some s \<Rightarrow> s | None \<Rightarrow> Summarize 5)
      in case compact env t strategy of
        (t', _, Ok r) \<Rightarrow>
          (t', SubOk (Some (''Compacted: '' @ nat_str (co_turns_removed r) @ '' turns removed, '' @
             nat_str (co_tokens_before r) @ '' '' @ [CHR 0xE2, CHR 0x86, CHR 0x92] @ '' '' @ nat_str (co_tokens_after r) @
             '' tokens (was '' @ show_percent usage @ ''% full)'' @
             (if co_summary_written r then '', summary saved to workspace'' else []))))
      | (t', _, Err e) \<Rightarrow> (t', SubError (''Compaction failed: '' @ agent_error_display dl (AgentLlm e))))"

text \<open>The agent with its compaction in place of the two parameters of \<^verbatim>\<open>Thread_Ops\<close>.\<close>

definition with_compaction ::
  "context_monitor \<Rightarrow> compactor_env \<Rightarrow> (rat \<Rightarrow> string) \<Rightarrow> display_lib \<Rightarrow> agent_env \<Rightarrow> agent_env" where
  "with_compaction mo env show_percent dl ae =
     ae\<lparr>ae_compact := auto_compact mo env, ae_compact_command := process_compact mo env show_percent dl\<rparr>"

section \<open>Counting\<close>

lemma estimate_tokens_simps [simp]:
  "estimate_tokens [] = 0"
  "estimate_tokens (m # ms) = estimate_message_tokens m + estimate_tokens ms"
  "estimate_tokens (ms @ ms') = estimate_tokens ms + estimate_tokens ms'"
  by (simp_all add: estimate_tokens_def)

lemma count_messages:
  "cb_total_tokens (foldl count_message b ms) = cb_total_tokens b + estimate_tokens ms"
  "cb_message_count (foldl count_message b ms) = cb_message_count b"
  "cb_system_tokens (foldl count_message b ms) =
     cb_system_tokens b + estimate_tokens (filter (\<lambda>m. cm_role m = System) ms)"
  "cb_user_tokens (foldl count_message b ms) =
     cb_user_tokens b + estimate_tokens (filter (\<lambda>m. cm_role m = User) ms)"
  "cb_assistant_tokens (foldl count_message b ms) =
     cb_assistant_tokens b + estimate_tokens (filter (\<lambda>m. cm_role m = Assistant) ms)"
  "cb_tool_tokens (foldl count_message b ms) =
     cb_tool_tokens b + estimate_tokens (filter (\<lambda>m. cm_role m = Tool) ms)"
  by (induction ms arbitrary: b) (simp_all add: count_message_def Let_def split: role.split)

lemma analyze_total [simp]: "cb_total_tokens (analyze ms) = estimate_tokens ms"
  by (simp add: analyze_def count_messages)

lemma estimate_by_role:
  "estimate_tokens ms = estimate_tokens (filter (\<lambda>m. cm_role m = System) ms) +
     estimate_tokens (filter (\<lambda>m. cm_role m = User) ms) + estimate_tokens (filter (\<lambda>m. cm_role m = Assistant) ms) +
     estimate_tokens (filter (\<lambda>m. cm_role m = Tool) ms)"
proof (induction ms)
  case (Cons m ms)
  then show ?case by (cases "cm_role m") simp_all
qed simp

section \<open>What every compaction does to a thread\<close>

lemma truncate_turns_all: "length (th_turns t) \<le> k \<Longrightarrow> truncate_turns t k = t"
  by (simp add: truncate_turns_def)

lemma truncate_turns_length: "length (th_turns (truncate_turns t k)) = min k (length (th_turns t))"
  by (auto simp: truncate_turns_def)

lemma truncate_turns_wf: "thread_wf t \<Longrightarrow> thread_wf (truncate_turns t k)"
  using thread_step_wf [of t "TruncateTurns k"] by simp

text \<open>The contract: the thread becomes one of its truncations.\<close>

locale truncating =
  fixes f :: "thread \<Rightarrow> thread"
  assumes cuts: "\<exists>k. f t = truncate_turns t k"
begin

lemma recent_messages: "\<exists>older. messages t = older @ messages (f t)"
  using cuts [of t] messages_truncate by metis

lemma fewer_tokens: "estimate_tokens (messages (f t)) \<le> estimate_tokens (messages t)"
  using recent_messages [of t] by (metis estimate_tokens_simps(3) le_add2)

lemma keeps_wf: "thread_wf t \<Longrightarrow> thread_wf (f t)"
  using cuts [of t] truncate_turns_wf by metis

lemma keeps_state: "th_state (f t) = th_state t \<and> th_pending_approval (f t) = th_pending_approval t \<and> th_id (f t) = th_id t"
  using cuts [of t] by (auto simp: truncate_turns_def)

end

lemma compact_Err: "compact env t s = (t', ws, Err e) \<Longrightarrow> t' = t \<and> ws = []"
  by (cases s) (auto simp: compact_def compact_with_summary_def compact_to_workspace_def compact_truncate_def Let_def
      split: if_splits sum.splits option.splits prod.splits)

lemma truncates_self: "\<exists>k. t = truncate_turns t k"
  by (rule exI [of _ "length (th_turns t)"]) (simp add: truncate_turns_all)

lemmas compact_defs = compact_with_summary_def compact_to_workspace_def compact_truncate_def

lemma compact_Ok:
  "compact env t s = (t', ws, Ok r) \<Longrightarrow>
   (\<exists>k. t' = truncate_turns t k) \<and> co_turns_removed r = length (th_turns t) - length (th_turns t') \<and>
   co_tokens_before r = estimate_tokens (messages t) \<and> co_tokens_after r = estimate_tokens (messages t')"
  using truncates_self [of t]
  by (cases s) (auto simp: compact_def compact_defs Let_def partial_empty_def truncate_turns_length
      split: if_splits sum.splits option.splits prod.splits)

lemma compact_cuts: "\<exists>k. fst (compact env t s) = truncate_turns t k"
proof -
  obtain t' ws r where c: "compact env t s = (t', ws, r)" by (metis prod.exhaust)
  show ?thesis
  proof (cases r)
    case (Inl e)
    then show ?thesis using compact_Err [of env t s t' ws e] c truncates_self by simp
  next
    case (Inr x)
    then show ?thesis using compact_Ok [of env t s t' ws x] c by simp
  qed
qed

interpretation compacting: truncating "\<lambda>t. fst (compact env t s)" for env s
  by unfold_locales (rule compact_cuts)

interpretation auto_compacting: truncating "auto_compact mo env" for mo env
  by unfold_locales (auto simp: auto_compact_def compact_cuts truncates_self split: option.split)

lemma process_compact_thread:
  "fst (process_compact mo env sh dl t) =
     fst (compact env t (case suggest_compaction mo (messages t) of Some s \<Rightarrow> s | None \<Rightarrow> Summarize 5))"
  by (simp add: process_compact_def Let_def split: prod.split sum.split)

interpretation command_compacting: truncating "\<lambda>t. fst (process_compact mo env sh dl t)" for mo env sh dl
  by unfold_locales (simp add: process_compact_thread compact_cuts)

section \<open>Archived turns\<close>

lemma join_contains: "x \<in> set xs \<Longrightarrow> \<exists>pre post. join sep xs = pre @ x @ post"
proof (induction sep xs rule: join.induct)
  case (3 sep y z zs)
  show ?case
  proof (cases "x = y")
    case True
    then show ?thesis by (metis append_Nil join.simps(3))
  next
    case False
    with 3 obtain pre post where "join sep (z # zs) = pre @ x @ post" by auto
    then show ?thesis by (metis append.assoc join.simps(3))
  qed
next
  case (2 sep w)
  then show ?case by (metis append_Nil append_Nil2 empty_iff empty_set join.simps(2) set_ConsD)
qed simp

lemma format_turn_parts:
  "\<exists>pre post. format_turn u = pre @ tn_user_input u @ post"
  "tn_response u = Some r \<Longrightarrow> \<exists>pre post. format_turn u = pre @ r @ post"
proof -
  let ?h = "''**Turn '' @ nat_str (tn_turn_number u + 1) @ ''**'' @ NL @ ''User: ''"
  show "\<exists>pre post. format_turn u = pre @ tn_user_input u @ post"
    by (rule exI [of _ ?h]) (simp add: format_turn_def)
  show "\<exists>pre post. format_turn u = pre @ r @ post" if "tn_response u = Some r"
    by (rule exI [of _ "?h @ tn_user_input u @ NL @ ''Agent: ''"]) (simp add: format_turn_def that)
qed

lemma infix_trans:
  "(\<exists>a b. ys = a @ xs @ b) \<Longrightarrow> (\<exists>a b. zs = a @ ys @ b) \<Longrightarrow> \<exists>a b. zs = a @ xs @ b"
  by (metis append.assoc)

lemma renumber_inputs [simp]: "map tn_user_input (renumber i us) = map tn_user_input us"
  by (induction us arbitrary: i) simp_all

section \<open>Samples\<close>

text \<open>A workspace that refuses every write, and a thread of eleven turns.\<close>

definition sample_compactor :: compactor_env where
  "sample_compactor = \<lparr>cc_complete = (\<lambda>_. Err (Http [])), cc_workspace = Some (\<lambda>_ _. False), cc_date = ''2026-01-01'', cc_time = ''12:00 UTC''\<rparr>"

definition sample_long_thread :: thread where
  "sample_long_thread = (thread_new 9 0 2)\<lparr>th_turns := map (\<lambda>i. turn_new 0 i ''remember'') [0..<11]\<rparr>"

definition sample_display :: display_lib where
  "sample_display = \<lparr>dl_uuid = (\<lambda>_. []), dl_duration = (\<lambda>_. [])\<rparr>"

section \<open>Properties\<close>

text \<open>
  C36: Every compaction, whatever the strategy, keeps a final segment of the conversation.  When
  the model fails to summarise, the thread is untouched and nothing is written; otherwise the report
  is exact: the number of turns removed, and the estimates before and after, which never grow.
\<close>

theorem compaction_keeps_recent:
  "case compact env t s of (t', ws, r) \<Rightarrow>
     (\<exists>older. messages t = older @ messages t') \<and> th_state t' = th_state t \<and>
     (case r of
        Err e \<Rightarrow> t' = t \<and> ws = []
      | Ok c \<Rightarrow> co_turns_removed c = length (th_turns t) - length (th_turns t') \<and>
          co_tokens_before c = estimate_tokens (messages t) \<and>
          co_tokens_after c = estimate_tokens (messages t') \<and> co_tokens_after c \<le> co_tokens_before c)"
  using compact_Err [of env t s] compact_Ok [of env t s] compacting.recent_messages [where t = t and env = env and s = s]
    compacting.keeps_state [where t = t and env = env and s = s] compacting.fewer_tokens [where t = t and env = env and s = s]
  by (auto split: prod.split sum.split)

text \<open>
  Moving turns to the workspace archives them.  With a workspace and more than ten turns, one entry
  is written to the daily log; the removed turns are the oldest ones, the ten most recent stay, and
  the entry holds the input and the response of each removed turn word for word.  The turns are
  removed whether or not the write succeeds: when it fails, they are gone and the report only says
  that nothing was written.
\<close>

theorem archive_complete:
  assumes "cc_workspace env = Some app" and "10 < length (th_turns t)"
  shows "\<exists>t' path entry r.
    compact env t MoveToWorkspace = (t', [(path, entry)], Ok r) \<and> path = ''daily/'' @ cc_date env @ ''.md'' \<and>
    length (th_turns t') = 10 \<and> co_summary_written r = app path entry \<and>
    map tn_user_input (th_turns t') = drop (length (th_turns t) - 10) (map tn_user_input (th_turns t)) \<and>
    (\<forall>u \<in> set (take (length (th_turns t) - 10) (th_turns t)).
       (\<exists>pre post. entry = pre @ tn_user_input u @ post) \<and>
       (\<forall>a. tn_response u = Some a \<longrightarrow> (\<exists>pre post. entry = pre @ a @ post)))"
proof -
  let ?old = "take (length (th_turns t) - 10) (th_turns t)"
  let ?c = "format_turns_for_storage ?old" and ?t' = "truncate_turns t 10"
  obtain path entry where w: "write_context_to_workspace env ?c = (path, entry)" by fastforce
  then have "\<exists>pre post. entry = pre @ ?c @ post"
    by (auto simp: write_context_to_workspace_def intro: exI [of _ "NL @ ''## Archived Context ('' @ cc_time env @ '')'' @ NL @ NL"])
  then have inside: "\<exists>pre post. entry = pre @ format_turn u @ post" if "u \<in> set ?old" for u
    using that by (intro infix_trans [OF join_contains]) (simp_all add: format_turns_for_storage_def)
  have path: "path = ''daily/'' @ cc_date env @ ''.md''"
    using w by (simp add: write_context_to_workspace_def daily_path_def)
  obtain r where r: "compact env t MoveToWorkspace = (?t', [(path, entry)], Ok r)" "co_summary_written r = app path entry"
    using assms w by (simp add: compact_def compact_to_workspace_def)
  have inputs: "map tn_user_input (th_turns ?t') = drop (length (th_turns t) - 10) (map tn_user_input (th_turns t))"
    using assms(2) by (simp add: truncate_turns_def drop_map)
  have len: "length (th_turns ?t') = 10" using assms(2) by (simp add: truncate_turns_length)
  have parts: "\<forall>u \<in> set ?old. (\<exists>pre post. entry = pre @ tn_user_input u @ post) \<and>
      (\<forall>a. tn_response u = Some a \<longrightarrow> (\<exists>pre post. entry = pre @ a @ post))"
    by (intro ballI conjI allI impI infix_trans [OF format_turn_parts(1) inside] infix_trans [OF format_turn_parts(2) inside])
  show ?thesis
    by (rule exI [of _ ?t'], rule exI [of _ path], rule exI [of _ entry], rule exI [of _ r]) (intro conjI r path inputs len parts)
qed

theorem archive_complete_witness:
  "\<exists>t' entry r. compact sample_compactor sample_long_thread MoveToWorkspace = (t', [(''daily/2026-01-01.md'', entry)], Ok r) \<and>
     length (th_turns t') = 10 \<and> \<not> co_summary_written r \<and> (\<exists>pre post. entry = pre @ ''remember'' @ post)"
proof -
  have h: "cc_workspace sample_compactor = Some (\<lambda>_ _. False)" "10 < length (th_turns sample_long_thread)"
    "take (length (th_turns sample_long_thread) - 10) (th_turns sample_long_thread) = [turn_new 0 0 ''remember'']"
    by (simp_all add: sample_compactor_def sample_long_thread_def numeral_eq_Suc)
  have i: "tn_user_input (turn_new 0 0 ''remember'') = ''remember''" "''daily/'' @ cc_date sample_compactor @ ''.md'' = ''daily/2026-01-01.md''"
    by (simp_all add: turn_new_def sample_compactor_def)
  from archive_complete [OF h(1,2), unfolded h(3) i(2)] show ?thesis by (metis i(1) list.set_intros(1))
qed

text \<open>
  The monitor of the agent: with the default limit and ratio, nothing happens below 80000 estimated
  tokens; up to 85000 turns are moved to the workspace, up to 95000 they are summarised, above that
  they are cut.
\<close>

theorem default_thresholds:
  "suggest_compaction monitor_new ms =
     (let n = estimate_tokens ms in
      if n < 80000 then None else if n \<le> 85000 then Some MoveToWorkspace
      else if n \<le> 95000 then Some (Summarize 5) else Some (Truncate 3))"
  by (simp add: suggest_compaction_def needs_compaction_def threshold_def monitor_new_def DEFAULT_CONTEXT_LIMIT_def
      COMPACTION_THRESHOLD_def Let_def)

text \<open>
  Moderate pressure is not relieved when the turns are few: with a workspace, at most ten turns and
  a usage the monitor wants moved to the workspace, the automatic compaction leaves the thread as it
  is, so the same suggestion comes up again before every following turn.
\<close>

theorem moderate_pressure_stays:
  assumes "cc_workspace env = Some app" and "length (th_turns t) \<le> 10"
    and "suggest_compaction mo (messages t) = Some MoveToWorkspace"
  shows "auto_compact mo env t = t \<and> suggest_compaction mo (messages (auto_compact mo env t)) = Some MoveToWorkspace"
  using assms by (simp add: auto_compact_def compact_def compact_to_workspace_def)

theorem moderate_pressure_stays_witness:
  "let t = sample_long_thread\<lparr>th_turns := [turn_new 0 0 ''a'', turn_new 0 1 ''b'']\<rparr>
   in auto_compact (with_limit monitor_new 12) sample_compactor t = t"
proof -
  let ?t = "sample_long_thread\<lparr>th_turns := [turn_new 0 0 ''a'', turn_new 0 1 ''b'']\<rparr>"
  have "estimate_tokens (messages ?t) = 10"
    by (simp add: messages_def turn_messages_def turn_new_def estimate_message_tokens_def word_tokens_def msg_user_def
        split_whitespace_def is_whitespace_def char_code_def)
  then have "suggest_compaction (with_limit monitor_new 12) (messages ?t) = Some MoveToWorkspace"
    by (simp add: suggest_compaction_def needs_compaction_def threshold_def with_limit_def monitor_new_def
        COMPACTION_THRESHOLD_def Let_def nat_le_iff)
  then show ?thesis
    using moderate_pressure_stays [of sample_compactor "\<lambda>_ _. False" ?t "with_limit monitor_new 12"]
    by (simp add: sample_compactor_def Let_def)
qed

text \<open>
  The breakdown adds up: the total is the sum of the four roles and the estimate of the monitor,
  every message is counted once, and each costs at least the four tokens of its frame.
\<close>

theorem breakdown_adds_up:
  "cb_total_tokens (analyze ms) = cb_system_tokens (analyze ms) + cb_user_tokens (analyze ms) +
     cb_assistant_tokens (analyze ms) + cb_tool_tokens (analyze ms) \<and>
   cb_total_tokens (analyze ms) = estimate_tokens ms \<and> cb_message_count (analyze ms) = length ms \<and>
   4 * length ms \<le> cb_total_tokens (analyze ms)"
proof -
  have "4 * length ms \<le> estimate_tokens ms"
    by (induction ms) (simp_all add: estimate_message_tokens_def)
  then show ?thesis using estimate_by_role [of ms] by (simp add: analyze_def count_messages)
qed

text \<open>
  An automatic compaction cannot be undone with the turn it precedes.  A turn of the agent with its
  compaction in place, followed by an undo, leaves the thread with a final segment of the messages it
  had before the turn: the compacted conversation, not the one the user saw.
\<close>

theorem undo_returns_to_compacted:
  assumes "map_of (ss_threads s) tid = Some t" and "map_of (sm_undo_managers m) tid = Some u"
    and "0 < um_max_checkpoints u"
    and "run_turn (chat_loop lenv) (with_compaction mo cenv sh dl env) m s tid content = ((m1, s1), r)"
    and "process_undo env1 m1 s1 tid = ((m2, s2), r2)"
  shows "\<exists>t2. map_of (ss_threads s2) tid = Some t2 \<and> messages t2 = messages (auto_compact mo cenv t) \<and>
    (\<exists>older. messages t = older @ messages t2)"
proof -
  obtain m3 s3 r3 where "process_redo env1 m2 s2 tid = ((m3, s3), r3)" by (metis prod.exhaust)
  from dispatcher.turn_undo_redo [OF assms this] obtain t2 where
    "map_of (ss_threads s2) tid = Some t2" "messages t2 = messages (auto_compact mo cenv t)"
    by (auto simp: with_compaction_def)
  then show ?thesis using auto_compacting.recent_messages [where t = t and mo = mo and env = cenv] by auto
qed

theorem undo_returns_to_compacted_witness:
  "let x1 = run_turn (chat_loop sample_env) (with_compaction monitor_new sample_compactor (\<lambda>_. []) sample_display sample_agent)
              sample_sm sample_session 9 ''hi'';
       x2 = process_undo sample_agent (fst (fst x1)) (snd (fst x1)) 9
   in map_option messages (map_of (ss_threads (snd (fst x2))) 9) = Some []"
proof -
  let ?e = "with_compaction monitor_new sample_compactor (\<lambda>_. []) sample_display sample_agent"
  obtain m1 s1 r1 where 1: "run_turn (chat_loop sample_env) ?e sample_sm sample_session 9 ''hi'' = ((m1, s1), r1)"
    by (metis prod.exhaust)
  obtain m2 s2 r2 where 2: "process_undo sample_agent m1 s1 9 = ((m2, s2), r2)" by (metis prod.exhaust)
  from undo_returns_to_compacted [OF sample_facts(1,3,4) 1 2] show ?thesis
    by (auto simp: 1 2 Let_def sample_facts)
qed

end
