(* ===== verification/Chunker.thy ===== *)
theory Chunker
  imports Complex_Main Prelude
begin

text \<open>
  The splitting of documents for the search index, \<^verbatim>\<open>src/src/workspace/chunker.rs\<close>.  The loop over the words may
  run forever when its step is zero, so it is a partial function: \<open>None\<close> is a run that does not end.

  The share of overlap is an exact rational; for the default configuration the product with the chunk
  size is 120 words in either arithmetic, and the theorems hold of every step, however it was rounded.
\<close>

section \<open>Configuration\<close>

record chunk_config =
  ck_chunk_size :: nat
  ck_overlap_percent :: rat
  ck_min_chunk_size :: nat

definition chunk_config_default :: chunk_config where
  "chunk_config_default = \<lparr>ck_chunk_size = 800, ck_overlap_percent = 15 / 100, ck_min_chunk_size = 50\<rparr>"

definition with_chunk_size :: "chunk_config \<Rightarrow> nat \<Rightarrow> chunk_config" where
  "with_chunk_size c n = c\<lparr>ck_chunk_size := n\<rparr>"

definition with_overlap :: "chunk_config \<Rightarrow> rat \<Rightarrow> chunk_config" where
  "with_overlap c p = c\<lparr>ck_overlap_percent := max 0 (min p (1 / 2))\<rparr>"

definition overlap_size :: "chunk_config \<Rightarrow> nat" where
  "overlap_size c = nat \<lfloor>of_nat (ck_chunk_size c) * ck_overlap_percent c\<rfloor>"

text \<open>A saturating subtraction.\<close>

definition step_size :: "chunk_config \<Rightarrow> nat" where
  "step_size c = ck_chunk_size c - overlap_size c"

section \<open>Chunks\<close>

definition unwords :: "string list \<Rightarrow> string" where
  "unwords ws = join '' '' ws"

partial_function (option) chunk_loop ::
  "nat \<Rightarrow> chunk_config \<Rightarrow> string list \<Rightarrow> nat \<Rightarrow> string list \<Rightarrow> string list option" where
  "chunk_loop step c words start chunks =
     (if start < length words
      then let end_pos = min (start + ck_chunk_size c) (length words);
               chunk_words = take (end_pos - start) (drop start words)
        in if length chunk_words < ck_min_chunk_size c \<and> chunks \<noteq> []
           then Some (butlast chunks @ [last chunks @ '' '' @ unwords chunk_words])
           else let chunks' = chunks @ [unwords chunk_words]; start' = start + step
             in if start' + ck_min_chunk_size c \<ge> length words \<and> end_pos = length words
                then Some chunks'
                else chunk_loop step c words start' chunks'
      else Some chunks)"

definition chunk_document :: "string \<Rightarrow> chunk_config \<Rightarrow> string list option" where
  "chunk_document content c =
     (if content = [] then Some []
      else let words = split_whitespace content in
      if words = [] then Some []
      else if length words \<le> ck_chunk_size c then Some [content]
      else chunk_loop (step_size c) c words 0 [])"

section \<open>Paragraphs\<close>

text \<open>\<open>split\<close> at two line ends, from the left.\<close>

definition BREAK :: string where "BREAK = [CHR 0x0A, CHR 0x0A]"

fun split_break :: "string \<Rightarrow> string list" where
  "split_break [] = [[]]"
| "split_break [x] = [[x]]"
| "split_break (x # y # s) =
     (if x = CHR 0x0A \<and> y = CHR 0x0A then [] # split_break s
      else case split_break (y # s) of w # ws \<Rightarrow> (x # w) # ws | [] \<Rightarrow> [[x]])"

definition paragraphs_of :: "string \<Rightarrow> string list" where
  "paragraphs_of content = filter (\<lambda>p. p \<noteq> []) (map trim (split_break content))"

definition flush :: "string \<Rightarrow> string list \<Rightarrow> string list" where
  "flush current chunks = (if current \<noteq> [] then chunks @ [trim current] else chunks)"

definition flush_rest :: "chunk_config \<Rightarrow> string list \<Rightarrow> string \<Rightarrow> nat \<Rightarrow> string list" where
  "flush_rest c chunks current n =
     (if current = [] then chunks
      else if n < ck_min_chunk_size c \<and> chunks \<noteq> []
      then butlast chunks @ [last chunks @ BREAK @ trim current]
      else chunks @ [trim current])"

fun paragraph_loop :: "chunk_config \<Rightarrow> string list \<Rightarrow> string list \<Rightarrow> string \<Rightarrow> nat \<Rightarrow> string list option" where
  "paragraph_loop c [] chunks current n = Some (flush_rest c chunks current n)"
| "paragraph_loop c (p # ps) chunks current n =
     (let para_words = length (split_whitespace p) in
      if para_words > ck_chunk_size c
      then case chunk_document p c of
             None \<Rightarrow> None
           | Some para_chunks \<Rightarrow>
               paragraph_loop c ps (flush current chunks @ para_chunks) [] (if current \<noteq> [] then 0 else n)
      else if n + para_words > ck_chunk_size c
      then paragraph_loop c ps (flush current chunks) p para_words
      else paragraph_loop c ps chunks ((if current \<noteq> [] then current @ BREAK else current) @ p) (n + para_words))"

definition chunk_by_paragraphs :: "string \<Rightarrow> chunk_config \<Rightarrow> string list option" where
  "chunk_by_paragraphs content c =
     (if content = [] then Some []
      else let paragraphs = paragraphs_of content in
      if paragraphs = [] then chunk_document content c
      else paragraph_loop c paragraphs [] [] 0)"

section \<open>Words of joined texts\<close>

lemma words_Nil [simp]: "split_whitespace [] = []"
  by (simp add: split_whitespace_def)

lemma words_space [simp]: "split_whitespace (a @ CHR '' '' # b) = split_whitespace a @ split_whitespace b"
  by (simp add: words_append)

lemma words_skip [simp]: "is_whitespace x \<Longrightarrow> split_whitespace (x # a) = split_whitespace a"
  using words_append [of x "[]" a] by simp

lemma words_snoc: "is_whitespace x \<Longrightarrow> split_whitespace (a @ [x]) = split_whitespace a"
  using words_append [of x a "[]"] by simp

lemma words_break [simp]: "split_whitespace (a @ BREAK @ b) = split_whitespace a @ split_whitespace b"
  using words_append [of "CHR 0x0A" a "CHR 0x0A # b"] by (simp add: BREAK_def)

lemma words_dropWhile: "split_whitespace (dropWhile is_whitespace s) = split_whitespace s"
  by (induction s) simp_all

lemma words_trim_end: "split_whitespace (rev (dropWhile is_whitespace s)) = split_whitespace (rev s)"
  by (induction s) (simp_all add: words_snoc)

lemma words_trim [simp]: "split_whitespace (trim s) = split_whitespace s"
  using words_trim_end [of "rev (dropWhile is_whitespace s)"]
  by (simp add: trim_def trim_end_def trim_start_def words_dropWhile)

text \<open>A list of words: none is empty, none holds white space.\<close>

definition words_ok :: "string list \<Rightarrow> bool" where
  "words_ok ws \<longleftrightarrow> (\<forall>w \<in> set ws. w \<noteq> [] \<and> (\<forall>x \<in> set w. \<not> is_whitespace x))"

lemma words_ok_split [simp]: "words_ok (split_whitespace s)"
  using split_whitespace_words by (auto simp: words_ok_def)

lemma words_ok_sub: "words_ok ws \<Longrightarrow> words_ok (take n (drop m ws))"
  by (auto simp: words_ok_def dest!: in_set_takeD in_set_dropD)

lemma words_unwords: "words_ok ws \<Longrightarrow> split_whitespace (unwords ws) = ws"
  unfolding words_ok_def unwords_def by (rule split_whitespace_join)

section \<open>The windows of the loop\<close>

definition window :: "nat \<Rightarrow> chunk_config \<Rightarrow> string list \<Rightarrow> nat \<Rightarrow> string list" where
  "window step c words k = take (ck_chunk_size c) (drop (k * step) words)"

definition windows :: "nat \<Rightarrow> chunk_config \<Rightarrow> string list \<Rightarrow> nat \<Rightarrow> string list list" where
  "windows step c words n = map (window step c words) [0..<n]"

lemma slice_window: "take (min (s + n) (length xs) - s) (drop s xs) = take n (drop s xs)"
  by (auto simp: min_def)

lemma min_eq_right: "min a b = b \<longleftrightarrow> b \<le> a" for a b :: nat
  by auto

lemma length_window: "length (window step c words k) = min (ck_chunk_size c) (length words - k * step)"
  by (simp add: window_def min.commute)

lemma chunk_loop_eq:
  "chunk_loop step c words s chunks =
     (if s < length words
      then let w = take (ck_chunk_size c) (drop s words)
        in if length w < ck_min_chunk_size c \<and> chunks \<noteq> []
           then Some (butlast chunks @ [last chunks @ '' '' @ unwords w])
           else if length words \<le> s + step + ck_min_chunk_size c \<and> length words \<le> s + ck_chunk_size c
             then Some (chunks @ [unwords w])
             else chunk_loop step c words (s + step) (chunks @ [unwords w])
      else Some chunks)"
  by (subst chunk_loop.simps) (simp only: Let_def slice_window min_eq_right)

text \<open>The body of the loop at the \<open>k\<close>-th window.\<close>

lemma chunk_loop_step:
  "chunk_loop step c words (k * step) (map unwords (windows step c words k)) =
     (if k * step < length words
      then if length (window step c words k) < ck_min_chunk_size c \<and> 0 < k
        then Some (map unwords (windows step c words (k - 1)) @
               [unwords (window step c words (k - 1)) @ '' '' @ unwords (window step c words k)])
        else if length words \<le> Suc k * step + ck_min_chunk_size c \<and> length words \<le> k * step + ck_chunk_size c
          then Some (map unwords (windows step c words (Suc k)))
          else chunk_loop step c words (Suc k * step) (map unwords (windows step c words (Suc k)))
      else Some (map unwords (windows step c words k)))"
proof -
  have snoc: "windows step c words (Suc j) = windows step c words j @ [window step c words j]" for j
    by (simp add: windows_def)
  have next_pos: "k * step + step = Suc k * step" by simp
  have last_window: "0 < k \<Longrightarrow> butlast (map unwords (windows step c words k)) = map unwords (windows step c words (k - 1)) \<and>
      last (map unwords (windows step c words k)) = unwords (window step c words (k - 1)) \<and> windows step c words k \<noteq> []"
    using snoc [of "k - 1"] by simp
  have "windows step c words k \<noteq> [] \<longleftrightarrow> 0 < k" by (auto simp: windows_def)
  then show ?thesis
    using last_window
    by (subst chunk_loop_eq) (auto simp: Let_def next_pos snoc simp flip: window_def simp del: mult_Suc)
qed

text \<open>The two ways the loop ends after \<open>n\<close> windows: at the end of the words, or merging a short one.\<close>

definition chunked :: "nat \<Rightarrow> chunk_config \<Rightarrow> string list \<Rightarrow> nat \<Rightarrow> string list \<Rightarrow> bool" where
  "chunked step c words n cs \<longleftrightarrow>
     (cs = map unwords (windows step c words n) \<and>
        (length words \<le> n * step \<or> 0 < n \<and> length words \<le> (n - 1) * step + ck_chunk_size c)) \<or>
     (0 < n \<and> n * step < length words \<and> length (window step c words n) < ck_min_chunk_size c \<and>
        cs = map unwords (windows step c words (n - 1)) @
               [unwords (window step c words (n - 1)) @ '' '' @ unwords (window step c words n)])"

lemma chunk_loop_ends:
  assumes "0 < step"
  shows "\<exists>n cs. chunk_loop step c words (k * step) (map unwords (windows step c words k)) = Some cs \<and> chunked step c words n cs"
proof (induction "length words - k * step" arbitrary: k rule: less_induct)
  case less
  show ?case
  proof (cases "k * step < length words")
    case True
    then have IH: "\<exists>n cs. chunk_loop step c words (Suc k * step) (map unwords (windows step c words (Suc k))) = Some cs \<and>
        chunked step c words n cs"
      using less [of "Suc k"] assms by simp
    show ?thesis
      unfolding chunk_loop_step [of step c words k]
      using True IH by (auto simp: chunked_def)
  next
    case False
    then show ?thesis unfolding chunk_loop_step [of step c words k] by (auto simp: chunked_def)
  qed
qed

section \<open>Reading the chunks\<close>

lemma window_ok: "words_ok words \<Longrightarrow> words_ok (window step c words k)"
  by (simp add: window_def words_ok_sub)

text \<open>The words of every chunk hold the words of every window.\<close>

lemma chunked_windows:
  assumes "chunked step c words n cs" and "words_ok words"
  shows "k < n \<Longrightarrow> \<exists>x \<in> set cs. \<exists>pre post. split_whitespace x = pre @ window step c words k @ post"
    and "cs = map unwords (windows step c words (n - 1)) @
               [unwords (window step c words (n - 1)) @ '' '' @ unwords (window step c words n)] \<Longrightarrow>
      \<exists>x \<in> set cs. \<exists>pre post. split_whitespace x = pre @ window step c words n @ post"
proof -
  let ?W = "window step c words"
  have ww: "split_whitespace (unwords (?W j)) = ?W j" for j
    by (rule words_unwords [OF window_ok [OF assms(2)]])
  have merged: "split_whitespace (unwords (?W i) @ '' '' @ unwords (?W j)) = ?W i @ ?W j" for i j
    by (simp add: ww)
  show "\<exists>x \<in> set cs. \<exists>pre post. split_whitespace x = pre @ ?W k @ post" if k: "k < n"
  proof (cases "unwords (?W k) \<in> set cs")
    case True
    then show ?thesis using ww [of k] by (metis append_Nil append_Nil2)
  next
    case False
    with assms(1) k have "unwords (?W (n - 1)) @ '' '' @ unwords (?W n) \<in> set cs" "\<not> k < n - 1"
      by (auto simp: chunked_def windows_def)
    moreover from this k have "k = n - 1" by simp
    ultimately show ?thesis using merged by (metis append_Nil)
  qed
  show "\<exists>x \<in> set cs. \<exists>pre post. split_whitespace x = pre @ ?W n @ post"
    if "cs = map unwords (windows step c words (n - 1)) @ [unwords (?W (n - 1)) @ '' '' @ unwords (?W n)]"
    using that merged [of "n - 1" n] by (intro bexI [of _ "unwords (?W (n - 1)) @ '' '' @ unwords (?W n)"]) (auto, metis append_Nil2)
qed

lemma take_two: "length (a @ b) \<le> n \<Longrightarrow> take n (a @ b @ d) = a @ b @ take (n - length a - length b) d"
  by simp

text \<open>A phrase no longer than the overlap and one word lies in one window.\<close>

lemma phrase_in_window:
  assumes "0 < step" and "l + step \<le> ck_chunk_size c + 1" and "i + l \<le> length words"
  shows "\<exists>pre post. window step c words (i div step) = pre @ take l (drop i words) @ post"
proof -
  let ?k = "i div step * step" and ?s = "ck_chunk_size c"
  have k: "?k \<le> i" "i < ?k + step" using assms(1) dividend_less_div_times [of step i] by (simp_all add: add.commute)
  have d: "drop ?k words = take (i - ?k) (drop ?k words) @ take l (drop i words) @ drop (i + l) words"
    using k(1) by (metis add.commute append_take_drop_id drop_drop le_add_diff_inverse)
  have "length (take (i - ?k) (drop ?k words) @ take l (drop i words)) \<le> ?s"
    using k assms(2,3) by simp
  from take_two [OF this, of "drop (i + l) words", folded d] show ?thesis unfolding window_def by blast
qed

lemma chunked_phrase:
  assumes "chunked step c words n cs" and "words_ok words" and "0 < step" and "step \<le> ck_chunk_size c"
    and "ck_min_chunk_size c \<le> ck_chunk_size c"
    and "0 < l" and "l + step \<le> ck_chunk_size c + 1" and "i + l \<le> length words"
  shows "\<exists>x \<in> set cs. \<exists>pre post. split_whitespace x = pre @ take l (drop i words) @ post"
proof -
  let ?W = "window step c words" and ?p = "take l (drop i words)"
  have sub: "\<exists>x \<in> set cs. \<exists>pre post. split_whitespace x = pre @ ?p @ post"
    if "\<exists>x \<in> set cs. \<exists>pre post. split_whitespace x = pre @ ?W k @ post" and "\<exists>pre post. ?W k = pre @ ?p @ post" for k
    using that by (metis append.assoc)
  have in_last: "\<exists>pre post. ?W k = pre @ ?p @ post" if "k * step \<le> i" and "length words \<le> k * step + ck_chunk_size c" for k
  proof -
    have "?W k = drop (k * step) words" using that(2) by (simp add: window_def)
    also have "\<dots> = take (i - k * step) (drop (k * step) words) @ ?p @ drop (i + l) words"
      using that(1) by (metis add.commute append_take_drop_id drop_drop le_add_diff_inverse)
    finally show ?thesis by blast
  qed
  show ?thesis
  proof (cases "i div step < n")
    case True
    then show ?thesis
      using sub [OF chunked_windows(1) [OF assms(1,2)] phrase_in_window [OF assms(3,7,8)]] by blast
  next
    case False
    then have i: "n * step \<le> i" by (metis assms(3) div_le_mono less_eq_div_iff_mult_less_eq linorder_not_less)
    from assms(1) consider
      (ends) "cs = map unwords (windows step c words n)" "length words \<le> n * step \<or> 0 < n \<and> length words \<le> (n - 1) * step + ck_chunk_size c"
    | (merges) "length (?W n) < ck_min_chunk_size c"
        "cs = map unwords (windows step c words (n - 1)) @ [unwords (?W (n - 1)) @ '' '' @ unwords (?W n)]"
      by (auto simp: chunked_def)
    then show ?thesis
    proof cases
      case ends
      with assms(6,8) i have n: "0 < n" "length words \<le> (n - 1) * step + ck_chunk_size c" by auto
      moreover from i have "(n - 1) * step \<le> i" by (simp add: diff_mult_distrib)
      ultimately show ?thesis
        using sub [OF chunked_windows(1) [OF assms(1,2)] in_last, of "n - 1"] by simp
    next
      case merges
      with assms(5) have "length words \<le> n * step + ck_chunk_size c" by (simp add: length_window)
      then show ?thesis using sub [OF chunked_windows(2) [OF assms(1,2) merges(2)] in_last [OF i]] by blast
    qed
  qed
qed

section \<open>A loop that does not end\<close>

lemma chunk_loop_stands:
  assumes "ck_chunk_size c < length words" and "ck_min_chunk_size c \<le> ck_chunk_size c"
  shows "chunk_loop 0 c words 0 chunks = None"
proof -
  have "chunk_loop step d ws s cs = Some y \<Longrightarrow>
      \<not> (step = 0 \<and> s = 0 \<and> ck_chunk_size d < length ws \<and> ck_min_chunk_size d \<le> ck_chunk_size d)" for step d ws s cs y
  proof (rule chunk_loop.raw_induct [where P = "\<lambda>step d ws s cs y.
      \<not> (step = 0 \<and> s = 0 \<and> ck_chunk_size d < length ws \<and> ck_min_chunk_size d \<le> ck_chunk_size d)"])
  qed (fastforce simp: Let_def min_def split: if_splits)+
  with assms show ?thesis by (metis not_Some_eq)
qed

section \<open>Paragraphs\<close>

lemma split_break_ne [simp]: "split_break s \<noteq> []"
  by (induction s rule: split_break.induct) (auto split: list.splits)

lemma join_split_break: "join BREAK (split_break s) = s"
proof (induction s rule: split_break.induct)
  case (3 x y s)
  show ?case
  proof (cases "x = CHR 0x0A \<and> y = CHR 0x0A")
    case True
    with 3(1) show ?thesis by (simp add: join_Cons BREAK_def)
  next
    case False
    obtain w ws where b: "split_break (y # s) = w # ws" by (metis list.exhaust split_break_ne)
    with 3(2) [OF False] have "join BREAK (w # ws) = y # s" by simp
    moreover have "join BREAK ((x # w) # ws) = x # join BREAK (w # ws)" by (cases ws) simp_all
    ultimately show ?thesis using False b by auto
  qed
qed simp_all

lemma words_join_break: "split_whitespace (join BREAK xs) = concat (map split_whitespace xs)"
  by (induction BREAK xs rule: join.induct) simp_all

lemma words_paragraphs: "concat (map split_whitespace (paragraphs_of s)) = split_whitespace s"
proof -
  have "concat (map split_whitespace (filter (\<lambda>p. p \<noteq> []) xs)) = concat (map split_whitespace xs)" for xs
    by (induction xs) auto
  then have "concat (map split_whitespace (paragraphs_of s)) = concat (map split_whitespace (split_break s))"
    by (simp add: paragraphs_of_def comp_def)
  then show ?thesis by (metis join_split_break words_join_break)
qed

lemma words_flush: "concat (map split_whitespace (flush current chunks)) = concat (map split_whitespace chunks) @ split_whitespace current"
  by (simp add: flush_def)

lemma words_flush_rest:
  "concat (map split_whitespace (flush_rest c chunks current n)) = concat (map split_whitespace chunks) @ split_whitespace current"
  by (cases chunks rule: rev_cases) (simp_all add: flush_rest_def)

lemma paragraph_loop_words:
  "\<forall>p \<in> set ps. length (split_whitespace p) \<le> ck_chunk_size c \<Longrightarrow>
   \<exists>cs. paragraph_loop c ps chunks current n = Some cs \<and>
     concat (map split_whitespace cs) = concat (map split_whitespace chunks) @ split_whitespace current @ concat (map split_whitespace ps)"
proof (induction ps arbitrary: chunks current n)
  case (Cons p ps)
  from Cons.prems have "\<not> length (split_whitespace p) > ck_chunk_size c" by simp
  then show ?case using Cons.IH [of "flush current chunks" p] Cons.IH [of chunks "(if current \<noteq> [] then current @ BREAK else current) @ p"]
      Cons.prems by (auto simp: Let_def words_flush)
qed (simp add: words_flush_rest)

section \<open>Properties\<close>

lemma default_steps: "overlap_size chunk_config_default = 120 \<and> step_size chunk_config_default = 680"
  by (simp add: overlap_size_def step_size_def chunk_config_default_def)

lemma chunk_document_long:
  "ck_chunk_size c < length (split_whitespace content) \<Longrightarrow>
   chunk_document content c = chunk_loop (step_size c) c (split_whitespace content) 0 []"
  by (cases "content = []") (auto simp: chunk_document_def Let_def)

text \<open>
  Splitting a document ends, and every phrase no longer than the overlap and one more word lies
  whole in some chunk, whatever chunk boundaries it spans.  The minimum chunk size must not exceed
  the chunk size, and the overlap must be smaller than it.
\<close>

theorem phrase_in_one_chunk:
  assumes "overlap_size c < ck_chunk_size c" and "ck_min_chunk_size c \<le> ck_chunk_size c"
    and "0 < l" and "l \<le> overlap_size c + 1" and "i + l \<le> length (split_whitespace content)"
  shows "\<exists>cs. chunk_document content c = Some cs \<and>
    (\<exists>x \<in> set cs. \<exists>pre post. split_whitespace x = pre @ take l (drop i (split_whitespace content)) @ post)"
proof (cases "length (split_whitespace content) \<le> ck_chunk_size c")
  case True
  let ?ws = "split_whitespace content"
  have "?ws \<noteq> []" using assms(3,5) by auto
  then have "chunk_document content c = Some [content]"
    using True by (auto simp: chunk_document_def)
  moreover have "?ws = take i ?ws @ take l (drop i ?ws) @ drop (i + l) ?ws"
    by (metis add.commute append_take_drop_id drop_drop)
  ultimately show ?thesis by (metis list.set_intros(1))
next
  case False
  let ?ws = "split_whitespace content"
  have pos: "0 < step_size c" "step_size c \<le> ck_chunk_size c" "l + step_size c \<le> ck_chunk_size c + 1"
    using assms(1,4) by (simp_all add: step_size_def)
  obtain n cs where "chunk_loop (step_size c) c ?ws 0 [] = Some cs" "chunked (step_size c) c ?ws n cs"
    using chunk_loop_ends [OF pos(1), of c ?ws 0] by (auto simp: windows_def)
  then show ?thesis
    using chunked_phrase [OF _ words_ok_split pos(1,2) assms(2,3) pos(3) assms(5)] False
    by (simp add: chunk_document_long)
qed

theorem phrase_in_one_chunk_witness:
  "\<exists>cs. chunk_document ''a b c d'' \<lparr>ck_chunk_size = 3, ck_overlap_percent = 1 / 2, ck_min_chunk_size = 2\<rparr> = Some cs \<and>
    (\<exists>x \<in> set cs. \<exists>pre post. split_whitespace x = pre @ [''c'', ''d''] @ post)"
proof -
  let ?c = "\<lparr>ck_chunk_size = 3, ck_overlap_percent = 1 / 2, ck_min_chunk_size = 2\<rparr>"
  have o: "overlap_size ?c = 1" by (simp add: overlap_size_def nat_eq_iff floor_eq_iff)
  have w: "split_whitespace ''a b c d'' = [''a'', ''b'', ''c'', ''d'']"
    by (simp add: split_whitespace_def is_whitespace_def char_code_def)
  show ?thesis using phrase_in_one_chunk [of ?c 2 2 "''a b c d''"] by (simp add: o w)
qed

text \<open>
  Chunks keep to their size: a chunk of a document longer than the chunk size has at most that
  many words, and only the last can have more, by less than the minimum chunk size.
\<close>

theorem chunk_sizes:
  assumes "chunk_document content c = Some cs" and "overlap_size c < ck_chunk_size c" and "x \<in> set cs"
  shows "length (split_whitespace x) \<le> ck_chunk_size c \<or>
    x = last cs \<and> length (split_whitespace x) < ck_chunk_size c + ck_min_chunk_size c"
proof (cases "length (split_whitespace content) \<le> ck_chunk_size c")
  case True
  then show ?thesis using assms(1,3) by (auto simp: chunk_document_def Let_def split: if_splits)
next
  case False
  let ?ws = "split_whitespace content" and ?W = "window (step_size c) c (split_whitespace content)"
  have w: "split_whitespace (unwords (?W k)) = ?W k" for k
    by (rule words_unwords [OF window_ok [OF words_ok_split]])
  have b: "length (?W k) \<le> ck_chunk_size c" for k by (simp add: length_window)
  have pos: "0 < step_size c" using assms(2) by (simp add: step_size_def)
  obtain n where n: "chunked (step_size c) c ?ws n cs"
    using chunk_loop_ends [OF pos, of c ?ws 0] False assms(1) by (auto simp: chunk_document_long windows_def)
  then show ?thesis
  proof (cases "x \<in> (\<lambda>k. unwords (?W k)) ` UNIV")
    case True
    then show ?thesis using b w by auto
  next
    case False
    with n assms(3) have x: "x = last cs" "x = unwords (?W (n - 1)) @ '' '' @ unwords (?W n)" "length (?W n) < ck_min_chunk_size c"
      by (auto simp: chunked_def windows_def)
    from x(2) have "length (split_whitespace x) = length (?W (n - 1)) + length (?W n)" by (simp add: w)
    then show ?thesis using b [of "n - 1"] x(1,3) by simp
  qed
qed

theorem chunk_sizes_witness:
  "length (split_whitespace ''a b'') \<le> ck_chunk_size chunk_config_default \<or> ''a b'' = last [''a b''] \<and>
     length (split_whitespace ''a b'') < ck_chunk_size chunk_config_default + ck_min_chunk_size chunk_config_default"
proof (rule chunk_sizes)
  have w: "split_whitespace ''a b'' = [''a'', ''b'']"
    by (simp add: split_whitespace_def is_whitespace_def char_code_def)
  show "chunk_document ''a b'' chunk_config_default = Some [''a b'']"
    unfolding chunk_document_def w by (simp add: chunk_config_default_def)
  show "overlap_size chunk_config_default < ck_chunk_size chunk_config_default"
    using default_steps by (simp add: chunk_config_default_def)
qed simp

text \<open>
  A chunk size below the minimum loses text.  \<open>with_chunk_size\<close> leaves the minimum of fifty words as
  it is; with a smaller chunk size the second window already counts as a short tail, is merged with
  the first, and the rest of the document is dropped: one chunk with at most twice the chunk size.
\<close>

theorem small_chunks_lose_text:
  assumes "ck_chunk_size c < ck_min_chunk_size c" and "overlap_size c < ck_chunk_size c"
    and "step_size c + ck_chunk_size c < length (split_whitespace content)"
  shows "\<exists>x. chunk_document content c = Some [x] \<and>
    split_whitespace x = take (ck_chunk_size c) (split_whitespace content) @
      take (ck_chunk_size c) (drop (step_size c) (split_whitespace content))"
proof -
  let ?ws = "split_whitespace content" and ?W = "window (step_size c) c (split_whitespace content)"
  have pos: "0 < step_size c" "ck_chunk_size c < length ?ws" using assms(2,3) by (simp_all add: step_size_def)
  have w: "split_whitespace (unwords (?W k)) = ?W k" for k
    by (rule words_unwords [OF window_ok [OF words_ok_split]])
  have "chunk_loop (step_size c) c ?ws 0 [] = chunk_loop (step_size c) c ?ws (1 * step_size c) (map unwords (windows (step_size c) c ?ws 1))"
    using chunk_loop_step [of "step_size c" c ?ws 0] pos by (auto simp: windows_def)
  also have "\<dots> = Some [unwords (?W 0) @ '' '' @ unwords (?W 1)]"
    using assms(1,3) by (subst chunk_loop_step) (auto simp: windows_def length_window)
  finally show ?thesis using pos w [of 0] w [of 1] by (auto simp: chunk_document_long window_def)
qed

theorem small_chunks_lose_text_witness:
  "\<exists>x. chunk_document ''a b c d e'' (with_chunk_size chunk_config_default 2) = Some [x] \<and>
     split_whitespace x = [''a'', ''b'', ''c'', ''d'']"
proof -
  let ?c = "with_chunk_size chunk_config_default 2"
  have o: "overlap_size ?c = 0" "step_size ?c = 2" by (simp_all add: step_size_def overlap_size_def with_chunk_size_def chunk_config_default_def)
  have w: "split_whitespace ''a b c d e'' = [''a'', ''b'', ''c'', ''d'', ''e'']"
    by (simp add: split_whitespace_def is_whitespace_def char_code_def)
  show ?thesis using small_chunks_lose_text [of ?c "''a b c d e''"]
    by (simp add: o w) (simp add: with_chunk_size_def chunk_config_default_def numeral_eq_Suc)
qed

text \<open>
  With an overlap as large as the chunk the loop stands still: splitting a document longer than a
  chunk does not return.
\<close>

theorem full_overlap_diverges:
  assumes "ck_chunk_size c \<le> overlap_size c" and "ck_min_chunk_size c \<le> ck_chunk_size c"
    and "ck_chunk_size c < length (split_whitespace content)"
  shows "chunk_document content c = None"
proof -
  have "step_size c = 0" using assms(1) by (simp add: step_size_def)
  then show ?thesis using assms by (simp add: chunk_document_long chunk_loop_stands)
qed

theorem full_overlap_diverges_witness:
  "chunk_document ''a b'' \<lparr>ck_chunk_size = 1, ck_overlap_percent = 1, ck_min_chunk_size = 1\<rparr> = None"
  by (rule full_overlap_diverges)
    (simp_all add: overlap_size_def split_whitespace_def is_whitespace_def char_code_def)

text \<open>
  Splitting by paragraphs loses and repeats nothing: when no paragraph is longer than a chunk, the
  words of the chunks, read in order, are the words of the document.
\<close>

theorem paragraph_chunks_exact:
  assumes "\<forall>p \<in> set (paragraphs_of content). length (split_whitespace p) \<le> ck_chunk_size c"
  shows "\<exists>cs. chunk_by_paragraphs content c = Some cs \<and> concat (map split_whitespace cs) = split_whitespace content"
  using paragraph_loop_words [OF assms, of "[]" "[]" 0] words_paragraphs [of content]
  by (cases "paragraphs_of content = []") (auto simp: chunk_by_paragraphs_def chunk_document_def Let_def)

theorem paragraph_chunks_exact_witness:
  "\<exists>cs. chunk_by_paragraphs ''a b'' chunk_config_default = Some cs \<and> concat (map split_whitespace cs) = split_whitespace ''a b''"
  by (rule paragraph_chunks_exact)
    (simp add: paragraphs_of_def trim_def trim_start_def trim_end_def split_whitespace_def is_whitespace_def char_code_def
      chunk_config_default_def)

end
