(* ===== verification/File_System.thy ===== *)
theory File_System
  imports Prelude
begin

text \<open>
  What the file tools use of the standard library: paths as their components, and a file system of
  directories, files and symbolic links with the lookup, the creation of directories and the writing
  of files the operating system does.

  A path is the list of its components, which is also how paths are compared; a trailing slash is
  lost.  Permissions are not modelled: an operation fails when an entry is missing, has the wrong
  kind, or when forty links have been followed.
\<close>

section \<open>Paths\<close>

datatype component = RootDir | CurDir | ParentDir | Normal string

type_synonym path = "component list"

definition component_of :: "string \<Rightarrow> component" where
  "component_of s = (if s = ''.'' then CurDir else if s = ''..'' then ParentDir else Normal s)"

definition drop_cur :: "path \<Rightarrow> path" where
  "drop_cur p = filter (\<lambda>c. c \<noteq> CurDir) p"

text \<open>\<open>Path::components\<close>: repeated slashes go, and a dot stays only at the start of a relative path.\<close>

definition path_of :: "string \<Rightarrow> path" where
  "path_of s =
     (let cs = map component_of (filter (\<lambda>w. w \<noteq> []) (split_on (CHR ''/'') s)) in
      if starts_with s ''/'' then RootDir # drop_cur cs
      else case cs of CurDir # r \<Rightarrow> CurDir # drop_cur r | _ \<Rightarrow> drop_cur cs)"

definition is_absolute :: "path \<Rightarrow> bool" where
  "is_absolute p \<longleftrightarrow> (case p of RootDir # _ \<Rightarrow> True | _ \<Rightarrow> False)"

definition join_path :: "path \<Rightarrow> path \<Rightarrow> path" where
  "join_path b p = (if is_absolute p then p else if b = [] then p else b @ drop_cur p)"

definition path_parent :: "path \<Rightarrow> path option" where
  "path_parent p = (if p = [] \<or> last p = RootDir then None else Some (butlast p))"

definition path_file_name :: "path \<Rightarrow> string option" where
  "path_file_name p = (if p = [] then None else case last p of Normal n \<Rightarrow> Some n | _ \<Rightarrow> None)"

definition path_starts_with :: "path \<Rightarrow> path \<Rightarrow> bool" where
  "path_starts_with p b \<longleftrightarrow> take (length b) p = b"

fun component_str :: "component \<Rightarrow> string" where
  "component_str RootDir = []"
| "component_str CurDir = ''.''"
| "component_str ParentDir = ''..''"
| "component_str (Normal n) = n"

definition path_display :: "path \<Rightarrow> string" where
  "path_display p = (if p = [RootDir] then ''/'' else join ''/'' (map component_str p))"

text \<open>The absolute path with the given names.\<close>

definition abs_path :: "string list \<Rightarrow> path" where
  "abs_path ns = RootDir # map Normal ns"

section \<open>Files\<close>

datatype node = Dir | File string | Link path

text \<open>Nodes by the names from the root, which itself is always a directory.\<close>

type_synonym nodes = "string list \<Rightarrow> node option"

record file_system =
  fs_nodes :: nodes
  fs_cwd :: "string list"
  fs_order :: "string list \<Rightarrow> string list"
  fs_error :: "path \<Rightarrow> string"

definition is_dir :: "nodes \<Rightarrow> string list \<Rightarrow> bool" where
  "is_dir nd ns \<longleftrightarrow> ns = [] \<or> nd ns = Some Dir"

definition MAX_LINKS :: nat where "MAX_LINKS = 40"

text \<open>Looking up a path from a directory, with a number of links left to follow.\<close>

fun walk :: "nodes \<Rightarrow> nat \<Rightarrow> string list \<Rightarrow> path \<Rightarrow> string list option" where
  "walk nd links cur [] = Some cur"
| "walk nd links cur (RootDir # r) = walk nd links [] r"
| "walk nd links cur (CurDir # r) = walk nd links cur r"
| "walk nd links cur (ParentDir # r) = walk nd links (butlast cur) r"
| "walk nd links cur (Normal n # r) =
     (case nd (cur @ [n]) of
        None \<Rightarrow> None
      | Some Dir \<Rightarrow> walk nd links (cur @ [n]) r
      | Some (File _) \<Rightarrow> if r = [] then Some (cur @ [n]) else None
      | Some (Link t) \<Rightarrow> (case links of 0 \<Rightarrow> None | Suc l \<Rightarrow> walk nd l cur (t @ r)))"

definition locate :: "file_system \<Rightarrow> path \<Rightarrow> string list option" where
  "locate fs p = (if p = [] then None else walk (fs_nodes fs) MAX_LINKS (fs_cwd fs) p)"

definition canonicalize :: "file_system \<Rightarrow> path \<Rightarrow> path option" where
  "canonicalize fs p = map_option abs_path (locate fs p)"

definition exists_path :: "file_system \<Rightarrow> path \<Rightarrow> bool" where
  "exists_path fs p \<longleftrightarrow> locate fs p \<noteq> None"

definition current_dir :: "file_system \<Rightarrow> path" where
  "current_dir fs = abs_path (fs_cwd fs)"

definition read_to_string :: "file_system \<Rightarrow> path \<Rightarrow> string option" where
  "read_to_string fs p =
     (case locate fs p of
        Some ns \<Rightarrow> (case fs_nodes fs ns of Some (File s) \<Rightarrow> Some s | _ \<Rightarrow> None)
      | None \<Rightarrow> None)"

text \<open>The file that opening a path for writing, creating it when missing, refers to.\<close>

fun write_target :: "nodes \<Rightarrow> nat \<Rightarrow> string list \<Rightarrow> path \<Rightarrow> string list option" where
  "write_target nd links cur [] = None"
| "write_target nd links cur (RootDir # r) = write_target nd links [] r"
| "write_target nd links cur (CurDir # r) = write_target nd links cur r"
| "write_target nd links cur (ParentDir # r) = write_target nd links (butlast cur) r"
| "write_target nd links cur (Normal n # r) =
     (case nd (cur @ [n]) of
        None \<Rightarrow> if r = [] then Some (cur @ [n]) else None
      | Some Dir \<Rightarrow> write_target nd links (cur @ [n]) r
      | Some (File _) \<Rightarrow> if r = [] then Some (cur @ [n]) else None
      | Some (Link t) \<Rightarrow> (case links of 0 \<Rightarrow> None | Suc l \<Rightarrow> write_target nd l cur (t @ r)))"

definition write_file :: "file_system \<Rightarrow> path \<Rightarrow> string \<Rightarrow> file_system option" where
  "write_file fs p s =
     (case write_target (fs_nodes fs) MAX_LINKS (fs_cwd fs) p of
        Some ns \<Rightarrow> Some (fs\<lparr>fs_nodes := (fs_nodes fs)(ns \<mapsto> File s)\<rparr>)
      | None \<Rightarrow> None)"

text \<open>\<open>create_dir_all\<close>: missing directories are made on the way down.\<close>

fun make_dirs :: "nodes \<Rightarrow> string list \<Rightarrow> path \<Rightarrow> nodes option" where
  "make_dirs nd cur [] = Some nd"
| "make_dirs nd cur (RootDir # r) = make_dirs nd [] r"
| "make_dirs nd cur (CurDir # r) = make_dirs nd cur r"
| "make_dirs nd cur (ParentDir # r) = make_dirs nd (butlast cur) r"
| "make_dirs nd cur (Normal n # r) =
     (case nd (cur @ [n]) of
        None \<Rightarrow> make_dirs (nd(cur @ [n] \<mapsto> Dir)) (cur @ [n]) r
      | Some Dir \<Rightarrow> make_dirs nd (cur @ [n]) r
      | Some (File _) \<Rightarrow> None
      | Some (Link t) \<Rightarrow>
          (case walk nd MAX_LINKS cur [Normal n] of
             Some ns \<Rightarrow> if is_dir nd ns then make_dirs nd ns r else None
           | None \<Rightarrow> None))"

definition create_dir_all :: "file_system \<Rightarrow> path \<Rightarrow> file_system option" where
  "create_dir_all fs p =
     (case make_dirs (fs_nodes fs) (fs_cwd fs) p of Some nd \<Rightarrow> Some (fs\<lparr>fs_nodes := nd\<rparr>) | None \<Rightarrow> None)"

section \<open>Lemmas\<close>

lemma map_Normal_inject [simp]: "map Normal xs = map Normal ys \<longleftrightarrow> xs = ys"
  by (rule inj_map_eq_map) (simp add: inj_def)

lemma abs_path_inject [simp]: "abs_path xs = abs_path ys \<longleftrightarrow> xs = ys"
  by (simp add: abs_path_def)

lemma abs_path_starts_with: "path_starts_with (abs_path xs) (abs_path ys) \<longleftrightarrow> take (length ys) xs = ys"
  by (simp add: path_starts_with_def abs_path_def take_map)

text \<open>Added directories disturb no lookup.\<close>

definition dirs_added :: "nodes \<Rightarrow> nodes \<Rightarrow> bool" where
  "dirs_added nd nd' \<longleftrightarrow> (\<forall>ns. nd' ns = nd ns \<or> nd ns = None \<and> nd' ns = Some Dir)"

lemma dirs_added_refl [simp]: "dirs_added nd nd"
  by (simp add: dirs_added_def)

lemma dirs_addedD: "dirs_added nd nd' \<Longrightarrow> nd ns = Some x \<Longrightarrow> nd' ns = Some x"
  unfolding dirs_added_def by (metis option.distinct(1))

lemma walk_dirs_added: "walk nd l cur p = Some q \<Longrightarrow> dirs_added nd nd' \<Longrightarrow> walk nd' l cur p = Some q"
proof (induction nd l cur p rule: walk.induct)
  case (5 nd l cur n r)
  then show ?case
    by (auto simp: dirs_addedD split: option.splits node.splits nat.splits if_splits)
qed auto

lemma make_dirs_added: "make_dirs nd cur p = Some nd' \<Longrightarrow> dirs_added nd nd'"
proof (induction nd cur p arbitrary: nd' rule: make_dirs.induct)
  case (5 nd cur n r)
  show ?case
  proof (cases "nd (cur @ [n])")
    case None
    with 5(1,4) have "dirs_added (nd(cur @ [n] \<mapsto> Dir)) nd'" by (simp add: fun_upd_def)
    with None show ?thesis by (auto simp: dirs_added_def split: if_splits)
  next
    case (Some x)
    with 5 show ?thesis by (cases x) (auto split: option.splits if_splits)
  qed
qed (auto simp: dirs_added_def)

text \<open>Opening an existing path for writing refers to the file the lookup finds.\<close>

lemma write_target_walk: "walk nd l cur p = Some q \<Longrightarrow> write_target nd l cur p = Some q' \<Longrightarrow> q' = q"
proof (induction nd l cur p rule: walk.induct)
  case (5 nd l cur n r)
  then show ?case by (auto split: option.splits node.splits nat.splits if_splits)
qed auto

lemma write_target_append:
  "walk nd l cur p = Some d \<Longrightarrow> r \<noteq> [] \<Longrightarrow> write_target nd l cur (p @ r) = Some q \<Longrightarrow> \<exists>l'. write_target nd l' d r = Some q"
proof (induction nd l cur p rule: walk.induct)
  case (5 nd l cur n r')
  then show ?case by (auto split: option.splits node.splits nat.splits if_splits)
qed auto

text \<open>A path without links: every directory on the way is one.\<close>

definition physical :: "nodes \<Rightarrow> string list \<Rightarrow> bool" where
  "physical nd ns \<longleftrightarrow> (\<forall>k < length ns. is_dir nd (take k ns)) \<and> (ns \<noteq> [] \<longrightarrow> (\<forall>t. nd ns \<noteq> Some (Link t)))"

lemma physical_snoc:
  "physical nd (ns @ [n]) \<longleftrightarrow> (\<forall>k \<le> length ns. is_dir nd (take k ns)) \<and> (\<forall>t. nd (ns @ [n]) \<noteq> Some (Link t))"
  by (auto simp: physical_def less_Suc_eq_le)

lemma physical_dirs: "physical nd ns \<Longrightarrow> is_dir nd ns \<Longrightarrow> k \<le> length ns \<Longrightarrow> is_dir nd (take k ns)"
  by (cases "k = length ns") (auto simp: physical_def)

lemma physical_butlast: "physical nd ns \<Longrightarrow> physical nd (butlast ns) \<and> is_dir nd (butlast ns)"
proof (cases ns rule: rev_cases)
  case (snoc xs x)
  assume "physical nd ns"
  then have d: "is_dir nd (take k xs)" if "k \<le> length xs" for k
    using that by (simp add: snoc physical_snoc)
  from d [of "length xs"] have "is_dir nd xs" by simp
  with d show ?thesis by (auto simp: physical_def snoc is_dir_def)
qed (simp add: physical_def is_dir_def)

lemma walk_physical: "walk nd l cur p = Some q \<Longrightarrow> physical nd cur \<Longrightarrow> is_dir nd cur \<Longrightarrow> physical nd q"
proof (induction nd l cur p rule: walk.induct)
  case (5 nd l cur n r)
  have "physical nd (cur @ [n])" if "nd (cur @ [n]) = Some x" "\<forall>t. x \<noteq> Link t" for x
    using that 5(4,5) by (auto simp: physical_snoc intro: physical_dirs)
  with 5 show ?case
    by (auto simp: is_dir_def split: option.splits node.splits nat.splits if_splits)
qed (auto simp: physical_butlast physical_def [of _ "[]"] is_dir_def [of _ "[]"])

text \<open>Below a directory without links, a path of names is written where it says.\<close>

lemma write_target_names:
  "write_target nd l d (map Normal ns) = Some q \<Longrightarrow>
   (\<And>k t. 0 < k \<Longrightarrow> k \<le> length ns \<Longrightarrow> nd (d @ take k ns) \<noteq> Some (Link t)) \<Longrightarrow> q = d @ ns"
proof (induction ns arbitrary: d)
  case (Cons n ns)
  have "nd (d @ [n]) \<noteq> Some (Link t)" for t using Cons.prems(2) [of 1] by simp
  moreover have "nd ((d @ [n]) @ take k ns) \<noteq> Some (Link t)" if "0 < k" "k \<le> length ns" for k t
    using Cons.prems(2) [of "Suc k"] that by simp
  ultimately show ?case
    using Cons.prems(1) Cons.IH [of "d @ [n]"] by (auto split: option.splits node.splits if_splits)
qed simp

end
