(* ===== verification/File_Tools.thy ===== *)
theory File_Tools
  imports File_System Shell "HOL-Library.Char_ord" "HOL-Library.List_Lexorder" "HOL-Library.Product_Lexorder"
begin

text \<open>
  The file tools, \<^verbatim>\<open>src/src/tools/builtin/file.rs\<close>: the validation of paths against the base directory, and the
  tools that read, write, list and patch.  A tool that panics returns \<open>None\<close>.  The text of a quotient
  with one decimal is an argument.
\<close>

section \<open>Paths\<close>

definition WORKSPACE_FILES :: "string list" where
  "WORKSPACE_FILES = [''HEARTBEAT.md'', ''MEMORY.md'', ''IDENTITY.md'', ''SOUL.md'', ''AGENTS.md'', ''USER.md'', ''README.md'']"

definition is_workspace_path :: "string \<Rightarrow> bool" where
  "is_workspace_path p \<longleftrightarrow>
     (case path_file_name (path_of p) of Some f \<Rightarrow> f | None \<Rightarrow> p) \<in> set WORKSPACE_FILES \<or>
     starts_with p ''daily/'' \<or> starts_with p ''context/''"

definition MAX_READ_SIZE :: nat where "MAX_READ_SIZE = 1024 * 1024"
definition MAX_WRITE_SIZE :: nat where "MAX_WRITE_SIZE = 5 * 1024 * 1024"
definition MAX_DIR_ENTRIES :: nat where "MAX_DIR_ENTRIES = 500"

definition lexical_step :: "path \<Rightarrow> component \<Rightarrow> path" where
  "lexical_step cs c =
     (case c of
        ParentDir \<Rightarrow> if cs \<noteq> [] \<and> (case last cs of Normal n \<Rightarrow> True | _ \<Rightarrow> False) then butlast cs else cs
      | CurDir \<Rightarrow> cs
      | _ \<Rightarrow> cs @ [c])"

definition normalize_lexical :: "path \<Rightarrow> path" where
  "normalize_lexical p = foldl lexical_step [] p"

definition canonical_or :: "file_system \<Rightarrow> path \<Rightarrow> path \<Rightarrow> path" where
  "canonical_or fs p q = (case canonicalize fs p of Some c \<Rightarrow> c | None \<Rightarrow> q)"

definition resolve_path :: "file_system \<Rightarrow> path \<Rightarrow> path option \<Rightarrow> path" where
  "resolve_path fs p base_dir =
     (if is_absolute p then canonical_or fs p (normalize_lexical p)
      else case base_dir of
        Some base \<Rightarrow> let joined = join_path base p in canonical_or fs joined (normalize_lexical joined)
      | None \<Rightarrow> normalize_lexical (join_path (current_dir fs) p))"

text \<open>The walk up to the nearest existing ancestor, collecting the names below it.\<close>

function nearest_ancestor :: "file_system \<Rightarrow> path \<Rightarrow> path \<Rightarrow> string list \<Rightarrow> path" where
  "nearest_ancestor fs resolved ancestor tail_parts =
     (if exists_path fs ancestor
      then foldl (\<lambda>r part. join_path r [Normal part]) (canonical_or fs ancestor ancestor) (rev tail_parts)
      else let tail_parts' = (case path_file_name ancestor of Some n \<Rightarrow> tail_parts @ [n] | None \<Rightarrow> tail_parts)
        in case path_parent ancestor of
             Some p \<Rightarrow> nearest_ancestor fs resolved p tail_parts'
           | None \<Rightarrow> resolved)"
  by pat_completeness auto
termination
  by (relation "measure (\<lambda>(_, _, a, _). length a)") (auto simp: path_parent_def split: if_splits)

declare nearest_ancestor.simps [simp del]

definition check_path :: "file_system \<Rightarrow> path \<Rightarrow> path" where
  "check_path fs resolved =
     (if exists_path fs resolved then canonical_or fs resolved resolved else nearest_ancestor fs resolved resolved [])"

definition validate_path :: "file_system \<Rightarrow> string \<Rightarrow> path option \<Rightarrow> (exec_error, path) result" where
  "validate_path fs path_str base_dir =
     (let resolved = resolve_path fs (path_of path_str) base_dir in
      case base_dir of
        None \<Rightarrow> Ok resolved
      | Some base \<Rightarrow>
          let base_canonical = canonical_or fs base (normalize_lexical base) in
          if path_starts_with (check_path fs resolved) base_canonical then Ok resolved
          else Err (NotAuthorized (''Path escapes sandbox: '' @ path_str)))"

section \<open>Reading\<close>

definition json_bool :: "json \<Rightarrow> string \<Rightarrow> bool option" where
  "json_bool v k = (case json_get v k of Some (JBool b) \<Rightarrow> Some b | _ \<Rightarrow> None)"

definition json_u64 :: "json \<Rightarrow> string \<Rightarrow> nat option" where
  "json_u64 v k = Option.bind (json_get v k) json_as_u64"

definition numbered_line :: "nat \<Rightarrow> string \<Rightarrow> string" where
  "numbered_line n line =
     replicate (6 - length (nat_str n)) (CHR '' '') @ nat_str n @ [CHR 0xE2, CHR 0x94, CHR 0x82, CHR '' ''] @ line"

text \<open>The lines to show, from offset and limit, with the wrap-around of the sum.\<close>

definition line_range :: "nat \<Rightarrow> nat option \<Rightarrow> nat \<Rightarrow> nat \<times> nat" where
  "line_range offset limit total_lines =
     (let start_line = (if offset > 0 then offset - 1 else 0) in
      (start_line, case limit of Some lim \<Rightarrow> min ((start_line + lim) mod 2 ^ 64) total_lines | None \<Rightarrow> total_lines))"

definition shown_lines :: "nat \<Rightarrow> nat \<Rightarrow> string list \<Rightarrow> string" where
  "shown_lines start_line end_line lines =
     join [CHR 0x0A] (map (\<lambda>(i, l). numbered_line (start_line + i + 1) l)
       (enumerate 0 (take (end_line - start_line) (drop start_line lines))))"

text \<open>Slicing with a start beyond the end panics.\<close>

definition read_file_execute :: "file_system \<Rightarrow> path option \<Rightarrow> json \<Rightarrow> (exec_error, json) result option" where
  "read_file_execute fs base params =
     (case require_str params ''path'' of
        Err e \<Rightarrow> Some (Err e)
      | Ok path_str \<Rightarrow>
          let offset = (case json_u64 params ''offset'' of Some n \<Rightarrow> n | None \<Rightarrow> 0); limit = json_u64 params ''limit'' in
          case validate_path fs path_str base of
            Err e \<Rightarrow> Some (Err e)
          | Ok p \<Rightarrow>
              (case locate fs p of
                 None \<Rightarrow> Some (Err (ExecFailed (''Cannot access file: '' @ fs_error fs p)))
               | Some ns \<Rightarrow>
                   let len = (case fs_nodes fs ns of Some (File s) \<Rightarrow> length s | _ \<Rightarrow> 0) in
                   if len > MAX_READ_SIZE
                   then Some (Err (ExecFailed (''File too large ('' @ nat_str len @ '' bytes). Maximum is '' @
                          nat_str MAX_READ_SIZE @ '' bytes. Use offset/limit for partial reads.'')))
                   else case read_to_string fs p of
                     None \<Rightarrow> Some (Err (ExecFailed (''Failed to read file: '' @ fs_error fs p)))
                   | Some content \<Rightarrow>
                       let lines = str_lines content; (start_line, end_line) = line_range offset limit (length lines)
                       in if start_line \<le> end_line
                          then Some (Ok (JObject
                            [(''content'', JString (shown_lines start_line end_line lines)),
                             (''total_lines'', JNumber (nat_str (length lines))),
                             (''lines_shown'', JNumber (nat_str (end_line - start_line))),
                             (''path'', JString (path_display p))]))
                          else None))"

section \<open>Writing\<close>

definition write_file_execute ::
  "file_system \<Rightarrow> path option \<Rightarrow> json \<Rightarrow> file_system \<times> (exec_error, json) result" where
  "write_file_execute fs base params =
     (case require_str params ''path'' of
        Err e \<Rightarrow> (fs, Err e)
      | Ok path_str \<Rightarrow>
          if is_workspace_path path_str
          then (fs, Err (InvalidParams ([CHR 0x27] @ path_str @ [CHR 0x27] @
            '' is a workspace memory file. Use the memory_write tool instead of write_file. For HEARTBEAT.md use target='' @
            [CHR 0x27] @ ''heartbeat'' @ [CHR 0x27] @ '', for MEMORY.md use target='' @ [CHR 0x27] @ ''memory'' @ [CHR 0x27] @ ''.'')))
          else case require_str params ''content'' of
            Err e \<Rightarrow> (fs, Err e)
          | Ok content \<Rightarrow>
              if length content > MAX_WRITE_SIZE
              then (fs, Err (InvalidParams (''Content too large ('' @ nat_str (length content) @ '' bytes). Maximum is '' @
                     nat_str MAX_WRITE_SIZE @ '' bytes.'')))
              else case validate_path fs path_str base of
                Err e \<Rightarrow> (fs, Err e)
              | Ok p \<Rightarrow>
                  (case (case path_parent p of Some q \<Rightarrow> create_dir_all fs q | None \<Rightarrow> Some fs) of
                     None \<Rightarrow> (fs, Err (ExecFailed (''Failed to create directories: '' @ fs_error fs p)))
                   | Some fs1 \<Rightarrow>
                       (case write_file fs1 p content of
                          None \<Rightarrow> (fs1, Err (ExecFailed (''Failed to write file: '' @ fs_error fs p)))
                        | Some fs2 \<Rightarrow>
                            (fs2, Ok (JObject [(''path'', JString (path_display p)),
                               (''bytes_written'', JNumber (nat_str (length content))), (''success'', JBool True)])))))"

section \<open>Listing\<close>

definition format_size :: "(nat \<Rightarrow> nat \<Rightarrow> string) \<Rightarrow> nat \<Rightarrow> string" where
  "format_size one_decimal bytes =
     (if bytes \<ge> 1024 * 1024 * 1024 then one_decimal bytes (1024 * 1024 * 1024) @ ''GB''
      else if bytes \<ge> 1024 * 1024 then one_decimal bytes (1024 * 1024) @ ''MB''
      else if bytes \<ge> 1024 then one_decimal bytes 1024 @ ''KB''
      else nat_str bytes @ ''B'')"

definition SKIPPED_DIRS :: "string list" where
  "SKIPPED_DIRS = [''node_modules'', ''target'', ''.git'', ''__pycache__'', ''venv'', ''.venv'']"

definition node_len :: "node \<Rightarrow> nat" where
  "node_len x = (case x of File s \<Rightarrow> length s | Link t \<Rightarrow> length (path_display t) | Dir \<Rightarrow> 0)"

definition read_dir :: "file_system \<Rightarrow> path \<Rightarrow> (string list \<times> string list) option" where
  "read_dir fs p =
     (case locate fs p of
        Some ns \<Rightarrow> if is_dir (fs_nodes fs) ns then Some (ns, fs_order fs ns) else None
      | None \<Rightarrow> None)"

text \<open>Directory by directory; \<open>depth\<close> counts the levels left.\<close>

function (sequential)
  list_dir_inner :: "file_system \<Rightarrow> (nat \<Rightarrow> nat \<Rightarrow> string) \<Rightarrow> path \<Rightarrow> bool \<Rightarrow> nat \<Rightarrow> path \<Rightarrow> string list \<Rightarrow> (exec_error, string list) result" and
  list_names :: "file_system \<Rightarrow> (nat \<Rightarrow> nat \<Rightarrow> string) \<Rightarrow> path \<Rightarrow> bool \<Rightarrow> nat \<Rightarrow> path \<Rightarrow> string list \<Rightarrow> string list \<Rightarrow> string list \<Rightarrow> (exec_error, string list) result" where
  "list_dir_inner fs fmt base recursive depth p entries =
     (if length entries \<ge> MAX_DIR_ENTRIES then Ok entries
      else case read_dir fs p of
        None \<Rightarrow> Err (ExecFailed (''Failed to read directory: '' @ fs_error fs p))
      | Some (ns, names) \<Rightarrow> list_names fs fmt base recursive depth p ns names entries)"
| "list_names fs fmt base recursive depth p ns [] entries = Ok entries"
| "list_names fs fmt base recursive depth p ns (n # names) entries =
     (if length entries \<ge> MAX_DIR_ENTRIES then Ok entries
      else let entry_path = p @ [Normal n]; relative = path_display (drop (length base) entry_path);
               md = fs_nodes fs (ns @ [n]); dir = (md = Some Dir);
               display = (if dir then relative @ ''/''
                          else relative @ '' ('' @ format_size fmt (case md of Some x \<Rightarrow> node_len x | None \<Rightarrow> 0) @ '')'');
               entries' = entries @ [display]
        in if recursive \<and> dir \<and> 0 < depth \<and> n \<notin> set SKIPPED_DIRS
           then case list_dir_inner fs fmt base recursive (depth - 1) entry_path entries' of
                  Err e \<Rightarrow> Err e
                | Ok entries'' \<Rightarrow> list_names fs fmt base recursive depth p ns names entries''
           else list_names fs fmt base recursive depth p ns names entries')"
  by pat_completeness auto
termination
  by (relation "measures [\<lambda>x. case x of Inl (fs, fmt, b, r, d, p, es) \<Rightarrow> d | Inr (fs, fmt, b, r, d, p, ns, names, es) \<Rightarrow> d,
        \<lambda>x. case x of Inl _ \<Rightarrow> 1 | Inr _ \<Rightarrow> 0,
        \<lambda>x. case x of Inl _ \<Rightarrow> 0 | Inr (fs, fmt, b, r, d, p, ns, names, es) \<Rightarrow> length names]") auto

declare list_dir_inner.simps [simp del]

definition list_dir_execute ::
  "(nat \<Rightarrow> nat \<Rightarrow> string) \<Rightarrow> file_system \<Rightarrow> path option \<Rightarrow> json \<Rightarrow> (exec_error, json) result" where
  "list_dir_execute fmt fs base params =
     (let path_str = (case json_str params ''path'' of Some s \<Rightarrow> s | None \<Rightarrow> ''.'');
          recursive = (case json_bool params ''recursive'' of Some b \<Rightarrow> b | None \<Rightarrow> False);
          max_depth = (case json_u64 params ''max_depth'' of Some n \<Rightarrow> n | None \<Rightarrow> 3)
      in case validate_path fs path_str base of
        Err e \<Rightarrow> Err e
      | Ok p \<Rightarrow>
          (case list_dir_inner fs fmt p recursive max_depth p [] of
             Err e \<Rightarrow> Err e
           | Ok entries \<Rightarrow>
               let sorted = sort_key (\<lambda>e. (\<not> ends_with e ''/'', e)) entries;
                   truncated = (length sorted > MAX_DIR_ENTRIES);
                   shown = (if truncated then take MAX_DIR_ENTRIES sorted else sorted)
               in Ok (JObject [(''path'', JString (path_display p)), (''entries'', JArray (map JString shown)),
                    (''count'', JNumber (nat_str (length shown))), (''truncated'', JBool truncated)])))"

section \<open>Patching\<close>

text \<open>\<open>replacen\<close> with one replacement, and the number of matches.\<close>

fun replace_first :: "string \<Rightarrow> string \<Rightarrow> string \<Rightarrow> string" where
  "replace_first p r [] = (if p = [] then r else [])"
| "replace_first p r (x # s) = (if starts_with (x # s) p then r @ drop (length p) (x # s) else x # replace_first p r s)"

function count_matches :: "string \<Rightarrow> string \<Rightarrow> nat" where
  "count_matches p s =
     (if p = [] then length s + 1
      else if s = [] then 0
      else if starts_with s p then 1 + count_matches p (drop (length p) s)
      else count_matches p (tl s))"
  by pat_completeness auto
termination
  by (relation "measure (\<lambda>(p, s). length s)") auto

declare count_matches.simps [simp del]

definition apply_patch_execute ::
  "file_system \<Rightarrow> path option \<Rightarrow> json \<Rightarrow> file_system \<times> (exec_error, json) result" where
  "apply_patch_execute fs base params =
     (case (require_str params ''path'', require_str params ''old_string'', require_str params ''new_string'') of
        (Err e, _, _) \<Rightarrow> (fs, Err e)
      | (_, Err e, _) \<Rightarrow> (fs, Err e)
      | (_, _, Err e) \<Rightarrow> (fs, Err e)
      | (Ok path_str, Ok old_string, Ok new_string) \<Rightarrow>
          let replace_all = (case json_bool params ''replace_all'' of Some b \<Rightarrow> b | None \<Rightarrow> False) in
          case validate_path fs path_str base of
            Err e \<Rightarrow> (fs, Err e)
          | Ok p \<Rightarrow>
              (case read_to_string fs p of
                 None \<Rightarrow> (fs, Err (ExecFailed (''Failed to read file: '' @ fs_error fs p)))
               | Some content \<Rightarrow>
                   if \<not> contains content old_string
                   then (fs, Err (ExecFailed (''Could not find the specified text in '' @ path_display p @
                          ''. Make sure old_string matches exactly.'')))
                   else let new_content = (if replace_all then replace_str content old_string new_string
                                           else replace_first old_string new_string content);
                            replacements = (if replace_all then count_matches old_string content else 1)
                   in case write_file fs p new_content of
                        None \<Rightarrow> (fs, Err (ExecFailed (''Failed to write file: '' @ fs_error fs p)))
                      | Some fs' \<Rightarrow>
                          (fs', Ok (JObject [(''path'', JString (path_display p)),
                             (''replacements'', JNumber (nat_str replacements)), (''success'', JBool True)]))))"

section \<open>Confinement\<close>

definition inside :: "string list \<Rightarrow> string list \<Rightarrow> bool" where
  "inside b ns \<longleftrightarrow> take (length b) ns = b"

lemma validate_check:
  assumes "validate_path fs s (Some base) = Ok r" and "canonicalize fs base = Some (abs_path b)"
  shows "path_starts_with (check_path fs r) (abs_path b)"
  using assms by (auto simp: validate_path_def canonical_or_def Let_def split: if_splits)

text \<open>What an accepted path refers to, if it exists.\<close>

lemma validate_existing:
  assumes "validate_path fs s (Some base) = Ok r" and "canonicalize fs base = Some (abs_path b)" and "locate fs r = Some q"
  shows "inside b q"
  using validate_check [OF assms(1,2)] assms(3)
  by (simp add: check_path_def exists_path_def canonical_or_def canonicalize_def abs_path_starts_with inside_def)

text \<open>Names appended one by one.\<close>

lemma join_names: "p \<noteq> [] \<Longrightarrow> foldl (\<lambda>r part. join_path r [Normal part]) p ns = p @ map Normal ns"
  by (induction ns rule: rev_induct) (simp_all add: join_path_def is_absolute_def drop_cur_def)

text \<open>A path without dots, and what the walk up makes of it.\<close>

definition plain_path :: "path \<Rightarrow> bool" where
  "plain_path p \<longleftrightarrow> CurDir \<notin> set p \<and> ParentDir \<notin> set p \<and> RootDir \<notin> set (tl p)"

lemma plain_snoc: "plain_path (p @ [c]) \<longleftrightarrow> plain_path p \<and> c \<noteq> CurDir \<and> c \<noteq> ParentDir \<and> (p \<noteq> [] \<longrightarrow> c \<noteq> RootDir)"
  by (cases p) (auto simp: plain_path_def)

lemma plain_single [simp]: "plain_path [c] \<longleftrightarrow> c \<noteq> CurDir \<and> c \<noteq> ParentDir"
  by (auto simp: plain_path_def)

lemma nearest_ancestor_shape:
  assumes "plain_path anc"
  shows "nearest_ancestor fs resolved anc tail_parts = resolved \<and> \<not> is_absolute anc \<or>
   (\<exists>d ns a. nearest_ancestor fs resolved anc tail_parts = abs_path (d @ ns @ rev tail_parts) \<and>
      locate fs a = Some d \<and> anc = a @ map Normal ns)"
  using assms
proof (induction fs resolved anc tail_parts rule: nearest_ancestor.induct)
  case (1 fs resolved anc tail_parts)
  show ?case
  proof (cases "exists_path fs anc")
    case True
    then obtain d where d: "locate fs anc = Some d" by (auto simp: exists_path_def)
    then have "nearest_ancestor fs resolved anc tail_parts = abs_path (d @ [] @ rev tail_parts)"
      using True join_names [of "abs_path d" "rev tail_parts"]
      by (subst nearest_ancestor.simps) (simp add: canonical_or_def canonicalize_def abs_path_def)
    with d show ?thesis by (metis append_Nil2 list.simps(8))
  next
    case False
    show ?thesis
    proof (cases "path_parent anc")
      case None
      have "\<not> is_absolute anc"
      proof
        assume "is_absolute anc"
        with None 1(2) have "anc = [RootDir]"
          by (cases anc) (auto simp: is_absolute_def path_parent_def plain_path_def split: if_splits component.splits, metis last_in_set)
        with False show False by (simp add: exists_path_def locate_def)
      qed
      then show ?thesis using False None by (subst nearest_ancestor.simps) simp
    next
      case (Some p)
      then obtain n where anc: "anc = p @ [Normal n]"
        using 1(2) unfolding path_parent_def
        by (cases anc rule: rev_cases) (auto simp: plain_snoc split: if_splits, metis component.exhaust)
      then have f: "path_file_name anc = Some n" by (simp add: path_file_name_def)
      have up: "nearest_ancestor fs resolved anc tail_parts = nearest_ancestor fs resolved p (tail_parts @ [n])"
        using False Some f by (subst nearest_ancestor.simps) simp
      have "plain_path p" using 1(2) by (simp add: anc plain_snoc)
      with 1(1) [OF False refl Some] consider (none) "nearest_ancestor fs resolved p (tail_parts @ [n]) = resolved" "\<not> is_absolute p" |
        (found) d ns a where "nearest_ancestor fs resolved p (tail_parts @ [n]) = abs_path (d @ ns @ rev (tail_parts @ [n]))"
          "locate fs a = Some d" "p = a @ map Normal ns"
        by (auto simp: f)
      then show ?thesis
      proof cases
        case found
        have "nearest_ancestor fs resolved anc tail_parts = abs_path (d @ (ns @ [n]) @ rev tail_parts)"
          using found(1) up by simp
        moreover have "anc = a @ map Normal (ns @ [n])" using found(3) anc by simp
        ultimately show ?thesis using found(2) by blast
      next
        case none
        then have "\<not> is_absolute anc" by (cases p) (simp_all add: anc is_absolute_def split: component.splits)
        with none up show ?thesis by simp
      qed
    qed
  qed
qed

text \<open>The root is only at the start of a path.\<close>

definition rooted :: "path \<Rightarrow> bool" where
  "rooted p \<longleftrightarrow> RootDir \<notin> set (tl p)"

lemma rooted_snoc: "rooted (p @ [c]) \<longleftrightarrow> rooted p \<and> (p \<noteq> [] \<longrightarrow> c \<noteq> RootDir)"
  by (cases p) (auto simp: rooted_def)

lemma path_of_rooted: "rooted (path_of s) \<and> (\<not> is_absolute (path_of s) \<longrightarrow> RootDir \<notin> set (path_of s))"
proof -
  have "component_of w \<noteq> RootDir" "RootDir \<noteq> component_of w" for w by (simp_all add: component_of_def)
  then show ?thesis
    by (auto simp: path_of_def rooted_def drop_cur_def is_absolute_def Let_def split: list.splits component.splits)
qed

lemma abs_path_rooted [simp]: "rooted (abs_path ns)"
  by (auto simp: rooted_def abs_path_def)

lemma join_path_rooted: "rooted b \<Longrightarrow> rooted (join_path b (path_of s))"
  using path_of_rooted [of s] by (cases b) (auto simp: join_path_def rooted_def drop_cur_def)

lemma plain_normalize: "rooted p \<Longrightarrow> plain_path (normalize_lexical p)"
proof (induction p rule: rev_induct)
  case (snoc c p)
  let ?n = "normalize_lexical p"
  have n: "normalize_lexical (p @ [c]) = lexical_step ?n c" by (simp add: normalize_lexical_def)
  have "plain_path ?n" "p = [] \<or> c \<noteq> RootDir" using snoc by (auto simp: rooted_snoc)
  moreover have "plain_path (butlast ?n)" if "plain_path ?n"
    using that by (cases ?n rule: rev_cases) (simp_all add: plain_snoc)
  moreover have "?n = []" if "p = []" using that by (simp add: normalize_lexical_def)
  ultimately show ?case
    unfolding n by (auto simp: lexical_step_def plain_snoc split: component.splits)
qed (simp add: plain_path_def normalize_lexical_def)

lemma plain_abs [simp]: "plain_path (abs_path ns)"
  by (auto simp: plain_path_def abs_path_def)

lemma resolve_plain: "(\<And>b. base = Some b \<Longrightarrow> rooted b) \<Longrightarrow> plain_path (resolve_path fs (path_of s) base)"
  using path_of_rooted [of s]
  by (auto simp: resolve_path_def canonical_or_def canonicalize_def current_dir_def Let_def
      intro!: plain_normalize join_path_rooted split: option.splits)

text \<open>A path that is accepted and then written through, with the directories made first.\<close>

lemma validated_write_inside:
  assumes ok: "validate_path fs s (Some base) = Ok r" and base: "canonicalize fs base = Some (abs_path b)" "rooted base"
    and cwd: "physical (fs_nodes fs) (fs_cwd fs)" "is_dir (fs_nodes fs) (fs_cwd fs)"
    and links: "\<And>ns t. inside b ns \<Longrightarrow> fs_nodes fs ns \<noteq> Some (Link t)"
    and added: "dirs_added (fs_nodes fs) nd" and target: "write_target nd MAX_LINKS (fs_cwd fs) r = Some q"
  shows "inside b q"
proof (cases "locate fs r")
  case (Some x)
  then have "walk nd MAX_LINKS (fs_cwd fs) r = Some x"
    using walk_dirs_added [OF _ added] by (simp add: locate_def split: if_splits)
  then have "q = x" by (rule write_target_walk [OF _ target])
  with validate_existing [OF ok base(1) Some] show ?thesis by simp
next
  case None
  have plain: "plain_path r"
    using ok base(2) resolve_plain [of "Some base" fs s] by (auto simp: validate_path_def Let_def split: if_splits)
  have chk: "path_starts_with (nearest_ancestor fs r r []) (abs_path b)"
    using validate_check [OF ok base(1)] None by (simp add: check_path_def exists_path_def)
  have b: "physical (fs_nodes fs) b"
    using base(1) walk_physical [OF _ cwd] by (auto simp: canonicalize_def locate_def split: if_splits)
  have free: "fs_nodes fs x \<noteq> Some (Link t)" if "inside b y" "x = take k y" "x \<noteq> []" for x y k t
  proof (cases "length b \<le> k")
    case True
    then have "inside b x" using that by (auto simp: inside_def min_def)
    then show ?thesis by (rule links)
  next
    case False
    then have "x = take k b" using that by (metis inside_def linorder_le_cases min.absorb1 take_take)
    with False b have "is_dir (fs_nodes fs) x" by (simp add: physical_def)
    with \<open>x \<noteq> []\<close> show ?thesis by (auto simp: is_dir_def)
  qed
  consider (rel) "nearest_ancestor fs r r [] = r" "\<not> is_absolute r" | (found) d ns a where
    "nearest_ancestor fs r r [] = abs_path (d @ ns)" "locate fs a = Some d" "r = a @ map Normal ns"
    using nearest_ancestor_shape [OF plain, of fs r "[]"] by auto
  then show ?thesis
  proof cases
    case found
    have ib: "inside b (d @ ns)" using chk found(1) by (simp add: abs_path_starts_with inside_def)
    have "ns \<noteq> []" using None found(2,3) by auto
    moreover have "walk nd MAX_LINKS (fs_cwd fs) a = Some d"
      using found(2) walk_dirs_added [OF _ added] by (simp add: locate_def split: if_splits)
    ultimately obtain l where "write_target nd l d (map Normal ns) = Some q"
      using write_target_append [of nd MAX_LINKS "fs_cwd fs" a d "map Normal ns" q] target found(3) by auto
    moreover have "nd (d @ take k ns) \<noteq> Some (Link t)" if "0 < k" "k \<le> length ns" for k t
    proof -
      have "d @ take k ns = take (length d + k) (d @ ns)" by simp
      moreover have "d @ take k ns \<noteq> []" using that by auto
      ultimately have "fs_nodes fs (d @ take k ns) \<noteq> Some (Link t)" using free [OF ib] by blast
      with added show ?thesis unfolding dirs_added_def by (metis node.distinct(3) option.inject)
    qed
    ultimately have "q = d @ ns" by (rule write_target_names)
    with ib show ?thesis by simp
  next
    case rel
    then show ?thesis
      using chk by (cases r) (simp_all add: path_starts_with_def abs_path_def is_absolute_def)
  qed
qed

section \<open>Following directories\<close>

lemma dirs_down:
  assumes "\<And>k. 0 < k \<Longrightarrow> k \<le> length ns \<Longrightarrow> nd (cur @ take k ns) = Some Dir"
  shows "walk nd l cur (map Normal ns @ r) = walk nd l (cur @ ns) r"
    and "write_target nd l cur (map Normal ns @ r) = write_target nd l (cur @ ns) r"
    and "make_dirs nd cur (map Normal ns @ r) = make_dirs nd (cur @ ns) r"
proof -
  have "walk nd l cur (map Normal ns @ r) = walk nd l (cur @ ns) r \<and>
    write_target nd l cur (map Normal ns @ r) = write_target nd l (cur @ ns) r \<and>
    make_dirs nd cur (map Normal ns @ r) = make_dirs nd (cur @ ns) r"
    using assms
  proof (induction ns arbitrary: cur)
    case (Cons n ns)
    have "nd (cur @ [n]) = Some Dir" using Cons.prems [of 1] by simp
    moreover have "nd ((cur @ [n]) @ take k ns) = Some Dir" if "0 < k" "k \<le> length ns" for k
      using Cons.prems [of "Suc k"] that by simp
    ultimately show ?case using Cons.IH [of "cur @ [n]"] by simp
  qed simp
  then show "walk nd l cur (map Normal ns @ r) = walk nd l (cur @ ns) r"
    "write_target nd l cur (map Normal ns @ r) = write_target nd l (cur @ ns) r"
    "make_dirs nd cur (map Normal ns @ r) = make_dirs nd (cur @ ns) r" by simp_all
qed

lemma physical_dirs_at: "physical nd ns \<Longrightarrow> is_dir nd ns \<Longrightarrow> 0 < k \<Longrightarrow> k \<le> length ns \<Longrightarrow> nd ([] @ take k ns) = Some Dir"
  using physical_dirs [of nd ns k] by (auto simp: is_dir_def)

lemma physical_down:
  assumes "physical nd ns" and "is_dir nd ns"
  shows "walk nd l [] (map Normal ns @ r) = walk nd l ns r"
    and "write_target nd l [] (map Normal ns @ r) = write_target nd l ns r"
    and "make_dirs nd [] (map Normal ns @ r) = make_dirs nd ns r"
  using dirs_down [of ns nd "[]"] physical_dirs_at [OF assms] by simp_all

section \<open>After a write\<close>

lemma write_target_file:
  "write_target nd l cur p = Some q \<Longrightarrow> nd q = None \<or> (\<exists>s. nd q = Some (File s))"
proof (induction nd l cur p rule: write_target.induct)
  case (5 nd l cur n r)
  then show ?case by (auto split: option.splits node.splits nat.splits if_splits)
qed auto

lemma walk_after_write:
  "write_target nd l cur p = Some q \<Longrightarrow> nd q = None \<or> (\<exists>s. nd q = Some (File s)) \<Longrightarrow> walk (nd(q \<mapsto> File s)) l cur p = Some q"
proof (induction nd l cur p rule: write_target.induct)
  case (5 nd l cur n r)
  then show ?case by (auto split: option.splits node.splits nat.splits if_splits)
qed auto

lemma write_then_read:
  assumes "write_file fs p s = Some fs'"
  shows "read_to_string fs' p = Some s"
proof -
  obtain q where q: "write_target (fs_nodes fs) MAX_LINKS (fs_cwd fs) p = Some q"
    "fs' = fs\<lparr>fs_nodes := (fs_nodes fs)(q \<mapsto> File s)\<rparr>"
    using assms by (auto simp: write_file_def split: option.splits)
  moreover have "p \<noteq> []" using q(1) by auto
  ultimately show ?thesis
    using walk_after_write [OF q(1) write_target_file [OF q(1)]] by (simp add: read_to_string_def locate_def)
qed

section \<open>Listings and patches\<close>

definition entries_bounded :: "(exec_error, string list) result \<Rightarrow> bool" where
  "entries_bounded r \<longleftrightarrow> (case r of Ok es \<Rightarrow> length es \<le> MAX_DIR_ENTRIES | Err _ \<Rightarrow> True)"

lemma entries_bounded_simps [simp]: "entries_bounded (Err e)" "entries_bounded (Ok es) \<longleftrightarrow> length es \<le> MAX_DIR_ENTRIES"
  by (simp_all add: entries_bounded_def)

lemma list_dir_bound:
  "length es \<le> MAX_DIR_ENTRIES \<Longrightarrow> entries_bounded (list_dir_inner fs fmt base rec d p es)"
  "length es \<le> MAX_DIR_ENTRIES \<Longrightarrow> entries_bounded (list_names fs fmt base rec d p ns names es)"
proof (induction fs fmt base rec d p es and fs fmt base rec d p ns names es rule: list_dir_inner_list_names.induct)
  case (1 fs fmt base rec d p es)
  then show ?case by (auto simp: list_dir_inner.simps split: option.splits)
next
  case (3 fs fmt base rec d p ns n names es)
  show ?case
  proof (cases "MAX_DIR_ENTRIES \<le> length es")
    case False
    note IH = 3(1-3) [OF False refl refl refl refl refl refl]
    from False have l: "length (es @ [x]) \<le> MAX_DIR_ENTRIES" for x by simp
    show ?thesis
    proof (cases "rec \<and> fs_nodes fs (ns @ [n]) = Some Dir \<and> 0 < d \<and> n \<notin> set SKIPPED_DIRS")
      case True
      from IH(1) [OF True l] IH(2) [OF True] show ?thesis
        unfolding list_names.simps Let_def if_not_P [OF False] if_P [OF True]
        by (auto simp only: entries_bounded_simps split: sum.split)
    next
      case c: False
      from IH(3) [OF c l] show ?thesis
        unfolding list_names.simps Let_def if_not_P [OF False] if_not_P [OF c] .
    qed
  qed (use 3(4) in simp)
qed simp

lemma replace_first_at:
  "contains s p \<Longrightarrow> \<exists>a b. s = a @ p @ b \<and> replace_first p r s = a @ r @ b \<and> (\<forall>a' b'. s = a' @ p @ b' \<longrightarrow> length a \<le> length a')"
proof (induction p r s rule: replace_first.induct)
  case (2 p r x s)
  show ?case
  proof (cases "starts_with (x # s) p")
    case True
    then have "x # s = [] @ p @ drop (length p) (x # s)" by (simp add: starts_with_iff) (metis append_eq_conv_conj)
    with True show ?thesis by (intro exI [of _ "[]"] exI [of _ "drop (length p) (x # s)"]) auto
  next
    case False
    with 2 obtain a b where "s = a @ p @ b" "replace_first p r s = a @ r @ b" "\<forall>a' b'. s = a' @ p @ b' \<longrightarrow> length a \<le> length a'"
      by auto
    then show ?thesis
      using False by (intro exI [of _ "x # a"] exI [of _ b]) (auto simp: starts_with_iff Cons_eq_append_conv)
  qed
qed simp

section \<open>Samples\<close>

text \<open>A sandbox \<open>/box\<close> with a file, and a link that points to a missing file outside it.\<close>

definition sample_nodes :: nodes where
  "sample_nodes = [[''box''] \<mapsto> Dir, [''etc''] \<mapsto> Dir, [''box'', ''a''] \<mapsto> File ''hello'',
     [''box'', ''out''] \<mapsto> Link (abs_path [''etc'', ''new''])]"

definition sample_fs :: file_system where
  "sample_fs = \<lparr>fs_nodes = sample_nodes, fs_cwd = [], fs_order = (\<lambda>_. []), fs_error = (\<lambda>_. ''missing'')\<rparr>"

definition sample_args :: "string \<Rightarrow> json" where
  "sample_args p = JObject [(''path'', JString p), (''content'', JString ''x''), (''offset'', JNumber ''9'')]"

lemma sample_paths:
  "path_of ''a'' = [Normal ''a'']" "path_of ''out'' = [Normal ''out'']" "path_of ''b'' = [Normal ''b'']"
  by (simp_all add: path_of_def component_of_def drop_cur_def split_on_def starts_with_def)

lemma sample_workspace: "\<not> is_workspace_path ''out''" "\<not> is_workspace_path ''b''"
  unfolding is_workspace_path_def sample_paths
  by (simp_all add: path_file_name_def WORKSPACE_FILES_def starts_with_def)

lemma sample_base: "canonicalize sample_fs (abs_path [''box'']) = Some (abs_path [''box''])"
  by (simp add: canonicalize_def locate_def abs_path_def sample_fs_def sample_nodes_def)

lemma sample_json:
  "require_str (sample_args p) ''path'' = Ok p" "require_str (sample_args p) ''content'' = Ok ''x''"
  "json_u64 (sample_args p) ''offset'' = Some 9" "json_u64 (sample_args p) ''limit'' = None"
  by (simp_all add: sample_args_def require_str_def json_str_def json_get_def json_as_str_def json_u64_def json_as_u64_def
      is_digit_def parse_digits_def char_code_def)

section \<open>Properties\<close>

text \<open>
  Reading stays in the sandbox.  What \<open>read_file\<close> returns with a base directory set are numbered lines
  of one regular file whose location, with every link resolved, is below the resolved base directory;
  the file is at most a megabyte.
\<close>

theorem reads_confined:
  assumes "read_file_execute fs (Some base) params = Some (Ok v)" and "canonicalize fs base = Some (abs_path b)"
  shows "\<exists>q s i j. fs_nodes fs q = Some (File s) \<and> inside b q \<and> length s \<le> MAX_READ_SIZE \<and>
    json_get v ''content'' = Some (JString (shown_lines i j (str_lines s)))"
proof -
  obtain path_str r q s where path: "validate_path fs path_str (Some base) = Ok r" "locate fs r = Some q"
    "fs_nodes fs q = Some (File s)" "length s \<le> MAX_READ_SIZE"
    and c: "\<exists>i j. json_get v ''content'' = Some (JString (shown_lines i j (str_lines s)))"
    using assms(1)
    by (auto simp: read_file_execute_def read_to_string_def Let_def json_get_def not_less
        split: sum.splits option.splits if_splits node.splits prod.splits) blast+
  have "inside b q" by (rule validate_existing [OF path(1) assms(2) path(2)])
  with path c show ?thesis by blast
qed

text \<open>
  C10: Writing stays in the sandbox while there are no symbolic links in it.  A successful \<open>write_file\<close> with
  a base directory set puts the content into one file below the resolved base directory, makes
  directories where nothing was, and changes nothing else.
\<close>

theorem writes_confined:
  assumes "write_file_execute fs (Some base) params = (fs', Ok v)" and "canonicalize fs base = Some (abs_path b)"
    and "rooted base" and "physical (fs_nodes fs) (fs_cwd fs)" and "is_dir (fs_nodes fs) (fs_cwd fs)"
    and "\<And>ns t. inside b ns \<Longrightarrow> fs_nodes fs ns \<noteq> Some (Link t)"
  shows "\<exists>q content. require_str params ''content'' = Ok content \<and> inside b q \<and> fs_nodes fs' q = Some (File content) \<and>
    (\<forall>ns. ns \<noteq> q \<longrightarrow> fs_nodes fs' ns = fs_nodes fs ns \<or> fs_nodes fs ns = None \<and> fs_nodes fs' ns = Some Dir)"
proof -
  obtain path_str content r fs1 where w: "require_str params ''content'' = Ok content"
    "validate_path fs path_str (Some base) = Ok r"
    "(case path_parent r of Some p \<Rightarrow> create_dir_all fs p | None \<Rightarrow> Some fs) = Some fs1" "write_file fs1 r content = Some fs'"
    using assms(1) by (auto simp: write_file_execute_def split: sum.splits option.splits if_splits)
  have added: "dirs_added (fs_nodes fs) (fs_nodes fs1)" and cwd: "fs_cwd fs1 = fs_cwd fs"
    using w(3) by (auto simp: create_dir_all_def dest: make_dirs_added split: option.splits)
  obtain q where q: "write_target (fs_nodes fs1) MAX_LINKS (fs_cwd fs) r = Some q"
    "fs_nodes fs' = (fs_nodes fs1)(q \<mapsto> File content)"
    using w(4) by (auto simp: write_file_def cwd split: option.splits)
  have "inside b q" by (rule validated_write_inside [OF w(2) assms(2-6) added q(1)])
  with w(1) q(2) added show ?thesis by (intro exI [of _ q] exI [of _ content]) (auto simp: dirs_added_def)
qed

text \<open>
  C35: A dangling link leads out of the sandbox.  When the base directory holds a link to a missing file
  in some directory outside, \<open>write_file\<close> accepts the link as a path below the base, since its nearest
  existing ancestor is the base itself, and the write, which follows the link, creates the file outside.
\<close>

theorem dangling_link_escapes:
  assumes "physical (fs_nodes fs) b" and "is_dir (fs_nodes fs) b" and "physical (fs_nodes fs) d" and "is_dir (fs_nodes fs) d"
    and "fs_nodes fs (b @ [l]) = Some (Link (abs_path (d @ [n])))" and "fs_nodes fs (d @ [n]) = None"
    and "require_str params ''path'' = Ok s" and "path_of s = [Normal l]" and "\<not> is_workspace_path s"
    and "require_str params ''content'' = Ok content" and "length content \<le> MAX_WRITE_SIZE"
  shows "\<exists>fs' v. write_file_execute fs (Some (abs_path b)) params = (fs', Ok v) \<and> fs_nodes fs' (d @ [n]) = Some (File content)"
proof -
  let ?nd = "fs_nodes fs" and ?r = "abs_path (b @ [l])"
  have abs: "abs_path (x @ [y]) = RootDir # map Normal x @ [Normal y]" for x y by (simp add: abs_path_def)
  have base: "locate fs (abs_path b) = Some b"
    using physical_down(1) [OF assms(1,2), of MAX_LINKS "[]"] by (simp add: locate_def abs_path_def)
  have join: "join_path (abs_path b) [Normal l] = ?r"
    by (simp add: join_path_def is_absolute_def drop_cur_def abs_path_def)
  have "walk ?nd (Suc k) [] (map Normal b @ [Normal l]) = None" for k
    using physical_down(1) [OF assms(1,2)] physical_down(1) [OF assms(3,4)] assms(5,6) by (simp add: abs)
  then have missing: "locate fs ?r = None" by (simp add: locate_def abs MAX_LINKS_def numeral_eq_Suc)
  have lex: "normalize_lexical (abs_path ns) = abs_path ns" for ns
    by (induction ns rule: rev_induct) (simp_all add: normalize_lexical_def abs_path_def lexical_step_def)
  have res: "resolve_path fs [Normal l] (Some (abs_path b)) = ?r"
    using missing by (simp add: resolve_path_def is_absolute_def join canonical_or_def canonicalize_def lex)
  have par: "path_parent ?r = Some (abs_path b)" "path_file_name ?r = Some l"
    by (simp_all add: path_parent_def path_file_name_def abs_path_def)
  have "nearest_ancestor fs ?r (abs_path b) [l] = ?r"
    using base by (subst nearest_ancestor.simps)
      (simp add: exists_path_def canonical_or_def canonicalize_def join_path_def is_absolute_def drop_cur_def abs_path_def)
  then have "nearest_ancestor fs ?r ?r [] = ?r"
    using missing par by (subst nearest_ancestor.simps) (simp add: exists_path_def)
  then have val: "validate_path fs s (Some (abs_path b)) = Ok ?r"
    using missing base assms(8)
    by (simp add: validate_path_def res check_path_def exists_path_def canonical_or_def canonicalize_def abs_path_starts_with)
  have dirs: "create_dir_all fs (abs_path b) = Some fs"
    using physical_down(3) [OF assms(1,2), of "[]"] by (simp add: create_dir_all_def abs_path_def)
  have "write_target ?nd (Suc k) [] (map Normal b @ [Normal l]) = Some (d @ [n])" for k
    using physical_down(2) [OF assms(1,2)] physical_down(2) [OF assms(3,4)] assms(5,6) by (simp add: abs)
  then have "write_file fs ?r content = Some (fs\<lparr>fs_nodes := ?nd(d @ [n] \<mapsto> File content)\<rparr>)"
    by (simp add: write_file_def abs MAX_LINKS_def numeral_eq_Suc)
  then show ?thesis using assms(7,9-11) val par dirs by (simp add: write_file_execute_def)
qed

theorem dangling_link_escapes_witness:
  "\<exists>fs' v. write_file_execute sample_fs (Some (abs_path [''box''])) (sample_args ''out'') = (fs', Ok v) \<and>
     fs_nodes fs' ([''etc''] @ [''new'']) = Some (File ''x'')"
  by (rule dangling_link_escapes [where s = "''out''" and l = "''out''"])
    (simp_all add: sample_json sample_paths sample_workspace sample_fs_def sample_nodes_def physical_def is_dir_def MAX_WRITE_SIZE_def)

text \<open>
  What was written is what is read: after a successful \<open>write_file\<close> the path it reports, read back, has
  the content of the call.
\<close>

theorem write_read_roundtrip:
  assumes "write_file_execute fs base params = (fs', Ok v)"
  shows "\<exists>s r content. require_str params ''path'' = Ok s \<and> validate_path fs s base = Ok r \<and>
    require_str params ''content'' = Ok content \<and> read_to_string fs' r = Some content \<and> length content \<le> MAX_WRITE_SIZE"
  using assms write_then_read
  by (fastforce simp: write_file_execute_def split: sum.splits option.splits if_splits)

lemma sample_nested:
  "resolve_path sample_fs [Normal ''b''] (Some (abs_path [''box''])) = abs_path [''box'', ''b'']"
  "validate_path sample_fs ''b'' (Some (abs_path [''box''])) = Ok (abs_path [''box'', ''b''])"
  "path_parent (abs_path [''box'', ''b'']) = Some (abs_path [''box''])"
  "create_dir_all sample_fs (abs_path [''box'']) = Some sample_fs"
proof -
  have l: "locate sample_fs (abs_path [''box'', ''b'']) = None" "locate sample_fs (abs_path [''box'']) = Some [''box'']"
    by (simp_all add: locate_def abs_path_def sample_fs_def sample_nodes_def)
  show r: "resolve_path sample_fs [Normal ''b''] (Some (abs_path [''box''])) = abs_path [''box'', ''b'']"
    using l by (simp add: resolve_path_def is_absolute_def join_path_def drop_cur_def canonical_or_def canonicalize_def abs_path_def
        normalize_lexical_def lexical_step_def)
  show p: "path_parent (abs_path [''box'', ''b'']) = Some (abs_path [''box''])" by (simp add: path_parent_def abs_path_def)
  have "nearest_ancestor sample_fs (abs_path [''box'', ''b'']) (abs_path [''box'']) [''b''] = abs_path [''box'', ''b'']"
    using l by (subst nearest_ancestor.simps)
      (simp add: exists_path_def canonical_or_def canonicalize_def join_path_def is_absolute_def drop_cur_def abs_path_def)
  then have "nearest_ancestor sample_fs (abs_path [''box'', ''b'']) (abs_path [''box'', ''b'']) [] = abs_path [''box'', ''b'']"
    using l p by (subst nearest_ancestor.simps) (simp add: exists_path_def path_file_name_def abs_path_def)
  then show "validate_path sample_fs ''b'' (Some (abs_path [''box''])) = Ok (abs_path [''box'', ''b''])"
    using l by (simp add: validate_path_def sample_paths r check_path_def exists_path_def canonical_or_def sample_base abs_path_starts_with)
  show "create_dir_all sample_fs (abs_path [''box'']) = Some sample_fs"
    by (simp add: create_dir_all_def abs_path_def sample_fs_def sample_nodes_def)
qed

lemma sample_write: "\<exists>fs' v. write_file_execute sample_fs (Some (abs_path [''box''])) (sample_args ''b'') = (fs', Ok v)"
proof -
  have "\<exists>fs'. write_file sample_fs (abs_path [''box'', ''b'']) ''x'' = Some fs'"
    by (simp add: write_file_def abs_path_def sample_fs_def sample_nodes_def)
  then show ?thesis
    by (auto simp: write_file_execute_def sample_json sample_workspace sample_nested MAX_WRITE_SIZE_def)
qed

theorem write_read_roundtrip_witness:
  "read_to_string (fst (write_file_execute sample_fs (Some (abs_path [''box''])) (sample_args ''b''))) (abs_path [''box'', ''b'']) = Some ''x''"
proof -
  obtain fs' v where w: "write_file_execute sample_fs (Some (abs_path [''box''])) (sample_args ''b'') = (fs', Ok v)"
    using sample_write by blast
  from write_read_roundtrip [OF w] w show ?thesis by (auto simp: sample_json sample_nested)
qed

text \<open>
  An offset beyond the end panics: with an offset more than one past the number of lines, and a file
  the tool may read, \<open>read_file\<close> slices out of range instead of reporting an error.
\<close>

theorem offset_beyond_end_panics:
  assumes "require_str params ''path'' = Ok s" and "validate_path fs s base = Ok r" and "read_to_string fs r = Some content"
    and "length content \<le> MAX_READ_SIZE" and "json_u64 params ''offset'' = Some n" and "length (str_lines content) + 1 < n"
  shows "read_file_execute fs base params = None"
proof -
  obtain ns where "locate fs r = Some ns" "fs_nodes fs ns = Some (File content)"
    using assms(3) by (auto simp: read_to_string_def split: option.splits node.splits)
  moreover have "\<not> fst (line_range n (json_u64 params ''limit'') (length (str_lines content))) \<le>
      snd (line_range n (json_u64 params ''limit'') (length (str_lines content)))"
    using assms(6) by (auto simp: line_range_def Let_def split: option.split)
  ultimately show ?thesis
    using assms by (simp add: read_file_execute_def Let_def split_beta)
qed

lemma sample_existing:
  "validate_path sample_fs ''a'' (Some (abs_path [''box''])) = Ok (abs_path [''box'', ''a''])"
  "read_to_string sample_fs (abs_path [''box'', ''a'']) = Some ''hello''"
proof -
  have l: "locate sample_fs (abs_path [''box'', ''a'']) = Some [''box'', ''a'']"
    by (simp add: locate_def abs_path_def sample_fs_def sample_nodes_def)
  then have "resolve_path sample_fs [Normal ''a''] (Some (abs_path [''box''])) = abs_path [''box'', ''a'']"
    by (simp add: resolve_path_def is_absolute_def join_path_def drop_cur_def canonical_or_def canonicalize_def abs_path_def)
  then show "validate_path sample_fs ''a'' (Some (abs_path [''box''])) = Ok (abs_path [''box'', ''a''])"
    using l by (simp add: validate_path_def sample_paths check_path_def exists_path_def canonical_or_def sample_base
        canonicalize_def [of _ "abs_path [''box'', ''a'']"] abs_path_starts_with)
  show "read_to_string sample_fs (abs_path [''box'', ''a'']) = Some ''hello''"
    using l by (simp add: read_to_string_def) (simp add: sample_fs_def sample_nodes_def)
qed

lemma sample_lines: "str_lines ''hello'' = [''hello'']"
  by (simp add: str_lines_def split_on_def)

theorem offset_beyond_end_panics_witness:
  "read_file_execute sample_fs (Some (abs_path [''box''])) (sample_args ''a'') = None"
  by (rule offset_beyond_end_panics [OF sample_json(1) sample_existing _ sample_json(3)]) (simp_all add: sample_lines MAX_READ_SIZE_def)

theorem reads_confined_witness:
  "\<exists>q s i j. fs_nodes sample_fs q = Some (File s) \<and> inside [''box''] q \<and> length s \<le> MAX_READ_SIZE \<and>
     json_get (JObject [(''content'', JString (shown_lines 0 1 [''hello''])), (''total_lines'', JNumber (nat_str 1)),
       (''lines_shown'', JNumber (nat_str 1)), (''path'', JString (path_display (abs_path [''box'', ''a''])))]) ''content'' =
       Some (JString (shown_lines i j (str_lines s)))"
proof (rule reads_confined [OF _ sample_base, where params = "JObject [(''path'', JString ''a'')]"])
  have "require_str (JObject [(''path'', JString ''a'')]) ''path'' = Ok ''a''"
    "json_u64 (JObject [(''path'', JString ''a'')]) ''offset'' = None" "json_u64 (JObject [(''path'', JString ''a'')]) ''limit'' = None"
    by (simp_all add: require_str_def json_str_def json_get_def json_as_str_def json_u64_def)
  moreover have "locate sample_fs (abs_path [''box'', ''a'']) = Some [''box'', ''a'']" "fs_nodes sample_fs [''box'', ''a''] = Some (File ''hello'')"
    by (simp_all add: locate_def abs_path_def sample_fs_def sample_nodes_def)
  ultimately show "read_file_execute sample_fs (Some (abs_path [''box''])) (JObject [(''path'', JString ''a'')]) =
    Some (Ok (JObject [(''content'', JString (shown_lines 0 1 [''hello''])), (''total_lines'', JNumber (nat_str 1)),
       (''lines_shown'', JNumber (nat_str 1)), (''path'', JString (path_display (abs_path [''box'', ''a''])))]))"
    by (simp add: read_file_execute_def sample_existing sample_lines line_range_def MAX_READ_SIZE_def Let_def)
qed

theorem writes_confined_witness:
  "\<exists>q. inside [''box''] q \<and>
     fs_nodes (fst (write_file_execute (sample_fs\<lparr>fs_nodes := sample_nodes([''box'', ''out''] := None)\<rparr>) (Some (abs_path [''box'']))
       (sample_args ''a''))) q = Some (File ''x'')"
proof -
  let ?fs = "sample_fs\<lparr>fs_nodes := sample_nodes([''box'', ''out''] := None)\<rparr>"
  have l: "locate ?fs (abs_path [''box'', ''a'']) = Some [''box'', ''a'']" "locate ?fs (abs_path [''box'']) = Some [''box'']"
    by (simp_all add: locate_def abs_path_def sample_fs_def sample_nodes_def)
  then have "resolve_path ?fs [Normal ''a''] (Some (abs_path [''box''])) = abs_path [''box'', ''a'']"
    by (simp add: resolve_path_def is_absolute_def join_path_def drop_cur_def canonical_or_def canonicalize_def abs_path_def)
  then have v: "validate_path ?fs ''a'' (Some (abs_path [''box''])) = Ok (abs_path [''box'', ''a''])"
    using l by (simp add: validate_path_def sample_paths check_path_def exists_path_def canonical_or_def
        canonicalize_def abs_path_starts_with)
  have p: "path_parent (abs_path [''box'', ''a'']) = Some (abs_path [''box''])" "create_dir_all ?fs (abs_path [''box'']) = Some ?fs"
    by (simp_all add: path_parent_def create_dir_all_def abs_path_def sample_fs_def sample_nodes_def)
  have w: "\<exists>fs'. write_file ?fs (abs_path [''box'', ''a'']) ''x'' = Some fs'"
    by (simp add: write_file_def abs_path_def sample_fs_def sample_nodes_def)
  have nw: "\<not> is_workspace_path ''a''"
    unfolding is_workspace_path_def sample_paths by (simp add: path_file_name_def WORKSPACE_FILES_def starts_with_def)
  obtain fs' r where e: "write_file_execute ?fs (Some (abs_path [''box''])) (sample_args ''a'') = (fs', Ok r)"
    using v p w nw by (auto simp: write_file_execute_def sample_json MAX_WRITE_SIZE_def)
  have c: "canonicalize ?fs (abs_path [''box'']) = Some (abs_path [''box''])" using l by (simp add: canonicalize_def)
  have "fs_nodes ?fs ns \<noteq> Some (Link t)" for ns t by (simp add: sample_nodes_def)
  from writes_confined [OF e c _ _ _ this] e show ?thesis
    by (auto simp: sample_json physical_def is_dir_def sample_fs_def)
qed

text \<open>
  A listing is never marked as truncated.  The walk stops adding at five hundred entries, and the
  flag is set only when there are more, so a listing that was cut short says \<open>truncated: false\<close>.
\<close>

theorem listing_never_truncated:
  assumes "list_dir_execute fmt fs base params = Ok v"
  shows "json_get v ''truncated'' = Some (JBool False) \<and> (\<exists>es. json_get v ''entries'' = Some (JArray es) \<and> length es \<le> MAX_DIR_ENTRIES)"
proof -
  have b: "length es \<le> MAX_DIR_ENTRIES" if "list_dir_inner fs fmt p r d p [] = Ok es" for p r d es
    using list_dir_bound(1) [of "[]" fs fmt p r d p] that by simp
  show ?thesis
    using assms b by (fastforce simp: list_dir_execute_def Let_def json_get_def split: sum.splits if_splits)
qed

theorem listing_never_truncated_witness:
  "\<exists>v. list_dir_execute (\<lambda>_ _. []) sample_fs None (JObject [(''path'', JString ''/box'')]) = Ok v \<and>
     json_get v ''truncated'' = Some (JBool False)"
proof -
  have l: "locate sample_fs (abs_path [''box'']) = Some [''box'']" by (simp add: locate_def abs_path_def sample_fs_def sample_nodes_def)
  have "path_of ''/box'' = abs_path [''box'']"
    by (simp add: path_of_def component_of_def drop_cur_def split_on_def starts_with_def abs_path_def)
  then have "validate_path sample_fs ''/box'' None = Ok (abs_path [''box''])"
    using l by (simp add: validate_path_def resolve_path_def is_absolute_def abs_path_def canonical_or_def canonicalize_def)
  moreover have "list_dir_inner sample_fs f b False d (abs_path [''box'']) [] = Ok []" for f b d
    using l by (simp add: list_dir_inner.simps read_dir_def MAX_DIR_ENTRIES_def is_dir_def) (simp add: sample_fs_def sample_nodes_def)
  ultimately obtain v where v: "list_dir_execute (\<lambda>_ _. []) sample_fs None (JObject [(''path'', JString ''/box'')]) = Ok v"
    by (simp add: list_dir_execute_def json_str_def json_get_def json_as_str_def json_bool_def json_u64_def Let_def)
  with listing_never_truncated [OF v] show ?thesis by blast
qed

text \<open>
  A patch replaces the first occurrence and nothing else: after a successful \<open>apply_patch\<close> without
  \<open>replace_all\<close>, the file reads as before with the leftmost occurrence of the old text replaced.
\<close>

theorem patch_replaces_first:
  assumes "apply_patch_execute fs base params = (fs', Ok v)" and "json_bool params ''replace_all'' \<noteq> Some True"
  shows "\<exists>r old new a b. read_to_string fs r = Some (a @ old @ b) \<and> read_to_string fs' r = Some (a @ new @ b) \<and>
    require_str params ''old_string'' = Ok old \<and> require_str params ''new_string'' = Ok new \<and>
    (\<forall>a' b'. a @ old @ b = a' @ old @ b' \<longrightarrow> length a \<le> length a')"
proof -
  obtain r old new content where p: "read_to_string fs r = Some content" "contains content old"
    "require_str params ''old_string'' = Ok old" "require_str params ''new_string'' = Ok new"
    "write_file fs r (replace_first old new content) = Some fs'"
    using assms by (auto simp: apply_patch_execute_def Let_def split: sum.splits option.splits if_splits)
  from replace_first_at [OF p(2), of new] obtain a b where
    "content = a @ old @ b" "replace_first old new content = a @ new @ b"
    "\<forall>a' b'. content = a' @ old @ b' \<longrightarrow> length a \<le> length a'" by blast
  with p write_then_read [OF p(5)] show ?thesis by (intro exI [of _ r] exI [of _ old] exI [of _ new] exI [of _ a] exI [of _ b]) auto
qed

end
