(* ===== verification/Http_Tool.thy ===== *)
theory Http_Tool
  imports Shell Leak_Detector Hooks "HOL-Library.Word"
begin

text \<open>
  The HTTP tool, \<^verbatim>\<open>src/src/tools/builtin/http.rs\<close>: the check of addresses, the parsing of headers, and a request
  with its scan for secrets and the limits on the answer.

  The URL and IP parsers, the resolver and the HTTP client are arguments.  The resolver is the lookup the
  check makes; the client makes its own when it connects, and the tool does not see that one.
\<close>

section \<open>Addresses\<close>

datatype ip_addr = V4 "32 word" | V6 "128 word"

text \<open>The classes of addresses as the standard library defines them.\<close>

definition v4_is_private :: "32 word \<Rightarrow> bool" where
  "v4_is_private w \<longleftrightarrow> drop_bit 24 w = 10 \<or> drop_bit 20 w = 0xAC1 \<or> drop_bit 16 w = 0xC0A8"

definition v4_is_loopback :: "32 word \<Rightarrow> bool" where "v4_is_loopback w \<longleftrightarrow> drop_bit 24 w = 127"
definition v4_is_link_local :: "32 word \<Rightarrow> bool" where "v4_is_link_local w \<longleftrightarrow> drop_bit 16 w = 0xA9FE"
definition v4_is_multicast :: "32 word \<Rightarrow> bool" where "v4_is_multicast w \<longleftrightarrow> drop_bit 28 w = 0xE"

definition v6_is_unique_local :: "128 word \<Rightarrow> bool" where "v6_is_unique_local w \<longleftrightarrow> drop_bit 121 w = 0x7E"
definition v6_is_unicast_link_local :: "128 word \<Rightarrow> bool" where "v6_is_unicast_link_local w \<longleftrightarrow> drop_bit 118 w = 0x3FA"
definition v6_is_multicast :: "128 word \<Rightarrow> bool" where "v6_is_multicast w \<longleftrightarrow> drop_bit 120 w = 0xFF"

definition METADATA_ADDR :: "32 word" where "METADATA_ADDR = 0xA9FEA9FE"

fun is_disallowed_ip :: "ip_addr \<Rightarrow> bool" where
  "is_disallowed_ip (V4 w) \<longleftrightarrow>
     v4_is_private w \<or> v4_is_loopback w \<or> v4_is_link_local w \<or> v4_is_multicast w \<or> w = 0 \<or> w = METADATA_ADDR"
| "is_disallowed_ip (V6 w) \<longleftrightarrow>
     w = 1 \<or> v6_is_unique_local w \<or> v6_is_unicast_link_local w \<or> v6_is_multicast w \<or> w = 0"

section \<open>The surroundings\<close>

record http_url =
  hu_text :: string
  hu_scheme :: string
  hu_host :: "string option"
  hu_port :: "nat option"

record http_request =
  hr_method :: string
  hr_url :: http_url
  hr_headers :: "(string \<times> string) list"
  hr_body :: "string option"

text \<open>An answer: its status, its headers (a value may not be text), and its chunks.\<close>

datatype http_reply =
    HttpTimeout
  | HttpError string
  | HttpReply nat "(string \<times> string option) list" "(string, string) result list"

record http_lib =
  hl_parse :: "string \<Rightarrow> (string, http_url) result"
  hl_parse_ip :: "string \<Rightarrow> ip_addr option"
  hl_resolve :: "string \<Rightarrow> ip_addr list option"
  hl_show_ip :: "ip_addr \<Rightarrow> string"
  hl_json :: json_lib
  hl_to_vec :: "json \<Rightarrow> (string, string) result"
  hl_lossy :: "string \<Rightarrow> string"
  hl_detector :: leak_detector
  hl_send :: "http_request \<Rightarrow> http_reply"

section \<open>The tool\<close>

definition MAX_RESPONSE_SIZE :: nat where "MAX_RESPONSE_SIZE = 5 * 1024 * 1024"

definition quoted :: "string \<Rightarrow> string" where
  "quoted s = [CHR 0x27] @ s @ [CHR 0x27]"

definition socket_addr :: "http_url \<Rightarrow> string \<Rightarrow> string" where
  "socket_addr u host = host @ '':'' @ nat_str (case hu_port u of Some p \<Rightarrow> p | None \<Rightarrow> 443)"

definition validate_url :: "http_lib \<Rightarrow> string \<Rightarrow> (exec_error, http_url) result" where
  "validate_url hl url =
     (case hl_parse hl url of
        Err e \<Rightarrow> Err (InvalidParams (''invalid URL: '' @ e))
      | Ok parsed \<Rightarrow>
          if hu_scheme parsed \<noteq> ''https'' then Err (NotAuthorized ''only https URLs are allowed'')
          else case hu_host parsed of
            None \<Rightarrow> Err (InvalidParams ''URL missing host'')
          | Some host \<Rightarrow>
              let host_lower = to_lowercase host in
              if host_lower = ''localhost'' \<or> ends_with host_lower ''.localhost''
              then Err (NotAuthorized ''localhost is not allowed'')
              else if (case hl_parse_ip hl host of Some ip \<Rightarrow> is_disallowed_ip ip | None \<Rightarrow> False)
              then Err (NotAuthorized ''private or local IPs are not allowed'')
              else case hl_resolve hl (socket_addr parsed host) of
                None \<Rightarrow> Ok parsed
              | Some addrs \<Rightarrow>
                  (case filter is_disallowed_ip addrs of
                     [] \<Rightarrow> Ok parsed
                   | ip # _ \<Rightarrow> Err (NotAuthorized (''hostname '' @ quoted host @ '' resolves to disallowed IP '' @ hl_show_ip hl ip))))"

fun object_headers :: "(string \<times> json) list \<Rightarrow> (exec_error, (string \<times> string) list) result" where
  "object_headers [] = Ok []"
| "object_headers ((k, v) # kvs) =
     (case json_as_str v of
        None \<Rightarrow> Err (InvalidParams (''header '' @ quoted k @ '' must have a string value''))
      | Some s \<Rightarrow> (case object_headers kvs of Err e \<Rightarrow> Err e | Ok hs \<Rightarrow> Ok ((k, s) # hs)))"

fun array_headers :: "nat \<Rightarrow> json list \<Rightarrow> (exec_error, (string \<times> string) list) result" where
  "array_headers idx [] = Ok []"
| "array_headers idx (item # items) =
     (case item of
        JObject _ \<Rightarrow>
          (case (json_str item ''name'', json_str item ''value'') of
             (None, _) \<Rightarrow> Err (InvalidParams (''headers['' @ nat_str idx @ ''].name must be a string''))
           | (_, None) \<Rightarrow> Err (InvalidParams (''headers['' @ nat_str idx @ ''].value must be a string''))
           | (Some n, Some v) \<Rightarrow> (case array_headers (Suc idx) items of Err e \<Rightarrow> Err e | Ok hs \<Rightarrow> Ok ((n, v) # hs)))
      | _ \<Rightarrow> Err (InvalidParams (''headers['' @ nat_str idx @ ''] must be an object with '' @ quoted ''name'' @ '' and '' @ quoted ''value'')))"

definition parse_headers_param :: "json option \<Rightarrow> (exec_error, (string \<times> string) list) result" where
  "parse_headers_param headers =
     (case headers of
        None \<Rightarrow> Ok []
      | Some (JObject kvs) \<Rightarrow> object_headers kvs
      | Some (JArray items) \<Rightarrow> array_headers 0 items
      | Some _ \<Rightarrow> Err (InvalidParams (quoted ''headers'' @ '' must be an object or an array of {name, value}'')))"

definition METHODS :: "string list" where
  "METHODS = [''GET'', ''POST'', ''PUT'', ''DELETE'', ''PATCH'']"

text \<open>The bytes of the body: a text that is JSON is written anew.\<close>

definition request_body :: "http_lib \<Rightarrow> json option \<Rightarrow> (exec_error, string option) result" where
  "request_body hl body =
     (let written = (\<lambda>v. case hl_to_vec hl v of Ok b \<Rightarrow> Ok (Some b) | Err e \<Rightarrow> Err (InvalidParams (''invalid body JSON: '' @ e))) in
      case body of
        None \<Rightarrow> Ok None
      | Some v \<Rightarrow>
          (case json_as_str v of
             Some s \<Rightarrow> (case jl_from (hl_json hl) s of Some j \<Rightarrow> written j | None \<Rightarrow> Ok (Some s))
           | None \<Rightarrow> written v))"

text \<open>Only the last value of a header is kept.\<close>

definition text_headers :: "(string \<times> string option) list \<Rightarrow> (string \<times> string) list" where
  "text_headers hs = foldl (\<lambda>m (k, v). case v of Some s \<Rightarrow> AList.update k s m | None \<Rightarrow> m) [] hs"

definition parse_usize :: "string \<Rightarrow> nat option" where
  "parse_usize s =
     (let t = (case strip_prefix s ''+'' of Some r \<Rightarrow> r | None \<Rightarrow> s) in
      if t \<noteq> [] \<and> list_all is_digit t \<and> parse_digits t < 2 ^ 64 then Some (parse_digits t) else None)"

definition content_length :: "(string \<times> string option) list \<Rightarrow> nat option" where
  "content_length hs =
     (case filter (\<lambda>(k, v). to_lowercase k = ''content-length'') hs of
        (_, Some s) # _ \<Rightarrow> parse_usize s
      | _ \<Rightarrow> None)"

fun read_body :: "string \<Rightarrow> (string, string) result list \<Rightarrow> (exec_error, string) result" where
  "read_body body [] = Ok body"
| "read_body body (Err e # cs) = Err (ExternalService (''failed to read response body: '' @ e))"
| "read_body body (Ok c # cs) =
     (if length body + length c > MAX_RESPONSE_SIZE
      then Err (ExecFailed (''Response body exceeds maximum allowed size ('' @ nat_str MAX_RESPONSE_SIZE @ '' bytes)''))
      else read_body (body @ c) cs)"

definition handle_reply :: "http_lib \<Rightarrow> http_reply \<Rightarrow> (exec_error, json) result" where
  "handle_reply hl reply =
     (case reply of
        HttpTimeout \<Rightarrow> Err (ExecTimedOut (30 * SECS))
      | HttpError e \<Rightarrow> Err (ExternalService e)
      | HttpReply status headers chunks \<Rightarrow>
          if 300 \<le> status \<and> status < 400
          then Err (NotAuthorized (''request returned redirect (HTTP '' @ nat_str status @ ''), which is blocked to prevent SSRF''))
          else if (case content_length headers of Some len \<Rightarrow> len > MAX_RESPONSE_SIZE | None \<Rightarrow> False)
          then Err (ExecFailed (''Response Content-Length ('' @ nat_str (the (content_length headers)) @
                 '' bytes) exceeds maximum allowed size ('' @ nat_str MAX_RESPONSE_SIZE @ '' bytes)''))
          else case read_body [] chunks of
            Err e \<Rightarrow> Err e
          | Ok body \<Rightarrow>
              let body_text = hl_lossy hl body in
              Ok (JObject [(''status'', JNumber (nat_str status)),
                (''headers'', JObject (map (\<lambda>(k, v). (k, JString v)) (text_headers headers))),
                (''body'', case jl_from (hl_json hl) body_text of Some j \<Rightarrow> j | None \<Rightarrow> JString body_text)]))"

text \<open>The tool returns the requests it sends and its result.\<close>

definition http_execute :: "http_lib \<Rightarrow> json \<Rightarrow> http_request list \<times> (exec_error, json) result" where
  "http_execute hl params =
     (case (require_str params ''method'', require_str params ''url'') of
        (Err e, _) \<Rightarrow> ([], Err e)
      | (_, Err e) \<Rightarrow> ([], Err e)
      | (Ok mth, Ok url) \<Rightarrow>
          (case validate_url hl url of
             Err e \<Rightarrow> ([], Err e)
           | Ok parsed \<Rightarrow>
               (case parse_headers_param (json_get params ''headers'') of
                  Err e \<Rightarrow> ([], Err e)
                | Ok headers \<Rightarrow>
                    if to_uppercase mth \<notin> set METHODS then ([], Err (InvalidParams (''unsupported method: '' @ mth)))
                    else case request_body hl (json_get params ''body'') of
                      Err e \<Rightarrow> ([], Err e)
                    | Ok body \<Rightarrow>
                        (case scan_http_request (hl_lossy hl) (hl_detector hl) (hu_text parsed) headers body of
                           Err e \<Rightarrow> ([], Err (NotAuthorized (leak_error_display e)))
                         | Ok _ \<Rightarrow>
                             let request = \<lparr>hr_method = to_uppercase mth, hr_url = parsed, hr_headers = headers, hr_body = body\<rparr>
                             in ([request], handle_reply hl (hl_send hl request))))))"

section \<open>Ranges of addresses\<close>

lemma drop_bit_eq_range:
  fixes w :: "'a::len word"
  assumes "m < 2 ^ LENGTH('a)"
  shows "drop_bit n w = word_of_nat m \<longleftrightarrow> m * 2 ^ n \<le> unat w \<and> unat w < (m + 1) * 2 ^ n"
proof -
  have "unat (drop_bit n w) = unat w div 2 ^ n" by (metis unat_drop_bit_eq drop_bit_eq_div)
  moreover have "unat (word_of_nat m :: 'a word) = m" using assms by (simp add: unat_of_nat take_bit_nat_eq_self)
  ultimately have "drop_bit n w = word_of_nat m \<longleftrightarrow> unat w div 2 ^ n = m" by (metis word_unat_eq_iff)
  also have "\<dots> \<longleftrightarrow> m * 2 ^ n \<le> unat w \<and> unat w < (m + 1) * 2 ^ n"
    using dividend_less_div_times [of "2 ^ n" "unat w"]
    by (auto simp: div_times_less_eq_dividend mult.commute intro!: div_nat_eqI)
  finally show ?thesis .
qed

lemma v4_ranges:
  "v4_is_private w \<longleftrightarrow> 167772160 \<le> unat w \<and> unat w < 184549376 \<or> 2886729728 \<le> unat w \<and> unat w < 2887778304 \<or>
     3232235520 \<le> unat w \<and> unat w < 3232301056"
  "v4_is_loopback w \<longleftrightarrow> 2130706432 \<le> unat w \<and> unat w < 2147483648"
  "v4_is_link_local w \<longleftrightarrow> 2851995648 \<le> unat w \<and> unat w < 2852061184"
  "v4_is_multicast w \<longleftrightarrow> 3758096384 \<le> unat w \<and> unat w < 4026531840"
  using drop_bit_eq_range [of 10 24 w] drop_bit_eq_range [of "0xAC1" 20 w] drop_bit_eq_range [of "0xC0A8" 16 w]
    drop_bit_eq_range [of 127 24 w] drop_bit_eq_range [of "0xA9FE" 16 w] drop_bit_eq_range [of "0xE" 28 w]
  by (simp_all add: v4_is_private_def v4_is_loopback_def v4_is_link_local_def v4_is_multicast_def)

lemma v6_ranges:
  "v6_is_unique_local w \<longleftrightarrow> 0xFC00 * 2 ^ 112 \<le> unat w \<and> unat w < 0xFE00 * 2 ^ 112"
  "v6_is_unicast_link_local w \<longleftrightarrow> 0xFE80 * 2 ^ 112 \<le> unat w \<and> unat w < 0xFEC0 * 2 ^ 112"
  "v6_is_multicast w \<longleftrightarrow> 0xFF00 * 2 ^ 112 \<le> unat w \<and> unat w < 2 ^ 128"
  using drop_bit_eq_range [of "0x7E" 121 w] drop_bit_eq_range [of "0x3FA" 118 w] drop_bit_eq_range [of "0xFF" 120 w]
  by (simp_all add: v6_is_unique_local_def v6_is_unicast_link_local_def v6_is_multicast_def)

text \<open>The metadata address the code lists lies in 169.254/16.\<close>

lemma disallowed_v4:
  "is_disallowed_ip (V4 w) \<longleftrightarrow>
     unat w \<in> {0} \<union> {10 * 2 ^ 24 ..< 11 * 2 ^ 24} \<union> {(172 * 256 + 16) * 2 ^ 16 ..< (172 * 256 + 32) * 2 ^ 16} \<union>
       {(192 * 256 + 168) * 2 ^ 16 ..< (192 * 256 + 169) * 2 ^ 16} \<union> {127 * 2 ^ 24 ..< 128 * 2 ^ 24} \<union>
       {(169 * 256 + 254) * 2 ^ 16 ..< (169 * 256 + 255) * 2 ^ 16} \<union> {224 * 2 ^ 24 ..< 240 * 2 ^ 24}"
proof -
  have "w = 0 \<longleftrightarrow> unat w = 0" "w = METADATA_ADDR \<longleftrightarrow> unat w = 2852039166"
    by (simp_all add: word_unat_eq_iff METADATA_ADDR_def)
  then show ?thesis by (auto simp: v4_ranges)
qed

lemma disallowed_v6:
  "is_disallowed_ip (V6 w) \<longleftrightarrow>
     unat w \<in> {0, 1} \<union> {0xFC00 * 2 ^ 112 ..< 0xFE00 * 2 ^ 112} \<union> {0xFE80 * 2 ^ 112 ..< 0xFEC0 * 2 ^ 112} \<union> {0xFF00 * 2 ^ 112 ..< 2 ^ 128}"
proof -
  have "w = 0 \<longleftrightarrow> unat w = 0" "w = 1 \<longleftrightarrow> unat w = 1" by (simp_all add: word_unat_eq_iff)
  then show ?thesis by (auto simp: v6_ranges)
qed

text \<open>An IPv4 address written as an IPv6 address, \<open>::ffff:a.b.c.d\<close>.\<close>

definition v4_mapped :: "32 word \<Rightarrow> 128 word" where
  "v4_mapped w = word_of_nat (0xFFFF * 2 ^ 32 + unat w)"

lemma unat_v4_mapped: "unat (v4_mapped w) = 0xFFFF * 2 ^ 32 + unat w"
proof -
  have "unat w < 2 ^ LENGTH(32)" by (rule unsigned_less)
  then have "0xFFFF * 2 ^ 32 + unat w < 2 ^ LENGTH(128)" by simp
  then show ?thesis unfolding v4_mapped_def unsigned_of_nat by (simp only: take_bit_nat_eq_self of_nat_id)
qed

lemma v4_mapped_allowed: "\<not> is_disallowed_ip (V6 (v4_mapped w))"
proof -
  have b: "unat w < 2 ^ LENGTH(32)" by (rule unsigned_less)
  have "v4_mapped w \<noteq> 1" "v4_mapped w \<noteq> 0" using unat_v4_mapped [of w] by (auto simp: word_unat_eq_iff)
  moreover have "\<not> v6_is_unique_local (v4_mapped w)" "\<not> v6_is_unicast_link_local (v4_mapped w)" "\<not> v6_is_multicast (v4_mapped w)"
    using drop_bit_eq_range [of "0x7E" 121 "v4_mapped w"] drop_bit_eq_range [of "0x3FA" 118 "v4_mapped w"]
      drop_bit_eq_range [of "0xFF" 120 "v4_mapped w"] unat_v4_mapped [of w] b
    by (simp_all add: v6_is_unique_local_def v6_is_unicast_link_local_def v6_is_multicast_def)
  ultimately show ?thesis by simp
qed

lemma validate_url_Ok:
  assumes "validate_url hl url = Ok u"
  shows "hl_parse hl url = Ok u \<and> hu_scheme u = ''https'' \<and>
    (\<exists>host. hu_host u = Some host \<and> to_lowercase host \<noteq> ''localhost'' \<and> \<not> ends_with (to_lowercase host) ''.localhost'' \<and>
      (\<forall>ip. hl_parse_ip hl host = Some ip \<longrightarrow> \<not> is_disallowed_ip ip) \<and>
      (\<forall>ips. hl_resolve hl (socket_addr u host) = Some ips \<longrightarrow> list_all (\<lambda>ip. \<not> is_disallowed_ip ip) ips))"
  using assms
  by (auto simp: validate_url_def Let_def list_all_iff filter_empty_conv split: sum.splits option.splits if_splits list.splits)

lemma read_body_Ok:
  "read_body body chunks = Ok b \<Longrightarrow> length body \<le> MAX_RESPONSE_SIZE \<Longrightarrow> length b \<le> MAX_RESPONSE_SIZE \<and> (\<exists>cs. chunks = map Ok cs \<and> b = body @ concat cs)"
proof (induction body chunks rule: read_body.induct)
  case (3 body c cs)
  then show ?case by (auto split: if_splits) (metis append.assoc concat.simps(2) list.simps(9))
qed auto

section \<open>A sample\<close>

definition sample_url :: http_url where
  "sample_url = \<lparr>hu_text = ''https://example.org/'', hu_scheme = ''https'', hu_host = Some ''example.org'', hu_port = Some 443\<rparr>"

definition sample_http :: http_lib where
  "sample_http = \<lparr>hl_parse = (\<lambda>_. Ok sample_url), hl_parse_ip = (\<lambda>_. None), hl_resolve = (\<lambda>_. Some [V4 0x01010101]),
     hl_show_ip = (\<lambda>_. []), hl_json = \<lparr>jl_from = (\<lambda>_. None), jl_to = (\<lambda>_. []), jl_duration = (\<lambda>_. [])\<rparr>,
     hl_to_vec = (\<lambda>_. Ok []), hl_lossy = (\<lambda>b. b), hl_detector = with_patterns (\<lambda>_. None) [],
     hl_send = (\<lambda>_. HttpReply 200 [] [Ok ''hi''])\<rparr>"

definition sample_get :: json where
  "sample_get = JObject [(''method'', JString ''get''), (''url'', JString ''https://example.org/'')]"

definition sample_request :: http_request where
  "sample_request = \<lparr>hr_method = ''GET'', hr_url = sample_url, hr_headers = [], hr_body = None\<rparr>"

lemma sample_validate: "validate_url sample_http url = Ok sample_url"
  by (simp add: validate_url_def sample_http_def sample_url_def to_lowercase_def lower_char_def char_code_def ends_with_def
      v4_ranges METADATA_ADDR_def)

lemma sample_sent: "\<exists>v. http_execute sample_http sample_get = ([sample_request], Ok v)"
proof -
  have m: "to_uppercase ''get'' = ''GET''" by code_simp
  have c: "scan_and_clean (hl_detector sample_http) w = Ok w" for w
    by (simp add: sample_http_def scan_and_clean_def scan_def with_patterns_def known_prefixes_def candidate_indices_def Let_def)
  have p: "require_str sample_get ''method'' = Ok ''get''" "require_str sample_get ''url'' = Ok ''https://example.org/''"
    "json_get sample_get ''headers'' = None" "json_get sample_get ''body'' = None"
    by (simp_all add: sample_get_def require_str_def json_str_def json_get_def json_as_str_def)
  have r: "\<exists>v. handle_reply sample_http (hl_send sample_http q) = Ok v" for q
    by (simp add: handle_reply_def sample_http_def content_length_def MAX_RESPONSE_SIZE_def)
  show ?thesis
    using r [of sample_request]
    by (simp add: http_execute_def p sample_validate m METHODS_def parse_headers_param_def request_body_def scan_http_request_def c
        sample_request_def Let_def)
qed

section \<open>Properties\<close>

text \<open>
  C33: Every request the tool sends has passed its checks: it goes to an \<open>https\<close> address whose host is neither \<open>localhost\<close> nor a name
  under it, in any case of letters, and neither is, nor resolves when it is checked to, an IPv4 address in 10/8,
  172.16/12, 192.168/16, 127/8, 169.254/16 or 224/4 or the address 0, nor an IPv6 address in fc00::/7, fe80::/10 or ff00::/8
  or the addresses 0 and 1; the method is one of five; and the scan for secrets has let the address, the headers and the body
  pass that are sent.  An IPv4 address written as an IPv6 address is judged as the latter, a lookup that fails is
  accepted, and the client makes its own lookup when it connects, so this bounds what is checked and not where
  the request arrives.
\<close>

theorem http_requests_checked:
  assumes "http_execute hl params = (reqs, r)" and "q \<in> set reqs"
    and "passes = (\<lambda>ip. case ip of
        V4 w \<Rightarrow> unat w \<notin> {0} \<union> {10 * 2 ^ 24 ..< 11 * 2 ^ 24} \<union> {(172 * 256 + 16) * 2 ^ 16 ..< (172 * 256 + 32) * 2 ^ 16} \<union>
          {(192 * 256 + 168) * 2 ^ 16 ..< (192 * 256 + 169) * 2 ^ 16} \<union> {127 * 2 ^ 24 ..< 128 * 2 ^ 24} \<union>
          {(169 * 256 + 254) * 2 ^ 16 ..< (169 * 256 + 255) * 2 ^ 16} \<union> {224 * 2 ^ 24 ..< 240 * 2 ^ 24}
      | V6 w \<Rightarrow> unat w \<notin> {0, 1} \<union> {0xFC00 * 2 ^ 112 ..< 0xFE00 * 2 ^ 112} \<union> {0xFE80 * 2 ^ 112 ..< 0xFEC0 * 2 ^ 112} \<union>
          {0xFF00 * 2 ^ 112 ..< 2 ^ 128})"
  shows "reqs = [q] \<and> hu_scheme (hr_url q) = ''https'' \<and> hr_method q \<in> {''GET'', ''POST'', ''PUT'', ''DELETE'', ''PATCH''} \<and>
    scan_http_request (hl_lossy hl) (hl_detector hl) (hu_text (hr_url q)) (hr_headers q) (hr_body q) = Ok () \<and>
    (\<exists>host. hu_host (hr_url q) = Some host \<and> to_lowercase host \<noteq> ''localhost'' \<and> \<not> ends_with (to_lowercase host) ''.localhost'' \<and>
      (\<forall>ip. hl_parse_ip hl host = Some ip \<longrightarrow> passes ip) \<and>
      (\<forall>ips. hl_resolve hl (socket_addr (hr_url q) host) = Some ips \<longrightarrow> (\<forall>ip \<in> set ips. passes ip)))"
proof -
  obtain url u where u: "validate_url hl url = Ok u" "hr_url q = u" "reqs = [q]" "hr_method q \<in> set METHODS"
    "scan_http_request (hl_lossy hl) (hl_detector hl) (hu_text u) (hr_headers q) (hr_body q) = Ok ()"
    using assms(1,2) by (auto simp: http_execute_def Let_def split: sum.splits if_splits)
  have "passes ip = (\<not> is_disallowed_ip ip)" for ip
    unfolding assms(3) by (cases ip) (simp_all only: ip_addr.case disallowed_v4 disallowed_v6)
  with u validate_url_Ok [OF u(1)] show ?thesis by (auto simp: METHODS_def list_all_iff)
qed

theorem http_requests_checked_witness:
  "hu_scheme (hr_url sample_request) = ''https'' \<and> hr_method sample_request \<in> {''GET'', ''POST'', ''PUT'', ''DELETE'', ''PATCH''}"
  using sample_sent http_requests_checked [of sample_http sample_get "[sample_request]" _ sample_request, OF _ _ refl] by auto

text \<open>
  C40: IPv4 addresses written as IPv6 addresses pass the check, private ones included: a host that resolves
  to \<open>::ffff:a.b.c.d\<close> is accepted whatever \<open>a.b.c.d\<close> is.
\<close>

theorem mapped_addresses_pass:
  assumes "hl_parse hl url = Ok u" and "hu_scheme u = ''https''" and "hu_host u = Some host"
    and "to_lowercase host \<noteq> ''localhost''" and "\<not> ends_with (to_lowercase host) ''.localhost''"
    and "hl_parse_ip hl host \<in> {None, Some (V6 (v4_mapped w))}"
    and "hl_resolve hl (socket_addr u host) = Some [V6 (v4_mapped w)]"
  shows "validate_url hl url = Ok u"
  using assms v4_mapped_allowed [of w] by (auto simp: validate_url_def simp del: is_disallowed_ip.simps)

theorem mapped_addresses_pass_witness:
  "validate_url (sample_http\<lparr>hl_resolve := (\<lambda>_. Some [V6 (v4_mapped 0x7F000001)])\<rparr>) ''https://x/'' = Ok sample_url"
  by (rule mapped_addresses_pass [where w = "0x7F000001" and host = "''example.org''"])
    (simp_all add: sample_http_def sample_url_def to_lowercase_def lower_char_def char_code_def ends_with_def)

text \<open>
  The answer is bounded: when the tool returns a result, the answer was no redirect, and its body, all
  chunks together, is at most five megabytes.
\<close>

theorem http_answer_bounded:
  assumes "http_execute hl params = (reqs, Ok v)"
  shows "\<exists>q status headers cs. reqs = [q] \<and> hl_send hl q = HttpReply status headers (map Ok cs) \<and>
    \<not> (300 \<le> status \<and> status < 400) \<and> length (concat cs) \<le> MAX_RESPONSE_SIZE"
proof -
  obtain q status headers chunks body where *: "reqs = [q]" "hl_send hl q = HttpReply status headers chunks"
    "\<not> (300 \<le> status \<and> status < 400)" "read_body [] chunks = Ok body"
    using assms by (auto simp: http_execute_def handle_reply_def Let_def split: sum.splits if_splits http_reply.splits)
  with read_body_Ok [OF *(4)] show ?thesis by auto
qed

theorem http_answer_bounded_witness:
  "\<exists>cs. hl_send sample_http sample_request = HttpReply 200 [] (map Ok cs) \<and> length (concat cs) \<le> MAX_RESPONSE_SIZE"
proof -
  obtain v where "http_execute sample_http sample_get = ([sample_request], Ok v)" using sample_sent by blast
  from http_answer_bounded [OF this] show ?thesis by (auto simp: sample_http_def)
qed

end
