(* ===== verification/Routine.thy ===== *)
theory Routine
  imports Shell Hooks "HOL-Library.Char_ord" "HOL-Library.List_Lexorder"
begin

text \<open>
  Routines and the tables they are kept in: \<^verbatim>\<open>src/src/agent/routine.rs\<close> with the conversions to and from columns,
  and the queries of \<^verbatim>\<open>src/src/db/libsql/routines.rs\<close> and \<^verbatim>\<open>src/src/history/store.rs\<close>.

  Both databases are one model with a \<open>sql_backend\<close>: what a backend does with integers, JSON values and
  timestamps on the way into a column and back.  A table is the list of its rows; the statements act as
  SQL defines them, with the primary keys, the unique names and the cascading reference of the schema.
  \<open>rd_down\<close> holds the error every access fails with while the database is out of reach.
\<close>

section \<open>Routines\<close>

datatype trigger = Cron string | Event "string option" string | Webhook "string option" "string option" | Manual

datatype routine_action = Lightweight string "string list" u32 | FullJob string string u32

record guardrails =
  gr_cooldown :: duration
  gr_max_concurrent :: u32
  gr_dedup_window :: "duration option"

record notify_config =
  nc_channel :: "string option"
  nc_user :: string
  nc_on_attention :: bool
  nc_on_failure :: bool
  nc_on_success :: bool

record routine =
  rt_id :: uuid
  rt_name :: string
  rt_description :: string
  rt_user_id :: string
  rt_enabled :: bool
  rt_trigger :: trigger
  rt_action :: routine_action
  rt_guardrails :: guardrails
  rt_notify :: notify_config
  rt_last_run_at :: "instant option"
  rt_next_fire_at :: "instant option"
  rt_run_count :: u64
  rt_consecutive_failures :: u32
  rt_state :: json
  rt_created_at :: instant
  rt_updated_at :: instant

definition guardrails_default :: guardrails where
  "guardrails_default = \<lparr>gr_cooldown = 300 * SECS, gr_max_concurrent = 1, gr_dedup_window = None\<rparr>"

definition notify_default :: notify_config where
  "notify_default = \<lparr>nc_channel = None, nc_user = ''default'', nc_on_attention = True, nc_on_failure = True, nc_on_success = False\<rparr>"

datatype run_status = RunRunning | RunOk | RunAttention | RunFailed

fun run_status_display :: "run_status \<Rightarrow> string" where
  "run_status_display RunRunning = ''running''"
| "run_status_display RunOk = ''ok''"
| "run_status_display RunAttention = ''attention''"
| "run_status_display RunFailed = ''failed''"

definition run_status_from_str :: "string \<Rightarrow> (string, run_status) result" where
  "run_status_from_str s =
     (if s = ''running'' then Ok RunRunning else if s = ''ok'' then Ok RunOk
      else if s = ''attention'' then Ok RunAttention else if s = ''failed'' then Ok RunFailed
      else Err (''unknown run status: '' @ s))"

record routine_run =
  run_id :: uuid
  run_routine_id :: uuid
  run_trigger_type :: string
  run_trigger_detail :: "string option"
  run_started_at :: instant
  run_completed_at :: "instant option"
  run_status :: run_status
  run_result_summary :: "string option"
  run_tokens_used :: "32 word option"
  run_job_id :: "uuid option"

section \<open>Triggers and actions in the database\<close>

fun trigger_type_tag :: "trigger \<Rightarrow> string" where
  "trigger_type_tag (Cron _) = ''cron''"
| "trigger_type_tag (Event _ _) = ''event''"
| "trigger_type_tag (Webhook _ _) = ''webhook''"
| "trigger_type_tag Manual = ''manual''"

definition missing :: "string \<Rightarrow> string \<Rightarrow> string" where
  "missing what field = what @ '' missing '' @ [CHR 0x27] @ field @ [CHR 0x27]"

definition trigger_from_db :: "string \<Rightarrow> json \<Rightarrow> (string, trigger) result" where
  "trigger_from_db trigger_type config =
     (if trigger_type = ''cron'' then
        (case json_str config ''schedule'' of
           None \<Rightarrow> Err (missing ''cron trigger'' ''schedule'')
         | Some schedule \<Rightarrow> Ok (Cron schedule))
      else if trigger_type = ''event'' then
        (case json_str config ''pattern'' of
           None \<Rightarrow> Err (missing ''event trigger'' ''pattern'')
         | Some p \<Rightarrow> Ok (Event (json_str config ''channel'') p))
      else if trigger_type = ''webhook'' then Ok (Webhook (json_str config ''path'') (json_str config ''secret''))
      else if trigger_type = ''manual'' then Ok Manual
      else Err (''unknown trigger type: '' @ trigger_type))"

fun json_opt :: "string option \<Rightarrow> json" where
  "json_opt None = JNull"
| "json_opt (Some s) = JString s"

fun trigger_to_config_json :: "trigger \<Rightarrow> json" where
  "trigger_to_config_json (Cron schedule) = JObject [(''schedule'', JString schedule)]"
| "trigger_to_config_json (Event ch p) = JObject [(''pattern'', JString p), (''channel'', json_opt ch)]"
| "trigger_to_config_json (Webhook path secret) = JObject [(''path'', json_opt path), (''secret'', json_opt secret)]"
| "trigger_to_config_json Manual = JObject []"

fun action_type_tag :: "routine_action \<Rightarrow> string" where
  "action_type_tag (Lightweight _ _ _) = ''lightweight''"
| "action_type_tag (FullJob _ _ _) = ''full_job''"

definition default_max_tokens :: u32 where "default_max_tokens = 4096"
definition default_max_iterations :: u32 where "default_max_iterations = 10"

text \<open>A number is read as \<open>u64\<close> and cut to \<open>u32\<close>.\<close>

definition json_u32_or :: "json \<Rightarrow> string \<Rightarrow> u32 \<Rightarrow> u32" where
  "json_u32_or v k d =
     (case Option.bind (json_get v k) json_as_u64 of Some n \<Rightarrow> word_of_nat n | None \<Rightarrow> d)"

definition json_str_array :: "json \<Rightarrow> string \<Rightarrow> string list" where
  "json_str_array v k = (case json_get v k of Some (JArray xs) \<Rightarrow> List.map_filter json_as_str xs | _ \<Rightarrow> [])"

definition action_from_db :: "string \<Rightarrow> json \<Rightarrow> (string, routine_action) result" where
  "action_from_db action_type config =
     (if action_type = ''lightweight'' then
        (case json_str config ''prompt'' of
           None \<Rightarrow> Err (missing ''lightweight action'' ''prompt'')
         | Some prompt \<Rightarrow>
             Ok (Lightweight prompt (json_str_array config ''context_paths'') (json_u32_or config ''max_tokens'' default_max_tokens)))
      else if action_type = ''full_job'' then
        (case json_str config ''title'' of
           None \<Rightarrow> Err (missing ''full_job action'' ''title'')
         | Some title \<Rightarrow>
             (case json_str config ''description'' of
                None \<Rightarrow> Err (missing ''full_job action'' ''description'')
              | Some description \<Rightarrow> Ok (FullJob title description (json_u32_or config ''max_iterations'' default_max_iterations))))
      else Err (''unknown action type: '' @ action_type))"

fun action_to_config_json :: "routine_action \<Rightarrow> json" where
  "action_to_config_json (Lightweight prompt paths n) =
     JObject [(''prompt'', JString prompt), (''context_paths'', JArray (map JString paths)), (''max_tokens'', JNumber (nat_str (unat n)))]"
| "action_to_config_json (FullJob title description n) =
     JObject [(''title'', JString title), (''description'', JString description), (''max_iterations'', JNumber (nat_str (unat n)))]"

section \<open>Columns\<close>

record 'j sql_backend =
  sb_int :: "nat \<Rightarrow> int"
  sb_json :: "json \<Rightarrow> 'j"
  sb_parse :: "'j \<Rightarrow> json"
  sb_ts :: "instant \<Rightarrow> instant"
  sb_negative_limit :: bool

definition as_i64 :: "nat \<Rightarrow> int" where "as_i64 n = sint (word_of_nat n :: 64 word)"
definition as_i32 :: "nat \<Rightarrow> int" where "as_i32 n = sint (word_of_nat n :: 32 word)"
definition as_u64 :: "int \<Rightarrow> nat" where "as_u64 i = unat (word_of_int i :: 64 word)"

text \<open>libSQL keeps 64-bit integers, JSON as text, and timestamps as text with milliseconds.\<close>

definition libsql_backend :: "json_lib \<Rightarrow> string sql_backend" where
  "libsql_backend jl = \<lparr>sb_int = as_i64, sb_json = jl_to jl,
     sb_parse = (\<lambda>s. case jl_from jl s of Some v \<Rightarrow> v | None \<Rightarrow> JNull), sb_ts = (\<lambda>t. t div 1000000 * 1000000),
     sb_negative_limit = True\<rparr>"

text \<open>PostgreSQL keeps these columns as 32-bit integers, JSON as JSONB, and timestamps in microseconds.\<close>

definition pg_backend :: "json sql_backend" where
  "pg_backend = \<lparr>sb_int = as_i32, sb_json = id, sb_parse = id, sb_ts = (\<lambda>t. t div 1000 * 1000),
     sb_negative_limit = False\<rparr>"

record 'j routine_row =
  rw_id :: uuid
  rw_name :: string
  rw_description :: string
  rw_user_id :: string
  rw_enabled :: bool
  rw_trigger_type :: string
  rw_trigger_config :: 'j
  rw_action_type :: string
  rw_action_config :: 'j
  rw_cooldown_secs :: int
  rw_max_concurrent :: int
  rw_dedup_window_secs :: "int option"
  rw_notify :: notify_config
  rw_state :: 'j
  rw_last_run_at :: "instant option"
  rw_next_fire_at :: "instant option"
  rw_run_count :: int
  rw_consecutive_failures :: int
  rw_created_at :: instant
  rw_updated_at :: instant

datatype db_error = DbUnavailable string | DbConstraint | DbSerialization string

definition row_to_routine :: "'j sql_backend \<Rightarrow> 'j routine_row \<Rightarrow> (db_error, routine) result" where
  "row_to_routine b w =
     (case trigger_from_db (rw_trigger_type w) (sb_parse b (rw_trigger_config w)) of
        Err e \<Rightarrow> Err (DbSerialization e)
      | Ok trigger \<Rightarrow>
          (case action_from_db (rw_action_type w) (sb_parse b (rw_action_config w)) of
             Err e \<Rightarrow> Err (DbSerialization e)
           | Ok action \<Rightarrow>
               Ok \<lparr>rt_id = rw_id w, rt_name = rw_name w, rt_description = rw_description w, rt_user_id = rw_user_id w,
                   rt_enabled = rw_enabled w, rt_trigger = trigger, rt_action = action,
                   rt_guardrails = \<lparr>gr_cooldown = as_u64 (rw_cooldown_secs w) * SECS,
                      gr_max_concurrent = word_of_int (rw_max_concurrent w),
                      gr_dedup_window = map_option (\<lambda>s. as_u64 s * SECS) (rw_dedup_window_secs w)\<rparr>,
                   rt_notify = rw_notify w, rt_last_run_at = rw_last_run_at w, rt_next_fire_at = rw_next_fire_at w,
                   rt_run_count = word_of_int (rw_run_count w), rt_consecutive_failures = word_of_int (rw_consecutive_failures w),
                   rt_state = sb_parse b (rw_state w), rt_created_at = rw_created_at w, rt_updated_at = rw_updated_at w\<rparr>))"

text \<open>The columns \<open>create_routine\<close> writes; the others have the defaults of the schema.\<close>

definition new_row :: "'j sql_backend \<Rightarrow> routine \<Rightarrow> 'j routine_row" where
  "new_row b r =
     \<lparr>rw_id = rt_id r, rw_name = rt_name r, rw_description = rt_description r, rw_user_id = rt_user_id r, rw_enabled = rt_enabled r,
      rw_trigger_type = trigger_type_tag (rt_trigger r), rw_trigger_config = sb_json b (trigger_to_config_json (rt_trigger r)),
      rw_action_type = action_type_tag (rt_action r), rw_action_config = sb_json b (action_to_config_json (rt_action r)),
      rw_cooldown_secs = sb_int b (as_secs (gr_cooldown (rt_guardrails r))),
      rw_max_concurrent = sb_int b (unat (gr_max_concurrent (rt_guardrails r))),
      rw_dedup_window_secs = map_option (\<lambda>d. sb_int b (as_secs d)) (gr_dedup_window (rt_guardrails r)),
      rw_notify = rt_notify r, rw_state = sb_json b (rt_state r), rw_last_run_at = None,
      rw_next_fire_at = map_option (sb_ts b) (rt_next_fire_at r), rw_run_count = 0, rw_consecutive_failures = 0,
      rw_created_at = sb_ts b (rt_created_at r), rw_updated_at = sb_ts b (rt_updated_at r)\<rparr>"

text \<open>The columns \<open>update_routine\<close> sets in a row.\<close>

definition updated_row :: "'j sql_backend \<Rightarrow> instant \<Rightarrow> routine \<Rightarrow> 'j routine_row \<Rightarrow> 'j routine_row" where
  "updated_row b now r w =
     (new_row b r)\<lparr>rw_user_id := rw_user_id w, rw_last_run_at := rw_last_run_at w, rw_run_count := rw_run_count w,
        rw_consecutive_failures := rw_consecutive_failures w, rw_created_at := rw_created_at w, rw_updated_at := sb_ts b now\<rparr>"

section \<open>Statements\<close>

record run_row =
  rr_id :: uuid
  rr_routine_id :: uuid
  rr_trigger_type :: string
  rr_trigger_detail :: "string option"
  rr_started_at :: instant
  rr_completed_at :: "instant option"
  rr_status :: string
  rr_result_summary :: "string option"
  rr_tokens_used :: "32 word option"
  rr_job_id :: "uuid option"

record 'j routine_db =
  rd_routines :: "'j routine_row list"
  rd_runs :: "run_row list"
  rd_down :: "string option"

text \<open>One statement: nothing happens while the database is out of reach.\<close>

definition sql_query :: "'j routine_db \<Rightarrow> ('j routine_db \<Rightarrow> (db_error, 'a) result) \<Rightarrow> (db_error, 'a) result" where
  "sql_query db q = (case rd_down db of Some e \<Rightarrow> Err (DbUnavailable e) | None \<Rightarrow> q db)"

definition sql_execute ::
  "'j routine_db \<Rightarrow> ('j routine_db \<Rightarrow> 'j routine_db \<times> (db_error, 'a) result) \<Rightarrow> 'j routine_db \<times> (db_error, 'a) result" where
  "sql_execute db q = (case rd_down db of Some e \<Rightarrow> (db, Err (DbUnavailable e)) | None \<Rightarrow> q db)"

fun collect_rows :: "('r \<Rightarrow> ('e, 'a) result) \<Rightarrow> 'r list \<Rightarrow> ('e, 'a list) result" where
  "collect_rows f [] = Ok []"
| "collect_rows f (w # ws) =
     (case f w of Err e \<Rightarrow> Err e | Ok x \<Rightarrow> (case collect_rows f ws of Err e \<Rightarrow> Err e | Ok xs \<Rightarrow> Ok (x # xs)))"

definition create_routine :: "'j sql_backend \<Rightarrow> routine \<Rightarrow> 'j routine_db \<Rightarrow> 'j routine_db \<times> (db_error, unit) result" where
  "create_routine b r db =
     sql_execute db (\<lambda>db.
       if list_ex (\<lambda>w. rw_id w = rt_id r \<or> rw_user_id w = rt_user_id r \<and> rw_name w = rt_name r) (rd_routines db)
       then (db, Err DbConstraint)
       else (db\<lparr>rd_routines := rd_routines db @ [new_row b r]\<rparr>, Ok ()))"

definition first_row :: "'j sql_backend \<Rightarrow> 'j routine_row list \<Rightarrow> (db_error, routine option) result" where
  "first_row b ws =
     (case ws of [] \<Rightarrow> Ok None | w # _ \<Rightarrow> (case row_to_routine b w of Err e \<Rightarrow> Err e | Ok r \<Rightarrow> Ok (Some r)))"

definition get_routine :: "'j sql_backend \<Rightarrow> uuid \<Rightarrow> 'j routine_db \<Rightarrow> (db_error, routine option) result" where
  "get_routine b i db = sql_query db (\<lambda>db. first_row b (filter (\<lambda>w. rw_id w = i) (rd_routines db)))"

definition get_routine_by_name :: "'j sql_backend \<Rightarrow> string \<Rightarrow> string \<Rightarrow> 'j routine_db \<Rightarrow> (db_error, routine option) result" where
  "get_routine_by_name b user name db =
     sql_query db (\<lambda>db. first_row b (filter (\<lambda>w. rw_user_id w = user \<and> rw_name w = name) (rd_routines db)))"

definition list_routines :: "'j sql_backend \<Rightarrow> string \<Rightarrow> 'j routine_db \<Rightarrow> (db_error, routine list) result" where
  "list_routines b user db =
     sql_query db (\<lambda>db. collect_rows (row_to_routine b) (sort_key rw_name (filter (\<lambda>w. rw_user_id w = user) (rd_routines db))))"

definition list_event_routines :: "'j sql_backend \<Rightarrow> 'j routine_db \<Rightarrow> (db_error, routine list) result" where
  "list_event_routines b db =
     sql_query db (\<lambda>db. collect_rows (row_to_routine b) (filter (\<lambda>w. rw_enabled w \<and> rw_trigger_type w = ''event'') (rd_routines db)))"

definition list_due_cron_routines :: "'j sql_backend \<Rightarrow> instant \<Rightarrow> 'j routine_db \<Rightarrow> (db_error, routine list) result" where
  "list_due_cron_routines b now db =
     sql_query db (\<lambda>db. collect_rows (row_to_routine b)
       (filter (\<lambda>w. rw_enabled w \<and> rw_trigger_type w = ''cron'' \<and>
          (case rw_next_fire_at w of Some t \<Rightarrow> t \<le> sb_ts b now | None \<Rightarrow> False)) (rd_routines db)))"

definition update_routine :: "'j sql_backend \<Rightarrow> instant \<Rightarrow> routine \<Rightarrow> 'j routine_db \<Rightarrow> 'j routine_db \<times> (db_error, unit) result" where
  "update_routine b now r db =
     sql_execute db (\<lambda>db.
       if \<exists>w \<in> set (rd_routines db). rw_id w = rt_id r \<and>
            list_ex (\<lambda>v. rw_id v \<noteq> rt_id r \<and> rw_user_id v = rw_user_id w \<and> rw_name v = rt_name r) (rd_routines db)
       then (db, Err DbConstraint)
       else (db\<lparr>rd_routines := map (\<lambda>w. if rw_id w = rt_id r then updated_row b now r w else w) (rd_routines db)\<rparr>, Ok ()))"

definition update_routine_runtime ::
  "'j sql_backend \<Rightarrow> instant \<Rightarrow> uuid \<Rightarrow> instant \<Rightarrow> instant option \<Rightarrow> u64 \<Rightarrow> u32 \<Rightarrow> json \<Rightarrow> 'j routine_db \<Rightarrow> 'j routine_db \<times> (db_error, unit) result" where
  "update_routine_runtime b now i last_run next_fire run_count failures state db =
     sql_execute db (\<lambda>db.
       (db\<lparr>rd_routines := map (\<lambda>w. if rw_id w = i
          then w\<lparr>rw_last_run_at := Some (sb_ts b last_run), rw_next_fire_at := map_option (sb_ts b) next_fire,
                 rw_run_count := sint run_count, rw_consecutive_failures := sb_int b (unat failures),
                 rw_state := sb_json b state, rw_updated_at := sb_ts b now\<rparr>
          else w) (rd_routines db)\<rparr>, Ok ()))"

definition delete_routine :: "uuid \<Rightarrow> 'j routine_db \<Rightarrow> 'j routine_db \<times> (db_error, bool) result" where
  "delete_routine i db =
     sql_execute db (\<lambda>db.
       (db\<lparr>rd_routines := filter (\<lambda>w. rw_id w \<noteq> i) (rd_routines db), rd_runs := filter (\<lambda>w. rr_routine_id w \<noteq> i) (rd_runs db)\<rparr>,
        Ok (list_ex (\<lambda>w. rw_id w = i) (rd_routines db))))"

definition create_routine_run :: "'j sql_backend \<Rightarrow> routine_run \<Rightarrow> 'j routine_db \<Rightarrow> 'j routine_db \<times> (db_error, unit) result" where
  "create_routine_run b r db =
     sql_execute db (\<lambda>db.
       if list_ex (\<lambda>w. rr_id w = run_id r) (rd_runs db) \<or> \<not> list_ex (\<lambda>w. rw_id w = run_routine_id r) (rd_routines db)
       then (db, Err DbConstraint)
       else (db\<lparr>rd_runs := rd_runs db @
               [\<lparr>rr_id = run_id r, rr_routine_id = run_routine_id r, rr_trigger_type = run_trigger_type r,
                 rr_trigger_detail = run_trigger_detail r, rr_started_at = sb_ts b (run_started_at r), rr_completed_at = None,
                 rr_status = run_status_display (run_status r), rr_result_summary = None, rr_tokens_used = None,
                 rr_job_id = run_job_id r\<rparr>]\<rparr>, Ok ()))"

definition complete_routine_run ::
  "'j sql_backend \<Rightarrow> instant \<Rightarrow> uuid \<Rightarrow> run_status \<Rightarrow> string option \<Rightarrow> 32 word option \<Rightarrow> 'j routine_db \<Rightarrow> 'j routine_db \<times> (db_error, unit) result" where
  "complete_routine_run b now i status summary tokens db =
     sql_execute db (\<lambda>db.
       (db\<lparr>rd_runs := map (\<lambda>w. if rr_id w = i
          then w\<lparr>rr_completed_at := Some (sb_ts b now), rr_status := run_status_display status,
                 rr_result_summary := summary, rr_tokens_used := tokens\<rparr>
          else w) (rd_runs db)\<rparr>, Ok ()))"

definition row_to_run :: "run_row \<Rightarrow> (db_error, routine_run) result" where
  "row_to_run w =
     (case run_status_from_str (rr_status w) of
        Err e \<Rightarrow> Err (DbSerialization e)
      | Ok s \<Rightarrow>
          Ok \<lparr>run_id = rr_id w, run_routine_id = rr_routine_id w, run_trigger_type = rr_trigger_type w,
              run_trigger_detail = rr_trigger_detail w, run_started_at = rr_started_at w, run_completed_at = rr_completed_at w,
              run_status = s, run_result_summary = rr_result_summary w, run_tokens_used = rr_tokens_used w,
              run_job_id = rr_job_id w\<rparr>)"

text \<open>libSQL takes a negative limit for no limit, PostgreSQL refuses it.\<close>

definition list_routine_runs :: "'j sql_backend \<Rightarrow> uuid \<Rightarrow> int \<Rightarrow> 'j routine_db \<Rightarrow> (db_error, routine_run list) result" where
  "list_routine_runs b i limit db =
     sql_query db (\<lambda>db.
       let found = sort_key (\<lambda>w. - int (rr_started_at w)) (filter (\<lambda>w. rr_routine_id w = i) (rd_runs db))
       in if 0 \<le> limit then collect_rows row_to_run (take (nat limit) found)
          else if sb_negative_limit b then collect_rows row_to_run found
          else Err DbConstraint)"

definition count_running_routine_runs :: "uuid \<Rightarrow> 'j routine_db \<Rightarrow> (db_error, nat) result" where
  "count_running_routine_runs i db =
     sql_query db (\<lambda>db. Ok (length (filter (\<lambda>w. rr_routine_id w = i \<and> rr_status w = ''running'') (rd_runs db))))"

section \<open>Round trips of columns\<close>

lemma parse_nat_str: "parse_digits (nat_str n) = n \<and> nat_str n \<noteq> [] \<and> list_all is_digit (nat_str n)"
proof (induction n rule: nat_str.induct)
  case (1 n)
  have d: "char_code (char_of (48 + k)) = 48 + k" "is_digit (char_of (48 + k))" if "k < 10" for k :: nat
    using that by (simp_all add: char_code_def is_digit_def)
  have "n mod 10 < 10" "n = 10 * (n div 10) + n mod 10" by simp_all
  then show ?case using 1 d [of n] d [of "n mod 10"]
    by (subst (1 2 3) nat_str.simps) (auto simp: parse_digits_def)
qed

lemma json_u64_nat_str: "n < 2 ^ 64 \<Longrightarrow> json_as_u64 (JNumber (nat_str n)) = Some n"
  using parse_nat_str [of n] by (simp add: json_as_u64_def)

lemma json_u64_u32: "json_as_u64 (JNumber (nat_str (unat (n :: u32)))) = Some (unat n)"
proof (rule json_u64_nat_str)
  have "unat n < 2 ^ LENGTH(32)" by (rule unsigned_less)
  then show "unat n < 2 ^ 64" by simp
qed

lemma json_as_str_opt: "json_as_str (json_opt x) = x" "json_as_str (JString s) = Some s"
  by (cases x) (simp_all add: json_as_str_def)

lemma map_filter_strings: "List.map_filter json_as_str (map JString xs) = xs"
  by (induction xs) (simp_all add: json_as_str_def List.map_filter_simps)

text \<open>What reading a stored routine gives: whole seconds, the timestamps of the backend, and fresh counters.\<close>

definition stored :: "'j sql_backend \<Rightarrow> routine \<Rightarrow> routine" where
  "stored b r = r\<lparr>rt_guardrails := (rt_guardrails r)\<lparr>gr_cooldown := as_secs (gr_cooldown (rt_guardrails r)) * SECS,
       gr_dedup_window := map_option (\<lambda>d. as_secs d * SECS) (gr_dedup_window (rt_guardrails r))\<rparr>,
     rt_last_run_at := None, rt_next_fire_at := map_option (sb_ts b) (rt_next_fire_at r), rt_run_count := 0,
     rt_consecutive_failures := 0, rt_created_at := sb_ts b (rt_created_at r), rt_updated_at := sb_ts b (rt_updated_at r)\<rparr>"

definition secs_below :: "nat \<Rightarrow> routine \<Rightarrow> bool" where
  "secs_below n r \<longleftrightarrow> as_secs (gr_cooldown (rt_guardrails r)) < n \<and>
     (case gr_dedup_window (rt_guardrails r) of Some d \<Rightarrow> as_secs d < n | None \<Rightarrow> True)"

lemma trigger_back: "trigger_from_db (trigger_type_tag t) (trigger_to_config_json t) = Ok t"
  by (cases t) (simp_all add: trigger_from_db_def json_str_def json_get_def json_as_str_opt)

lemma action_back: "action_from_db (action_type_tag a) (action_to_config_json a) = Ok a"
  by (cases a) (simp_all add: action_from_db_def json_str_def json_get_def json_as_str_def json_str_array_def json_u32_or_def
      json_u64_u32 map_filter_strings)

lemma status_back: "run_status_from_str (run_status_display s) = Ok s"
  by (cases s) (simp_all add: run_status_from_str_def)

definition written_json :: "routine \<Rightarrow> json set" where
  "written_json r = {trigger_to_config_json (rt_trigger r), action_to_config_json (rt_action r), rt_state r}"

text \<open>
  What the tables rely on of a backend: the JSON values of a set come back, integers come back below a
  bound, and timestamps are rounded down once.
\<close>

locale sql_codec =
  fixes b :: "'j sql_backend" and bound :: nat and vals :: "json set"
  assumes json_back: "v \<in> vals \<Longrightarrow> sb_parse b (sb_json b v) = v"
    and int_back: "n < bound \<Longrightarrow> as_u64 (sb_int b n) = n"
    and u32_back: "word_of_int (sb_int b (unat (k :: u32))) = k"
    and ts_once: "sb_ts b (sb_ts b t) = sb_ts b t"
begin

lemma new_row_back:
  assumes "secs_below bound r" and "written_json r \<subseteq> vals"
  shows "row_to_routine b (new_row b r) = Ok (stored b r)"
proof (cases r)
  case (fields i nm d u e t a g n l f c k s x y)
  then show ?thesis using assms
    by (cases g) (auto simp: row_to_routine_def new_row_def stored_def secs_below_def written_json_def json_back trigger_back action_back int_back u32_back
        option.map_comp o_def split: option.splits)
qed

lemma create_then_get:
  assumes "create_routine b r db = (db', Ok ())" and "secs_below bound r" and "written_json r \<subseteq> vals"
  shows "get_routine b (rt_id r) db' = Ok (Some (stored b r))"
    and "get_routine_by_name b (rt_user_id r) (rt_name r) db' = Ok (Some (stored b r))"
proof -
  have "rd_down db = None" and new: "\<forall>w \<in> set (rd_routines db). rw_id w \<noteq> rt_id r \<and> (rw_user_id w = rt_user_id r \<longrightarrow> rw_name w \<noteq> rt_name r)"
    and db': "db' = db\<lparr>rd_routines := rd_routines db @ [new_row b r]\<rparr>"
    using assms(1) by (auto simp: create_routine_def sql_execute_def list_ex_iff split: option.splits if_splits)
  have "filter (\<lambda>w. rw_id w = rt_id r) (rd_routines db) = []"
    "filter (\<lambda>w. rw_user_id w = rt_user_id r \<and> rw_name w = rt_name r) (rd_routines db) = []"
    using new by (auto simp: filter_empty_conv)
  moreover have "rw_id (new_row b r) = rt_id r" "rw_user_id (new_row b r) = rt_user_id r" "rw_name (new_row b r) = rt_name r"
    by (simp_all add: new_row_def)
  ultimately show "get_routine b (rt_id r) db' = Ok (Some (stored b r))"
    and "get_routine_by_name b (rt_user_id r) (rt_name r) db' = Ok (Some (stored b r))"
    using \<open>rd_down db = None\<close> new_row_back [OF assms(2,3)]
    by (simp_all add: db' get_routine_def get_routine_by_name_def sql_query_def first_row_def)
qed

end

lemma as_int_small: "n < 2 ^ 31 \<Longrightarrow> as_i32 n = int n" "n < 2 ^ 63 \<Longrightarrow> as_i64 n = int n"
  by (simp_all add: as_i32_def as_i64_def sint_uint signed_take_bit_int_eq_self unsigned_of_nat take_bit_nat_eq_self)

lemma as_u64_back: "n < 2 ^ 64 \<Longrightarrow> as_u64 (as_i64 n) = n" "n < 2 ^ 31 \<Longrightarrow> as_u64 (as_i32 n) = n"
  by (simp_all add: as_u64_def as_i64_def unat_of_nat take_bit_nat_eq_self as_int_small)

lemma as_u32_back: "word_of_int (as_i64 (unat (k :: u32))) = k" "word_of_int (as_i32 (unat k)) = k"
proof -
  have "unat k < 2 ^ LENGTH(32)" by (rule unsigned_less)
  then show "word_of_int (as_i64 (unat k)) = k" by (simp add: as_int_small)
  show "word_of_int (as_i32 (unat k)) = k" by (simp add: as_i32_def)
qed

interpretation pg: sql_codec pg_backend "2 ^ 31" UNIV
  by unfold_locales (simp_all add: pg_backend_def as_u64_back [simplified] as_u32_back)

interpretation libsql: sql_codec "libsql_backend jl" "2 ^ 64" "{v. jl_from jl (jl_to jl v) = Some v}" for jl
  by unfold_locales (simp_all add: libsql_backend_def as_u64_back [simplified] as_u32_back)

section \<open>The tables stay consistent\<close>

datatype routine_stmt =
    SqlCreate routine
  | SqlUpdate instant routine
  | SqlRuntime instant uuid instant "instant option" u64 u32 json
  | SqlDelete uuid
  | SqlCreateRun routine_run
  | SqlCompleteRun instant uuid run_status "string option" "32 word option"
  | SqlReach "string option"

fun exec_stmt :: "'j sql_backend \<Rightarrow> 'j routine_db \<Rightarrow> routine_stmt \<Rightarrow> 'j routine_db" where
  "exec_stmt b db (SqlCreate r) = fst (create_routine b r db)"
| "exec_stmt b db (SqlUpdate now r) = fst (update_routine b now r db)"
| "exec_stmt b db (SqlRuntime now i l n c k s) = fst (update_routine_runtime b now i l n c k s db)"
| "exec_stmt b db (SqlDelete i) = fst (delete_routine i db)"
| "exec_stmt b db (SqlCreateRun r) = fst (create_routine_run b r db)"
| "exec_stmt b db (SqlCompleteRun now i st sm t) = fst (complete_routine_run b now i st sm t db)"
| "exec_stmt b db (SqlReach e) = db\<lparr>rd_down := e\<rparr>"

definition db_wf :: "'j routine_db \<Rightarrow> bool" where
  "db_wf db \<longleftrightarrow> distinct (map rw_id (rd_routines db)) \<and> distinct (map (\<lambda>w. (rw_user_id w, rw_name w)) (rd_routines db)) \<and>
     distinct (map rr_id (rd_runs db)) \<and> rr_routine_id ` set (rd_runs db) \<subseteq> rw_id ` set (rd_routines db) \<and>
     (\<forall>w \<in> set (rd_runs db). \<exists>s. run_status_from_str (rr_status w) = Ok s)"

lemma distinct_map_upd:
  assumes "distinct (map g xs)" and "\<And>x y. x \<in> set xs \<Longrightarrow> y \<in> set xs \<Longrightarrow> g (f x) = g (f y) \<Longrightarrow> x = y"
  shows "distinct (map g (map f xs))"
  using assms by (simp add: distinct_map inj_on_def)

lemma wf_rows:
  assumes "db_wf db" and "w \<in> set (rd_routines db)" and "v \<in> set (rd_routines db)"
  shows "rw_id w = rw_id v \<longleftrightarrow> w = v" and "rw_user_id w = rw_user_id v \<and> rw_name w = rw_name v \<longleftrightarrow> w = v"
  using assms by (auto simp: db_wf_def distinct_map inj_on_def)

lemma update_routine_wf:
  assumes "db_wf db"
  shows "db_wf (fst (update_routine b now r db))"
proof -
  define f where "f = (\<lambda>w. if rw_id w = rt_id r then updated_row b now r w else w)"
  have f: "rw_id (f w) = rw_id w" "rw_user_id (f w) = rw_user_id w" "rw_name (f w) = (if rw_id w = rt_id r then rt_name r else rw_name w)"
    for w by (simp_all add: f_def updated_row_def new_row_def)
  have ids: "map rw_id (map f ws) = map rw_id ws" for ws by (simp add: f)
  have "distinct (map (\<lambda>w. (rw_user_id w, rw_name w)) (map f (rd_routines db)))"
    if "\<not> (\<exists>w \<in> set (rd_routines db). rw_id w = rt_id r \<and>
      list_ex (\<lambda>v. rw_id v \<noteq> rt_id r \<and> rw_user_id v = rw_user_id w \<and> rw_name v = rt_name r) (rd_routines db))"
  proof (rule distinct_map_upd)
    show "distinct (map (\<lambda>w. (rw_user_id w, rw_name w)) (rd_routines db))" using assms by (simp add: db_wf_def)
    fix x y
    assume *: "x \<in> set (rd_routines db)" "y \<in> set (rd_routines db)"
      and eq: "(rw_user_id (f x), rw_name (f x)) = (rw_user_id (f y), rw_name (f y))"
    have "\<not> (rw_id x = rt_id r \<and> rw_id y \<noteq> rt_id r)" "\<not> (rw_id y = rt_id r \<and> rw_id x \<noteq> rt_id r)"
      using eq that * by (auto simp: f list_ex_iff) metis+
    then show "x = y"
      using wf_rows [OF assms *] eq by (cases "rw_id x = rt_id r"; cases "rw_id y = rt_id r") (auto simp: f)
  qed
  then show ?thesis using assms ids [of "rd_routines db"]
    by (auto simp: update_routine_def sql_execute_def db_wf_def f_def [symmetric] image_image f simp del: map_map split: option.split)
qed

lemma stmt_wf:
  fixes db :: "'j routine_db"
  shows "db_wf db \<Longrightarrow> db_wf (exec_stmt b db st)"
proof (cases st)
  case (SqlUpdate now r)
  then show "db_wf db \<Longrightarrow> ?thesis" by (simp add: update_routine_wf)
next
  case (SqlRuntime now i l n c k s)
  define f where "f = (\<lambda>w :: 'j routine_row. if rw_id w = i then w\<lparr>rw_last_run_at := Some (sb_ts b l), rw_next_fire_at := map_option (sb_ts b) n,
    rw_run_count := sint c, rw_consecutive_failures := sb_int b (unat k), rw_state := sb_json b s, rw_updated_at := sb_ts b now\<rparr> else w)"
  have f: "rw_id (f w) = rw_id w" "rw_user_id (f w) = rw_user_id w" "rw_name (f w) = rw_name w" for w by (simp_all add: f_def)
  have "exec_stmt b db (SqlRuntime now i l n c k s) = (if rd_down db = None then db\<lparr>rd_routines := map f (rd_routines db)\<rparr> else db)"
    by (simp add: update_routine_runtime_def sql_execute_def f_def split: option.split)
  then show "db_wf db \<Longrightarrow> ?thesis" using SqlRuntime by (simp add: db_wf_def o_def f image_image)
next
  case (SqlCompleteRun now i st sm t)
  define f where "f = (\<lambda>w :: run_row. if rr_id w = i then w\<lparr>rr_completed_at := Some (sb_ts b now), rr_status := run_status_display st,
    rr_result_summary := sm, rr_tokens_used := t\<rparr> else w)"
  have f: "rr_id (f w) = rr_id w" "rr_routine_id (f w) = rr_routine_id w"
    "rr_status (f w) = (if rr_id w = i then run_status_display st else rr_status w)" for w by (simp_all add: f_def)
  have "exec_stmt b db (SqlCompleteRun now i st sm t) = (if rd_down db = None then db\<lparr>rd_runs := map f (rd_runs db)\<rparr> else db)"
    by (simp add: complete_routine_run_def sql_execute_def f_def split: option.split)
  then show "db_wf db \<Longrightarrow> ?thesis" using SqlCompleteRun by (simp add: db_wf_def o_def f image_image status_back)
next
  case (SqlCreate r)
  then show "db_wf db \<Longrightarrow> ?thesis"
    by (auto simp: create_routine_def sql_execute_def db_wf_def list_ex_iff new_row_def split: option.split)
next
  case (SqlDelete i)
  then show "db_wf db \<Longrightarrow> ?thesis"
    by (auto simp: delete_routine_def sql_execute_def db_wf_def distinct_map_filter split: option.split)
next
  case (SqlCreateRun r)
  then show "db_wf db \<Longrightarrow> ?thesis"
    by (auto simp: create_routine_run_def sql_execute_def db_wf_def list_ex_iff status_back split: option.split intro: rev_image_eqI)
qed (simp add: db_wf_def)

interpretation tables: inv_machine "exec_stmt b" db_wf for b
  by unfold_locales (rule stmt_wf)

section \<open>Properties\<close>

text \<open>Triggers, actions and run states survive the database: reading what was written gives them back.\<close>

theorem routine_parts_roundtrip:
  "trigger_from_db (trigger_type_tag t) (trigger_to_config_json t) = Ok t \<and>
   action_from_db (action_type_tag a) (action_to_config_json a) = Ok a \<and>
   run_status_from_str (run_status_display s) = Ok s"
  by (simp add: trigger_back action_back status_back)

text \<open>
  C29: A routine that has been created is found by its id and by its name, and is the routine that was written, with its
  durations cut to whole seconds, its timestamps to the precision of the columns, and fresh counters.  With libSQL this holds
  for every routine whose durations fit the 64 bits of a \<open>Duration\<close>, as all of the code's do, if the JSON library reads back
  what it writes; with PostgreSQL it needs nothing of the JSON library, but durations below \<open>2 ^ 31\<close> seconds.
\<close>

theorem routine_store_roundtrip:
  assumes "back = (\<lambda>prec. r\<lparr>rt_guardrails := (rt_guardrails r)\<lparr>gr_cooldown := as_secs (gr_cooldown (rt_guardrails r)) * SECS,
         gr_dedup_window := map_option (\<lambda>d. as_secs d * SECS) (gr_dedup_window (rt_guardrails r))\<rparr>,
       rt_last_run_at := None, rt_next_fire_at := map_option (\<lambda>t. t div prec * prec) (rt_next_fire_at r), rt_run_count := 0,
       rt_consecutive_failures := 0, rt_created_at := rt_created_at r div prec * prec, rt_updated_at := rt_updated_at r div prec * prec\<rparr>)"
  shows "(create_routine (libsql_backend jl) r db = (db', Ok ()) \<and> secs_below (2 ^ 64) r \<and>
      (\<forall>v \<in> {trigger_to_config_json (rt_trigger r), action_to_config_json (rt_action r), rt_state r}. jl_from jl (jl_to jl v) = Some v) \<longrightarrow>
      get_routine (libsql_backend jl) (rt_id r) db' = Ok (Some (back 1000000)) \<and>
      get_routine_by_name (libsql_backend jl) (rt_user_id r) (rt_name r) db' = Ok (Some (back 1000000))) \<and>
    (create_routine pg_backend r pg = (pg', Ok ()) \<and> secs_below (2 ^ 31) r \<longrightarrow>
      get_routine pg_backend (rt_id r) pg' = Ok (Some (back 1000)) \<and>
      get_routine_by_name pg_backend (rt_user_id r) (rt_name r) pg' = Ok (Some (back 1000)))"
proof -
  have "stored (libsql_backend jl) r = back 1000000" "stored pg_backend r = back 1000"
    by (simp_all add: assms stored_def libsql_backend_def pg_backend_def)
  then show ?thesis
    using libsql.create_then_get [of jl r db db'] pg.create_then_get [of r pg pg'] unfolding written_json_def by simp
qed

definition sample_routine :: routine where
  "sample_routine = \<lparr>rt_id = 1, rt_name = ''deploys'', rt_description = [], rt_user_id = ''u'', rt_enabled = True,
     rt_trigger = Event None ''deploy'', rt_action = FullJob ''deploy'' ''watch'' 10, rt_guardrails = guardrails_default,
     rt_notify = notify_default, rt_last_run_at = None, rt_next_fire_at = None, rt_run_count = 0, rt_consecutive_failures = 0,
     rt_state = JObject [], rt_created_at = 0, rt_updated_at = 0\<rparr>"

definition empty_db :: "'j routine_db" where
  "empty_db = \<lparr>rd_routines = [], rd_runs = [], rd_down = None\<rparr>"

definition sample_json :: json_lib where
  "sample_json = \<lparr>jl_from = (\<lambda>s. if s = ''t'' then Some (trigger_to_config_json (rt_trigger sample_routine))
       else if s = ''a'' then Some (action_to_config_json (rt_action sample_routine)) else Some (rt_state sample_routine)),
     jl_to = (\<lambda>v. if v = trigger_to_config_json (rt_trigger sample_routine) then ''t''
       else if v = action_to_config_json (rt_action sample_routine) then ''a'' else ''s''), jl_duration = (\<lambda>_. [])\<rparr>"

lemma sample_create: "create_routine b sample_routine empty_db = (empty_db\<lparr>rd_routines := [new_row b sample_routine]\<rparr>, Ok ())"
  by (simp add: create_routine_def sql_execute_def empty_db_def)

theorem routine_store_roundtrip_witness:
  "\<exists>r. get_routine (libsql_backend sample_json) 1 (empty_db\<lparr>rd_routines := [new_row (libsql_backend sample_json) sample_routine]\<rparr>) = Ok (Some r) \<and>
     get_routine pg_backend 1 (empty_db\<lparr>rd_routines := [new_row pg_backend sample_routine]\<rparr>) = Ok (Some r) \<and>
     rt_trigger r = Event None ''deploy'' \<and> rt_action r = FullJob ''deploy'' ''watch'' 10"
proof -
  have json: "\<forall>v \<in> {trigger_to_config_json (rt_trigger sample_routine), action_to_config_json (rt_action sample_routine), rt_state sample_routine}.
      jl_from sample_json (jl_to sample_json v) = Some v"
    by (auto simp: sample_json_def sample_routine_def)
  have secs: "secs_below n sample_routine" if "n \<ge> 301" for n
    using that by (simp add: secs_below_def sample_routine_def guardrails_default_def as_secs_def SECS_def)
  have one: "rt_id sample_routine = 1" by (simp add: sample_routine_def)
  note trip = routine_store_roundtrip [OF refl, of sample_json sample_routine empty_db _ empty_db, unfolded one]
  show ?thesis
    using trip [THEN conjunct1, rule_format, OF conjI [OF sample_create conjI [OF secs json]]]
      trip [THEN conjunct2, rule_format, OF conjI [OF sample_create secs]]
    by (auto simp: sample_routine_def)
qed

text \<open>
  The tables stay consistent under every sequence of statements, also while the database comes and goes:
  ids and the names of a user's routines are unique, every run belongs to a routine, and every status can be read.
\<close>

theorem routine_tables_consistent: "db_wf (foldl (exec_stmt b) empty_db sts)"
  by (rule tables.run_inv) (simp add: db_wf_def empty_db_def)

text \<open>
  PostgreSQL holds the cooldown in 32 bits: a cooldown of \<open>2 ^ 31\<close> seconds or more, which the tool that
  creates routines accepts, comes back as more than \<open>2 ^ 63\<close> seconds.
\<close>

theorem pg_cooldown_wraps:
  assumes "2 ^ 31 \<le> as_secs (gr_cooldown (rt_guardrails r))" and "as_secs (gr_cooldown (rt_guardrails r)) < 2 ^ 32"
    and "row_to_routine pg_backend (new_row pg_backend r) = Ok r'"
  shows "as_secs (gr_cooldown (rt_guardrails r')) = as_secs (gr_cooldown (rt_guardrails r)) + (2 ^ 64 - 2 ^ 32)"
proof -
  define n where "n = as_secs (gr_cooldown (rt_guardrails r))"
  have n: "2 ^ 31 \<le> n" "n < 2 ^ 32" using assms(1,2) by (simp_all only: n_def)
  have "as_i32 n = (int n + 2 ^ 31) mod 2 ^ 32 - 2 ^ 31"
    by (simp add: as_i32_def signed_of_nat signed_take_bit_eq_take_bit_shift take_bit_eq_mod)
  also have "(int n + 2 ^ 31) mod 2 ^ 32 = int n + 2 ^ 31 - 2 ^ 32"
    using n by (intro int_mod_pos_eq [where q = 1]) auto
  finally have "as_i32 n = int n - 2 ^ 32" by simp
  moreover have "as_u64 k = nat (k mod 2 ^ 64)" for k by (simp add: as_u64_def unsigned_of_int take_bit_eq_mod)
  moreover have "(int n - 2 ^ 32) mod 2 ^ 64 = int n - 2 ^ 32 + 2 ^ 64" using n by (intro int_mod_pos_eq [where q = "- 1"]) auto
  ultimately have "as_u64 (as_i32 n) = nat (int n - 2 ^ 32 + 2 ^ 64)" by (simp only:)
  also have "\<dots> = n + (2 ^ 64 - 2 ^ 32)" using n by (simp add: nat_eq_iff)
  finally have "as_u64 (as_i32 n) = n + (2 ^ 64 - 2 ^ 32)" .
  moreover have "gr_cooldown (rt_guardrails r') = as_u64 (as_i32 n) * SECS" using assms(3)
    by (auto simp: row_to_routine_def new_row_def pg_backend_def trigger_back action_back n_def)
  ultimately have "gr_cooldown (rt_guardrails r') = (n + (2 ^ 64 - 2 ^ 32)) * SECS" by (simp only:)
  then show ?thesis by (simp only: n_def as_secs_def) (simp add: SECS_def)
qed

end
