(* ===== verification/Routine_Engine.thy ===== *)
theory Routine_Engine
  imports Routine Scheduler Util "HOL-Library.Multiset"
begin

text \<open>
  The engine that fires routines, \<^verbatim>\<open>src/src/agent/routine_engine.rs\<close>.

  The engine's state holds the tables, the cache of event routines, the counter of running routines and
  the tasks it has spawned.  A task records its run, begins, ends with a result, completes its run, updates its
  routine and notifies; the checks of triggers look at one routine after the other.  Each of these is one function, and the
  step relation interleaves them.  A check awaits the tables between its conditions, so it is given what it reads
  for each routine: the clock, the tables it counts in and the counter of running routines.  A compiled pattern is the
  predicate it decides.
\<close>

section \<open>State\<close>

type_synonym run_outcome = "(string, run_status \<times> string option \<times> 32 word option) result"

record outgoing =
  og_content :: string
  og_thread_id :: "string option"
  og_metadata :: json

record 'j routine_engine =
  eg_max_concurrent :: nat
  eg_db :: "'j routine_db"
  eg_running :: nat
  eg_cache :: "(uuid \<times> routine \<times> (string \<Rightarrow> bool)) list"
  eg_spawned :: "(routine \<times> routine_run) list"
  eg_recorded :: "(routine \<times> routine_run) list"
  eg_tasks :: "(routine \<times> routine_run) list"
  eg_settling :: "(routine \<times> routine_run \<times> run_outcome) list"
  eg_completed :: "(routine \<times> routine_run \<times> run_outcome) list"
  eg_updated :: "(routine \<times> routine_run \<times> run_outcome) list"
  eg_notices :: "outgoing list"
  eg_fresh :: uuid

record engine_env =
  en_regex :: "string \<Rightarrow> (string, string \<Rightarrow> bool) result"
  en_cron :: "string \<Rightarrow> instant \<Rightarrow> (string, instant option) result"
  en_show_db :: "db_error \<Rightarrow> string"

definition engine_new :: "nat \<Rightarrow> 'j routine_db \<Rightarrow> 'j routine_engine" where
  "engine_new max_concurrent db =
     \<lparr>eg_max_concurrent = max_concurrent, eg_db = db, eg_running = 0, eg_cache = [], eg_spawned = [], eg_recorded = [],
      eg_tasks = [], eg_settling = [], eg_completed = [], eg_updated = [], eg_notices = [], eg_fresh = 0\<rparr>"

definition next_cron_fire :: "engine_env \<Rightarrow> instant \<Rightarrow> string \<Rightarrow> (string, instant option) result" where
  "next_cron_fire env now sched =
     (case en_cron env sched now of Err e \<Rightarrow> Err (''invalid cron: '' @ e) | Ok t \<Rightarrow> Ok t)"

section \<open>Guardrails\<close>

text \<open>\<open>chrono::Duration::from_std\<close> fails beyond \<open>i64::MAX\<close> milliseconds.\<close>

definition from_std :: "duration \<Rightarrow> duration option" where
  "from_std d = (if d > (2 ^ 63 - 1) * 1000000 then None else Some d)"

definition check_cooldown :: "instant \<Rightarrow> routine \<Rightarrow> bool" where
  "check_cooldown now r =
     (case rt_last_run_at r of
        None \<Rightarrow> True
      | Some last_run \<Rightarrow>
          let cooldown = (case from_std (gr_cooldown (rt_guardrails r)) of Some d \<Rightarrow> d | None \<Rightarrow> 300 * SECS)
          in \<not> int now - int last_run < int cooldown)"

definition check_concurrent :: "'j routine_db \<Rightarrow> routine \<Rightarrow> bool" where
  "check_concurrent db r =
     (case count_running_routine_runs (rt_id r) db of
        Ok n \<Rightarrow> n < unat (gr_max_concurrent (rt_guardrails r))
      | Err _ \<Rightarrow> False)"

definition truncate_detail :: "string \<Rightarrow> nat \<Rightarrow> string" where
  "truncate_detail s n = (if length s \<le> n then s else take (floor_char_boundary s n) s @ ''...'')"

section \<open>Firing\<close>

definition refresh_event_cache :: "'j sql_backend \<Rightarrow> engine_env \<Rightarrow> 'j routine_engine \<Rightarrow> 'j routine_engine" where
  "refresh_event_cache b env eg =
     (case list_event_routines b (eg_db eg) of
        Err _ \<Rightarrow> eg
      | Ok routines \<Rightarrow>
          eg\<lparr>eg_cache := List.map_filter (\<lambda>r.
               case rt_trigger r of
                 Event _ p \<Rightarrow> (case en_regex env p of Ok re \<Rightarrow> Some (rt_id r, r, re) | Err _ \<Rightarrow> None)
               | _ \<Rightarrow> None) routines\<rparr>)"

definition new_run :: "uuid \<Rightarrow> instant \<Rightarrow> routine \<Rightarrow> string \<Rightarrow> string option \<Rightarrow> routine_run" where
  "new_run i now r trigger_type detail =
     \<lparr>run_id = i, run_routine_id = rt_id r, run_trigger_type = trigger_type, run_trigger_detail = detail, run_started_at = now,
      run_completed_at = None, run_status = RunRunning, run_result_summary = None, run_tokens_used = None, run_job_id = None\<rparr>"

definition spawn_fire :: "instant \<Rightarrow> routine \<Rightarrow> string \<Rightarrow> string option \<Rightarrow> 'j routine_engine \<Rightarrow> 'j routine_engine" where
  "spawn_fire now r trigger_type detail eg =
     eg\<lparr>eg_spawned := eg_spawned eg @ [(r, new_run (eg_fresh eg) now r trigger_type detail)], eg_fresh := eg_fresh eg + 1\<rparr>"

text \<open>One round of the loop over the cache.\<close>

definition event_matches :: "string \<Rightarrow> string \<Rightarrow> routine \<Rightarrow> (string \<Rightarrow> bool) \<Rightarrow> bool" where
  "event_matches channel content r re \<longleftrightarrow>
     (case rt_trigger r of Event (Some ch) _ \<Rightarrow> ch = channel | _ \<Rightarrow> True) \<and> re content"

text \<open>What the check of one routine reads: the clock, the tables and the counter.\<close>

type_synonym 'j reading = "instant \<times> 'j routine_db \<times> nat"

definition check_event_routine ::
  "string \<Rightarrow> string \<Rightarrow> 'j reading \<Rightarrow> routine \<Rightarrow> (string \<Rightarrow> bool) \<Rightarrow> 'j routine_engine \<Rightarrow> 'j routine_engine \<times> nat" where
  "check_event_routine channel content reading r re eg =
     (let (now, db, running) = reading in
      if \<not> event_matches channel content r re then (eg, 0)
      else if \<not> check_cooldown now r then (eg, 0)
      else if \<not> check_concurrent db r then (eg, 0)
      else if running \<ge> eg_max_concurrent eg then (eg, 0)
      else (spawn_fire now r ''event'' (Some (truncate_detail content 200)) eg, 1))"

text \<open>The lock on the cache is held for the whole loop.\<close>

definition check_event_triggers ::
  "string \<Rightarrow> string \<Rightarrow> 'j reading list \<Rightarrow> 'j routine_engine \<Rightarrow> 'j routine_engine \<times> nat" where
  "check_event_triggers channel content readings eg =
     foldl (\<lambda>(eg, fired) ((_, r, re), reading).
         let (eg', n) = check_event_routine channel content reading r re eg in (eg', fired + n))
       (eg, 0) (zip (eg_cache eg) readings)"

definition cron_detail :: "routine \<Rightarrow> string option" where
  "cron_detail r = (case rt_trigger r of Cron sched \<Rightarrow> Some sched | _ \<Rightarrow> None)"

definition check_cron_routine :: "'j reading \<Rightarrow> routine \<Rightarrow> 'j routine_engine \<Rightarrow> 'j routine_engine" where
  "check_cron_routine reading r eg =
     (let (now, db, _) = reading in
      if \<not> check_cooldown now r then eg
      else if \<not> check_concurrent db r then eg
      else spawn_fire now r ''cron'' (cron_detail r) eg)"

fun cron_loop :: "(routine \<times> 'j reading) list \<Rightarrow> 'j routine_engine \<Rightarrow> 'j routine_engine" where
  "cron_loop [] eg = eg"
| "cron_loop ((r, reading) # rs) eg =
     (if snd (snd reading) \<ge> eg_max_concurrent eg then eg else cron_loop rs (check_cron_routine reading r eg))"

definition check_cron_triggers ::
  "'j sql_backend \<Rightarrow> instant \<Rightarrow> 'j reading list \<Rightarrow> 'j routine_engine \<Rightarrow> 'j routine_engine" where
  "check_cron_triggers b now readings eg =
     (case list_due_cron_routines b now (eg_db eg) of Err _ \<Rightarrow> eg | Ok rs \<Rightarrow> cron_loop (zip rs readings) eg)"

definition fire_manual ::
  "'j sql_backend \<Rightarrow> engine_env \<Rightarrow> display_lib \<Rightarrow> instant \<Rightarrow> uuid \<Rightarrow> 'j routine_engine \<Rightarrow> 'j routine_engine \<times> (string, uuid) result" where
  "fire_manual b env dl now i eg =
     (case get_routine b i (eg_db eg) of
        Err e \<Rightarrow> (eg, Err (''DB error: '' @ en_show_db env e))
      | Ok None \<Rightarrow> (eg, Err (''routine '' @ dl_uuid dl i @ '' not found''))
      | Ok (Some r) \<Rightarrow>
          if \<not> rt_enabled r then (eg, Err (''routine '' @ [CHR 0x27] @ rt_name r @ [CHR 0x27] @ '' is disabled''))
          else if \<not> check_concurrent (eg_db eg) r
          then (eg, Err (''routine '' @ [CHR 0x27] @ rt_name r @ [CHR 0x27] @ '' already at max concurrent runs''))
          else let run = new_run (eg_fresh eg) now r ''manual'' None in
            case create_routine_run b run (eg_db eg) of
              (db, Err e) \<Rightarrow> (eg\<lparr>eg_db := db, eg_fresh := eg_fresh eg + 1\<rparr>, Err (''failed to create run record: '' @ en_show_db env e))
            | (db, Ok _) \<Rightarrow> (eg\<lparr>eg_db := db, eg_fresh := eg_fresh eg + 1, eg_recorded := eg_recorded eg @ [(r, run)]\<rparr>, Ok (run_id run)))"

section \<open>The life of a task\<close>

definition record_run :: "'j sql_backend \<Rightarrow> routine \<times> routine_run \<Rightarrow> 'j routine_engine \<Rightarrow> 'j routine_engine" where
  "record_run b t eg =
     (case create_routine_run b (snd t) (eg_db eg) of
        (db, Err _) \<Rightarrow> eg\<lparr>eg_db := db, eg_spawned := remove1 t (eg_spawned eg)\<rparr>
      | (db, Ok _) \<Rightarrow> eg\<lparr>eg_db := db, eg_spawned := remove1 t (eg_spawned eg), eg_recorded := eg_recorded eg @ [t]\<rparr>)"

definition begin_run :: "routine \<times> routine_run \<Rightarrow> 'j routine_engine \<Rightarrow> 'j routine_engine" where
  "begin_run t eg =
     eg\<lparr>eg_recorded := remove1 t (eg_recorded eg), eg_running := eg_running eg + 1, eg_tasks := eg_tasks eg @ [t]\<rparr>"

definition end_run :: "routine \<times> routine_run \<Rightarrow> run_outcome \<Rightarrow> 'j routine_engine \<Rightarrow> 'j routine_engine" where
  "end_run t res eg =
     eg\<lparr>eg_tasks := remove1 t (eg_tasks eg), eg_running := eg_running eg - 1,
        eg_settling := eg_settling eg @ [(fst t, snd t, res)]\<rparr>"

fun should_notify :: "notify_config \<Rightarrow> run_status \<Rightarrow> bool" where
  "should_notify n RunOk = nc_on_success n"
| "should_notify n RunAttention = nc_on_attention n"
| "should_notify n RunFailed = nc_on_failure n"
| "should_notify n RunRunning = False"

fun status_icon :: "run_status \<Rightarrow> string" where
  "status_icon RunOk = [CHR 0xE2, CHR 0x9C, CHR 0x85]"
| "status_icon RunAttention = [CHR 0xF0, CHR 0x9F, CHR 0x94, CHR 0x94]"
| "status_icon RunFailed = [CHR 0xE2, CHR 0x9D, CHR 0x8C]"
| "status_icon RunRunning = [CHR 0xE2, CHR 0x8F, CHR 0xB3]"

definition send_notification :: "notify_config \<Rightarrow> string \<Rightarrow> run_status \<Rightarrow> string option \<Rightarrow> outgoing list" where
  "send_notification n name status summ =
     (if \<not> should_notify n status then []
      else [\<lparr>og_content = status_icon status @ '' *Routine '' @ [CHR 0x27] @ name @ [CHR 0x27] @ ''*: '' @ run_status_display status @
               (case summ of Some s \<Rightarrow> [CHR 0x0A, CHR 0x0A] @ s | None \<Rightarrow> []),
             og_thread_id = None,
             og_metadata = JObject [(''source'', JString ''routine''), (''routine_name'', JString name),
                                    (''status'', JString (run_status_display status))]\<rparr>])"

text \<open>The forwarder in the agent takes the user to notify from the metadata.\<close>

definition notify_user :: "outgoing \<Rightarrow> string" where
  "notify_user og = (case json_str (og_metadata og) ''notify_user'' of Some u \<Rightarrow> u | None \<Rightarrow> ''default'')"

definition outcome_parts :: "run_outcome \<Rightarrow> run_status \<times> string option \<times> 32 word option" where
  "outcome_parts res = (case res of Ok x \<Rightarrow> x | Err e \<Rightarrow> (RunFailed, Some e, None))"

text \<open>After the end: the run's row, the routine's row and the notification, each on its own.\<close>

definition complete_run ::
  "'j sql_backend \<Rightarrow> instant \<Rightarrow> routine \<times> routine_run \<times> run_outcome \<Rightarrow> 'j routine_engine \<Rightarrow> 'j routine_engine" where
  "complete_run b now t eg =
     (let (r, run, res) = t; (status, summ, tokens) = outcome_parts res
      in eg\<lparr>eg_settling := remove1 t (eg_settling eg), eg_completed := eg_completed eg @ [t],
            eg_db := fst (complete_routine_run b now (run_id run) status summ tokens (eg_db eg))\<rparr>)"

definition update_runtime ::
  "'j sql_backend \<Rightarrow> engine_env \<Rightarrow> instant \<Rightarrow> routine \<times> routine_run \<times> run_outcome \<Rightarrow> 'j routine_engine \<Rightarrow> 'j routine_engine" where
  "update_runtime b env now t eg =
     (let (r, run, res) = t; (status, summ, tokens) = outcome_parts res;
          next_fire = (case rt_trigger r of
                         Cron sched \<Rightarrow> (case next_cron_fire env now sched of Ok x \<Rightarrow> x | Err _ \<Rightarrow> None)
                       | _ \<Rightarrow> None);
          new_failures = (if status = RunFailed then rt_consecutive_failures r + 1 else 0)
      in eg\<lparr>eg_completed := remove1 t (eg_completed eg), eg_updated := eg_updated eg @ [t],
            eg_db := fst (update_routine_runtime b now (rt_id r) now next_fire (rt_run_count r + 1) new_failures (rt_state r) (eg_db eg))\<rparr>)"

definition notify_run :: "routine \<times> routine_run \<times> run_outcome \<Rightarrow> 'j routine_engine \<Rightarrow> 'j routine_engine" where
  "notify_run t eg =
     (let (r, run, res) = t; (status, summ, tokens) = outcome_parts res
      in eg\<lparr>eg_updated := remove1 t (eg_updated eg),
            eg_notices := eg_notices eg @ send_notification (rt_notify r) (rt_name r) status summ\<rparr>)"

section \<open>Single calls\<close>

record lightweight_env =
  le_read :: "string \<Rightarrow> string option"
  le_system_prompt :: "string option"
  le_context_length :: "u32 option option"
  le_complete :: "completion_request \<Rightarrow> (llm_error, completion_response) result"
  le_display :: display_lib

definition para :: string where "para = [CHR 0x0A, CHR 0x0A]"

definition lightweight_prompt :: "lightweight_env \<Rightarrow> routine \<Rightarrow> string \<Rightarrow> string list \<Rightarrow> string" where
  "lightweight_prompt le r prompt context_paths =
     (let parts = List.map_filter (\<lambda>p. case le_read le p of Some content \<Rightarrow> Some (''## '' @ p @ para @ content) | None \<Rightarrow> None) context_paths
      in prompt @
         (if parts = [] then [] else para @ ''---'' @ para @ ''# Context'' @ para @ join para parts) @
         (case le_read le (''routines/'' @ rt_name r @ ''/state.md'') of
            Some state \<Rightarrow> para @ ''---'' @ para @ ''# Previous State'' @ para @ state
          | None \<Rightarrow> []) @
         para @ ''---'' @ para @ ''If nothing needs attention, reply EXACTLY with: ROUTINE_OK'' @ [CHR 0x0A] @
         ''If something needs attention, provide a concise summary.'')"

definition lightweight_request :: "lightweight_env \<Rightarrow> routine \<Rightarrow> string \<Rightarrow> string list \<Rightarrow> u32 \<Rightarrow> completion_request" where
  "lightweight_request le r prompt context_paths max_tokens =
     (let full = lightweight_prompt le r prompt context_paths;
          system = (case le_system_prompt le of Some p \<Rightarrow> p | None \<Rightarrow> []);
          effective = (case le_context_length le of
                         Some meta \<Rightarrow> max (case meta of Some n \<Rightarrow> n div 2 | None \<Rightarrow> max_tokens) max_tokens
                       | None \<Rightarrow> max_tokens)
      in (completion_request_new (if system = [] then [msg_user full] else [msg_system system, msg_user full]))
         \<lparr>cr_max_tokens := Some effective, cr_temperature := Some 0x3E99999A\<rparr>)"

definition execute_lightweight :: "lightweight_env \<Rightarrow> routine \<Rightarrow> string \<Rightarrow> string list \<Rightarrow> u32 \<Rightarrow> run_outcome" where
  "execute_lightweight le r prompt context_paths max_tokens =
     (case le_complete le (lightweight_request le r prompt context_paths max_tokens) of
        Err e \<Rightarrow> Err (''LLM call failed: '' @ llm_error_display (le_display le) e)
      | Ok response \<Rightarrow>
          let content = trim (rs_content response);
              tokens = Some (rs_input_tokens response + rs_output_tokens response)
          in if content = [] then
               Err (if rs_finish_reason response = Length
                    then ''LLM response truncated (finish_reason=length) with no content. Model may have exhausted token budget on reasoning.''
                    else ''LLM returned empty content.'')
             else if content = ''ROUTINE_OK'' \<or> contains content ''ROUTINE_OK'' then Ok (RunOk, None, tokens)
             else Ok (RunAttention, Some content, tokens))"

section \<open>Full jobs\<close>

definition full_job_start ::
  "display_lib \<Rightarrow> uuid \<Rightarrow> instant \<Rightarrow> instant \<Rightarrow> routine \<Rightarrow> string \<Rightarrow> string \<Rightarrow> ('d::zero) scheduler \<Rightarrow> 'd scheduler \<times> (string, uuid) result" where
  "full_job_start dl i now now' r title description st =
     (case create_job_for_user i now (sc_cx st) (rt_user_id r) title description of
        (cx, Err e) \<Rightarrow> (st\<lparr>sc_cx := cx\<rparr>, Err (''failed to create full_job context: '' @ job_error_display dl e))
      | (cx, Ok job_id) \<Rightarrow>
          (case schedule now now' job_id (st\<lparr>sc_cx := cx\<rparr>) of
             (st', Err e) \<Rightarrow> (st', Err (''failed to schedule full_job: '' @ job_error_display dl e))
           | (st', Ok _) \<Rightarrow> (st', Ok job_id)))"

text \<open>\<open>saturating_mul\<close> and \<open>clamp\<close> on 64 bits.\<close>

definition job_timeout_secs :: "u32 \<Rightarrow> nat" where
  "job_timeout_secs max_iterations = min 1800 (max 60 (min (unat max_iterations * 30) (2 ^ 64 - 1)))"

text \<open>One round of the loop that waits for the job: \<open>None\<close> when it sleeps and looks again.\<close>

definition poll_job :: "display_lib \<Rightarrow> uuid \<Rightarrow> string \<Rightarrow> ('d job_context) \<Rightarrow> run_outcome option" where
  "poll_job dl job_id title c =
     (let job = ''(job_id='' @ dl_uuid dl job_id @ '')'' in
      if jc_state c \<in> {Completed, Accepted}
      then Some (Ok (RunOk, Some (''Full job '' @ [CHR 0x27] @ title @ [CHR 0x27] @ '' completed successfully '' @ job), None))
      else if jc_state c = job_state.Failed
      then Some (Ok (RunFailed, Some (''Full job failed '' @ job @ '': '' @
             (if jc_transitions c = [] then ''Job failed''
              else case tr_reason (last (jc_transitions c)) of Some s \<Rightarrow> s | None \<Rightarrow> ''Job failed'')), None))
      else if jc_state c = job_state.Cancelled
      then Some (Ok (RunFailed, Some (''Full job cancelled '' @ job), None))
      else None)"

text \<open>
  The loop, for what it sees: the clock and the scheduler of each round.  At the deadline it stops the
  job.  It has no result while the rounds have not ended it.
\<close>

fun wait_for_job ::
  "display_lib \<Rightarrow> uuid \<Rightarrow> string \<Rightarrow> nat \<Rightarrow> instant \<Rightarrow> (instant \<times> ('d::zero) scheduler) list \<Rightarrow> ('d scheduler \<times> run_outcome) option" where
  "wait_for_job dl job_id title timeout_secs deadline [] = None"
| "wait_for_job dl job_id title timeout_secs deadline ((now, st) # rounds) =
     (if now \<ge> deadline
      then Some (fst (stop now now job_id st),
             Err (''full_job timed out after '' @ nat_str timeout_secs @ ''s (job_id='' @ dl_uuid dl job_id @ '')''))
      else case get_context (sc_cx st) job_id of
        Err e \<Rightarrow> Some (st, Err (''failed to read full_job context: '' @ job_error_display dl e))
      | Ok c \<Rightarrow>
          (case poll_job dl job_id title c of
             Some res \<Rightarrow> Some (st, res)
           | None \<Rightarrow> wait_for_job dl job_id title timeout_secs deadline rounds))"

text \<open>The whole execution: the rounds see schedulers that come after the start.\<close>

definition execute_full_job ::
  "display_lib \<Rightarrow> uuid \<Rightarrow> instant \<Rightarrow> instant \<Rightarrow> routine \<Rightarrow> string \<Rightarrow> string \<Rightarrow> u32 \<Rightarrow> ('d::zero) scheduler \<Rightarrow>
   (instant \<times> 'd scheduler) list \<Rightarrow> ('d scheduler \<times> run_outcome) option" where
  "execute_full_job dl i now now' r title description max_iterations st rounds =
     (case full_job_start dl i now now' r title description st of
        (st', Err e) \<Rightarrow> Some (st', Err e)
      | (st', Ok job_id) \<Rightarrow>
          let timeout_secs = job_timeout_secs max_iterations
          in wait_for_job dl job_id title timeout_secs (now' + timeout_secs * SECS) rounds)"

text \<open>What a task does between its begin and its end.\<close>

definition execute_action ::
  "lightweight_env \<Rightarrow> display_lib \<Rightarrow> uuid \<Rightarrow> instant \<Rightarrow> instant \<Rightarrow> routine \<Rightarrow> ('d::zero) scheduler \<Rightarrow> (instant \<times> 'd scheduler) list \<Rightarrow>
   ('d scheduler \<times> run_outcome) option" where
  "execute_action le dl i now now' r st rounds =
     (case rt_action r of
        Lightweight prompt context_paths max_tokens \<Rightarrow> Some (st, execute_lightweight le r prompt context_paths max_tokens)
      | FullJob title description max_iterations \<Rightarrow> execute_full_job dl i now now' r title description max_iterations st rounds)"

section \<open>The steps of the engine\<close>

text \<open>
  The checks, the tasks and the other users of the tables, interleaved.  \<open>may_delete\<close> says which routines
  are deleted on the way.  What a check has read may be out of date when it fires, so it is arbitrary here; so is the routine
  checked by the ticker, which an earlier query returned.
\<close>

inductive engine_step :: "'j sql_backend \<Rightarrow> engine_env \<Rightarrow> (uuid \<Rightarrow> bool) \<Rightarrow> bool \<Rightarrow> 'j routine_engine \<Rightarrow> 'j routine_engine \<Rightarrow> bool"
  for b env may_delete may_refresh where
  refresh: "may_refresh \<Longrightarrow> engine_step b env may_delete may_refresh eg (refresh_event_cache b env eg)"
| event: "(i, r, re) \<in> set (eg_cache eg) \<Longrightarrow>
    engine_step b env may_delete may_refresh eg (fst (check_event_routine channel content reading r re eg))"
| cron: "engine_step b env may_delete may_refresh eg (check_cron_routine reading r eg)"
| manual: "engine_step b env may_delete may_refresh eg (fst (fire_manual b env dl now i eg))"
| records: "t \<in> set (eg_spawned eg) \<Longrightarrow> engine_step b env may_delete may_refresh eg (record_run b t eg)"
| begins: "t \<in> set (eg_recorded eg) \<Longrightarrow> engine_step b env may_delete may_refresh eg (begin_run t eg)"
| finish: "t \<in> set (eg_tasks eg) \<Longrightarrow> engine_step b env may_delete may_refresh eg (end_run t res eg)"
| completes: "u \<in> set (eg_settling eg) \<Longrightarrow> engine_step b env may_delete may_refresh eg (complete_run b now u eg)"
| updates: "u \<in> set (eg_completed eg) \<Longrightarrow> engine_step b env may_delete may_refresh eg (update_runtime b env now u eg)"
| notifies: "u \<in> set (eg_updated eg) \<Longrightarrow> engine_step b env may_delete may_refresh eg (notify_run u eg)"
| create: "engine_step b env may_delete may_refresh eg (eg\<lparr>eg_db := fst (create_routine b r (eg_db eg))\<rparr>)"
| update: "engine_step b env may_delete may_refresh eg (eg\<lparr>eg_db := fst (update_routine b now r (eg_db eg))\<rparr>)"
| delete: "may_delete i \<Longrightarrow> engine_step b env may_delete may_refresh eg (eg\<lparr>eg_db := fst (delete_routine i (eg_db eg))\<rparr>)"
| reach: "engine_step b env may_delete may_refresh eg (eg\<lparr>eg_db := (eg_db eg)\<lparr>rd_down := e\<rparr>\<rparr>)"

inductive_cases engine_stepE: "engine_step b env may_delete may_refresh eg eg'"

definition live_ids :: "'j routine_engine \<Rightarrow> uuid list" where
  "live_ids eg = map (\<lambda>t. run_id (snd t)) (eg_spawned eg @ eg_recorded eg @ eg_tasks eg) @ map (\<lambda>u. run_id (fst (snd u))) (eg_settling eg)"

definition row_ids :: "'j routine_engine \<Rightarrow> uuid set" where
  "row_ids eg = rr_id ` set (rd_runs (eg_db eg))"

definition engine_inv :: "'j routine_engine \<Rightarrow> bool" where
  "engine_inv eg \<longleftrightarrow> eg_running eg = length (eg_tasks eg) \<and> distinct (live_ids eg) \<and>
     set (live_ids eg) \<union> row_ids eg \<subseteq> {..<eg_fresh eg} \<and> run_id ` snd ` set (eg_spawned eg) \<inter> row_ids eg = {} \<and>
     db_wf (eg_db eg)"

text \<open>The statements, seen from the runs.\<close>

lemma runs_of_statements [simp]:
  "rd_runs (fst (create_routine b r db)) = rd_runs db" "rd_runs (fst (update_routine b now r db)) = rd_runs db"
  "rd_runs (fst (update_routine_runtime b now i l n c k js db)) = rd_runs db"
  "rd_down (fst (update_routine_runtime b now i l n c k js db)) = rd_down db"
  "rd_down (fst (complete_routine_run b now j st sm tk db)) = rd_down db"
  by (simp_all add: create_routine_def update_routine_def update_routine_runtime_def complete_routine_run_def sql_execute_def
      split: option.split)

lemma complete_ids [simp]: "rr_id ` set (rd_runs (fst (complete_routine_run b now j st sm tk db))) = rr_id ` set (rd_runs db)"
proof -
  define f where "f = (\<lambda>w :: run_row. if rr_id w = j then w\<lparr>rr_completed_at := Some (sb_ts b now), rr_status := run_status_display st,
    rr_result_summary := sm, rr_tokens_used := tk\<rparr> else w)"
  have "rr_id (f w) = rr_id w" for w by (simp add: f_def)
  moreover have "rd_runs (fst (complete_routine_run b now j st sm tk db)) = (if rd_down db = None then map f (rd_runs db) else rd_runs db)"
    by (simp add: complete_routine_run_def sql_execute_def f_def split: option.split)
  ultimately show ?thesis by (simp add: image_image)
qed

lemma create_run_cases:
  "create_routine_run b run db = (db', Err e) \<Longrightarrow> db' = db"
  "create_routine_run b run db = (db', Ok ()) \<Longrightarrow>
     rr_id ` set (rd_runs db') = insert (run_id run) (rr_id ` set (rd_runs db)) \<and> run_id run \<notin> rr_id ` set (rd_runs db)"
  by (auto simp: create_routine_run_def sql_execute_def list_ex_iff split: option.splits if_splits)

lemma submset_distinct:
  assumes "mset xs \<subseteq># mset ys" and "distinct ys"
  shows "distinct xs \<and> set xs \<subseteq> set ys"
proof -
  obtain zs where "mset ys = mset (xs @ zs)" by (metis assms(1) ex_mset mset_append subset_mset.add_diff_inverse)
  then have "distinct xs" using assms(2) mset_eq_imp_distinct_iff by fastforce
  then show ?thesis using set_mset_mono [OF assms(1)] by simp
qed

lemma statements_wf:
  assumes "db_wf db"
  shows "db_wf (fst (create_routine b r db))" "db_wf (fst (update_routine b now r db))" "db_wf (fst (delete_routine i db))"
    "db_wf (fst (create_routine_run b run db))" "db_wf (fst (complete_routine_run b now i st sm tk db))"
    "db_wf (fst (update_routine_runtime b now i l n c k js db))" "db_wf (db\<lparr>rd_down := e\<rparr>)"
  using stmt_wf [OF assms, of b "SqlCreate r"] stmt_wf [OF assms, of b "SqlUpdate now r"] stmt_wf [OF assms, of b "SqlDelete i"]
    stmt_wf [OF assms, of b "SqlCreateRun run"] stmt_wf [OF assms, of b "SqlCompleteRun now i st sm tk"]
    stmt_wf [OF assms, of b "SqlRuntime now i l n c k js"] stmt_wf [OF assms, of b "SqlReach e"] by simp_all

lemma mset_move: "t \<in> set xs \<Longrightarrow> add_mset (f t) (image_mset f (mset xs - {#t#})) = image_mset f (mset xs)"
  by (metis image_mset_add_mset insert_DiffM set_mset_mset)

lemma live_ids_moves:
  shows "t \<in> set (eg_recorded eg) \<Longrightarrow> mset (live_ids (begin_run t eg)) = mset (live_ids eg)"
    and "t \<in> set (eg_tasks eg) \<Longrightarrow> mset (live_ids (end_run t res eg)) = mset (live_ids eg)"
    and "t \<in> set (eg_spawned eg) \<Longrightarrow>
      mset (live_ids (eg\<lparr>eg_spawned := remove1 t (eg_spawned eg), eg_recorded := eg_recorded eg @ [t]\<rparr>)) = mset (live_ids eg)"
  using mset_move [where f = "\<lambda>t. run_id (snd t)" and t = t and xs = "eg_recorded eg"]
    mset_move [where f = "\<lambda>t. run_id (snd t)" and t = t and xs = "eg_tasks eg"]
    mset_move [where f = "\<lambda>t. run_id (snd t)" and t = t and xs = "eg_spawned eg"]
  by (simp_all add: live_ids_def begin_run_def end_run_def)

lemma distinct_of_mset: "mset xs = mset ys \<Longrightarrow> distinct xs = distinct ys \<and> set xs = set ys"
  using mset_eq_imp_distinct_iff mset_eq_setD by blast

lemma spawn_inv: "engine_inv eg \<Longrightarrow> engine_inv (spawn_fire now r ty d eg)"
  by (auto simp: engine_inv_def spawn_fire_def live_ids_def row_ids_def new_run_def less_Suc_eq)

lemma check_event_cases:
  "fst (check_event_routine ch content reading r re eg) = eg \<or>
   fst (check_event_routine ch content reading r re eg) = spawn_fire (fst reading) r ''event'' (Some (truncate_detail content 200)) eg"
  by (simp add: check_event_routine_def Let_def split: prod.split)

lemma check_cron_cases:
  "check_cron_routine reading r eg = eg \<or> check_cron_routine reading r eg = spawn_fire (fst reading) r ''cron'' (cron_detail r) eg"
  by (simp add: check_cron_routine_def Let_def split: prod.split)

lemma run_created_wf: "db_wf db \<Longrightarrow> create_routine_run b run db = (db', r) \<Longrightarrow> db_wf db'"
  using statements_wf(4) [of db b run] by simp

lemma live_ids_ops [simp]:
  "live_ids (eg\<lparr>eg_db := db\<rparr>) = live_ids eg" "live_ids (eg\<lparr>eg_cache := c\<rparr>) = live_ids eg"
  by (simp_all add: live_ids_def)

lemma live_ids_removed:
  "mset (live_ids (eg\<lparr>eg_spawned := remove1 t (eg_spawned eg)\<rparr>)) \<subseteq># mset (live_ids eg)"
  "mset (live_ids (eg\<lparr>eg_settling := remove1 u (eg_settling eg)\<rparr>)) \<subseteq># mset (live_ids eg)"
  by (simp_all add: live_ids_def image_mset_subseteq_mono subset_mset.add_mono)

lemma remove1_ids: "run_id ` snd ` set (remove1 t xs) \<subseteq> run_id ` snd ` set xs"
  by (intro image_mono set_remove1_subset)

lemma disjoint_mono: "A \<subseteq> B \<Longrightarrow> B \<inter> C = {} \<Longrightarrow> A \<inter> C = {}"
  by blast

lemma remove1_others:
  assumes "distinct (map f xs)" and "t \<in> set xs"
  shows "f t \<notin> f ` set (remove1 t xs)"
  using assms by (auto simp: in_set_conv_decomp [of t] remove1_append split: if_splits)

lemma record_inv:
  assumes inv: "engine_inv eg" and t: "t \<in> set (eg_spawned eg)"
  shows "engine_inv (record_run b t eg)"
proof -
  obtain db r where c: "create_routine_run b (snd t) (eg_db eg) = (db, r)" by fastforce
  have wf: "db_wf db" using inv c run_created_wf by (auto simp: engine_inv_def)
  show ?thesis
  proof (cases r)
    case (Inl e)
    then have "db = eg_db eg" using c create_run_cases(1) by blast
    then have "record_run b t eg = eg\<lparr>eg_spawned := remove1 t (eg_spawned eg)\<rparr>" using c Inl by (simp add: record_run_def)
    moreover have "run_id ` snd ` set (remove1 t (eg_spawned eg)) \<inter> row_ids eg = {}"
      using inv by (intro disjoint_mono [OF remove1_ids]) (simp add: engine_inv_def)
    moreover have "row_ids (eg\<lparr>eg_spawned := xs\<rparr>) = row_ids eg" for xs by (simp add: row_ids_def)
    ultimately show ?thesis using inv submset_distinct [OF live_ids_removed(1) [where eg = eg and t = t]]
      by (auto simp: engine_inv_def simp del: set_remove1_eq)
  next
    case (Inr u)
    let ?eg = "eg\<lparr>eg_spawned := remove1 t (eg_spawned eg), eg_recorded := eg_recorded eg @ [t]\<rparr>"
    have ids: "rr_id ` set (rd_runs db) = insert (run_id (snd t)) (row_ids eg)"
      using c Inr create_run_cases(2) [of b "snd t" "eg_db eg" db] by (simp add: row_ids_def)
    have l: "distinct (live_ids ?eg)" "set (live_ids ?eg) = set (live_ids eg)"
      using distinct_of_mset [OF live_ids_moves(3) [OF t]] inv by (auto simp: engine_inv_def)
    have e: "record_run b t eg = ?eg\<lparr>eg_db := db\<rparr>" using c Inr by (simp add: record_run_def)
    have "distinct (map (\<lambda>t. run_id (snd t)) (eg_spawned eg))" "run_id (snd t) \<in> set (live_ids eg)"
      using inv t by (auto simp: engine_inv_def live_ids_def)
    then have "run_id (snd t) \<notin> run_id ` snd ` set (remove1 t (eg_spawned eg))"
      using remove1_others [OF _ t] by (auto simp: image_image)
    moreover have "run_id ` snd ` set (remove1 t (eg_spawned eg)) \<inter> row_ids eg = {}"
      using inv by (intro disjoint_mono [OF remove1_ids]) (simp add: engine_inv_def)
    moreover have "row_ids (?eg\<lparr>eg_db := db\<rparr>) = insert (run_id (snd t)) (row_ids eg)" using ids by (simp add: row_ids_def)
    ultimately show ?thesis using inv wf l \<open>run_id (snd t) \<in> set (live_ids eg)\<close>
      unfolding e by (auto simp: engine_inv_def simp del: set_remove1_eq)
  qed
qed

lemma begin_inv: "engine_inv eg \<Longrightarrow> t \<in> set (eg_recorded eg) \<Longrightarrow> engine_inv (begin_run t eg)"
  using distinct_of_mset [OF live_ids_moves(1) [of t eg]] by (simp add: engine_inv_def row_ids_def) (simp add: begin_run_def)

lemma end_inv: "engine_inv eg \<Longrightarrow> t \<in> set (eg_tasks eg) \<Longrightarrow> engine_inv (end_run t res eg)"
  using distinct_of_mset [OF live_ids_moves(2) [of t eg res]] by (simp add: engine_inv_def row_ids_def) (simp add: end_run_def length_remove1)

lemma after_end_fields:
  "live_ids (complete_run b now u eg) = live_ids (eg\<lparr>eg_settling := remove1 u (eg_settling eg)\<rparr>)"
  "live_ids (update_runtime b env now u eg) = live_ids eg" "live_ids (notify_run u eg) = live_ids eg"
  "row_ids (complete_run b now u eg) = row_ids eg" "row_ids (update_runtime b env now u eg) = row_ids eg" "row_ids (notify_run u eg) = row_ids eg"
  "eg_spawned (complete_run b now u eg) = eg_spawned eg" "eg_tasks (complete_run b now u eg) = eg_tasks eg"
  "eg_running (complete_run b now u eg) = eg_running eg" "eg_fresh (complete_run b now u eg) = eg_fresh eg"
  "eg_spawned (update_runtime b env now u eg) = eg_spawned eg" "eg_tasks (update_runtime b env now u eg) = eg_tasks eg"
  "eg_running (update_runtime b env now u eg) = eg_running eg" "eg_fresh (update_runtime b env now u eg) = eg_fresh eg"
  "eg_spawned (notify_run u eg) = eg_spawned eg" "eg_tasks (notify_run u eg) = eg_tasks eg"
  "eg_running (notify_run u eg) = eg_running eg" "eg_fresh (notify_run u eg) = eg_fresh eg" "eg_db (notify_run u eg) = eg_db eg"
  "eg_cache (complete_run b now u eg) = eg_cache eg" "eg_cache (update_runtime b env now u eg) = eg_cache eg" "eg_cache (notify_run u eg) = eg_cache eg"
  "db_wf (eg_db eg) \<Longrightarrow> db_wf (eg_db (complete_run b now u eg))" "db_wf (eg_db eg) \<Longrightarrow> db_wf (eg_db (update_runtime b env now u eg))"
  "rd_runs (eg_db (update_runtime b env now u eg)) = rd_runs (eg_db eg)"
  by (simp_all add: complete_run_def update_runtime_def notify_run_def live_ids_def row_ids_def statements_wf Let_def split: prod.split)

lemma settle_inv:
  assumes "engine_inv eg"
  shows "engine_inv (complete_run b now u eg)" "engine_inv (update_runtime b env now u eg)" "engine_inv (notify_run u eg)"
  using assms submset_distinct [OF live_ids_removed(2) [where eg = eg and u = u]]
  by (auto simp: engine_inv_def after_end_fields)

lemma manual_inv:
  assumes inv: "engine_inv eg"
  shows "engine_inv (fst (fire_manual b env dl now i eg))"
proof -
  have refused: "engine_inv (eg\<lparr>eg_db := eg_db eg, eg_fresh := eg_fresh eg + 1\<rparr>)"
    using inv by (auto simp: engine_inv_def live_ids_def row_ids_def less_Suc_eq)
  have started: "engine_inv (eg\<lparr>eg_db := db, eg_fresh := eg_fresh eg + 1, eg_recorded := eg_recorded eg @ [(r, new_run (eg_fresh eg) now r ''manual'' None)]\<rparr>)"
    (is "engine_inv ?eg")
    if c: "create_routine_run b (new_run (eg_fresh eg) now r ''manual'' None) (eg_db eg) = (db, Ok ())" for db r
  proof -
    have "mset (live_ids ?eg) = add_mset (eg_fresh eg) (mset (live_ids eg))" "row_ids ?eg = insert (eg_fresh eg) (row_ids eg)"
      using create_run_cases(2) [OF c] by (simp_all add: live_ids_def row_ids_def new_run_def)
    moreover from this have "distinct (live_ids ?eg) = distinct (eg_fresh eg # live_ids eg)" "set (live_ids ?eg) = insert (eg_fresh eg) (set (live_ids eg))"
      using distinct_of_mset [of "live_ids ?eg" "eg_fresh eg # live_ids eg"] by auto
    moreover have "eg_fresh eg \<notin> set (live_ids eg)" using inv by (auto simp: engine_inv_def)
    moreover from this have "eg_fresh eg \<notin> run_id ` snd ` set (eg_spawned eg)" by (auto simp: live_ids_def image_image)
    ultimately show ?thesis using inv run_created_wf [OF _ c]
      by (auto simp: engine_inv_def less_Suc_eq)
  qed
  have fired: "engine_inv (fst (case create_routine_run b (new_run (eg_fresh eg) now r ''manual'' None) (eg_db eg) of
      (db, Err e) \<Rightarrow> (eg\<lparr>eg_db := db, eg_fresh := Suc (eg_fresh eg)\<rparr>, f e)
    | (db, Ok u) \<Rightarrow> (eg\<lparr>eg_db := db, eg_fresh := Suc (eg_fresh eg), eg_recorded := eg_recorded eg @ [(r, new_run (eg_fresh eg) now r ''manual'' None)]\<rparr>, x)))"
    for r f and x :: "(string, uuid) result"
  proof (cases "create_routine_run b (new_run (eg_fresh eg) now r ''manual'' None) (eg_db eg)")
    case (Pair db c)
    then show ?thesis using refused started create_run_cases(1) by (cases c) fastforce+
  qed
  show ?thesis using inv by (simp add: fire_manual_def Let_def fired split: sum.split option.split)
qed

lemma engine_step_inv: "engine_step b env md mr eg eg' \<Longrightarrow> engine_inv eg \<Longrightarrow> engine_inv eg'"
proof (induction rule: engine_step.induct)
  case (refresh eg)
  then show ?case by (auto simp: refresh_event_cache_def engine_inv_def row_ids_def split: sum.split)
next
  case (event i r re eg channel content reading)
  then show ?case using check_event_cases [of channel content reading r re eg] spawn_inv by metis
next
  case (cron eg reading r)
  then show ?case using check_cron_cases [of reading r eg] spawn_inv by metis
next
  case (delete i eg)
  have "set (rd_runs (fst (delete_routine i (eg_db eg)))) \<subseteq> set (rd_runs (eg_db eg))"
    by (auto simp: delete_routine_def sql_execute_def split: option.split)
  then have "row_ids (eg\<lparr>eg_db := fst (delete_routine i (eg_db eg))\<rparr>) \<subseteq> row_ids eg" by (auto simp: row_ids_def)
  then show ?case using delete by (simp add: engine_inv_def statements_wf) blast
qed (simp_all add: manual_inv record_inv begin_inv end_inv settle_inv, auto simp: engine_inv_def row_ids_def statements_wf)

definition engine_reaches :: "'j sql_backend \<Rightarrow> engine_env \<Rightarrow> (uuid \<Rightarrow> bool) \<Rightarrow> bool \<Rightarrow> 'j routine_engine \<Rightarrow> 'j routine_engine \<Rightarrow> bool" where
  "engine_reaches b env may_delete may_refresh = (engine_step b env may_delete may_refresh)\<^sup>*\<^sup>*"

lemma reaches_inv: "engine_reaches b env md mr eg eg' \<Longrightarrow> engine_inv eg \<Longrightarrow> engine_inv eg'"
  unfolding engine_reaches_def by (induction rule: rtranclp_induct) (auto intro: engine_step_inv)

section \<open>The check of events\<close>

definition event_fires :: "string \<Rightarrow> string \<Rightarrow> nat \<Rightarrow> (uuid \<times> routine \<times> (string \<Rightarrow> bool)) \<times> 'j reading \<Rightarrow> bool" where
  "event_fires channel content limit x =
     (case x of ((_, r, re), (now, db, running)) \<Rightarrow>
        event_matches channel content r re \<and> check_cooldown now r \<and> check_concurrent db r \<and> running < limit)"

text \<open>The same with every condition spelt out.\<close>

lemma event_fires_iff:
  "event_fires channel content limit ((i, r, re), (now, db, running)) \<longleftrightarrow>
     (\<forall>ch p. rt_trigger r = Event (Some ch) p \<longrightarrow> ch = channel) \<and> re content \<and>
     (\<forall>last_run. rt_last_run_at r = Some last_run \<longrightarrow>
        int (if gr_cooldown (rt_guardrails r) > (2 ^ 63 - 1) * 1000000 then 300 * SECS else gr_cooldown (rt_guardrails r)) \<le> int now - int last_run) \<and>
     rd_down db = None \<and>
     length (filter (\<lambda>w. rr_routine_id w = rt_id r \<and> rr_status w = ''running'') (rd_runs db)) < unat (gr_max_concurrent (rt_guardrails r)) \<and>
     running < limit"
proof -
  have "event_matches channel content r re \<longleftrightarrow> (\<forall>ch p. rt_trigger r = Event (Some ch) p \<longrightarrow> ch = channel) \<and> re content"
    by (auto simp: event_matches_def split: trigger.split option.split)
  moreover have "check_cooldown now r \<longleftrightarrow> (\<forall>last_run. rt_last_run_at r = Some last_run \<longrightarrow>
      int (if gr_cooldown (rt_guardrails r) > (2 ^ 63 - 1) * 1000000 then 300 * SECS else gr_cooldown (rt_guardrails r)) \<le> int now - int last_run)"
    by (auto simp: check_cooldown_def from_std_def Let_def split: option.split)
  moreover have "check_concurrent db r \<longleftrightarrow> rd_down db = None \<and>
      length (filter (\<lambda>w. rr_routine_id w = rt_id r \<and> rr_status w = ''running'') (rd_runs db)) < unat (gr_max_concurrent (rt_guardrails r))"
    by (auto simp: check_concurrent_def count_running_routine_runs_def sql_query_def split: option.split)
  ultimately show ?thesis by (simp add: event_fires_def)
qed

lemma spawn_fire_fields [simp]:
  "eg_db (spawn_fire now r ty d eg) = eg_db eg" "eg_running (spawn_fire now r ty d eg) = eg_running eg"
  "eg_max_concurrent (spawn_fire now r ty d eg) = eg_max_concurrent eg" "eg_cache (spawn_fire now r ty d eg) = eg_cache eg"
  "map fst (eg_spawned (spawn_fire now r ty d eg)) = map fst (eg_spawned eg) @ [r]"
  by (simp_all add: spawn_fire_def)

lemma check_event_fires:
  "check_event_routine ch content reading r re eg =
     (if event_fires ch content (eg_max_concurrent eg) ((i, r, re), reading)
      then (spawn_fire (fst reading) r ''event'' (Some (truncate_detail content 200)) eg, 1) else (eg, 0))"
  by (auto simp: check_event_routine_def event_fires_def Let_def split: prod.split)

lemma event_fold:
  assumes "foldl (\<lambda>(eg, fired) ((_, r, re), reading).
      let (eg', n) = check_event_routine ch content reading r re eg in (eg', fired + n)) (eg, k) es = (eg', n)"
  shows "map fst (eg_spawned eg') = map fst (eg_spawned eg) @
      map (\<lambda>((_, r, _), _). r) (filter (event_fires ch content (eg_max_concurrent eg)) es) \<and>
    n = k + length (filter (event_fires ch content (eg_max_concurrent eg)) es)"
  using assms
proof (induction es arbitrary: eg k)
  case (Cons e es)
  obtain i r re reading where e: "e = ((i, r, re), reading)" by (metis prod.exhaust)
  show ?case
    using Cons.prems Cons.IH [of "fst (check_event_routine ch content reading r re eg)" "k + snd (check_event_routine ch content reading r re eg)"]
    by (auto simp: e check_event_fires [where i = i] split: if_splits)
qed simp

section \<open>The tables and a run that was never completed\<close>

definition zombie :: "uuid \<Rightarrow> 'j routine_engine \<Rightarrow> run_row \<Rightarrow> bool" where
  "zombie i eg w \<longleftrightarrow> w \<in> set (rd_runs (eg_db eg)) \<and> rr_routine_id w = i \<and> rr_status w = ''running'' \<and>
     rr_id w \<notin> set (live_ids eg) \<and> rr_id w < eg_fresh eg"

lemma complete_keeps: "w \<in> set (rd_runs db) \<Longrightarrow> rr_id w \<noteq> j \<Longrightarrow> w \<in> set (rd_runs (fst (complete_routine_run b now j st sm tk db)))"
  by (force simp: complete_routine_run_def sql_execute_def split: option.split)

lemma create_run_keeps: "w \<in> set (rd_runs db) \<Longrightarrow> w \<in> set (rd_runs (fst (create_routine_run b run db)))"
  by (auto simp: create_routine_run_def sql_execute_def split: option.split)

lemma delete_keeps: "w \<in> set (rd_runs db) \<Longrightarrow> rr_routine_id w \<noteq> j \<Longrightarrow> w \<in> set (rd_runs (fst (delete_routine j db)))"
  by (auto simp: delete_routine_def sql_execute_def split: option.split)

lemma zombie_spawn: "zombie i eg w \<Longrightarrow> zombie i (spawn_fire now r ty d eg) w"
  by (auto simp: zombie_def live_ids_def spawn_fire_def new_run_def)

lemma zombie_manual: "zombie i eg w \<Longrightarrow> zombie i (fst (fire_manual b env dl now j eg)) w"
  using create_run_keeps [of w "eg_db eg" b]
  by (auto simp: zombie_def fire_manual_def Let_def live_ids_def new_run_def split: sum.split option.split prod.split) (metis fst_conv)+

lemma live_ids_shrink:
  "t \<in> set (eg_spawned eg) \<Longrightarrow> set (live_ids (record_run b t eg)) \<subseteq> set (live_ids eg)"
  "t \<in> set (eg_recorded eg) \<Longrightarrow> set (live_ids (begin_run t eg)) \<subseteq> set (live_ids eg)"
  "t \<in> set (eg_tasks eg) \<Longrightarrow> set (live_ids (end_run t res eg)) \<subseteq> set (live_ids eg)"
  "set (live_ids (complete_run b now u eg)) \<subseteq> set (live_ids eg)"
proof -
  show "t \<in> set (eg_spawned eg) \<Longrightarrow> set (live_ids (record_run b t eg)) \<subseteq> set (live_ids eg)"
  proof -
    assume t: "t \<in> set (eg_spawned eg)"
    have "live_ids (record_run b t eg) = live_ids (eg\<lparr>eg_spawned := remove1 t (eg_spawned eg)\<rparr>) \<or>
      live_ids (record_run b t eg) = live_ids (eg\<lparr>eg_spawned := remove1 t (eg_spawned eg), eg_recorded := eg_recorded eg @ [t]\<rparr>)"
      by (simp add: record_run_def live_ids_def split: prod.split sum.split)
    then show ?thesis
      using set_mset_mono [OF live_ids_removed(1) [where eg = eg and t = t]] distinct_of_mset [OF live_ids_moves(3) [OF t]] by auto
  qed
  show "t \<in> set (eg_recorded eg) \<Longrightarrow> set (live_ids (begin_run t eg)) \<subseteq> set (live_ids eg)"
    using distinct_of_mset [OF live_ids_moves(1)] by blast
  show "t \<in> set (eg_tasks eg) \<Longrightarrow> set (live_ids (end_run t res eg)) \<subseteq> set (live_ids eg)"
    using distinct_of_mset [OF live_ids_moves(2)] by blast
  show "set (live_ids (complete_run b now u eg)) \<subseteq> set (live_ids eg)"
    using set_mset_mono [OF live_ids_removed(2) [where eg = eg and u = u]] by (simp add: after_end_fields)
qed

lemma zombie_mono:
  assumes "zombie i eg w" and "w \<in> set (rd_runs (eg_db eg'))" and "set (live_ids eg') \<subseteq> set (live_ids eg)" and "eg_fresh eg' = eg_fresh eg"
  shows "zombie i eg' w"
  using assms by (auto simp: zombie_def)

lemma record_db: "eg_db (record_run b t eg) = fst (create_routine_run b (snd t) (eg_db eg))" "eg_fresh (record_run b t eg) = eg_fresh eg"
  by (simp_all add: record_run_def split: prod.split sum.split)

lemma settle_keeps:
  assumes "u \<in> set (eg_settling eg)" and "zombie i eg w"
  shows "w \<in> set (rd_runs (eg_db (complete_run b now u eg)))"
proof -
  obtain r run res where u: "u = (r, run, res)" by (cases u)
  have "run_id run \<in> set (live_ids eg)" using assms(1) by (force simp: u live_ids_def)
  then have "rr_id w \<noteq> run_id run" "w \<in> set (rd_runs (eg_db eg))" using assms(2) by (auto simp: zombie_def)
  then show ?thesis by (simp add: complete_run_def u Let_def complete_keeps split: prod.split)
qed

lemma zombie_step:
  assumes "engine_step b env md mr eg eg'" and "\<not> md i" and z: "zombie i eg w"
  shows "zombie i eg' w"
  using assms(1,2,3)
proof (induction rule: engine_step.induct)
  case (refresh eg)
  then show ?case by (auto simp: refresh_event_cache_def zombie_def split: sum.split)
next
  case (event j r re eg channel content reading)
  then show ?case using check_event_cases [of channel content reading r re eg] zombie_spawn by metis
next
  case (cron eg reading r)
  then show ?case using check_cron_cases [of reading r eg] zombie_spawn by metis
next
  case (records t eg)
  then show ?case
    by (intro zombie_mono [OF records(3)] live_ids_shrink) (auto simp: record_db zombie_def intro: create_run_keeps)
next
  case (begins t eg)
  then show ?case by (intro zombie_mono [OF begins(3)] live_ids_shrink) (auto simp: begin_run_def zombie_def)
next
  case (finish t eg res)
  then show ?case by (intro zombie_mono [OF finish(3)] live_ids_shrink) (auto simp: end_run_def zombie_def)
next
  case (completes u eg now)
  then show ?case using settle_keeps [OF completes(1,3)]
    by (intro zombie_mono [OF completes(3)] live_ids_shrink) (auto simp: after_end_fields)
next
  case (updates u eg now)
  then show ?case by (intro zombie_mono [OF updates(3)]) (auto simp: after_end_fields zombie_def)
next
  case (notifies u eg)
  then show ?case by (intro zombie_mono [OF notifies(3)]) (auto simp: after_end_fields zombie_def)
next
  case (delete j eg)
  then have "rr_routine_id w \<noteq> j" by (auto simp: zombie_def)
  then show ?case using delete by (auto simp: zombie_def intro: delete_keeps)
qed (auto simp: zombie_manual, auto simp: zombie_def)

lemma zombie_reaches:
  "engine_reaches b env md mr eg eg' \<Longrightarrow> \<not> md i \<Longrightarrow> zombie i eg w \<Longrightarrow> zombie i eg' w"
  unfolding engine_reaches_def by (induction rule: rtranclp_induct) (auto intro: zombie_step)

lemma cache_kept: "engine_step b env md False eg eg' \<Longrightarrow> eg_cache eg' = eg_cache eg"
proof (induction rule: engine_step.induct)
  case (event i r re eg channel content reading)
  then show ?case using check_event_cases [of channel content reading r re eg] spawn_fire_fields(4) by metis
next
  case (cron eg reading r)
  then show ?case using check_cron_cases [of reading r eg] spawn_fire_fields(4) by metis
next
  case (manual eg dl now i)
  then show ?case by (simp add: fire_manual_def Let_def split: sum.split option.split prod.split)
qed (simp_all add: record_run_def begin_run_def end_run_def after_end_fields split: prod.split sum.split)

lemma cache_frozen: "engine_reaches b env md False eg eg' \<Longrightarrow> eg_cache eg' = eg_cache eg"
  unfolding engine_reaches_def by (induction rule: rtranclp_induct) (auto dest: cache_kept)

section \<open>Waiting for a job\<close>

lemma wait_ends:
  assumes "(t, st) \<in> set rounds" and "deadline \<le> t"
  shows "\<exists>st' res. wait_for_job dl i title n deadline rounds = Some (st', res)"
  using assms(1)
proof (induction rounds)
  case (Cons p rounds)
  then show ?case using assms(2) by (cases p) (auto split: sum.split option.split)
qed simp

lemma wait_ok:
  "wait_for_job dl i title n deadline rounds = Some (st', Ok (RunOk, sm, tk)) \<Longrightarrow>
   \<exists>(t, st) \<in> set rounds. t < deadline \<and> (\<exists>c. get_context (sc_cx st) i = Ok c \<and> jc_state c \<in> {Completed, Accepted})"
proof (induction rounds)
  case (Cons p rounds)
  then show ?case
    by (cases p) (auto simp: poll_job_def Let_def split: if_splits sum.splits option.splits)
qed simp

lemma full_job_start_id: "full_job_start dl i now now' r title d st = (st', Ok j) \<Longrightarrow> j = i"
  by (auto simp: full_job_start_def create_job_for_user_def insert_context_def Let_def split: prod.splits sum.splits if_splits)

section \<open>A sample\<close>

definition sample_engine :: "json routine_engine" where
  "sample_engine = (engine_new 2 (empty_db\<lparr>rd_routines := [new_row pg_backend sample_routine]\<rparr>))
     \<lparr>eg_cache := [(1, sample_routine, \<lambda>s. s = ''deploy'')]\<rparr>"

definition sample_engine_env :: engine_env where
  "sample_engine_env = \<lparr>en_regex = (\<lambda>p. Ok (\<lambda>s. s = p)), en_cron = (\<lambda>_ _. Ok None), en_show_db = (\<lambda>_. [])\<rparr>"

definition sample_row :: run_row where
  "sample_row = \<lparr>rr_id = 0, rr_routine_id = 1, rr_trigger_type = ''event'', rr_trigger_detail = None, rr_started_at = 0,
     rr_completed_at = None, rr_status = ''running'', rr_result_summary = None, rr_tokens_used = None, rr_job_id = None\<rparr>"

lemma sample_fires:
  "event_fires ''cli'' ''deploy'' (eg_max_concurrent sample_engine)
     ((1, sample_routine, \<lambda>s. s = ''deploy''), (now, eg_db sample_engine, eg_running sample_engine))"
  by (simp add: event_fires_iff sample_engine_def engine_new_def empty_db_def sample_routine_def guardrails_default_def)

text \<open>A run on its way: the routine is created and checked, the run recorded and begun; then it fails, and is completed,
  counted and reported.\<close>

definition sample_run :: "routine \<times> routine_run" where
  "sample_run = (sample_routine, new_run 0 5 sample_routine ''cron'' None)"

definition sample_begun :: "json routine_engine" where
  "sample_begun = (let eg = (engine_new 2 empty_db)\<lparr>eg_db := fst (create_routine pg_backend sample_routine empty_db)\<rparr>;
       eg = check_cron_routine (5, eg_db eg, 0) sample_routine eg
     in begin_run sample_run (record_run pg_backend sample_run eg))"

definition sample_reported :: "json routine_engine" where
  "sample_reported = (let u = (fst sample_run, snd sample_run, Err ''no model'');
       eg = end_run sample_run (Err ''no model'') sample_begun
     in notify_run u (update_runtime pg_backend sample_engine_env 8 u (complete_run pg_backend 7 u eg)))"

lemma sample_routine_created:
  "create_routine pg_backend sample_routine empty_db = (empty_db\<lparr>rd_routines := [new_row pg_backend sample_routine]\<rparr>, Ok ())"
  "rw_id (new_row pg_backend sample_routine) = 1"
  by (simp_all add: create_routine_def sql_execute_def empty_db_def new_row_def sample_routine_def)

lemma sample_spawned:
  assumes "eg = (engine_new 2 empty_db)\<lparr>eg_db := fst (create_routine pg_backend sample_routine empty_db)\<rparr>"
  shows "check_cron_routine (5, eg_db eg, 0) sample_routine eg = eg\<lparr>eg_spawned := [sample_run], eg_fresh := 1\<rparr>"
proof -
  have r: "rt_last_run_at sample_routine = None" "unat (gr_max_concurrent (rt_guardrails sample_routine)) = 1" "cron_detail sample_routine = None"
    by (simp_all add: sample_routine_def guardrails_default_def cron_detail_def)
  have "rd_runs (eg_db eg) = []" "rd_down (eg_db eg) = None"
    unfolding assms sample_routine_created(1) by (simp_all add: empty_db_def)
  then have "check_cooldown 5 sample_routine" "check_concurrent (eg_db eg) sample_routine"
    by (simp_all add: check_cooldown_def check_concurrent_def count_running_routine_runs_def sql_query_def r)
  moreover have "eg_spawned eg = []" "eg_fresh eg = 0" by (simp_all add: assms engine_new_def)
  ultimately show ?thesis by (simp add: check_cron_routine_def spawn_fire_def sample_run_def r)
qed

definition sample_run_row :: run_row where
  "sample_run_row = \<lparr>rr_id = 0, rr_routine_id = 1, rr_trigger_type = ''cron'', rr_trigger_detail = None, rr_started_at = sb_ts pg_backend 5,
     rr_completed_at = None, rr_status = ''running'', rr_result_summary = None, rr_tokens_used = None, rr_job_id = None\<rparr>"

lemma sample_run_fields:
  "fst sample_run = sample_routine" "run_id (snd sample_run) = 0" "run_routine_id (snd sample_run) = 1"
  by (simp_all add: sample_run_def new_run_def sample_routine_def)

lemma sample_recorded:
  "create_routine_run pg_backend (snd sample_run) (empty_db\<lparr>rd_routines := [new_row pg_backend sample_routine]\<rparr>) =
     (empty_db\<lparr>rd_routines := [new_row pg_backend sample_routine], rd_runs := [sample_run_row]\<rparr>, Ok ())"
  by (simp add: create_routine_run_def sql_execute_def sample_run_fields sample_routine_created(2) empty_db_def sample_run_row_def)
    (simp add: sample_run_def new_run_def)

lemma sample_begun_eq:
  "sample_begun = (engine_new 2 (empty_db\<lparr>rd_routines := [new_row pg_backend sample_routine], rd_runs := [sample_run_row]\<rparr>))
     \<lparr>eg_running := 1, eg_tasks := [sample_run], eg_fresh := 1\<rparr>"
  unfolding sample_begun_def Let_def sample_spawned [OF refl]
  by (simp add: sample_routine_created(1) record_run_def sample_recorded begin_run_def engine_new_def)

lemma sample_reported_eq:
  "eg_running sample_reported = 0" "length (eg_notices sample_reported) = 1" "map rr_status (rd_runs (eg_db sample_reported)) = [''failed'']"
proof -
  have fields: "outcome_parts (Err e) = (RunFailed, Some e, None)" for e by (simp add: outcome_parts_def)
  have row: "rr_id sample_run_row = 0" by (simp add: sample_run_row_def)
  show "eg_running sample_reported = 0"
    by (simp add: sample_reported_def after_end_fields end_run_def sample_begun_eq Let_def)
  show "length (eg_notices sample_reported) = 1"
    by (simp add: sample_reported_def notify_run_def update_runtime_def complete_run_def fields end_run_def sample_begun_eq
        engine_new_def send_notification_def sample_run_fields sample_routine_def notify_default_def Let_def split: prod.split)
  show "map rr_status (rd_runs (eg_db sample_reported)) = [''failed'']"
    by (simp add: sample_reported_def after_end_fields complete_run_def fields end_run_def sample_begun_eq engine_new_def
        complete_routine_run_def sql_execute_def empty_db_def sample_run_fields row Let_def)
qed

section \<open>Properties\<close>

text \<open>
  C26: Whatever the order of checks, tasks and statements, the counter of running routines is the number of
  tasks between begin and end; every run at work has its own id, which no later run will get, and a run that has
  not been recorded is not in the table yet; the tables keep their keys: routines and runs
  have distinct ids, no user has two routines of one name, every run belongs to a routine of the table and
  its status can be read back.
\<close>

theorem engine_invariant:
  assumes "engine_reaches b env may_delete may_refresh (engine_new n empty_db) eg"
  shows "eg_running eg = length (eg_tasks eg) \<and>
    distinct (map (\<lambda>t. run_id (snd t)) (eg_spawned eg @ eg_recorded eg @ eg_tasks eg) @ map (\<lambda>u. run_id (fst (snd u))) (eg_settling eg)) \<and>
    (\<forall>t \<in> set (eg_spawned eg @ eg_recorded eg @ eg_tasks eg). run_id (snd t) < eg_fresh eg) \<and>
    (\<forall>t \<in> set (eg_spawned eg). \<forall>w \<in> set (rd_runs (eg_db eg)). rr_id w \<noteq> run_id (snd t)) \<and>
    distinct (map rw_id (rd_routines (eg_db eg))) \<and> distinct (map (\<lambda>w. (rw_user_id w, rw_name w)) (rd_routines (eg_db eg))) \<and>
    distinct (map rr_id (rd_runs (eg_db eg))) \<and> rr_routine_id ` set (rd_runs (eg_db eg)) \<subseteq> rw_id ` set (rd_routines (eg_db eg)) \<and>
    (\<forall>w \<in> set (rd_runs (eg_db eg)). rr_id w < eg_fresh eg \<and> (\<exists>st. run_status_from_str (rr_status w) = Ok st))"
proof -
  have "engine_inv (engine_new n empty_db :: 'a routine_engine)"
    by (simp add: engine_inv_def engine_new_def live_ids_def row_ids_def empty_db_def db_wf_def)
  from reaches_inv [OF assms this] have inv: "engine_inv eg" .
  then have "set (live_ids eg) \<subseteq> {..<eg_fresh eg}" "row_ids eg \<subseteq> {..<eg_fresh eg}"
    "run_id ` snd ` set (eg_spawned eg) \<inter> row_ids eg = {}" by (auto simp: engine_inv_def)
  then have ids: "\<forall>t \<in> set (eg_spawned eg @ eg_recorded eg @ eg_tasks eg). run_id (snd t) < eg_fresh eg"
    "\<forall>t \<in> set (eg_spawned eg). \<forall>w \<in> set (rd_runs (eg_db eg)). rr_id w \<noteq> run_id (snd t)"
    "\<forall>w \<in> set (rd_runs (eg_db eg)). rr_id w < eg_fresh eg"
    by (auto simp: live_ids_def row_ids_def)
  have "distinct (live_ids eg)" "eg_running eg = length (eg_tasks eg)" "db_wf (eg_db eg)" using inv by (simp_all add: engine_inv_def)
  with ids show ?thesis unfolding live_ids_def db_wf_def by (intro conjI) (simp_all add: ball_conj_distrib)
qed

theorem engine_invariant_witness:
  "eg_tasks sample_begun = [sample_run] \<and> eg_running sample_begun = 1 \<and>
   eg_running sample_reported = length (eg_tasks sample_reported) \<and> length (eg_notices sample_reported) = 1 \<and>
   distinct (map rr_id (rd_runs (eg_db sample_reported))) \<and> map rr_status (rd_runs (eg_db sample_reported)) = [''failed'']"
proof -
  let ?step = "engine_step pg_backend sample_engine_env (\<lambda>_. True) True :: json routine_engine \<Rightarrow> _"
  define eg0 :: "json routine_engine" where "eg0 = engine_new 2 empty_db"
  define eg1 where "eg1 = eg0\<lparr>eg_db := fst (create_routine pg_backend sample_routine (eg_db eg0))\<rparr>"
  define eg2 where "eg2 = check_cron_routine (5, eg_db eg1, 0) sample_routine eg1"
  define eg3 where "eg3 = record_run pg_backend sample_run eg2"
  define u where "u = (fst sample_run, snd sample_run, Err ''no model'' :: run_outcome)"
  define eg4 where "eg4 = end_run sample_run (Err ''no model'') sample_begun"
  define eg5 where "eg5 = complete_run pg_backend 7 u eg4"
  define eg6 where "eg6 = update_runtime pg_backend sample_engine_env 8 u eg5"
  have db0: "eg_db eg0 = empty_db" by (simp add: eg0_def engine_new_def)
  have b: "sample_begun = begin_run sample_run eg3" "sample_reported = notify_run u eg6"
    by (simp_all add: sample_begun_def sample_reported_def eg3_def eg2_def eg1_def eg0_def db0 [unfolded eg0_def] u_def eg4_def eg5_def eg6_def Let_def)
  have eg2: "eg2 = eg1\<lparr>eg_spawned := [sample_run], eg_fresh := 1\<rparr>"
    unfolding eg2_def by (rule sample_spawned) (simp add: eg1_def db0, simp add: eg0_def)
  have in2: "sample_run \<in> set (eg_spawned eg2)" by (simp add: eg2)
  have in3: "sample_run \<in> set (eg_recorded eg3)"
    by (simp add: eg3_def eg2 record_run_def eg1_def db0 sample_routine_created(1) sample_recorded)
  have in4: "u \<in> set (eg_settling eg4)" by (simp add: eg4_def end_run_def u_def)
  have in5: "u \<in> set (eg_completed eg5)" by (simp add: eg5_def complete_run_def Let_def split: prod.split)
  have in6: "u \<in> set (eg_updated eg6)" by (simp add: eg6_def update_runtime_def Let_def split: prod.split)
  have inb: "sample_run \<in> set (eg_tasks sample_begun)" by (simp add: sample_begun_eq)
  have steps: "?step eg0 eg1" "?step eg1 eg2" "?step eg2 eg3" "?step eg3 sample_begun" "?step sample_begun eg4" "?step eg4 eg5"
    "?step eg5 eg6" "?step eg6 sample_reported"
    unfolding eg1_def eg2_def eg3_def b eg4_def eg5_def eg6_def
    by (rule engine_step.create engine_step.cron engine_step.records [OF in2 [unfolded eg2_def eg1_def]]
        engine_step.begins [OF in3 [unfolded eg3_def eg2_def eg1_def]] engine_step.finish [OF inb [unfolded b(1) eg3_def eg2_def eg1_def]]
        engine_step.completes [OF in4 [unfolded eg4_def b(1) eg3_def eg2_def eg1_def]]
        engine_step.updates [OF in5 [unfolded eg5_def eg4_def b(1) eg3_def eg2_def eg1_def]]
        engine_step.notifies [OF in6 [unfolded eg6_def eg5_def eg4_def b(1) eg3_def eg2_def eg1_def]])+
  have r: "engine_reaches pg_backend sample_engine_env (\<lambda>_. True) True (engine_new 2 empty_db) sample_begun"
    using steps(1-4) unfolding engine_reaches_def eg0_def [symmetric] by (meson converse_rtranclp_into_rtranclp rtranclp.rtrancl_refl)
  then have "engine_reaches pg_backend sample_engine_env (\<lambda>_. True) True (engine_new 2 empty_db) sample_reported"
    using steps(5-8) unfolding engine_reaches_def by (meson rtranclp.rtrancl_into_rtrancl)
  from engine_invariant [OF this] engine_invariant [OF r] show ?thesis by (simp add: sample_reported_eq sample_begun_eq)
qed

text \<open>
  The channel and the user of a routine's notification settings are not used: the notification is the same whatever they
  are, and the forwarder sends it to the user \<open>default\<close>.
\<close>

theorem notify_target_ignored:
  "send_notification (n\<lparr>nc_channel := c, nc_user := u\<rparr>) name st sm = send_notification n name st sm \<and>
   list_all (\<lambda>og. notify_user og = ''default'') (send_notification n name st sm)"
proof -
  have "should_notify (n\<lparr>nc_channel := c, nc_user := u\<rparr>) st = should_notify n st" by (cases st) simp_all
  then show ?thesis by (simp add: send_notification_def notify_user_def json_str_def json_get_def)
qed

text \<open>
  C27: The check of a message fires exactly the cached routines that match it and are free, in the order of the cache, and
  returns their number.  Each is judged by what the check reads for it: it fires if its trigger names no other channel, its
  pattern matches, it has no cached last run or that run is at least the cooldown ago (five minutes if
  the cooldown does not fit 63 bits of milliseconds), the tables are up and show fewer running runs of it than it may have,
  and the counter of running routines is below the limit.
\<close>

theorem event_check_exact:
  assumes "check_event_triggers channel content readings eg = (eg', n)"
    and "fired = filter (\<lambda>((_, r, re), (now, db, running)).
      (\<forall>ch p. rt_trigger r = Event (Some ch) p \<longrightarrow> ch = channel) \<and> re content \<and>
      (\<forall>last_run. rt_last_run_at r = Some last_run \<longrightarrow>
         int (if gr_cooldown (rt_guardrails r) > (2 ^ 63 - 1) * 1000000 then 300 * SECS else gr_cooldown (rt_guardrails r)) \<le> int now - int last_run) \<and>
      rd_down db = None \<and>
      length (filter (\<lambda>w. rr_routine_id w = rt_id r \<and> rr_status w = ''running'') (rd_runs db)) < unat (gr_max_concurrent (rt_guardrails r)) \<and>
      running < eg_max_concurrent eg) (zip (eg_cache eg) readings)"
  shows "map fst (eg_spawned eg') = map fst (eg_spawned eg) @ map (\<lambda>((_, r, _), _). r) fired \<and> n = length fired"
proof -
  have "fired = filter (event_fires channel content (eg_max_concurrent eg)) (zip (eg_cache eg) readings)"
    unfolding assms(2) by (rule filter_cong) (auto simp: event_fires_iff simp del: of_nat_less_iff of_nat_le_iff)
  then show ?thesis
    using event_fold [of channel content eg 0 "zip (eg_cache eg) readings" eg' n] assms(1) by (simp add: check_event_triggers_def)
qed

theorem event_check_exact_witness:
  "map fst (eg_spawned (fst (check_event_triggers ''cli'' ''deploy'' [(5, eg_db sample_engine, 0)] sample_engine))) = [sample_routine] \<and>
   snd (check_event_triggers ''cli'' ''deploy'' [(5, eg_db sample_engine, 0)] sample_engine) = 1"
proof -
  let ?c = "check_event_triggers ''cli'' ''deploy'' [(5, eg_db sample_engine, 0)] sample_engine"
  have "eg_cache sample_engine = [(1, sample_routine, \<lambda>s. s = ''deploy'')]" "eg_spawned sample_engine = []"
    by (simp_all add: sample_engine_def engine_new_def)
  then show ?thesis
    using event_check_exact [of "''cli''" "''deploy''" "[(5, eg_db sample_engine, 0)]" sample_engine "fst ?c" "snd ?c", OF _ refl]
    by (simp add: sample_routine_def guardrails_default_def sample_engine_def engine_new_def empty_db_def)
qed

text \<open>
  A run whose completion could not be written blocks its routine: while a row says \<open>running\<close> and no task
  works on it, no step but the deletion of the routine changes that row, and with one concurrent run
  allowed, every later check of the routine refuses to fire it.
\<close>

theorem unfinished_row_blocks:
  assumes "engine_reaches b env may_delete may_refresh eg eg'" and "\<not> may_delete (rt_id r)" and "zombie (rt_id r) eg w"
    and "gr_max_concurrent (rt_guardrails r) = 1"
  shows "\<not> check_concurrent (eg_db eg') r"
proof -
  have "w \<in> set (filter (\<lambda>w. rr_routine_id w = rt_id r \<and> rr_status w = ''running'') (rd_runs (eg_db eg')))"
    using zombie_reaches [OF assms(1,2,3)] by (auto simp: zombie_def)
  then have "0 < length (filter (\<lambda>w. rr_routine_id w = rt_id r \<and> rr_status w = ''running'') (rd_runs (eg_db eg')))"
    by (cases "filter (\<lambda>w. rr_routine_id w = rt_id r \<and> rr_status w = ''running'') (rd_runs (eg_db eg'))") auto
  then show ?thesis using assms(4)
    by (auto simp: check_concurrent_def count_running_routine_runs_def sql_query_def split: option.split)
qed

theorem unfinished_row_blocks_witness:
  "\<not> check_concurrent ((eg_db sample_engine)\<lparr>rd_runs := [sample_row], rd_down := None\<rparr>) sample_routine"
proof -
  let ?eg = "sample_engine\<lparr>eg_db := (eg_db sample_engine)\<lparr>rd_runs := [sample_row], rd_down := Some ''disk full''\<rparr>, eg_fresh := 1\<rparr>"
  have reach: "engine_reaches pg_backend sample_engine_env (\<lambda>_. False) True ?eg (?eg\<lparr>eg_db := (eg_db ?eg)\<lparr>rd_down := None\<rparr>\<rparr>)"
    unfolding engine_reaches_def by (rule r_into_rtranclp) (rule engine_step.reach)
  have row: "zombie (rt_id sample_routine) ?eg sample_row"
    by (simp add: zombie_def sample_row_def sample_routine_def live_ids_def sample_engine_def engine_new_def)
  have one: "gr_max_concurrent (rt_guardrails sample_routine) = 1" by (simp add: sample_routine_def guardrails_default_def)
  from unfinished_row_blocks [OF reach _ row one] show ?thesis by simp
qed

text \<open>
  The cooldown of an event routine is measured from what the cache saw.  Until the cache is refreshed,
  which only the tools that change routines do, a routine that had not run when it was cached passes the
  check of its cooldown at every time, however often and however recently it has run since.
\<close>

theorem cached_cooldown_frozen:
  assumes "engine_reaches b env may_delete False eg eg'" and "(i, r, re) \<in> set (eg_cache eg)" and "rt_last_run_at r = None"
    and "event_matches channel content r re" and "check_concurrent (eg_db eg') r" and "eg_running eg' < eg_max_concurrent eg'"
  shows "(i, r, re) \<in> set (eg_cache eg') \<and> event_fires channel content (eg_max_concurrent eg') ((i, r, re), (now, eg_db eg', eg_running eg'))"
  using assms cache_frozen [OF assms(1)] by (simp add: event_fires_def check_cooldown_def)

theorem cached_cooldown_frozen_witness:
  "(1, sample_routine, \<lambda>s. s = ''deploy'') \<in> set (eg_cache sample_engine) \<and>
   event_fires ''cli'' ''deploy'' (eg_max_concurrent sample_engine)
     ((1, sample_routine, \<lambda>s. s = ''deploy''), (9, eg_db sample_engine, eg_running sample_engine))"
proof (rule cached_cooldown_frozen [of pg_backend sample_engine_env "\<lambda>_. True" sample_engine])
  show "engine_reaches pg_backend sample_engine_env (\<lambda>_. True) False sample_engine sample_engine" by (simp add: engine_reaches_def)
  show "(1, sample_routine, \<lambda>s. s = ''deploy'') \<in> set (eg_cache sample_engine)" by (simp add: sample_engine_def)
qed (use sample_fires [of 9] in \<open>auto simp: event_fires_def sample_routine_def\<close>)

text \<open>
  The limits are checked against runs that have been recorded.  A check that fires spawns a task and
  changes nothing the next check looks at: repeated \<open>k\<close> times before the tasks start, it fires \<open>k\<close> times, whatever
  the limits are.
\<close>

theorem unrecorded_fires_repeat:
  assumes "event_fires channel content (eg_max_concurrent eg) ((i, r, re), (now, eg_db eg, eg_running eg))"
  shows "map fst (eg_spawned (((\<lambda>e. fst (check_event_routine channel content (now, eg_db e, eg_running e) r re e)) ^^ k) eg)) =
    map fst (eg_spawned eg) @ replicate k r"
proof -
  let ?f = "\<lambda>e. fst (check_event_routine channel content (now, eg_db e, eg_running e) r re e)"
  let ?fires = "\<lambda>e. event_fires channel content (eg_max_concurrent e) ((i, r, re), (now, eg_db e, eg_running e))"
  have "?fires ((?f ^^ k) eg) \<and> map fst (eg_spawned ((?f ^^ k) eg)) = map fst (eg_spawned eg) @ replicate k r"
    by (induction k) (use assms in \<open>auto simp: check_event_fires [where i = i] replicate_append_same\<close>)
  then show ?thesis by blast
qed

theorem unrecorded_fires_repeat_witness:
  "length (eg_spawned (((\<lambda>e. fst (check_event_routine ''cli'' ''deploy'' (5, eg_db e, eg_running e) sample_routine (\<lambda>s. s = ''deploy'') e)) ^^ 3)
     sample_engine)) = 3"
proof -
  have "eg_spawned sample_engine = []" by (simp add: sample_engine_def engine_new_def)
  then show ?thesis using arg_cong [OF unrecorded_fires_repeat [OF sample_fires [of 5], where k = 3], where f = length] by simp
qed

text \<open>
  C28: A routine that runs a job ends: the loop waits between one and thirty minutes, and when a round comes at
  or after the deadline, the execution has a result.  It reports success only when a round before the
  deadline has seen the job completed or accepted.
\<close>

theorem full_job_ends:
  assumes "rt_action r = FullJob title d n" and "(t, st0) \<in> set rounds" and "now' + job_timeout_secs n * SECS \<le> t"
  shows "60 \<le> job_timeout_secs n \<and> job_timeout_secs n \<le> 1800 \<and>
    (\<exists>st' res. execute_action le dl i now now' r st rounds = Some (st', res) \<and>
      (\<forall>sm tk. res = Ok (RunOk, sm, tk) \<longrightarrow>
        (\<exists>(t', st') \<in> set rounds. t' < now' + job_timeout_secs n * SECS \<and>
           (\<exists>c. get_context (sc_cx st') i = Ok c \<and> jc_state c \<in> {Completed, Accepted}))))"
proof -
  have a: "execute_action le dl i now now' r st rounds = execute_full_job dl i now now' r title d n st rounds"
    using assms(1) by (simp add: execute_action_def)
  obtain st1 a where s: "full_job_start dl i now now' r title d st = (st1, a)" by fastforce
  have "\<exists>st' res. execute_full_job dl i now now' r title d n st rounds = Some (st', res)"
    using wait_ends [OF assms(2,3)] s by (auto simp: execute_full_job_def Let_def split: sum.split)
  then obtain st' res where e: "execute_full_job dl i now now' r title d n st rounds = Some (st', res)" by blast
  have "\<exists>(t', st') \<in> set rounds. t' < now' + job_timeout_secs n * SECS \<and>
      (\<exists>c. get_context (sc_cx st') i = Ok c \<and> jc_state c \<in> {Completed, Accepted})" if "res = Ok (RunOk, sm, tk)" for sm tk
  proof (cases a)
    case (Inr j)
    then have "j = i" using full_job_start_id s by blast
    then have "wait_for_job dl i title (job_timeout_secs n) (now' + job_timeout_secs n * SECS) rounds = Some (st', Ok (RunOk, sm, tk))"
      using e s Inr that by (simp add: execute_full_job_def Let_def)
    from wait_ok [OF this] show ?thesis .
  qed (use e s that in \<open>simp add: execute_full_job_def\<close>)
  moreover have "60 \<le> job_timeout_secs n" "job_timeout_secs n \<le> 1800" by (simp_all add: job_timeout_secs_def)
  ultimately show ?thesis using e a by auto
qed

theorem full_job_ends_witness:
  "\<exists>st' res. execute_action \<lparr>le_read = \<lambda>_. None, le_system_prompt = None, le_context_length = None, le_complete = \<lambda>_. Err (Http []),
       le_display = \<lparr>dl_uuid = nat_str, dl_duration = nat_str\<rparr>\<rparr> \<lparr>dl_uuid = nat_str, dl_duration = nat_str\<rparr> 7 0 0 sample_routine
     (scheduler_new 1 (context_manager_new 1) :: nat scheduler) [(300 * SECS, scheduler_new 1 (context_manager_new 1))] = Some (st', res)"
proof -
  have "rt_action sample_routine = FullJob ''deploy'' ''watch'' 10" by (simp add: sample_routine_def)
  from full_job_ends [OF this, of "300 * SECS" "scheduler_new 1 (context_manager_new 1) :: nat scheduler"
      "[(300 * SECS, scheduler_new 1 (context_manager_new 1))]" 0 "\<lparr>le_read = \<lambda>_. None, le_system_prompt = None, le_context_length = None,
         le_complete = \<lambda>_. Err (Http []), le_display = \<lparr>dl_uuid = nat_str, dl_duration = nat_str\<rparr>\<rparr>"
      "\<lparr>dl_uuid = nat_str, dl_duration = nat_str\<rparr>" 7 0 "scheduler_new 1 (context_manager_new 1)"]
  show ?thesis by (auto simp: job_timeout_secs_def)
qed

text \<open>
  When the scheduler has no room, a routine's job is created and stays: the routine reports a failure, and
  the job is pending, has no worker and counts towards the limit on jobs.
\<close>

theorem unscheduled_job_stays:
  assumes "create_job_for_user i now (sc_cx st) (rt_user_id r) title d = (cx, Ok i)" and "map_of (sc_jobs st) i = None"
    and "sc_max_parallel_jobs st \<le> length (sc_jobs st)"
  shows "\<exists>e c. full_job_start dl i now now' r title d st = (st\<lparr>sc_cx := cx\<rparr>, Err e) \<and>
    map_of (cx_contexts cx) i = Some c \<and> jc_state c = Pending \<and> is_active Pending \<and> \<not> is_running (st\<lparr>sc_cx := cx\<rparr>) i"
  using assms
  by (auto simp: full_job_start_def schedule_def is_running_def create_job_for_user_def insert_context_def insert_memory_def
      with_user_def is_active_def is_terminal_def update_conv' Let_def split: if_splits)

theorem unscheduled_job_stays_witness:
  "\<exists>e st'. full_job_start \<lparr>dl_uuid = nat_str, dl_duration = nat_str\<rparr> 7 0 0 sample_routine ''t'' ''d''
     (scheduler_new 0 (context_manager_new 1) :: nat scheduler) = (st', Err e) \<and> \<not> is_running st' 7"
proof -
  let ?st = "scheduler_new 0 (context_manager_new 1) :: nat scheduler"
  have "create_job_for_user 7 0 (sc_cx ?st) (rt_user_id sample_routine) ''t'' ''d'' =
      (fst (create_job_for_user 7 0 (sc_cx ?st) (rt_user_id sample_routine) ''t'' ''d''), Ok 7)"
    by (simp add: create_job_for_user_def insert_context_def active_count_def scheduler_new_def context_manager_new_def)
  from unscheduled_job_stays [OF this] show ?thesis by (force simp: scheduler_new_def)
qed

end
