(* ===== verification/Routine_Tools.thy ===== *)
theory Routine_Tools
  imports Routine_Engine
begin

text \<open>
  The tools that create, list, change, delete and inspect routines, \<^verbatim>\<open>src/src/tools/builtin/routine.rs\<close>.  They act
  on the tables of the engine and refresh its cache.  Timestamps are shown by an argument.
\<close>

section \<open>The tools\<close>

record routine_tool_env =
  rv_engine :: engine_env
  rv_show_uuid :: "uuid \<Rightarrow> string"
  rv_show_time :: "instant \<Rightarrow> string"

definition exec_failed :: "routine_tool_env \<Rightarrow> string \<Rightarrow> db_error \<Rightarrow> exec_error" where
  "exec_failed rv what e = ExecFailed (what @ en_show_db (rv_engine rv) e)"

definition build_trigger :: "routine_tool_env \<Rightarrow> instant \<Rightarrow> json \<Rightarrow> string \<Rightarrow> (exec_error, trigger) result" where
  "build_trigger rv now params trigger_type =
     (if trigger_type = ''cron'' then
        (case json_str params ''schedule'' of
           None \<Rightarrow> Err (InvalidParams (''cron trigger requires '' @ [CHR 0x27] @ ''schedule'' @ [CHR 0x27]))
         | Some sched \<Rightarrow>
             (case next_cron_fire (rv_engine rv) now sched of
                Err e \<Rightarrow> Err (InvalidParams (''invalid cron schedule: '' @ e))
              | Ok _ \<Rightarrow> Ok (Cron sched)))
      else if trigger_type = ''event'' then
        (case json_str params ''event_pattern'' of
           None \<Rightarrow> Err (InvalidParams (''event trigger requires '' @ [CHR 0x27] @ ''event_pattern'' @ [CHR 0x27]))
         | Some p \<Rightarrow>
             (case en_regex (rv_engine rv) p of
                Err e \<Rightarrow> Err (InvalidParams (''invalid regex: '' @ e))
              | Ok _ \<Rightarrow> Ok (Event (json_str params ''event_channel'') p)))
      else if trigger_type = ''webhook'' then Ok (Webhook None None)
      else if trigger_type = ''manual'' then Ok Manual
      else Err (InvalidParams (''unknown trigger_type: '' @ trigger_type)))"

definition build_action :: "json \<Rightarrow> string \<Rightarrow> string \<Rightarrow> (exec_error, routine_action) result" where
  "build_action params name prompt =
     (let action_type = (case json_str params ''action_type'' of Some a \<Rightarrow> a | None \<Rightarrow> ''lightweight'') in
      if action_type = ''lightweight'' then Ok (Lightweight prompt (json_str_array params ''context_paths'') 4096)
      else if action_type = ''full_job'' then Ok (FullJob name prompt 10)
      else Err (InvalidParams (''unknown action_type: '' @ action_type)))"

definition cron_next :: "routine_tool_env \<Rightarrow> instant \<Rightarrow> trigger \<Rightarrow> instant option" where
  "cron_next rv now t =
     (case t of Cron sched \<Rightarrow> (case next_cron_fire (rv_engine rv) now sched of Ok x \<Rightarrow> x | Err _ \<Rightarrow> None) | _ \<Rightarrow> None)"

definition build_routine ::
  "routine_tool_env \<Rightarrow> instant \<Rightarrow> uuid \<Rightarrow> string \<Rightarrow> json \<Rightarrow> string \<Rightarrow> trigger \<Rightarrow> routine_action \<Rightarrow> routine" where
  "build_routine rv now i user params name trigger action =
     \<lparr>rt_id = i, rt_name = name,
      rt_description = (case json_str params ''description'' of Some d \<Rightarrow> d | None \<Rightarrow> []),
      rt_user_id = user, rt_enabled = True, rt_trigger = trigger, rt_action = action,
      rt_guardrails = \<lparr>gr_cooldown = (case Option.bind (json_get params ''cooldown_secs'') json_as_u64 of Some n \<Rightarrow> n | None \<Rightarrow> 300) * SECS,
         gr_max_concurrent = 1, gr_dedup_window = None\<rparr>,
      rt_notify = notify_default, rt_last_run_at = None, rt_next_fire_at = cron_next rv now trigger, rt_run_count = 0,
      rt_consecutive_failures = 0, rt_state = JObject [], rt_created_at = now, rt_updated_at = now\<rparr>"

definition show_time_json :: "routine_tool_env \<Rightarrow> instant option \<Rightarrow> json" where
  "show_time_json rv t = json_opt (map_option (rv_show_time rv) t)"

definition routine_create_execute ::
  "'j sql_backend \<Rightarrow> routine_tool_env \<Rightarrow> instant \<Rightarrow> uuid \<Rightarrow> string \<Rightarrow> json \<Rightarrow> 'j routine_engine \<Rightarrow> 'j routine_engine \<times> (exec_error, json) result" where
  "routine_create_execute b rv now i user params eg =
     (case require_str params ''name'' of Err e \<Rightarrow> (eg, Err e) | Ok name \<Rightarrow>
     (case require_str params ''trigger_type'' of Err e \<Rightarrow> (eg, Err e) | Ok trigger_type \<Rightarrow>
     (case require_str params ''prompt'' of Err e \<Rightarrow> (eg, Err e) | Ok prompt \<Rightarrow>
     (case build_trigger rv now params trigger_type of Err e \<Rightarrow> (eg, Err e) | Ok trigger \<Rightarrow>
     (case build_action params name prompt of Err e \<Rightarrow> (eg, Err e) | Ok action \<Rightarrow>
        let r = build_routine rv now i user params name trigger action in
        case create_routine b r (eg_db eg) of
          (db, Err e) \<Rightarrow> (eg\<lparr>eg_db := db\<rparr>, Err (exec_failed rv ''failed to create routine: '' e))
        | (db, Ok _) \<Rightarrow>
            ((if trigger_type_tag trigger = ''event'' then refresh_event_cache b (rv_engine rv) (eg\<lparr>eg_db := db\<rparr>) else eg\<lparr>eg_db := db\<rparr>),
             Ok (JObject [(''id'', JString (rv_show_uuid rv i)), (''name'', JString name),
                   (''trigger_type'', JString (trigger_type_tag trigger)), (''next_fire_at'', show_time_json rv (rt_next_fire_at r)),
                   (''status'', JString ''created'')])))))))"

definition routine_list_execute ::
  "'j sql_backend \<Rightarrow> routine_tool_env \<Rightarrow> string \<Rightarrow> 'j routine_engine \<Rightarrow> (exec_error, json) result" where
  "routine_list_execute b rv user eg =
     (case list_routines b user (eg_db eg) of
        Err e \<Rightarrow> Err (exec_failed rv ''failed to list routines: '' e)
      | Ok rs \<Rightarrow>
          Ok (JObject [(''count'', JNumber (nat_str (length rs))),
            (''routines'', JArray (map (\<lambda>r. JObject [(''id'', JString (rv_show_uuid rv (rt_id r))), (''name'', JString (rt_name r)),
               (''description'', JString (rt_description r)), (''enabled'', JBool (rt_enabled r)),
               (''trigger_type'', JString (trigger_type_tag (rt_trigger r))), (''action_type'', JString (action_type_tag (rt_action r))),
               (''last_run_at'', show_time_json rv (rt_last_run_at r)), (''next_fire_at'', show_time_json rv (rt_next_fire_at r)),
               (''run_count'', JNumber (nat_str (unat (rt_run_count r)))),
               (''consecutive_failures'', JNumber (nat_str (unat (rt_consecutive_failures r))))]) rs))]))"

text \<open>The routine of the caller with a name, which the other tools look up first.\<close>

definition named_routine ::
  "'j sql_backend \<Rightarrow> routine_tool_env \<Rightarrow> string \<Rightarrow> string \<Rightarrow> 'j routine_db \<Rightarrow> (exec_error, routine) result" where
  "named_routine b rv user name db =
     (case get_routine_by_name b user name db of
        Err e \<Rightarrow> Err (exec_failed rv ''DB error: '' e)
      | Ok None \<Rightarrow> Err (ExecFailed (''routine '' @ [CHR 0x27] @ name @ [CHR 0x27] @ '' not found''))
      | Ok (Some r) \<Rightarrow> Ok r)"

definition with_prompt :: "string option \<Rightarrow> routine_action \<Rightarrow> routine_action" where
  "with_prompt p a =
     (case p of None \<Rightarrow> a | Some prompt \<Rightarrow>
        (case a of Lightweight _ paths n \<Rightarrow> Lightweight prompt paths n | FullJob title _ n \<Rightarrow> FullJob title prompt n))"

definition apply_updates :: "routine_tool_env \<Rightarrow> instant \<Rightarrow> json \<Rightarrow> routine \<Rightarrow> (exec_error, routine) result" where
  "apply_updates rv now params r =
     (let r1 = r\<lparr>rt_enabled := (case json_get params ''enabled'' of Some (JBool e) \<Rightarrow> e | _ \<Rightarrow> rt_enabled r),
                 rt_description := (case json_str params ''description'' of Some d \<Rightarrow> d | None \<Rightarrow> rt_description r),
                 rt_action := with_prompt (json_str params ''prompt'') (rt_action r)\<rparr>
      in case json_str params ''schedule'' of
           None \<Rightarrow> Ok r1
         | Some sched \<Rightarrow>
             (case next_cron_fire (rv_engine rv) now sched of
                Err e \<Rightarrow> Err (InvalidParams (''invalid cron schedule: '' @ e))
              | Ok next_fire \<Rightarrow> Ok (r1\<lparr>rt_trigger := Cron sched, rt_next_fire_at := next_fire\<rparr>)))"

definition routine_update_execute ::
  "'j sql_backend \<Rightarrow> routine_tool_env \<Rightarrow> instant \<Rightarrow> string \<Rightarrow> json \<Rightarrow> 'j routine_engine \<Rightarrow> 'j routine_engine \<times> (exec_error, json) result" where
  "routine_update_execute b rv now user params eg =
     (case require_str params ''name'' of Err e \<Rightarrow> (eg, Err e) | Ok name \<Rightarrow>
     (case named_routine b rv user name (eg_db eg) of Err e \<Rightarrow> (eg, Err e) | Ok r0 \<Rightarrow>
     (case apply_updates rv now params r0 of Err e \<Rightarrow> (eg, Err e) | Ok r \<Rightarrow>
        case update_routine b now r (eg_db eg) of
          (db, Err e) \<Rightarrow> (eg\<lparr>eg_db := db\<rparr>, Err (exec_failed rv ''failed to update: '' e))
        | (db, Ok _) \<Rightarrow>
            (refresh_event_cache b (rv_engine rv) (eg\<lparr>eg_db := db\<rparr>),
             Ok (JObject [(''name'', JString (rt_name r)), (''enabled'', JBool (rt_enabled r)),
                   (''trigger_type'', JString (trigger_type_tag (rt_trigger r))), (''next_fire_at'', show_time_json rv (rt_next_fire_at r)),
                   (''status'', JString ''updated'')])))))"

definition routine_delete_execute ::
  "'j sql_backend \<Rightarrow> routine_tool_env \<Rightarrow> string \<Rightarrow> json \<Rightarrow> 'j routine_engine \<Rightarrow> 'j routine_engine \<times> (exec_error, json) result" where
  "routine_delete_execute b rv user params eg =
     (case require_str params ''name'' of Err e \<Rightarrow> (eg, Err e) | Ok name \<Rightarrow>
     (case named_routine b rv user name (eg_db eg) of Err e \<Rightarrow> (eg, Err e) | Ok r \<Rightarrow>
        case delete_routine (rt_id r) (eg_db eg) of
          (db, Err e) \<Rightarrow> (eg\<lparr>eg_db := db\<rparr>, Err (exec_failed rv ''failed to delete: '' e))
        | (db, Ok deleted) \<Rightarrow>
            (refresh_event_cache b (rv_engine rv) (eg\<lparr>eg_db := db\<rparr>),
             Ok (JObject [(''name'', JString name), (''deleted'', JBool deleted)]))))"

text \<open>\<open>as_i64\<close> of a number literal: an integer of 64 bits.\<close>

definition json_as_i64 :: "json \<Rightarrow> int option" where
  "json_as_i64 v =
     (case v of
        JNumber s \<Rightarrow>
          (case s of
             c # t \<Rightarrow> if c = CHR ''-''
               then (if t \<noteq> [] \<and> list_all is_digit t \<and> parse_digits t \<le> 2 ^ 63 then Some (- int (parse_digits t)) else None)
               else (if list_all is_digit s \<and> parse_digits s < 2 ^ 63 then Some (int (parse_digits s)) else None)
           | [] \<Rightarrow> None)
      | _ \<Rightarrow> None)"

definition history_limit :: "json \<Rightarrow> int" where
  "history_limit params = min 50 (case Option.bind (json_get params ''limit'') json_as_i64 of Some n \<Rightarrow> n | None \<Rightarrow> 10)"

definition run_json :: "routine_tool_env \<Rightarrow> routine_run \<Rightarrow> json" where
  "run_json rv r =
     JObject [(''id'', JString (rv_show_uuid rv (run_id r))), (''trigger_type'', JString (run_trigger_type r)),
       (''trigger_detail'', json_opt (run_trigger_detail r)), (''started_at'', JString (rv_show_time rv (run_started_at r))),
       (''completed_at'', show_time_json rv (run_completed_at r)),
       (''duration_secs'', case run_completed_at r of
           Some c \<Rightarrow> JNumber (int_str (let d = int c - int (run_started_at r) in sgn d * (abs d div int SECS))) | None \<Rightarrow> JNull),
       (''status'', JString (run_status_display (run_status r))), (''result_summary'', json_opt (run_result_summary r)),
       (''tokens_used'', case run_tokens_used r of Some n \<Rightarrow> JNumber (int_str (sint n)) | None \<Rightarrow> JNull)]"

definition routine_history_execute ::
  "'j sql_backend \<Rightarrow> routine_tool_env \<Rightarrow> string \<Rightarrow> json \<Rightarrow> 'j routine_engine \<Rightarrow> (exec_error, json) result" where
  "routine_history_execute b rv user params eg =
     (case require_str params ''name'' of Err e \<Rightarrow> Err e | Ok name \<Rightarrow>
     (case named_routine b rv user name (eg_db eg) of Err e \<Rightarrow> Err e | Ok r \<Rightarrow>
        (case list_routine_runs b (rt_id r) (history_limit params) (eg_db eg) of
           Err e \<Rightarrow> Err (exec_failed rv ''failed to list runs: '' e)
         | Ok runs \<Rightarrow>
             Ok (JObject [(''routine'', JString name), (''total_runs'', JNumber (nat_str (unat (rt_run_count r)))),
                   (''runs'', JArray (map (run_json rv) runs))]))))"

section \<open>Lemmas\<close>

lemma row_user_name: "row_to_routine b w = Ok r \<Longrightarrow> rt_id r = rw_id w \<and> rt_user_id r = rw_user_id w \<and> rt_name r = rw_name w"
  by (auto simp: row_to_routine_def split: sum.splits)

lemma named_routine_row:
  assumes "named_routine b rv user name db = Ok r"
  shows "\<exists>w \<in> set (rd_routines db). rw_id w = rt_id r \<and> rw_user_id w = user \<and> rw_name w = name \<and> rt_name r = name"
proof (cases "filter (\<lambda>w. rw_user_id w = user \<and> rw_name w = name) (rd_routines db)")
  case Nil
  then show ?thesis using assms
    by (auto simp: named_routine_def get_routine_by_name_def sql_query_def first_row_def split: option.splits)
next
  case (Cons w ws)
  then have "row_to_routine b w = Ok r"
    using assms by (auto simp: named_routine_def get_routine_by_name_def sql_query_def first_row_def split: sum.splits option.splits)
  moreover have "w \<in> set (rd_routines db) \<and> rw_user_id w = user \<and> rw_name w = name"
    using Cons filter_eq_ConsD [OF Cons] by auto
  ultimately show ?thesis using row_user_name [of b w r] by auto
qed

lemma apply_updates_id: "apply_updates rv now params r = Ok r' \<Longrightarrow> rt_id r' = rt_id r \<and> rt_name r' = rt_name r"
  by (auto simp: apply_updates_def Let_def split: option.splits sum.splits)

lemma refresh_db [simp]: "eg_db (refresh_event_cache b env eg) = eg_db eg"
  by (simp add: refresh_event_cache_def split: sum.split)

text \<open>The rows and runs of the other users.\<close>

definition foreign_rows :: "string \<Rightarrow> 'j routine_db \<Rightarrow> 'j routine_row list" where
  "foreign_rows user db = filter (\<lambda>w. rw_user_id w \<noteq> user) (rd_routines db)"

definition foreign_runs :: "string \<Rightarrow> 'j routine_db \<Rightarrow> run_row list" where
  "foreign_runs user db = filter (\<lambda>w. rr_routine_id w \<in> rw_id ` set (foreign_rows user db)) (rd_runs db)"

lemma update_foreign:
  assumes "db_wf db" and "w \<in> set (rd_routines db)" and "rw_user_id w = user" and "rw_id w = rt_id r"
  shows "foreign_rows user (fst (update_routine b now r db)) = foreign_rows user db"
proof -
  have "filter (\<lambda>w. rw_user_id w \<noteq> user) (map (\<lambda>w. if rw_id w = rt_id r then updated_row b now r w else w) ws) =
      filter (\<lambda>w. rw_user_id w \<noteq> user) ws" if "set ws \<subseteq> set (rd_routines db)" for ws
    using that
  proof (induction ws)
    case (Cons v ws)
    then have "rw_id v = rt_id r \<Longrightarrow> v = w" using wf_rows(1) [OF assms(1) _ assms(2)] assms(4) by auto
    then show ?case using Cons assms(3) by (auto simp: updated_row_def)
  qed simp
  then show ?thesis by (simp add: update_routine_def sql_execute_def foreign_rows_def split: option.split)
qed

lemma delete_foreign:
  assumes "db_wf db" and "w \<in> set (rd_routines db)" and "rw_user_id w = user" and "rw_id w = i"
  shows "foreign_rows user (fst (delete_routine i db)) = foreign_rows user db"
    and "foreign_runs user (fst (delete_routine i db)) = foreign_runs user db"
proof -
  have own: "rw_id v \<noteq> i" if "v \<in> set (foreign_rows user db)" for v
    using that wf_rows(1) [OF assms(1) _ assms(2)] assms(3,4) by (auto simp: foreign_rows_def)
  then show rows: "foreign_rows user (fst (delete_routine i db)) = foreign_rows user db"
    by (auto simp: delete_routine_def sql_execute_def foreign_rows_def intro: filter_cong split: option.split)
  have "i \<notin> rw_id ` set (foreign_rows user db)" using own by auto
  then show "foreign_runs user (fst (delete_routine i db)) = foreign_runs user db"
    using rows by (auto simp: foreign_runs_def, auto simp: delete_routine_def sql_execute_def intro: filter_cong split: option.split)
qed

lemma collect_rows_mem: "collect_rows f ws = Ok xs \<Longrightarrow> w \<in> set ws \<Longrightarrow> \<exists>x \<in> set xs. f w = Ok x"
  by (induction ws arbitrary: xs) (auto split: sum.splits)

lemma collect_rows_total: "(\<And>w. w \<in> set ws \<Longrightarrow> \<exists>x. f w = Ok x) \<Longrightarrow> \<exists>xs. collect_rows f ws = Ok xs \<and> length xs = length ws"
  by (induction ws) (fastforce split: sum.split)+

lemma create_reaches:
  assumes "routine_create_execute b rv now i user params eg = (eg', Ok v)"
  shows "\<exists>n tt p t a. require_str params ''name'' = Ok n \<and> require_str params ''trigger_type'' = Ok tt \<and> build_trigger rv now params tt = Ok t \<and>
    build_action params n p = Ok a \<and>
    (let r = build_routine rv now i user params n t a; db = fst (create_routine b r (eg_db eg)) in
       snd (create_routine b r (eg_db eg)) = Ok () \<and>
       eg' = (if trigger_type_tag t = ''event'' then refresh_event_cache b (rv_engine rv) (eg\<lparr>eg_db := db\<rparr>) else eg\<lparr>eg_db := db\<rparr>))"
  using assms by (fastforce simp: routine_create_execute_def Let_def split: sum.splits prod.splits)

section \<open>A sample\<close>

definition sample_tools :: routine_tool_env where
  "sample_tools = \<lparr>rv_engine = sample_engine_env, rv_show_uuid = nat_str, rv_show_time = nat_str\<rparr>"

definition sample_create_params :: json where
  "sample_create_params = JObject [(''name'', JString ''deploys''), (''trigger_type'', JString ''event''),
     (''prompt'', JString ''look''), (''event_pattern'', JString ''deploy'')]"

section \<open>Properties\<close>

text \<open>
  The tools stay inside the routines of their user: creating, updating and deleting leave the rows of all
  other users as they are, and deleting leaves their runs, whatever the parameters and the outcome are.
\<close>

theorem routine_tools_scoped:
  assumes "db_wf (eg_db eg)"
    and "eg' = fst (routine_create_execute b rv now i user params eg) \<or> eg' = fst (routine_update_execute b rv now user params eg) \<or>
         eg' = fst (routine_delete_execute b rv user params eg)"
  shows "foreign_rows user (eg_db eg') = foreign_rows user (eg_db eg) \<and> foreign_runs user (eg_db eg') = foreign_runs user (eg_db eg)"
proof -
  have create: "foreign_rows user (fst (create_routine b (build_routine rv now i user params n t a) db)) = foreign_rows user db" for n t a db
    by (simp add: create_routine_def sql_execute_def foreign_rows_def new_row_def build_routine_def split: option.split)
  have c: "eg_db (fst (routine_create_execute b rv now i user params eg)) = eg_db eg \<or>
      (\<exists>n t a. eg_db (fst (routine_create_execute b rv now i user params eg)) = fst (create_routine b (build_routine rv now i user params n t a) (eg_db eg)))"
    by (auto simp: routine_create_execute_def Let_def split: sum.split prod.split) (metis fst_conv)+
  have u: "eg_db (fst (routine_update_execute b rv now user params eg)) = eg_db eg \<or>
      (\<exists>n r0 r. named_routine b rv user n (eg_db eg) = Ok r0 \<and> rt_id r = rt_id r0 \<and>
        eg_db (fst (routine_update_execute b rv now user params eg)) = fst (update_routine b now r (eg_db eg)))"
    using apply_updates_id by (auto simp: routine_update_execute_def split: sum.split prod.split) (metis fst_conv)+
  have d: "eg_db (fst (routine_delete_execute b rv user params eg)) = eg_db eg \<or>
      (\<exists>n r. named_routine b rv user n (eg_db eg) = Ok r \<and>
        eg_db (fst (routine_delete_execute b rv user params eg)) = fst (delete_routine (rt_id r) (eg_db eg)))"
    by (auto simp: routine_delete_execute_def split: sum.split prod.split) (metis fst_conv)+
  have runs: "foreign_runs user db' = foreign_runs user db" if "foreign_rows user db' = foreign_rows user db" "rd_runs db' = rd_runs db"
    for db db' :: "'a routine_db" using that by (simp add: foreign_runs_def)
  show ?thesis using assms(2)
  proof (elim disjE)
    assume "eg' = fst (routine_create_execute b rv now i user params eg)"
    then show ?thesis using c create runs by (metis runs_of_statements(1))
  next
    assume e: "eg' = fst (routine_update_execute b rv now user params eg)"
    have "foreign_rows user (fst (update_routine b now r (eg_db eg))) = foreign_rows user (eg_db eg)"
      if "named_routine b rv user n (eg_db eg) = Ok r0" "rt_id r = rt_id r0" for n r0 r
      using named_routine_row [OF that(1)] that(2) update_foreign [OF assms(1)] by metis
    then show ?thesis using e u runs by (metis runs_of_statements(2))
  next
    assume e: "eg' = fst (routine_delete_execute b rv user params eg)"
    show ?thesis using e d named_routine_row delete_foreign [OF assms(1)] by (metis (no_types, lifting))
  qed
qed

theorem routine_tools_scoped_witness:
  "foreign_rows ''v'' (eg_db (fst (routine_delete_execute pg_backend sample_tools ''v'' sample_create_params sample_engine))) =
   foreign_rows ''v'' (eg_db sample_engine)"
proof -
  have "db_wf (eg_db sample_engine)" by (simp add: db_wf_def sample_engine_def engine_new_def empty_db_def)
  from routine_tools_scoped [OF this, of _ pg_backend sample_tools 0 2 "''v''" sample_create_params] show ?thesis by blast
qed

text \<open>
  A routine created for events is armed at once: when the tool succeeds and the event routines can be read
  back, the cache of the engine has an entry under the new id whose pattern is the one that was checked.
\<close>

theorem created_event_routine_armed:
  assumes "routine_create_execute pg_backend rv now i user params eg = (eg', Ok v)"
    and "require_str params ''trigger_type'' = Ok ''event''" and "list_event_routines pg_backend (eg_db eg') = Ok rs"
  shows "\<exists>p r re. json_str params ''event_pattern'' = Some p \<and> en_regex (rv_engine rv) p = Ok re \<and>
    (i, r, re) \<in> set (eg_cache eg') \<and> rt_user_id r = user \<and> rt_enabled r \<and> rt_trigger r = Event (json_str params ''event_channel'') p"
proof -
  obtain n p t a where t: "build_trigger rv now params ''event'' = Ok t"
    and c: "snd (create_routine pg_backend (build_routine rv now i user params n t a) (eg_db eg)) = Ok ()"
    and e: "eg' = (if trigger_type_tag t = ''event''
      then refresh_event_cache pg_backend (rv_engine rv) (eg\<lparr>eg_db := fst (create_routine pg_backend (build_routine rv now i user params n t a) (eg_db eg))\<rparr>)
      else eg\<lparr>eg_db := fst (create_routine pg_backend (build_routine rv now i user params n t a) (eg_db eg))\<rparr>)"
    using create_reaches [OF assms(1)] assms(2) by (auto simp: Let_def)
  obtain p re where p: "json_str params ''event_pattern'' = Some p" "en_regex (rv_engine rv) p = Ok re"
    "t = Event (json_str params ''event_channel'') p"
    using t by (auto simp: build_trigger_def split: option.splits sum.splits)
  let ?r = "build_routine rv now i user params n t a" and ?w = "new_row pg_backend (build_routine rv now i user params n t a)"
  have db: "rd_down (eg_db eg') = None" "?w \<in> set (rd_routines (eg_db eg'))"
    using c e p(3) by (auto simp: create_routine_def sql_execute_def split: option.splits if_splits)
  have "rw_enabled ?w" "rw_trigger_type ?w = ''event''" using p(3) by (simp_all add: new_row_def build_routine_def)
  then obtain r where r: "r \<in> set rs" "row_to_routine pg_backend ?w = Ok r"
    using assms(3) db collect_rows_mem [of "row_to_routine pg_backend" "filter (\<lambda>w. rw_enabled w \<and> rw_trigger_type w = ''event'') (rd_routines (eg_db eg'))" rs ?w]
    by (auto simp: list_event_routines_def sql_query_def)
  have rr: "rt_id r = i" "rt_user_id r = user" "rt_enabled r" "rt_trigger r = t"
    using r(2) by (auto simp: row_to_routine_def new_row_def build_routine_def pg_backend_def trigger_back action_back)
  have "eg_db eg' = fst (create_routine pg_backend ?r (eg_db eg))" using e p(3) by simp
  then have list: "list_event_routines pg_backend (fst (create_routine pg_backend ?r (eg_db eg))) = Ok rs" using assms(3) by simp
  have "eg_cache eg' = List.map_filter (\<lambda>r. case rt_trigger r of
      Event _ p \<Rightarrow> (case en_regex (rv_engine rv) p of Ok re \<Rightarrow> Some (rt_id r, r, re) | Err _ \<Rightarrow> None) | _ \<Rightarrow> None) rs"
    using e p(3) list by (simp add: refresh_event_cache_def)
  then have "(i, r, re) \<in> set (eg_cache eg')"
    using r(1) rr p by (force simp: List.map_filter_def)
  then show ?thesis using p rr by blast
qed

theorem created_event_routine_armed_witness:
  "\<exists>r re. (7, r, re) \<in> set (eg_cache (fst (routine_create_execute pg_backend sample_tools 0 7 ''v'' sample_create_params (engine_new 2 empty_db)))) \<and>
     rt_user_id r = ''v''"
proof -
  let ?r = "build_routine sample_tools 0 7 ''v'' sample_create_params ''deploys'' (Event None ''deploy'') (Lightweight ''look'' [] 4096)"
  let ?x = "routine_create_execute pg_backend sample_tools 0 7 ''v'' sample_create_params (engine_new 2 empty_db)"
  have p: "require_str sample_create_params ''name'' = Ok ''deploys''" "require_str sample_create_params ''trigger_type'' = Ok ''event''"
    "require_str sample_create_params ''prompt'' = Ok ''look''" "json_str sample_create_params ''event_pattern'' = Some ''deploy''"
    "json_str sample_create_params ''event_channel'' = None" "json_str sample_create_params ''action_type'' = None"
    "json_str_array sample_create_params ''context_paths'' = []" "json_get sample_create_params ''cooldown_secs'' = None"
    by (simp_all add: sample_create_params_def require_str_def json_str_def json_get_def json_as_str_def json_str_array_def)
  have db: "create_routine pg_backend ?r empty_db = (empty_db\<lparr>rd_routines := [new_row pg_backend ?r]\<rparr>, Ok ())"
    by (simp add: create_routine_def sql_execute_def empty_db_def)
  have x: "\<exists>v. ?x = (fst ?x, Ok v)" "eg_db (fst ?x) = empty_db\<lparr>rd_routines := [new_row pg_backend ?r]\<rparr>"
    using db by (simp_all add: routine_create_execute_def p build_trigger_def build_action_def sample_tools_def sample_engine_env_def engine_new_def Let_def)
  have "secs_below (2 ^ 31) ?r" by (simp add: secs_below_def build_routine_def p as_secs_def SECS_def)
  then have "row_to_routine pg_backend (new_row pg_backend ?r) = Ok (stored pg_backend ?r)" by (rule pg.new_row_back) simp
  moreover have "rw_enabled (new_row pg_backend ?r)" "rw_trigger_type (new_row pg_backend ?r) = ''event''"
    by (simp_all add: new_row_def build_routine_def)
  moreover have "rd_down (empty_db :: json routine_db) = None" by (simp add: empty_db_def)
  ultimately have "list_event_routines pg_backend (eg_db (fst ?x)) = Ok [stored pg_backend ?r]"
    unfolding x(2) by (simp add: list_event_routines_def sql_query_def)
  then show ?thesis using x(1) created_event_routine_armed [OF _ p(2)] by blast
qed

text \<open>
  The history tool caps its limit from above only.  With a negative limit, libSQL returns every run of
  the routine, however many there are.
\<close>

theorem negative_limit_unbounded:
  assumes "db_wf db" and "rd_down db = None" and "history_limit params < 0"
  shows "\<exists>runs. list_routine_runs (libsql_backend jl) i (history_limit params) db = Ok runs \<and>
    length runs = length (filter (\<lambda>w. rr_routine_id w = i) (rd_runs db))"
proof -
  have "\<exists>x. row_to_run w = Ok x" if "w \<in> set (rd_runs db)" for w
    using assms(1) that by (auto simp: db_wf_def row_to_run_def split: sum.split)
  then have "\<exists>xs. collect_rows row_to_run (sort_key (\<lambda>w. - int (rr_started_at w)) (filter (\<lambda>w. rr_routine_id w = i) (rd_runs db))) = Ok xs \<and>
      length xs = length (filter (\<lambda>w. rr_routine_id w = i) (rd_runs db))"
    using collect_rows_total [of "sort_key (\<lambda>w. - int (rr_started_at w)) (filter (\<lambda>w. rr_routine_id w = i) (rd_runs db))" row_to_run] by auto
  then show ?thesis using assms(2,3) by (simp add: list_routine_runs_def sql_query_def libsql_backend_def)
qed

end
