(* ===== verification/Heartbeat.thy ===== *)
theory Heartbeat
  imports Routine_Engine
begin

text \<open>
  The heartbeat, \<^verbatim>\<open>src/src/agent/heartbeat.rs\<close>: a timer around one model call on the checklist in the
  workspace.  The ticks of the timer are the list of what the runner finds at each of them.
\<close>

section \<open>The checklist\<close>

function strip_html_comments :: "string \<Rightarrow> string" where
  "strip_html_comments rest =
     (case str_find rest ''<!--'' of
        None \<Rightarrow> rest
      | Some start \<Rightarrow>
          take start rest @
          (case str_find (drop start rest) ''-->'' of
             Some e \<Rightarrow> strip_html_comments (drop (start + e + 3) rest)
           | None \<Rightarrow> []))"
  by pat_completeness auto
termination
  by (relation "measure length") (auto dest!: str_find_Some)

declare strip_html_comments.simps [simp del]

definition is_effectively_empty :: "string \<Rightarrow> bool" where
  "is_effectively_empty content \<longleftrightarrow>
     list_all (\<lambda>line. let trimmed = trim line in
       trimmed = [] \<or> starts_with trimmed ''#'' \<or> trimmed \<in> {''- [ ]'', ''- [x]'', ''-'', ''*''}) (str_lines (strip_html_comments content))"

section \<open>One check\<close>

record heartbeat_config =
  hc_interval :: duration
  hc_enabled :: bool
  hc_max_failures :: u32
  hc_notify_user_id :: "string option"
  hc_notify_channel :: "string option"

definition heartbeat_default :: heartbeat_config where
  "heartbeat_default =
     \<lparr>hc_interval = 30 * 60 * SECS, hc_enabled = True, hc_max_failures = 3, hc_notify_user_id = None, hc_notify_channel = None\<rparr>"

datatype heartbeat_result = HeartbeatOk | NeedsAttention string | HeartbeatSkipped | HeartbeatFailed string

record heartbeat_env =
  he_checklist :: "(string, string option) result"
  he_system_prompt :: "string option"
  he_context_length :: "u32 option option"
  he_complete :: "completion_request \<Rightarrow> (llm_error, completion_response) result"
  he_display :: display_lib

definition heartbeat_prompt :: "string \<Rightarrow> string" where
  "heartbeat_prompt checklist =
     ''Read the HEARTBEAT.md checklist below and follow it strictly. Do not infer or repeat old tasks. Check each item and report findings.'' @
     para @ ''If nothing needs attention, reply EXACTLY with: HEARTBEAT_OK'' @ para @
     ''If something needs attention, provide a concise summary of what needs action.'' @ para @ ''## HEARTBEAT.md'' @ para @ checklist"

definition heartbeat_request :: "heartbeat_env \<Rightarrow> string \<Rightarrow> completion_request" where
  "heartbeat_request he checklist =
     (let prompt = heartbeat_prompt checklist;
          system = (case he_system_prompt he of Some p \<Rightarrow> p | None \<Rightarrow> []);
          max_tokens = (case he_context_length he of
                          Some meta \<Rightarrow> max (case meta of Some n \<Rightarrow> n div 2 | None \<Rightarrow> 4096) 4096
                        | None \<Rightarrow> 4096)
      in (completion_request_new (if system = [] then [msg_user prompt] else [msg_system system, msg_user prompt]))
         \<lparr>cr_max_tokens := Some max_tokens, cr_temperature := Some 0x3E99999A\<rparr>)"

text \<open>The check returns the requests it sends to the model and its result.\<close>

definition check_heartbeat :: "heartbeat_env \<Rightarrow> completion_request list \<times> heartbeat_result" where
  "check_heartbeat he =
     (case he_checklist he of
        Err e \<Rightarrow> ([], HeartbeatFailed (''Failed to read checklist: '' @ e))
      | Ok None \<Rightarrow> ([], HeartbeatSkipped)
      | Ok (Some checklist) \<Rightarrow>
          if is_effectively_empty checklist then ([], HeartbeatSkipped)
          else let request = heartbeat_request he checklist in
            ([request],
             case he_complete he request of
               Err e \<Rightarrow> HeartbeatFailed (''LLM call failed: '' @ llm_error_display (he_display he) e)
             | Ok response \<Rightarrow>
                 let content = trim (rs_content response) in
                 if content = [] then
                   HeartbeatFailed (if rs_finish_reason response = Length
                     then ''LLM response was truncated (finish_reason=length) with no content. The model may have exhausted its token budget on reasoning.''
                     else ''LLM returned empty content.'')
                 else if content = ''HEARTBEAT_OK'' \<or> contains content ''HEARTBEAT_OK'' then HeartbeatOk
                 else NeedsAttention content))"

section \<open>The loop\<close>

definition heartbeat_notice :: "string \<Rightarrow> outgoing" where
  "heartbeat_notice message =
     \<lparr>og_content = [CHR 0xF0, CHR 0x9F, CHR 0x94, CHR 0x94] @ '' *Heartbeat Alert*'' @ para @ message, og_thread_id = None,
      og_metadata = JObject [(''source'', JString ''heartbeat'')]\<rparr>"

text \<open>
  The loop over the ticks, with the counter of failures.  It returns the notifications and, when it has
  stopped, the ticks it has not seen.
\<close>

fun heartbeat_loop :: "u32 \<Rightarrow> u32 \<Rightarrow> heartbeat_result list \<Rightarrow> outgoing list \<times> heartbeat_result list option" where
  "heartbeat_loop max_failures failures [] = ([], None)"
| "heartbeat_loop max_failures failures (r # rs) =
     (case r of
        HeartbeatOk \<Rightarrow> heartbeat_loop max_failures 0 rs
      | NeedsAttention message \<Rightarrow> (let (ns, x) = heartbeat_loop max_failures 0 rs in (heartbeat_notice message # ns, x))
      | HeartbeatSkipped \<Rightarrow> heartbeat_loop max_failures failures rs
      | HeartbeatFailed _ \<Rightarrow>
          if failures + 1 \<ge> max_failures then ([], Some rs) else heartbeat_loop max_failures (failures + 1) rs)"

definition heartbeat_run :: "heartbeat_config \<Rightarrow> heartbeat_result list \<Rightarrow> outgoing list \<times> heartbeat_result list option" where
  "heartbeat_run hc rs = (if \<not> hc_enabled hc then ([], Some rs) else heartbeat_loop (hc_max_failures hc) 0 rs)"

section \<open>Lemmas\<close>

definition is_failure :: "heartbeat_result \<Rightarrow> bool" where
  "is_failure r \<longleftrightarrow> (case r of HeartbeatFailed _ \<Rightarrow> True | _ \<Rightarrow> False)"

text \<open>The failures at the end of a sequence of ticks, not counting the ticks that were skipped.\<close>

definition failure_streak :: "heartbeat_result list \<Rightarrow> nat" where
  "failure_streak rs = length (takeWhile is_failure (rev (filter (\<lambda>r. r \<noteq> HeartbeatSkipped) rs)))"

lemma failure_streak_snoc:
  "failure_streak [] = 0" "failure_streak (xs @ [HeartbeatOk]) = 0" "failure_streak (xs @ [NeedsAttention m]) = 0"
  "failure_streak (xs @ [HeartbeatSkipped]) = failure_streak xs" "failure_streak (xs @ [HeartbeatFailed e]) = Suc (failure_streak xs)"
  by (simp_all add: failure_streak_def is_failure_def)

lemma heartbeat_loop_streak:
  assumes "heartbeat_loop m k rs = (ns, x)" and "unat k = failure_streak past" and "failure_streak past < unat m"
  shows "case x of
      Some rest \<Rightarrow> (\<exists>seen. rs = seen @ rest \<and> failure_streak (past @ seen) = unat m \<and> (\<forall>j < length seen. failure_streak (past @ take j seen) < unat m))
    | None \<Rightarrow> (\<forall>j \<le> length rs. failure_streak (past @ take j rs) < unat m)"
  using assms
proof (induction rs arbitrary: k ns x past)
  case (Cons r rs)
  have step: "case y of
      Some rest \<Rightarrow> (\<exists>seen. r # rs = seen @ rest \<and> failure_streak (past @ seen) = unat m \<and> (\<forall>j < length seen. failure_streak (past @ take j seen) < unat m))
    | None \<Rightarrow> (\<forall>j \<le> length (r # rs). failure_streak (past @ take j (r # rs)) < unat m)"
    if h: "heartbeat_loop m l rs = (os, y)" "unat l = failure_streak (past @ [r])" "failure_streak (past @ [r]) < unat m" for l os y
  proof (cases y)
    case None
    then have "\<forall>j \<le> length rs. failure_streak ((past @ [r]) @ take j rs) < unat m" using Cons.IH [of l os y "past @ [r]"] h by simp
    then show ?thesis using None Cons.prems(3) by (auto simp: take_Cons' le_Suc_eq split: nat.splits)
  next
    case (Some rest)
    then obtain seen where s: "rs = seen @ rest" "failure_streak ((past @ [r]) @ seen) = unat m"
      "\<forall>j < length seen. failure_streak ((past @ [r]) @ take j seen) < unat m" using Cons.IH [of l os y "past @ [r]"] h by auto
    have "failure_streak (past @ take j (r # seen)) < unat m" if "j < length (r # seen)" for j
      using that s(3) Cons.prems(3) by (cases j) auto
    then have "r # rs = (r # seen) @ rest \<and> failure_streak (past @ (r # seen)) = unat m \<and>
      (\<forall>j < length (r # seen). failure_streak (past @ take j (r # seen)) < unat m)" using s by simp
    then show ?thesis unfolding Some option.case by blast
  qed
  show ?case
  proof (cases r)
    case HeartbeatOk
    then show ?thesis using Cons.prems step [of 0] by (auto simp: failure_streak_snoc)
  next
    case (NeedsAttention msg)
    then show ?thesis using Cons.prems step [of 0] by (auto simp: failure_streak_snoc split: prod.splits)
  next
    case HeartbeatSkipped
    then show ?thesis using Cons.prems step [of k] by (simp add: failure_streak_snoc)
  next
    case (HeartbeatFailed e)
    have "unat m < 2 ^ LENGTH(32)" by (rule unsigned_less)
    then have lt: "unat k + 1 < 2 ^ LENGTH(32)" using Cons.prems(2,3) by simp
    then have u: "unat (k + 1) = unat k + 1" by (simp add: unat_word_ariths)
    show ?thesis
    proof (cases "m \<le> k + 1")
      case True
      then have "unat m = Suc (failure_streak past)" using u Cons.prems(2,3) by (simp add: word_le_nat_alt)
      then show ?thesis using Cons.prems True HeartbeatFailed
        by (auto intro!: exI [of _ "[r]"] simp: failure_streak_snoc)
    next
      case False
      then show ?thesis using Cons.prems step [of "k + 1"] u HeartbeatFailed
        by (simp add: failure_streak_snoc word_le_nat_alt)
    qed
  qed
qed simp

section \<open>Properties\<close>

text \<open>
  The heartbeat stops exactly when its limit of consecutive failures is reached for the first time: the
  ticks it has seen end in that many failures, skipped ticks not counted, and no earlier point does; while it has
  not stopped, no point of the ticks does.  Success and alerts reset the count, a skipped tick does not.
\<close>

theorem heartbeat_stops_at_limit:
  assumes "hc_enabled hc" and "hc_max_failures hc \<noteq> 0" and "heartbeat_run hc rs = (ns, x)"
  shows "case x of
      Some rest \<Rightarrow> (\<exists>seen. rs = seen @ rest \<and> failure_streak seen = unat (hc_max_failures hc) \<and>
        (\<forall>j < length seen. failure_streak (take j seen) < unat (hc_max_failures hc)))
    | None \<Rightarrow> (\<forall>j \<le> length rs. failure_streak (take j rs) < unat (hc_max_failures hc))"
  using heartbeat_loop_streak [of "hc_max_failures hc" 0 rs ns x "[]"] assms
  by (cases x) (simp_all add: heartbeat_run_def failure_streak_snoc unat_gt_0)

theorem heartbeat_stops_at_limit_witness:
  "failure_streak [HeartbeatFailed ''a'', HeartbeatSkipped, HeartbeatFailed ''b'', HeartbeatFailed ''c''] = 3"
proof -
  let ?rs = "[HeartbeatFailed ''a'', HeartbeatSkipped, HeartbeatFailed ''b'', HeartbeatFailed ''c'']"
  have "heartbeat_run heartbeat_default ?rs = ([], Some [])" by (simp add: heartbeat_run_def heartbeat_default_def word_le_nat_alt)
  from heartbeat_stops_at_limit [OF _ _ this] show ?thesis by (simp add: heartbeat_default_def)
qed

text \<open>
  The model is asked only when there is something to check: one request when the checklist was read and
  has a line that is neither blank, a heading, a comment nor an empty item, and none otherwise.
\<close>

theorem heartbeat_asks_only_with_tasks:
  "fst (check_heartbeat he) =
     (case he_checklist he of Ok (Some c) \<Rightarrow> if is_effectively_empty c then [] else [heartbeat_request he c] | _ \<Rightarrow> [])"
  by (simp add: check_heartbeat_def Let_def split: sum.split option.split)

end
