(* ===== verification/Tool_Registry.thy ===== *)
theory Tool_Registry
  imports Prelude
begin

text \<open>
  The registry of tools, \<^verbatim>\<open>src/src/tools/registry.rs\<close>, and the removal of the tools of an MCP server in
  \<^verbatim>\<open>src/src/extensions/manager.rs\<close>.

  The tools and the names of the built-in ones stand under two locks.  Registering a tool at run time looks
  under the first and inserts under the second; the registrations that have looked and not yet inserted are part
  of the state, so that the steps interleave.  The registration at startup tries the locks and gives up
  when one is taken: whether they are free is an argument.
\<close>

section \<open>The registry\<close>

datatype tool_domain = Orchestrator | Container

record 't registered_tool =
  rg_name :: string
  rg_description :: string
  rg_schema :: json
  rg_domain :: tool_domain
  rg_impl :: 't

record tool_definition =
  td_name :: string
  td_description :: string
  td_parameters :: json

record 't tool_registry =
  tg_tools :: "(string \<times> 't registered_tool) list"
  tg_builtin_names :: "string list"
  tg_pending :: "'t registered_tool list"

definition PROTECTED_TOOL_NAMES :: "string list" where
  "PROTECTED_TOOL_NAMES =
     [''echo'', ''time'', ''json'', ''http'', ''shell'', ''read_file'', ''write_file'', ''list_dir'', ''apply_patch'',
      ''memory_search'', ''memory_write'', ''memory_read'', ''memory_graph'', ''memory_tree'', ''create_job'', ''list_jobs'',
      ''job_status'', ''cancel_job'', ''build_software'', ''tool_search'', ''tool_install'', ''tool_auth'', ''tool_activate'',
      ''tool_list'', ''tool_remove'', ''routine_create'', ''routine_list'', ''routine_update'', ''routine_delete'',
      ''routine_history'', ''skill_list'', ''skill_search'', ''skill_install'', ''skill_remove'', ''kernel_patch'']"

definition tool_registry_new :: "'t tool_registry" where
  "tool_registry_new = \<lparr>tg_tools = [], tg_builtin_names = [], tg_pending = []\<rparr>"

text \<open>\<open>register\<close>: the look under the lock of the names, and the insertion under the lock of the tools.\<close>

definition register_look :: "'t registered_tool \<Rightarrow> 't tool_registry \<Rightarrow> 't tool_registry" where
  "register_look t g = (if rg_name t \<in> set (tg_builtin_names g) then g else g\<lparr>tg_pending := t # tg_pending g\<rparr>)"

definition register_insert :: "'t registered_tool \<Rightarrow> 't tool_registry \<Rightarrow> 't tool_registry" where
  "register_insert t g = g\<lparr>tg_pending := remove1 t (tg_pending g), tg_tools := AList.update (rg_name t) t (tg_tools g)\<rparr>"

definition register :: "'t registered_tool \<Rightarrow> 't tool_registry \<Rightarrow> 't tool_registry" where
  "register t g = (if rg_name t \<in> set (tg_builtin_names g) then g else g\<lparr>tg_tools := AList.update (rg_name t) t (tg_tools g)\<rparr>)"

definition register_sync :: "bool \<Rightarrow> bool \<Rightarrow> 't registered_tool \<Rightarrow> 't tool_registry \<Rightarrow> 't tool_registry" where
  "register_sync tools_free names_free t g =
     (if \<not> tools_free then g
      else g\<lparr>tg_tools := AList.update (rg_name t) t (tg_tools g),
             tg_builtin_names := (if rg_name t \<in> set PROTECTED_TOOL_NAMES \<and> names_free
                                  then List.insert (rg_name t) (tg_builtin_names g) else tg_builtin_names g)\<rparr>)"

definition unregister :: "string \<Rightarrow> 't tool_registry \<Rightarrow> 't tool_registry \<times> 't registered_tool option" where
  "unregister name g = (g\<lparr>tg_tools := AList.delete name (tg_tools g)\<rparr>, map_of (tg_tools g) name)"

definition get_tool :: "'t tool_registry \<Rightarrow> string \<Rightarrow> 't registered_tool option" where
  "get_tool g name = map_of (tg_tools g) name"

definition has_tool :: "'t tool_registry \<Rightarrow> string \<Rightarrow> bool" where
  "has_tool g name \<longleftrightarrow> map_of (tg_tools g) name \<noteq> None"

definition list_tools :: "'t tool_registry \<Rightarrow> string list" where
  "list_tools g = map fst (tg_tools g)"

definition count_tools :: "bool \<Rightarrow> 't tool_registry \<Rightarrow> nat" where
  "count_tools tools_free g = (if tools_free then length (tg_tools g) else 0)"

definition all_tools :: "'t tool_registry \<Rightarrow> 't registered_tool list" where
  "all_tools g = map snd (tg_tools g)"

definition tool_definition_of :: "'t registered_tool \<Rightarrow> tool_definition" where
  "tool_definition_of t = \<lparr>td_name = rg_name t, td_description = rg_description t, td_parameters = rg_schema t\<rparr>"

definition tool_definitions :: "'t tool_registry \<Rightarrow> tool_definition list" where
  "tool_definitions g = map tool_definition_of (all_tools g)"

definition tool_definitions_for :: "'t tool_registry \<Rightarrow> string list \<Rightarrow> tool_definition list" where
  "tool_definitions_for g names = map tool_definition_of (List.map_filter (get_tool g) names)"

definition tool_definitions_for_domain :: "'t tool_registry \<Rightarrow> tool_domain \<Rightarrow> tool_definition list" where
  "tool_definitions_for_domain g d = map tool_definition_of (filter (\<lambda>t. rg_domain t = d) (all_tools g))"

section \<open>Startup\<close>

text \<open>The tools of a group come from \<open>mk\<close>, which builds the tool of a name; nothing holds the locks at startup.\<close>

definition register_all :: "(string \<Rightarrow> 't registered_tool) \<Rightarrow> string list \<Rightarrow> 't tool_registry \<Rightarrow> 't tool_registry" where
  "register_all mk names g = foldl (\<lambda>g n. register_sync True True (mk n) g) g names"

definition register_builtin_tools :: "(string \<Rightarrow> 't registered_tool) \<Rightarrow> 't tool_registry \<Rightarrow> 't tool_registry" where
  "register_builtin_tools mk = register_all mk [''echo'', ''time'', ''json'', ''http'']"

definition register_dev_tools :: "(string \<Rightarrow> 't registered_tool) \<Rightarrow> 't tool_registry \<Rightarrow> 't tool_registry" where
  "register_dev_tools mk = register_all mk [''shell'', ''read_file'', ''write_file'', ''list_dir'', ''apply_patch'']"

definition register_jit_tool :: "(string \<Rightarrow> 't registered_tool) \<Rightarrow> 't tool_registry \<Rightarrow> 't tool_registry" where
  "register_jit_tool mk = register_all mk [''jit_wasm_run'']"

definition register_kernel_tools :: "(string \<Rightarrow> 't registered_tool) \<Rightarrow> 't tool_registry \<Rightarrow> 't tool_registry" where
  "register_kernel_tools mk = register_all mk [''kernel_patch'']"

definition register_memory_tools :: "(string \<Rightarrow> 't registered_tool) \<Rightarrow> 't tool_registry \<Rightarrow> 't tool_registry" where
  "register_memory_tools mk = register_all mk [''memory_search'', ''memory_write'', ''memory_read'', ''memory_graph'', ''memory_tree'']"

definition register_job_tools :: "bool \<Rightarrow> bool \<Rightarrow> (string \<Rightarrow> 't registered_tool) \<Rightarrow> 't tool_registry \<Rightarrow> 't tool_registry" where
  "register_job_tools store prompt_queue mk =
     register_all mk ([''create_job'', ''list_jobs'', ''job_status'', ''cancel_job''] @
       (if store then [''job_events''] else []) @ (if prompt_queue then [''job_prompt''] else []))"

definition register_extension_tools :: "(string \<Rightarrow> 't registered_tool) \<Rightarrow> 't tool_registry \<Rightarrow> 't tool_registry" where
  "register_extension_tools mk =
     register_all mk [''tool_search'', ''tool_install'', ''tool_auth'', ''tool_activate'', ''tool_list'', ''tool_remove'']"

definition register_skill_tools :: "(string \<Rightarrow> 't registered_tool) \<Rightarrow> 't tool_registry \<Rightarrow> 't tool_registry" where
  "register_skill_tools mk = register_all mk [''skill_list'', ''skill_search'', ''skill_install'', ''skill_remove'']"

definition register_routine_tools :: "(string \<Rightarrow> 't registered_tool) \<Rightarrow> 't tool_registry \<Rightarrow> 't tool_registry" where
  "register_routine_tools mk =
     register_all mk [''routine_create'', ''routine_list'', ''routine_update'', ''routine_delete'', ''routine_history'']"

definition register_builder_tool :: "(string \<Rightarrow> 't registered_tool) \<Rightarrow> 't tool_registry \<Rightarrow> 't tool_registry" where
  "register_builder_tool mk g = register (mk ''build_software'') (register_dev_tools mk g)"

text \<open>The tools a removed MCP server takes with it: all whose names start with its name and an underscore.\<close>

definition mcp_tool_names :: "string \<Rightarrow> 't tool_registry \<Rightarrow> string list" where
  "mcp_tool_names server g = filter (\<lambda>t. starts_with t (server @ ''_'')) (list_tools g)"

definition remove_mcp_tools :: "string \<Rightarrow> 't tool_registry \<Rightarrow> 't tool_registry" where
  "remove_mcp_tools server g = foldl (\<lambda>g n. fst (unregister n g)) g (mcp_tool_names server g)"

section \<open>Steps\<close>

inductive registry_change :: "'t tool_registry \<Rightarrow> 't tool_registry \<Rightarrow> bool" where
  look: "registry_change g (register_look t g)"
| insert: "t \<in> set (tg_pending g) \<Longrightarrow> registry_change g (register_insert t g)"

inductive_cases registry_changeE: "registry_change g g'"

lemma register_all_tools:
  assumes "\<And>n. rg_name (mk n) = n"
  shows "map_of (tg_tools (register_all mk ns g)) n = (if n \<in> set ns then Some (mk n) else map_of (tg_tools g) n) \<and>
    set (tg_builtin_names (register_all mk ns g)) = set (tg_builtin_names g) \<union> (set ns \<inter> set PROTECTED_TOOL_NAMES) \<and>
    tg_pending (register_all mk ns g) = tg_pending g"
proof (induction ns arbitrary: g)
  case (Cons m ns)
  have "register_all mk (m # ns) g = register_all mk ns (register_sync True True (mk m) g)" by (simp add: register_all_def)
  then show ?case using assms Cons [of "register_sync True True (mk m) g"]
    by (auto simp: register_sync_def update_conv')
qed (simp add: register_all_def)

definition shielded :: "string \<Rightarrow> 't registered_tool \<Rightarrow> 't tool_registry \<Rightarrow> bool" where
  "shielded n t g \<longleftrightarrow> n \<in> set (tg_builtin_names g) \<and> map_of (tg_tools g) n = Some t \<and> n \<notin> rg_name ` set (tg_pending g)"

lemma shielded_step: "registry_change g g' \<Longrightarrow> shielded n t g \<Longrightarrow> shielded n t g'"
proof (induction rule: registry_change.induct)
  case (look g u)
  then show ?case by (auto simp: shielded_def register_look_def)
next
  case (insert u g)
  then have "rg_name u \<noteq> n" by (auto simp: shielded_def)
  moreover have "rg_name ` set (remove1 u (tg_pending g)) \<subseteq> rg_name ` set (tg_pending g)" by (intro image_mono set_remove1_subset)
  ultimately show ?case using insert
    by (simp add: shielded_def register_insert_def update_conv') blast
qed

lemma shielded_path: "registry_change\<^sup>*\<^sup>* g g' \<Longrightarrow> shielded n t g \<Longrightarrow> shielded n t g'"
  by (induction rule: rtranclp_induct) (auto intro: shielded_step)

section \<open>Properties\<close>

text \<open>
  A protected tool that was registered at startup stays what it is: however registrations at run time look
  and insert afterwards, the name leads to the same tool, provided no registration of that name had
  looked before the startup registration was complete.
\<close>

theorem builtin_not_shadowed:
  assumes "\<And>n. rg_name (mk n) = n" and "n \<in> set ns" and "n \<in> set PROTECTED_TOOL_NAMES"
    and "n \<notin> rg_name ` set (tg_pending g)" and "registry_change\<^sup>*\<^sup>* (register_all mk ns g) g'"
  shows "get_tool g' n = Some (mk n)"
proof -
  have "shielded n (mk n) (register_all mk ns g)"
    using register_all_tools [OF assms(1), of ns g n] assms(2-4) by (simp add: shielded_def)
  from shielded_path [OF assms(5) this] show ?thesis by (simp add: shielded_def get_tool_def)
qed

definition sample_tool :: "string \<Rightarrow> nat registered_tool" where
  "sample_tool n = \<lparr>rg_name = n, rg_description = [], rg_schema = JNull, rg_domain = Orchestrator, rg_impl = 0\<rparr>"

theorem builtin_not_shadowed_witness:
  "get_tool (register_look ((sample_tool ''shell'')\<lparr>rg_impl := 1\<rparr>) (register_dev_tools sample_tool tool_registry_new)) ''shell'' = Some (sample_tool ''shell'')"
  unfolding register_dev_tools_def
proof (rule builtin_not_shadowed)
  show "registry_change\<^sup>*\<^sup>* (register_all sample_tool [''shell'', ''read_file'', ''write_file'', ''list_dir'', ''apply_patch''] tool_registry_new)
      (register_look (sample_tool ''shell''\<lparr>rg_impl := 1\<rparr>)
        (register_all sample_tool [''shell'', ''read_file'', ''write_file'', ''list_dir'', ''apply_patch''] tool_registry_new))"
    by (rule r_into_rtranclp) (rule registry_change.look)
qed (simp_all add: sample_tool_def PROTECTED_TOOL_NAMES_def tool_registry_new_def)

text \<open>
  A registration that has looked before the startup registration of the name wins: it inserts afterwards and
  replaces the built-in tool, which the names still call built-in.
\<close>

theorem early_look_shadows:
  assumes "rg_name (mk n) = n" and "n \<in> set PROTECTED_TOOL_NAMES" and "rg_name t = n" and "n \<notin> set (tg_builtin_names g)"
  shows "get_tool (register_insert t (register_sync True True (mk n) (register_look t g))) n = Some t \<and>
    n \<in> set (tg_builtin_names (register_insert t (register_sync True True (mk n) (register_look t g))))"
  using assms by (simp add: get_tool_def register_insert_def register_sync_def register_look_def update_conv')

theorem early_look_shadows_witness:
  "get_tool (register_insert ((sample_tool ''shell'')\<lparr>rg_impl := 1\<rparr>) (register_sync True True (sample_tool ''shell'')
     (register_look ((sample_tool ''shell'')\<lparr>rg_impl := 1\<rparr>) tool_registry_new))) ''shell'' = Some ((sample_tool ''shell'')\<lparr>rg_impl := 1\<rparr>)"
  using early_look_shadows [of sample_tool "''shell''" "(sample_tool ''shell'')\<lparr>rg_impl := 1\<rparr>" tool_registry_new]
  by (simp add: sample_tool_def PROTECTED_TOOL_NAMES_def tool_registry_new_def)

text \<open>
  The builder is on the list of protected names and is not protected: it is registered by the call for run
  time tools, which marks nothing, so a later registration under its name replaces it.
\<close>

theorem builder_can_be_replaced:
  assumes "\<And>n. rg_name (mk n) = n" and "''build_software'' \<notin> set (tg_builtin_names g)" and "rg_name t = ''build_software''"
  shows "''build_software'' \<in> set PROTECTED_TOOL_NAMES \<and> get_tool (register_builder_tool mk g) ''build_software'' = Some (mk ''build_software'') \<and>
    get_tool (register t (register_builder_tool mk g)) ''build_software'' = Some t"
proof -
  have "''build_software'' \<notin> set (tg_builtin_names (register_dev_tools mk g))"
    using register_all_tools [OF assms(1), of "[''shell'', ''read_file'', ''write_file'', ''list_dir'', ''apply_patch'']" g] assms(2)
    by (simp add: register_dev_tools_def)
  then show ?thesis using assms(1,3)
    by (simp add: register_builder_tool_def register_def get_tool_def update_conv' PROTECTED_TOOL_NAMES_def)
qed

theorem builder_can_be_replaced_witness:
  "get_tool (register ((sample_tool ''build_software'')\<lparr>rg_impl := 1\<rparr>) (register_builder_tool sample_tool tool_registry_new)) ''build_software'' =
   Some ((sample_tool ''build_software'')\<lparr>rg_impl := 1\<rparr>)"
  using builder_can_be_replaced [of sample_tool tool_registry_new "(sample_tool ''build_software'')\<lparr>rg_impl := 1\<rparr>"]
  by (simp add: sample_tool_def tool_registry_new_def)

text \<open>
  Removing an MCP server removes every tool whose name starts with the name of the server and an
  underscore, built-in tools and tools of other servers included.
\<close>

theorem mcp_removal_by_prefix:
  "get_tool (remove_mcp_tools server g) n = (if starts_with n (server @ ''_'') then None else get_tool g n)"
proof -
  have "map_of (tg_tools (foldl (\<lambda>g n. fst (unregister n g)) g ns)) n = (if n \<in> set ns then None else map_of (tg_tools g) n)" for ns
    by (induction ns arbitrary: g) (auto simp: unregister_def delete_conv')
  moreover have "map_of (tg_tools g) n = None" if "n \<notin> set (list_tools g)"
    using that by (simp add: list_tools_def map_of_eq_None_iff)
  ultimately show ?thesis by (auto simp: get_tool_def remove_mcp_tools_def mcp_tool_names_def)
qed

end
