(* ===== verification/Reasoning.thy ===== *)
theory Reasoning
  imports Dispatcher Util Hooks Tool_Registry
begin

text \<open>
  The answers of the model on their way into the loop, \<^verbatim>\<open>src/src/llm/reasoning.rs\<close>: the prompt of a
  conversation, the call with or without tools, the recovery of tool calls from text and the clean-up of
  text for the user.  The two providers' calls are arguments.
\<close>

section \<open>Text\<close>

definition extract_json :: "string \<Rightarrow> string option" where
  "extract_json txt =
     (case (position (\<lambda>c. c = CHR ''{'') txt, position (\<lambda>c. c = CHR ''}'') (rev txt)) of
        (Some start, Some back) \<Rightarrow>
          let e = length txt - Suc back in if start < e then Some (take (e - start + 1) (drop start txt)) else None
      | _ \<Rightarrow> None)"

definition TAG_PAIRS :: "(string \<times> string) list" where
  "TAG_PAIRS = [(''<tool_call>'', ''</tool_call>''), (''<|tool_call|>'', ''<|/tool_call|>''),
     (''<function_call>'', ''</function_call>''), (''<|function_call|>'', ''<|/function_call|>'')]"

text \<open>The texts between the tags of one kind; the tags of the code are not empty.\<close>

function tagged :: "string \<Rightarrow> string \<Rightarrow> string \<Rightarrow> string list" where
  "tagged open_tag close_tag remaining =
     (case str_find remaining open_tag of
        None \<Rightarrow> []
      | Some start \<Rightarrow>
          let after = drop (start + length open_tag) remaining in
          (case str_find after close_tag of
             None \<Rightarrow> []
           | Some e \<Rightarrow> if open_tag = [] \<and> close_tag = [] then [] else trim (take e after) # tagged open_tag close_tag (drop (e + length close_tag) after)))"
  by pat_completeness auto
termination
  by (relation "measure (\<lambda>(a, b, s). length s)") (auto dest!: str_find_Some simp flip: length_greater_0_conv)

declare tagged.simps [simp del]

text \<open>What one such text asks for: a name with arguments in JSON, or a bare name.\<close>

definition recovered_call :: "json_lib \<Rightarrow> string list \<Rightarrow> string \<Rightarrow> (string \<times> json) option" where
  "recovered_call jl names inner =
     (if inner = [] then None
      else case Option.bind (jl_from jl inner) (\<lambda>v. map_option (\<lambda>n. (n, v)) (json_str v ''name'')) of
        Some (n, v) \<Rightarrow>
          if n \<in> set names then Some (n, case json_get v ''arguments'' of Some a \<Rightarrow> a | None \<Rightarrow> JObject [])
          else if trim inner \<in> set names then Some (trim inner, JObject []) else None
      | None \<Rightarrow> if trim inner \<in> set names then Some (trim inner, JObject []) else None)"

definition recover_tool_calls_from_content :: "json_lib \<Rightarrow> string \<Rightarrow> tool_definition list \<Rightarrow> tool_call list" where
  "recover_tool_calls_from_content jl content available_tools =
     (let found = List.map_filter (recovered_call jl (map td_name available_tools))
                    (concat (map (\<lambda>(a, b). tagged a b content) TAG_PAIRS))
      in map (\<lambda>(k, n, a). \<lparr>tc_id = ''recovered_'' @ nat_str k, tc_name = n, tc_arguments = a\<rparr>) (zip [0..<length found] found))"

definition INTERNAL_TAGS :: "string list" where
  "INTERNAL_TAGS = [''thinking'', ''tool_call'', ''function_call'', ''tool_calls'']"

definition min_pos :: "nat option \<Rightarrow> nat option \<Rightarrow> nat option" where
  "min_pos a b = (case (a, b) of (Some x, Some y) \<Rightarrow> Some (min x y) | (Some x, None) \<Rightarrow> Some x | (None, y) \<Rightarrow> y)"

lemma min_pos_cases: "min_pos a b = Some k \<Longrightarrow> a = Some k \<or> b = Some k"
  by (auto simp: min_pos_def min_def split: option.splits if_splits)

text \<open>
  \<open>strip_xml_tag\<close>.  The search for the \<open>>\<close> of an opening tag starts at the tag.  Where there is none, the
  loop ends after the text before the tag has been copied, and all of the remaining text is appended.
\<close>

function strip_xml_tag :: "string \<Rightarrow> string \<Rightarrow> string" where
  "strip_xml_tag remaining tag =
     (case min_pos (str_find remaining (''<'' @ tag @ ''>'')) (str_find remaining (''<'' @ tag @ '' '')) of
        None \<Rightarrow> remaining
      | Some start \<Rightarrow>
          take start remaining @
          (case str_find (drop start remaining) ''>'' of
             None \<Rightarrow> remaining
           | Some p \<Rightarrow>
               let open_end = start + p + 1 in
               (case str_find (drop open_end remaining) (''</'' @ tag @ ''>'') of
                  Some c \<Rightarrow> strip_xml_tag (drop (open_end + c + length (''</'' @ tag @ ''>'')) remaining) tag
                | None \<Rightarrow> [])))"
  by pat_completeness auto
termination
  by (relation "measure (\<lambda>(s, t). length s)") (auto dest!: str_find_Some)

declare strip_xml_tag.simps [simp del]

function strip_pipe_tag :: "string \<Rightarrow> string \<Rightarrow> string" where
  "strip_pipe_tag remaining tag =
     (case str_find remaining (''<|'' @ tag @ ''|>'') of
        None \<Rightarrow> remaining
      | Some start \<Rightarrow>
          take start remaining @
          (case str_find (drop start remaining) (''<|/'' @ tag @ ''|>'') of
             Some c \<Rightarrow> strip_pipe_tag (drop (start + c + length (''<|/'' @ tag @ ''|>'')) remaining) tag
           | None \<Rightarrow> []))"
  by pat_completeness auto
termination
  by (relation "measure (\<lambda>(s, t). length s)") (auto dest!: str_find_Some)

declare strip_pipe_tag.simps [simp del]

definition nl3 :: string where "nl3 = [CHR 0x0A, CHR 0x0A, CHR 0x0A]"
definition nl2 :: string where "nl2 = [CHR 0x0A, CHR 0x0A]"

lemma replace_nonempty_shorter:
  "length r < length p \<Longrightarrow> length (replace_nonempty p r s) \<le> length s \<and> (contains s p \<longrightarrow> length (replace_nonempty p r s) < length s)"
proof (induction p r s rule: replace_nonempty.induct)
  case (1 p r s)
  consider "s = []" | "s \<noteq> []" "starts_with s p" | "s \<noteq> []" "\<not> starts_with s p" by blast
  then show ?case
  proof cases
    case 2
    then have "length p \<le> length s" by (metis starts_with_def length_take min.cobounded1)
    then show ?thesis using 1 2 by (subst (1 2) replace_nonempty.simps) (auto simp: le_diff_conv2)
  next
    case 3
    then obtain c t where "s = c # t" by (cases s) auto
    then show ?thesis using 1 3 by (subst (1 2) replace_nonempty.simps) auto
  qed (use 1 in \<open>auto simp: replace_nonempty.simps\<close>)
qed

function collapse_newlines :: "string \<Rightarrow> string" where
  "collapse_newlines s = (if contains s nl3 then collapse_newlines (replace_str s nl3 nl2) else s)"
  by pat_completeness auto
termination
  by (relation "measure length") (auto simp: replace_str_def nl3_def nl2_def replace_nonempty_shorter)

declare collapse_newlines.simps [simp del]

definition strip_internal_tags :: "string \<Rightarrow> string" where
  "strip_internal_tags txt =
     trim (collapse_newlines (foldl (\<lambda>s tag. strip_pipe_tag (strip_xml_tag s tag) tag) txt INTERNAL_TAGS))"

definition looks_direct :: "string \<Rightarrow> bool" where
  "looks_direct s \<longleftrightarrow> s \<noteq> [] \<and> hd s \<in> {CHR ''#'', CHR 0x60, CHR ''*'', CHR ''-''}"

definition strip_reasoning_patterns :: "string \<Rightarrow> string" where
  "strip_reasoning_patterns txt =
     (let s = trim txt in
      if s = [] \<or> looks_direct s then s
      else case str_find s nl2 of
        None \<Rightarrow> s
      | Some idx \<Rightarrow>
          let after_break = trim (drop (idx + 2) s) in
          if after_break \<noteq> [] \<and>
             (looks_direct after_break \<or> starts_with (to_lowercase after_break) ''here'' \<or>
              starts_with (to_lowercase after_break) (''i'' @ [CHR 0x27] @ ''d'') \<or> starts_with (to_lowercase after_break) ''sure'')
          then after_break else s)"

definition clean_response :: "string \<Rightarrow> string" where
  "clean_response txt = strip_reasoning_patterns (strip_internal_tags txt)"

section \<open>Calls\<close>

record reasoning_context =
  rc_messages :: "chat_message list"
  rc_available_tools :: "tool_definition list"
  rc_metadata :: "(string \<times> string) list"

record tool_completion_request =
  tr_messages :: "chat_message list"
  tr_tools :: "tool_definition list"
  tr_max_tokens :: "u32 option"
  tr_temperature :: "u32 option"
  tr_tool_choice :: "string option"
  tr_metadata :: "(string \<times> string) list"

record tool_completion_response =
  ts_content :: "string option"
  ts_tool_calls :: "tool_call list"
  ts_input_tokens :: u32
  ts_output_tokens :: u32
  ts_finish_reason :: finish_reason

record reasoning_env =
  re_identity :: "string option"
  re_skills :: "string option"
  re_json :: json_lib
  re_complete :: "completion_request \<Rightarrow> (llm_error, completion_response) result"
  re_complete_with_tools :: "tool_completion_request \<Rightarrow> (llm_error, tool_completion_response) result"

record respond_output =
  ro_result :: respond_result
  ro_input_tokens :: u32
  ro_output_tokens :: u32

text \<open>The model's request and response, up to the prompt, which is a text of the environment.\<close>

definition fallback_answer :: string where
  "fallback_answer = ''I'' @ [CHR 0x27] @ ''m not sure how to respond to that.''"

definition respond_with_tools :: "reasoning_env \<Rightarrow> string \<Rightarrow> reasoning_context \<Rightarrow> (llm_error, respond_output) result" where
  "respond_with_tools re system_prompt ctx =
     (let messages = msg_system system_prompt # rc_messages ctx in
      if rc_available_tools ctx \<noteq> [] then
        (case re_complete_with_tools re \<lparr>tr_messages = messages, tr_tools = rc_available_tools ctx, tr_max_tokens = Some 4096,
                tr_temperature = Some 0x3F333333, tr_tool_choice = Some ''auto'', tr_metadata = rc_metadata ctx\<rparr> of
           Err e \<Rightarrow> Err e
         | Ok response \<Rightarrow>
             let output = (\<lambda>r. Ok \<lparr>ro_result = r, ro_input_tokens = ts_input_tokens response, ro_output_tokens = ts_output_tokens response\<rparr>) in
             if ts_tool_calls response \<noteq> [] then output (ToolCalls (ts_tool_calls response) (ts_content response))
             else let content = (case ts_content response of Some c \<Rightarrow> c | None \<Rightarrow> fallback_answer);
                      recovered = recover_tool_calls_from_content (re_json re) content (rc_available_tools ctx)
                  in if recovered \<noteq> []
                     then output (ToolCalls recovered (let cleaned = clean_response content in if cleaned = [] then None else Some cleaned))
                     else output (Text (clean_response content)))
      else
        (case re_complete re ((completion_request_new messages)\<lparr>cr_max_tokens := Some 4096, cr_temperature := Some 0x3F333333, cr_metadata := rc_metadata ctx\<rparr>) of
           Err e \<Rightarrow> Err e
         | Ok response \<Rightarrow>
             Ok \<lparr>ro_result = Text (clean_response (rs_content response)), ro_input_tokens = rs_input_tokens response,
                 ro_output_tokens = rs_output_tokens response\<rparr>))"

section \<open>Lemmas\<close>

lemma collapse_newlines_free: "\<not> contains (collapse_newlines s) nl3"
proof (induction s rule: collapse_newlines.induct)
  case (1 s)
  then show ?case by (cases "contains s nl3") (subst collapse_newlines.simps, simp)+
qed

lemma trim_sublist: "sublist (trim s) s"
proof -
  have "suffix (dropWhile is_whitespace s) s" by (rule suffix_dropWhile)
  moreover have "prefix (trim_end t) t" for t using suffix_dropWhile [of is_whitespace "rev t"] by (simp add: trim_end_def suffix_to_prefix)
  ultimately show ?thesis unfolding trim_def trim_start_def
    by (meson prefix_imp_sublist suffix_imp_sublist sublist_order.order_trans)
qed

lemma contains_trim: "contains (trim s) p \<Longrightarrow> contains s p"
  using trim_sublist [of s] by (auto simp: contains_sublist intro: sublist_order.order_trans)

lemma strip_reasoning_sublist: "sublist (strip_reasoning_patterns s) s"
proof -
  have "sublist (trim (drop k (trim s))) s" for k
    by (meson suffix_drop suffix_imp_sublist sublist_order.order_trans trim_sublist)
  then show ?thesis using trim_sublist [of s] by (auto simp: strip_reasoning_patterns_def Let_def split: option.split)
qed

lemma recovered_call_name: "recovered_call jl names inner = Some (n, a) \<Longrightarrow> n \<in> set names"
  by (auto simp: recovered_call_def split: option.splits if_splits)

lemma recovered_names:
  assumes "c \<in> set (recover_tool_calls_from_content jl content tools)"
  shows "tc_name c \<in> td_name ` set tools"
proof -
  let ?f = "List.map_filter (recovered_call jl (map td_name tools)) (concat (map (\<lambda>(a, b). tagged a b content) TAG_PAIRS))"
  from assms obtain k n a where "(k, n, a) \<in> set (zip [0..<length ?f] ?f)" "tc_name c = n"
    unfolding recover_tool_calls_from_content_def Let_def by auto
  then have "(n, a) \<in> set ?f" by (auto dest: set_zip_rightD)
  then obtain inner where "recovered_call jl (map td_name tools) inner = Some (n, a)" by (auto simp: List.map_filter_def)
  from recovered_call_name [OF this] show ?thesis using \<open>tc_name c = n\<close> by simp
qed

lemma recovered_ids:
  "map tc_id (recover_tool_calls_from_content jl content tools) =
   map (\<lambda>k. ''recovered_'' @ nat_str k) [0..<length (recover_tool_calls_from_content jl content tools)]"
proof -
  have "map tc_id (map (\<lambda>(k, n, a). \<lparr>tc_id = ''recovered_'' @ nat_str k, tc_name = n, tc_arguments = a\<rparr>) (zip ks xs)) =
      map (\<lambda>k. ''recovered_'' @ nat_str k) ks" if "length ks = length xs" for ks and xs :: "(string \<times> json) list"
    using that by (induction ks xs rule: list_induct2) auto
  then show ?thesis by (simp add: recover_tool_calls_from_content_def Let_def)
qed

lemma str_find_char_None: "c \<notin> set s \<Longrightarrow> c \<in> set p \<Longrightarrow> str_find s p = None"
  using set_mono_sublist by (fastforce simp: str_find_None contains_sublist)

lemma str_find_skip: "c \<notin> set a \<Longrightarrow> str_find (a @ s) (c # p) = map_option ((+) (length a)) (str_find s (c # p))"
proof (induction a)
  case (Cons x a)
  then show ?case by (cases "str_find s (c # p)") (auto simp: starts_with_def)
qed (cases "str_find s (c # p)"; simp)

lemma trim_ends:
  assumes "s \<noteq> []" and "\<not> is_whitespace (hd s)" and "\<not> is_whitespace (last s)"
  shows "trim s = s"
proof -
  have "dropWhile is_whitespace xs = xs" if "xs \<noteq> []" "\<not> is_whitespace (hd xs)" for xs using that by (cases xs) auto
  from this [of s] this [of "rev s"] show ?thesis using assms by (simp add: trim_def trim_start_def trim_end_def hd_rev)
qed

lemma no_tags:
  assumes "CHR ''<'' \<notin> set txt"
  shows "foldl (\<lambda>s tag. strip_pipe_tag (strip_xml_tag s tag) tag) txt tags = txt"
proof -
  have n: "str_find txt (''<'' @ p) = None" for p using assms by (intro str_find_char_None [of "CHR ''<''"]) simp_all
  have "strip_xml_tag txt tag = txt" for tag
    using n [of "tag @ ''>''"] n [of "tag @ '' ''"] by (subst strip_xml_tag.simps) (simp add: min_pos_def)
  moreover have "strip_pipe_tag txt tag = txt" for tag using n [of "''|'' @ tag @ ''|>''"] by (subst strip_pipe_tag.simps) simp
  ultimately show ?thesis by (induction tags) simp_all
qed

section \<open>Properties\<close>

text \<open>
  What the loop gets from the model: the structured tool calls when there are any; otherwise calls
  recovered from the text, each to a tool that was offered, numbered from zero; otherwise the cleaned text.
  Without tools there are no calls.
\<close>

theorem respond_calls_offered:
  assumes "respond_with_tools re sp ctx = Ok out" and "ro_result out = ToolCalls calls content"
  shows "rc_available_tools ctx \<noteq> [] \<and> calls \<noteq> [] \<and>
    (\<exists>req resp. re_complete_with_tools re req = Ok resp \<and> tr_tools req = rc_available_tools ctx \<and>
      (calls = ts_tool_calls resp \<or>
       ts_tool_calls resp = [] \<and> set (map tc_name calls) \<subseteq> td_name ` set (rc_available_tools ctx) \<and>
       map tc_id calls = map (\<lambda>k. ''recovered_'' @ nat_str k) [0..<length calls]))"
proof -
  let ?req = "\<lparr>tr_messages = msg_system sp # rc_messages ctx, tr_tools = rc_available_tools ctx, tr_max_tokens = Some 4096,
    tr_temperature = Some 0x3F333333, tr_tool_choice = Some ''auto'', tr_metadata = rc_metadata ctx\<rparr>"
  have tools: "rc_available_tools ctx \<noteq> []" using assms by (auto simp: respond_with_tools_def Let_def split: if_splits sum.splits)
  then obtain resp where resp: "re_complete_with_tools re ?req = Ok resp"
    using assms(1) by (auto simp: respond_with_tools_def Let_def split: sum.splits)
  let ?c = "case ts_content resp of Some c \<Rightarrow> c | None \<Rightarrow> fallback_answer"
  have "calls = ts_tool_calls resp \<and> calls \<noteq> [] \<or>
      ts_tool_calls resp = [] \<and> calls = recover_tool_calls_from_content (re_json re) ?c (rc_available_tools ctx) \<and> calls \<noteq> []"
    using assms tools resp by (auto simp: respond_with_tools_def Let_def split: if_splits)
  then show ?thesis
  proof
    assume "calls = ts_tool_calls resp \<and> calls \<noteq> []"
    then show ?thesis using tools resp by (intro conjI exI [of _ ?req] exI [of _ resp]) auto
  next
    assume c: "ts_tool_calls resp = [] \<and> calls = recover_tool_calls_from_content (re_json re) ?c (rc_available_tools ctx) \<and> calls \<noteq> []"
    have "set (map tc_name calls) \<subseteq> td_name ` set (rc_available_tools ctx)" using c recovered_names by auto
    moreover have "map tc_id calls = map (\<lambda>k. ''recovered_'' @ nat_str k) [0..<length calls]" using c recovered_ids by blast
    moreover have "ts_tool_calls resp = []" "calls \<noteq> []" using c by blast+
    ultimately show ?thesis using tools resp by (intro conjI exI [of _ ?req] exI [of _ resp]) simp_all
  qed
qed

theorem respond_calls_offered_witness:
  "\<exists>out. respond_with_tools \<lparr>re_identity = None, re_skills = None, re_json = \<lparr>jl_from = \<lambda>_. None, jl_to = \<lambda>_. [], jl_duration = \<lambda>_. []\<rparr>,
       re_complete = \<lambda>_. Err (Http []),
       re_complete_with_tools = \<lambda>_. Ok \<lparr>ts_content = Some ''<tool_call>time</tool_call>'', ts_tool_calls = [], ts_input_tokens = 1, ts_output_tokens = 1, ts_finish_reason = Stop\<rparr>\<rparr>
     ''p'' \<lparr>rc_messages = [], rc_available_tools = [\<lparr>td_name = ''time'', td_description = [], td_parameters = JNull\<rparr>], rc_metadata = []\<rparr> = Ok out \<and>
     (\<exists>calls content. ro_result out = ToolCalls calls content \<and> set (map tc_name calls) \<subseteq> {''time''})"
proof -
  let ?re = "\<lparr>re_identity = None, re_skills = None, re_json = \<lparr>jl_from = \<lambda>_. None, jl_to = \<lambda>_. [], jl_duration = \<lambda>_. []\<rparr>,
       re_complete = \<lambda>_. Err (Http []),
       re_complete_with_tools = \<lambda>_. Ok \<lparr>ts_content = Some ''<tool_call>time</tool_call>'', ts_tool_calls = [], ts_input_tokens = 1, ts_output_tokens = 1, ts_finish_reason = Stop\<rparr>\<rparr>"
  let ?td = "\<lparr>td_name = ''time'', td_description = [], td_parameters = JNull\<rparr> :: tool_definition"
  let ?ctx = "\<lparr>rc_messages = [], rc_available_tools = [?td], rc_metadata = []\<rparr>"
  have tags: "concat (map (\<lambda>(a, b). tagged a b ''<tool_call>time</tool_call>'') TAG_PAIRS) = [''time'']" by code_simp
  have "trim ''time'' = ''time''" by code_simp
  then have r: "recovered_call (re_json ?re) [''time''] ''time'' = Some (''time'', JObject [])" by (simp add: recovered_call_def)
  have "recover_tool_calls_from_content (re_json ?re) ''<tool_call>time</tool_call>'' [?td] \<noteq> []"
    unfolding recover_tool_calls_from_content_def tags using r by (simp add: List.map_filter_simps)
  then obtain out calls content where o: "respond_with_tools ?re ''p'' ?ctx = Ok out" "ro_result out = ToolCalls calls content"
    by (auto simp: respond_with_tools_def Let_def)
  from respond_calls_offered [OF o] have "set (map tc_name calls) \<subseteq> {''time''}" by auto
  with o show ?thesis by blast
qed

text \<open>
  The text for the user has no run of three newlines and is a part of what remains when the blocks of the
  internal tags are cut out: nothing is added or reordered.
\<close>

theorem cleaned_is_part:
  "sublist (clean_response txt) (collapse_newlines (foldl (\<lambda>s tag. strip_pipe_tag (strip_xml_tag s tag) tag) txt INTERNAL_TAGS)) \<and>
   \<not> contains (clean_response txt) nl3"
proof -
  let ?t = "collapse_newlines (foldl (\<lambda>s tag. strip_pipe_tag (strip_xml_tag s tag) tag) txt INTERNAL_TAGS)"
  have "sublist (clean_response txt) ?t"
    unfolding clean_response_def strip_internal_tags_def
    using strip_reasoning_sublist [of "trim ?t"] trim_sublist [of ?t] sublist_order.order_trans by blast
  moreover from this have "\<not> contains (clean_response txt) nl3"
    using collapse_newlines_free [of "foldl (\<lambda>s tag. strip_pipe_tag (strip_xml_tag s tag) tag) txt INTERNAL_TAGS"]
    by (auto simp: contains_sublist intro: sublist_order.order_trans)
  ultimately show ?thesis by blast
qed

text \<open>
  Plain answers reach the user as they are: a text without \<open><\<close> and without runs of newlines, trimmed, which is
  one paragraph or starts like a heading, code or a list.
\<close>

theorem plain_text_kept:
  assumes "CHR ''<'' \<notin> set txt" and "trim txt = txt" and "\<not> contains txt nl3" and "looks_direct txt \<or> \<not> contains txt nl2"
  shows "clean_response txt = txt"
proof -
  have "strip_internal_tags txt = txt"
    using assms(1-3) by (simp add: strip_internal_tags_def collapse_newlines.simps no_tags)
  moreover have "str_find txt nl2 = None" if "\<not> contains txt nl2" using that by (simp add: str_find_None)
  ultimately show ?thesis using assms(2,4) by (auto simp: clean_response_def strip_reasoning_patterns_def)
qed

theorem plain_text_kept_witness: "clean_response ''Done.'' = ''Done.''"
  by (rule plain_text_kept) (code_simp, code_simp, code_simp, code_simp)

text \<open>
  An answer of two paragraphs, the second of which is a list, loses its first paragraph, whatever it says.
\<close>

theorem first_paragraph_dropped:
  assumes "CHR ''<'' \<notin> set a" and "CHR ''<'' \<notin> set b" and "CHR 0x0A \<notin> set a" and "CHR 0x0A \<notin> set b"
    and "a \<noteq> []" and "\<not> is_whitespace (hd a)" and "\<not> looks_direct a" and "b \<noteq> []" and "hd b = CHR ''-''" and "\<not> is_whitespace (last b)"
  shows "clean_response (a @ nl2 @ b) = b"
proof -
  let ?t = "a @ nl2 @ b"
  obtain b' where b: "b = CHR ''-'' # b'" using assms(8,9) by (cases b) auto
  have "\<not> is_whitespace (CHR ''-'')" by code_simp
  then have tb: "trim b = b" using assms(8-10) by (intro trim_ends) (simp_all add: b)
  have tt: "trim ?t = ?t" using assms(5,6,8,10) by (intro trim_ends) simp_all
  have idx: "str_find ?t nl2 = Some (length a)"
    unfolding nl2_def using str_find_skip [OF assms(3), of "[CHR 0x0A, CHR 0x0A] @ b" "[CHR 0x0A]"] by (simp add: starts_with_def)
  have "str_find b nl3 = None" using assms(4) by (intro str_find_char_None [of "CHR 0x0A"]) (simp_all add: nl3_def)
  then have none: "str_find ?t nl3 = None"
    unfolding nl3_def nl2_def using str_find_skip [OF assms(3), of "[CHR 0x0A, CHR 0x0A] @ b" "[CHR 0x0A, CHR 0x0A]"]
    by (simp add: starts_with_def b)
  from none have "\<not> contains ?t nl3" unfolding str_find_None .
  then have "strip_internal_tags ?t = ?t"
    using assms(1,2) tt by (simp add: strip_internal_tags_def no_tags nl2_def collapse_newlines.simps)
  moreover have "\<not> looks_direct ?t" "looks_direct b" using assms(5,7) by (auto simp: looks_direct_def b)
  moreover have "drop (length a + 2) ?t = b" by (simp add: nl2_def)
  ultimately show ?thesis using idx tt tb assms(5,8) by (simp add: clean_response_def strip_reasoning_patterns_def Let_def)
qed

theorem first_paragraph_dropped_witness: "clean_response (''Do not run this.'' @ nl2 @ ''- rm'') = ''- rm''"
  by (rule first_paragraph_dropped) (code_simp | simp)+

text \<open>
  Removing blocks can put a tag together that was not there: the text for the user can contain an
  internal tag with its contents.
\<close>

theorem internal_tag_reassembled:
  "clean_response ''<thi<thinking></thinking>nking>secret</thinking>'' = ''<thinking>secret</thinking>''"
  by code_simp

text \<open>An opening tag with attributes that is never closed duplicates the text before it.\<close>

theorem unclosed_tag_duplicates:
  assumes "CHR ''<'' \<notin> set a" and "CHR ''>'' \<notin> set b" and "CHR ''>'' \<notin> set tag"
  shows "strip_xml_tag (a @ ''<'' @ tag @ '' '' @ b) tag = a @ a @ ''<'' @ tag @ '' '' @ b"
proof -
  let ?s = "''<'' @ tag @ '' '' @ b"
  have "CHR ''>'' \<notin> set ?s" using assms(2,3) by simp
  then have gt: "str_find ?s (''<'' @ tag @ ''>'') = None" "str_find ?s ''>'' = None"
    by (rule str_find_char_None, simp)+
  have "str_find (a @ ?s) (''<'' @ tag @ ''>'') = None"
    using str_find_skip [OF assms(1), of ?s "tag @ ''>''"] gt(1) by simp
  moreover have "str_find ?s (''<'' @ tag @ '' '') = Some 0" by (simp add: starts_with_def)
  then have "str_find (a @ ?s) (''<'' @ tag @ '' '') = Some (length a)"
    using str_find_skip [OF assms(1), of ?s "tag @ '' ''"] by simp
  ultimately show ?thesis using gt(2) by (subst strip_xml_tag.simps) (simp add: min_pos_def)
qed

theorem unclosed_tag_duplicates_witness: "strip_xml_tag ''Hi <thinking x'' ''thinking'' = ''Hi Hi <thinking x''"
  using unclosed_tag_duplicates [of "''Hi ''" "''x''" "''thinking''"] by simp

end
