(* ===== verification/Sandbox_Proxy.thy ===== *)
theory Sandbox_Proxy
  imports Credentials Shell
begin

text \<open>
  The network proxy of the sandbox: the policy of \<^verbatim>\<open>src/src/sandbox/proxy/policy.rs\<close>, the handlers of
  \<^verbatim>\<open>src/src/sandbox/proxy/http.rs\<close> and the builder of \<^verbatim>\<open>src/src/sandbox/proxy/mod.rs\<close>, over the domain allowlist of
  \<open>Allowlist\<close> and the mappings of \<open>Credentials\<close>.  A request of a container gives a response and at most one connection,
  a forwarded request or a tunnel.  The crates url, http, hyper and reqwest are the fields of \<open>proxy_env\<close>; a request
  under construction is the list of the calls its builder receives.  The proxy's client is built without a redirect
  policy, so it follows redirects by itself: \<open>px_send\<close> gives the requests it sends after the first one beside the last
  answer, and a forwarded connection lists them.
\<close>

section \<open>The policy\<close>

record network_request =
  nr_method :: string
  nr_url :: string
  nr_host :: string
  nr_path :: string

definition from_url :: "(string \<Rightarrow> (string, url_parts) result) \<Rightarrow> string \<Rightarrow> string \<Rightarrow> network_request option" where
  "from_url url_parse meth url =
     (case url_parse url of
        Err _ \<Rightarrow> None
      | Ok parsed \<Rightarrow>
          if up_scheme parsed \<noteq> ''http'' \<and> up_scheme parsed \<noteq> ''https'' then None
          else case up_host parsed of
            None \<Rightarrow> None
          | Some host \<Rightarrow>
              Some \<lparr>nr_method = to_uppercase meth, nr_url = url, nr_host = to_lowercase (strip_brackets host),
                    nr_path = up_path parsed\<rparr>)"

datatype network_decision =
    NetAllow
  | AllowWithCredentials string credential_location
  | NetDeny string

definition decision_is_allowed :: "network_decision \<Rightarrow> bool" where
  "decision_is_allowed d = (case d of NetDeny _ \<Rightarrow> False | _ \<Rightarrow> True)"

definition policy_host_matches :: "string \<Rightarrow> string \<Rightarrow> bool" where
  "policy_host_matches host pattern =
     (let pattern_lower = to_lowercase pattern
      in if pattern_lower = host then True
         else case strip_prefix pattern_lower ''*.'' of
           Some sfx \<Rightarrow>
             if ends_with host sfx \<and> length host > length sfx
             then let pfx = take (length host - length sfx) host in ends_with pfx ''.'' \<or> pfx = []
             else False
         | None \<Rightarrow> False)"

definition find_credential :: "credential_mapping list \<Rightarrow> string \<Rightarrow> credential_mapping option" where
  "find_credential mappings host =
     (let host_lower = to_lowercase host
      in find (\<lambda>m. list_ex (policy_host_matches host_lower) (cm_host_patterns m)) mappings)"

datatype policy_decider =
    DefaultPolicyDecider "domain_pattern list" "credential_mapping list"
  | AllowAllDecider
  | DenyAllDecider string

fun decide :: "policy_decider \<Rightarrow> network_request \<Rightarrow> network_decision" where
  "decide (DefaultPolicyDecider allowlist credential_mappings) request =
     (case domain_is_allowed allowlist (nr_host request) of
        DomainDenied reason \<Rightarrow> NetDeny reason
      | DomainAllowed \<Rightarrow>
          (case find_credential credential_mappings (nr_host request) of
             Some mapping \<Rightarrow> AllowWithCredentials (cm_secret_name mapping) (cm_location mapping)
           | None \<Rightarrow> NetAllow))"
| "decide AllowAllDecider request = NetAllow"
| "decide (DenyAllDecider reason) request = NetDeny reason"

section \<open>Requests and responses\<close>

text \<open>A request as hyper hands it over: the URI and its authority (host, and host with port), the headers in
  order with their raw values, and the body if it could be read.\<close>

record proxy_request =
  pr_method :: string
  pr_uri :: string
  pr_authority :: "(string \<times> string) option"
  pr_headers :: "(string \<times> string) list"
  pr_body :: "string option"

record outgoing_request =
  og_method :: string
  og_url :: string
  og_headers :: "(string \<times> string) list"
  og_query :: "(string \<times> string) list"
  og_body :: "string option"

record proxy_response =
  rs_status :: nat
  rs_headers :: "(string \<times> string) list"
  rs_body :: string

text \<open>The answer of the upstream server: status, headers, and the body if it could be read.\<close>

record upstream =
  us_status :: nat
  us_headers :: "(string \<times> string) list"
  us_body :: "string option"

text \<open>A forwarded request comes with the further requests the client sends when it follows redirects.\<close>

datatype connection = NoConnection | Forwarded outgoing_request "outgoing_request list" | Tunnel string

record proxy_env =
  px_url_parse :: "string \<Rightarrow> (string, url_parts) result"
  px_method :: "string \<Rightarrow> string option"
  px_to_str :: "string \<Rightarrow> string option"
  px_resolve :: "string \<Rightarrow> string option"
  px_send :: "outgoing_request \<Rightarrow> outgoing_request list \<times> (string, upstream) result"
  px_builds :: "nat \<Rightarrow> (string \<times> string) list \<Rightarrow> bool"

definition is_hop_by_hop_header :: "string \<Rightarrow> bool" where
  "is_hop_by_hop_header name \<longleftrightarrow>
     to_lowercase name \<in> {''connection'', ''keep-alive'', ''proxy-authenticate'', ''proxy-authorization'', ''te'', ''trailers'',
       ''transfer-encoding'', ''upgrade''}"

definition make_response_from_builder :: "(nat \<times> (string \<times> string) list) option \<Rightarrow> string \<Rightarrow> proxy_response" where
  "make_response_from_builder builder body =
     (case builder of
        Some (status, headers) \<Rightarrow> \<lparr>rs_status = status, rs_headers = headers, rs_body = body\<rparr>
      | None \<Rightarrow> \<lparr>rs_status = 500, rs_headers = [], rs_body = ''Response build error''\<rparr>)"

definition error_response :: "nat \<Rightarrow> string \<Rightarrow> proxy_response" where
  "error_response status message = make_response_from_builder (Some (status, [(''Content-Type'', ''text/plain'')])) message"

section \<open>The handlers\<close>

definition handle_connect :: "policy_decider \<Rightarrow> proxy_request \<Rightarrow> proxy_response \<times> connection" where
  "handle_connect decider req =
     (case pr_authority req of
        None \<Rightarrow> (error_response 400 ''Missing host'', NoConnection)
      | Some (host, target_addr) \<Rightarrow>
          let network_req = \<lparr>nr_method = ''CONNECT'', nr_url = ''https://'' @ host, nr_host = host, nr_path = ''/''\<rparr>
          in case decide decider network_req of
               NetDeny reason \<Rightarrow> (error_response 403 reason, NoConnection)
             | _ \<Rightarrow> (\<lparr>rs_status = 200, rs_headers = [], rs_body = []\<rparr>, Tunnel target_addr))"

definition copied_headers :: "proxy_env \<Rightarrow> (string \<times> string) list \<Rightarrow> (string \<times> string) list" where
  "copied_headers env hs =
     List.map_filter (\<lambda>(name, value).
       if is_hop_by_hop_header name then None else map_option (\<lambda>v. (name, v)) (px_to_str env value)) hs"

definition inject_location :: "credential_location \<Rightarrow> string \<Rightarrow> outgoing_request \<Rightarrow> outgoing_request" where
  "inject_location location credential builder =
     (case location of
        AuthorizationBearer \<Rightarrow> builder\<lparr>og_headers := og_headers builder @ [(''Authorization'', ''Bearer '' @ credential)]\<rparr>
      | HeaderLoc name pfx \<Rightarrow>
          let value = (case pfx of Some p \<Rightarrow> p @ credential | None \<Rightarrow> credential)
          in builder\<lparr>og_headers := og_headers builder @ [(name, value)]\<rparr>
      | QueryParam name \<Rightarrow> builder\<lparr>og_query := og_query builder @ [(name, credential)]\<rparr>
      | AuthorizationBasic _ \<Rightarrow> builder
      | UrlPath _ \<Rightarrow> builder)"

definition inject_decision :: "proxy_env \<Rightarrow> network_decision \<Rightarrow> outgoing_request \<Rightarrow> outgoing_request" where
  "inject_decision env decision builder =
     (case decision of
        AllowWithCredentials secret_name location \<Rightarrow>
          (case px_resolve env secret_name of
             Some credential \<Rightarrow> inject_location location credential builder
           | None \<Rightarrow> builder)
      | _ \<Rightarrow> builder)"

definition relay_response :: "proxy_env \<Rightarrow> (string, upstream) result \<Rightarrow> proxy_response" where
  "relay_response env answer =
     (case answer of
        Err e \<Rightarrow> error_response 502 (''Request failed: '' @ e)
      | Ok response \<Rightarrow>
          (case us_body response of
             None \<Rightarrow> error_response 502 ''Failed to read response''
           | Some body \<Rightarrow>
               let headers = filter (\<lambda>(name, _). \<not> is_hop_by_hop_header name) (us_headers response)
               in make_response_from_builder
                    (if px_builds env (us_status response) headers then Some (us_status response, headers) else None) body))"

definition forward_request :: "proxy_env \<Rightarrow> proxy_request \<Rightarrow> network_decision \<Rightarrow> proxy_response \<times> connection" where
  "forward_request env req decision =
     (let builder = \<lparr>og_method = (case px_method env (pr_method req) of Some m \<Rightarrow> m | None \<Rightarrow> ''GET''), og_url = pr_uri req,
                     og_headers = copied_headers env (pr_headers req), og_query = [], og_body = None\<rparr>;
          builder = inject_decision env decision builder
      in case pr_body req of
           None \<Rightarrow> (error_response 500 ''Failed to read body'', NoConnection)
         | Some body \<Rightarrow>
             let builder = (if body \<noteq> [] then builder\<lparr>og_body := Some body\<rparr> else builder);
                 (redirects, answer) = px_send env builder
             in (relay_response env answer, Forwarded builder redirects))"

definition handle_request ::
  "proxy_env \<Rightarrow> policy_decider \<Rightarrow> u64 \<Rightarrow> proxy_request \<Rightarrow> u64 \<times> proxy_response \<times> connection" where
  "handle_request env decider request_count req =
     (request_count + 1,
      if pr_method req = ''CONNECT'' then handle_connect decider req
      else case from_url (px_url_parse env) (pr_method req) (pr_uri req) of
        None \<Rightarrow> (error_response 400 ''Invalid URL'', NoConnection)
      | Some network_req \<Rightarrow>
          (case decide decider network_req of
             NetDeny reason \<Rightarrow> (error_response 403 reason, NoConnection)
           | decision \<Rightarrow> forward_request env req decision))"

section \<open>Configuration\<close>

definition allows_writes :: "sandbox_policy \<Rightarrow> bool" where
  "allows_writes p \<longleftrightarrow> p = WorkspaceWrite \<or> p = FullAccess"

definition has_full_network :: "sandbox_policy \<Rightarrow> bool" where
  "has_full_network p \<longleftrightarrow> p = FullAccess"

definition is_sandboxed :: "sandbox_policy \<Rightarrow> bool" where
  "is_sandboxed p \<longleftrightarrow> p \<noteq> FullAccess"

definition sandbox_policy_from_str :: "string \<Rightarrow> (string, sandbox_policy) result" where
  "sandbox_policy_from_str s =
     (let l = to_lowercase s
      in if l = ''readonly'' \<or> l = ''read_only'' \<or> l = ''ro'' then Ok ReadOnly
         else if l = ''workspacewrite'' \<or> l = ''workspace_write'' \<or> l = ''rw'' then Ok WorkspaceWrite
         else if l = ''fullaccess'' \<or> l = ''full_access'' \<or> l = ''full'' \<or> l = ''none'' then Ok FullAccess
         else Err (''invalid sandbox policy '' @ [CHR 0x27] @ s @ [CHR 0x27] @ '', expected '' @ [CHR 0x27] @ ''readonly'' @ [CHR 0x27] @
                '', '' @ [CHR 0x27] @ ''workspace_write'' @ [CHR 0x27] @ '', or '' @ [CHR 0x27] @ ''full_access'' @ [CHR 0x27]))"

definition mapping_bearer :: "string \<Rightarrow> string \<Rightarrow> credential_mapping" where
  "mapping_bearer secret_name host_pattern =
     \<lparr>cm_secret_name = secret_name, cm_location = AuthorizationBearer, cm_host_patterns = [host_pattern]\<rparr>"

definition mapping_header :: "string \<Rightarrow> string \<Rightarrow> string \<Rightarrow> credential_mapping" where
  "mapping_header secret_name header_name host_pattern =
     \<lparr>cm_secret_name = secret_name, cm_location = HeaderLoc header_name None, cm_host_patterns = [host_pattern]\<rparr>"

definition default_credential_mappings :: "credential_mapping list" where
  "default_credential_mappings =
     [mapping_bearer ''OPENAI_API_KEY'' ''api.openai.com'', mapping_header ''ANTHROPIC_API_KEY'' ''x-api-key'' ''api.anthropic.com'']"

definition default_allowlist :: "string list" where
  "default_allowlist =
     [''crates.io'', ''static.crates.io'', ''index.crates.io'', ''registry.npmjs.org'', ''proxy.golang.org'', ''pypi.org'',
      ''files.pythonhosted.org'', ''docs.rs'', ''doc.rust-lang.org'', ''nodejs.org'', ''go.dev'', ''docs.python.org'',
      ''github.com'', ''raw.githubusercontent.com'', ''api.github.com'', ''codeload.github.com'', ''api.openai.com'',
      ''api.anthropic.com'', ''api.near.ai'']"

record proxy_builder =
  pb_allowlist :: "string list"
  pb_credential_mappings :: "credential_mapping list"
  pb_policy :: sandbox_policy

definition proxy_builder_new :: proxy_builder where
  "proxy_builder_new =
     \<lparr>pb_allowlist = default_allowlist, pb_credential_mappings = default_credential_mappings, pb_policy = ReadOnly\<rparr>"

definition build_decider :: "proxy_builder \<Rightarrow> policy_decider" where
  "build_decider b =
     (if has_full_network (pb_policy b) then AllowAllDecider
      else DefaultPolicyDecider (map domain_pattern_new (pb_allowlist b)) (pb_credential_mappings b))"

section \<open>What the policy matches\<close>

lemma policy_host_matches_eq: "policy_host_matches host pattern = host_matches (to_lowercase pattern) host"
  by (auto simp: policy_host_matches_def host_matches_def Let_def split: option.splits)

text \<open>A name on the list, or under a wildcard of the list.\<close>

definition listed :: "string list \<Rightarrow> string \<Rightarrow> bool" where
  "listed ps h \<longleftrightarrow>
     (\<exists>p \<in> set ps. to_lowercase h = to_lowercase p \<and> \<not> starts_with p ''*.'' \<or>
        (\<exists>d. p = ''*.'' @ d \<and> under (to_lowercase d) (to_lowercase h)))"

lemma domain_matches_new:
  "domain_matches (domain_pattern_new p) h \<longleftrightarrow>
     to_lowercase h = to_lowercase p \<and> \<not> starts_with p ''*.'' \<or> (\<exists>d. p = ''*.'' @ d \<and> under (to_lowercase d) (to_lowercase h))"
proof (cases "starts_with p ''*.''")
  case True
  then obtain d where p: "p = ''*.'' @ d" by (auto simp: starts_with_iff)
  have "domain_matches (domain_pattern_new p) h \<longleftrightarrow> under (to_lowercase d) (to_lowercase h)" unfolding p by (rule domain_matches_wild)
  with True p show ?thesis by simp
next
  case False
  then have "\<nexists>d. p = ''*.'' @ d" by (simp add: starts_with_iff)
  with False proxy_host.plain [OF False] show ?thesis by simp
qed

lemma domain_allowed_listed: "domain_is_allowed (map domain_pattern_new ps) h = DomainAllowed \<longleftrightarrow> listed ps h"
  by (auto simp: domain_is_allowed_def listed_def list_ex_iff domain_matches_new)

lemma decide_denies:
  "(\<exists>r. decide (DefaultPolicyDecider (map domain_pattern_new ps) ms) q = NetDeny r) \<longleftrightarrow> \<not> listed ps (nr_host q)"
  using domain_allowed_listed [of ps "nr_host q"]
  by (cases "domain_is_allowed (map domain_pattern_new ps) (nr_host q)") (auto split: option.splits)

lemma decide_credentials:
  assumes "decide (DefaultPolicyDecider al ms) q = AllowWithCredentials name loc"
  shows "\<exists>m \<in> set ms. cm_secret_name m = name \<and> cm_location m = loc \<and>
    (\<exists>p \<in> set (cm_host_patterns m). host_matches (to_lowercase p) (to_lowercase (nr_host q)))"
proof -
  from assms obtain m where "find_credential ms (nr_host q) = Some m" "cm_secret_name m = name" "cm_location m = loc"
    by (auto split: domain_validation_result.splits option.splits)
  then show ?thesis by (auto simp: find_credential_def find_Some_iff list_ex_iff policy_host_matches_eq)
qed

text \<open>The host a request is judged by.\<close>

definition request_host :: "proxy_env \<Rightarrow> proxy_request \<Rightarrow> string option" where
  "request_host env req =
     (if pr_method req = ''CONNECT'' then map_option fst (pr_authority req)
      else map_option nr_host (from_url (px_url_parse env) (pr_method req) (pr_uri req)))"

lemma copied_headers_iff:
  "(n, v) \<in> set (copied_headers env hs) \<longleftrightarrow> (\<exists>raw. (n, raw) \<in> set hs \<and> px_to_str env raw = Some v \<and> \<not> is_hop_by_hop_header n)"
  by (force simp: copied_headers_def map_filter_def split: if_splits)

lemma inject_decision_shape:
  obtains hs qs where
    "og_headers (inject_decision env d b) = og_headers b @ hs" "og_query (inject_decision env d b) = og_query b @ qs"
    "length hs + length qs \<le> 1"
    "\<And>x. x \<in> set hs \<Longrightarrow> \<exists>name loc s. d = AllowWithCredentials name loc \<and> px_resolve env name = Some s \<and> header_of loc s = Some x"
    "\<And>x. x \<in> set qs \<Longrightarrow> \<exists>name loc s. d = AllowWithCredentials name loc \<and> px_resolve env name = Some s \<and> query_of loc s = Some x"
proof (cases "\<exists>name loc s. d = AllowWithCredentials name loc \<and> px_resolve env name = Some s")
  case True
  then obtain name loc s where d: "d = AllowWithCredentials name loc" "px_resolve env name = Some s" by blast
  show ?thesis
  proof (cases loc)
    case AuthorizationBearer
    with d that [of "[(''Authorization'', ''Bearer '' @ s)]" "[]"] show ?thesis by (simp add: inject_decision_def inject_location_def)
  next
    case (HeaderLoc n p)
    with d that [of "[(n, (case p of Some p \<Rightarrow> p | None \<Rightarrow> []) @ s)]" "[]"] show ?thesis
      by (simp add: inject_decision_def inject_location_def split: option.splits)
  next
    case (QueryParam n)
    with d that [of "[]" "[(n, s)]"] show ?thesis by (simp add: inject_decision_def inject_location_def)
  qed (use d that [of "[]" "[]"] in \<open>simp_all add: inject_decision_def inject_location_def\<close>)
next
  case False
  then have "inject_decision env d b = b" by (auto simp: inject_decision_def split: network_decision.splits option.splits)
  with that [of "[]" "[]"] show ?thesis by simp
qed

lemma inject_decision_url: "og_url (inject_decision env d b) = og_url b"
  by (simp add: inject_decision_def inject_location_def Let_def split: network_decision.split option.split credential_location.split)

lemma forward_request_out:
  assumes "forward_request env req d = (resp, Forwarded out rest)"
  obtains b where "rest = fst (px_send env out)" "og_url out = pr_uri req" "og_headers b = copied_headers env (pr_headers req)" "og_query b = []"
    "og_headers out = og_headers (inject_decision env d b)" "og_query out = og_query (inject_decision env d b)"
proof -
  let ?b = "\<lparr>og_method = (case px_method env (pr_method req) of Some m \<Rightarrow> m | None \<Rightarrow> ''GET''), og_url = pr_uri req,
    og_headers = copied_headers env (pr_headers req), og_query = [], og_body = None\<rparr>"
  from assms have "rest = fst (px_send env out) \<and> og_url out = pr_uri req \<and>
      og_headers out = og_headers (inject_decision env d ?b) \<and> og_query out = og_query (inject_decision env d ?b)"
    by (auto simp: forward_request_def inject_decision_url Let_def split: option.splits if_splits prod.splits)
  with that [of ?b] show ?thesis by simp
qed

lemma handle_request_forwards:
  assumes "handle_request env dc n req = (n', resp, Forwarded out rest)"
  obtains q where "pr_method req \<noteq> ''CONNECT''" "from_url (px_url_parse env) (pr_method req) (pr_uri req) = Some q"
    "forward_request env req (decide dc q) = (resp, Forwarded out rest)"
  using assms that
  by (auto simp: handle_request_def handle_connect_def split: if_splits option.splits network_decision.splits prod.splits)

section \<open>Properties\<close>

text \<open>C21: The proxy judges the connection a request asks for by its list.  Unless it is built for full access, it
  forwards or tunnels a request only if the host the request names is on the allowlist, or under one of its wildcards, in any case
  of letters; every other host is answered with 403 and no connection is made, and a tunnel is opened for exactly the
  listed hosts.  A forwarded request has the judged URL.  Only this first request is judged: the client
  follows redirects by itself, and the requests it then sends are whatever it makes of the servers' answers.\<close>

theorem proxy_confined:
  assumes "pb_policy b \<noteq> FullAccess" and "handle_request env (build_decider b) n req = (n', resp, conn)"
  shows "n' = n + 1 \<and>
    (conn \<noteq> NoConnection \<longrightarrow> (\<exists>h. request_host env req = Some h \<and> listed (pb_allowlist b) h)) \<and>
    (\<forall>h. request_host env req = Some h \<and> \<not> listed (pb_allowlist b) h \<longrightarrow> rs_status resp = 403 \<and> conn = NoConnection) \<and>
    (request_host env req = None \<longrightarrow> rs_status resp = 400 \<and> conn = NoConnection) \<and>
    (\<forall>h t. pr_method req = ''CONNECT'' \<and> pr_authority req = Some (h, t) \<longrightarrow> (conn = Tunnel t) = listed (pb_allowlist b) h) \<and>
    (\<forall>out rest. conn = Forwarded out rest \<longrightarrow> og_url out = pr_uri req \<and> rest = fst (px_send env out))"
proof -
  let ?d = "DefaultPolicyDecider (map domain_pattern_new (pb_allowlist b)) (pb_credential_mappings b)"
  note den = decide_denies [of "pb_allowlist b" "pb_credential_mappings b"]
  have d: "build_decider b = ?d" using assms(1) by (simp add: build_decider_def has_full_network_def)
  note h = assms(2) [unfolded d handle_request_def]
  have fwd: "og_url out = pr_uri req \<and> rest = fst (px_send env out)" if "conn = Forwarded out rest" for out rest
    using assms(2) that by (auto elim!: handle_request_forwards forward_request_out)
  show ?thesis
  proof (cases "pr_method req = ''CONNECT''")
    case True
    show ?thesis
    proof (cases "pr_authority req")
      case None
      with h True fwd show ?thesis
        by (auto simp: request_host_def handle_connect_def error_response_def make_response_from_builder_def)
    next
      case (Some a)
      obtain host t where a: "a = (host, t)" by fastforce
      with den [of "\<lparr>nr_method = ''CONNECT'', nr_url = ''https://'' @ host, nr_host = host, nr_path = ''/''\<rparr>"] h True Some fwd
      show ?thesis
        by (cases "decide ?d \<lparr>nr_method = ''CONNECT'', nr_url = ''https://'' @ host, nr_host = host, nr_path = ''/''\<rparr>")
          (auto simp del: decide.simps simp: request_host_def handle_connect_def error_response_def make_response_from_builder_def)
    qed
  next
    case False
    show ?thesis
    proof (cases "from_url (px_url_parse env) (pr_method req) (pr_uri req)")
      case None
      with h False fwd show ?thesis by (auto simp: request_host_def error_response_def make_response_from_builder_def)
    next
      case (Some q)
      with den [of q] h False fwd show ?thesis
        by (cases "decide ?d q")
          (auto simp del: decide.simps simp: request_host_def error_response_def make_response_from_builder_def)
    qed
  qed
qed

text \<open>C22: The proxy adds a secret only to a request for a host of its mapping, and at most one.  The request it sends
  carries the container's own headers, less the hop-by-hop ones and the unreadable ones, followed by at most one header or
  query parameter, which renders the resolved secret of a mapping with a pattern for the request's host.  This is about the
  request the proxy builds; when the answer is a redirect, the client sends what it likes of it to the next host.\<close>

theorem proxy_secrets_scoped:
  assumes "handle_request env (DefaultPolicyDecider al ms) n req = (n', resp, Forwarded out rest)"
  shows "\<exists>hs h. request_host env req = Some h \<and> og_headers out = copied_headers env (pr_headers req) @ hs \<and>
    length hs + length (og_query out) \<le> 1 \<and>
    (\<forall>x. x \<in> set hs \<or> x \<in> set (og_query out) \<longrightarrow>
      (\<exists>m \<in> set ms. \<exists>p \<in> set (cm_host_patterns m). \<exists>s. host_matches (to_lowercase p) (to_lowercase h) \<and>
         px_resolve env (cm_secret_name m) = Some s \<and> (header_of (cm_location m) s = Some x \<or> query_of (cm_location m) s = Some x))) \<and>
    (\<forall>nm v. (nm, v) \<in> set (copied_headers env (pr_headers req)) \<longrightarrow> \<not> is_hop_by_hop_header nm)"
proof -
  obtain q where q: "pr_method req \<noteq> ''CONNECT''" "from_url (px_url_parse env) (pr_method req) (pr_uri req) = Some q"
    and fwd: "forward_request env req (decide (DefaultPolicyDecider al ms) q) = (resp, Forwarded out rest)"
    using handle_request_forwards [OF assms] by blast
  let ?d = "decide (DefaultPolicyDecider al ms) q"
  obtain b where b: "og_headers b = copied_headers env (pr_headers req)" "og_query b = []"
    "og_headers out = og_headers (inject_decision env ?d b)" "og_query out = og_query (inject_decision env ?d b)"
    by (rule forward_request_out [OF fwd]) (rule that)
  obtain hs qs where i: "og_headers (inject_decision env ?d b) = og_headers b @ hs" "og_query (inject_decision env ?d b) = og_query b @ qs"
    "length hs + length qs \<le> 1"
    "\<And>x. x \<in> set hs \<Longrightarrow> \<exists>name loc s. ?d = AllowWithCredentials name loc \<and> px_resolve env name = Some s \<and> header_of loc s = Some x"
    "\<And>x. x \<in> set qs \<Longrightarrow> \<exists>name loc s. ?d = AllowWithCredentials name loc \<and> px_resolve env name = Some s \<and> query_of loc s = Some x"
    by (rule inject_decision_shape [of env ?d b]) (rule that)
  have "request_host env req = Some (nr_host q)" using q by (simp add: request_host_def)
  moreover have "\<exists>m \<in> set ms. \<exists>p \<in> set (cm_host_patterns m). \<exists>s. host_matches (to_lowercase p) (to_lowercase (nr_host q)) \<and>
         px_resolve env (cm_secret_name m) = Some s \<and> (header_of (cm_location m) s = Some x \<or> query_of (cm_location m) s = Some x)"
    if "x \<in> set hs \<or> x \<in> set qs" for x
  proof -
    from that i(4,5) obtain name loc s where x: "?d = AllowWithCredentials name loc" "px_resolve env name = Some s"
      "header_of loc s = Some x \<or> query_of loc s = Some x" by blast
    with decide_credentials [OF x(1)] show ?thesis by blast
  qed
  ultimately show ?thesis using b i(1-3) by (intro exI [of _ hs] exI [of _ "nr_host q"]) (auto simp: copied_headers_iff)
qed

definition sample_proxy_env :: proxy_env where
  "sample_proxy_env =
     \<lparr>px_url_parse = (\<lambda>u. if u = ''http://api.openai.com/v1''
        then Ok \<lparr>up_scheme = ''http'', up_username = [], up_password = None, up_host = Some ''api.openai.com'', up_path = ''/v1''\<rparr>
        else Err ''relative URL without a base''),
      px_method = Some, px_to_str = Some, px_resolve = (\<lambda>name. Some ''sk''),
      px_send = (\<lambda>out. ([], Ok \<lparr>us_status = 200, us_headers = [(''Connection'', ''close''), (''Date'', ''today'')], us_body = Some ''hi''\<rparr>)),
      px_builds = (\<lambda>_ _. True)\<rparr>"

definition sample_proxy_request :: proxy_request where
  "sample_proxy_request =
     \<lparr>pr_method = ''GET'', pr_uri = ''http://api.openai.com/v1'', pr_authority = Some (''api.openai.com'', ''api.openai.com''),
      pr_headers = [(''Host'', ''internal.example''), (''TE'', ''trailers''), (''Authorization'', ''Bearer mine'')], pr_body = Some []\<rparr>"

lemma sample_forwarded:
  "handle_request sample_proxy_env (build_decider proxy_builder_new) 0 sample_proxy_request =
     (1, \<lparr>rs_status = 200, rs_headers = [(''Date'', ''today'')], rs_body = ''hi''\<rparr>,
      Forwarded \<lparr>og_method = ''GET'', og_url = ''http://api.openai.com/v1'',
        og_headers = [(''Host'', ''internal.example''), (''Authorization'', ''Bearer mine''), (''Authorization'', ''Bearer sk'')],
        og_query = [], og_body = None\<rparr> [])"
  by code_simp

theorem proxy_confined_witness:
  "listed default_allowlist ''api.openai.com'' \<and>
   (\<exists>c. handle_request sample_proxy_env (build_decider proxy_builder_new) 0
      \<lparr>pr_method = ''CONNECT'', pr_uri = ''evil.example:443'', pr_authority = Some (''evil.example'', ''evil.example:443''),
       pr_headers = [], pr_body = Some []\<rparr> = c \<and> rs_status (fst (snd c)) = 403 \<and> snd (snd c) = NoConnection)"
proof
  have p: "pb_policy proxy_builder_new \<noteq> FullAccess" by (simp add: proxy_builder_new_def)
  have h: "request_host sample_proxy_env sample_proxy_request = Some ''api.openai.com''" by code_simp
  have l: "pb_allowlist proxy_builder_new = default_allowlist" by (simp add: proxy_builder_new_def)
  from proxy_confined [OF p sample_forwarded] show "listed default_allowlist ''api.openai.com''"
    unfolding h l by simp
  let ?r = "\<lparr>pr_method = ''CONNECT'', pr_uri = ''evil.example:443'', pr_authority = Some (''evil.example'', ''evil.example:443''),
       pr_headers = [], pr_body = Some []\<rparr>"
  obtain n' resp conn where c: "handle_request sample_proxy_env (build_decider proxy_builder_new) 0 ?r = (n', resp, conn)"
    by (metis surj_pair)
  have "\<not> listed default_allowlist ''evil.example''"
    by (subst domain_allowed_listed [symmetric]) code_simp
  with proxy_confined [OF p c] c show "\<exists>c. handle_request sample_proxy_env (build_decider proxy_builder_new) 0 ?r = c \<and>
      rs_status (fst (snd c)) = 403 \<and> snd (snd c) = NoConnection"
    by (simp add: request_host_def proxy_builder_new_def)
qed

theorem proxy_secrets_scoped_witness:
  "\<exists>m \<in> set default_credential_mappings. \<exists>s. px_resolve sample_proxy_env (cm_secret_name m) = Some s \<and>
     (header_of (cm_location m) s = Some (''Authorization'', ''Bearer sk'') \<or>
      query_of (cm_location m) s = Some (''Authorization'', ''Bearer sk''))"
proof -
  have d: "build_decider proxy_builder_new = DefaultPolicyDecider (map domain_pattern_new default_allowlist) default_credential_mappings"
    by (simp add: build_decider_def proxy_builder_new_def has_full_network_def)
  have c: "copied_headers sample_proxy_env (pr_headers sample_proxy_request) = [(''Host'', ''internal.example''), (''Authorization'', ''Bearer mine'')]"
    by code_simp
  from proxy_secrets_scoped [OF sample_forwarded [unfolded d], unfolded c] show ?thesis by clarsimp blast
qed

text \<open>Only the host of a tunnel is checked: for a listed host the proxy opens a tunnel to whatever address the request
  gives with it, on every port, and resolves no secret for it.\<close>

theorem connect_checks_host_only:
  assumes "pb_policy b \<noteq> FullAccess" and "listed (pb_allowlist b) host"
  shows "handle_request env (build_decider b) n
      \<lparr>pr_method = ''CONNECT'', pr_uri = target, pr_authority = Some (host, target), pr_headers = hs, pr_body = body\<rparr> =
    (n + 1, \<lparr>rs_status = 200, rs_headers = [], rs_body = []\<rparr>, Tunnel target)"
proof -
  let ?q = "\<lparr>nr_method = ''CONNECT'', nr_url = ''https://'' @ host, nr_host = host, nr_path = ''/''\<rparr>"
  have "\<nexists>r. decide (build_decider b) ?q = NetDeny r"
    using assms decide_denies [of "pb_allowlist b" "pb_credential_mappings b" ?q]
    by (simp add: build_decider_def has_full_network_def del: decide.simps)
  then show ?thesis
    by (auto simp del: decide.simps simp: handle_request_def handle_connect_def Let_def split: network_decision.splits)
qed

theorem connect_checks_host_only_witness:
  "snd (snd (handle_request sample_proxy_env (build_decider proxy_builder_new) 0
      \<lparr>pr_method = ''CONNECT'', pr_uri = ''github.com:22'', pr_authority = Some (''github.com'', ''github.com:22''),
       pr_headers = [], pr_body = Some []\<rparr>)) = Tunnel ''github.com:22''"
proof -
  have "listed (pb_allowlist proxy_builder_new) ''github.com''"
    by (subst domain_allowed_listed [symmetric]) code_simp
  then show ?thesis
    using connect_checks_host_only [of proxy_builder_new "''github.com''" sample_proxy_env 0 "''github.com:22''" "[]" "Some []"]
    by (simp add: proxy_builder_new_def)
qed

text \<open>A secret is added to the headers, not set in their place, and whatever the scheme: with the default settings, a
  plain http request to the model's host leaves with the host's own key in clear, behind the container's own
  authorization and with the Host header the container chose.\<close>

theorem secret_sent_in_clear:
  "handle_request sample_proxy_env (build_decider proxy_builder_new) 0 sample_proxy_request =
     (1, \<lparr>rs_status = 200, rs_headers = [(''Date'', ''today'')], rs_body = ''hi''\<rparr>,
      Forwarded \<lparr>og_method = ''GET'', og_url = ''http://api.openai.com/v1'',
        og_headers = [(''Host'', ''internal.example''), (''Authorization'', ''Bearer mine''), (''Authorization'', ''Bearer sk'')],
        og_query = [], og_body = None\<rparr> [])"
  by (rule sample_forwarded)

text \<open>No request after the first is judged.  Whatever requests the client makes of the answers it gets, with whatever
  hosts and headers, the proxy sends them: a listed host can lead a request on to one that is not on the list, and a key
  in a header of the provider's own, which the client does not strip, goes with it.\<close>

theorem redirects_unchecked:
  assumes "handle_request env dc n req = (n', resp, Forwarded out rest)"
  shows "snd (snd (handle_request (env\<lparr>px_send := (\<lambda>o1. (elsewhere o1, answer))\<rparr>) dc n req)) = Forwarded out (elsewhere out)"
proof -
  let ?e = "env\<lparr>px_send := (\<lambda>o1. (elsewhere o1, answer))\<rparr>"
  have same: "copied_headers ?e hs = copied_headers env hs" "inject_decision ?e d b = inject_decision env d b" for hs d b
    by (simp_all add: copied_headers_def inject_decision_def cong: if_cong network_decision.case_cong)
  obtain q where q: "pr_method req \<noteq> ''CONNECT''" "from_url (px_url_parse env) (pr_method req) (pr_uri req) = Some q"
    and fwd: "forward_request env req (decide dc q) = (resp, Forwarded out rest)"
    using handle_request_forwards [OF assms] by blast
  have "\<exists>resp'. forward_request ?e req (decide dc q) = (resp', Forwarded out (elsewhere out))"
    using fwd by (auto simp: forward_request_def same Let_def split: option.splits prod.splits)
  with q fwd assms show ?thesis
    by (auto simp: handle_request_def split: network_decision.splits)
qed

theorem redirects_unchecked_witness:
  "let leak = \<lparr>og_method = ''GET'', og_url = ''http://evil.example/'', og_headers = [(''x-api-key'', ''sk'')], og_query = [], og_body = None\<rparr>
   in \<exists>out. snd (snd (handle_request (sample_proxy_env\<lparr>px_send := (\<lambda>_. ([leak], Err ''late''))\<rparr>) (build_decider proxy_builder_new) 0
        sample_proxy_request)) = Forwarded out [leak]"
  unfolding Let_def using redirects_unchecked [OF sample_forwarded, of "\<lambda>_. [_]"] by blast

end
