(* ===== verification/Sandbox.thy ===== *)
theory Sandbox
  imports Sandbox_Proxy Util
begin

text \<open>
  The sandbox of shell commands, \<^verbatim>\<open>src/src/sandbox/{container,manager,config,error}.rs\<close>: the configuration of a container,
  the collection of its output, its life cycle, and the manager that starts the proxy of \<open>Sandbox_Proxy\<close> and runs a
  command in a container or, with full access, on the host.  The Docker daemon (crate bollard) is the record
  \<open>docker_env\<close>, one value per request it answers; each operation returns the requests it makes.  A panic is \<open>None\<close>.
\<close>

type_synonym u16 = "16 word"

section \<open>Data\<close>

datatype sandbox_error =
    DockerNotAvailable string
  | ContainerCreationFailed string
  | ContainerStartFailed string
  | ExecutionFailed string
  | SandboxTimedOut nat
  | ResourceLimitExceeded string string
  | ProxyError string
  | NetworkBlocked string
  | CredentialInjectionFailed string string
  | DockerApi string
  | SandboxIo string
  | SandboxConfigError string

record container_output =
  co_exit_code :: int
  co_stdout :: string
  co_stderr :: string
  co_duration :: nat
  co_truncated :: bool

record resource_limits =
  rl_memory_bytes :: u64
  rl_cpu_shares :: u32
  rl_timeout :: nat
  rl_max_output_bytes :: nat

definition resource_limits_default :: resource_limits where
  "resource_limits_default =
     \<lparr>rl_memory_bytes = 2 * 1024 * 1024 * 1024, rl_cpu_shares = 1024, rl_timeout = 120 * SECS, rl_max_output_bytes = 64 * 1024\<rparr>"

record host_config =
  hc_binds :: "string list"
  hc_memory :: int
  hc_cpu_shares :: int
  hc_auto_remove :: bool
  hc_network_mode :: string
  hc_cap_drop :: "string list"
  hc_cap_add :: "string list"
  hc_security_opt :: "string list"
  hc_readonly_rootfs :: bool
  hc_tmpfs :: "(string \<times> string) list"

record container_config =
  cc_image :: string
  cc_cmd :: "string list"
  cc_working_dir :: string
  cc_env :: "string list"
  cc_host_config :: host_config
  cc_user :: string
  cc_name :: string

text \<open>A piece of the log stream, its message already read by \<open>from_utf8_lossy\<close>.\<close>

datatype log_output = StdOut string | StdErr string | OtherLog | LogError string

datatype docker_call =
    CreateContainer container_config
  | StartContainer string
  | WaitContainer string
  | ReadLogs string
  | RemoveContainer string
  | CreateExec string string string
  | StartExec string
  | InspectExec string

record docker_env =
  dk_local :: bool
  dk_home :: bool
  dk_desktop_socket :: bool
  dk_desktop :: bool
  dk_ping :: "(string, unit) result"
  dk_image_exists :: "string \<Rightarrow> bool"
  dk_pull :: "string \<Rightarrow> (string, unit) result list"
  dk_create :: "container_config \<Rightarrow> (string, string) result"
  dk_start :: "string \<Rightarrow> (string, unit) result"
  dk_wait :: "string \<Rightarrow> (string, int) result option"
  dk_logs :: "string \<Rightarrow> log_output list"
  dk_timed_out :: bool
  dk_elapsed :: nat
  dk_create_exec :: "string \<Rightarrow> string \<Rightarrow> string \<Rightarrow> (string, string) result"
  dk_start_exec :: "string \<Rightarrow> (string, log_output list option) result"
  dk_inspect_exec :: "string \<Rightarrow> (string, int option) result"
  dk_uuid :: string
  dk_linux :: bool

section \<open>Collecting output\<close>

text \<open>Slicing a string panics inside a character.\<close>

definition slice_to :: "string \<Rightarrow> nat \<Rightarrow> string option" where
  "slice_to text n = (if is_char_boundary text n then Some (take n text) else None)"

definition push_log :: "nat \<Rightarrow> string \<Rightarrow> string \<Rightarrow> bool \<Rightarrow> (string \<times> bool) option" where
  "push_log half_max buf text truncated =
     (if length buf + length text > half_max
      then let remaining = half_max - length buf
           in map_option (\<lambda>t. (buf @ t, True)) (slice_to text (min remaining (length text)))
      else Some (buf @ text, truncated))"

fun collect_loop :: "nat \<Rightarrow> string \<Rightarrow> string \<Rightarrow> bool \<Rightarrow> log_output list \<Rightarrow> (string \<times> string \<times> bool) option" where
  "collect_loop half_max stdout stderr truncated [] = Some (stdout, stderr, truncated)"
| "collect_loop half_max stdout stderr truncated (StdOut text # rest) =
     (case push_log half_max stdout text truncated of
        None \<Rightarrow> None
      | Some (stdout', truncated') \<Rightarrow> collect_loop half_max stdout' stderr truncated' rest)"
| "collect_loop half_max stdout stderr truncated (StdErr text # rest) =
     (case push_log half_max stderr text truncated of
        None \<Rightarrow> None
      | Some (stderr', truncated') \<Rightarrow> collect_loop half_max stdout stderr' truncated' rest)"
| "collect_loop half_max stdout stderr truncated (_ # rest) = collect_loop half_max stdout stderr truncated rest"

definition collect_logs :: "log_output list \<Rightarrow> nat \<Rightarrow> (string \<times> string \<times> bool) option" where
  "collect_logs stream max_output = collect_loop (max_output div 2) [] [] False stream"

text \<open>The loop of \<open>run_exec\<close> differs: once a buffer is full its pieces are skipped.\<close>

definition push_exec :: "nat \<Rightarrow> string \<Rightarrow> string \<Rightarrow> bool \<Rightarrow> (string \<times> bool) option" where
  "push_exec half_max buf text truncated =
     (if length buf < half_max
      then let remaining = half_max - length buf
           in map_option (\<lambda>t. (buf @ t, if length text > remaining then True else truncated))
                (slice_to text (min remaining (length text)))
      else Some (buf, truncated))"

fun exec_loop :: "nat \<Rightarrow> string \<Rightarrow> string \<Rightarrow> bool \<Rightarrow> log_output list \<Rightarrow> (string \<times> string \<times> bool) option" where
  "exec_loop half_max stdout stderr truncated [] = Some (stdout, stderr, truncated)"
| "exec_loop half_max stdout stderr truncated (StdOut text # rest) =
     (case push_exec half_max stdout text truncated of
        None \<Rightarrow> None
      | Some (stdout', truncated') \<Rightarrow> exec_loop half_max stdout' stderr truncated' rest)"
| "exec_loop half_max stdout stderr truncated (StdErr text # rest) =
     (case push_exec half_max stderr text truncated of
        None \<Rightarrow> None
      | Some (stderr', truncated') \<Rightarrow> exec_loop half_max stdout stderr' truncated' rest)"
| "exec_loop half_max stdout stderr truncated (_ # rest) = exec_loop half_max stdout stderr truncated rest"

section \<open>Containers\<close>

definition connect_docker :: "docker_env \<Rightarrow> (sandbox_error, unit) result" where
  "connect_docker env =
     (if dk_local env then Ok ()
      else if dk_home env \<and> dk_desktop_socket env \<and> dk_desktop env then Ok ()
      else Err (DockerNotAvailable ''Could not connect to Docker. Tried: default socket, ~/.docker/run/docker.sock''))"

fun pull_stream :: "(string, unit) result list \<Rightarrow> (sandbox_error, unit) result" where
  "pull_stream [] = Ok ()"
| "pull_stream (Ok _ # rest) = pull_stream rest"
| "pull_stream (Err e # rest) = Err (ContainerCreationFailed (''image pull failed: '' @ e))"

record container_runner =
  cr_image :: string
  cr_proxy_port :: u16

definition env_entry :: "string \<times> string \<Rightarrow> string" where
  "env_entry kv = fst kv @ ''='' @ snd kv"

definition proxy_variables :: "docker_env \<Rightarrow> u16 \<Rightarrow> string list" where
  "proxy_variables env port =
     (let url = ''http://'' @ (if dk_linux env then ''172.17.0.1'' else ''host.docker.internal'') @ '':'' @ nat_str (unat port)
      in [''http_proxy='' @ url, ''https_proxy='' @ url, ''HTTP_PROXY='' @ url, ''HTTPS_PROXY='' @ url])"

definition policy_binds :: "sandbox_policy \<Rightarrow> string \<Rightarrow> string list" where
  "policy_binds policy dir =
     (case policy of
        ReadOnly \<Rightarrow> [dir @ '':/workspace:ro'']
      | WorkspaceWrite \<Rightarrow> [dir @ '':/workspace:rw'']
      | FullAccess \<Rightarrow> [dir @ '':/workspace:rw'', ''/tmp:/tmp:rw''])"

definition create_config ::
  "docker_env \<Rightarrow> container_runner \<Rightarrow> string \<Rightarrow> string \<Rightarrow> sandbox_policy \<Rightarrow> resource_limits \<Rightarrow> (string \<times> string) list \<Rightarrow>
   container_config" where
  "create_config env runner command working_dir policy limits vars =
     \<lparr>cc_image = cr_image runner, cc_cmd = [''sh'', ''-c'', command], cc_working_dir = ''/workspace'',
      cc_env = map env_entry vars @
        (if cr_proxy_port runner > 0 \<and> is_sandboxed policy then proxy_variables env (cr_proxy_port runner) else []),
      cc_host_config =
        \<lparr>hc_binds = policy_binds policy working_dir, hc_memory = sint (rl_memory_bytes limits),
         hc_cpu_shares = int (unat (rl_cpu_shares limits)), hc_auto_remove = True, hc_network_mode = ''bridge'',
         hc_cap_drop = [''ALL''], hc_cap_add = [''CHOWN''], hc_security_opt = [''no-new-privileges:true''],
         hc_readonly_rootfs = (policy \<noteq> FullAccess),
         hc_tmpfs = [(''/tmp'', ''size=512M''), (''/home/sandbox/.cargo/registry'', ''size=1G'')]\<rparr>,
      cc_user = ''1000:1000'', cc_name = ''sandbox-'' @ dk_uuid env\<rparr>"

definition wait_for_container ::
  "docker_env \<Rightarrow> string \<Rightarrow> nat \<Rightarrow> (sandbox_error, container_output) result option \<times> docker_call list" where
  "wait_for_container env cid max_output =
     (case dk_wait env cid of
        Some (Err e) \<Rightarrow> (Some (Err (ExecutionFailed (''wait failed: '' @ e))), [WaitContainer cid])
      | None \<Rightarrow> (Some (Err (ExecutionFailed ''container wait stream ended unexpectedly'')), [WaitContainer cid])
      | Some (Ok code) \<Rightarrow>
          (map_option (\<lambda>(stdout, stderr, truncated).
             Ok \<lparr>co_exit_code = code, co_stdout = stdout, co_stderr = stderr, co_duration = 0, co_truncated = truncated\<rparr>)
             (collect_logs (dk_logs env cid) max_output),
           [WaitContainer cid, ReadLogs cid]))"

text \<open>\<open>ContainerRunner::execute\<close>.  A timeout may come at any point of the wait.\<close>

definition runner_execute ::
  "docker_env \<Rightarrow> container_runner \<Rightarrow> string \<Rightarrow> string \<Rightarrow> sandbox_policy \<Rightarrow> resource_limits \<Rightarrow> (string \<times> string) list \<Rightarrow>
   (sandbox_error, container_output) result option \<times> docker_call list" where
  "runner_execute env runner command working_dir policy limits vars =
     (let cfg = create_config env runner command working_dir policy limits vars
      in case dk_create env cfg of
        Err e \<Rightarrow> (Some (Err (ContainerCreationFailed e)), [CreateContainer cfg])
      | Ok cid \<Rightarrow>
          (case dk_start env cid of
             Err e \<Rightarrow> (Some (Err (ContainerStartFailed e)), [CreateContainer cfg, StartContainer cid])
           | Ok _ \<Rightarrow>
               if dk_timed_out env
               then (Some (Err (SandboxTimedOut (rl_timeout limits))),
                     [CreateContainer cfg, StartContainer cid, WaitContainer cid, RemoveContainer cid])
               else (case wait_for_container env cid (rl_max_output_bytes limits) of
                 (None, calls) \<Rightarrow> (None, [CreateContainer cfg, StartContainer cid] @ calls)
               | (Some (Err e), calls) \<Rightarrow>
                   (Some (Err e), [CreateContainer cfg, StartContainer cid] @ calls @ [RemoveContainer cid])
               | (Some (Ok output), calls) \<Rightarrow>
                   (Some (Ok (output\<lparr>co_duration := dk_elapsed env\<rparr>)),
                    [CreateContainer cfg, StartContainer cid] @ calls @ [RemoveContainer cid]))))"

definition run_exec :: "docker_env \<Rightarrow> string \<Rightarrow> nat \<Rightarrow> (sandbox_error, container_output) result option \<times> docker_call list" where
  "run_exec env eid max_output =
     (case dk_start_exec env eid of
        Err e \<Rightarrow> (Some (Err (ExecutionFailed (''exec start failed: '' @ e))), [StartExec eid])
      | Ok attached \<Rightarrow>
          (case exec_loop (max_output div 2) [] [] False (case attached of Some output \<Rightarrow> output | None \<Rightarrow> []) of
             None \<Rightarrow> (None, [StartExec eid])
           | Some (stdout, stderr, truncated) \<Rightarrow>
               (case dk_inspect_exec env eid of
                  Err e \<Rightarrow> (Some (Err (ExecutionFailed (''exec inspect failed: '' @ e))), [StartExec eid, InspectExec eid])
                | Ok code \<Rightarrow>
                    (Some (Ok \<lparr>co_exit_code = (case code of Some c \<Rightarrow> c | None \<Rightarrow> -1), co_stdout = stdout, co_stderr = stderr,
                               co_duration = 0, co_truncated = truncated\<rparr>), [StartExec eid, InspectExec eid]))))"

definition exec_in_container ::
  "docker_env \<Rightarrow> string \<Rightarrow> string \<Rightarrow> string \<Rightarrow> resource_limits \<Rightarrow>
   (sandbox_error, container_output) result option \<times> docker_call list" where
  "exec_in_container env cid command working_dir limits =
     (case dk_create_exec env cid command working_dir of
        Err e \<Rightarrow> (Some (Err (ExecutionFailed (''exec create failed: '' @ e))), [CreateExec cid command working_dir])
      | Ok eid \<Rightarrow>
          if dk_timed_out env then (Some (Err (SandboxTimedOut (rl_timeout limits))), [CreateExec cid command working_dir, StartExec eid])
          else (case run_exec env eid (rl_max_output_bytes limits) of
            (r, calls) \<Rightarrow>
              (map_option (\<lambda>r. case r of Ok output \<Rightarrow> Ok (output\<lparr>co_duration := dk_elapsed env\<rparr>) | Err e \<Rightarrow> Err e) r,
               CreateExec cid command working_dir # calls)))"

section \<open>The manager\<close>

record exec_output =
  eo_exit_code :: int
  eo_stdout :: string
  eo_stderr :: string
  eo_output :: string
  eo_duration :: nat
  eo_truncated :: bool

definition combined_output :: "string \<Rightarrow> string \<Rightarrow> string" where
  "combined_output stdout stderr =
     (if stderr = [] then stdout else if stdout = [] then stderr
      else stdout @ [CHR 0x0A, CHR 0x0A] @ ''--- stderr ---'' @ [CHR 0x0A] @ stderr)"

definition exec_output_from :: "container_output \<Rightarrow> exec_output" where
  "exec_output_from c =
     \<lparr>eo_exit_code = co_exit_code c, eo_stdout = co_stdout c, eo_stderr = co_stderr c,
      eo_output = combined_output (co_stdout c) (co_stderr c), eo_duration = co_duration c, eo_truncated = co_truncated c\<rparr>"

record sandbox_config =
  sc_enabled :: bool
  sc_policy :: sandbox_policy
  sc_timeout :: nat
  sc_memory_limit_mb :: u64
  sc_cpu_shares :: u32
  sc_network_allowlist :: "string list"
  sc_image :: string
  sc_auto_pull_image :: bool
  sc_proxy_port :: u16

definition sandbox_config_default :: sandbox_config where
  "sandbox_config_default =
     \<lparr>sc_enabled = False, sc_policy = ReadOnly, sc_timeout = 120 * SECS, sc_memory_limit_mb = 2048, sc_cpu_shares = 1024,
      sc_network_allowlist = default_allowlist, sc_image = ''ghcr.io/titanclaw/sandbox:latest'', sc_auto_pull_image = True,
      sc_proxy_port = 0\<rparr>"

text \<open>A running proxy: who decides, and the port it listens on.\<close>

record sandbox_manager =
  sm_config :: sandbox_config
  sm_proxy :: "(policy_decider \<times> u16) option"
  sm_docker :: bool
  sm_initialized :: bool

definition sandbox_manager_new :: "sandbox_config \<Rightarrow> sandbox_manager" where
  "sandbox_manager_new config = \<lparr>sm_config = config, sm_proxy = None, sm_docker = False, sm_initialized = False\<rparr>"

definition proxy_builder_from_config :: "sandbox_config \<Rightarrow> proxy_builder" where
  "proxy_builder_from_config config =
     \<lparr>pb_allowlist = sc_network_allowlist config, pb_credential_mappings = default_credential_mappings, pb_policy = sc_policy config\<rparr>"

text \<open>What is outside the manager: the daemon, the binding of the proxy's port, and a command of the host with its output.\<close>

record host_run =
  hr_code :: "int option"
  hr_stdout :: string
  hr_stderr :: string

record sandbox_env =
  se_docker :: docker_env
  se_bind :: "u16 \<Rightarrow> (sandbox_error, u16) result"
  se_run :: "string \<Rightarrow> string \<Rightarrow> (string \<times> string) list \<Rightarrow> (string, host_run) result"
  se_timed_out :: bool
  se_elapsed :: nat
  se_show_duration :: "nat \<Rightarrow> string"

definition sandbox_is_available :: "sandbox_env \<Rightarrow> sandbox_manager \<Rightarrow> bool" where
  "sandbox_is_available env sm =
     (if \<not> sc_enabled (sm_config sm) then False
      else case connect_docker (se_docker env) of Ok _ \<Rightarrow> (case dk_ping (se_docker env) of Ok _ \<Rightarrow> True | Err _ \<Rightarrow> False)
            | Err _ \<Rightarrow> False)"

definition image_ready :: "docker_env \<Rightarrow> sandbox_config \<Rightarrow> (sandbox_error, unit) result" where
  "image_ready dk config =
     (if dk_image_exists dk (sc_image config) then Ok ()
      else if sc_auto_pull_image config then pull_stream (dk_pull dk (sc_image config))
      else Err (ContainerCreationFailed (''image '' @ sc_image config @ '' not found and auto_pull is disabled'')))"

definition sandbox_initialize :: "sandbox_env \<Rightarrow> sandbox_manager \<Rightarrow> sandbox_manager \<times> (sandbox_error, unit) result" where
  "sandbox_initialize env sm =
     (let config = sm_config sm; dk = se_docker env in
      if sm_initialized sm then (sm, Ok ())
      else if \<not> sc_enabled config then (sm, Err (SandboxConfigError ''sandbox is disabled''))
      else case connect_docker dk of
        Err e \<Rightarrow> (sm, Err e)
      | Ok _ \<Rightarrow>
          (case dk_ping dk of
             Err e \<Rightarrow> (sm, Err (DockerNotAvailable e))
           | Ok _ \<Rightarrow>
               (case image_ready dk config of
                  Err e \<Rightarrow> (sm, Err e)
                | Ok _ \<Rightarrow>
                    let sm = sm\<lparr>sm_docker := True\<rparr>
                    in if is_sandboxed (sc_policy config)
                       then (case se_bind env (sc_proxy_port config) of
                               Err e \<Rightarrow> (sm, Err e)
                             | Ok port \<Rightarrow>
                                 (sm\<lparr>sm_proxy := Some (build_decider (proxy_builder_from_config config), port), sm_initialized := True\<rparr>, Ok ()))
                       else (sm\<lparr>sm_initialized := True\<rparr>, Ok ()))))"

definition sandbox_shutdown :: "sandbox_manager \<Rightarrow> sandbox_manager" where
  "sandbox_shutdown sm = sm\<lparr>sm_proxy := None, sm_initialized := False\<rparr>"

definition truncate_half :: "nat \<Rightarrow> string \<Rightarrow> string \<times> bool" where
  "truncate_half half_max s = (if length s > half_max then (take (floor_char_boundary s half_max) s, True) else (s, False))"

definition sandbox_direct ::
  "sandbox_env \<Rightarrow> sandbox_manager \<Rightarrow> string \<Rightarrow> string \<Rightarrow> (string \<times> string) list \<Rightarrow> (sandbox_error, exec_output) result" where
  "sandbox_direct env sm command cwd vars =
     (if se_timed_out env then Err (SandboxTimedOut (sc_timeout (sm_config sm)))
      else case se_run env command cwd vars of
        Err e \<Rightarrow> Err (ExecutionFailed e)
      | Ok run \<Rightarrow>
          let half_max = 64 * 1024 div 2;
              (stdout, t1) = truncate_half half_max (hr_stdout run);
              (stderr, t2) = truncate_half half_max (hr_stderr run)
          in Ok \<lparr>eo_exit_code = (case hr_code run of Some c \<Rightarrow> c | None \<Rightarrow> -1), eo_stdout = stdout, eo_stderr = stderr,
                 eo_output = combined_output stdout stderr, eo_duration = se_elapsed env, eo_truncated = (t1 \<or> t2)\<rparr>)"

text \<open>Where a command runs: on the host, or by requests to the daemon.\<close>

datatype execution = OnHost string string | InDocker "docker_call list" | NotRun

definition manager_limits :: "sandbox_config \<Rightarrow> resource_limits" where
  "manager_limits config =
     \<lparr>rl_memory_bytes = sc_memory_limit_mb config * 1024 * 1024, rl_cpu_shares = sc_cpu_shares config,
      rl_timeout = sc_timeout config, rl_max_output_bytes = 64 * 1024\<rparr>"

definition execute_with_policy ::
  "sandbox_env \<Rightarrow> sandbox_manager \<Rightarrow> string \<Rightarrow> string \<Rightarrow> sandbox_policy \<Rightarrow> (string \<times> string) list \<Rightarrow>
   sandbox_manager \<times> (sandbox_error, exec_output) result option \<times> execution" where
  "execute_with_policy env sm command cwd policy vars =
     (if policy = FullAccess then (sm, Some (sandbox_direct env sm command cwd vars), OnHost command cwd)
      else case (if sm_initialized sm then (sm, Ok ()) else sandbox_initialize env sm) of
        (sm, Err e) \<Rightarrow> (sm, Some (Err e), NotRun)
      | (sm, Ok _) \<Rightarrow>
          let proxy_port = (case sm_proxy sm of Some (_, port) \<Rightarrow> port | None \<Rightarrow> 0)
          in if \<not> sm_docker sm then (sm, Some (Err (DockerNotAvailable ''Docker connection not initialized'')), NotRun)
             else (case runner_execute (se_docker env) \<lparr>cr_image = sc_image (sm_config sm), cr_proxy_port = proxy_port\<rparr>
                          command cwd policy (manager_limits (sm_config sm)) vars of
               (r, calls) \<Rightarrow>
                 (sm, map_option (\<lambda>r. case r of Ok c \<Rightarrow> Ok (exec_output_from c) | Err e \<Rightarrow> Err e) r, InDocker calls)))"

definition sandbox_execute ::
  "sandbox_env \<Rightarrow> sandbox_manager \<Rightarrow> string \<Rightarrow> string \<Rightarrow> (string \<times> string) list \<Rightarrow>
   sandbox_manager \<times> (sandbox_error, exec_output) result option \<times> execution" where
  "sandbox_execute env sm command cwd vars = execute_with_policy env sm command cwd (sc_policy (sm_config sm)) vars"

definition sandbox_build ::
  "sandbox_env \<Rightarrow> sandbox_manager \<Rightarrow> string \<Rightarrow> string \<Rightarrow> (string \<times> string) list \<Rightarrow>
   sandbox_manager \<times> (sandbox_error, exec_output) result option \<times> execution" where
  "sandbox_build env sm command project_dir vars = execute_with_policy env sm command project_dir WorkspaceWrite vars"

section \<open>The sandbox of the shell tool\<close>

fun sandbox_error_display :: "(nat \<Rightarrow> string) \<Rightarrow> sandbox_error \<Rightarrow> string" where
  "sandbox_error_display sd (DockerNotAvailable reason) = ''Docker not available: '' @ reason"
| "sandbox_error_display sd (ContainerCreationFailed reason) = ''Container creation failed: '' @ reason"
| "sandbox_error_display sd (ContainerStartFailed reason) = ''Container start failed: '' @ reason"
| "sandbox_error_display sd (ExecutionFailed reason) = ''Execution failed: '' @ reason"
| "sandbox_error_display sd (SandboxTimedOut d) = ''Command timed out after '' @ sd d"
| "sandbox_error_display sd (ResourceLimitExceeded res lim) = ''Resource limit exceeded: '' @ res @ '' limit of '' @ lim"
| "sandbox_error_display sd (ProxyError reason) = ''Proxy error: '' @ reason"
| "sandbox_error_display sd (NetworkBlocked reason) = ''Network request blocked: '' @ reason"
| "sandbox_error_display sd (CredentialInjectionFailed domain reason) = ''Credential injection failed for '' @ domain @ '': '' @ reason"
| "sandbox_error_display sd (DockerApi e) = ''Docker API error: '' @ e"
| "sandbox_error_display sd (SandboxIo e) = ''I/O error: '' @ e"
| "sandbox_error_display sd (SandboxConfigError reason) = ''Configuration error: '' @ reason"

text \<open>The shell tool puts a timeout of its own around the manager.  When it fires, the manager's future is dropped where it
  stands: \<open>cutoff\<close> is the number of requests made by then, \<open>None\<close> if the command returned in time.\<close>

definition cut_execution :: "nat option \<Rightarrow> execution \<Rightarrow> execution" where
  "cut_execution cutoff ex = (case (cutoff, ex) of (Some n, InDocker calls) \<Rightarrow> InDocker (take n calls) | _ \<Rightarrow> ex)"

definition shell_sandbox ::
  "sandbox_env \<Rightarrow> sandbox_manager \<Rightarrow> nat option \<Rightarrow> shell_run \<Rightarrow> (sandbox_outcome option \<times> execution)" where
  "shell_sandbox env sm cutoff run =
     (case run of
        RunSandboxed cmd workdir policy timeout \<Rightarrow>
          (case execute_with_policy env sm cmd workdir policy [] of
             (sm', r, ex) \<Rightarrow>
               if cutoff \<noteq> None then (Some SandboxTimeout, cut_execution cutoff ex)
               else (map_option (\<lambda>r. case r of
                       Ok output \<Rightarrow> SandboxDone (eo_output output) (eo_exit_code output)
                     | Err e \<Rightarrow> SandboxFailed (sandbox_error_display (se_show_duration env) e)) r, ex))
      | RunDirect _ _ _ _ \<Rightarrow> (None, NotRun))"

section \<open>What is collected\<close>

fun stdout_of :: "log_output \<Rightarrow> string" where
  "stdout_of (StdOut t) = t"
| "stdout_of _ = []"

fun stderr_of :: "log_output \<Rightarrow> string" where
  "stderr_of (StdErr t) = t"
| "stderr_of _ = []"

definition all_stdout :: "log_output list \<Rightarrow> string" where "all_stdout ls = concat (map stdout_of ls)"
definition all_stderr :: "log_output list \<Rightarrow> string" where "all_stderr ls = concat (map stderr_of ls)"

lemma all_std_simps [simp]:
  "all_stdout [] = []" "all_stdout (l # ls) = stdout_of l @ all_stdout ls"
  "all_stderr [] = []" "all_stderr (l # ls) = stderr_of l @ all_stderr ls"
  by (simp_all add: all_stdout_def all_stderr_def)

lemma push_log_exact:
  assumes "length buf \<le> half" and "push_log half buf text t = Some (buf', t')"
  shows "buf' = take half (buf @ text)" "t' = (t \<or> length buf + length text > half)"
  using assms by (auto simp: push_log_def slice_to_def Let_def min_def split: if_splits)

lemma push_exec_exact:
  assumes "length buf \<le> half" and "push_exec half buf text t = Some (buf', t')"
  shows "buf' = take half (buf @ text)" "t' = (t \<or> length buf < half \<and> length buf + length text > half)"
  using assms by (auto simp: push_exec_def slice_to_def Let_def min_def split: if_splits)

text \<open>Cutting the buffer first and appending later loses nothing of the cut.\<close>

lemma take_take_append: "take n (take n xs @ ys) = take n (xs @ ys)"
  by (cases "length xs \<le> n") simp_all

lemma collect_loop_exact:
  "length out \<le> half \<Longrightarrow> length err \<le> half \<Longrightarrow> collect_loop half out err t ls = Some (out', err', t') \<Longrightarrow>
   out' = take half (out @ all_stdout ls) \<and> err' = take half (err @ all_stderr ls) \<and>
   t' = (t \<or> length out + length (all_stdout ls) > half \<or> length err + length (all_stderr ls) > half)"
proof (induction half out err t ls rule: collect_loop.induct)
  case (2 half out err t tx rest)
  then obtain o1 t1 where p: "push_log half out tx t = Some (o1, t1)" "collect_loop half o1 err t1 rest = Some (out', err', t')"
    by (auto split: option.splits)
  note e = push_log_exact [OF 2(2) p(1)]
  have "length o1 \<le> half" by (simp add: e(1))
  from 2(1) [OF p(1) refl this 2(3) p(2)] e(1,2) show ?case by (auto simp: take_take_append simp del: take_append)
next
  case (3 half out err t tx rest)
  then obtain e1 t1 where p: "push_log half err tx t = Some (e1, t1)" "collect_loop half out e1 t1 rest = Some (out', err', t')"
    by (auto split: option.splits)
  note e = push_log_exact [OF 3(3) p(1)]
  have "length e1 \<le> half" by (simp add: e(1))
  from 3(1) [OF p(1) refl 3(2) this p(2)] e show ?case by (auto simp: take_take_append simp del: take_append)
qed simp_all

lemma exec_loop_exact:
  "length out \<le> half \<Longrightarrow> length err \<le> half \<Longrightarrow> exec_loop half out err t ls = Some (out', err', t') \<Longrightarrow>
   out' = take half (out @ all_stdout ls) \<and> err' = take half (err @ all_stderr ls)"
proof (induction half out err t ls rule: exec_loop.induct)
  case (2 half out err t tx rest)
  then obtain o1 t1 where p: "push_exec half out tx t = Some (o1, t1)" "exec_loop half o1 err t1 rest = Some (out', err', t')"
    by (auto split: option.splits)
  note e = push_exec_exact [OF 2(2) p(1)]
  have "length o1 \<le> half" by (simp add: e(1))
  from 2(1) [OF p(1) refl this 2(3) p(2)] e(1,2) show ?case by (auto simp: take_take_append simp del: take_append)
next
  case (3 half out err t tx rest)
  then obtain e1 t1 where p: "push_exec half err tx t = Some (e1, t1)" "exec_loop half out e1 t1 rest = Some (out', err', t')"
    by (auto split: option.splits)
  note e = push_exec_exact [OF 3(3) p(1)]
  have "length e1 \<le> half" by (simp add: e(1))
  from 3(1) [OF p(1) refl 3(2) this p(2)] e show ?case by (auto simp: take_take_append simp del: take_append)
qed simp_all

text \<open>Single-byte text is never cut inside a character.\<close>

definition single_bytes :: "string \<Rightarrow> bool" where
  "single_bytes s \<longleftrightarrow> (\<forall>c \<in> set s. \<not> is_continuation c)"

lemma push_log_single: "single_bytes text \<Longrightarrow> \<exists>r. push_log half buf text t = Some r"
  by (auto simp: push_log_def slice_to_def Let_def is_char_boundary_def single_bytes_def min_def)

lemma collect_loop_single:
  "\<forall>l \<in> set ls. single_bytes (stdout_of l) \<and> single_bytes (stderr_of l) \<Longrightarrow> \<exists>r. collect_loop half out err t ls = Some r"
proof (induction half out err t ls rule: collect_loop.induct)
  case (2 half out err t tx rest)
  then obtain o1 t1 where "push_log half out tx t = Some (o1, t1)" using push_log_single [of tx half out t] by fastforce
  with 2 show ?case by simp
next
  case (3 half out err t tx rest)
  then obtain e1 t1 where "push_log half err tx t = Some (e1, t1)" using push_log_single [of tx half err t] by fastforce
  with 3 show ?case by simp
qed simp_all

lemma collect_logs_exact:
  assumes "collect_logs ls lim = Some (out, err, trunc)"
  shows "out = take (lim div 2) (all_stdout ls)" "err = take (lim div 2) (all_stderr ls)"
    "trunc = (out \<noteq> all_stdout ls \<or> err \<noteq> all_stderr ls)" "length out + length err \<le> lim"
proof -
  note e = collect_loop_exact [OF _ _ assms [unfolded collect_logs_def], simplified]
  show "out = take (lim div 2) (all_stdout ls)" "err = take (lim div 2) (all_stderr ls)" using e by simp_all
  then have l: "length out = min (lim div 2) (length (all_stdout ls))" "length err = min (lim div 2) (length (all_stderr ls))"
    by simp_all
  moreover have "lim div 2 + lim div 2 \<le> lim" by simp
  ultimately show "length out + length err \<le> lim" by linarith
  have "take n xs \<noteq> xs \<longleftrightarrow> n < length xs" for n and xs :: string
    by (metis append_take_drop_id append_self_conv drop_eq_Nil linorder_not_le)
  with e show "trunc = (out \<noteq> all_stdout ls \<or> err \<noteq> all_stderr ls)" by auto
qed

lemma runner_execute_calls:
  assumes "runner_execute env runner command dir policy limits vars = (Some r, calls)"
  shows "(\<exists>cfg cid. dk_create env cfg = Ok cid \<and> dk_start env cid = Ok () \<and> CreateContainer cfg = hd calls \<and>
      StartContainer cid \<in> set calls \<and> last calls = RemoveContainer cid) \<or>
    (\<exists>cfg cid e. dk_create env cfg = Ok cid \<and> dk_start env cid = Err e \<and> r = Err (ContainerStartFailed e) \<and>
      calls = [CreateContainer cfg, StartContainer cid]) \<or>
    (\<exists>cfg e. dk_create env cfg = Err e \<and> r = Err (ContainerCreationFailed e) \<and> calls = [CreateContainer cfg])" (is ?calls)
    "\<And>out. r = Ok out \<Longrightarrow> length (co_stdout out) + length (co_stderr out) \<le> rl_max_output_bytes limits"
proof -
  let ?cfg = "create_config env runner command dir policy limits vars"
  show ?calls
  proof (cases "dk_create env ?cfg")
    case (Inl e)
    with assms show ?thesis by (auto simp: runner_execute_def Let_def)
  next
    case (Inr cid)
    then show ?thesis
    proof (cases "dk_start env cid")
      case (Inl e)
      with assms Inr show ?thesis by (auto simp: runner_execute_def Let_def)
    next
      case (Inr u)
      with assms \<open>dk_create env ?cfg = Ok cid\<close> have "hd calls = CreateContainer ?cfg" "StartContainer cid \<in> set calls"
        "last calls = RemoveContainer cid"
        by (auto simp: runner_execute_def Let_def split: if_splits prod.splits option.splits sum.splits)
      with Inr \<open>dk_create env ?cfg = Ok cid\<close> show ?thesis by (metis (full_types) old.unit.exhaust)
    qed
  qed
  show "length (co_stdout out) + length (co_stderr out) \<le> rl_max_output_bytes limits" if "r = Ok out" for out
    using assms that collect_logs_exact(4)
    by (auto simp: runner_execute_def wait_for_container_def Let_def split: if_splits prod.splits option.splits sum.splits)
qed

section \<open>The life of the manager\<close>

datatype sandbox_op =
    Initialize sandbox_env
  | Shutdown
  | ExecuteWith sandbox_env string string sandbox_policy "(string \<times> string) list"
  | ExecuteDefault sandbox_env string string "(string \<times> string) list"
  | BuildCommand sandbox_env string string "(string \<times> string) list"

fun sandbox_step :: "sandbox_manager \<Rightarrow> sandbox_op \<Rightarrow> sandbox_manager" where
  "sandbox_step sm (Initialize env) = fst (sandbox_initialize env sm)"
| "sandbox_step sm Shutdown = sandbox_shutdown sm"
| "sandbox_step sm (ExecuteWith env command cwd policy vars) = fst (execute_with_policy env sm command cwd policy vars)"
| "sandbox_step sm (ExecuteDefault env command cwd vars) = fst (sandbox_execute env sm command cwd vars)"
| "sandbox_step sm (BuildCommand env command dir vars) = fst (sandbox_build env sm command dir vars)"

text \<open>An initialized manager has its connection, and a proxy with the configured list exactly if the configured policy is
  sandboxed; one that is not initialized has no proxy.\<close>

definition manager_inv :: "sandbox_manager \<Rightarrow> bool" where
  "manager_inv sm \<longleftrightarrow>
     (sm_initialized sm \<longrightarrow> sm_docker sm \<and> (sm_proxy sm = None \<longleftrightarrow> sc_policy (sm_config sm) = FullAccess)) \<and>
     (\<not> sm_initialized sm \<longrightarrow> sm_proxy sm = None) \<and>
     (\<forall>d port. sm_proxy sm = Some (d, port) \<longrightarrow> d = build_decider (proxy_builder_from_config (sm_config sm)))"

lemma initialize_inv: "manager_inv sm \<Longrightarrow> manager_inv (fst (sandbox_initialize env sm))"
  by (auto simp: sandbox_initialize_def Let_def manager_inv_def is_sandboxed_def split: sum.splits)

lemma initialize_keeps:
  "sm_config (fst (sandbox_initialize env sm)) = sm_config sm"
  "manager_inv sm \<Longrightarrow> snd (sandbox_initialize env sm) = Ok () \<Longrightarrow> sm_initialized (fst (sandbox_initialize env sm))"
  by (auto simp: sandbox_initialize_def Let_def split: sum.splits if_splits)

lemma execute_with_policy_state:
  "fst (execute_with_policy env sm command cwd policy vars) =
     (if policy = FullAccess \<or> sm_initialized sm then sm else fst (sandbox_initialize env sm))"
  by (cases "sandbox_initialize env sm") (auto simp: execute_with_policy_def Let_def split: prod.splits sum.splits)

text \<open>The manager a sandboxed command is run with.\<close>

lemma execute_with_policy_run:
  assumes "execute_with_policy env sm command cwd policy vars = (sm', r, InDocker calls)" and "manager_inv sm"
  obtains runner c where "runner_execute (se_docker env) runner command cwd policy (manager_limits (sm_config sm)) vars = (c, calls)"
    "cr_image runner = sc_image (sm_config sm)" "cr_proxy_port runner = (case sm_proxy sm' of Some (_, port) \<Rightarrow> port | None \<Rightarrow> 0)"
    "r = map_option (\<lambda>r. case r of Ok c \<Rightarrow> Ok (exec_output_from c) | Err e \<Rightarrow> Err e) c"
    "sm_initialized sm'" "sm_config sm' = sm_config sm" "manager_inv sm'" "policy \<noteq> FullAccess"
proof -
  let ?m = "if sm_initialized sm then (sm, Ok ()) else sandbox_initialize env sm"
  obtain sm1 i where m: "?m = (sm1, i)" by fastforce
  have keeps: "sm_config sm1 = sm_config sm" "manager_inv sm1" "i = Ok () \<Longrightarrow> sm_initialized sm1"
    using m assms(2) initialize_inv [OF assms(2), where env = env] initialize_keeps [where env = env and sm = sm] by (auto split: if_splits)
  have p: "policy \<noteq> FullAccess" using assms(1) by (auto simp: execute_with_policy_def)
  from assms(1) p have i: "i = Ok ()" by (cases i) (simp_all add: execute_with_policy_def m)
  let ?runner = "\<lparr>cr_image = sc_image (sm_config sm1), cr_proxy_port = (case sm_proxy sm1 of Some (_, port) \<Rightarrow> port | None \<Rightarrow> 0)\<rparr>"
  obtain c calls' where c: "runner_execute (se_docker env) ?runner command cwd policy (manager_limits (sm_config sm1)) vars = (c, calls')"
    by fastforce
  from assms(1) p have "sm' = sm1 \<and> calls' = calls \<and> r = map_option (\<lambda>r. case r of Ok c \<Rightarrow> Ok (exec_output_from c) | Err e \<Rightarrow> Err e) c"
    by (auto simp: execute_with_policy_def m i c Let_def split: if_splits)
  with that [of ?runner c] c keeps i p show ?thesis by simp
qed

interpretation managers: inv_machine sandbox_step manager_inv
proof unfold_locales
  fix sm :: sandbox_manager and op
  assume inv: "manager_inv sm"
  have run: "manager_inv (fst (execute_with_policy env sm command cwd policy vars))" for env command cwd policy vars
    using inv initialize_inv by (simp add: execute_with_policy_state)
  show "manager_inv (sandbox_step sm op)"
  proof (cases op)
    case (Initialize env)
    with inv initialize_inv show ?thesis by simp
  next
    case Shutdown
    with inv show ?thesis by (simp add: manager_inv_def sandbox_shutdown_def)
  qed (use run in \<open>simp_all add: sandbox_execute_def sandbox_build_def\<close>)
qed

lemma runner_creates:
  "runner_execute env runner command dir policy limits vars = (c, calls) \<Longrightarrow> CreateContainer cc \<in> set calls \<Longrightarrow>
   cc = create_config env runner command dir policy limits vars"
  by (auto simp: runner_execute_def wait_for_container_def Let_def split: if_splits prod.splits option.splits sum.splits)

lemma step_config: "sm_config (sandbox_step sm op) = sm_config sm"
proof -
  have "sm_config (fst (execute_with_policy env sm command cwd policy vars)) = sm_config sm" for env command cwd policy vars
    by (simp add: execute_with_policy_state initialize_keeps)
  then show ?thesis
    by (cases op) (simp_all add: initialize_keeps sandbox_shutdown_def sandbox_execute_def sandbox_build_def)
qed

lemma foldl_config: "sm_config (foldl sandbox_step sm ops) = sm_config sm"
  by (induction ops arbitrary: sm) (simp_all add: step_config)

section \<open>Properties\<close>

text \<open>The output of a container is cut exactly at its limit.  What is collected is the beginning of all that was written to
  each stream, half of the limit long, in order; it is marked as truncated exactly if some was left out; and text
  of single-byte characters is always collected.\<close>

theorem log_collection_exact:
  "(collect_logs ls lim = Some (out, err, trunc) \<longrightarrow>
      out = take (lim div 2) (all_stdout ls) \<and> err = take (lim div 2) (all_stderr ls) \<and>
      trunc = (out \<noteq> all_stdout ls \<or> err \<noteq> all_stderr ls) \<and> length out + length err \<le> lim) \<and>
   ((\<forall>l \<in> set ls. single_bytes (stdout_of l) \<and> single_bytes (stderr_of l)) \<longrightarrow> collect_logs ls lim \<noteq> None)"
  using collect_logs_exact [of ls lim out err trunc] collect_loop_single [of ls "lim div 2" "[]" "[]" False]
  by (auto simp: collect_logs_def)

theorem log_collection_exact_witness:
  "\<exists>r. collect_logs [StdOut ''hello'', StdErr ''no'', OtherLog, StdOut '' world''] 12 = Some r \<and> fst r = ''hello ''"
proof -
  obtain out err trunc where r: "collect_logs [StdOut ''hello'', StdErr ''no'', OtherLog, StdOut '' world''] 12 = Some (out, err, trunc)"
    by (simp add: collect_logs_def push_log_def slice_to_def is_char_boundary_def is_continuation_def char_code_def Let_def)
  with log_collection_exact [of "[StdOut ''hello'', StdErr ''no'', OtherLog, StdOut '' world'']" 12 out err trunc] show ?thesis by simp
qed

text \<open>Every container that starts is removed.  When a run returns, in success, in failure of the command or of the daemon,
  or by its timeout, its last request removes the container it started, and the output it returns fits the limit; only
  a container that was created and could not be started is left behind.\<close>

theorem started_containers_removed:
  assumes "runner_execute env runner command dir policy limits vars = (Some r, calls)"
  shows "((\<exists>cfg cid. dk_create env cfg = Ok cid \<and> dk_start env cid = Ok () \<and> CreateContainer cfg = hd calls \<and>
        StartContainer cid \<in> set calls \<and> last calls = RemoveContainer cid) \<or>
      (\<exists>cfg cid e. dk_create env cfg = Ok cid \<and> dk_start env cid = Err e \<and> r = Err (ContainerStartFailed e) \<and>
        calls = [CreateContainer cfg, StartContainer cid]) \<or>
      (\<exists>cfg e. dk_create env cfg = Err e \<and> r = Err (ContainerCreationFailed e) \<and> calls = [CreateContainer cfg])) \<and>
    (\<forall>out. r = Ok out \<longrightarrow> length (co_stdout out) + length (co_stderr out) \<le> rl_max_output_bytes limits)"
  using runner_execute_calls [OF assms] by blast

definition sample_docker :: "(string, unit) result \<Rightarrow> log_output list \<Rightarrow> docker_env" where
  "sample_docker start logs =
     \<lparr>dk_local = True, dk_home = True, dk_desktop_socket = False, dk_desktop = False, dk_ping = Ok (), dk_image_exists = (\<lambda>_. True),
      dk_pull = (\<lambda>_. []), dk_create = (\<lambda>_. Ok ''c1''), dk_start = (\<lambda>_. start), dk_wait = (\<lambda>_. Some (Ok 0)), dk_logs = (\<lambda>_. logs),
      dk_timed_out = False, dk_elapsed = 5, dk_create_exec = (\<lambda>_ _ _. Ok ''e1''), dk_start_exec = (\<lambda>_. Ok (Some logs)),
      dk_inspect_exec = (\<lambda>_. Ok (Some 0)), dk_uuid = ''1'', dk_linux = True\<rparr>"

definition sample_runner :: container_runner where
  "sample_runner = \<lparr>cr_image = ''img'', cr_proxy_port = 8080\<rparr>"

theorem started_containers_removed_witness:
  "\<exists>cfg cid. last (snd (runner_execute (sample_docker (Ok ()) [StdOut ''hi'']) sample_runner ''ls'' ''/w'' ReadOnly resource_limits_default [])) =
      RemoveContainer cid \<and> dk_create (sample_docker (Ok ()) [StdOut ''hi'']) cfg = Ok cid"
proof -
  let ?e = "sample_docker (Ok ()) [StdOut ''hi'']"
  have "fst (runner_execute ?e sample_runner ''ls'' ''/w'' ReadOnly resource_limits_default []) \<noteq> None"
    by (simp add: runner_execute_def wait_for_container_def sample_docker_def collect_logs_def push_log_def slice_to_def
        resource_limits_default_def Let_def)
  then obtain r calls where r: "runner_execute ?e sample_runner ''ls'' ''/w'' ReadOnly resource_limits_default [] = (Some r, calls)"
    by (metis fst_conv option.exhaust surj_pair)
  with started_containers_removed [OF r] show ?thesis by (auto simp: sample_docker_def)
qed

text \<open>A character that straddles the limit brings the collection down.  When the piece of output that crosses the limit has a
  character across it, the slice panics: the run returns nothing, and the container it started is not removed.\<close>

theorem split_character_panics:
  assumes "dk_create env (create_config env runner command dir policy limits vars) = Ok cid" and "dk_start env cid = Ok ()"
    and "\<not> dk_timed_out env" and "dk_wait env cid = Some (Ok code)" and "dk_logs env cid = StdOut t # rest"
    and "rl_max_output_bytes limits div 2 < length t" and "0 < rl_max_output_bytes limits div 2"
    and "is_continuation (t ! (rl_max_output_bytes limits div 2))"
  shows "fst (runner_execute env runner command dir policy limits vars) = None \<and>
    RemoveContainer cid \<notin> set (snd (runner_execute env runner command dir policy limits vars))"
proof -
  have "\<not> is_char_boundary t (rl_max_output_bytes limits div 2)" using assms(6-8) by (simp add: is_char_boundary_def)
  with assms(6) have "collect_logs (dk_logs env cid) (rl_max_output_bytes limits) = None"
    by (simp add: assms(5) collect_logs_def push_log_def slice_to_def Let_def min_def)
  with assms(1-4) show ?thesis by (simp add: runner_execute_def wait_for_container_def Let_def)
qed

theorem split_character_panics_witness:
  "fst (runner_execute (sample_docker (Ok ()) [StdOut [CHR 0xC3, CHR 0xA9]]) sample_runner ''ls'' ''/w'' ReadOnly
     (resource_limits_default\<lparr>rl_max_output_bytes := 2\<rparr>) []) = None"
  using split_character_panics [of "sample_docker (Ok ()) [StdOut [CHR 0xC3, CHR 0xA9]]" sample_runner "''ls''" "''/w''" ReadOnly
      "resource_limits_default\<lparr>rl_max_output_bytes := 2\<rparr>" "[]" "''c1''" 0 "[CHR 0xC3, CHR 0xA9]" "[]"]
  by (simp add: sample_docker_def is_continuation_def char_code_def)

text \<open>C20: A sandboxed command never runs on the host.  In any reachable state of the manager, a command with a policy other than
  full access runs only in a container: as the unprivileged user, without capabilities but one and without new
  privileges, on a read-only root, with the working directory as its only mount, writable exactly if the policy allows
  writes; and if the manager itself is configured for a sandbox, its proxy is running with the configured allowlist and,
  on a port other than zero, the container's proxy variables name it.\<close>

theorem sandboxed_run_confined:
  assumes "execute_with_policy env (foldl sandbox_step (sandbox_manager_new config) ops) command cwd policy vars = (sm', r, ex)"
    and "policy \<noteq> FullAccess"
  shows "(\<forall>c d. ex \<noteq> OnHost c d) \<and>
    (\<forall>calls cfg. ex = InDocker calls \<and> CreateContainer cfg \<in> set calls \<longrightarrow>
       cc_cmd cfg = [''sh'', ''-c'', command] \<and> cc_user cfg = ''1000:1000'' \<and>
       hc_binds (cc_host_config cfg) = [cwd @ '':/workspace:'' @ (if allows_writes policy then ''rw'' else ''ro'')] \<and>
       hc_readonly_rootfs (cc_host_config cfg) \<and> hc_cap_drop (cc_host_config cfg) = [''ALL''] \<and>
       hc_cap_add (cc_host_config cfg) = [''CHOWN''] \<and> hc_security_opt (cc_host_config cfg) = [''no-new-privileges:true''] \<and>
       (sc_policy config \<noteq> FullAccess \<longrightarrow>
          (\<exists>port. sm_proxy sm' = Some (DefaultPolicyDecider (map domain_pattern_new (sc_network_allowlist config)) default_credential_mappings, port) \<and>
             (port > 0 \<longrightarrow> set (proxy_variables (se_docker env) port) \<subseteq> set (cc_env cfg)))))"
proof -
  define sm where "sm = foldl sandbox_step (sandbox_manager_new config) ops"
  have inv: "manager_inv sm" unfolding sm_def by (rule managers.run_inv) (simp add: manager_inv_def sandbox_manager_new_def)
  have cfg: "sm_config sm = config" unfolding sm_def by (simp add: foldl_config sandbox_manager_new_def)
  have "ex \<noteq> OnHost c d" for c d
    using assms by (auto simp: execute_with_policy_def Let_def split: prod.splits sum.splits if_splits)
  moreover have "cc_cmd cc = [''sh'', ''-c'', command] \<and> cc_user cc = ''1000:1000'' \<and>
       hc_binds (cc_host_config cc) = [cwd @ '':/workspace:'' @ (if allows_writes policy then ''rw'' else ''ro'')] \<and>
       hc_readonly_rootfs (cc_host_config cc) \<and> hc_cap_drop (cc_host_config cc) = [''ALL''] \<and>
       hc_cap_add (cc_host_config cc) = [''CHOWN''] \<and> hc_security_opt (cc_host_config cc) = [''no-new-privileges:true''] \<and>
       (sc_policy config \<noteq> FullAccess \<longrightarrow>
          (\<exists>port. sm_proxy sm' = Some (DefaultPolicyDecider (map domain_pattern_new (sc_network_allowlist config)) default_credential_mappings, port) \<and>
             (port > 0 \<longrightarrow> set (proxy_variables (se_docker env) port) \<subseteq> set (cc_env cc))))"
    if ex: "ex = InDocker calls" and cc: "CreateContainer cc \<in> set calls" for calls cc
  proof -
    obtain runner c where run: "runner_execute (se_docker env) runner command cwd policy (manager_limits (sm_config sm)) vars = (c, calls)"
      and port: "cr_proxy_port runner = (case sm_proxy sm' of Some (_, port) \<Rightarrow> port | None \<Rightarrow> 0)"
      and sm': "sm_initialized sm'" "sm_config sm' = sm_config sm" "manager_inv sm'"
      by (rule execute_with_policy_run [OF assms(1) [folded sm_def, unfolded ex] inv]) (rule that)
    have c: "cc = create_config (se_docker env) runner command cwd policy (manager_limits (sm_config sm)) vars"
      using runner_creates [OF run cc] .
    have proxy: "\<exists>p. sm_proxy sm' = Some (DefaultPolicyDecider (map domain_pattern_new (sc_network_allowlist config)) default_credential_mappings, p)"
      if "sc_policy config \<noteq> FullAccess"
      using sm' that unfolding manager_inv_def
      by (cases "sm_proxy sm'") (auto simp: cfg build_decider_def proxy_builder_from_config_def has_full_network_def)
    from assms(2) have "hc_binds (cc_host_config cc) = [cwd @ '':/workspace:'' @ (if allows_writes policy then ''rw'' else ''ro'')]"
      unfolding c create_config_def by (cases policy) (simp_all add: policy_binds_def allows_writes_def)
    then show ?thesis using proxy port assms(2) by (auto simp: c create_config_def is_sandboxed_def)
  qed
  ultimately show ?thesis by blast
qed

definition sample_sandbox_env :: sandbox_env where
  "sample_sandbox_env =
     \<lparr>se_docker = sample_docker (Ok ()) [StdOut ''hi''], se_bind = (\<lambda>_. Ok 8080), se_run = (\<lambda>_ _ _. Err ''no shell''),
      se_timed_out = False, se_elapsed = 1, se_show_duration = nat_str\<rparr>"

lemma sandbox_sample_run:
  assumes "sc_enabled config" and "policy \<noteq> FullAccess"
  shows "\<exists>sm' r cfg calls. execute_with_policy sample_sandbox_env (sandbox_manager_new config) c d policy [] =
    (sm', r, InDocker (CreateContainer cfg # calls))"
proof -
  let ?sm = "sandbox_manager_new config"
  obtain sm1 where i: "sandbox_initialize sample_sandbox_env ?sm = (sm1, Ok ())" "sm_docker sm1"
    using assms(1) by (cases "is_sandboxed (sc_policy config)")
      (auto simp: sandbox_initialize_def sandbox_manager_new_def sample_sandbox_env_def sample_docker_def connect_docker_def image_ready_def Let_def)
  let ?run = "\<lambda>port. runner_execute (se_docker sample_sandbox_env) \<lparr>cr_image = sc_image (sm_config sm1), cr_proxy_port = port\<rparr> c d policy
    (manager_limits (sm_config sm1)) []"
  have "\<exists>o' cfg calls. ?run port = (o', CreateContainer cfg # calls)" for port
    by (simp add: runner_execute_def wait_for_container_def sample_sandbox_env_def sample_docker_def collect_logs_def push_log_def
        slice_to_def manager_limits_def Let_def)
  then obtain o' cfg calls where "?run (case sm_proxy sm1 of Some (_, port) \<Rightarrow> port | None \<Rightarrow> 0) = (o', CreateContainer cfg # calls)" by blast
  moreover have "\<not> sm_initialized ?sm" by (simp add: sandbox_manager_new_def)
  ultimately show ?thesis using assms(2) i by (simp add: execute_with_policy_def Let_def)
qed

theorem sandboxed_run_confined_witness:
  "\<exists>sm' r cfg calls. execute_with_policy sample_sandbox_env (sandbox_manager_new (sandbox_config_default\<lparr>sc_enabled := True\<rparr>))
      ''ls'' ''/w'' ReadOnly [] = (sm', r, InDocker (CreateContainer cfg # calls)) \<and>
    hc_binds (cc_host_config cfg) = [''/w:/workspace:ro''] \<and> sm_proxy sm' \<noteq> None"
proof -
  let ?config = "sandbox_config_default\<lparr>sc_enabled := True\<rparr>"
  obtain sm' r cfg calls where run: "execute_with_policy sample_sandbox_env (sandbox_manager_new ?config) ''ls'' ''/w'' ReadOnly [] =
    (sm', r, InDocker (CreateContainer cfg # calls))"
    using sandbox_sample_run [of ?config ReadOnly "''ls''" "''/w''"] by auto
  have "execute_with_policy sample_sandbox_env (foldl sandbox_step (sandbox_manager_new ?config) []) ''ls'' ''/w'' ReadOnly [] =
    (sm', r, InDocker (CreateContainer cfg # calls))" using run by simp
  note all = sandboxed_run_confined [OF this, THEN conjunct2, THEN spec, THEN spec, THEN mp]
  have "hc_binds (cc_host_config cfg) = [''/w:/workspace:ro'']"
    using all [of "CreateContainer cfg # calls" cfg] by (simp add: allows_writes_def)
  moreover have "sm_proxy sm' \<noteq> None"
    using all [of "CreateContainer cfg # calls" cfg] by (auto simp: sandbox_config_default_def)
  ultimately show ?thesis using run by blast
qed

text \<open>A manager configured for full access has no proxy to give to the sandboxed commands it is asked to run: a build, which
  asks for the workspace policy, runs on the bridge network with none of the proxy variables, so with the network
  unfiltered.\<close>

theorem unproxied_build:
  assumes "sc_policy config = FullAccess"
    and "sandbox_build env (foldl sandbox_step (sandbox_manager_new config) ops) command dir vars = (sm', r, InDocker calls)"
    and "CreateContainer cfg \<in> set calls"
  shows "sm_proxy sm' = None \<and> cc_env cfg = map env_entry vars \<and> hc_network_mode (cc_host_config cfg) = ''bridge''"
proof -
  define sm where "sm = foldl sandbox_step (sandbox_manager_new config) ops"
  have inv: "manager_inv sm" unfolding sm_def by (rule managers.run_inv) (simp add: manager_inv_def sandbox_manager_new_def)
  have c: "sm_config sm = config" unfolding sm_def by (simp add: foldl_config sandbox_manager_new_def)
  obtain runner o' where run: "runner_execute (se_docker env) runner command dir WorkspaceWrite (manager_limits (sm_config sm)) vars = (o', calls)"
    and port: "cr_proxy_port runner = (case sm_proxy sm' of Some (_, port) \<Rightarrow> port | None \<Rightarrow> 0)"
    and sm': "sm_initialized sm'" "sm_config sm' = sm_config sm" "manager_inv sm'"
    by (rule execute_with_policy_run [OF assms(2) [folded sm_def, unfolded sandbox_build_def] inv]) (rule that)
  from sm' assms(1) c have "sm_proxy sm' = None" by (simp add: manager_inv_def)
  with port runner_creates [OF run assms(3)] show ?thesis by (simp add: create_config_def)
qed

theorem unproxied_build_witness:
  "\<exists>sm' r cfg calls. sandbox_build sample_sandbox_env (sandbox_manager_new (sandbox_config_default\<lparr>sc_enabled := True, sc_policy := FullAccess\<rparr>))
      ''make'' ''/w'' [] = (sm', r, InDocker (CreateContainer cfg # calls)) \<and> cc_env cfg = []"
proof -
  let ?config = "sandbox_config_default\<lparr>sc_enabled := True, sc_policy := FullAccess\<rparr>"
  obtain sm' r cfg calls where run: "sandbox_build sample_sandbox_env (sandbox_manager_new ?config) ''make'' ''/w'' [] =
    (sm', r, InDocker (CreateContainer cfg # calls))"
    using sandbox_sample_run [of ?config WorkspaceWrite "''make''" "''/w''"] by (auto simp: sandbox_build_def)
  from unproxied_build [of ?config sample_sandbox_env "[]", simplified, OF run] run show ?thesis by auto
qed

text \<open>The output of a command run in an existing container can be cut without a mark: once a stream has filled its half of
  the limit exactly, everything written to it later is dropped and the result does not say that it was truncated.\<close>

theorem exec_output_dropped:
  assumes "0 < half" and "length full = half"
  shows "exec_loop half [] [] False (StdOut full # map StdOut later) = Some (full, [], False)"
proof -
  have "exec_loop half full [] False (map StdOut later) = Some (full, [], False)"
    using assms(2) by (induction later) (simp_all add: push_exec_def)
  then show ?thesis using assms by (simp add: push_exec_def slice_to_def is_char_boundary_def)
qed

theorem exec_output_dropped_witness:
  "exec_loop 2 [] [] False [StdOut ''ok'', StdOut ''error: lost''] = Some (''ok'', [], False)"
  using exec_output_dropped [of 2 "''ok''" "[''error: lost'']"] by simp

text \<open>When the timeout of the shell tool fires first, nobody removes the container.  The tool reports a timeout, and of the
  requests the dropped run had made by then, up to any before its last, none removes the container that it started; the
  container goes on running.\<close>

theorem shell_timeout_leaves_container:
  assumes "shell_sandbox env sm None (RunSandboxed cmd dir policy t) = (r, InDocker calls)" and "manager_inv sm" and "n < length calls"
  shows "shell_sandbox env sm (Some n) (RunSandboxed cmd dir policy t) = (Some SandboxTimeout, InDocker (take n calls)) \<and>
    (\<forall>cid. RemoveContainer cid \<notin> set (take n calls))"
proof -
  obtain sm' o' where run: "execute_with_policy env sm cmd dir policy [] = (sm', o', InDocker calls)"
    using assms(1) by (auto simp: shell_sandbox_def split: prod.splits)
  obtain runner c where "runner_execute (se_docker env) runner cmd dir policy (manager_limits (sm_config sm)) [] = (c, calls)"
    by (rule execute_with_policy_run [OF run assms(2)]) (rule that)
  then have "\<forall>cid. RemoveContainer cid \<notin> set (butlast calls)"
    by (auto simp: runner_execute_def wait_for_container_def Let_def split: if_splits prod.splits option.splits sum.splits)
  moreover have "set (take n calls) \<subseteq> set (butlast calls)"
    using assms(3) set_take_subset_set_take [of n "length calls - 1" calls] by (simp add: butlast_conv_take)
  ultimately show ?thesis using run by (auto simp: shell_sandbox_def cut_execution_def)
qed

theorem shell_timeout_leaves_container_witness:
  "\<exists>calls. shell_sandbox sample_sandbox_env (sandbox_manager_new (sandbox_config_default\<lparr>sc_enabled := True\<rparr>)) (Some 0)
     (RunSandboxed ''sleep 999'' ''/w'' ReadOnly 1) = (Some SandboxTimeout, InDocker calls)"
proof -
  let ?sm = "sandbox_manager_new (sandbox_config_default\<lparr>sc_enabled := True\<rparr>)"
  obtain sm' r cfg calls where run: "execute_with_policy sample_sandbox_env ?sm ''sleep 999'' ''/w'' ReadOnly [] =
    (sm', r, InDocker (CreateContainer cfg # calls))"
    using sandbox_sample_run [of "sandbox_config_default\<lparr>sc_enabled := True\<rparr>" ReadOnly "''sleep 999''" "''/w''"] by auto
  then obtain q where "shell_sandbox sample_sandbox_env ?sm None (RunSandboxed ''sleep 999'' ''/w'' ReadOnly 1) =
    (q, InDocker (CreateContainer cfg # calls))" by (simp add: shell_sandbox_def)
  moreover have "manager_inv ?sm" by (simp add: manager_inv_def sandbox_manager_new_def)
  ultimately show ?thesis using shell_timeout_leaves_container [of sample_sandbox_env ?sm _ _ _ _ _ _ 0] by fastforce
qed

end
