(* ===== verification/Container_Jobs.thy ===== *)
theory Container_Jobs
  imports Worker_Auth File_System Llm_Types Credentials Reasoning
begin

text \<open>
  Jobs in containers: the manager of \<^verbatim>\<open>src/src/orchestrator/job_manager.rs\<close> with its handles and tokens, and the handlers of
  the API the containers call, \<^verbatim>\<open>src/src/orchestrator/api.rs\<close>, behind the token check of \<open>Worker_Auth\<close>.  The Docker daemon,
  the environment of the process and the display of a UUID are the fields of \<open>orchestrator_env\<close>.  The creation, the
  stop and the completion of a job are given as their lock sections and as the composition of these; the histories of
  the manager are sequences of sections, so that the sections of different calls may come in any order.
\<close>

section \<open>Data\<close>

datatype job_mode = WorkerMode | ClaudeCode | OpenCode

fun job_mode_as_str :: "job_mode \<Rightarrow> string" where
  "job_mode_as_str WorkerMode = ''worker''"
| "job_mode_as_str ClaudeCode = ''claude_code''"
| "job_mode_as_str OpenCode = ''opencode''"

record container_job_config =
  jc_image :: string
  jc_memory_limit_mb :: u64
  jc_cpu_shares :: u32
  jc_orchestrator_port :: nat
  jc_auto_pull_image :: bool
  jc_claude_code_api_key :: "string option"
  jc_claude_code_oauth_token :: "string option"
  jc_claude_code_model :: string
  jc_claude_code_max_turns :: u32
  jc_claude_code_memory_limit_mb :: u64
  jc_claude_code_allowed_tools :: "string list"

datatype container_state = CCreating | CRunning | CStopped | CFailed

fun container_state_str :: "container_state \<Rightarrow> string" where
  "container_state_str CCreating = ''creating''"
| "container_state_str CRunning = ''running''"
| "container_state_str CStopped = ''stopped''"
| "container_state_str CFailed = ''failed''"

record completion_result =
  cp_success :: bool
  cp_message :: "string option"

record container_handle =
  ch_job_id :: uuid
  ch_container_id :: string
  ch_state :: container_state
  ch_mode :: job_mode
  ch_created_at :: instant
  ch_project_dir :: "path option"
  ch_task_description :: string
  ch_last_worker_status :: "string option"
  ch_worker_iteration :: u32
  ch_completion_result :: "completion_result option"

datatype orchestrator_error =
    OrchCreationFailed uuid string
  | ContainerNotFound uuid
  | InvalidContainerState uuid string
  | OrchestratorApiError string
  | OrchestratorDocker string

record worker_host_config =
  wh_binds :: "string list option"
  wh_memory :: int
  wh_cpu_shares :: int
  wh_network_mode :: string
  wh_extra_hosts :: "string list"
  wh_cap_drop :: "string list"
  wh_cap_add :: "string list"
  wh_security_opt :: "string list"
  wh_tmpfs :: "(string \<times> string) list"

record worker_container =
  wc_name :: string
  wc_image :: string
  wc_cmd :: "string list"
  wc_env :: "string list"
  wc_host_config :: worker_host_config
  wc_user :: string
  wc_working_dir :: string

datatype container_call =
    CreateWorker worker_container
  | StartWorker string
  | StopWorker string nat
  | RemoveWorker string

record orchestrator_env =
  oe_connect :: "(string, unit) result"
  oe_image_exists :: "string \<Rightarrow> bool"
  oe_pull :: "string \<Rightarrow> (string, unit) result list"
  oe_create :: "worker_container \<Rightarrow> (string, string) result"
  oe_start :: "string \<Rightarrow> (string, unit) result"
  oe_linux :: bool
  oe_opencode_model :: "string option"
  oe_home :: "path option"
  oe_fs :: file_system
  oe_show_uuid :: "uuid \<Rightarrow> string"

record job_manager =
  jm_config :: container_job_config
  jm_token_store :: token_store
  jm_containers :: "(uuid \<times> container_handle) list"
  jm_docker :: bool

definition job_manager_new :: "container_job_config \<Rightarrow> token_store \<Rightarrow> job_manager" where
  "job_manager_new config tokens = \<lparr>jm_config = config, jm_token_store = tokens, jm_containers = [], jm_docker = False\<rparr>"

section \<open>What a container is given\<close>

definition claude_code_available :: "container_job_config \<Rightarrow> bool" where
  "claude_code_available c \<longleftrightarrow>
     (case jc_claude_code_api_key c of Some v \<Rightarrow> trim v \<noteq> [] | None \<Rightarrow> False) \<or>
     (case jc_claude_code_oauth_token c of Some v \<Rightarrow> trim v \<noteq> [] | None \<Rightarrow> False)"

text \<open>The file system the check leaves behind: it makes the base directory.\<close>

definition validate_bind_mount_path ::
  "orchestrator_env \<Rightarrow> path \<Rightarrow> uuid \<Rightarrow> (orchestrator_error, path) result" where
  "validate_bind_mount_path env dir job_id =
     (let fs = oe_fs env; failed = (\<lambda>m. Err (OrchCreationFailed job_id m)) in
      case canonicalize fs dir of
        None \<Rightarrow> failed (''failed to canonicalize project dir '' @ path_display dir @ '': '' @ fs_error fs dir)
      | Some canonical \<Rightarrow>
          (case oe_home env of
             None \<Rightarrow> failed ''could not determine home directory for path validation''
           | Some home \<Rightarrow>
               let projects_base = join_path (join_path home [Normal ''.ironclaw'']) [Normal ''projects'']
               in case create_dir_all fs projects_base of
                 None \<Rightarrow> failed (''failed to create projects base '' @ path_display projects_base @ '': '' @ fs_error fs projects_base)
               | Some fs \<Rightarrow>
                   (case canonicalize fs projects_base of
                      None \<Rightarrow> failed (''failed to canonicalize projects base '' @ path_display projects_base @ '': '' @ fs_error fs projects_base)
                    | Some canonical_base \<Rightarrow>
                        if \<not> path_starts_with canonical canonical_base
                        then failed (''project directory '' @ path_display canonical @ '' is outside allowed base '' @ path_display canonical_base)
                        else Ok canonical)))"

definition nonblank :: "string option \<Rightarrow> string option" where
  "nonblank v = (case v of Some m \<Rightarrow> if trim m \<noteq> [] then Some m else None | None \<Rightarrow> None)"

definition mode_env :: "orchestrator_env \<Rightarrow> container_job_config \<Rightarrow> job_mode \<Rightarrow> string list" where
  "mode_env env c mode =
     (case mode of
        ClaudeCode \<Rightarrow>
          (case jc_claude_code_api_key c of
             Some api_key \<Rightarrow> [''ANTHROPIC_API_KEY='' @ api_key]
           | None \<Rightarrow> (case jc_claude_code_oauth_token c of Some t \<Rightarrow> [''CLAUDE_CODE_OAUTH_TOKEN='' @ t] | None \<Rightarrow> [])) @
          (if jc_claude_code_allowed_tools c \<noteq> []
           then [''CLAUDE_CODE_ALLOWED_TOOLS='' @ join '','' (jc_claude_code_allowed_tools c)] else [])
      | OpenCode \<Rightarrow>
          ''CODING_RUNTIME=opencode'' #
          (case nonblank (oe_opencode_model env) of Some model \<Rightarrow> [''OPENCODE_MODEL='' @ model] | None \<Rightarrow> [])
      | WorkerMode \<Rightarrow> [])"

definition mode_cmd :: "orchestrator_env \<Rightarrow> container_job_config \<Rightarrow> job_mode \<Rightarrow> string \<Rightarrow> string \<Rightarrow> string list" where
  "mode_cmd env c mode jid url =
     (case mode of
        WorkerMode \<Rightarrow> [''worker'', ''--job-id'', jid, ''--orchestrator-url'', url]
      | ClaudeCode \<Rightarrow>
          [''claude-bridge'', ''--job-id'', jid, ''--orchestrator-url'', url, ''--max-turns'',
           nat_str (unat (jc_claude_code_max_turns c)), ''--model'', jc_claude_code_model c]
      | OpenCode \<Rightarrow>
          [''opencode-bridge'', ''--job-id'', jid, ''--orchestrator-url'', url, ''--max-turns'',
           nat_str (unat (jc_claude_code_max_turns c)), ''--model'',
           (case nonblank (oe_opencode_model env) of Some m \<Rightarrow> m | None \<Rightarrow> ''openai/gpt-4.1-mini'')])"

definition mode_memory :: "container_job_config \<Rightarrow> job_mode \<Rightarrow> u64" where
  "mode_memory c mode =
     (case mode of
        ClaudeCode \<Rightarrow> jc_claude_code_memory_limit_mb c
      | OpenCode \<Rightarrow> jc_claude_code_memory_limit_mb c
      | WorkerMode \<Rightarrow> jc_memory_limit_mb c)"

definition container_name :: "job_mode \<Rightarrow> string \<Rightarrow> string" where
  "container_name mode jid =
     (case mode of
        WorkerMode \<Rightarrow> ''ironclaw-worker-'' @ jid
      | ClaudeCode \<Rightarrow> ''ironclaw-claude-'' @ jid
      | OpenCode \<Rightarrow> ''ironclaw-opencode-'' @ jid)"

definition worker_config ::
  "orchestrator_env \<Rightarrow> container_job_config \<Rightarrow> uuid \<Rightarrow> string \<Rightarrow> path option \<Rightarrow> job_mode \<Rightarrow> worker_container" where
  "worker_config env c job_id token canonical mode =
     (let jid = oe_show_uuid env job_id;
          url = ''http://'' @ (if oe_linux env then ''172.17.0.1'' else ''host.docker.internal'') @ '':'' @ nat_str (jc_orchestrator_port c);
          binds = (case canonical of Some d \<Rightarrow> [path_display d @ '':/workspace:rw''] | None \<Rightarrow> [])
      in \<lparr>wc_name = container_name mode jid, wc_image = jc_image c, wc_cmd = mode_cmd env c mode jid url,
          wc_env = [''IRONCLAW_WORKER_TOKEN='' @ token, ''IRONCLAW_JOB_ID='' @ jid, ''IRONCLAW_ORCHESTRATOR_URL='' @ url] @
            (if canonical \<noteq> None then [''IRONCLAW_WORKSPACE=/workspace''] else []) @ mode_env env c mode,
          wc_host_config =
            \<lparr>wh_binds = (if binds = [] then None else Some binds), wh_memory = sint (mode_memory c mode * 1024 * 1024),
             wh_cpu_shares = int (unat (jc_cpu_shares c)), wh_network_mode = ''bridge'',
             wh_extra_hosts = [''host.docker.internal:host-gateway''], wh_cap_drop = [''ALL''], wh_cap_add = [''CHOWN''],
             wh_security_opt = [''no-new-privileges:true''], wh_tmpfs = [(''/tmp'', ''size=512M'')]\<rparr>,
          wc_user = ''1000:1000'', wc_working_dir = ''/workspace''\<rparr>)"

section \<open>Creating a job\<close>

fun pull_results :: "uuid \<Rightarrow> string \<Rightarrow> (string, unit) result list \<Rightarrow> (orchestrator_error, unit) result" where
  "pull_results job_id img [] = Ok ()"
| "pull_results job_id img (Ok _ # rest) = pull_results job_id img rest"
| "pull_results job_id img (Err e # rest) =
     Err (OrchCreationFailed job_id (''failed to pull docker image '' @ img @ '': '' @ e))"

definition ensure_image_ready :: "orchestrator_env \<Rightarrow> container_job_config \<Rightarrow> uuid \<Rightarrow> (orchestrator_error, unit) result" where
  "ensure_image_ready env c job_id =
     (if oe_image_exists env (jc_image c) then Ok ()
      else if \<not> jc_auto_pull_image c
      then Err (OrchCreationFailed job_id (''docker image '' @ jc_image c @ '' not found and sandbox.auto_pull_image is disabled''))
      else pull_results job_id (jc_image c) (oe_pull env (jc_image c)))"

definition manager_docker :: "orchestrator_env \<Rightarrow> job_manager \<Rightarrow> job_manager \<times> (orchestrator_error, unit) result" where
  "manager_docker env jm =
     (if jm_docker jm then (jm, Ok ())
      else case oe_connect env of
        Err e \<Rightarrow> (jm, Err (OrchestratorDocker e))
      | Ok _ \<Rightarrow> (jm\<lparr>jm_docker := True\<rparr>, Ok ()))"

text \<open>The first three sections: the token, the grants and the handle.\<close>

definition token_section :: "job_manager \<Rightarrow> uuid \<Rightarrow> u8 list \<Rightarrow> job_manager \<times> string" where
  "token_section jm job_id bytes =
     (let (ts, token) = create_token (jm_token_store jm) job_id bytes in (jm\<lparr>jm_token_store := ts\<rparr>, token))"

definition grants_section :: "job_manager \<Rightarrow> uuid \<Rightarrow> credential_grant list \<Rightarrow> job_manager" where
  "grants_section jm job_id grants = jm\<lparr>jm_token_store := store_grants (jm_token_store jm) job_id grants\<rparr>"

definition handle_section :: "job_manager \<Rightarrow> uuid \<Rightarrow> string \<Rightarrow> path option \<Rightarrow> job_mode \<Rightarrow> instant \<Rightarrow> job_manager" where
  "handle_section jm job_id task project_dir mode now =
     (let handle = \<lparr>ch_job_id = job_id, ch_container_id = [], ch_state = CCreating, ch_mode = mode, ch_created_at = now,
                    ch_project_dir = project_dir, ch_task_description = task, ch_last_worker_status = None,
                    ch_worker_iteration = 0, ch_completion_result = None\<rparr>
      in jm\<lparr>jm_containers := AList.update job_id handle (jm_containers jm)\<rparr>)"

definition create_begin ::
  "job_manager \<Rightarrow> uuid \<Rightarrow> string \<Rightarrow> path option \<Rightarrow> job_mode \<Rightarrow> credential_grant list \<Rightarrow> u8 list \<Rightarrow> instant \<Rightarrow> job_manager \<times> string" where
  "create_begin jm job_id task project_dir mode grants bytes now =
     (let (jm, token) = token_section jm job_id bytes;
          jm = grants_section jm job_id grants
      in (handle_section jm job_id task project_dir mode now, token))"

text \<open>The container, with no lock held; its identifier if it was started.\<close>

definition create_container ::
  "orchestrator_env \<Rightarrow> job_manager \<Rightarrow> uuid \<Rightarrow> string \<Rightarrow> path option \<Rightarrow> job_mode \<Rightarrow>
   job_manager \<times> (orchestrator_error, string) result \<times> container_call list" where
  "create_container env jm job_id token project_dir mode =
     (case manager_docker env jm of
        (jm, Err e) \<Rightarrow> (jm, Err e, [])
      | (jm, Ok _) \<Rightarrow>
          (case ensure_image_ready env (jm_config jm) job_id of
             Err e \<Rightarrow> (jm, Err e, [])
           | Ok _ \<Rightarrow>
               (case (case project_dir of
                        None \<Rightarrow> Ok None
                      | Some dir \<Rightarrow>
                          (case validate_bind_mount_path env dir job_id of Err e \<Rightarrow> Err e | Ok canonical \<Rightarrow> Ok (Some canonical))) of
                  Err e \<Rightarrow> (jm, Err e, [])
                | Ok canonical \<Rightarrow>
                    let cfg = worker_config env (jm_config jm) job_id token canonical mode
                    in (case oe_create env cfg of
                          Err e \<Rightarrow> (jm, Err (OrchCreationFailed job_id e), [CreateWorker cfg])
                        | Ok cid \<Rightarrow>
                            (case oe_start env cid of
                               Err e \<Rightarrow>
                                 (jm, Err (OrchCreationFailed job_id (''failed to start container: '' @ e)), [CreateWorker cfg, StartWorker cid])
                             | Ok _ \<Rightarrow> (jm, Ok cid, [CreateWorker cfg, StartWorker cid]))))))"

definition update_handle :: "uuid \<Rightarrow> (container_handle \<Rightarrow> container_handle) \<Rightarrow> job_manager \<Rightarrow> job_manager" where
  "update_handle job_id f jm =
     (case map_of (jm_containers jm) job_id of
        Some h \<Rightarrow> jm\<lparr>jm_containers := AList.update job_id (f h) (jm_containers jm)\<rparr>
      | None \<Rightarrow> jm)"

text \<open>The last section: the handle learns its container.\<close>

definition create_finish :: "job_manager \<Rightarrow> uuid \<Rightarrow> string \<Rightarrow> job_manager" where
  "create_finish jm job_id cid = update_handle job_id (\<lambda>h. h\<lparr>ch_container_id := cid, ch_state := CRunning\<rparr>) jm"

text \<open>The cleanup after a failure: two sections.\<close>

definition revoke_section :: "job_manager \<Rightarrow> uuid \<Rightarrow> job_manager" where
  "revoke_section jm job_id = jm\<lparr>jm_token_store := revoke (jm_token_store jm) job_id\<rparr>"

definition remove_section :: "job_manager \<Rightarrow> uuid \<Rightarrow> job_manager" where
  "remove_section jm job_id = jm\<lparr>jm_containers := AList.delete job_id (jm_containers jm)\<rparr>"

definition create_abort :: "job_manager \<Rightarrow> uuid \<Rightarrow> job_manager" where
  "create_abort jm job_id = remove_section (revoke_section jm job_id) job_id"

definition create_container_job ::
  "orchestrator_env \<Rightarrow> job_manager \<Rightarrow> uuid \<Rightarrow> string \<Rightarrow> path option \<Rightarrow> job_mode \<Rightarrow> credential_grant list \<Rightarrow> u8 list \<Rightarrow> instant \<Rightarrow>
   job_manager \<times> (orchestrator_error, string) result \<times> container_call list" where
  "create_container_job env jm job_id task project_dir mode grants bytes now =
     (case create_begin jm job_id task project_dir mode grants bytes now of
        (jm, token) \<Rightarrow>
          (case create_container env jm job_id token project_dir mode of
             (jm, Ok cid, calls) \<Rightarrow> (create_finish jm job_id cid, Ok token, calls)
           | (jm, Err e, calls) \<Rightarrow> (create_abort jm job_id, Err e, calls)))"

section \<open>The end of a job\<close>

text \<open>Stopping: the container is looked up, stopped and removed with no lock held; then the handle is marked and the
  token revoked.\<close>

definition stop_container_section ::
  "orchestrator_env \<Rightarrow> job_manager \<Rightarrow> uuid \<Rightarrow> job_manager \<times> (orchestrator_error, container_call list) result" where
  "stop_container_section env jm job_id =
     (case map_of (jm_containers jm) job_id of
        None \<Rightarrow> (jm, Err (ContainerNotFound job_id))
      | Some h \<Rightarrow>
          let cid = ch_container_id h
          in if cid = [] then (jm, Err (InvalidContainerState job_id ''creating (no container ID yet)''))
             else (case manager_docker env jm of
               (jm, Err e) \<Rightarrow> (jm, Err e)
             | (jm, Ok _) \<Rightarrow> (jm, Ok [StopWorker cid 10, RemoveWorker cid])))"

definition stop_mark :: "job_manager \<Rightarrow> uuid \<Rightarrow> job_manager" where
  "stop_mark jm job_id = update_handle job_id (\<lambda>h. h\<lparr>ch_state := CStopped\<rparr>) jm"

definition stop_job ::
  "orchestrator_env \<Rightarrow> job_manager \<Rightarrow> uuid \<Rightarrow> job_manager \<times> (orchestrator_error, unit) result \<times> container_call list" where
  "stop_job env jm job_id =
     (case stop_container_section env jm job_id of
        (jm, Err e) \<Rightarrow> (jm, Err e, [])
      | (jm, Ok calls) \<Rightarrow> (revoke_section (stop_mark jm job_id) job_id, Ok (), calls))"

text \<open>Completing: the result is stored and the handle marked first; the container is stopped and removed with no lock
  held, if the handle names one; the token is revoked last.\<close>

definition complete_mark :: "job_manager \<Rightarrow> uuid \<Rightarrow> completion_result \<Rightarrow> job_manager" where
  "complete_mark jm job_id result =
     update_handle job_id (\<lambda>h. h\<lparr>ch_completion_result := Some result, ch_state := CStopped\<rparr>) jm"

definition complete_container_section :: "orchestrator_env \<Rightarrow> job_manager \<Rightarrow> uuid \<Rightarrow> job_manager \<times> container_call list" where
  "complete_container_section env jm job_id =
     (case map_option ch_container_id (map_of (jm_containers jm) job_id) of
        Some cid \<Rightarrow>
          if cid \<noteq> []
          then (case manager_docker env jm of
                  (jm, Ok _) \<Rightarrow> (jm, [StopWorker cid 5, RemoveWorker cid])
                | (jm, Err _) \<Rightarrow> (jm, []))
          else (jm, [])
      | None \<Rightarrow> (jm, []))"

definition complete_job ::
  "orchestrator_env \<Rightarrow> job_manager \<Rightarrow> uuid \<Rightarrow> completion_result \<Rightarrow> job_manager \<times> (orchestrator_error, unit) result \<times> container_call list" where
  "complete_job env jm job_id result =
     (case complete_container_section env (complete_mark jm job_id result) job_id of
        (jm, calls) \<Rightarrow> (revoke_section jm job_id, Ok (), calls))"

definition cleanup_job :: "job_manager \<Rightarrow> uuid \<Rightarrow> job_manager" where
  "cleanup_job jm job_id = remove_section jm job_id"

definition update_worker_status :: "job_manager \<Rightarrow> uuid \<Rightarrow> string option \<Rightarrow> u32 \<Rightarrow> job_manager" where
  "update_worker_status jm job_id message iteration =
     update_handle job_id (\<lambda>h. h\<lparr>ch_last_worker_status := message, ch_worker_iteration := iteration\<rparr>) jm"

definition get_handle :: "job_manager \<Rightarrow> uuid \<Rightarrow> container_handle option" where
  "get_handle jm job_id = map_of (jm_containers jm) job_id"

definition list_jobs :: "job_manager \<Rightarrow> container_handle list" where
  "list_jobs jm = map snd (jm_containers jm)"

section \<open>The API of the workers\<close>

record pending_prompt =
  pp_content :: string
  pp_done :: bool

record secrets_api =
  sa_get_decrypted :: "string \<Rightarrow> string \<Rightarrow> (secret_error, string) result"
  sa_get :: "string \<Rightarrow> string \<Rightarrow> bool"

datatype sse_event =
    JobMessage string string string
  | JobToolUse string string json
  | JobToolResult string string string
  | JobResult string string "string option"
  | JobStatus string string

record orchestrator_state =
  os_job_manager :: job_manager
  os_prompt_queue :: "(uuid \<times> pending_prompt list) list"
  os_events :: "(uuid \<times> sse_event) list"
  os_has_events :: bool
  os_usage :: "string list"
  os_user_id :: string

text \<open>A reply is a status and a body.\<close>

type_synonym api_reply = "nat \<times> json"

definition get_job :: "orchestrator_env \<Rightarrow> orchestrator_state \<Rightarrow> uuid \<Rightarrow> api_reply" where
  "get_job env st job_id =
     (case get_handle (os_job_manager st) job_id of
        None \<Rightarrow> (404, JNull)
      | Some h \<Rightarrow>
          (200, JObject [(''title'', JString (''Job '' @ oe_show_uuid env job_id)),
                         (''description'', JString (ch_task_description h)),
                         (''project_dir'', case ch_project_dir h of Some p \<Rightarrow> JString (path_display p) | None \<Rightarrow> JNull)]))"

fun format_finish_reason :: "finish_reason \<Rightarrow> string" where
  "format_finish_reason Stop = ''stop''"
| "format_finish_reason Length = ''length''"
| "format_finish_reason ToolUse = ''tool_use''"
| "format_finish_reason ContentFilter = ''content_filter''"
| "format_finish_reason FinishUnknown = ''unknown''"

definition llm_complete ::
  "(completion_request \<Rightarrow> (llm_error, completion_response) result) \<Rightarrow> chat_message list \<Rightarrow> u32 option \<Rightarrow> u32 option \<Rightarrow>
   string list option \<Rightarrow> api_reply" where
  "llm_complete llm msgs max_tokens temperature stop_sequences =
     (case llm \<lparr>cr_messages = msgs, cr_max_tokens = max_tokens, cr_temperature = temperature,
                cr_stop_sequences = stop_sequences, cr_metadata = []\<rparr> of
        Err _ \<Rightarrow> (502, JNull)
      | Ok resp \<Rightarrow>
          (200, JObject [(''content'', JString (rs_content resp)), (''input_tokens'', JNumber (nat_str (unat (rs_input_tokens resp)))),
                         (''output_tokens'', JNumber (nat_str (unat (rs_output_tokens resp)))),
                         (''finish_reason'', JString (format_finish_reason (rs_finish_reason resp)))]))"

definition tool_call_json :: "tool_call \<Rightarrow> json" where
  "tool_call_json tc = JObject [(''id'', JString (tc_id tc)), (''name'', JString (tc_name tc)), (''arguments'', tc_arguments tc)]"

definition llm_complete_with_tools ::
  "(tool_completion_request \<Rightarrow> (llm_error, tool_completion_response) result) \<Rightarrow> chat_message list \<Rightarrow> tool_definition list \<Rightarrow>
   u32 option \<Rightarrow> u32 option \<Rightarrow> string option \<Rightarrow> api_reply" where
  "llm_complete_with_tools llm msgs tools max_tokens temperature tool_choice =
     (case llm \<lparr>tr_messages = msgs, tr_tools = tools, tr_max_tokens = max_tokens, tr_temperature = temperature,
                tr_tool_choice = tool_choice, tr_metadata = []\<rparr> of
        Err _ \<Rightarrow> (502, JNull)
      | Ok resp \<Rightarrow>
          (200, JObject [(''content'', case ts_content resp of Some c \<Rightarrow> JString c | None \<Rightarrow> JNull),
                         (''tool_calls'', JArray (map tool_call_json (ts_tool_calls resp))),
                         (''input_tokens'', JNumber (nat_str (unat (ts_input_tokens resp)))),
                         (''output_tokens'', JNumber (nat_str (unat (ts_output_tokens resp)))),
                         (''finish_reason'', JString (format_finish_reason (ts_finish_reason resp)))]))"

definition report_status :: "orchestrator_state \<Rightarrow> uuid \<Rightarrow> string option \<Rightarrow> u32 \<Rightarrow> orchestrator_state \<times> api_reply" where
  "report_status st job_id message iteration =
     (st\<lparr>os_job_manager := update_worker_status (os_job_manager st) job_id message iteration\<rparr>, (200, JNull))"

definition report_complete ::
  "orchestrator_env \<Rightarrow> orchestrator_state \<Rightarrow> uuid \<Rightarrow> bool \<Rightarrow> string option \<Rightarrow> orchestrator_state \<times> api_reply" where
  "report_complete env st job_id success message =
     (case complete_job env (os_job_manager st) job_id \<lparr>cp_success = success, cp_message = message\<rparr> of
        (jm, _, _) \<Rightarrow> (st\<lparr>os_job_manager := jm\<rparr>, (200, JObject [(''status'', JString ''ok'')])))"

definition str_or :: "json \<Rightarrow> string \<Rightarrow> string \<Rightarrow> string" where
  "str_or data field dflt = (case json_str data field of Some s \<Rightarrow> s | None \<Rightarrow> dflt)"

definition sse_event_of :: "string \<Rightarrow> string \<Rightarrow> json \<Rightarrow> sse_event" where
  "sse_event_of job_id_str event_type data =
     (if event_type = ''message'' then JobMessage job_id_str (str_or data ''role'' ''assistant'') (str_or data ''content'' [])
      else if event_type = ''tool_use''
      then JobToolUse job_id_str (str_or data ''tool_name'' ''unknown'') (case json_get data ''input'' of Some v \<Rightarrow> v | None \<Rightarrow> JNull)
      else if event_type = ''tool_result''
      then JobToolResult job_id_str (str_or data ''tool_name'' ''unknown'') (str_or data ''output'' [])
      else if event_type = ''result'' then JobResult job_id_str (str_or data ''status'' ''unknown'') (json_str data ''session_id'')
      else JobStatus job_id_str (str_or data ''message'' []))"

definition job_event_handler ::
  "orchestrator_env \<Rightarrow> orchestrator_state \<Rightarrow> uuid \<Rightarrow> string \<Rightarrow> json \<Rightarrow> orchestrator_state \<times> api_reply" where
  "job_event_handler env st job_id event_type data =
     (let e = sse_event_of (oe_show_uuid env job_id) event_type data
      in (if os_has_events st then st\<lparr>os_events := os_events st @ [(job_id, e)]\<rparr> else st, (200, JNull)))"

definition get_prompt_handler :: "orchestrator_state \<Rightarrow> uuid \<Rightarrow> orchestrator_state \<times> api_reply" where
  "get_prompt_handler st job_id =
     (case map_of (os_prompt_queue st) job_id of
        Some (prompt # rest) \<Rightarrow>
          (st\<lparr>os_prompt_queue := AList.update job_id rest (os_prompt_queue st)\<rparr>,
           (200, JObject [(''content'', JString (pp_content prompt)), (''done'', JBool (pp_done prompt))]))
      | _ \<Rightarrow> (st, (204, JNull)))"

text \<open>The credentials decrypted so far, and the names whose use was recorded.\<close>

fun serve_grants ::
  "secrets_api \<Rightarrow> string \<Rightarrow> credential_grant list \<Rightarrow> (string \<times> string) list \<Rightarrow> string list \<Rightarrow> (string \<times> string) list option \<times> string list" where
  "serve_grants secrets user [] credentials used = (Some credentials, used)"
| "serve_grants secrets user (grant # rest) credentials used =
     (case sa_get_decrypted secrets user (cg_secret_name grant) of
        Err _ \<Rightarrow> (None, used)
      | Ok value \<Rightarrow>
          serve_grants secrets user rest (credentials @ [(cg_env_var grant, value)])
            (if sa_get secrets user (cg_secret_name grant) then used @ [cg_secret_name grant] else used))"

definition credential_json :: "string \<times> string \<Rightarrow> json" where
  "credential_json c = JObject [(''env_var'', JString (fst c)), (''value'', JString (snd c))]"

definition get_credentials_handler :: "secrets_api option \<Rightarrow> orchestrator_state \<Rightarrow> uuid \<Rightarrow> orchestrator_state \<times> api_reply" where
  "get_credentials_handler secrets_store st job_id =
     (case get_grants (jm_token_store (os_job_manager st)) job_id of
        None \<Rightarrow> (st, (204, JNull))
      | Some grants \<Rightarrow>
          if grants = [] then (st, (204, JNull))
          else case secrets_store of
            None \<Rightarrow> (st, (503, JNull))
          | Some secrets \<Rightarrow>
              (case serve_grants secrets (os_user_id st) grants [] (os_usage st) of
                 (None, used) \<Rightarrow> (st\<lparr>os_usage := used\<rparr>, (500, JNull))
               | (Some credentials, used) \<Rightarrow> (st\<lparr>os_usage := used\<rparr>, (200, JArray (map credential_json credentials)))))"

section \<open>The router\<close>

text \<open>The requests of the worker routes, with the rest of their path.\<close>

datatype worker_request =
    GetJob
  | LlmComplete "chat_message list" "u32 option" "u32 option" "string list option"
  | LlmCompleteWithTools "chat_message list" "tool_definition list" "u32 option" "u32 option" "string option"
  | ReportStatus "string option" u32
  | ReportComplete bool "string option"
  | PostEvent string json
  | GetPrompt
  | GetCredentials

fun route_suffix :: "worker_request \<Rightarrow> string" where
  "route_suffix GetJob = ''job''"
| "route_suffix (LlmComplete _ _ _ _) = ''llm/complete''"
| "route_suffix (LlmCompleteWithTools _ _ _ _ _) = ''llm/complete_with_tools''"
| "route_suffix (ReportStatus _ _) = ''status''"
| "route_suffix (ReportComplete _ _) = ''complete''"
| "route_suffix (PostEvent _ _) = ''event''"
| "route_suffix GetPrompt = ''prompt''"
| "route_suffix GetCredentials = ''credentials''"

record api_env =
  ae_env :: orchestrator_env
  ae_parse_uuid :: "string \<Rightarrow> uuid option"
  ae_llm :: "completion_request \<Rightarrow> (llm_error, completion_response) result"
  ae_llm_tools :: "tool_completion_request \<Rightarrow> (llm_error, tool_completion_response) result"
  ae_secrets :: "secrets_api option"

definition handle_worker_route :: "api_env \<Rightarrow> orchestrator_state \<Rightarrow> uuid \<Rightarrow> worker_request \<Rightarrow> orchestrator_state \<times> api_reply" where
  "handle_worker_route ae st job_id req =
     (case req of
        GetJob \<Rightarrow> (st, get_job (ae_env ae) st job_id)
      | LlmComplete ms mt t ss \<Rightarrow> (st, llm_complete (ae_llm ae) ms mt t ss)
      | LlmCompleteWithTools ms ts mt t tc \<Rightarrow> (st, llm_complete_with_tools (ae_llm_tools ae) ms ts mt t tc)
      | ReportStatus m i \<Rightarrow> report_status st job_id m i
      | ReportComplete s m \<Rightarrow> report_complete (ae_env ae) st job_id s m
      | PostEvent t d \<Rightarrow> job_event_handler (ae_env ae) st job_id t d
      | GetPrompt \<Rightarrow> get_prompt_handler st job_id
      | GetCredentials \<Rightarrow> get_credentials_handler (ae_secrets ae) st job_id)"

text \<open>A request to \<open>/worker/{segment}/...\<close>: the middleware first, then the handler with the job its path names.\<close>

definition serve_worker ::
  "api_env \<Rightarrow> orchestrator_state \<Rightarrow> string \<Rightarrow> string option \<Rightarrow> worker_request \<Rightarrow> orchestrator_state \<times> api_reply" where
  "serve_worker ae st segment authorization req =
     (case worker_auth_middleware (ae_parse_uuid ae) (jm_token_store (os_job_manager st))
             (''/worker/'' @ segment @ ''/'' @ route_suffix req) authorization of
        Err BAD_REQUEST \<Rightarrow> (st, (400, JNull))
      | Err UNAUTHORIZED \<Rightarrow> (st, (401, JNull))
      | Ok _ \<Rightarrow>
          (case ae_parse_uuid ae segment of
             None \<Rightarrow> (st, (400, JNull))
           | Some job_id \<Rightarrow> handle_worker_route ae st job_id req))"

section \<open>Lookups\<close>

lemma get_handle_update: "get_handle (update_handle j f jm) i = (if i = j then map_option f (get_handle jm j) else get_handle jm i)"
  by (auto simp: update_handle_def get_handle_def update_conv' split: option.splits)

lemma update_handle_fields [simp]:
  "jm_token_store (update_handle j f jm) = jm_token_store jm" "jm_config (update_handle j f jm) = jm_config jm"
  "jm_docker (update_handle j f jm) = jm_docker jm"
  by (auto simp: update_handle_def split: option.splits)

definition token_of :: "job_manager \<Rightarrow> uuid \<Rightarrow> string option" where
  "token_of jm j = map_of (tk_tokens (jm_token_store jm)) j"

definition grants_of :: "job_manager \<Rightarrow> uuid \<Rightarrow> credential_grant list option" where
  "grants_of jm j = get_grants (jm_token_store jm) j"

lemma revoke_lookup:
  "map_of (tk_tokens (revoke ts j)) i = (if i = j then None else map_of (tk_tokens ts) i)"
  "get_grants (revoke ts j) i = (if i = j then None else get_grants ts i)"
  by (auto simp: revoke_def get_grants_def delete_conv')

lemma manager_docker_keeps:
  "manager_docker env jm = (jm', r) \<Longrightarrow> jm_token_store jm' = jm_token_store jm \<and> jm_containers jm' = jm_containers jm \<and> jm_config jm' = jm_config jm"
  by (auto simp: manager_docker_def split: if_splits sum.splits)

lemma get_handle_cong: "jm_containers jm' = jm_containers jm \<Longrightarrow> get_handle jm' = get_handle jm"
  by (simp add: get_handle_def fun_eq_iff)

lemma create_begin_view:
  assumes "create_begin jm j task dir mode grants bytes now = (jm', token)"
  shows "token_of jm' i = (if i = j then Some token else token_of jm i)"
    "grants_of jm' i = (if i = j \<and> grants \<noteq> [] then Some grants else grants_of jm i)"
    "i \<noteq> j \<Longrightarrow> get_handle jm' i = get_handle jm i"
    "\<exists>h. get_handle jm' j = Some h \<and> ch_state h = CCreating \<and> ch_container_id h = [] \<and> ch_job_id h = j \<and> ch_completion_result h = None"
    "jm_config jm' = jm_config jm"
  using assms
  by (auto simp: create_begin_def token_section_def grants_section_def handle_section_def create_token_def store_grants_def token_of_def grants_of_def get_grants_def get_handle_def update_conv' Let_def)

lemma create_container_keeps:
  assumes "create_container env jm j token dir mode = (jm', r, calls)"
  shows "jm_token_store jm' = jm_token_store jm \<and> jm_containers jm' = jm_containers jm \<and> jm_config jm' = jm_config jm"
proof -
  obtain jm1 d where m: "manager_docker env jm = (jm1, d)" by fastforce
  from assms have "jm' = jm1"
    unfolding create_container_def m by (auto simp: Let_def split: sum.splits option.splits)
  with manager_docker_keeps [OF m] show ?thesis by simp
qed

lemma create_container_calls:
  assumes "create_container env jm j token dir mode = (jm', r, calls)"
  shows "calls = [] \<and> (\<forall>cid. r \<noteq> Ok cid) \<or>
    (\<exists>canonical cfg. (case dir of None \<Rightarrow> canonical = None | Some d \<Rightarrow> (\<exists>c. validate_bind_mount_path env d j = Ok c \<and> canonical = Some c)) \<and>
       cfg = worker_config env (jm_config jm) j token canonical mode \<and>
       (calls = [CreateWorker cfg] \<and> (\<forall>cid. r \<noteq> Ok cid) \<or>
        (\<exists>cid. oe_create env cfg = Ok cid \<and> calls = [CreateWorker cfg, StartWorker cid] \<and> (r = Ok cid \<longleftrightarrow> oe_start env cid = Ok ()) \<and>
           (\<forall>x. r = Ok x \<longrightarrow> x = cid))))"
proof -
  obtain jm1 d where m: "manager_docker env jm = (jm1, d)" by fastforce
  note k = manager_docker_keeps [OF m]
  show ?thesis
    using assms unfolding create_container_def m
    by (cases dir) (auto simp: Let_def k split: sum.splits option.splits)
qed

lemma section_fields [simp]:
  "token_of (update_handle j f jm) = token_of jm" "grants_of (update_handle j f jm) = grants_of jm"
  "get_handle (revoke_section jm j) = get_handle jm"
  "token_of (revoke_section jm j) i = (if i = j then None else token_of jm i)"
  "grants_of (revoke_section jm j) i = (if i = j then None else grants_of jm i)"
  "get_handle (remove_section jm j) i = (if i = j then None else get_handle jm i)"
  "token_of (remove_section jm j) = token_of jm" "grants_of (remove_section jm j) = grants_of jm"
  by (auto simp: token_of_def grants_of_def get_handle_def revoke_section_def remove_section_def revoke_lookup delete_conv' fun_eq_iff)

lemma manager_docker_views:
  assumes "manager_docker env jm = (jm', r)"
  shows "get_handle jm' = get_handle jm" "token_of jm' = token_of jm" "grants_of jm' = grants_of jm"
  using manager_docker_keeps [OF assms] by (auto simp: token_of_def grants_of_def fun_eq_iff get_handle_def)

lemma complete_container_views:
  assumes "complete_container_section env jm j = (jm', calls)"
  shows "get_handle jm' = get_handle jm" "token_of jm' = token_of jm" "grants_of jm' = grants_of jm"
    "\<And>h. get_handle jm j = Some h \<Longrightarrow> ch_container_id h = [] \<Longrightarrow> calls = []"
proof -
  obtain jm1 d where m: "manager_docker env jm = (jm1, d)" by fastforce
  have "jm' = jm \<or> jm' = jm1"
    using assms by (auto simp: complete_container_section_def m split: option.splits if_splits sum.splits)
  with manager_docker_views [OF m] show "get_handle jm' = get_handle jm" "token_of jm' = token_of jm" "grants_of jm' = grants_of jm"
    by auto
  show "calls = []" if "get_handle jm j = Some h" "ch_container_id h = []" for h
    using assms that by (auto simp: complete_container_section_def get_handle_def)
qed

lemma complete_job_view:
  assumes "complete_job env jm j res = (jm', r, calls)"
  shows "get_handle jm' i = (if i = j then map_option (\<lambda>h. h\<lparr>ch_completion_result := Some res, ch_state := CStopped\<rparr>) (get_handle jm j) else get_handle jm i)"
    "token_of jm' i = (if i = j then None else token_of jm i)" "grants_of jm' i = (if i = j then None else grants_of jm i)"
    "r = Ok ()" "\<And>h. get_handle jm j = Some h \<Longrightarrow> ch_container_id h = [] \<Longrightarrow> calls = []"
proof -
  obtain jm2 cs where m: "complete_container_section env (complete_mark jm j res) j = (jm2, cs)" by fastforce
  note v = complete_container_views [OF m]
  have jm': "jm' = revoke_section jm2 j" "r = Ok ()" "calls = cs" using assms by (simp_all add: complete_job_def m)
  show "get_handle jm' i = (if i = j then map_option (\<lambda>h. h\<lparr>ch_completion_result := Some res, ch_state := CStopped\<rparr>) (get_handle jm j) else get_handle jm i)"
    "token_of jm' i = (if i = j then None else token_of jm i)" "grants_of jm' i = (if i = j then None else grants_of jm i)"
    using v(1-3) by (simp_all add: jm' complete_mark_def get_handle_update)
  show "r = Ok ()" by (rule jm')
  show "calls = []" if "get_handle jm j = Some h" "ch_container_id h = []" for h
    using v(4) that by (simp add: jm' complete_mark_def get_handle_update)
qed

section \<open>Histories of the manager\<close>

text \<open>A history is a sequence of the sections of any number of calls, in any order.\<close>

datatype manager_op =
    CreateToken uuid "u8 list"
  | StoreGrants uuid "credential_grant list"
  | InsertHandle uuid string "path option" job_mode instant
  | CreateContainer orchestrator_env uuid string "path option" job_mode
  | FinishCreate uuid string
  | CompleteMark uuid completion_result
  | CompleteContainer orchestrator_env uuid
  | StopContainer orchestrator_env uuid
  | StopMark uuid
  | RevokeToken uuid
  | RemoveHandle uuid
  | UpdateStatus uuid "string option" u32

fun manager_step :: "job_manager \<Rightarrow> manager_op \<Rightarrow> job_manager" where
  "manager_step jm (CreateToken j bytes) = fst (token_section jm j bytes)"
| "manager_step jm (StoreGrants j grants) = grants_section jm j grants"
| "manager_step jm (InsertHandle j task dir mode now) = handle_section jm j task dir mode now"
| "manager_step jm (CreateContainer env j token dir mode) = fst (create_container env jm j token dir mode)"
| "manager_step jm (FinishCreate j cid) = create_finish jm j cid"
| "manager_step jm (CompleteMark j res) = complete_mark jm j res"
| "manager_step jm (CompleteContainer env j) = fst (complete_container_section env jm j)"
| "manager_step jm (StopContainer env j) = fst (stop_container_section env jm j)"
| "manager_step jm (StopMark j) = stop_mark jm j"
| "manager_step jm (RevokeToken j) = revoke_section jm j"
| "manager_step jm (RemoveHandle j) = remove_section jm j"
| "manager_step jm (UpdateStatus j m n) = update_worker_status jm j m n"

text \<open>The sections that give a job its token and its grants.\<close>

fun opens_job :: "uuid \<Rightarrow> manager_op \<Rightarrow> bool" where
  "opens_job j (CreateToken i _) \<longleftrightarrow> i = j"
| "opens_job j (StoreGrants i _) \<longleftrightarrow> i = j"
| "opens_job j _ \<longleftrightarrow> False"

text \<open>At every moment a handle is filed under its job, and no handle says failed.\<close>

definition jobs_inv :: "job_manager \<Rightarrow> bool" where
  "jobs_inv jm \<longleftrightarrow> (\<forall>j h. get_handle jm j = Some h \<longrightarrow> ch_job_id h = j \<and> ch_state h \<noteq> CFailed)"

lemma create_job_view:
  assumes "create_container_job env jm j task dir mode grants bytes now = (jm', r, calls)"
  shows "\<And>token. r = Ok token \<Longrightarrow> token_of jm' j = Some token \<and> token = generate_token bytes \<and>
      grants_of jm' j = (if grants = [] then grants_of jm j else Some grants) \<and>
      (\<exists>h cid. get_handle jm' j = Some h \<and> ch_state h = CRunning \<and> ch_container_id h = cid \<and> ch_job_id h = j \<and>
         oe_start env cid = Ok () \<and> StartWorker cid \<in> set calls)"
    "\<And>e. r = Err e \<Longrightarrow> token_of jm' j = None \<and> grants_of jm' j = None \<and> get_handle jm' j = None"
    "\<And>i. i \<noteq> j \<Longrightarrow> token_of jm' i = token_of jm i \<and> grants_of jm' i = grants_of jm i \<and> get_handle jm' i = get_handle jm i"
    "\<And>cid. RemoveWorker cid \<notin> set calls"
proof -
  obtain jm1 token where b: "create_begin jm j task dir mode grants bytes now = (jm1, token)" by fastforce
  obtain jm2 q where c: "create_container env jm1 j token dir mode = (jm2, q, calls)"
    and r: "(case q of Ok cid \<Rightarrow> jm' = create_finish jm2 j cid \<and> r = Ok token | Err e \<Rightarrow> jm' = create_abort jm2 j \<and> r = Err e)"
    using assms by (auto simp: create_container_job_def b split: prod.splits sum.splits)
  note v = create_begin_view [OF b] and k = create_container_keeps [OF c] and cc = create_container_calls [OF c]
  have g: "get_handle jm2 = get_handle jm1" using k by (intro get_handle_cong) simp
  have tok: "token_of jm2 = token_of jm1" "grants_of jm2 = grants_of jm1" using k by (auto simp: token_of_def grants_of_def fun_eq_iff)
  show "RemoveWorker cid \<notin> set calls" for cid using cc by auto
  have fin: "token_of (create_finish jm2 j cid) = token_of jm1" "grants_of (create_finish jm2 j cid) = grants_of jm1"
    "get_handle (create_finish jm2 j cid) i =
       (if i = j then map_option (\<lambda>h. h\<lparr>ch_container_id := cid, ch_state := CRunning\<rparr>) (get_handle jm1 j) else get_handle jm1 i)" for cid i
    using tok g by (simp_all add: create_finish_def get_handle_update token_of_def grants_of_def fun_eq_iff)
  have ab: "token_of (create_abort jm2 j) i = (if i = j then None else token_of jm1 i)"
    "grants_of (create_abort jm2 j) i = (if i = j then None else grants_of jm1 i)"
    "get_handle (create_abort jm2 j) i = (if i = j then None else get_handle jm1 i)" for i
    using tok g by (simp_all add: create_abort_def)
  show "token_of jm' j = Some t \<and> t = generate_token bytes \<and> grants_of jm' j = (if grants = [] then grants_of jm j else Some grants) \<and>
      (\<exists>h cid. get_handle jm' j = Some h \<and> ch_state h = CRunning \<and> ch_container_id h = cid \<and> ch_job_id h = j \<and>
         oe_start env cid = Ok () \<and> StartWorker cid \<in> set calls)" if "r = Ok t" for t
  proof -
    from that r obtain cid where q: "q = Ok cid" "jm' = create_finish jm2 j cid" "t = token" by (cases q) auto
    moreover have "token = generate_token bytes" using b by (auto simp: create_begin_def token_section_def create_token_def Let_def)
    moreover have "oe_start env cid = Ok () \<and> StartWorker cid \<in> set calls" using cc q(1) by auto
    ultimately show ?thesis using v(1,2) [of j] v(4) fin by auto
  qed
  show "token_of jm' j = None \<and> grants_of jm' j = None \<and> get_handle jm' j = None" if "r = Err e" for e
    using that r ab by (cases q) auto
  show "token_of jm' i = token_of jm i \<and> grants_of jm' i = grants_of jm i \<and> get_handle jm' i = get_handle jm i" if "i \<noteq> j" for i
    using that r ab [of i] fin v(1-3) [of i] by (cases q) auto
qed

lemma stop_container_views:
  "get_handle (fst (stop_container_section env jm j)) = get_handle jm" "token_of (fst (stop_container_section env jm j)) = token_of jm"
  "grants_of (fst (stop_container_section env jm j)) = grants_of jm"
proof -
  obtain jm1 d where m: "manager_docker env jm = (jm1, d)" by fastforce
  have "fst (stop_container_section env jm j) = jm \<or> fst (stop_container_section env jm j) = jm1"
    by (auto simp: stop_container_section_def m Let_def split: option.splits sum.splits)
  with manager_docker_views [OF m] show "get_handle (fst (stop_container_section env jm j)) = get_handle jm"
    "token_of (fst (stop_container_section env jm j)) = token_of jm" "grants_of (fst (stop_container_section env jm j)) = grants_of jm"
    by auto
qed

lemma create_container_views:
  "get_handle (fst (create_container env jm j token dir mode)) = get_handle jm"
  "token_of (fst (create_container env jm j token dir mode)) = token_of jm"
  "grants_of (fst (create_container env jm j token dir mode)) = grants_of jm"
proof -
  obtain jm' r calls where c: "create_container env jm j token dir mode = (jm', r, calls)" by (metis surj_pair)
  from create_container_keeps [OF c] show "get_handle (fst (create_container env jm j token dir mode)) = get_handle jm"
    "token_of (fst (create_container env jm j token dir mode)) = token_of jm"
    "grants_of (fst (create_container env jm j token dir mode)) = grants_of jm"
    by (simp_all add: c token_of_def grants_of_def get_handle_def fun_eq_iff)
qed

lemma complete_container_fst:
  "get_handle (fst (complete_container_section env jm j)) = get_handle jm" "token_of (fst (complete_container_section env jm j)) = token_of jm"
  "grants_of (fst (complete_container_section env jm j)) = grants_of jm"
  by (cases "complete_container_section env jm j"; simp add: complete_container_views)+

lemma open_section_views:
  "get_handle (fst (token_section jm j bytes)) = get_handle jm" "grants_of (fst (token_section jm j bytes)) = grants_of jm"
  "i \<noteq> j \<Longrightarrow> token_of (fst (token_section jm j bytes)) i = token_of jm i"
  "get_handle (grants_section jm j grants) = get_handle jm" "token_of (grants_section jm j grants) = token_of jm"
  "i \<noteq> j \<Longrightarrow> grants_of (grants_section jm j grants) i = grants_of jm i"
  "token_of (handle_section jm j task dir mode now) = token_of jm" "grants_of (handle_section jm j task dir mode now) = grants_of jm"
  by (auto simp: token_section_def grants_section_def handle_section_def create_token_def store_grants_def get_grants_def
      get_handle_def token_of_def grants_of_def update_conv' Let_def fun_eq_iff)

lemma handle_section_handle:
  "get_handle (handle_section jm j task dir mode now) i =
     (if i = j then Some \<lparr>ch_job_id = j, ch_container_id = [], ch_state = CCreating, ch_mode = mode, ch_created_at = now,
        ch_project_dir = dir, ch_task_description = task, ch_last_worker_status = None, ch_worker_iteration = 0, ch_completion_result = None\<rparr>
      else get_handle jm i)"
  by (simp add: handle_section_def get_handle_def update_conv')

lemmas section_views = stop_container_views create_container_views complete_container_fst open_section_views

interpretation container_jobs: inv_machine manager_step jobs_inv
proof unfold_locales
  fix jm op
  assume "jobs_inv jm"
  then show "jobs_inv (manager_step jm op)"
    by (cases op) (auto simp: jobs_inv_def section_views create_finish_def complete_mark_def stop_mark_def update_worker_status_def
        get_handle_update handle_section_handle split: if_splits)
qed

text \<open>A closed job stays closed until a section opens it again.\<close>

definition closed_job :: "uuid \<Rightarrow> job_manager \<Rightarrow> bool" where
  "closed_job j jm \<longleftrightarrow> token_of jm j = None \<and> grants_of jm j = None"

lemma closed_job_step:
  assumes "closed_job j jm" and "\<not> opens_job j op"
  shows "closed_job j (manager_step jm op)"
  using assms
  by (cases op) (auto simp: closed_job_def section_views create_finish_def complete_mark_def stop_mark_def update_worker_status_def)

lemma closed_job_run: "closed_job j jm \<Longrightarrow> \<forall>op \<in> set ops. \<not> opens_job j op \<Longrightarrow> closed_job j (foldl manager_step jm ops)"
  by (induction ops arbitrary: jm) (auto intro: closed_job_step)

lemma job_sections:
  "fst (complete_job env jm j res) = foldl manager_step jm [CompleteMark j res, CompleteContainer env j, RevokeToken j]"
  "fst (snd (stop_job env jm j)) = Ok () \<Longrightarrow>
     fst (stop_job env jm j) = foldl manager_step jm [StopContainer env j, StopMark j, RevokeToken j]"
  "fst (snd (create_container_job env jm j task dir mode grants bytes now)) = Err e \<Longrightarrow>
     fst (create_container_job env jm j task dir mode grants bytes now) =
       foldl manager_step jm [CreateToken j bytes, StoreGrants j grants, InsertHandle j task dir mode now,
         CreateContainer env j (generate_token bytes) dir mode, RevokeToken j, RemoveHandle j]"
  by (auto simp: complete_job_def stop_job_def create_container_job_def create_begin_def create_abort_def token_section_def
      create_token_def Let_def split: prod.splits sum.splits)

lemma extract_path_segment:
  assumes "CHR ''/'' \<notin> set segment"
  shows "extract_job_id_from_path parse (''/worker/'' @ segment @ ''/'' @ rest) = parse segment"
proof -
  have "split_on (CHR ''/'') (w @ CHR ''/'' # r) = w # split_on (CHR ''/'') r" if "CHR ''/'' \<notin> set w" for w r :: string
    unfolding split_on_def by (rule split_by_append_sep) (use that in auto)
  from this [of "''worker''"] this [OF assms]
  have "split_on (CHR ''/'') (''worker'' @ CHR ''/'' # segment @ CHR ''/'' # rest) = ''worker'' # segment # split_on (CHR ''/'') rest"
    by simp
  then show ?thesis by (simp add: extract_job_id_from_path_def)
qed

lemma serve_grants_exact:
  assumes "serve_grants secrets user grants cs used = (Some cs', used')"
  shows "\<exists>vs. cs' = cs @ zip (map cg_env_var grants) vs \<and> length vs = length grants \<and>
    (\<forall>k < length grants. sa_get_decrypted secrets user (cg_secret_name (grants ! k)) = Ok (vs ! k))"
  using assms
proof (induction secrets user grants cs used rule: serve_grants.induct)
  case (2 secrets user grant rest cs used)
  then obtain v where v: "sa_get_decrypted secrets user (cg_secret_name grant) = Ok v" by (auto split: sum.splits)
  from 2 v obtain vs where "cs' = (cs @ [(cg_env_var grant, v)]) @ zip (map cg_env_var rest) vs" "length vs = length rest"
    "\<forall>k < length rest. sa_get_decrypted secrets user (cg_secret_name (rest ! k)) = Ok (vs ! k)" by auto
  then show ?case using v by (intro exI [of _ "v # vs"]) (auto simp: nth_Cons split: nat.splits)
qed simp

lemma route_isolated:
  assumes "handle_worker_route ae st j req = (st', reply)" and "i \<noteq> j"
  shows "get_handle (os_job_manager st') i = get_handle (os_job_manager st) i \<and>
    token_of (os_job_manager st') i = token_of (os_job_manager st) i \<and> grants_of (os_job_manager st') i = grants_of (os_job_manager st) i \<and>
    map_of (os_prompt_queue st') i = map_of (os_prompt_queue st) i \<and>
    filter (\<lambda>e. fst e = i) (os_events st') = filter (\<lambda>e. fst e = i) (os_events st)"
proof (cases req)
  case (ReportStatus m n)
  with assms show ?thesis
    by (auto simp: handle_worker_route_def report_status_def update_worker_status_def get_handle_update token_of_def grants_of_def)
next
  case (ReportComplete s m)
  obtain jm r calls where c: "complete_job (ae_env ae) (os_job_manager st) j \<lparr>cp_success = s, cp_message = m\<rparr> = (jm, r, calls)" by (metis surj_pair)
  with assms ReportComplete have "st' = st\<lparr>os_job_manager := jm\<rparr>" by (simp add: handle_worker_route_def report_complete_def)
  then show ?thesis using assms(2) complete_job_view [OF c] by simp
next
  case (PostEvent t d)
  with assms show ?thesis by (auto simp: handle_worker_route_def job_event_handler_def Let_def)
next
  case GetPrompt
  with assms show ?thesis by (auto simp: handle_worker_route_def get_prompt_handler_def update_conv' split: option.splits list.splits)
next
  case GetCredentials
  with assms show ?thesis
    by (auto simp: handle_worker_route_def get_credentials_handler_def split: option.splits if_splits prod.splits)
qed (use assms in \<open>auto simp: handle_worker_route_def\<close>)

lemma serve_worker_effects:
  assumes "CHR ''/'' \<notin> set segment" and "ae_parse_uuid ae segment = Some j"
    and "serve_worker ae st segment auth req = (st', reply)"
  shows "(\<nexists>token. auth = Some (''Bearer '' @ token) \<and> token_of (os_job_manager st) j = Some token) \<longrightarrow> st' = st \<and> fst reply = 401"
    "i \<noteq> j \<longrightarrow> get_handle (os_job_manager st') i = get_handle (os_job_manager st) i \<and>
       token_of (os_job_manager st') i = token_of (os_job_manager st) i \<and> grants_of (os_job_manager st') i = grants_of (os_job_manager st) i \<and>
       map_of (os_prompt_queue st') i = map_of (os_prompt_queue st) i \<and>
       filter (\<lambda>e. fst e = i) (os_events st') = filter (\<lambda>e. fst e = i) (os_events st)"
proof -
  define p where "p = ''/worker/'' @ segment @ ''/'' @ route_suffix req"
  have path: "extract_job_id_from_path (ae_parse_uuid ae) p = Some j"
    using extract_path_segment [OF assms(1)] assms(2) unfolding p_def by metis
  have auth: "worker_auth_middleware (ae_parse_uuid ae) ts p auth =
    (if \<exists>token. auth = Some (''Bearer '' @ token) \<and> map_of (tk_tokens ts) j = Some token then Ok () else Err UNAUTHORIZED)" for ts
    by (auto simp: worker_auth_middleware_def path validate_token_def strip_prefix_Some strip_prefix_None starts_with_iff
        bind_eq_Some_conv bind_eq_None_conv split: option.splits)
  define ok where "ok \<longleftrightarrow> (\<exists>token. auth = Some (''Bearer '' @ token) \<and> token_of (os_job_manager st) j = Some token)"
  note serve = assms(3) [unfolded serve_worker_def p_def [symmetric] auth, folded token_of_def, folded ok_def]
  show "(\<nexists>token. auth = Some (''Bearer '' @ token) \<and> token_of (os_job_manager st) j = Some token) \<longrightarrow> st' = st \<and> fst reply = 401"
    using serve unfolding ok_def [symmetric] by (cases ok) auto
  have "handle_worker_route ae st j req = (st', reply) \<or> st' = st" using assms(2) serve by (cases ok) auto
  then show "i \<noteq> j \<longrightarrow> get_handle (os_job_manager st') i = get_handle (os_job_manager st) i \<and>
       token_of (os_job_manager st') i = token_of (os_job_manager st) i \<and> grants_of (os_job_manager st') i = grants_of (os_job_manager st) i \<and>
       map_of (os_prompt_queue st') i = map_of (os_prompt_queue st) i \<and>
       filter (\<lambda>e. fst e = i) (os_events st') = filter (\<lambda>e. fst e = i) (os_events st)"
    using route_isolated [of ae st j req st' reply i] by auto
qed


section \<open>Properties\<close>

text \<open>C30: Creating a job is all or nothing.  If it succeeds, its token opens the API for the job, and the job's handle is running
  with a container that was started; if it fails, at whatever step, no token, no grant and no handle is left for
  the job; and other jobs keep theirs.\<close>

theorem job_creation_atomic:
  assumes "create_container_job env jm j task dir mode grants bytes now = (jm', r, calls)"
  shows "(\<forall>token. r = Ok token \<longrightarrow> validate_token (jm_token_store jm') j token \<and> (grants \<noteq> [] \<longrightarrow> grants_of jm' j = Some grants) \<and>
      (\<exists>h. get_handle jm' j = Some h \<and> ch_state h = CRunning \<and> oe_start env (ch_container_id h) = Ok () \<and>
         StartWorker (ch_container_id h) \<in> set calls)) \<and>
    (\<forall>e t. r = Err e \<longrightarrow> \<not> validate_token (jm_token_store jm') j t \<and> grants_of jm' j = None \<and> get_handle jm' j = None) \<and>
    (\<forall>i. i \<noteq> j \<longrightarrow> token_of jm' i = token_of jm i \<and> grants_of jm' i = grants_of jm i \<and> get_handle jm' i = get_handle jm i)"
proof -
  note v = create_job_view [OF assms]
  have val: "validate_token (jm_token_store jm') j t \<longleftrightarrow> token_of jm' j = Some t" for t
    by (auto simp: validate_token_def token_of_def split: option.splits)
  show ?thesis using v unfolding val by fastforce
qed

text \<open>C23: A worker acts only on its own job, and only with its token.  A request whose token is not the current one of the job
  its path names is answered with 401 and changes nothing; any other request leaves the handle, the token, the
  grants and the prompts of every other job as they are, and every event it publishes carries its own job.\<close>

theorem worker_acts_on_own_job:
  assumes "CHR ''/'' \<notin> set segment" and "ae_parse_uuid ae segment = Some j"
    and "serve_worker ae st segment auth req = (st', reply)"
  shows "((\<nexists>token. auth = Some (''Bearer '' @ token) \<and> token_of (os_job_manager st) j = Some token) \<longrightarrow> st' = st \<and> fst reply = 401) \<and>
    (\<forall>i. i \<noteq> j \<longrightarrow> get_handle (os_job_manager st') i = get_handle (os_job_manager st) i \<and>
       token_of (os_job_manager st') i = token_of (os_job_manager st) i \<and> grants_of (os_job_manager st') i = grants_of (os_job_manager st) i \<and>
       map_of (os_prompt_queue st') i = map_of (os_prompt_queue st) i \<and>
       filter (\<lambda>e. fst e = i) (os_events st') = filter (\<lambda>e. fst e = i) (os_events st))"
  using serve_worker_effects [OF assms] by blast

definition sample_config :: container_job_config where
  "sample_config =
     \<lparr>jc_image = ''img'', jc_memory_limit_mb = 2048, jc_cpu_shares = 1024, jc_orchestrator_port = 50051, jc_auto_pull_image = True,
      jc_claude_code_api_key = None, jc_claude_code_oauth_token = Some ''oauth'', jc_claude_code_model = ''sonnet'',
      jc_claude_code_max_turns = 50, jc_claude_code_memory_limit_mb = 4096, jc_claude_code_allowed_tools = []\<rparr>"

definition sample_nodes :: nodes where
  "sample_nodes = [[''home''] \<mapsto> Dir, [''home'', ''.ironclaw''] \<mapsto> Dir, [''home'', ''.ironclaw'', ''projects''] \<mapsto> Dir,
     [''home'', ''.ironclaw'', ''projects'', ''p1''] \<mapsto> Dir, [''etc''] \<mapsto> Dir]"

definition sample_orchestrator :: orchestrator_env where
  "sample_orchestrator =
     \<lparr>oe_connect = Ok (), oe_image_exists = (\<lambda>_. True), oe_pull = (\<lambda>_. []), oe_create = (\<lambda>_. Ok ''c1''), oe_start = (\<lambda>_. Ok ()),
      oe_linux = True, oe_opencode_model = None, oe_home = Some [RootDir, Normal ''home''],
      oe_fs = \<lparr>fs_nodes = sample_nodes, fs_cwd = [], fs_order = (\<lambda>_. []), fs_error = (\<lambda>_. ''os error'')\<rparr>, oe_show_uuid = nat_str\<rparr>"

definition sample_manager :: job_manager where
  "sample_manager = fst (create_container_job sample_orchestrator (job_manager_new sample_config token_store_new) 7 ''task'' None WorkerMode
     [\<lparr>cg_secret_name = ''gh'', cg_env_var = ''GH''\<rparr>] [1] 0)"

definition sample_state :: orchestrator_state where
  "sample_state = \<lparr>os_job_manager = sample_manager, os_prompt_queue = [], os_events = [], os_has_events = True, os_usage = [], os_user_id = ''me''\<rparr>"

definition sample_api :: api_env where
  "sample_api = \<lparr>ae_env = sample_orchestrator, ae_parse_uuid = (\<lambda>s. if s = ''7'' then Some 7 else Some 8), ae_llm = (\<lambda>_. Err (RequestFailed [] [])),
     ae_llm_tools = (\<lambda>_. Err (RequestFailed [] [])),
     ae_secrets = Some \<lparr>sa_get_decrypted = (\<lambda>_ _. Ok ''tok''), sa_get = (\<lambda>_ _. True)\<rparr>\<rparr>"

lemma sample_created:
  "create_container_job sample_orchestrator (job_manager_new sample_config token_store_new) 7 ''task'' None WorkerMode
     [\<lparr>cg_secret_name = ''gh'', cg_env_var = ''GH''\<rparr>] [1] 0 =
   (sample_manager, Ok (generate_token [1]), [CreateWorker (worker_config sample_orchestrator sample_config 7 (generate_token [1]) None WorkerMode), StartWorker ''c1''])"
  by (simp add: sample_manager_def create_container_job_def create_begin_def token_section_def grants_section_def handle_section_def create_container_def manager_docker_def ensure_image_ready_def
      create_token_def job_manager_new_def sample_orchestrator_def Let_def)

theorem job_creation_atomic_witness:
  "validate_token (jm_token_store sample_manager) 7 (generate_token [1]) \<and> (\<exists>h. get_handle sample_manager 7 = Some h \<and> ch_state h = CRunning)"
  using job_creation_atomic [OF sample_created] by auto

theorem worker_acts_on_own_job_witness:
  "\<exists>reply. serve_worker sample_api sample_state ''8'' (Some (''Bearer '' @ generate_token [1])) GetCredentials = (sample_state, reply) \<and> fst reply = 401"
proof -
  obtain st' reply where r: "serve_worker sample_api sample_state ''8'' (Some (''Bearer '' @ generate_token [1])) GetCredentials = (st', reply)"
    by (metis surj_pair)
  have "token_of (os_job_manager sample_state) 8 = None"
    using create_job_view(3) [OF sample_created, of 8]
    by (simp add: sample_state_def job_manager_new_def token_store_new_def token_of_def)
  moreover have "CHR ''/'' \<notin> set ''8''" "ae_parse_uuid sample_api ''8'' = Some 8" by (simp_all add: sample_api_def)
  ultimately have "st' = sample_state \<and> fst reply = 401" using worker_acts_on_own_job [OF _ _ r] by simp
  with r show ?thesis by blast
qed

text \<open>A container is served exactly the secrets its job was granted.  A successful answer lists, in the order of the grants, each
  granted variable with the decrypted value of its own secret for the orchestrator's user; a job without grants gets an
  empty answer, and after the job is completed there is nothing left to serve.\<close>

theorem credentials_only_granted:
  assumes "get_credentials_handler (Some secrets) st j = (st', (code, body))"
  shows "(code = 200 \<longrightarrow> (\<exists>grants vs. grants_of (os_job_manager st) j = Some grants \<and> length vs = length grants \<and>
      body = JArray (map credential_json (zip (map cg_env_var grants) vs)) \<and>
      (\<forall>k < length grants. sa_get_decrypted secrets (os_user_id st) (cg_secret_name (grants ! k)) = Ok (vs ! k)))) \<and>
    (code = 204 \<longleftrightarrow> (\<forall>g gs. grants_of (os_job_manager st) j \<noteq> Some (g # gs))) \<and>
    snd (get_credentials_handler s (fst (report_complete env st j ok msg)) j) = (204, JNull)"
proof (intro conjI)
  show "code = 200 \<longrightarrow> (\<exists>grants vs. grants_of (os_job_manager st) j = Some grants \<and> length vs = length grants \<and>
      body = JArray (map credential_json (zip (map cg_env_var grants) vs)) \<and>
      (\<forall>k < length grants. sa_get_decrypted secrets (os_user_id st) (cg_secret_name (grants ! k)) = Ok (vs ! k)))"
  proof
    assume "code = 200"
    with assms obtain grants cs used where g: "grants_of (os_job_manager st) j = Some grants"
      and "serve_grants secrets (os_user_id st) grants [] (os_usage st) = (Some cs, used)" and b: "body = JArray (map credential_json cs)"
      by (auto simp: get_credentials_handler_def grants_of_def split: option.splits if_splits prod.splits)
    from serve_grants_exact [OF this(2)] g b show "\<exists>grants vs. grants_of (os_job_manager st) j = Some grants \<and> length vs = length grants \<and>
      body = JArray (map credential_json (zip (map cg_env_var grants) vs)) \<and>
      (\<forall>k < length grants. sa_get_decrypted secrets (os_user_id st) (cg_secret_name (grants ! k)) = Ok (vs ! k))" by auto
  qed
  show "code = 204 \<longleftrightarrow> (\<forall>g gs. grants_of (os_job_manager st) j \<noteq> Some (g # gs))"
    using assms by (auto simp: get_credentials_handler_def grants_of_def neq_Nil_conv split: option.splits if_splits prod.splits)
  obtain jm r calls where c: "complete_job env (os_job_manager st) j \<lparr>cp_success = ok, cp_message = msg\<rparr> = (jm, r, calls)" by (metis surj_pair)
  have "grants_of jm j = None" using complete_job_view(3) [OF c, of j] by simp
  then show "snd (get_credentials_handler s (fst (report_complete env st j ok msg)) j) = (204, JNull)"
    by (simp add: report_complete_def c get_credentials_handler_def grants_of_def)
qed

theorem credentials_only_granted_witness:
  "\<exists>st' body. get_credentials_handler (Some \<lparr>sa_get_decrypted = (\<lambda>_ _. Ok ''tok''), sa_get = (\<lambda>_ _. True)\<rparr>) sample_state 7 = (st', (200, body)) \<and>
     (\<exists>(grants :: credential_grant list) vs. body = JArray (map credential_json (zip (map cg_env_var grants) vs)))"
proof -
  let ?s = "\<lparr>sa_get_decrypted = (\<lambda>_ _. Ok ''tok''), sa_get = (\<lambda>_ _. True)\<rparr>"
  have "get_grants (jm_token_store sample_manager) 7 = Some [\<lparr>cg_secret_name = ''gh'', cg_env_var = ''GH''\<rparr>]"
    using create_job_view(1) [OF sample_created refl] by (simp add: grants_of_def)
  then obtain st' body where r: "get_credentials_handler (Some ?s) sample_state 7 = (st', (200, body))"
    by (simp add: get_credentials_handler_def sample_state_def)
  from credentials_only_granted [OF r, THEN conjunct1] have
    "\<exists>(grants :: credential_grant list) vs. body = JArray (map credential_json (zip (map cg_env_var grants) vs))" by blast
  with r show ?thesis by blast
qed

text \<open>C24: A job is locked out from the moment its token is revoked.  A completion ends with the revocation of the job's token, as do
  a successful stop and a failed creation; whatever sections of other calls come before, between and after, as long as
  no creation opens the job again, every request in its name is then answered with 401 and changes nothing, whatever token it
  presents, and no grant is left for it.  Until then it is not: a completion marks the handle as stopped first and
  the token stays valid while the container is being stopped.  No handle ever says failed.\<close>

theorem stopped_jobs_locked_out:
  assumes "os_job_manager st = foldl manager_step (job_manager_new config token_store_new) (before @ RevokeToken j # after)"
    and "\<forall>op \<in> set after. \<not> opens_job j op"
    and "CHR ''/'' \<notin> set segment" and "ae_parse_uuid ae segment = Some j"
  shows "(\<exists>reply. serve_worker ae st segment auth req = (st, reply) \<and> fst reply = 401) \<and> grants_of (os_job_manager st) j = None \<and>
    (\<forall>i h. get_handle (os_job_manager st) i = Some h \<longrightarrow> ch_job_id h = i \<and> ch_state h \<noteq> CFailed) \<and>
    fst (complete_job env jm j res) = foldl manager_step jm [CompleteMark j res, CompleteContainer env j, RevokeToken j] \<and>
    (fst (snd (stop_job env jm j)) = Ok () \<longrightarrow>
       fst (stop_job env jm j) = foldl manager_step jm [StopContainer env j, StopMark j, RevokeToken j]) \<and>
    (\<forall>e. fst (snd (create_container_job env jm j task dir mode grants bytes now)) = Err e \<longrightarrow>
       fst (create_container_job env jm j task dir mode grants bytes now) =
         foldl manager_step jm [CreateToken j bytes, StoreGrants j grants, InsertHandle j task dir mode now,
           CreateContainer env j (generate_token bytes) dir mode, RevokeToken j, RemoveHandle j]) \<and>
    (\<forall>h. get_handle jm j = Some h \<longrightarrow>
       (\<exists>h'. get_handle (foldl manager_step jm [CompleteMark j res, CompleteContainer env j]) j = Some h' \<and> ch_state h' = CStopped) \<and>
       token_of (foldl manager_step jm [CompleteMark j res, CompleteContainer env j]) j = token_of jm j)"
proof (intro conjI)
  let ?jm0 = "job_manager_new config token_store_new"
  have "closed_job j (manager_step (foldl manager_step ?jm0 before) (RevokeToken j))" by (simp add: closed_job_def)
  then have closed: "closed_job j (os_job_manager st)" using assms(1,2) by (simp add: closed_job_run)
  then show "grants_of (os_job_manager st) j = None" by (simp add: closed_job_def)
  show "\<exists>reply. serve_worker ae st segment auth req = (st, reply) \<and> fst reply = 401"
    using serve_worker_effects(1) [OF assms(3,4)] closed
    by (cases "serve_worker ae st segment auth req") (auto simp: closed_job_def)
  have "jobs_inv ?jm0" by (simp add: jobs_inv_def get_handle_def job_manager_new_def)
  then have "jobs_inv (os_job_manager st)" unfolding assms(1) by (rule container_jobs.run_inv)
  then show "\<forall>i h. get_handle (os_job_manager st) i = Some h \<longrightarrow> ch_job_id h = i \<and> ch_state h \<noteq> CFailed"
    by (simp add: jobs_inv_def)
qed (auto simp del: foldl.simps simp: job_sections, auto simp: section_views complete_mark_def get_handle_update)

lemma sample_opened: "\<forall>op \<in> set [CompleteMark 7 \<lparr>cp_success = True, cp_message = None\<rparr>, StopMark 7, FinishCreate 7 ''c1'']. \<not> opens_job 7 op"
  by simp

theorem stopped_jobs_locked_out_witness:
  "let st = sample_state\<lparr>os_job_manager := foldl manager_step (job_manager_new sample_config token_store_new)
       ([CreateToken 7 [1], InsertHandle 7 ''task'' None WorkerMode 0] @
        RevokeToken 7 # [CompleteMark 7 \<lparr>cp_success = True, cp_message = None\<rparr>, StopMark 7, FinishCreate 7 ''c1''])\<rparr>
   in \<forall>auth. \<exists>reply. serve_worker sample_api st ''7'' auth GetJob = (st, reply) \<and> fst reply = 401"
proof -
  let ?st = "sample_state\<lparr>os_job_manager := foldl manager_step (job_manager_new sample_config token_store_new)
       ([CreateToken 7 [1], InsertHandle 7 ''task'' None WorkerMode 0] @
        RevokeToken 7 # [CompleteMark 7 \<lparr>cp_success = True, cp_message = None\<rparr>, StopMark 7, FinishCreate 7 ''c1''])\<rparr>"
  have p: "CHR ''/'' \<notin> set ''7''" "ae_parse_uuid sample_api ''7'' = Some 7" by (simp_all add: sample_api_def)
  have "os_job_manager ?st = foldl manager_step (job_manager_new sample_config token_store_new)
       ([CreateToken 7 [1], InsertHandle 7 ''task'' None WorkerMode 0] @
        RevokeToken 7 # [CompleteMark 7 \<lparr>cp_success = True, cp_message = None\<rparr>, StopMark 7, FinishCreate 7 ''c1''])" by simp
  from stopped_jobs_locked_out [OF this sample_opened p] show ?thesis unfolding Let_def by blast
qed

text \<open>A report that comes early is lost.  A worker that reports its completion while the creation has started its container but
  not yet written its identifier into the handle finds no container to stop; the last section of the creation then sets the
  handle to running again.  The job ends up running for ever in the books, with its result recorded, its token revoked
  and its container never stopped.\<close>

theorem early_completion_lost:
  assumes "create_begin jm j task dir mode grants bytes now = (jm1, token)"
    and "create_container env jm1 j token dir mode = (jm2, Ok cid, calls)"
    and "complete_job env jm2 j result = (jm3, r, calls')"
  shows "calls' = [] \<and> token_of (create_finish jm3 j cid) j = None \<and>
    (\<exists>h. get_handle (create_finish jm3 j cid) j = Some h \<and> ch_state h = CRunning \<and> ch_container_id h = cid \<and> ch_completion_result h = Some result)"
proof -
  have g: "get_handle jm2 = get_handle jm1" using create_container_keeps [OF assms(2)] by (intro get_handle_cong) simp
  obtain h where h: "get_handle jm2 j = Some h" "ch_container_id h = []" using create_begin_view(4) [OF assms(1)] g by auto
  note v = complete_job_view [OF assms(3)]
  have "get_handle jm3 j = Some (h\<lparr>ch_completion_result := Some result, ch_state := CStopped\<rparr>)" using v(1) [of j] h(1) by simp
  moreover have "token_of jm3 j = None" using v(2) [of j] by simp
  ultimately show ?thesis using v(5) [OF h] by (simp add: create_finish_def get_handle_update token_of_def)
qed

theorem early_completion_lost_witness:
  "\<exists>jm1 token jm2 calls jm3 r calls'. create_begin (job_manager_new sample_config token_store_new) 7 ''task'' None WorkerMode [] [1] 0 = (jm1, token) \<and>
     create_container sample_orchestrator jm1 7 token None WorkerMode = (jm2, Ok ''c1'', calls) \<and>
     complete_job sample_orchestrator jm2 7 \<lparr>cp_success = True, cp_message = None\<rparr> = (jm3, r, calls') \<and>
     (\<exists>h. get_handle (create_finish jm3 7 ''c1'') 7 = Some h \<and> ch_state h = CRunning)"
proof -
  obtain jm1 token where b: "create_begin (job_manager_new sample_config token_store_new) 7 ''task'' None WorkerMode [] [1] 0 = (jm1, token)" by fastforce
  obtain jm2 calls where c: "create_container sample_orchestrator jm1 7 token None WorkerMode = (jm2, Ok ''c1'', calls)"
    by (cases "jm_docker jm1") (auto simp: create_container_def manager_docker_def ensure_image_ready_def sample_orchestrator_def Let_def)
  obtain jm3 r calls' where d: "complete_job sample_orchestrator jm2 7 \<lparr>cp_success = True, cp_message = None\<rparr> = (jm3, r, calls')"
    by (metis surj_pair)
  from early_completion_lost [OF b c d] b c d show ?thesis by blast
qed

text \<open>C25: What a container can see of the host is its project.  The container of a job without a project directory has no mount; with
  one, its only mount is the physical path of that directory, which lies in or under the physical projects
  directory of the user; and a container of the plain worker carries neither of the keys of the coding agents.\<close>

theorem job_mounts_confined:
  assumes "create_container_job env jm j task dir mode grants bytes now = (jm', r, calls)" and "CreateWorker cfg \<in> set calls"
  shows "(dir = None \<longrightarrow> wh_binds (wc_host_config cfg) = None) \<and>
    (\<forall>d. dir = Some d \<longrightarrow> (\<exists>ns home base fs'. locate (oe_fs env) d = Some ns \<and> oe_home env = Some home \<and>
       create_dir_all (oe_fs env) (join_path (join_path home [Normal ''.ironclaw'']) [Normal ''projects'']) = Some fs' \<and>
       locate fs' (join_path (join_path home [Normal ''.ironclaw'']) [Normal ''projects'']) = Some base \<and> take (length base) ns = base \<and>
       wh_binds (wc_host_config cfg) = Some [path_display (abs_path ns) @ '':/workspace:rw''])) \<and>
    (mode = WorkerMode \<longrightarrow> length (wc_env cfg) = (if dir = None then 3 else 4) \<and>
       (\<forall>e \<in> set (wc_env cfg). starts_with e ''IRONCLAW_''))"
proof -
  obtain jm1 token where b: "create_begin jm j task dir mode grants bytes now = (jm1, token)" by fastforce
  obtain jm2 q where c: "create_container env jm1 j token dir mode = (jm2, q, calls)"
    using assms(1) by (auto simp: create_container_job_def b split: prod.splits sum.splits)
  from create_container_calls [OF c] assms(2) obtain canonical where
    can: "case dir of None \<Rightarrow> canonical = None | Some d \<Rightarrow> (\<exists>c. validate_bind_mount_path env d j = Ok c \<and> canonical = Some c)"
    and cfg: "cfg = worker_config env (jm_config jm1) j token canonical mode" by auto
  have valid: "\<exists>ns home base fs'. locate (oe_fs env) d = Some ns \<and> oe_home env = Some home \<and>
       create_dir_all (oe_fs env) (join_path (join_path home [Normal ''.ironclaw'']) [Normal ''projects'']) = Some fs' \<and>
       locate fs' (join_path (join_path home [Normal ''.ironclaw'']) [Normal ''projects'']) = Some base \<and> take (length base) ns = base \<and>
       c = abs_path ns" if "validate_bind_mount_path env d j = Ok c" for d c
    using that by (auto simp: validate_bind_mount_path_def canonicalize_def abs_path_starts_with Let_def split: option.splits if_splits)
  have binds: "wh_binds (wc_host_config cfg) = map_option (\<lambda>d. [path_display d @ '':/workspace:rw'']) canonical"
    by (cases canonical) (simp_all add: cfg worker_config_def Let_def)
  have env: "mode = WorkerMode \<longrightarrow> length (wc_env cfg) = (if canonical = None then 3 else 4) \<and> (\<forall>e \<in> set (wc_env cfg). starts_with e ''IRONCLAW_'')"
    by (simp add: cfg worker_config_def mode_env_def starts_with_def Let_def)
  show ?thesis
  proof (cases dir)
    case None
    with can binds env show ?thesis by simp
  next
    case (Some d)
    with can obtain c where "validate_bind_mount_path env d j = Ok c" "canonical = Some c" by auto
    with valid [OF this(1)] binds env Some show ?thesis by auto
  qed
qed

theorem job_mounts_confined_witness:
  "wh_binds (wc_host_config (worker_config sample_orchestrator sample_config 7 (generate_token [1]) None WorkerMode)) = None"
  using job_mounts_confined [OF sample_created, of "worker_config sample_orchestrator sample_config 7 (generate_token [1]) None WorkerMode"]
  by simp

text \<open>An empty key hides the login.  A configured key of blanks does not count when the manager is asked whether the coding agent
  is available, so that a login token makes it so; but the container is then given the blank key, and not the token.\<close>

theorem blank_key_hides_login:
  assumes "trim key = []" and "trim login \<noteq> []"
    and "jc_claude_code_api_key c = Some key" and "jc_claude_code_oauth_token c = Some login" and "jc_claude_code_allowed_tools c = []"
  shows "claude_code_available c \<and> mode_env env c ClaudeCode = [''ANTHROPIC_API_KEY='' @ key]"
  using assms by (simp add: claude_code_available_def mode_env_def)

theorem blank_key_hides_login_witness:
  "mode_env sample_orchestrator (sample_config\<lparr>jc_claude_code_api_key := Some []\<rparr>) ClaudeCode = [''ANTHROPIC_API_KEY='']"
  using blank_key_hides_login [of "[]" "''oauth''" "sample_config\<lparr>jc_claude_code_api_key := Some []\<rparr>" sample_orchestrator]
  by (simp add: sample_config_def trim_def trim_start_def trim_end_def is_whitespace_def char_code_def)

end
