(* ===== verification/Spec2Isabelle.thy ===== *)
theory Spec2Isabelle
  imports Thread_Ops Circuit_Breaker Failover Cost_Guard Allowlist Pairing Agent_Stack Rate_Limiter
    Response_Cache Retry Credentials Worker_Auth Skill_Registry Subtasks Job_Commands Compaction Chunker File_Tools
    Http_Tool Routine_Tools Heartbeat Reasoning Sandbox Container_Jobs
begin

text \<open>
  \<^bold>\<open>A verification library for the agent core.\<close>

  The program is a personal assistant written in Rust.  A message arrives on a channel, is parsed into a
  submission, is resolved to a thread of the user's session and is handled there: commands change the
  thread, user input starts a turn, a turn runs the agentic loop, and the loop calls a language model
  and the tools it asks for, some of them only after the user has approved.  Beside the conversation run
  jobs: in the process, by a scheduler and its workers, or in containers, which talk back to an
  orchestrator; and routines, which fire by time or by event.  Around all this stand the limits and
  guards: hooks, safety checks, allowlists, secrets, sandbox, cost guard, circuit breaker, failover.

  \<^bold>\<open>The theories and what they model\<close> (paths under \<^verbatim>\<open>src/src\<close>).

  \<^item> \<open>Prelude\<close>, \<open>Util\<close>: results as sums, JSON values, the string functions of Rust's standard library the
    code uses, \<^verbatim>\<open>util.rs\<close>, association lists, and the locale \<open>inv_machine\<close>: a state with operations and an
    invariant each operation keeps, from which every run keeps it.  Components with an invariant
    interpret it on their own operations.
  \<^item> Conversation.  \<open>Session\<close>, \<open>Undo\<close>, \<open>Session_Manager\<close>, \<open>Submission\<close>, \<open>Tool_Stream\<close>, \<open>Dispatcher\<close>, \<open>Thread_Ops\<close>,
    \<open>Compaction\<close>, \<open>Job_Commands\<close> and \<open>Subtasks\<close> model the files of \<^verbatim>\<open>agent\<close> with these roles; \<open>Llm_Types\<close> holds the messages and
    errors of \<^verbatim>\<open>llm/provider.rs\<close> and \<^verbatim>\<open>error.rs\<close>, \<open>Reasoning\<close> is \<^verbatim>\<open>llm/reasoning.rs\<close>.  The locale \<open>history\<close> states undo and
    redo as inverse moves, \<open>turn_loop\<close> what the handlers of a thread rely on from the loop: it changes its
    session only by annotating its own thread.
  \<^item> Jobs.  \<open>Job_State\<close>, \<open>Context_Memory\<close>, \<open>Context_Manager\<close> (\<^verbatim>\<open>context\<close>), \<open>Worker\<close> and \<open>Scheduler\<close> (\<^verbatim>\<open>agent/worker.rs\<close>,
    \<^verbatim>\<open>agent/scheduler.rs\<close>, \<^verbatim>\<open>agent/self_repair.rs\<close>).  The context manager is split at its locks.
  \<^item> Routines.  \<open>Routine\<close> (data and SQL over two backends behind the locale \<open>sql_codec\<close>), \<open>Routine_Engine\<close> (a step
    relation), \<open>Routine_Tools\<close>, \<open>Heartbeat\<close>.
  \<^item> Tools.  \<open>Shell\<close>, \<open>File_System\<close>, \<open>File_Tools\<close>, \<open>Http_Tool\<close>, \<open>Tool_Registry\<close> (\<^verbatim>\<open>tools\<close>), \<open>Rate_Limiter\<close>, \<open>Allowlist\<close>,
    \<open>Credentials\<close> (\<^verbatim>\<open>tools/wasm\<close>), \<open>Skills\<close>, \<open>Skill_Registry\<close> (\<^verbatim>\<open>skills\<close>), \<open>Chunker\<close> (\<^verbatim>\<open>workspace/chunker.rs\<close>).  The two matchers of host
    patterns rest on the locale \<open>host_matcher\<close>.
  \<^item> Containers.  \<open>Sandbox_Proxy\<close> and \<open>Sandbox\<close> (\<^verbatim>\<open>sandbox\<close>): the network proxy, the containers of single commands, their
    manager and its use by the shell tool.  \<open>Worker_Auth\<close> and \<open>Container_Jobs\<close> (\<^verbatim>\<open>orchestrator\<close>): tokens, the manager of
    container jobs and the API the containers call.
  \<^item> Guards.  \<open>Hooks\<close>, \<open>Validator\<close>, \<open>Leak_Detector\<close>, \<open>Safety\<close> (\<^verbatim>\<open>hooks\<close>, \<^verbatim>\<open>safety\<close>), \<open>Agent_Stack\<close> (the loop with hooks, safety layer and
    shell tool put in its open places), \<open>Cost_Guard\<close>, \<open>Circuit_Breaker\<close>, \<open>Failover\<close>, \<open>Retry\<close>, \<open>Response_Cache\<close> (\<^verbatim>\<open>llm\<close>), \<open>Pairing\<close>.

  \<^bold>\<open>How code becomes definitions.\<close>  A struct is a record whose fields carry a prefix, an enum a datatype
  with the source's constructors (with a prefix where two enums share one), a method a function on the
  record under the method's name, with a prefix where two structs share a name.  A \<open>HashMap\<close> is an
  association list read by \<open>map_of\<close>, because the code iterates over some of them.  \<open>u32\<close> and \<open>u64\<close> counters are words
  where they can wrap, \<open>usize\<close> lengths are \<open>nat\<close>.  A string is the list of its UTF-8 bytes; white space and
  letter case are those of ASCII.  \<open>Result\<close> is a sum with the error on the left; where the code can
  panic, the result is an option and a panic is \<open>None\<close>.  Readings of a clock and fresh UUIDs are arguments;
  instants count nanoseconds, time stamps in tables their stored precision.  A lock section is one function,
  so a sequence of such functions is an interleaving.  Money and ratios of floating-point numbers are exact.  A
  table of the database is the list of its rows.

  What is not in these theories enters as an argument: third-party crates (\<open>url\<close>, \<open>serde_json\<close>, \<open>uuid\<close>,
  \<open>chrono\<close>, \<open>rand\<close>, \<open>reqwest\<close>, \<open>hyper\<close>, \<open>bollard\<close>) as functions, and the collaborators of a component as the fields of a
  record such as \<open>loop_env\<close>, \<open>agent_env\<close>, \<open>pairing_env\<close>, \<open>proxy_env\<close>, \<open>docker_env\<close>.  The theorems hold for all of
  them; the few that rely on documented behaviour, such as reading back what a JSON printer wrote, say so as a
  hypothesis.

  \<^bold>\<open>Loops.\<close>  The agentic loop is a total function by the measure \<open>MAX_TOOL_ITERATIONS\<close> minus the iteration, which is
  the bound the code checks; the worker makes at most fifty passes by its own bound; the loop of the chunker is a
  partial function into options that is proved to return; the lookup of paths follows at most forty links, the
  limit of the operating system; polling loops and the heartbeat run over the list of their rounds.  The
  other loops are structural recursions over the lists the code iterates over.

  \<^bold>\<open>What the theorems show.\<close>
  \<^item> Approval and tools: no tool runs without the approval its registration demands, in the loop, from
    the stream, in a worker, or by an answer to a request; the loop ends after at most ten model calls and sends
    only contexts in which every tool call is answered; a tool call recovered from text names an offered tool.
  \<^item> Conversations: threads and sessions keep their invariants, checkpoints are lossless, undo and redo
    are inverse over any number of steps and over whole turns, user input never leaves a thread in the
    processing state, compaction keeps the recent turns.
  \<^item> Jobs and routines: the permitted transitions and final states, the limit on parallel jobs under
    interleaving, workers that settle and refine the abstract moves, the invariants of scheduler and routine
    engine, the exact firing of event routines, the round trip of routines through both databases.
  \<^item> Confinement: file tools write only under their directory (and where a dangling link lets them out),
    shell commands pass the guard, sandboxed commands never run on the host, the proxy itself connects only to listed
    hosts and sends a secret only to the hosts of its mapping (its client follows redirects of those hosts unchecked), a
    worker's token opens its own job, a worker acts on its own job only, a job is locked out once its token is revoked, also while
    other calls of the manager are under way, and mounts lie in the projects directory.
  \<^item> Guards: the breaker opens at its threshold of failures since the last success and probes after its timeout, failover asks the
    providers out of cooldown in order until one answers, the hourly limit is kept up to the calls concurrent loops have in flight,
    the candidates of leak scans and output wrapping are exact,
    an allowed request matches a pattern and carries no dot segments and no credentials.
  \<^item> Where the code does less than it means to, the theorem states what it does: early runs from the stream
    pass no hook, approvals of senders replace each other, a late success closes an open circuit, an early report of a
    container's completion is lost, output cut inside a character panics, keys travel in clear to plain http, failed calls
    do not count for the hourly limit, one blocked pattern of the shell never matches, the key pattern of one provider is never a
    candidate of the leak scan, the channel and user a routine names for its notifications are ignored.

  \<^bold>\<open>Not modelled\<close>: channels, command line, setup, configuration, the web gateway, the WASM runtime and channels, the MCP client,
  the tool builder, embeddings, search and most tables of the database are input and output, generated by or thin over
  third-party engines; the process inside a container is a client of the API modelled here.  The kernel
  monitor, reflexes and the shadow engine enter the turn as parameters.  Status messages and logs are output
  only.  Concurrency is modelled at lock sections in the context manager, the tool registry, the job manager, the routine
  engine (where every routine of a check has its own reading of clock and database) and the cost guard, by the interleaved
  events of the circuit breaker and by the unfinished early runs of the loop; other tasks do not change a session while one
  message is handled.  The stop of a scheduled job and one call of the failover provider are uninterrupted, and so is the
  creation of a container job where a theorem speaks of its result.
\<close>

end
